(* ===== verification/Js_Prelude.thy ===== *)
theory Js_Prelude
  imports Main "HOL-Library.Word" "HOL-Library.Sublist" "HOL-Library.Multiset"
begin

text \<open>
  The values and effects of the host language that every component shares.

  \<^item> A JavaScript string is a list of UTF-16 code units (\<open>jsstring\<close>), because the code
    measures and sub_lists strings by code unit; \<open>js ''abc''\<close> is the string of an ASCII literal.
  \<^item> A JSON value is a \<open>json\<close>; numbers are kept as the text JSON prints for them.
    \<open>stringify\<close> is \<open>JSON.stringify\<close> without indentation.
  \<^item> An effectful call is a function from the world to a result and the new world; the
    result is \<open>Inl message\<close> when the call throws and \<open>Inr value\<close> when it returns
    (\<open>eff\<close>, with \<open>ret\<close>, \<open>throw\<close>, \<open>bind_eff\<close> and \<open>each_eff\<close> for a \<open>for ... await\<close> loop).
  \<^item> General lemmas on lists and maps.
\<close>

named_theorems eff_simps \<open>unfolding rules for the effect combinators\<close>

section \<open>Strings\<close>

type_synonym jsstring = "16 word list"

definition js :: "string \<Rightarrow> jsstring" where
  "js s = map of_char s"

lemma unat_of_char16 [simp]: "unat (of_char c :: 16 word) = of_char c"
proof -
  have lt: "(of_char c :: nat) < 256"
    by simp
  have "unat (of_nat (of_char c) :: 16 word) = (of_char c :: nat) mod 2 ^ 16"
    by (simp only: unat_of_nat) simp
  also have "\<dots> = of_char c"
    by (intro mod_less) (rule less_trans [OF lt], simp)
  finally show ?thesis
    by (simp only: of_nat_of_char)
qed

lemma of_char16_eq_iff [simp]: "(of_char c :: 16 word) = of_char d \<longleftrightarrow> c = d"
proof
  assume "(of_char c :: 16 word) = of_char d"
  then have "unat (of_char c :: 16 word) = unat (of_char d :: 16 word)"
    by simp
  then show "c = d"
    by simp
qed simp

lemma js_eq_iff [simp]: "js s = js t \<longleftrightarrow> s = t"
  by (simp add: js_def inj_map_eq_map inj_def)

lemma js_Nil [simp]: "js [] = []"
  by (simp add: js_def)

lemma js_eq_Nil [simp]: "js s = [] \<longleftrightarrow> s = []" "[] = js s \<longleftrightarrow> s = []"
  by (auto simp: js_def)

lemma length_js [simp]: "length (js s) = length s"
  by (simp add: js_def)

lemma js_append: "js (s @ t) = js s @ js t"
  by (simp add: js_def)

definition join_with :: "jsstring \<Rightarrow> jsstring list \<Rightarrow> jsstring" where
  "join_with sep xs = concat (case xs of [] \<Rightarrow> [] | y # ys \<Rightarrow> y # map (\<lambda>z. sep @ z) ys)"

lemma join_with_simps [simp]:
  "join_with sep [] = []"
  "join_with sep [x] = x"
  "join_with sep (x # y # zs) = x @ sep @ join_with sep (y # zs)"
  by (simp_all add: join_with_def)

lemma join_with_append:
  "xs \<noteq> [] \<Longrightarrow> ys \<noteq> [] \<Longrightarrow> join_with sep (xs @ ys) = join_with sep xs @ sep @ join_with sep ys"
proof (induction xs rule: induct_list012)
  case (2 x)
  then show ?case by (cases ys) simp_all
next
  case (3 x y zs)
  then show ?case by simp
qed simp

text \<open>\<open>String.prototype.split\<close> on a one-unit separator: never empty.\<close>

fun split_on :: "16 word \<Rightarrow> jsstring \<Rightarrow> jsstring list" where
  "split_on c [] = [[]]"
| "split_on c (x # xs) =
     (if x = c then [] # split_on c xs
      else (case split_on c xs of [] \<Rightarrow> [[x]] | l # ls \<Rightarrow> (x # l) # ls))"

lemma split_on_neq_Nil [simp]: "split_on c s \<noteq> []"
  by (induction s) (auto split: list.splits)

lemma join_split_on: "join_with [c] (split_on c s) = s"
proof (induction s)
  case (Cons x xs)
  obtain l ls where ls: "split_on c xs = l # ls"
    by (cases "split_on c xs") auto
  show ?case
    using Cons.IH ls by (cases ls) auto
qed simp

lemma split_on_no_sep: "l \<in> set (split_on c s) \<Longrightarrow> c \<notin> set l"
proof (induction s arbitrary: l)
  case (Cons x xs)
  then show ?case
    by (cases "split_on c xs") (auto split: if_splits)
qed simp

text \<open>\<open>trim\<close>, \<open>trimEnd\<close>: the language's white space and line terminators.\<close>

definition is_js_space :: "16 word \<Rightarrow> bool" where
  "is_js_space u \<longleftrightarrow>
     (9 \<le> u \<and> u \<le> 13) \<or> u = 32 \<or> u = 0xA0 \<or> u = 0x1680 \<or> (0x2000 \<le> u \<and> u \<le> 0x200A)
     \<or> u = 0x2028 \<or> u = 0x2029 \<or> u = 0x202F \<or> u = 0x205F \<or> u = 0x3000 \<or> u = 0xFEFF"

definition trim_end :: "jsstring \<Rightarrow> jsstring" where
  "trim_end s = rev (dropWhile is_js_space (rev s))"

definition trim_js :: "jsstring \<Rightarrow> jsstring" where
  "trim_js s = trim_end (dropWhile is_js_space s)"

text \<open>Decimal digits of a count, as string interpolation prints it.\<close>

fun dec_digits :: "nat \<Rightarrow> string" where
  "dec_digits n =
     (if n < 10 then [char_of (48 + n)] else dec_digits (n div 10) @ [char_of (48 + n mod 10)])"

declare dec_digits.simps [simp del]

definition show_nat :: "nat \<Rightarrow> jsstring" where
  "show_nat n = js (dec_digits n)"

definition show_int :: "int \<Rightarrow> jsstring" where
  "show_int i = (if i < 0 then js ''-'' @ show_nat (nat (- i)) else show_nat (nat i))"

section \<open>JSON\<close>

datatype json =
    JNull
  | JBool bool
  | JNum jsstring
  | JStr jsstring
  | JArr "json list"
  | JObj "(jsstring \<times> json) list"

text \<open>A property of a value, when it is an object that has it.\<close>

fun json_field :: "jsstring \<Rightarrow> json \<Rightarrow> json option" where
  "json_field k (JObj kvs) = map_of kvs k"
| "json_field k _ = None"

definition hex4 :: "nat \<Rightarrow> jsstring" where
  "hex4 n = map (\<lambda>k. let d = n div 16 ^ k mod 16 in of_char (''0123456789abcdef'' ! d)) [3, 2, 1, 0]"

definition is_high_surrogate :: "16 word \<Rightarrow> bool" where
  "is_high_surrogate u \<longleftrightarrow> 0xD800 \<le> u \<and> u \<le> 0xDBFF"

definition is_low_surrogate :: "16 word \<Rightarrow> bool" where
  "is_low_surrogate u \<longleftrightarrow> 0xDC00 \<le> u \<and> u \<le> 0xDFFF"

definition quote_unit :: "16 word \<Rightarrow> jsstring" where
  "quote_unit u =
     (if u = 8 then js [CHR 0x5C, CHR ''b'']
      else if u = 9 then js [CHR 0x5C, CHR ''t'']
      else if u = 10 then js [CHR 0x5C, CHR ''n'']
      else if u = 12 then js [CHR 0x5C, CHR ''f'']
      else if u = 13 then js [CHR 0x5C, CHR ''r'']
      else if u = 34 then js [CHR 0x5C, CHR 0x22]
      else if u = 92 then js [CHR 0x5C, CHR 0x5C]
      else if u < 32 then js [CHR 0x5C, CHR ''u''] @ hex4 (unat u)
      else [u])"

text \<open>Well-formed stringify: a surrogate that is not part of a pair is escaped.\<close>

fun quote_units :: "jsstring \<Rightarrow> jsstring" where
  "quote_units [] = []"
| "quote_units (u # us) =
     (if is_high_surrogate u \<and> us \<noteq> [] \<and> is_low_surrogate (hd us) then u # hd us # quote_units (tl us)
      else if is_high_surrogate u \<or> is_low_surrogate u
      then js [CHR 0x5C, CHR ''u''] @ hex4 (unat u) @ quote_units us
      else quote_unit u @ quote_units us)"

definition quote_js :: "jsstring \<Rightarrow> jsstring" where
  "quote_js s = js [CHR 0x22] @ quote_units s @ js [CHR 0x22]"

fun stringify :: "json \<Rightarrow> jsstring" where
  "stringify JNull = js ''null''"
| "stringify (JBool b) = (if b then js ''true'' else js ''false'')"
| "stringify (JNum n) = n"
| "stringify (JStr s) = quote_js s"
| "stringify (JArr xs) = js ''['' @ join_with (js '','') (map stringify xs) @ js '']''"
| "stringify (JObj kvs) =
     js ''{'' @ join_with (js '','') (map (\<lambda>(k, v). quote_js k @ js '':'' @ stringify v) kvs) @ js ''}''"

section \<open>Effects that may throw\<close>

type_synonym ('w, 'a) eff = "'w \<Rightarrow> (jsstring + 'a) \<times> 'w"

definition ret :: "'a \<Rightarrow> ('w, 'a) eff" where
  "ret a = (\<lambda>w. (Inr a, w))"

definition throw :: "jsstring \<Rightarrow> ('w, 'a) eff" where
  "throw m = (\<lambda>w. (Inl m, w))"

definition bind_eff :: "('w, 'a) eff \<Rightarrow> ('a \<Rightarrow> ('w, 'b) eff) \<Rightarrow> ('w, 'b) eff" where
  "bind_eff f k = (\<lambda>w. case f w of (Inl m, w') \<Rightarrow> (Inl m, w') | (Inr a, w') \<Rightarrow> k a w')"

primrec each_eff :: "('x \<Rightarrow> ('w, unit) eff) \<Rightarrow> 'x list \<Rightarrow> ('w, unit) eff" where
  "each_eff f [] = ret ()"
| "each_eff f (x # xs) = bind_eff (f x) (\<lambda>_. each_eff f xs)"

lemma bind_eff_Inr [eff_simps]:
  "bind_eff f k w = (Inr b, w'') \<longleftrightarrow> (\<exists>a w'. f w = (Inr a, w') \<and> k a w' = (Inr b, w''))"
  by (auto simp: bind_eff_def split: prod.splits sum.splits)

lemma bind_eff_Inl [eff_simps]:
  "bind_eff f k w = (Inl m, w'') \<longleftrightarrow>
     f w = (Inl m, w'') \<or> (\<exists>a w'. f w = (Inr a, w') \<and> k a w' = (Inl m, w''))"
  by (auto simp: bind_eff_def split: prod.splits sum.splits)

lemma ret_simps [eff_simps]:
  "ret a w = (Inr b, w') \<longleftrightarrow> b = a \<and> w' = w" "ret a w \<noteq> (Inl m, w')"
  by (auto simp: ret_def)

lemma throw_simps [eff_simps]:
  "throw m w = (Inl m', w') \<longleftrightarrow> m' = m \<and> w' = w" "throw m w \<noteq> (Inr b, w')"
  by (auto simp: throw_def)

section \<open>Lists and maps\<close>

text \<open>The last element satisfying a predicate, and its index, as a backward scan finds it.\<close>

definition find_last :: "('a \<Rightarrow> bool) \<Rightarrow> 'a list \<Rightarrow> 'a option" where
  "find_last P xs = find P (rev xs)"

fun index_of :: "('a \<Rightarrow> bool) \<Rightarrow> 'a list \<Rightarrow> nat option" where
  "index_of P [] = None"
| "index_of P (x # xs) = (if P x then Some 0 else map_option Suc (index_of P xs))"

fun last_index_of :: "('a \<Rightarrow> bool) \<Rightarrow> 'a list \<Rightarrow> nat option" where
  "last_index_of P [] = None"
| "last_index_of P (x # xs) =
     (case last_index_of P xs of Some i \<Rightarrow> Some (Suc i) | None \<Rightarrow> if P x then Some 0 else None)"

lemma index_of_Some:
  "index_of P xs = Some i \<Longrightarrow> i < length xs \<and> P (xs ! i) \<and> (\<forall>j < i. \<not> P (xs ! j))"
proof (induction xs arbitrary: i)
  case (Cons x xs)
  show ?case
  proof (cases "P x")
    case True
    with Cons.prems show ?thesis by simp
  next
    case False
    with Cons.prems obtain k where "index_of P xs = Some k" "i = Suc k" by auto
    with Cons.IH [of k] False show ?thesis by (auto simp: less_Suc_eq_0_disj)
  qed
qed simp

lemma index_of_None: "index_of P xs = None \<longleftrightarrow> (\<forall>x \<in> set xs. \<not> P x)"
  by (induction xs) auto

lemma last_index_of_None: "last_index_of P xs = None \<longleftrightarrow> (\<forall>x \<in> set xs. \<not> P x)"
  by (induction xs) (auto split: option.splits)

lemma last_index_of_Some:
  "last_index_of P xs = Some i \<Longrightarrow>
     i < length xs \<and> P (xs ! i) \<and> (\<forall>j. i < j \<and> j < length xs \<longrightarrow> \<not> P (xs ! j))"
proof (induction xs arbitrary: i)
  case (Cons x xs)
  show ?case
  proof (cases "last_index_of P xs")
    case None
    then have "\<forall>y \<in> set xs. \<not> P y" by (simp add: last_index_of_None)
    with None Cons.prems show ?thesis by (auto simp: nth_Cons split: nat.splits if_splits)
  next
    case (Some k)
    with Cons.prems have "i = Suc k" by simp
    with Cons.IH [OF Some] show ?thesis by (auto simp: nth_Cons split: nat.splits)
  qed
qed simp

lemma index_of_append:
  "index_of P (xs @ ys) =
     (case index_of P xs of Some i \<Rightarrow> Some i | None \<Rightarrow> map_option (\<lambda>i. length xs + i) (index_of P ys))"
  by (cases "index_of P ys"; induction xs) (auto split: option.splits)

text \<open>\<open>sub_list i j\<close>: the elements at indices \<open>i, \<dots>, j - 1\<close>.\<close>

definition sub_list :: "nat \<Rightarrow> nat \<Rightarrow> 'a list \<Rightarrow> 'a list" where
  "sub_list i j xs = drop i (take j xs)"

lemma sub_list_append: "i \<le> j \<Longrightarrow> j \<le> k \<Longrightarrow> sub_list i j xs @ sub_list j k xs = sub_list i k xs"
proof -
  assume "i \<le> j" "j \<le> k"
  have "sub_list i k xs = drop i (take j xs @ drop j (take k xs))"
    using \<open>j \<le> k\<close> by (metis append_take_drop_id min.absorb1 sub_list_def take_take)
  also have "\<dots> = sub_list i j xs @ drop (i - length (take j xs)) (drop j (take k xs))"
    by (simp add: sub_list_def)
  also have "drop (i - length (take j xs)) (drop j (take k xs)) = sub_list j k xs"
  proof (cases "j \<le> length xs")
    case True
    with \<open>i \<le> j\<close> show ?thesis by (simp add: sub_list_def)
  next
    case False
    then show ?thesis by (simp add: sub_list_def)
  qed
  finally show ?thesis by simp
qed

lemma sub_list_same [simp]: "sub_list i i xs = []"
  by (simp add: sub_list_def)

lemma sub_list_full [simp]: "sub_list i (length xs) xs = drop i xs"
  by (simp add: sub_list_def)

lemma map_of_map_snd_self:
  "distinct (map f xs) \<Longrightarrow> x \<in> set xs \<Longrightarrow> map_of (map (\<lambda>y. (f y, y)) xs) (f x) = Some x"
  by (induction xs) (simp_all, metis image_eqI)

end
