(* ===== verification/Pi_Messages.thy ===== *)
theory Pi_Messages
  imports Complex_Main Js_Prelude
begin

text \<open>
  The message data model: the content blocks and message types of
  \<open>packages/ai/src/types.ts\<close>, the message types the coding agent adds
  (\<open>packages/coding-agent/src/core/messages.ts\<close>), and the conversion \<open>convertToLlm\<close>
  at the model boundary.

  Optional properties are \<open>option\<close> values, a union discriminated by a \<open>type\<close> or
  \<open>role\<close> tag is a datatype with a constructor per tag. An ISO timestamp string is the
  instant it denotes, in epoch milliseconds (\<open>iso_time\<close>), so that
  \<open>new Date(s).getTime()\<close> reads it back; entries written by the code always carry
  \<open>new Date().toISOString()\<close>. The role \<open>hookMessage\<close> occurs in session files older
  than version 3 only.
\<close>

type_synonym iso_time = int

section \<open>Content blocks\<close>

datatype user_block =
    TextBlock jsstring "jsstring option"
  | ImageBlock jsstring jsstring

record tool_call =
  tc_id :: jsstring
  tc_name :: jsstring
  tc_arguments :: json
  tc_thoughtSignature :: "jsstring option"

datatype assistant_block =
    AText jsstring "jsstring option"
  | AThinking jsstring "jsstring option" "bool option"
  | AToolCall tool_call

fun tool_call_of :: "assistant_block \<Rightarrow> tool_call option" where
  "tool_call_of (AToolCall tc) = Some tc"
| "tool_call_of _ = None"

text \<open>\<open>message.content.filter((c) => c.type === "toolCall")\<close>\<close>

definition tool_calls_of :: "assistant_block list \<Rightarrow> tool_call list" where
  "tool_calls_of bs = List.map_filter tool_call_of bs"

section \<open>Usage and stop reasons\<close>

record usage_cost =
  cost_input :: rat
  cost_output :: rat
  cost_cacheRead :: rat
  cost_cacheWrite :: rat
  cost_total :: rat

record usage =
  u_input :: nat
  u_output :: nat
  u_cacheRead :: nat
  u_cacheWrite :: nat
  u_totalTokens :: nat
  u_cost :: usage_cost

definition EMPTY_USAGE :: usage where
  "EMPTY_USAGE = \<lparr>u_input = 0, u_output = 0, u_cacheRead = 0, u_cacheWrite = 0, u_totalTokens = 0,
     u_cost = \<lparr>cost_input = 0, cost_output = 0, cost_cacheRead = 0, cost_cacheWrite = 0, cost_total = 0\<rparr>\<rparr>"

datatype stop_reason = StopR | LengthR | ToolUseR | ErrorR | AbortedR

section \<open>Messages\<close>

datatype user_content = UString jsstring | UBlocks "user_block list"

record user_message =
  um_content :: user_content
  um_timestamp :: int

record assistant_message =
  am_content :: "assistant_block list"
  am_api :: jsstring
  am_provider :: jsstring
  am_model :: jsstring
  am_responseModel :: "jsstring option"
  am_responseId :: "jsstring option"
  am_diagnostics :: "json list option"
  am_usage :: usage
  am_stopReason :: stop_reason
  am_errorMessage :: "jsstring option"
  am_timestamp :: int

record tool_result_message =
  tr_toolCallId :: jsstring
  tr_toolName :: jsstring
  tr_content :: "user_block list"
  tr_details :: "json option"
  tr_isError :: bool
  tr_timestamp :: int

datatype llm_message =
    LUser user_message
  | LAssistant assistant_message
  | LToolResult tool_result_message

record bash_execution_message =
  be_command :: jsstring
  be_output :: jsstring
  be_exitCode :: "int option"
  be_cancelled :: bool
  be_truncated :: bool
  be_fullOutputPath :: "jsstring option"
  be_timestamp :: int
  be_excludeFromContext :: bool

record custom_message =
  cm_customType :: jsstring
  cm_content :: user_content
  cm_display :: bool
  cm_details :: "json option"
  cm_timestamp :: int

record branch_summary_message =
  bsm_summary :: jsstring
  bsm_fromId :: jsstring
  bsm_timestamp :: int

record compaction_summary_message =
  csm_summary :: jsstring
  csm_tokensBefore :: nat
  csm_timestamp :: int

datatype agent_message =
    User user_message
  | Assistant assistant_message
  | ToolResult tool_result_message
  | BashExecution bash_execution_message
  | Custom custom_message
  | BranchSummary branch_summary_message
  | CompactionSummary compaction_summary_message
  | HookMessage custom_message

fun is_assistant :: "agent_message \<Rightarrow> bool" where
  "is_assistant (Assistant _) = True"
| "is_assistant _ = False"

fun is_tool_result :: "agent_message \<Rightarrow> bool" where
  "is_tool_result (ToolResult _) = True"
| "is_tool_result _ = False"

fun embed_llm :: "llm_message \<Rightarrow> agent_message" where
  "embed_llm (LUser m) = User m"
| "embed_llm (LAssistant m) = Assistant m"
| "embed_llm (LToolResult m) = ToolResult m"

section \<open>Conversion at the model boundary\<close>

abbreviation nl :: jsstring where
  "nl \<equiv> js [CHR 0x0A]"

definition COMPACTION_SUMMARY_PREFIX :: jsstring where
  "COMPACTION_SUMMARY_PREFIX =
     js ''The conversation history before this point was compacted into the following summary:''
       @ nl @ nl @ js ''<summary>'' @ nl"

definition COMPACTION_SUMMARY_SUFFIX :: jsstring where
  "COMPACTION_SUMMARY_SUFFIX = nl @ js ''</summary>''"

definition BRANCH_SUMMARY_PREFIX :: jsstring where
  "BRANCH_SUMMARY_PREFIX =
     js ''The following is a summary of a branch that this conversation came back from:''
       @ nl @ nl @ js ''<summary>'' @ nl"

definition BRANCH_SUMMARY_SUFFIX :: jsstring where
  "BRANCH_SUMMARY_SUFFIX = js ''</summary>''"

definition bashExecutionToText :: "bash_execution_message \<Rightarrow> jsstring" where
  "bashExecutionToText msg =
     js ''Ran `'' @ be_command msg @ js ''`'' @ nl
     @ (if be_output msg \<noteq> [] then js ''```'' @ nl @ be_output msg @ nl @ js ''```''
        else js ''(no output)'')
     @ (if be_cancelled msg then nl @ nl @ js ''(command cancelled)''
        else (case be_exitCode msg of
            None \<Rightarrow> []
          | Some c \<Rightarrow> if c \<noteq> 0 then nl @ nl @ js ''Command exited with code '' @ show_int c else []))
     @ (case be_fullOutputPath msg of
          None \<Rightarrow> []
        | Some p \<Rightarrow>
            if be_truncated msg \<and> p \<noteq> []
            then nl @ nl @ js ''[Output truncated. Full output: '' @ p @ js '']'' else [])"

definition createBranchSummaryMessage :: "jsstring \<Rightarrow> jsstring \<Rightarrow> iso_time \<Rightarrow> agent_message" where
  "createBranchSummaryMessage summary fromId timestamp =
     BranchSummary \<lparr>bsm_summary = summary, bsm_fromId = fromId, bsm_timestamp = timestamp\<rparr>"

definition createCompactionSummaryMessage :: "jsstring \<Rightarrow> nat \<Rightarrow> iso_time \<Rightarrow> agent_message" where
  "createCompactionSummaryMessage summary tokensBefore timestamp =
     CompactionSummary \<lparr>csm_summary = summary, csm_tokensBefore = tokensBefore, csm_timestamp = timestamp\<rparr>"

definition createCustomMessage ::
    "jsstring \<Rightarrow> user_content \<Rightarrow> bool \<Rightarrow> json option \<Rightarrow> iso_time \<Rightarrow> agent_message" where
  "createCustomMessage customType content display details timestamp =
     Custom \<lparr>cm_customType = customType, cm_content = content, cm_display = display,
             cm_details = details, cm_timestamp = timestamp\<rparr>"

definition user_text_message :: "jsstring \<Rightarrow> int \<Rightarrow> llm_message" where
  "user_text_message text ts = LUser \<lparr>um_content = UBlocks [TextBlock text None], um_timestamp = ts\<rparr>"

fun convert_message :: "agent_message \<Rightarrow> llm_message option" where
  "convert_message (BashExecution m) =
     (if be_excludeFromContext m then None
      else Some (user_text_message (bashExecutionToText m) (be_timestamp m)))"
| "convert_message (Custom m) =
     Some (LUser \<lparr>um_content =
         UBlocks (case cm_content m of UString s \<Rightarrow> [TextBlock s None] | UBlocks bs \<Rightarrow> bs),
       um_timestamp = cm_timestamp m\<rparr>)"
| "convert_message (BranchSummary m) =
     Some (user_text_message (BRANCH_SUMMARY_PREFIX @ bsm_summary m @ BRANCH_SUMMARY_SUFFIX)
       (bsm_timestamp m))"
| "convert_message (CompactionSummary m) =
     Some (user_text_message (COMPACTION_SUMMARY_PREFIX @ csm_summary m @ COMPACTION_SUMMARY_SUFFIX)
       (csm_timestamp m))"
| "convert_message (User m) = Some (LUser m)"
| "convert_message (Assistant m) = Some (LAssistant m)"
| "convert_message (ToolResult m) = Some (LToolResult m)"
| "convert_message (HookMessage m) = None"

definition convertToLlm :: "agent_message list \<Rightarrow> llm_message list" where
  "convertToLlm ms = List.map_filter convert_message ms"

lemma map_filter_append: "List.map_filter f (xs @ ys) = List.map_filter f xs @ List.map_filter f ys"
  by (simp add: map_filter_def)

lemma map_filter_Nil [simp]: "List.map_filter f [] = []"
  by (simp add: map_filter_def)

lemma map_filter_Cons:
  "List.map_filter f (x # xs) = (case f x of None \<Rightarrow> [] | Some y \<Rightarrow> [y]) @ List.map_filter f xs"
  by (simp add: map_filter_def split: option.splits)

lemma convertToLlm_append [simp]: "convertToLlm (xs @ ys) = convertToLlm xs @ convertToLlm ys"
  by (simp add: convertToLlm_def map_filter_append)

lemma convertToLlm_Nil [simp]: "convertToLlm [] = []"
  by (simp add: convertToLlm_def)

lemma convert_embed [simp]: "convert_message (embed_llm m) = Some m"
  by (cases m) auto

lemma convertToLlm_embed: "convertToLlm (map embed_llm ms) = ms"
  by (induction ms) (auto simp: convertToLlm_def map_filter_Cons)

lemma convert_message_None_iff:
  "convert_message m = None \<longleftrightarrow>
     (\<exists>b. m = BashExecution b \<and> be_excludeFromContext b) \<or> (\<exists>c. m = HookMessage c)"
  by (cases m) auto

lemma tool_calls_of_Nil [simp]: "tool_calls_of [] = []"
  by (simp add: tool_calls_of_def)

lemma tool_calls_of_Cons [simp]:
  "tool_calls_of (b # bs) = (case b of AToolCall tc \<Rightarrow> [tc] | _ \<Rightarrow> []) @ tool_calls_of bs"
  by (cases b) (auto simp: tool_calls_of_def map_filter_Cons)

end
