(* ===== verification/Session_Manager.thy ===== *)
theory Session_Manager
  imports Pi_Messages "HOL-Library.AList"
begin

text \<open>
  The session tree of \<open>packages/coding-agent/src/core/session-manager.ts\<close>: entries with
  an id and a parent, the leaf pointer, the label index, the append operations, branching,
  migrations, the context sent to the model and the persistence of a session as a file of
  JSON lines.

  \<^item> A JavaScript \<open>Map\<close> is an association list in insertion order (\<open>AList.update\<close> is
    \<open>Map.set\<close>, \<open>AList.delete\<close> is \<open>Map.delete\<close>, \<open>map_of\<close> is \<open>Map.get\<close>).
  \<^item> A file is the list of its lines; a line that parses is \<open>Parsed e\<close>, any other line is
    \<open>Malformed\<close>. The name of a generated file is the pair of instant and session id it
    is printed from.
  \<^item> Each call that draws random ids gets the draws as an argument \<open>uuid\<close>, each call that
    reads the clock gets the instant \<open>now\<close>.
  \<^item> A parent walk may cycle on a damaged file, and then does not return: \<open>None\<close>.
\<close>

section \<open>Entries\<close>

definition CURRENT_SESSION_VERSION :: nat where
  "CURRENT_SESSION_VERSION = 3"

datatype session_path =
    ExplicitPath jsstring
  | GeneratedPath jsstring iso_time jsstring

record session_header =
  h_version :: "nat option"
  h_id :: jsstring
  h_timestamp :: iso_time
  h_cwd :: jsstring
  h_parentSession :: "session_path option"

record compaction_data =
  c_summary :: jsstring
  c_firstKeptEntryId :: jsstring
  c_tokensBefore :: nat
  c_details :: "json option"
  c_fromHook :: bool
  c_firstKeptEntryIndex :: "nat option"

record branch_summary_data =
  bs_fromId :: jsstring
  bs_summary :: jsstring
  bs_details :: "json option"
  bs_fromHook :: bool

record custom_message_data =
  cmd_customType :: jsstring
  cmd_content :: user_content
  cmd_details :: "json option"
  cmd_display :: bool

datatype entry_payload =
    MessageEntry agent_message
  | ThinkingLevelChange jsstring
  | ModelChange jsstring jsstring
  | Compaction compaction_data
  | BranchSummaryEntry branch_summary_data
  | CustomEntry jsstring "json option"
  | CustomMessageEntry custom_message_data
  | LabelEntry jsstring "jsstring option"
  | SessionInfoEntry "jsstring option"

record session_entry =
  e_id :: jsstring
  e_parentId :: "jsstring option"
  e_timestamp :: iso_time
  e_payload :: entry_payload

datatype file_entry = Header session_header | Entry session_entry

fun entry_of :: "file_entry \<Rightarrow> session_entry option" where
  "entry_of (Header _) = None"
| "entry_of (Entry e) = Some e"

fun header_of :: "file_entry \<Rightarrow> session_header option" where
  "header_of (Header h) = Some h"
| "header_of (Entry _) = None"

fun is_compaction :: "session_entry \<Rightarrow> bool" where
  "is_compaction e = (case e_payload e of Compaction _ \<Rightarrow> True | _ \<Rightarrow> False)"

fun is_label :: "session_entry \<Rightarrow> bool" where
  "is_label e = (case e_payload e of LabelEntry _ _ \<Rightarrow> True | _ \<Rightarrow> False)"

fun has_assistant_message :: "file_entry \<Rightarrow> bool" where
  "has_assistant_message (Header _) = False"
| "has_assistant_message (Entry e) =
     (case e_payload e of MessageEntry m \<Rightarrow> is_assistant m | _ \<Rightarrow> False)"

section \<open>Ids\<close>

text \<open>\<open>generateId\<close>: the first of a hundred eight-unit candidates that is free, else a full id.\<close>

definition generateId :: "(nat \<Rightarrow> jsstring) \<Rightarrow> (jsstring \<Rightarrow> bool) \<Rightarrow> jsstring" where
  "generateId uuid has =
     (case find (\<lambda>i. \<not> has (take 8 (uuid i))) [0..<100] of
        Some i \<Rightarrow> take 8 (uuid i)
      | None \<Rightarrow> uuid 100)"

section \<open>Migrations\<close>

text \<open>
  An entry of a version 1 file has no id; the model gives it the empty id. The set of used ids
  that \<open>migrateV1ToV2\<close> passes to \<open>generateId\<close> is never filled, so each entry takes the
  first candidate of its draw.
\<close>

fun kept_id_from_index :: "file_entry list \<Rightarrow> compaction_data \<Rightarrow> compaction_data" where
  "kept_id_from_index entries c =
     (case c_firstKeptEntryIndex c of
        None \<Rightarrow> c
      | Some i \<Rightarrow>
          (if i < length entries
           then (case entries ! i of
                   Entry t \<Rightarrow> c\<lparr>c_firstKeptEntryId := e_id t, c_firstKeptEntryIndex := None\<rparr>
                 | Header _ \<Rightarrow> c\<lparr>c_firstKeptEntryIndex := None\<rparr>)
           else c\<lparr>c_firstKeptEntryIndex := None\<rparr>))"

fun migrate_v1_loop ::
    "(nat \<Rightarrow> nat \<Rightarrow> jsstring) \<Rightarrow> nat \<Rightarrow> jsstring option \<Rightarrow> file_entry list \<Rightarrow> file_entry list
     \<Rightarrow> file_entry list" where
  "migrate_v1_loop uuid k prevId done [] = done"
| "migrate_v1_loop uuid k prevId done (Header h # rest) =
     migrate_v1_loop uuid k prevId (done @ [Header (h\<lparr>h_version := Some 2\<rparr>)]) rest"
| "migrate_v1_loop uuid k prevId done (Entry e # rest) =
     (let e1 = e\<lparr>e_id := generateId (uuid k) (\<lambda>_. False), e_parentId := prevId\<rparr>;
          e2 = (case e_payload e1 of
                  Compaction c \<Rightarrow>
                    e1\<lparr>e_payload := Compaction (kept_id_from_index (done @ Entry e1 # rest) c)\<rparr>
                | _ \<Rightarrow> e1)
      in migrate_v1_loop uuid (Suc k) (Some (e_id e2)) (done @ [Entry e2]) rest)"

definition migrateV1ToV2 :: "(nat \<Rightarrow> nat \<Rightarrow> jsstring) \<Rightarrow> file_entry list \<Rightarrow> file_entry list" where
  "migrateV1ToV2 uuid entries = migrate_v1_loop uuid 0 None [] entries"

fun migrate_v2_entry :: "file_entry \<Rightarrow> file_entry" where
  "migrate_v2_entry (Header h) = Header (h\<lparr>h_version := Some 3\<rparr>)"
| "migrate_v2_entry (Entry e) =
     (case e_payload e of
        MessageEntry (HookMessage m) \<Rightarrow> Entry (e\<lparr>e_payload := MessageEntry (Custom m)\<rparr>)
      | _ \<Rightarrow> Entry e)"

definition migrateV2ToV3 :: "file_entry list \<Rightarrow> file_entry list" where
  "migrateV2ToV3 entries = map migrate_v2_entry entries"

definition first_header :: "file_entry list \<Rightarrow> session_header option" where
  "first_header entries = (case List.map_filter header_of entries of [] \<Rightarrow> None | h # _ \<Rightarrow> Some h)"

definition session_version :: "file_entry list \<Rightarrow> nat" where
  "session_version entries =
     (case first_header entries of None \<Rightarrow> 1
      | Some h \<Rightarrow> (case h_version h of None \<Rightarrow> 1 | Some v \<Rightarrow> v))"

definition migrateToCurrentVersion ::
    "(nat \<Rightarrow> nat \<Rightarrow> jsstring) \<Rightarrow> file_entry list \<Rightarrow> bool \<times> file_entry list" where
  "migrateToCurrentVersion uuid entries =
     (let version = session_version entries
      in if version \<ge> CURRENT_SESSION_VERSION then (False, entries)
         else
           let entries2 = (if version < 2 then migrateV1ToV2 uuid entries else entries);
               entries3 = (if version < 3 then migrateV2ToV3 entries2 else entries2)
           in (True, entries3))"

section \<open>Paths and the context of a branch\<close>

type_synonym entry_index = "(jsstring \<times> session_entry) list"

text \<open>\<open>entry.parentId ? byId.get(entry.parentId) : undefined\<close>\<close>

definition lookup_id :: "entry_index \<Rightarrow> jsstring option \<Rightarrow> session_entry option" where
  "lookup_id byId i = (case i of None \<Rightarrow> None | Some p \<Rightarrow> if p = [] then None else map_of byId p)"

definition parent_of :: "entry_index \<Rightarrow> session_entry \<Rightarrow> session_entry option" where
  "parent_of byId e = lookup_id byId (e_parentId e)"

partial_function (option) walk_to_root ::
    "entry_index \<Rightarrow> session_entry option \<Rightarrow> session_entry list \<Rightarrow> session_entry list option" where
  "walk_to_root byId current path =
     (case current of
        None \<Rightarrow> Some path
      | Some e \<Rightarrow> walk_to_root byId (parent_of byId e) (e # path))"

record session_context =
  sc_messages :: "agent_message list"
  sc_thinkingLevel :: jsstring
  sc_model :: "(jsstring \<times> jsstring) option"

definition empty_context :: session_context where
  "empty_context = \<lparr>sc_messages = [], sc_thinkingLevel = js ''off'', sc_model = None\<rparr>"

fun settings_step ::
    "session_entry \<Rightarrow> jsstring \<times> (jsstring \<times> jsstring) option \<times> session_entry option
     \<Rightarrow> jsstring \<times> (jsstring \<times> jsstring) option \<times> session_entry option" where
  "settings_step e (thinkingLevel, model, compaction) =
     (case e_payload e of
        ThinkingLevelChange l \<Rightarrow> (l, model, compaction)
      | ModelChange p m \<Rightarrow> (thinkingLevel, Some (p, m), compaction)
      | MessageEntry (Assistant a) \<Rightarrow> (thinkingLevel, Some (am_provider a, am_model a), compaction)
      | Compaction c \<Rightarrow> (thinkingLevel, model, Some e)
      | _ \<Rightarrow> (thinkingLevel, model, compaction))"

definition path_settings ::
    "session_entry list \<Rightarrow> jsstring \<times> (jsstring \<times> jsstring) option \<times> session_entry option" where
  "path_settings path = fold settings_step path (js ''off'', None, None)"

text \<open>The local closure \<open>appendMessage\<close> of \<open>buildSessionContext\<close>: the messages an entry adds.\<close>

definition entry_messages :: "session_entry \<Rightarrow> agent_message list" where
  "entry_messages e =
     (case e_payload e of
        MessageEntry m \<Rightarrow> [m]
      | CustomMessageEntry c \<Rightarrow>
          [createCustomMessage (cmd_customType c) (cmd_content c) (cmd_display c) (cmd_details c) (e_timestamp e)]
      | BranchSummaryEntry b \<Rightarrow>
          (if bs_summary b \<noteq> []
           then [createBranchSummaryMessage (bs_summary b) (bs_fromId b) (e_timestamp e)] else [])
      | _ \<Rightarrow> [])"

fun kept_entries :: "jsstring \<Rightarrow> bool \<Rightarrow> session_entry list \<Rightarrow> session_entry list" where
  "kept_entries firstKept found [] = []"
| "kept_entries firstKept found (e # es) =
     (let found' = (found \<or> e_id e = firstKept)
      in (if found' then [e] else []) @ kept_entries firstKept found' es)"

definition path_messages :: "session_entry list \<Rightarrow> session_entry option \<Rightarrow> agent_message list" where
  "path_messages path compaction =
     (case compaction of
        Some ce \<Rightarrow>
          (case e_payload ce of
             Compaction c \<Rightarrow>
               (case index_of (\<lambda>e. is_compaction e \<and> e_id e = e_id ce) path of
                  Some i \<Rightarrow>
                    createCompactionSummaryMessage (c_summary c) (c_tokensBefore c) (e_timestamp ce)
                    # concat (map entry_messages (kept_entries (c_firstKeptEntryId c) False (take i path)))
                    @ concat (map entry_messages (drop (Suc i) path))
                | None \<Rightarrow>
                    createCompactionSummaryMessage (c_summary c) (c_tokensBefore c) (e_timestamp ce)
                    # concat (map entry_messages path))
           | _ \<Rightarrow> concat (map entry_messages path))
      | None \<Rightarrow> concat (map entry_messages path))"

definition path_context :: "session_entry list \<Rightarrow> session_context" where
  "path_context path =
     (case path_settings path of
        (thinkingLevel, model, compaction) \<Rightarrow>
          \<lparr>sc_messages = path_messages path compaction,
           sc_thinkingLevel = thinkingLevel, sc_model = model\<rparr>)"

datatype leaf_arg = LeafUndefined | LeafNull | LeafId jsstring

definition index_entries :: "session_entry list \<Rightarrow> entry_index" where
  "index_entries entries = fold (\<lambda>e m. AList.update (e_id e) e m) entries []"

definition buildSessionContext ::
    "session_entry list \<Rightarrow> leaf_arg \<Rightarrow> entry_index option \<Rightarrow> session_context option" where
  "buildSessionContext entries leafId byId_arg =
     (let byId = (case byId_arg of Some m \<Rightarrow> m | None \<Rightarrow> index_entries entries);
          last_entry = (if entries = [] then None else Some (last entries))
      in case leafId of
           LeafNull \<Rightarrow> Some empty_context
         | _ \<Rightarrow>
             (let leaf0 = (case leafId of LeafId i \<Rightarrow> lookup_id byId (Some i) | _ \<Rightarrow> None);
                  leaf = (case leaf0 of Some e \<Rightarrow> Some e | None \<Rightarrow> last_entry)
              in case leaf of
                   None \<Rightarrow> Some empty_context
                 | Some e \<Rightarrow> map_option path_context (walk_to_root byId (Some e) [])))"

definition getLatestCompactionEntry :: "session_entry list \<Rightarrow> session_entry option" where
  "getLatestCompactionEntry entries = find_last is_compaction entries"

section \<open>Files\<close>

datatype file_line = Parsed file_entry | Malformed

type_synonym session_fs = "session_path \<Rightarrow> file_line list option"

fun parsed_of :: "file_line \<Rightarrow> file_entry option" where
  "parsed_of (Parsed e) = Some e"
| "parsed_of Malformed = None"

definition parseSessionEntries :: "file_line list \<Rightarrow> file_entry list" where
  "parseSessionEntries lines = List.map_filter parsed_of lines"

definition loadEntriesFromFile :: "session_fs \<Rightarrow> session_path \<Rightarrow> file_entry list" where
  "loadEntriesFromFile fs path =
     (case fs path of
        None \<Rightarrow> []
      | Some lines \<Rightarrow>
          (case parseSessionEntries lines of
             [] \<Rightarrow> []
           | Header h # es \<Rightarrow> Header h # es
           | Entry _ # _ \<Rightarrow> []))"

definition append_lines :: "session_path \<Rightarrow> file_entry list \<Rightarrow> session_fs \<Rightarrow> session_fs" where
  "append_lines path es fs =
     fs(path := Some ((case fs path of None \<Rightarrow> [] | Some ls \<Rightarrow> ls) @ map Parsed es))"

section \<open>The session manager\<close>

record session_manager =
  sm_sessionId :: jsstring
  sm_sessionFile :: "session_path option"
  sm_sessionDir :: jsstring
  sm_cwd :: jsstring
  sm_persist :: bool
  sm_flushed :: bool
  sm_fileEntries :: "file_entry list"
  sm_byId :: entry_index
  sm_labelsById :: "(jsstring \<times> jsstring) list"
  sm_labelTimestampsById :: "(jsstring \<times> iso_time) list"
  sm_leafId :: "jsstring option"

definition getEntries :: "session_manager \<Rightarrow> session_entry list" where
  "getEntries sm = List.map_filter entry_of (sm_fileEntries sm)"

definition getHeader :: "session_manager \<Rightarrow> session_header option" where
  "getHeader sm = first_header (sm_fileEntries sm)"

definition newSession ::
    "jsstring option \<Rightarrow> session_path option \<Rightarrow> jsstring \<Rightarrow> iso_time \<Rightarrow> session_manager \<Rightarrow> session_manager" where
  "newSession opt_id opt_parent fresh now sm =
     (let sid = (case opt_id of Some i \<Rightarrow> i | None \<Rightarrow> fresh);
          header = \<lparr>h_version = Some CURRENT_SESSION_VERSION, h_id = sid, h_timestamp = now,
                    h_cwd = sm_cwd sm, h_parentSession = opt_parent\<rparr>
      in sm\<lparr>sm_sessionId := sid, sm_fileEntries := [Header header], sm_byId := [],
            sm_labelsById := [], sm_leafId := None, sm_flushed := False,
            sm_sessionFile :=
              (if sm_persist sm then Some (GeneratedPath (sm_sessionDir sm) now sid)
               else sm_sessionFile sm)\<rparr>)"

fun index_label :: "session_entry \<Rightarrow> session_manager \<Rightarrow> session_manager" where
  "index_label e sm =
     (case e_payload e of
        LabelEntry target label \<Rightarrow>
          (case label of
             Some l \<Rightarrow>
               (if l \<noteq> []
                then sm\<lparr>sm_labelsById := AList.update target l (sm_labelsById sm),
                        sm_labelTimestampsById :=
                          AList.update target (e_timestamp e) (sm_labelTimestampsById sm)\<rparr>
                else sm\<lparr>sm_labelsById := AList.delete target (sm_labelsById sm),
                        sm_labelTimestampsById := AList.delete target (sm_labelTimestampsById sm)\<rparr>)
           | None \<Rightarrow> sm\<lparr>sm_labelsById := AList.delete target (sm_labelsById sm),
                        sm_labelTimestampsById := AList.delete target (sm_labelTimestampsById sm)\<rparr>)
      | _ \<Rightarrow> sm)"

fun index_file_entry :: "file_entry \<Rightarrow> session_manager \<Rightarrow> session_manager" where
  "index_file_entry (Header _) sm = sm"
| "index_file_entry (Entry e) sm =
     index_label e (sm\<lparr>sm_byId := AList.update (e_id e) e (sm_byId sm), sm_leafId := Some (e_id e)\<rparr>)"

definition buildIndex :: "session_manager \<Rightarrow> session_manager" where
  "buildIndex sm =
     fold index_file_entry (sm_fileEntries sm)
       (sm\<lparr>sm_byId := [], sm_labelsById := [], sm_labelTimestampsById := [], sm_leafId := None\<rparr>)"

definition rewriteFile :: "session_manager \<Rightarrow> session_fs \<Rightarrow> session_fs" where
  "rewriteFile sm fs =
     (case sm_sessionFile sm of
        Some f \<Rightarrow> if sm_persist sm then fs(f := Some (map Parsed (sm_fileEntries sm))) else fs
      | None \<Rightarrow> fs)"

definition setSessionFile ::
    "session_path \<Rightarrow> jsstring \<Rightarrow> (nat \<Rightarrow> nat \<Rightarrow> jsstring) \<Rightarrow> iso_time \<Rightarrow> session_manager \<Rightarrow> session_fs
     \<Rightarrow> session_manager \<times> session_fs" where
  "setSessionFile f fresh uuid now sm fs =
     (if fs f = None
      then ((newSession None None fresh now (sm\<lparr>sm_sessionFile := Some f\<rparr>))\<lparr>sm_sessionFile := Some f\<rparr>, fs)
      else
        (let loaded = loadEntriesFromFile fs f
         in if loaded = []
            then
              (let sm1 = (newSession None None fresh now (sm\<lparr>sm_sessionFile := Some f, sm_fileEntries := []\<rparr>))
                           \<lparr>sm_sessionFile := Some f\<rparr>
               in (sm1\<lparr>sm_flushed := True\<rparr>, rewriteFile sm1 fs))
            else
              (let sid = (case first_header loaded of Some h \<Rightarrow> h_id h | None \<Rightarrow> fresh);
                   (migrated, entries) = migrateToCurrentVersion uuid loaded;
                   sm1 = sm\<lparr>sm_sessionFile := Some f, sm_sessionId := sid, sm_fileEntries := entries\<rparr>;
                   fs1 = (if migrated then rewriteFile sm1 fs else fs)
               in ((buildIndex sm1)\<lparr>sm_flushed := True\<rparr>, fs1))))"

definition persist_entry ::
    "session_entry \<Rightarrow> session_manager \<Rightarrow> session_fs \<Rightarrow> session_manager \<times> session_fs" where
  "persist_entry e sm fs =
     (case sm_sessionFile sm of
        None \<Rightarrow> (sm, fs)
      | Some f \<Rightarrow>
          (if \<not> sm_persist sm then (sm, fs)
           else if \<not> list_ex has_assistant_message (sm_fileEntries sm)
           then (sm\<lparr>sm_flushed := False\<rparr>, fs)
           else if \<not> sm_flushed sm
           then (sm\<lparr>sm_flushed := True\<rparr>, append_lines f (sm_fileEntries sm) fs)
           else (sm, append_lines f [Entry e] fs)))"

definition appendEntry ::
    "session_entry \<Rightarrow> session_manager \<Rightarrow> session_fs \<Rightarrow> session_manager \<times> session_fs" where
  "appendEntry e sm fs =
     persist_entry e
       (sm\<lparr>sm_fileEntries := sm_fileEntries sm @ [Entry e],
           sm_byId := AList.update (e_id e) e (sm_byId sm),
           sm_leafId := Some (e_id e)\<rparr>) fs"

definition has_id :: "session_manager \<Rightarrow> jsstring \<Rightarrow> bool" where
  "has_id sm i \<longleftrightarrow> map_of (sm_byId sm) i \<noteq> None"

definition new_entry ::
    "(nat \<Rightarrow> jsstring) \<Rightarrow> iso_time \<Rightarrow> session_manager \<Rightarrow> entry_payload \<Rightarrow> session_entry" where
  "new_entry uuid now sm p =
     \<lparr>e_id = generateId uuid (has_id sm), e_parentId = sm_leafId sm, e_timestamp = now, e_payload = p\<rparr>"

definition append_new ::
    "entry_payload \<Rightarrow> (nat \<Rightarrow> jsstring) \<Rightarrow> iso_time \<Rightarrow> session_manager \<Rightarrow> session_fs
     \<Rightarrow> jsstring \<times> session_manager \<times> session_fs" where
  "append_new p uuid now sm fs =
     (let e = new_entry uuid now sm p in (e_id e, appendEntry e sm fs))"

section \<open>Append operations\<close>

definition appendMessage where
  "appendMessage m = append_new (MessageEntry m)"

definition appendThinkingLevelChange where
  "appendThinkingLevelChange l = append_new (ThinkingLevelChange l)"

definition appendModelChange where
  "appendModelChange provider modelId = append_new (ModelChange provider modelId)"

definition appendCompaction where
  "appendCompaction summary firstKeptEntryId tokensBefore details fromHook =
     append_new (Compaction \<lparr>c_summary = summary, c_firstKeptEntryId = firstKeptEntryId,
       c_tokensBefore = tokensBefore, c_details = details, c_fromHook = fromHook,
       c_firstKeptEntryIndex = None\<rparr>)"

definition appendCustomEntry where
  "appendCustomEntry customType data = append_new (CustomEntry customType data)"

definition appendSessionInfo where
  "appendSessionInfo name = append_new (SessionInfoEntry (Some (trim_js name)))"

definition appendCustomMessageEntry where
  "appendCustomMessageEntry customType content display details =
     append_new (CustomMessageEntry \<lparr>cmd_customType = customType, cmd_content = content,
       cmd_details = details, cmd_display = display\<rparr>)"

definition not_found :: "jsstring \<Rightarrow> jsstring" where
  "not_found i = js ''Entry '' @ i @ js '' not found''"

definition appendLabelChange ::
    "jsstring \<Rightarrow> jsstring option \<Rightarrow> (nat \<Rightarrow> jsstring) \<Rightarrow> iso_time \<Rightarrow> session_manager \<Rightarrow> session_fs
     \<Rightarrow> jsstring + jsstring \<times> session_manager \<times> session_fs" where
  "appendLabelChange targetId label uuid now sm fs =
     (if \<not> has_id sm targetId then Inl (not_found targetId)
      else
        (let e = new_entry uuid now sm (LabelEntry targetId label);
             (sm1, fs1) = appendEntry e sm fs
         in Inr (e_id e, index_label e sm1, fs1)))"

section \<open>Tree traversal\<close>

definition getSessionName :: "session_manager \<Rightarrow> jsstring option" where
  "getSessionName sm =
     (case find_last (\<lambda>e. case e_payload e of SessionInfoEntry _ \<Rightarrow> True | _ \<Rightarrow> False) (getEntries sm) of
        None \<Rightarrow> None
      | Some e \<Rightarrow>
          (case e_payload e of
             SessionInfoEntry (Some n) \<Rightarrow> (if trim_js n = [] then None else Some (trim_js n))
           | _ \<Rightarrow> None))"

definition getLeafEntry :: "session_manager \<Rightarrow> session_entry option" where
  "getLeafEntry sm = lookup_id (sm_byId sm) (sm_leafId sm)"

definition getEntry :: "session_manager \<Rightarrow> jsstring \<Rightarrow> session_entry option" where
  "getEntry sm i = map_of (sm_byId sm) i"

definition getChildren :: "session_manager \<Rightarrow> jsstring \<Rightarrow> session_entry list" where
  "getChildren sm parentId = filter (\<lambda>e. e_parentId e = Some parentId) (map snd (sm_byId sm))"

definition getLabel :: "session_manager \<Rightarrow> jsstring \<Rightarrow> jsstring option" where
  "getLabel sm i = map_of (sm_labelsById sm) i"

definition getBranch :: "session_manager \<Rightarrow> jsstring option \<Rightarrow> session_entry list option" where
  "getBranch sm fromId =
     (let startId = (case fromId of Some i \<Rightarrow> Some i | None \<Rightarrow> sm_leafId sm)
      in walk_to_root (sm_byId sm) (lookup_id (sm_byId sm) startId) [])"

definition leaf_of :: "session_manager \<Rightarrow> leaf_arg" where
  "leaf_of sm = (case sm_leafId sm of None \<Rightarrow> LeafNull | Some i \<Rightarrow> LeafId i)"

definition sessionContext :: "session_manager \<Rightarrow> session_context option" where
  "sessionContext sm = buildSessionContext (getEntries sm) (leaf_of sm) (Some (sm_byId sm))"

section \<open>Branching\<close>

definition branch :: "jsstring \<Rightarrow> session_manager \<Rightarrow> jsstring + session_manager" where
  "branch i sm = (if has_id sm i then Inr (sm\<lparr>sm_leafId := Some i\<rparr>) else Inl (not_found i))"

definition resetLeaf :: "session_manager \<Rightarrow> session_manager" where
  "resetLeaf sm = sm\<lparr>sm_leafId := None\<rparr>"

definition branchWithSummary ::
    "jsstring option \<Rightarrow> jsstring \<Rightarrow> json option \<Rightarrow> bool \<Rightarrow> (nat \<Rightarrow> jsstring) \<Rightarrow> iso_time
     \<Rightarrow> session_manager \<Rightarrow> session_fs \<Rightarrow> jsstring + jsstring \<times> session_manager \<times> session_fs" where
  "branchWithSummary fromId summary details fromHook uuid now sm fs =
     (case fromId of
        Some i \<Rightarrow>
          (if has_id sm i
           then Inr (append_new (BranchSummaryEntry \<lparr>bs_fromId = i, bs_summary = summary,
                       bs_details = details, bs_fromHook = fromHook\<rparr>)
                     uuid now (sm\<lparr>sm_leafId := Some i\<rparr>) fs)
           else Inl (not_found i))
      | None \<Rightarrow>
          Inr (append_new (BranchSummaryEntry \<lparr>bs_fromId = js ''root'', bs_summary = summary,
                 bs_details = details, bs_fromHook = fromHook\<rparr>)
               uuid now (sm\<lparr>sm_leafId := None\<rparr>) fs))"

fun label_entries ::
    "(nat \<Rightarrow> nat \<Rightarrow> jsstring) \<Rightarrow> nat \<Rightarrow> jsstring list \<Rightarrow> jsstring option
     \<Rightarrow> (jsstring \<times> jsstring \<times> iso_time) list \<Rightarrow> session_entry list" where
  "label_entries uuid k used parent [] = []"
| "label_entries uuid k used parent ((target, label, ts) # rest) =
     (let i = generateId (uuid k) (\<lambda>x. x \<in> set used)
      in \<lparr>e_id = i, e_parentId = parent, e_timestamp = ts, e_payload = LabelEntry target (Some label)\<rparr>
         # label_entries uuid (Suc k) (used @ [i]) (Some i) rest)"

definition last_id :: "session_entry list \<Rightarrow> jsstring option" where
  "last_id es = (if es = [] \<or> e_id (last es) = [] then None else Some (e_id (last es)))"

definition createBranchedSession ::
    "jsstring \<Rightarrow> jsstring \<Rightarrow> (nat \<Rightarrow> nat \<Rightarrow> jsstring) \<Rightarrow> iso_time \<Rightarrow> session_manager \<Rightarrow> session_fs
     \<Rightarrow> (jsstring + session_path option \<times> session_manager \<times> session_fs) option" where
  "createBranchedSession leafId newSessionId uuid now sm fs =
     map_option (\<lambda>path.
       if path = [] then Inl (not_found leafId)
       else
         (let pathWithoutLabels = filter (\<lambda>e. \<not> is_label e) path;
              newSessionFile = GeneratedPath (sm_sessionDir sm) now newSessionId;
              header = \<lparr>h_version = Some CURRENT_SESSION_VERSION, h_id = newSessionId,
                        h_timestamp = now, h_cwd = sm_cwd sm,
                        h_parentSession = (if sm_persist sm then sm_sessionFile sm else None)\<rparr>;
              pathEntryIds = map e_id pathWithoutLabels;
              labelsToWrite =
                map (\<lambda>(target, label). (target, label, the (map_of (sm_labelTimestampsById sm) target)))
                  (filter (\<lambda>(target, label). target \<in> set pathEntryIds) (sm_labelsById sm));
              labels = label_entries uuid 0 pathEntryIds (last_id pathWithoutLabels) labelsToWrite;
              entries = Header header # map Entry (pathWithoutLabels @ labels)
          in if sm_persist sm
             then
               (let sm1 = buildIndex (sm\<lparr>sm_fileEntries := entries, sm_sessionId := newSessionId,
                                         sm_sessionFile := Some newSessionFile\<rparr>)
                in if list_ex has_assistant_message entries
                   then Inr (Some newSessionFile, sm1\<lparr>sm_flushed := True\<rparr>, rewriteFile sm1 fs)
                   else Inr (Some newSessionFile, sm1\<lparr>sm_flushed := False\<rparr>, fs))
             else
               Inr (None, buildIndex (sm\<lparr>sm_fileEntries := entries, sm_sessionId := newSessionId\<rparr>), fs)))
       (getBranch sm (Some leafId))"

section \<open>Opening sessions\<close>

definition blank_manager :: "jsstring \<Rightarrow> jsstring \<Rightarrow> bool \<Rightarrow> session_manager" where
  "blank_manager cwd dir persist =
     \<lparr>sm_sessionId = [], sm_sessionFile = None, sm_sessionDir = dir, sm_cwd = cwd, sm_persist = persist,
      sm_flushed = False, sm_fileEntries = [], sm_byId = [], sm_labelsById = [],
      sm_labelTimestampsById = [], sm_leafId = None\<rparr>"

definition openManager ::
    "jsstring \<Rightarrow> jsstring \<Rightarrow> session_path option \<Rightarrow> bool \<Rightarrow> jsstring \<Rightarrow> (nat \<Rightarrow> nat \<Rightarrow> jsstring)
     \<Rightarrow> iso_time \<Rightarrow> session_fs \<Rightarrow> session_manager \<times> session_fs" where
  "openManager cwd dir sessionFile persist fresh uuid now fs =
     (case sessionFile of
        Some f \<Rightarrow> setSessionFile f fresh uuid now (blank_manager cwd dir persist) fs
      | None \<Rightarrow> (newSession None None fresh now (blank_manager cwd dir persist), fs))"

definition inMemory :: "jsstring \<Rightarrow> jsstring \<Rightarrow> iso_time \<Rightarrow> session_manager" where
  "inMemory cwd fresh now = newSession None None fresh now (blank_manager cwd [] False)"

text \<open>The two errors of \<open>forkFrom\<close>, with the path their messages print.\<close>

datatype fork_error = SourceEmptyOrInvalid session_path | SourceHasNoHeader session_path

definition forkFrom ::
    "session_path \<Rightarrow> jsstring \<Rightarrow> jsstring \<Rightarrow> jsstring \<Rightarrow> jsstring \<Rightarrow> (nat \<Rightarrow> nat \<Rightarrow> jsstring) \<Rightarrow> iso_time
     \<Rightarrow> session_fs \<Rightarrow> fork_error + session_manager \<times> session_fs" where
  "forkFrom sourcePath targetCwd dir newSessionId fresh uuid now fs =
     (let sourceEntries = loadEntriesFromFile fs sourcePath
      in if sourceEntries = []
         then Inl (SourceEmptyOrInvalid sourcePath)
         else
           (case first_header sourceEntries of
              None \<Rightarrow> Inl (SourceHasNoHeader sourcePath)
            | Some h \<Rightarrow>
                (let newSessionFile = GeneratedPath dir now newSessionId;
                     newHeader = \<lparr>h_version = Some CURRENT_SESSION_VERSION, h_id = newSessionId,
                                  h_timestamp = now, h_cwd = targetCwd,
                                  h_parentSession = Some sourcePath\<rparr>;
                     fs1 = append_lines newSessionFile
                             (Header newHeader # map Entry (List.map_filter entry_of sourceEntries)) fs
                 in Inr (openManager targetCwd dir (Some newSessionFile) True fresh uuid now fs1))))"

end
