(* ===== verification/Session_Tree.thy ===== *)
theory Session_Tree
  imports Session_Manager
begin

text \<open>
  The tree invariant of a session and what it gives: entry ids are distinct, every parent
  is an earlier entry, the id index is exactly the index of the entries, the leaf is an
  entry. On such a session the walk to the root returns, appending leaves every branch
  unchanged, and the branch of an entry is its parent's branch followed by the entry.
\<close>

section \<open>Walking to the root\<close>

lemma walk_None [simp, code]: "walk_to_root m None acc = Some acc"
  by (simp add: walk_to_root.simps)

lemma walk_Some [code]: "walk_to_root m (Some e) acc = walk_to_root m (parent_of m e) (e # acc)"
  by (subst walk_to_root.simps) simp

fun chain :: "entry_index \<Rightarrow> session_entry list \<Rightarrow> bool" where
  "chain m [] = True"
| "chain m [e] = (parent_of m e = None)"
| "chain m (e # p # r) = (parent_of m e = Some p \<and> chain m (p # r))"

lemma chain_walk: "chain m (e # q) \<Longrightarrow> walk_to_root m (Some e) acc = Some (rev (e # q) @ acc)"
  by (induction q arbitrary: e acc) (simp_all add: walk_Some)

lemma walk_acc:
  assumes "walk_to_root m c acc = Some r"
  shows "\<exists>q. r = q @ acc \<and> (\<forall>acc'. walk_to_root m c acc' = Some (q @ acc'))"
proof (rule walk_to_root.raw_induct
    [where P = "\<lambda>m c acc r. \<exists>q. r = q @ acc \<and> (\<forall>acc'. walk_to_root m c acc' = Some (q @ acc'))", OF _ assms])
  fix f :: "entry_index \<Rightarrow> session_entry option \<Rightarrow> session_entry list \<Rightarrow> session_entry list option"
  fix m c acc r
  assume IH: "\<And>m c acc r. f m c acc = Some r \<Longrightarrow>
      \<exists>q. r = q @ acc \<and> (\<forall>acc'. walk_to_root m c acc' = Some (q @ acc'))"
    and eq: "(case c of None \<Rightarrow> Some acc | Some e \<Rightarrow> f m (parent_of m e) (e # acc)) = Some r"
  show "\<exists>q. r = q @ acc \<and> (\<forall>acc'. walk_to_root m c acc' = Some (q @ acc'))"
  proof (cases c)
    case None
    with eq show ?thesis by simp
  next
    case (Some e)
    with eq have "f m (parent_of m e) (e # acc) = Some r" by simp
    from IH [OF this] obtain q where q: "r = q @ e # acc"
        "\<forall>acc'. walk_to_root m (parent_of m e) acc' = Some (q @ acc')" by blast
    then have "r = (q @ [e]) @ acc \<and> (\<forall>acc'. walk_to_root m c acc' = Some ((q @ [e]) @ acc'))"
      using Some by (simp add: walk_Some)
    then show ?thesis by blast
  qed
qed

section \<open>Well-formed sessions\<close>

fun wf_from :: "jsstring list \<Rightarrow> session_entry list \<Rightarrow> bool" where
  "wf_from seen [] = True"
| "wf_from seen (e # es) =
     (e_id e \<noteq> [] \<and> e_id e \<notin> set seen
      \<and> (case e_parentId e of None \<Rightarrow> True | Some p \<Rightarrow> p \<in> set seen)
      \<and> wf_from (e_id e # seen) es)"

definition wf_entries :: "session_entry list \<Rightarrow> bool" where
  "wf_entries es = wf_from [] es"

definition idx :: "session_entry list \<Rightarrow> entry_index" where
  "idx es = map (\<lambda>e. (e_id e, e)) es"

definition ids :: "session_entry list \<Rightarrow> jsstring set" where
  "ids es = e_id ` set es"

lemma ids_simps [simp]:
  "ids [] = {}" "ids (e # es) = insert (e_id e) (ids es)" "ids (xs @ ys) = ids xs \<union> ids ys"
  by (auto simp: ids_def)

lemma wf_from_cong: "set s = set s' \<Longrightarrow> wf_from s es = wf_from s' es"
  by (induction es arbitrary: s s') (auto split: option.splits, (metis list.simps(15))+)

lemma wf_from_append:
  "wf_from seen (xs @ ys) \<longleftrightarrow> wf_from seen xs \<and> wf_from (map e_id (rev xs) @ seen) ys"
  by (induction xs arbitrary: seen) auto

lemma wf_entries_snoc:
  "wf_entries (es @ [e]) \<longleftrightarrow>
     wf_entries es \<and> e_id e \<noteq> [] \<and> e_id e \<notin> ids es
     \<and> (case e_parentId e of None \<Rightarrow> True | Some p \<Rightarrow> p \<in> ids es)"
  by (auto simp: wf_entries_def wf_from_append ids_def split: option.splits)

lemma wf_entries_Nil [simp]: "wf_entries []"
  by (simp add: wf_entries_def)

lemma wf_entries_appendD: "wf_entries (xs @ ys) \<Longrightarrow> wf_entries xs"
  by (simp add: wf_entries_def wf_from_append)

lemma wf_entries_distinct: "wf_entries es \<Longrightarrow> distinct (map e_id es) \<and> [] \<notin> ids es"
  by (induction es rule: rev_induct) (auto simp: wf_entries_snoc ids_def)

lemma wf_id_nonempty: "wf_entries es \<Longrightarrow> e \<in> set es \<Longrightarrow> e_id e \<noteq> []"
  using wf_entries_distinct unfolding ids_def by (metis imageI)

lemma wf_parent_in: "wf_entries es \<Longrightarrow> e \<in> set es \<Longrightarrow> e_parentId e = Some p \<Longrightarrow> p \<in> ids es"
  by (induction es rule: rev_induct) (auto simp: wf_entries_snoc)

lemma map_of_idx_None: "map_of (idx es) i = None \<longleftrightarrow> i \<notin> ids es"
  by (simp add: idx_def ids_def map_of_eq_None_iff image_image)

lemma map_of_idx_in: "wf_entries es \<Longrightarrow> e \<in> set es \<Longrightarrow> map_of (idx es) (e_id e) = Some e"
  using wf_entries_distinct [of es] by (simp add: idx_def map_of_map_snd_self)

lemma map_of_idx_SomeD: "map_of (idx es) i = Some e \<Longrightarrow> e \<in> set es \<and> e_id e = i"
  by (auto simp: idx_def dest: map_of_SomeD)

lemma map_of_idx_snoc:
  "i \<in> ids es \<Longrightarrow> map_of (idx (es @ [e])) i = map_of (idx es) i"
  by (cases "map_of (idx es) i") (auto simp: idx_def map_of_idx_None [unfolded idx_def] map_add_def
      map_of_append split: option.splits)

lemma parent_of_idx_snoc:
  "wf_entries es \<Longrightarrow> x \<in> set es \<Longrightarrow> parent_of (idx (es @ [e])) x = parent_of (idx es) x"
  by (auto simp: parent_of_def lookup_id_def map_of_idx_snoc wf_parent_in split: option.splits)

lemma chain_idx_snoc:
  "wf_entries es \<Longrightarrow> set q \<subseteq> set es \<Longrightarrow> chain (idx (es @ [e])) q = chain (idx es) q"
  by (induction "idx es" q rule: chain.induct) (simp_all add: parent_of_idx_snoc)

lemma wf_chain_exists:
  "wf_entries es \<Longrightarrow> e \<in> set es \<Longrightarrow> \<exists>q. chain (idx es) (e # q) \<and> set (e # q) \<subseteq> set es \<and> subseq (rev (e # q)) es"
proof (induction es arbitrary: e rule: rev_induct)
  case Nil
  then show ?case by simp
next
  case (snoc x es)
  from snoc.prems(1) have wf: "wf_entries es" and x: "e_id x \<noteq> []" "e_id x \<notin> ids es"
    and par: "case e_parentId x of None \<Rightarrow> True | Some p \<Rightarrow> p \<in> ids es"
    by (auto simp: wf_entries_snoc)
  show ?case
  proof (cases "e = x")
    case False
    with snoc.prems have "e \<in> set es" by simp
    with snoc.IH [OF wf] obtain q where "chain (idx es) (e # q)" "set (e # q) \<subseteq> set es" "subseq (rev (e # q)) es"
      by blast
    then show ?thesis
      using wf chain_idx_snoc [of es "e # q" x] by (auto intro!: exI [of _ q] dest: list_emb_append2)
  next
    case True
    show ?thesis
    proof (cases "e_parentId x")
      case None
      then show ?thesis
        using True by (auto intro!: exI [of _ "[]"] simp: parent_of_def lookup_id_def)
    next
      case (Some p)
      with par obtain y where y: "y \<in> set es" "e_id y = p" by (auto simp: ids_def)
      with snoc.IH [OF wf] obtain q where q: "chain (idx es) (y # q)" "set (y # q) \<subseteq> set es" "subseq (rev (y # q)) es"
        by blast
      have "p \<noteq> []"
        using y wf_id_nonempty [OF wf] by auto
      then have "parent_of (idx (es @ [x])) x = Some y"
        using y wf Some map_of_idx_in [OF wf y(1)]
        by (auto simp: parent_of_def lookup_id_def map_of_idx_snoc ids_def)
      then show ?thesis
        using True q wf chain_idx_snoc [of es "y # q" x]
        by (auto intro!: exI [of _ "y # q"] list_emb_append_mono [of _ _ es "[x]" "[x]", simplified])
    qed
  qed
qed


lemma walk_wf:
  assumes "wf_entries es" "e \<in> set es"
  shows "\<exists>p. walk_to_root (idx es) (Some e) [] = Some (p @ [e]) \<and> set p \<subseteq> set es
           \<and> subseq (p @ [e]) es"
proof -
  from wf_chain_exists [OF assms] obtain q where
    "chain (idx es) (e # q)" "set (e # q) \<subseteq> set es" "subseq (rev (e # q)) es" by blast
  then show ?thesis
    using chain_walk [of "idx es" e q "[]"] by (auto intro!: exI [of _ "rev q"])
qed

text \<open>Appending an entry leaves every earlier walk unchanged and extends the walk of its parent.\<close>

lemma walk_snoc_old:
  assumes wf: "wf_entries es" and e: "e \<in> set es"
  shows "walk_to_root (idx (es @ [x])) (Some e) acc = walk_to_root (idx es) (Some e) acc"
proof -
  from wf_chain_exists [OF wf e] obtain q where
    q: "chain (idx es) (e # q)" "set (e # q) \<subseteq> set es" by blast
  with chain_idx_snoc [OF wf q(2), of x] show ?thesis by (simp add: chain_walk)
qed

section \<open>The session invariant\<close>

definition wf_session :: "session_manager \<Rightarrow> bool" where
  "wf_session sm \<longleftrightarrow>
     wf_entries (getEntries sm) \<and> sm_byId sm = idx (getEntries sm)
     \<and> (case sm_leafId sm of None \<Rightarrow> True | Some i \<Rightarrow> i \<in> ids (getEntries sm))"

definition fresh_uuid :: "(nat \<Rightarrow> jsstring) \<Rightarrow> session_manager \<Rightarrow> bool" where
  "fresh_uuid uuid sm \<longleftrightarrow> (\<forall>i \<le> 100. uuid i \<noteq> []) \<and> \<not> has_id sm (uuid 100)"

lemma generateId_free: "\<not> has (uuid 100) \<Longrightarrow> \<not> has (generateId uuid has)"
  by (auto simp: generateId_def split: option.splits dest: find_Some_iff [THEN iffD1])

lemma generateId_nonempty: "\<forall>i \<le> 100. uuid i \<noteq> [] \<Longrightarrow> generateId uuid has \<noteq> []"
  by (auto simp: generateId_def find_Some_iff split: option.splits)

lemma getEntries_update [simp]:
  "getEntries (sm\<lparr>sm_leafId := l\<rparr>) = getEntries sm"
  "getEntries (sm\<lparr>sm_flushed := b\<rparr>) = getEntries sm"
  "getEntries (sm\<lparr>sm_labelsById := ls\<rparr>) = getEntries sm"
  "getEntries (sm\<lparr>sm_labelTimestampsById := ts\<rparr>) = getEntries sm"
  "getEntries (sm\<lparr>sm_byId := m\<rparr>) = getEntries sm"
  by (simp_all add: getEntries_def)

lemma persist_entry_fields [simp]:
  "sm_fileEntries (fst (persist_entry e sm fs)) = sm_fileEntries sm"
  "sm_byId (fst (persist_entry e sm fs)) = sm_byId sm"
  "sm_leafId (fst (persist_entry e sm fs)) = sm_leafId sm"
  "sm_labelsById (fst (persist_entry e sm fs)) = sm_labelsById sm"
  "sm_labelTimestampsById (fst (persist_entry e sm fs)) = sm_labelTimestampsById sm"
  "sm_sessionFile (fst (persist_entry e sm fs)) = sm_sessionFile sm"
  "sm_persist (fst (persist_entry e sm fs)) = sm_persist sm"
  "sm_sessionId (fst (persist_entry e sm fs)) = sm_sessionId sm"
  by (simp_all add: persist_entry_def split: option.splits)

lemma appendEntry_fields [simp]:
  "sm_fileEntries (fst (appendEntry e sm fs)) = sm_fileEntries sm @ [Entry e]"
  "sm_byId (fst (appendEntry e sm fs)) = AList.update (e_id e) e (sm_byId sm)"
  "sm_leafId (fst (appendEntry e sm fs)) = Some (e_id e)"
  "sm_labelsById (fst (appendEntry e sm fs)) = sm_labelsById sm"
  "sm_labelTimestampsById (fst (appendEntry e sm fs)) = sm_labelTimestampsById sm"
  "sm_sessionFile (fst (appendEntry e sm fs)) = sm_sessionFile sm"
  "sm_persist (fst (appendEntry e sm fs)) = sm_persist sm"
  by (simp_all add: appendEntry_def)

lemma getEntries_appendEntry [simp]: "getEntries (fst (appendEntry e sm fs)) = getEntries sm @ [e]"
  by (simp add: getEntries_def map_filter_append map_filter_Cons)

lemma AList_update_idx: "e_id e \<notin> ids es \<Longrightarrow> AList.update (e_id e) e (idx es) = idx (es @ [e])"
  by (induction es) (auto simp: idx_def)

lemma has_id_wf: "wf_session sm \<Longrightarrow> has_id sm i \<longleftrightarrow> i \<in> ids (getEntries sm)"
  by (auto simp: has_id_def wf_session_def map_of_idx_None)

lemma appendEntry_wf:
  assumes "wf_session sm" "e_id e \<noteq> []" "e_id e \<notin> ids (getEntries sm)"
    and "e_parentId e = None \<or> (\<exists>p. e_parentId e = Some p \<and> p \<in> ids (getEntries sm))"
  shows "wf_session (fst (appendEntry e sm fs))"
  using assms by (auto simp: wf_session_def wf_entries_snoc AList_update_idx split: option.splits)

lemma new_entry_fresh:
  assumes "wf_session sm" "fresh_uuid uuid sm"
  shows "e_id (new_entry uuid now sm p) \<noteq> []" "e_id (new_entry uuid now sm p) \<notin> ids (getEntries sm)"
  using assms generateId_free [of "has_id sm" uuid] generateId_nonempty [of uuid "has_id sm"]
  by (auto simp: new_entry_def fresh_uuid_def has_id_wf)

lemma append_new_wf:
  assumes "wf_session sm" "fresh_uuid uuid sm" "append_new p uuid now sm fs = (i, sm', fs')"
  shows "wf_session sm'"
proof -
  let ?e = "new_entry uuid now sm p"
  have "sm' = fst (appendEntry ?e sm fs)"
    using assms(3) by (auto simp: append_new_def Let_def prod_eq_iff)
  moreover have "e_parentId ?e = None \<or> (\<exists>q. e_parentId ?e = Some q \<and> q \<in> ids (getEntries sm))"
    using assms(1) by (auto simp: wf_session_def new_entry_def split: option.splits)
  ultimately show ?thesis
    using appendEntry_wf [OF assms(1) new_entry_fresh [OF assms(1,2)]] by auto
qed


section \<open>Branches of a session\<close>

lemma getBranch_id: "getBranch sm (Some i) = walk_to_root (sm_byId sm) (lookup_id (sm_byId sm) (Some i)) []"
  by (simp add: getBranch_def)

lemma lookup_id_idx:
  "wf_entries es \<Longrightarrow> e \<in> set es \<Longrightarrow> lookup_id (idx es) (Some (e_id e)) = Some e"
  by (simp add: lookup_id_def map_of_idx_in wf_id_nonempty)

lemma getBranch_entry:
  assumes "wf_session sm" "e \<in> set (getEntries sm)"
  shows "\<exists>p. getBranch sm (Some (e_id e)) = Some (p @ [e]) \<and> subseq (p @ [e]) (getEntries sm)"
  using assms walk_wf [of "getEntries sm" e]
  by (auto simp: wf_session_def getBranch_id lookup_id_idx)

lemma getBranch_unknown:
  "wf_session sm \<Longrightarrow> i \<notin> ids (getEntries sm) \<Longrightarrow> getBranch sm (Some i) = Some []"
  by (auto simp: wf_session_def getBranch_id lookup_id_def map_of_idx_None [symmetric])

lemma getBranch_total:
  assumes "wf_session sm"
  shows "\<exists>p. getBranch sm fromId = Some p \<and> subseq p (getEntries sm)"
proof (cases "case fromId of None \<Rightarrow> sm_leafId sm | Some i \<Rightarrow> Some i")
  case None
  then have "getBranch sm fromId = Some []"
    by (simp add: getBranch_def lookup_id_def split: option.splits)
  then show ?thesis by simp
next
  case (Some i)
  then have eq: "getBranch sm fromId = getBranch sm (Some i)"
    by (simp add: getBranch_def split: option.splits)
  show ?thesis
  proof (cases "i \<in> ids (getEntries sm)")
    case True
    then obtain e where "e \<in> set (getEntries sm)" "i = e_id e" by (auto simp: ids_def)
    with getBranch_entry [OF assms] eq show ?thesis by metis
  next
    case False
    with getBranch_unknown [OF assms] eq show ?thesis by simp
  qed
qed

lemma getBranch_parent:
  assumes wf: "wf_session sm" and e: "e \<in> set (getEntries sm)"
  shows "getBranch sm (Some (e_id e)) =
     map_option (\<lambda>p. p @ [e])
       (case e_parentId e of None \<Rightarrow> Some [] | Some q \<Rightarrow> getBranch sm (Some q))"
proof -
  let ?m = "sm_byId sm"
  have m: "?m = idx (getEntries sm)" "wf_entries (getEntries sm)"
    using wf by (auto simp: wf_session_def)
  have "getBranch sm (Some (e_id e)) = walk_to_root ?m (parent_of ?m e) [e]"
    using e m by (simp add: getBranch_id lookup_id_idx walk_Some)
  also have "\<dots> = map_option (\<lambda>p. p @ [e]) (walk_to_root ?m (parent_of ?m e) [])"
  proof (cases "parent_of ?m e")
    case (Some y)
    then have y: "y \<in> set (getEntries sm)"
      by (auto simp: parent_of_def lookup_id_def m dest: map_of_idx_SomeD split: option.splits if_splits)
    then obtain q where "walk_to_root ?m (Some y) [] = Some q"
      using walk_wf [OF m(2) y] m(1) by auto
    with walk_acc [OF this] Some show ?thesis by auto
  qed simp
  also have "walk_to_root ?m (parent_of ?m e) [] =
      (case e_parentId e of None \<Rightarrow> Some [] | Some q \<Rightarrow> getBranch sm (Some q))"
    by (simp add: parent_of_def getBranch_id lookup_id_def split: option.splits)
  finally show ?thesis .
qed

lemma getBranch_appendEntry_old:
  assumes wf: "wf_session sm" and fresh: "e_id x \<notin> ids (getEntries sm)" and i: "i \<in> ids (getEntries sm)"
  shows "getBranch (fst (appendEntry x sm fs)) (Some i) = getBranch sm (Some i)"
proof -
  from i obtain e where e: "e \<in> set (getEntries sm)" "i = e_id e" by (auto simp: ids_def)
  have m: "sm_byId sm = idx (getEntries sm)" "wf_entries (getEntries sm)"
    using wf by (auto simp: wf_session_def)
  have "lookup_id (idx (getEntries sm @ [x])) (Some i) = Some e"
    using e m(2) map_of_idx_snoc [OF i, of x] lookup_id_idx [OF m(2) e(1)]
    by (simp add: lookup_id_def split: if_splits)
  then show ?thesis
    using e m fresh walk_snoc_old [OF m(2) e(1), of x]
    by (simp add: getBranch_id AList_update_idx lookup_id_idx)
qed

lemma getBranch_appendEntry_new:
  assumes wf: "wf_session sm" and e: "e_id x \<noteq> []" "e_id x \<notin> ids (getEntries sm)"
    and par: "e_parentId x = Some p" "p \<in> ids (getEntries sm)"
  shows "getBranch (fst (appendEntry x sm fs)) (Some (e_id x)) =
           map_option (\<lambda>q. q @ [x]) (getBranch sm (Some p))"
proof -
  have "wf_session (fst (appendEntry x sm fs))"
    using appendEntry_wf [OF wf e] par by blast
  from getBranch_parent [OF this, of x] show ?thesis
    using par getBranch_appendEntry_old [OF wf e(2) par(2)] by simp
qed

lemma getBranch_appendEntry_root:
  assumes wf: "wf_session sm" and e: "e_id x \<noteq> []" "e_id x \<notin> ids (getEntries sm)"
    and par: "e_parentId x = None"
  shows "getBranch (fst (appendEntry x sm fs)) (Some (e_id x)) = Some [x]"
proof -
  have "wf_session (fst (appendEntry x sm fs))"
    using appendEntry_wf [OF wf e] par by blast
  from getBranch_parent [OF this, of x] show ?thesis
    using par by simp
qed

text \<open>Appending at the leaf extends the current branch by exactly the new entry.\<close>

lemma append_new_branch:
  assumes wf: "wf_session sm" and fresh: "fresh_uuid uuid sm"
    and app: "append_new p uuid now sm fs = (i, sm', fs')"
  shows "getBranch sm' None = map_option (\<lambda>q. q @ [new_entry uuid now sm p]) (getBranch sm None)"
    and "sm_leafId sm' = Some i" and "getEntries sm' = getEntries sm @ [new_entry uuid now sm p]"
proof -
  let ?e = "new_entry uuid now sm p"
  have sm': "sm' = fst (appendEntry ?e sm fs)" and i: "i = e_id ?e"
    using app by (auto simp: append_new_def Let_def prod_eq_iff)
  show "sm_leafId sm' = Some i" "getEntries sm' = getEntries sm @ [?e]"
    by (simp_all add: sm' i)
  have leaf: "getBranch sm' None = getBranch sm' (Some (e_id ?e))"
    by (simp add: getBranch_def sm')
  show "getBranch sm' None = map_option (\<lambda>q. q @ [?e]) (getBranch sm None)"
  proof (cases "sm_leafId sm")
    case None
    then show ?thesis
      using leaf getBranch_appendEntry_root [OF wf new_entry_fresh [OF wf fresh]]
      by (simp add: sm' new_entry_def getBranch_def lookup_id_def)
  next
    case (Some l)
    then have l: "l \<in> ids (getEntries sm)" using wf by (simp add: wf_session_def)
    have par: "e_parentId ?e = Some l" using Some by (simp add: new_entry_def)
    show ?thesis
      using Some leaf getBranch_appendEntry_new [OF wf new_entry_fresh [OF wf fresh] par l]
      by (simp add: sm' getBranch_def)
  qed
qed

end
