(* ===== verification/Session_Context.thy ===== *)
theory Session_Context
  imports Session_Tree
begin

text \<open>
  The context sent to the model as a function of the branch: how an appended message,
  compaction or summary changes it, and that \<open>sessionContext\<close> returns on every well-formed
  session.
\<close>

section \<open>The context of a branch\<close>

lemma path_context_Nil: "path_context [] = empty_context"
  by (simp add: path_context_def path_settings_def path_messages_def empty_context_def)

lemma path_settings_snoc: "path_settings (path @ [e]) = settings_step e (path_settings path)"
  by (simp add: path_settings_def)

lemma settings_step_compaction:
  "snd (snd (settings_step e (t, m, c))) = (if is_compaction e then Some e else c)"
  by (auto split: entry_payload.splits agent_message.splits)

lemma path_settings_compaction:
  "path_settings path = (t, m, Some ce) \<Longrightarrow> ce \<in> set path \<and> is_compaction ce"
proof (induction path arbitrary: t m rule: rev_induct)
  case Nil
  then show ?case by (simp add: path_settings_def)
next
  case (snoc e path)
  obtain t0 m0 c0 where s: "path_settings path = (t0, m0, c0)" by (cases "path_settings path") auto
  have "Some ce = (if is_compaction e then Some e else c0)"
    using settings_step_compaction [of e t0 m0 c0] snoc.prems s by (simp add: path_settings_snoc)
  with snoc.IH s show ?case by (auto split: if_splits)
qed

lemma path_settings_no_compaction:
  "path_settings path = (t, m, None) \<Longrightarrow> \<forall>e \<in> set path. \<not> is_compaction e"
proof (induction path arbitrary: t m rule: rev_induct)
  case (snoc e path)
  obtain t0 m0 c0 where s: "path_settings path = (t0, m0, c0)" by (cases "path_settings path") auto
  have "None = (if is_compaction e then Some e else c0)"
    using settings_step_compaction [of e t0 m0 c0] snoc.prems s by (simp add: path_settings_snoc)
  with snoc.IH s show ?case by (auto split: if_splits)
qed simp

lemma path_messages_snoc:
  assumes "path_settings path = (t, m, c)"
  shows "path_messages (path @ [e]) c = path_messages path c @ entry_messages e"
proof (cases c)
  case None
  then show ?thesis by (simp add: path_messages_def)
next
  case (Some ce)
  with assms path_settings_compaction have ce: "ce \<in> set path" "is_compaction ce" by blast+
  then obtain i where i: "index_of (\<lambda>e. is_compaction e \<and> e_id e = e_id ce) path = Some i"
    by (cases "index_of (\<lambda>e. is_compaction e \<and> e_id e = e_id ce) path") (auto simp: index_of_None)
  from index_of_Some [OF i] have "i < length path" by blast
  with ce(2) i Some show ?thesis
    by (auto simp: path_messages_def index_of_append split: entry_payload.splits)
qed

lemma path_context_snoc_message:
  "e_payload e = MessageEntry msg \<Longrightarrow>
     sc_messages (path_context (path @ [e])) = sc_messages (path_context path) @ [msg]"
proof -
  assume e: "e_payload e = MessageEntry msg"
  obtain t m c where s: "path_settings path = (t, m, c)" by (cases "path_settings path") auto
  then obtain t' m' where "path_settings (path @ [e]) = (t', m', c)"
    using e by (cases msg) (auto simp: path_settings_snoc)
  with s e show ?thesis
    using path_messages_snoc [OF s, of e] by (simp add: path_context_def entry_messages_def)
qed

lemma kept_entries_True: "kept_entries k True es = es"
  by (induction es) (auto simp: Let_def)

lemma kept_entries_skip: "k \<notin> ids pre \<Longrightarrow> kept_entries k False (pre @ es) = kept_entries k False es"
  by (induction pre) (auto simp: Let_def)

lemma kept_entries_from:
  "k \<notin> ids pre \<Longrightarrow> e_id e = k \<Longrightarrow> kept_entries k False (pre @ e # post) = e # post"
  by (simp add: kept_entries_skip kept_entries_True Let_def)

lemma kept_entries_none: "k \<notin> ids es \<Longrightarrow> kept_entries k False es = []"
  using kept_entries_skip [of k es "[]"] by simp

lemma path_context_snoc_compaction:
  assumes e: "e_payload e = Compaction c" and fresh: "e_id e \<notin> ids path"
  shows "sc_messages (path_context (path @ [e])) =
           createCompactionSummaryMessage (c_summary c) (c_tokensBefore c) (e_timestamp e)
           # concat (map entry_messages (kept_entries (c_firstKeptEntryId c) False path))"
proof -
  obtain t m c0 where s: "path_settings path = (t, m, c0)" by (cases "path_settings path") auto
  have "\<forall>x \<in> set path. \<not> (is_compaction x \<and> e_id x = e_id e)"
    using fresh by (metis ids_def imageI)
  then have "index_of (\<lambda>x. is_compaction x \<and> e_id x = e_id e) path = None"
    by (simp only: index_of_None)
  then have "index_of (\<lambda>x. is_compaction x \<and> e_id x = e_id e) (path @ [e]) = Some (length path)"
    using e by (simp add: index_of_append)
  then show ?thesis
    using s e by (simp add: path_context_def path_settings_snoc path_messages_def)
qed

lemma getBranch_leaf: "getBranch sm None = getBranch sm (sm_leafId sm)"
  by (simp add: getBranch_def split: option.splits)

lemma sessionContext_branch:
  assumes wf: "wf_session sm"
  shows "sessionContext sm = map_option path_context (getBranch sm None)"
proof (cases "sm_leafId sm")
  case None
  then show ?thesis
    by (simp add: sessionContext_def buildSessionContext_def leaf_of_def Let_def getBranch_def
        lookup_id_def path_context_Nil)
next
  case (Some i)
  with wf obtain e where e: "e \<in> set (getEntries sm)" "i = e_id e"
    by (auto simp: wf_session_def ids_def)
  then have "lookup_id (sm_byId sm) (Some i) = Some e"
    using wf by (simp add: wf_session_def lookup_id_idx)
  with Some show ?thesis
    by (simp add: sessionContext_def buildSessionContext_def leaf_of_def Let_def getBranch_def)
qed

lemma sessionContext_total:
  "wf_session sm \<Longrightarrow> \<exists>c. sessionContext sm = Some c"
  using getBranch_total [of sm None] by (auto simp: sessionContext_branch)

lemma append_message_context:
  assumes wf: "wf_session sm" and fresh: "fresh_uuid uuid sm"
    and app: "appendMessage m uuid now sm fs = (i, sm', fs')"
    and ctx: "sessionContext sm = Some c"
  shows "\<exists>c'. sessionContext sm' = Some c' \<and> sc_messages c' = sc_messages c @ [m]"
proof -
  note app' = app [unfolded appendMessage_def]
  have wf': "wf_session sm'" by (rule append_new_wf [OF wf fresh app'])
  obtain p where p: "getBranch sm None = Some p" using getBranch_total [OF wf] by blast
  have "getBranch sm' None = Some (p @ [new_entry uuid now sm (MessageEntry m)])"
    using append_new_branch(1) [OF wf fresh app'] p by simp
  moreover have "e_payload (new_entry uuid now sm (MessageEntry m)) = MessageEntry m"
    by (simp add: new_entry_def)
  ultimately show ?thesis
    using ctx p by (auto simp: sessionContext_branch [OF wf] sessionContext_branch [OF wf']
        path_context_snoc_message)
qed

lemma subseq_set: "subseq xs ys \<Longrightarrow> set xs \<subseteq> set ys"
  by (induction rule: list_emb.induct) auto

lemma subseq_distinct: "subseq xs ys \<Longrightarrow> distinct ys \<Longrightarrow> distinct xs"
  by (induction rule: list_emb.induct) (auto dest: subseq_set)

lemma branch_ids_subset:
  "wf_session sm \<Longrightarrow> getBranch sm i = Some p \<Longrightarrow> set p \<subseteq> set (getEntries sm) \<and> distinct (map e_id p)"
proof -
  assume wf: "wf_session sm" and p: "getBranch sm i = Some p"
  from getBranch_total [OF wf, of i] p have sub: "subseq p (getEntries sm)" by auto
  then have "subseq (map e_id p) (map e_id (getEntries sm))" by (rule subseq_map)
  moreover have "distinct (map e_id (getEntries sm))"
    using wf wf_entries_distinct by (simp add: wf_session_def)
  ultimately show ?thesis
    using sub subseq_distinct subseq_set by blast
qed

lemma append_compaction_context:
  assumes wf: "wf_session sm" and fresh: "fresh_uuid uuid sm"
    and app: "appendCompaction summary k tokens details hook uuid now sm fs = (i, sm', fs')"
    and br: "getBranch sm None = Some (pre @ e # post)" and k: "e_id e = k"
  shows "\<exists>c'. sessionContext sm' = Some c' \<and>
      sc_messages c' = createCompactionSummaryMessage summary tokens now
        # concat (map entry_messages (e # post))"
proof -
  note app' = app [unfolded appendCompaction_def]
  let ?p = "Compaction \<lparr>c_summary = summary, c_firstKeptEntryId = k, c_tokensBefore = tokens,
     c_details = details, c_fromHook = hook, c_firstKeptEntryIndex = None\<rparr>"
  let ?x = "new_entry uuid now sm ?p"
  have wf': "wf_session sm'" by (rule append_new_wf [OF wf fresh app'])
  have br': "getBranch sm' None = Some ((pre @ e # post) @ [?x])"
    using append_new_branch(1) [OF wf fresh app'] br by simp
  from branch_ids_subset [OF wf br] have d: "set (pre @ e # post) \<subseteq> set (getEntries sm)"
    "distinct (map e_id (pre @ e # post))" by blast+
  have "e_id ?x \<notin> ids (pre @ e # post)"
    using new_entry_fresh(2) [OF wf fresh, of now ?p] d(1) unfolding ids_def by blast
  moreover have "kept_entries k False (pre @ e # post) = e # post"
    using d(2) k by (intro kept_entries_from) (auto simp: ids_def)
  ultimately show ?thesis
    using path_context_snoc_compaction [of ?x _ "pre @ e # post"] br'
    by (simp add: sessionContext_branch [OF wf'] new_entry_def)
qed

end
