(* ===== verification/Session_Steps.thy ===== *)
theory Session_Steps
  imports Session_Context
begin

text \<open>
  Every operation that changes a session as one constructor of \<open>session_op\<close>, the step
  function \<open>run_op\<close> that calls the model's operation, and the three effects a step can
  have on the tree.
\<close>

section \<open>Operations as steps\<close>

text \<open>One constructor per operation of the session manager that changes the tree.\<close>

datatype session_op =
    OpMessage agent_message
  | OpThinkingLevel jsstring
  | OpModel jsstring jsstring
  | OpCompaction jsstring jsstring nat "json option" bool
  | OpCustom jsstring "json option"
  | OpSessionInfo jsstring
  | OpCustomMessage jsstring user_content bool "json option"
  | OpLabel jsstring "jsstring option"
  | OpBranch jsstring
  | OpResetLeaf
  | OpBranchWithSummary "jsstring option" jsstring "json option" bool

fun run_op ::
    "session_op \<Rightarrow> (nat \<Rightarrow> jsstring) \<Rightarrow> iso_time \<Rightarrow> session_manager \<Rightarrow> session_fs
     \<Rightarrow> jsstring + session_manager \<times> session_fs" where
  "run_op (OpMessage m) uuid now sm fs = Inr (snd (appendMessage m uuid now sm fs))"
| "run_op (OpThinkingLevel l) uuid now sm fs = Inr (snd (appendThinkingLevelChange l uuid now sm fs))"
| "run_op (OpModel p m) uuid now sm fs = Inr (snd (appendModelChange p m uuid now sm fs))"
| "run_op (OpCompaction s k t d h) uuid now sm fs = Inr (snd (appendCompaction s k t d h uuid now sm fs))"
| "run_op (OpCustom c d) uuid now sm fs = Inr (snd (appendCustomEntry c d uuid now sm fs))"
| "run_op (OpSessionInfo n) uuid now sm fs = Inr (snd (appendSessionInfo n uuid now sm fs))"
| "run_op (OpCustomMessage c t d x) uuid now sm fs =
     Inr (snd (appendCustomMessageEntry c t d x uuid now sm fs))"
| "run_op (OpLabel t l) uuid now sm fs = map_sum id snd (appendLabelChange t l uuid now sm fs)"
| "run_op (OpBranch i) uuid now sm fs = map_sum id (\<lambda>sm'. (sm', fs)) (branch i sm)"
| "run_op OpResetLeaf uuid now sm fs = Inr (resetLeaf sm, fs)"
| "run_op (OpBranchWithSummary i s d h) uuid now sm fs =
     map_sum id snd (branchWithSummary i s d h uuid now sm fs)"

text \<open>
  Every operation is an append at a leaf it may first move, a pointer move, or an append
  followed by a label update.
\<close>

definition at_leaf :: "jsstring option \<Rightarrow> session_manager \<Rightarrow> bool" where
  "at_leaf l sm \<longleftrightarrow> (case l of None \<Rightarrow> True | Some i \<Rightarrow> i \<in> ids (getEntries sm))"

lemma wf_move_leaf: "wf_session sm \<Longrightarrow> at_leaf l sm \<Longrightarrow> wf_session (sm\<lparr>sm_leafId := l\<rparr>)"
  by (simp add: wf_session_def at_leaf_def split: option.splits)

declare index_label.simps [simp del]

lemma index_label_fields [simp]:
  "getEntries (index_label e sm) = getEntries sm"
  "sm_byId (index_label e sm) = sm_byId sm"
  "sm_leafId (index_label e sm) = sm_leafId sm"
  "sm_fileEntries (index_label e sm) = sm_fileEntries sm"
  "sm_persist (index_label e sm) = sm_persist sm"
  "sm_sessionFile (index_label e sm) = sm_sessionFile sm"
  "sm_flushed (index_label e sm) = sm_flushed sm"
  by (auto simp: index_label.simps getEntries_def split: entry_payload.splits option.splits)

lemma wf_index_label [simp]: "wf_session (index_label e sm) = wf_session sm"
  by (simp add: wf_session_def split: option.splits)

inductive op_effect :: "session_manager \<Rightarrow> session_fs \<Rightarrow> session_manager \<Rightarrow> session_fs \<Rightarrow> bool"
  for sm :: session_manager and fs :: session_fs where
  move: "at_leaf l sm \<Longrightarrow> op_effect sm fs (sm\<lparr>sm_leafId := l\<rparr>) fs"
| app: "at_leaf l sm \<Longrightarrow> e = new_entry uuid now (sm\<lparr>sm_leafId := l\<rparr>) p \<Longrightarrow> fresh_uuid uuid sm \<Longrightarrow>
        \<not> is_label e \<Longrightarrow> appendEntry e (sm\<lparr>sm_leafId := l\<rparr>) fs = (sm', fs') \<Longrightarrow> op_effect sm fs sm' fs'"
| lab: "e = new_entry uuid now sm (LabelEntry t l) \<Longrightarrow> fresh_uuid uuid sm \<Longrightarrow>
        appendEntry e sm fs = (sm', fs') \<Longrightarrow> op_effect sm fs (index_label e sm') fs'"

lemma at_own_leaf: "wf_session sm \<Longrightarrow> at_leaf (sm_leafId sm) sm"
  by (simp add: wf_session_def at_leaf_def)

lemma append_new_effect:
  assumes "at_leaf l sm" "fresh_uuid uuid sm" "\<not> is_label (new_entry uuid now (sm\<lparr>sm_leafId := l\<rparr>) p)"
    and "snd (append_new p uuid now (sm\<lparr>sm_leafId := l\<rparr>) fs) = (sm', fs')"
  shows "op_effect sm fs sm' fs'"
  using assms by (auto simp: append_new_def Let_def intro!: app [where l = l and uuid = uuid and now = now and p = p])

lemma run_op_effect:
  assumes wf: "wf_session sm" and fresh: "fresh_uuid uuid sm" and run: "run_op op uuid now sm fs = Inr (sm', fs')"
  shows "op_effect sm fs sm' fs'"
proof -
  have own: "sm\<lparr>sm_leafId := sm_leafId sm\<rparr> = sm" by simp
  have new: "op_effect sm fs sm' fs'"
    if "snd (append_new p uuid now sm fs) = (sm', fs')" "\<not> is_label (new_entry uuid now sm p)" for p
    using append_new_effect [OF at_own_leaf [OF wf] fresh, unfolded own] that by blast
  show ?thesis
  proof (cases op)
    case (OpLabel t l)
    then show ?thesis
      using run fresh
      by (auto simp: appendLabelChange_def Let_def split: if_splits prod.splits intro: lab)
  next
    case (OpBranch i)
    then show ?thesis
      using run wf by (auto simp: branch_def has_id_wf split: if_splits intro!: move simp: at_leaf_def)
  next
    case OpResetLeaf
    then show ?thesis
      using run by (auto simp: resetLeaf_def intro!: move simp: at_leaf_def)
  next
    case (OpBranchWithSummary i s d h)
    then show ?thesis
      using run wf
      by (auto simp: branchWithSummary_def has_id_wf at_leaf_def new_entry_def
          intro!: append_new_effect [OF _ fresh, where l = i] split: option.splits if_splits)
  qed (use run new in \<open>auto simp: appendMessage_def appendThinkingLevelChange_def appendModelChange_def
      appendCompaction_def appendCustomEntry_def appendSessionInfo_def appendCustomMessageEntry_def
      new_entry_def\<close>)
qed

text \<open>What every operation keeps: the tree invariant, the history and the branches in it.\<close>

lemma fresh_uuid_leaf [simp]: "fresh_uuid uuid (sm\<lparr>sm_leafId := l\<rparr>) = fresh_uuid uuid sm"
  by (simp add: fresh_uuid_def has_id_def)

lemma appendEntry_at_leaf:
  assumes "wf_session sm" "at_leaf l sm" "fresh_uuid uuid sm"
    and e: "e = new_entry uuid now (sm\<lparr>sm_leafId := l\<rparr>) p"
    and ap: "appendEntry e (sm\<lparr>sm_leafId := l\<rparr>) fs = (sm', fs')"
  shows "wf_session sm' \<and> getEntries sm' = getEntries sm @ [e]
    \<and> (\<forall>i \<in> ids (getEntries sm). getBranch sm' (Some i) = getBranch sm (Some i))"
proof -
  let ?sm = "sm\<lparr>sm_leafId := l\<rparr>"
  have wf: "wf_session ?sm" using assms(1,2) by (rule wf_move_leaf)
  have fresh: "e_id e \<noteq> []" "e_id e \<notin> ids (getEntries ?sm)"
    using new_entry_fresh [OF wf, of uuid now p] assms(3) e by auto
  have par: "e_parentId e = None \<or> (\<exists>q. e_parentId e = Some q \<and> q \<in> ids (getEntries ?sm))"
    using assms(2) e by (auto simp: new_entry_def at_leaf_def split: option.splits)
  have sm': "sm' = fst (appendEntry e ?sm fs)" using ap by simp
  have "getBranch sm' (Some i) = getBranch sm (Some i)" if "i \<in> ids (getEntries sm)" for i
    using getBranch_appendEntry_old [OF wf fresh(2), of i fs] that sm' by (simp add: getBranch_def)
  then show ?thesis
    using appendEntry_wf [OF wf fresh par, of fs] sm' by simp
qed

lemma op_effect_keeps:
  assumes "op_effect sm fs sm' fs'" "wf_session sm"
  shows "wf_session sm' \<and> prefix (getEntries sm) (getEntries sm')
    \<and> (\<forall>i \<in> ids (getEntries sm). getBranch sm' (Some i) = getBranch sm (Some i))"
  using assms(1)
proof cases
  case (move l)
  then show ?thesis using assms(2) by (auto simp: wf_move_leaf getBranch_def)
next
  case (app l e uuid now p)
  with appendEntry_at_leaf [OF assms(2) app(1,3,2,5)] show ?thesis by simp
next
  case (lab e uuid now t l sm1)
  have own: "sm\<lparr>sm_leafId := sm_leafId sm\<rparr> = sm" by simp
  from appendEntry_at_leaf [OF assms(2) at_own_leaf [OF assms(2)] lab(3), unfolded own, OF lab(2,4)] lab(1)
  show ?thesis by (simp add: getBranch_def)
qed

lemma run_op_keeps:
  assumes "wf_session sm" "fresh_uuid uuid sm" "run_op op uuid now sm fs = Inr (sm', fs')"
  shows "wf_session sm'" "prefix (getEntries sm) (getEntries sm')"
    "\<And>i. i \<in> ids (getEntries sm) \<Longrightarrow> getBranch sm' (Some i) = getBranch sm (Some i)"
  using op_effect_keeps [OF run_op_effect [OF assms] assms(1)] by auto

end
