(* ===== verification/Session_Storage.thy ===== *)
theory Session_Storage
  imports Session_Steps
begin

text \<open>
  Labels, the index rebuilt from a file, the file a session keeps, and the invariant of
  every session that operations reach from a new one.
\<close>

section \<open>The index rebuilt from the entries\<close>

text \<open>The labels a list of entries resolves to, latest change last.\<close>

fun label_step :: "session_entry \<Rightarrow> (jsstring \<times> jsstring) list \<Rightarrow> (jsstring \<times> jsstring) list" where
  "label_step e ls =
     (case e_payload e of
        LabelEntry t (Some l) \<Rightarrow> if l \<noteq> [] then AList.update t l ls else AList.delete t ls
      | LabelEntry t None \<Rightarrow> AList.delete t ls
      | _ \<Rightarrow> ls)"

definition labels_of :: "session_entry list \<Rightarrow> (jsstring \<times> jsstring) list" where
  "labels_of es = fold label_step es []"

declare label_step.simps [simp del] is_label.simps [simp del]

lemma index_label_labels: "sm_labelsById (index_label e sm) = label_step e (sm_labelsById sm)"
  by (auto simp: index_label.simps label_step.simps split: entry_payload.splits option.splits)

lemma label_step_other: "\<not> is_label e \<Longrightarrow> label_step e ls = ls"
  by (auto simp: label_step.simps is_label.simps split: entry_payload.splits)

lemma fold_index_fields:
  "sm_fileEntries (fold index_file_entry fes sm) = sm_fileEntries sm"
  "sm_persist (fold index_file_entry fes sm) = sm_persist sm"
  "sm_sessionFile (fold index_file_entry fes sm) = sm_sessionFile sm"
  "sm_sessionId (fold index_file_entry fes sm) = sm_sessionId sm"
proof (induction fes arbitrary: sm)
  case (Cons fe fes)
  { case 1 then show ?case using Cons by (cases fe) simp_all }
  { case 2 then show ?case using Cons by (cases fe) simp_all }
  { case 3 then show ?case using Cons by (cases fe) simp_all }
  { case 4 then show ?case using Cons
      by (cases fe) (auto simp: index_label.simps split: entry_payload.splits option.splits) }
qed simp_all

lemma fold_index_byId:
  "sm_byId (fold index_file_entry fes sm) =
     fold (\<lambda>e m. AList.update (e_id e) e m) (List.map_filter entry_of fes) (sm_byId sm)"
  "sm_leafId (fold index_file_entry fes sm) =
     (case List.map_filter entry_of fes of [] \<Rightarrow> sm_leafId sm | es \<Rightarrow> Some (e_id (last es)))"
  "sm_labelsById (fold index_file_entry fes sm) =
     fold label_step (List.map_filter entry_of fes) (sm_labelsById sm)"
proof (induction fes arbitrary: sm)
  case (Cons fe fes)
  { case 1 then show ?case using Cons by (cases fe) (simp_all add: map_filter_Cons) }
  { case 2 then show ?case using Cons by (cases fe) (auto simp: map_filter_Cons split: list.splits) }
  { case 3 then show ?case using Cons by (cases fe) (simp_all add: map_filter_Cons index_label_labels) }
qed simp_all

lemma fold_update_idx:
  "wf_entries es \<Longrightarrow> fold (\<lambda>e m. AList.update (e_id e) e m) es [] = idx es"
  by (induction es rule: rev_induct) (auto simp: wf_entries_snoc AList_update_idx, simp add: idx_def)

lemma buildIndex_fields [simp]:
  "sm_fileEntries (buildIndex sm) = sm_fileEntries sm"
  "sm_persist (buildIndex sm) = sm_persist sm"
  "sm_sessionFile (buildIndex sm) = sm_sessionFile sm"
  "sm_sessionId (buildIndex sm) = sm_sessionId sm"
  "getEntries (buildIndex sm) = getEntries sm"
  by (simp_all add: buildIndex_def fold_index_fields getEntries_def)

lemma buildIndex_leaf:
  "sm_leafId (buildIndex sm) = (case getEntries sm of [] \<Rightarrow> None | es \<Rightarrow> Some (e_id (last es)))"
  by (simp add: buildIndex_def fold_index_byId getEntries_def split: list.splits)

lemma buildIndex_labels: "sm_labelsById (buildIndex sm) = labels_of (getEntries sm)"
  by (simp add: buildIndex_def fold_index_byId getEntries_def labels_of_def)

lemma buildIndex_byId: "wf_entries (getEntries sm) \<Longrightarrow> sm_byId (buildIndex sm) = idx (getEntries sm)"
  by (simp add: buildIndex_def fold_index_byId fold_update_idx getEntries_def)

lemma buildIndex_wf: "wf_entries (getEntries sm) \<Longrightarrow> wf_session (buildIndex sm)"
  by (auto simp: wf_session_def buildIndex_byId buildIndex_leaf ids_def split: list.splits)

lemma appendEntryD:
  assumes "appendEntry e sm fs = (sm', fs')"
  shows "getEntries sm' = getEntries sm @ [e]" "sm_labelsById sm' = sm_labelsById sm"
    "sm_fileEntries sm' = sm_fileEntries sm @ [Entry e]"
  using getEntries_appendEntry [of e sm fs] appendEntry_fields(1,4) [of e sm fs] assms by simp_all

lemma wf_session_flushed [simp]: "wf_session (sm\<lparr>sm_flushed := b\<rparr>) = wf_session sm"
  by (simp add: wf_session_def split: option.splits)

section \<open>Labels\<close>

definition labels_ok :: "session_manager \<Rightarrow> bool" where
  "labels_ok sm \<longleftrightarrow> sm_labelsById sm = labels_of (getEntries sm)"

lemma labels_of_snoc: "labels_of (es @ [e]) = label_step e (labels_of es)"
  by (simp add: labels_of_def)

lemma op_effect_labels: "op_effect sm fs sm' fs' \<Longrightarrow> labels_ok sm \<Longrightarrow> labels_ok sm'"
proof (induction rule: op_effect.induct)
  case (move l)
  then show ?case by (simp add: labels_ok_def)
next
  case (app l e uuid now p sm' fs')
  then show ?case
    using appendEntryD [OF app.hyps(5)] by (simp add: labels_ok_def labels_of_snoc label_step_other)
next
  case (lab e uuid now t l sm' fs')
  then show ?case
    using appendEntryD [OF lab.hyps(3)] by (simp add: labels_ok_def labels_of_snoc index_label_labels)
qed

lemma getLabel_appendLabelChange:
  assumes "appendLabelChange t l uuid now sm fs = Inr (i, sm', fs')"
  shows "getLabel sm' t = (case l of Some x \<Rightarrow> if x \<noteq> [] then Some x else None | None \<Rightarrow> None)"
    and "j \<noteq> t \<Longrightarrow> getLabel sm' j = getLabel sm j"
proof -
  let ?e = "new_entry uuid now sm (LabelEntry t l)"
  have "sm' = index_label ?e (fst (appendEntry ?e sm fs))"
    using assms by (auto simp: appendLabelChange_def Let_def split: if_splits prod.splits)
  then have lab: "sm_labelsById sm' = label_step ?e (sm_labelsById sm)"
    by (simp add: index_label_labels)
  then show "getLabel sm' t = (case l of Some x \<Rightarrow> if x \<noteq> [] then Some x else None | None \<Rightarrow> None)"
    by (auto simp: getLabel_def label_step.simps new_entry_def update_conv' delete_conv' split: option.splits)
  show "getLabel sm' j = getLabel sm j" if "j \<noteq> t"
    using lab that
    by (auto simp: getLabel_def label_step.simps new_entry_def update_conv' delete_conv' split: option.splits)
qed

section \<open>Persistence\<close>

text \<open>
  The file of a persisted session: absent until the first assistant message, and from then
  on exactly the session's entries, one line each.
\<close>

definition synced :: "session_manager \<Rightarrow> session_fs \<Rightarrow> bool" where
  "synced sm fs \<longleftrightarrow>
     (sm_persist sm \<longrightarrow>
       (case sm_sessionFile sm of
          None \<Rightarrow> False
        | Some f \<Rightarrow>
            (if list_ex has_assistant_message (sm_fileEntries sm)
             then sm_flushed sm \<and> fs f = Some (map Parsed (sm_fileEntries sm))
             else \<not> sm_flushed sm \<and> fs f = None)))"

lemma synced_leaf [simp]: "synced (sm\<lparr>sm_leafId := l\<rparr>) fs = synced sm fs"
  by (simp add: synced_def split: option.splits)

lemma synced_index_label [simp]: "synced (index_label e sm) fs = synced sm fs"
  by (simp add: synced_def split: option.splits)

lemma appendEntry_synced:
  assumes "synced sm fs" "appendEntry e sm fs = (sm', fs')"
  shows "synced sm' fs'"
  using assms
  by (auto simp: synced_def appendEntry_def persist_entry_def append_lines_def list_ex_iff
      split: option.splits if_splits)

lemma op_effect_synced: "op_effect sm fs sm' fs' \<Longrightarrow> synced sm fs \<Longrightarrow> synced sm' fs'"
  by (induction rule: op_effect.induct) (auto dest: appendEntry_synced [rotated])

text \<open>A file starts with one header of the current version, and no other header follows.\<close>

definition headed :: "session_manager \<Rightarrow> bool" where
  "headed sm \<longleftrightarrow>
     (\<exists>h. sm_fileEntries sm = Header h # map Entry (getEntries sm)
        \<and> h_version h = Some CURRENT_SESSION_VERSION)"

lemma op_effect_headed: "op_effect sm fs sm' fs' \<Longrightarrow> headed sm \<Longrightarrow> headed sm'"
proof (induction rule: op_effect.induct)
  case (move l)
  then show ?case by (simp add: headed_def)
next
  case (app l e uuid now p sm' fs')
  then show ?case using appendEntryD [OF app.hyps(5)] by (auto simp: headed_def)
next
  case (lab e uuid now t l sm' fs')
  then show ?case using appendEntryD [OF lab.hyps(3)] by (auto simp: headed_def)
qed

lemma parse_Parsed [simp]: "parseSessionEntries (map Parsed es) = es"
  by (induction es) (auto simp: parseSessionEntries_def map_filter_Cons)

lemma reload:
  assumes sync: "synced sm fs" and p: "sm_persist sm" and hd: "headed sm" and wf: "wf_session sm"
    and flushed: "sm_flushed sm" and f: "sm_sessionFile sm = Some f"
    and set: "setSessionFile f fresh uuid now (blank_manager cwd dir True) fs = (sm2, fs2)"
  shows "fs2 = fs" "sm_fileEntries sm2 = sm_fileEntries sm" "getEntries sm2 = getEntries sm"
    "sm_labelsById sm2 = labels_of (getEntries sm)" "wf_session sm2" "sm_byId sm2 = sm_byId sm"
    "synced sm2 fs2" "sm_leafId sm2 = (case getEntries sm of [] \<Rightarrow> None | es \<Rightarrow> Some (e_id (last es)))"
proof -
  from hd obtain h where h: "sm_fileEntries sm = Header h # map Entry (getEntries sm)"
      "h_version h = Some CURRENT_SESSION_VERSION"
    by (auto simp: headed_def)
  have content: "fs f = Some (map Parsed (sm_fileEntries sm))" and asst: "list_ex has_assistant_message (sm_fileEntries sm)"
    using sync p f flushed by (auto simp: synced_def split: if_splits)
  have load: "loadEntriesFromFile fs f = sm_fileEntries sm"
    by (simp only: loadEntriesFromFile_def content option.case parse_Parsed) (simp add: h(1))
  let ?b = "blank_manager cwd dir True"
  let ?sm1 = "?b\<lparr>sm_sessionFile := Some f, sm_sessionId := h_id h, sm_fileEntries := sm_fileEntries sm\<rparr>"
  have "migrateToCurrentVersion uuid (sm_fileEntries sm) = (False, sm_fileEntries sm)"
    using h by (simp add: migrateToCurrentVersion_def session_version_def first_header_def map_filter_Cons)
  moreover have "first_header (sm_fileEntries sm) = Some h"
    using h by (simp add: first_header_def map_filter_Cons)
  ultimately have eq: "sm2 = (buildIndex ?sm1)\<lparr>sm_flushed := True\<rparr>" "fs2 = fs"
    using set content load h by (auto simp: setSessionFile_def Let_def)
  have es: "getEntries ?sm1 = getEntries sm" by (simp add: getEntries_def)
  have wfe: "wf_entries (getEntries ?sm1)" using wf es by (simp add: wf_session_def)
  show "fs2 = fs" by (rule eq)
  show fe: "sm_fileEntries sm2 = sm_fileEntries sm" by (simp add: eq)
  show "getEntries sm2 = getEntries sm" using fe by (simp add: getEntries_def)
  show "sm_labelsById sm2 = labels_of (getEntries sm)" by (simp add: eq buildIndex_labels es)
  show "wf_session sm2"
    using buildIndex_wf [OF wfe] by (simp add: eq)
  show "sm_byId sm2 = sm_byId sm"
    using buildIndex_byId [OF wfe] wf es by (simp add: eq wf_session_def)
  show "synced sm2 fs2"
    using content asst by (simp add: eq synced_def blank_manager_def)
  show "sm_leafId sm2 = (case getEntries sm of [] \<Rightarrow> None | es \<Rightarrow> Some (e_id (last es)))"
    by (simp add: eq buildIndex_leaf es)
qed

section \<open>Reachable sessions\<close>

inductive session_reach :: "session_manager \<Rightarrow> session_fs \<Rightarrow> bool" where
  start: "fs (GeneratedPath dir now sid) = None \<Longrightarrow>
    session_reach (newSession None None sid now (blank_manager cwd dir persist)) fs"
| step: "session_reach sm fs \<Longrightarrow> fresh_uuid uuid sm \<Longrightarrow> run_op op uuid now sm fs = Inr (sm', fs') \<Longrightarrow>
    session_reach sm' fs'"

definition session_inv :: "session_manager \<Rightarrow> session_fs \<Rightarrow> bool" where
  "session_inv sm fs \<longleftrightarrow> wf_session sm \<and> labels_ok sm \<and> synced sm fs \<and> headed sm"

lemma newSession_inv:
  assumes "fs (GeneratedPath dir now sid) = None"
  shows "session_inv (newSession None None sid now (blank_manager cwd dir persist)) fs"
proof -
  have "getEntries (newSession None None sid now (blank_manager cwd dir persist)) = []"
    by (simp add: newSession_def Let_def getEntries_def map_filter_Cons)
  with assms show ?thesis
    by (simp add: session_inv_def wf_session_def labels_ok_def synced_def headed_def labels_of_def idx_def)
      (simp add: newSession_def Let_def blank_manager_def)
qed

lemma session_reach_inv: "session_reach sm fs \<Longrightarrow> session_inv sm fs"
proof (induction rule: session_reach.induct)
  case (start fs dir now sid cwd persist)
  then show ?case by (rule newSession_inv)
next
  case (step sm fs uuid op now sm' fs')
  then have wf: "wf_session sm" by (simp add: session_inv_def)
  have eff: "op_effect sm fs sm' fs'" using wf step.hyps(2,3) by (rule run_op_effect)
  show ?case
    using step.IH run_op_keeps [OF wf step.hyps(2,3)] op_effect_labels [OF eff] op_effect_synced [OF eff]
      op_effect_headed [OF eff]
    by (simp add: session_inv_def)
qed

end
