(* ===== verification/Session_Branching.thy ===== *)
theory Session_Branching
  imports Session_Storage
begin

text \<open>
  A branch is a linear path of parents, and \<open>createBranchedSession\<close> extracts one into a
  session of its own.

  Files of older versions: what migration to the current version makes of their entries,
  and the session an old file opens as.
\<close>

section \<open>Linear paths\<close>

fun linked :: "jsstring option \<Rightarrow> session_entry list \<Rightarrow> bool" where
  "linked prev [] = True"
| "linked prev (e # es) = (e_parentId e = prev \<and> linked (Some (e_id e)) es)"

lemma linked_append:
  "linked prev (xs @ ys) \<longleftrightarrow>
     linked prev xs \<and> linked (if xs = [] then prev else Some (e_id (last xs))) ys"
  by (induction xs arbitrary: prev) auto

lemma linked_walk:
  "linked None es \<Longrightarrow> distinct (map e_id es) \<Longrightarrow> [] \<notin> ids es \<Longrightarrow>
     wf_entries es \<and> (es \<noteq> [] \<longrightarrow> walk_to_root (idx es) (Some (last es)) [] = Some es)"
proof (induction es rule: rev_induct)
  case Nil
  then show ?case by simp
next
  case (snoc e es)
  then have IH: "wf_entries es" "es \<noteq> [] \<longrightarrow> walk_to_root (idx es) (Some (last es)) [] = Some es"
    and l: "linked None es" "e_parentId e = (if es = [] then None else Some (e_id (last es)))"
    by (auto simp: linked_append)
  have wf: "wf_entries (es @ [e])"
    using IH(1) snoc.prems l(2) by (auto simp: wf_entries_snoc ids_def)
  show ?case
  proof (cases "es = []")
    case True
    then show ?thesis using wf l by (simp add: walk_Some parent_of_def lookup_id_def)
  next
    case False
    have last_in: "last es \<in> set es" using False by simp
    then have nonempty: "e_id (last es) \<noteq> []" using IH(1) by (rule wf_id_nonempty [rotated])
    have in_ids: "e_id (last es) \<in> ids es" using last_in by (simp add: ids_def)
    have "parent_of (idx (es @ [e])) e = Some (last es)"
      using l(2) False nonempty map_of_idx_snoc [OF in_ids, of e] map_of_idx_in [OF IH(1) last_in]
      by (simp add: parent_of_def lookup_id_def)
    moreover obtain q where "walk_to_root (idx es) (Some (last es)) [e] = Some (q @ [e])" "q = es"
      using IH(2) False walk_acc [of "idx es" "Some (last es)" "[]" es] by auto
    ultimately show ?thesis
      using wf walk_snoc_old [OF IH(1) last_in, of e "[e]"] by (simp add: walk_Some)
  qed
qed

lemma chain_linked:
  "wf_entries es \<Longrightarrow> chain (idx es) q \<Longrightarrow> set q \<subseteq> set es \<Longrightarrow> linked None (rev q)"
proof (induction "idx es" q rule: chain.induct)
  case (2 e)
  then show ?case
    using wf_parent_in [of es e] wf_entries_distinct [of es]
    by (cases "e_parentId e")
      (auto simp: parent_of_def lookup_id_def map_of_idx_None split: if_splits)
next
  case (3 e p r)
  then have "e_parentId e = Some (e_id p)"
    by (auto simp: parent_of_def lookup_id_def dest: map_of_idx_SomeD split: option.splits if_splits)
  with 3 show ?case by (simp add: linked_append)
qed simp

lemma getBranch_linked:
  assumes wf: "wf_session sm" and br: "getBranch sm i = Some p"
  shows "linked None p"
proof -
  let ?es = "getEntries sm"
  define c where "c = lookup_id (sm_byId sm) (case i of Some i \<Rightarrow> Some i | None \<Rightarrow> sm_leafId sm)"
  have w: "walk_to_root (idx ?es) c [] = Some p" "wf_entries ?es"
    using wf br by (simp_all add: wf_session_def getBranch_def c_def)
  show ?thesis
  proof (cases c)
    case None
    with w show ?thesis by simp
  next
    case (Some e)
    then have "e \<in> set ?es"
      using wf by (auto simp: c_def lookup_id_def wf_session_def dest!: map_of_idx_SomeD split: option.splits if_splits)
    from wf_chain_exists [OF w(2) this] obtain q where
      q: "chain (idx ?es) (e # q)" "set (e # q) \<subseteq> set ?es" by blast
    with w Some chain_walk [OF q(1), of "[]"] have "p = rev (e # q)" by simp
    with chain_linked [OF w(2) q] show ?thesis by simp
  qed
qed

section \<open>Extracting a branch into a session of its own\<close>

definition fresh_draws :: "nat \<Rightarrow> (nat \<Rightarrow> nat \<Rightarrow> jsstring) \<Rightarrow> session_entry list \<Rightarrow> bool" where
  "fresh_draws n uuid es \<longleftrightarrow>
     distinct (map (\<lambda>k. uuid k 100) [0..<n])
     \<and> (\<forall>k < n. 8 < length (uuid k 100) \<and> uuid k 100 \<notin> ids es \<and> (\<forall>i \<le> 100. uuid k i \<noteq> []))"

lemma generateId_cases:
  "generateId uuid has = uuid 100 \<or> (\<exists>i < 100. generateId uuid has = take 8 (uuid i))"
  by (auto simp: generateId_def find_Some_iff split: option.splits)

lemma label_entries_linked: "linked parent (label_entries uuid k used parent ls)"
  by (induction uuid k used parent ls rule: label_entries.induct) (auto simp: Let_def)

lemma label_entries_label: "e \<in> set (label_entries uuid k used parent ls) \<Longrightarrow> is_label e"
  by (induction uuid k used parent ls rule: label_entries.induct) (auto simp: Let_def is_label.simps)

lemma fresh_draws_fallback:
  assumes "fresh_draws n uuid es" "k < n"
    and "set used \<subseteq> ids es \<union> {x. length x \<le> 8} \<union> {uuid j 100 |j. j < k}"
  shows "uuid k 100 \<notin> set used" "\<forall>i \<le> 100. uuid k i \<noteq> []"
proof -
  have d: "uuid j 100 \<noteq> uuid k 100" if "j < k" for j
    using assms(1,2) that nth_eq_iff_index_eq [of "map (\<lambda>k. uuid k 100) [0..<n]" j k]
    by (auto simp: fresh_draws_def)
  have f: "8 < length (uuid k 100)" "uuid k 100 \<notin> ids es"
    using assms(1,2) by (simp_all add: fresh_draws_def)
  show "uuid k 100 \<notin> set used"
  proof
    assume "uuid k 100 \<in> set used"
    with assms(3) f obtain j where "j < k" "uuid k 100 = uuid j 100" by fastforce
    with d [of j] show False by simp
  qed
  show "\<forall>i \<le> 100. uuid k i \<noteq> []"
    using assms(1,2) by (simp add: fresh_draws_def)
qed

lemma label_entries_ids:
  assumes "fresh_draws n uuid es"
  shows "k + length ls \<le> n \<Longrightarrow>
    set used \<subseteq> ids es \<union> {x. length x \<le> 8} \<union> {uuid j 100 |j. j < k} \<Longrightarrow>
    distinct (map e_id (label_entries uuid k used parent ls))
    \<and> ids (label_entries uuid k used parent ls) \<inter> set used = {}
    \<and> [] \<notin> ids (label_entries uuid k used parent ls)"
proof (induction ls arbitrary: k used parent)
  case (Cons tl ls)
  obtain t l ts where tl: "tl = (t, l, ts)" by (cases tl)
  define i where "i = generateId (uuid k) (\<lambda>x. x \<in> set used)"
  have k: "k < n" using Cons.prems(1) by simp
  note fb = fresh_draws_fallback [OF assms k Cons.prems(2)]
  have i: "i \<notin> set used" "i \<noteq> []"
    using generateId_free [of "\<lambda>x. x \<in> set used" "uuid k"] fb generateId_nonempty [of "uuid k"]
    by (auto simp: i_def)
  have "i \<in> {x. length x \<le> 8} \<union> {uuid j 100 |j. j < Suc k}"
    using generateId_cases [of "uuid k" "\<lambda>x. x \<in> set used"] by (auto simp: i_def)
  then have "set (used @ [i]) \<subseteq> ids es \<union> {x. length x \<le> 8} \<union> {uuid j 100 |j. j < Suc k}"
    using Cons.prems(2) less_SucI by fastforce
  from Cons.IH [of "Suc k", OF _ this, of "Some i"] Cons.prems(1)
  have IH: "distinct (map e_id (label_entries uuid (Suc k) (used @ [i]) (Some i) ls))"
    "ids (label_entries uuid (Suc k) (used @ [i]) (Some i) ls) \<inter> set (used @ [i]) = {}"
    "[] \<notin> ids (label_entries uuid (Suc k) (used @ [i]) (Some i) ls)" by simp_all
  have "label_entries uuid k used parent (tl # ls) =
      \<lparr>e_id = i, e_parentId = parent, e_timestamp = ts, e_payload = LabelEntry t (Some l)\<rparr>
      # label_entries uuid (Suc k) (used @ [i]) (Some i) ls"
    by (simp add: tl i_def Let_def)
  then show ?case
    using IH i by (auto simp: ids_def)
qed simp

lemma path_context_snoc_label:
  assumes "is_label e"
  shows "path_context (path @ [e]) = path_context path"
proof -
  obtain t m c where s: "path_settings path = (t, m, c)" by (cases "path_settings path") auto
  have e: "settings_step e (t, m, c) = (t, m, c)" "entry_messages e = []"
    using assms by (auto simp: is_label.simps entry_messages_def split: entry_payload.splits)
  show ?thesis
    using s e path_messages_snoc [OF s, of e] by (simp add: path_context_def path_settings_snoc)
qed

lemma path_context_labels:
  "\<forall>e \<in> set ls. is_label e \<Longrightarrow> path_context (path @ ls) = path_context path"
proof (induction ls rule: rev_induct)
  case (snoc e ls)
  then show ?case
    using path_context_snoc_label [of e "path @ ls"] by simp
qed simp

lemma getEntries_Header:
  assumes "sm_fileEntries sm = Header h # map Entry es"
  shows "getEntries sm = es"
proof -
  have "List.map_filter entry_of (map Entry es) = es"
    by (induction es) (simp_all add: map_filter_Cons)
  with assms show ?thesis by (simp add: getEntries_def map_filter_Cons)
qed

lemma createBranchedSession_result:
  assumes wf: "wf_session sm" and br: "getBranch sm (Some leaf) = Some path" and ne: "path \<noteq> []"
    and nolab: "\<forall>e \<in> set path. \<not> is_label e"
    and draws: "fresh_draws (length (sm_labelsById sm)) uuid path"
    and cr: "createBranchedSession leaf sid uuid now sm fs = Some (Inr (f, sm', fs'))"
  shows "wf_session sm'" "sessionContext sm' = Some (path_context path)"
    "\<exists>ls. getBranch sm' None = Some (path @ ls) \<and> getEntries sm' = path @ ls \<and> (\<forall>e \<in> set ls. is_label e)"
proof -
  have filt: "filter (\<lambda>e. \<not> is_label e) path = path" using nolab by (simp add: filter_id_conv)
  have sub: "set path \<subseteq> set (getEntries sm)" and wfe0: "wf_entries (getEntries sm)"
    using branch_ids_subset [OF wf br] wf by (auto simp: wf_session_def)
  then have ne_id: "\<forall>x \<in> set path. e_id x \<noteq> []" using wf_id_nonempty by blast
  then have dis: "distinct (map e_id path)" "[] \<notin> ids path"
    using branch_ids_subset [OF wf br] by (auto simp: ids_def)
  have lid: "last_id path = Some (e_id (last path))"
    using ne ne_id by (simp add: last_id_def)
  define lw where "lw = map (\<lambda>(target, label). (target, label, the (map_of (sm_labelTimestampsById sm) target)))
                  (filter (\<lambda>(target, label). target \<in> set (map e_id path)) (sm_labelsById sm))"
  define ls where "ls = label_entries uuid 0 (map e_id path) (Some (e_id (last path))) lw"
  have bi: "\<exists>sm0. getEntries sm0 = path @ ls
      \<and> (sm' = buildIndex sm0 \<or> (\<exists>b. sm' = (buildIndex sm0)\<lparr>sm_flushed := b\<rparr>))"
  proof -
    define h where "h = \<lparr>h_version = Some CURRENT_SESSION_VERSION, h_id = sid, h_timestamp = now,
        h_cwd = sm_cwd sm, h_parentSession = (if sm_persist sm then sm_sessionFile sm else None)\<rparr>"
    define sm0 where "sm0 = (if sm_persist sm
        then sm\<lparr>sm_fileEntries := Header h # map Entry (path @ ls), sm_sessionId := sid,
                 sm_sessionFile := Some (GeneratedPath (sm_sessionDir sm) now sid)\<rparr>
        else sm\<lparr>sm_fileEntries := Header h # map Entry (path @ ls), sm_sessionId := sid\<rparr>)"
    have "getEntries sm0 = path @ ls"
      by (rule getEntries_Header [where h = h]) (simp add: sm0_def)
    moreover have "sm' = buildIndex sm0 \<or> (\<exists>b. sm' = (buildIndex sm0)\<lparr>sm_flushed := b\<rparr>)"
      using cr br ne
      by (auto simp: createBranchedSession_def Let_def filt lid lw_def ls_def h_def sm0_def split: if_splits)
    ultimately show ?thesis by blast
  qed
  then have es: "getEntries sm' = path @ ls" by auto
  have len: "length lw \<le> length (sm_labelsById sm)" by (simp add: lw_def)
  have lids: "distinct (map e_id ls)" "ids ls \<inter> ids path = {}" "[] \<notin> ids ls"
    using label_entries_ids [OF draws, of 0 lw "map e_id path" "Some (e_id (last path))"] len
    by (auto simp: ls_def ids_def)
  have lk: "linked None (path @ ls)"
    using getBranch_linked [OF wf br] ne label_entries_linked by (simp add: linked_append ls_def)
  have "distinct (map e_id (path @ ls))" "[] \<notin> ids (path @ ls)"
    using dis lids by (auto simp: ids_def)
  from linked_walk [OF lk this] ne have wfe: "wf_entries (path @ ls)"
    and w: "walk_to_root (idx (path @ ls)) (Some (last (path @ ls))) [] = Some (path @ ls)" by auto
  show wf': "wf_session sm'" using bi buildIndex_wf wfe by auto
  have labs: "\<forall>e \<in> set ls. is_label e" using label_entries_label by (auto simp: ls_def)
  have last_in: "last (path @ ls) \<in> set (path @ ls)" using ne by (intro last_in_set) simp
  have "sm_leafId sm' = Some (e_id (last (path @ ls)))"
    using bi ne by (auto simp: buildIndex_leaf split: list.splits)
  then have "getBranch sm' None = Some (path @ ls)"
    using w wf' es lookup_id_idx [OF wfe last_in] by (simp add: getBranch_def wf_session_def)
  with es labs show "\<exists>ls. getBranch sm' None = Some (path @ ls) \<and> getEntries sm' = path @ ls \<and> (\<forall>e \<in> set ls. is_label e)"
    by blast
  from \<open>getBranch sm' None = Some (path @ ls)\<close> show "sessionContext sm' = Some (path_context path)"
    using path_context_labels [OF labs, of path] by (simp add: sessionContext_branch [OF wf'])
qed

section \<open>Migration of version 1 files\<close>

definition v1_id :: "(nat \<Rightarrow> nat \<Rightarrow> jsstring) \<Rightarrow> nat \<Rightarrow> jsstring" where
  "v1_id uuid k = take 8 (uuid k 0)"

lemma generateId_unused [simp]: "generateId u (\<lambda>_. False) = take 8 (u 0)"
proof -
  have "[0..<100] = 0 # [1..<100]" by (simp add: upt_conv_Cons)
  then show ?thesis by (simp add: generateId_def)
qed

lemma migrate_v1_loop_entries:
  "\<exists>es. List.map_filter entry_of (migrate_v1_loop uuid k prev done rest) = List.map_filter entry_of done @ es
      \<and> linked prev es \<and> length es = length (List.map_filter entry_of rest)
      \<and> map e_id es = map (v1_id uuid) [k..<k + length es]"
proof (induction uuid k prev "done" rest rule: migrate_v1_loop.induct)
  case (1 uuid k prev don)
  then show ?case by simp
next
  case (2 uuid k prev don h rest)
  then show ?case by (simp add: map_filter_append map_filter_Cons)
next
  case (3 uuid k prev don e rest)
  define e1 where "e1 = e\<lparr>e_id := generateId (uuid k) (\<lambda>_. False), e_parentId := prev\<rparr>"
  define e2 where "e2 = (case e_payload e1 of
      Compaction c \<Rightarrow> e1\<lparr>e_payload := Compaction (kept_id_from_index (don @ Entry e1 # rest) c)\<rparr>
    | _ \<Rightarrow> e1)"
  have e2: "e_id e2 = v1_id uuid k" "e_parentId e2 = prev"
    by (simp_all add: e2_def e1_def v1_id_def split: entry_payload.splits)
  have step: "migrate_v1_loop uuid k prev don (Entry e # rest) =
      migrate_v1_loop uuid (Suc k) (Some (e_id e2)) (don @ [Entry e2]) rest"
    unfolding migrate_v1_loop.simps Let_def e1_def [symmetric] e2_def [symmetric] ..
  from "3.IH" [OF e1_def e2_def] obtain es where es:
    "List.map_filter entry_of (migrate_v1_loop uuid (Suc k) (Some (e_id e2)) (don @ [Entry e2]) rest) =
       List.map_filter entry_of (don @ [Entry e2]) @ es"
    "linked (Some (e_id e2)) es" "length es = length (List.map_filter entry_of rest)"
    "map e_id es = map (v1_id uuid) [Suc k..<Suc k + length es]"
    by blast
  have "map e_id (e2 # es) = map (v1_id uuid) [k..<k + length (e2 # es)]"
    using es(4) e2(1) by (simp add: upt_conv_Cons del: upt_Suc)
  then show ?case
    unfolding step using es(1-3) e2(2)
    by (intro exI [of _ "e2 # es"]) (simp add: map_filter_append map_filter_Cons)
qed

lemma migrate_v2_entries:
  "linked prev (List.map_filter entry_of (map migrate_v2_entry fes)) = linked prev (List.map_filter entry_of fes)"
  "map e_id (List.map_filter entry_of (map migrate_v2_entry fes)) = map e_id (List.map_filter entry_of fes)"
proof (induction fes arbitrary: prev)
  case (Cons fe fes)
  { case 1 then show ?case using Cons
      by (cases fe) (auto simp: map_filter_Cons split: entry_payload.splits agent_message.splits) }
  { case 2 then show ?case using Cons
      by (cases fe) (auto simp: map_filter_Cons split: entry_payload.splits agent_message.splits) }
qed simp_all

lemma migrate_v1_to_current:
  fixes uuid :: "nat \<Rightarrow> nat \<Rightarrow> jsstring"
  assumes v: "session_version fes < 2"
  defines "es \<equiv> List.map_filter entry_of (snd (migrateToCurrentVersion uuid fes))"
  shows "fst (migrateToCurrentVersion uuid fes)" "linked None es"
    "map e_id es = map (v1_id uuid) [0..<length (List.map_filter entry_of fes)]"
proof -
  obtain es0 where es0: "List.map_filter entry_of (migrateV1ToV2 uuid fes) = es0" "linked None es0"
    "length es0 = length (List.map_filter entry_of fes)" "map e_id es0 = map (v1_id uuid) [0..<length es0]"
    using migrate_v1_loop_entries [of uuid 0 None "[]" fes] by (auto simp: migrateV1ToV2_def)
  have m: "snd (migrateToCurrentVersion uuid fes) = map migrate_v2_entry (migrateV1ToV2 uuid fes)"
    "fst (migrateToCurrentVersion uuid fes)"
    using v by (simp_all add: migrateToCurrentVersion_def Let_def CURRENT_SESSION_VERSION_def migrateV2ToV3_def)
  then show "fst (migrateToCurrentVersion uuid fes)" by simp
  show "linked None es" using es0 m by (simp add: es_def migrate_v2_entries)
  show "map e_id es = map (v1_id uuid) [0..<length (List.map_filter entry_of fes)]"
    using es0 m by (simp add: es_def migrate_v2_entries)
qed

text \<open>
  A version 1 file opens as one branch that holds every entry, when the drawn ids differ.
\<close>

lemma open_v1:
  assumes src: "fs f = Some lines" and load: "loadEntriesFromFile fs f = fes" "fes \<noteq> []"
    and v: "session_version fes < 2" and n: "n = length (List.map_filter entry_of fes)" "0 < n"
    and draws: "distinct (map (v1_id uuid) [0..<n])" "\<forall>k < n. v1_id uuid k \<noteq> []"
    and op: "openManager cwd dir (Some f) True fresh uuid now fs = (sm, fs')"
  shows "wf_session sm" "getBranch sm None = Some (getEntries sm)" "length (getEntries sm) = n"
    "fs' f = Some (map Parsed (sm_fileEntries sm))"
proof -
  obtain migrated mes where mig: "migrateToCurrentVersion uuid fes = (migrated, mes)"
    by (cases "migrateToCurrentVersion uuid fes") auto
  note M = migrate_v1_to_current [OF v, of uuid, unfolded mig, simplified]
  let ?es = "List.map_filter entry_of mes"
  let ?b = "blank_manager cwd dir True"
  obtain sid where sm: "sm = (buildIndex (?b\<lparr>sm_sessionFile := Some f, sm_sessionId := sid, sm_fileEntries := mes\<rparr>))
      \<lparr>sm_flushed := True\<rparr>"
    and fs': "fs' = rewriteFile (?b\<lparr>sm_sessionFile := Some f, sm_sessionId := sid, sm_fileEntries := mes\<rparr>) fs"
    using op src load mig M(1) by (auto simp: openManager_def setSessionFile_def Let_def)
  have es: "getEntries sm = ?es" by (simp add: sm getEntries_def)
  have idl: "map e_id ?es = map (v1_id uuid) [0..<n]" using M(3) n by simp
  then have len: "length ?es = n" by (metis diff_zero length_map length_upt)
  then show "length (getEntries sm) = n" by (simp add: es)
  have ne: "?es \<noteq> []" using len n(2) by auto
  have "set (map e_id ?es) = v1_id uuid ` {0..<n}" unfolding idl by simp
  then have "[] \<notin> ids ?es" using draws(2) by (auto simp: ids_def)
  moreover have "distinct (map e_id ?es)" unfolding idl by (rule draws(1))
  ultimately have lw: "wf_entries ?es" "walk_to_root (idx ?es) (Some (last ?es)) [] = Some ?es"
    using linked_walk [OF M(2)] ne by auto
  have ge: "getEntries (?b\<lparr>sm_sessionFile := Some f, sm_sessionId := sid, sm_fileEntries := mes\<rparr>) = ?es"
    by (simp add: getEntries_def)
  show wf: "wf_session sm" using buildIndex_wf lw(1) ge by (simp add: sm)
  have "sm_leafId sm = Some (e_id (last ?es))"
    using ne by (simp add: sm buildIndex_leaf ge split: list.splits)
  moreover have "lookup_id (idx ?es) (Some (e_id (last ?es))) = Some (last ?es)"
    using lw(1) ne by (simp add: lookup_id_idx)
  ultimately show "getBranch sm None = Some (getEntries sm)"
    using wf lw(2) es by (simp add: getBranch_def wf_session_def)
  show "fs' f = Some (map Parsed (sm_fileEntries sm))"
    by (simp add: fs' rewriteFile_def sm blank_manager_def)
qed

lemma migration_stable:
  assumes "first_header fes = Some h"
  shows "\<exists>h'. first_header (snd (migrateToCurrentVersion uuid fes)) = Some h'
    \<and> session_version (snd (migrateToCurrentVersion uuid fes)) \<ge> CURRENT_SESSION_VERSION"
proof -
  have v3: "\<exists>h'. first_header (migrateV2ToV3 es) = Some h' \<and> h_version h' = Some 3"
    if "first_header es = Some h" for es h
    using that
  proof (induction es)
    case (Cons e es)
    then show ?case
      by (cases e)
        (auto simp: first_header_def migrateV2ToV3_def map_filter_Cons
          split: entry_payload.splits agent_message.splits list.splits)
  qed (simp add: first_header_def)
  have v2: "\<exists>h'. first_header (migrate_v1_loop uuid k p don rest) = Some h'"
    if "\<exists>h. first_header (don @ rest) = Some h" for k p don rest
    using that
  proof (induction uuid k p don rest rule: migrate_v1_loop.induct)
    case (2 uuid k p don h rest)
    show ?case
      by (simp, rule "2.IH") (auto simp: first_header_def map_filter_append map_filter_Cons split: list.splits)
  next
    case (3 uuid k p don e rest)
    have "\<exists>h. first_header (don @ [Entry x] @ rest) = Some h" for x
      using "3.prems" by (simp add: first_header_def map_filter_append map_filter_Cons)
    then show ?case
      unfolding migrate_v1_loop.simps Let_def by (intro "3.IH" [OF refl refl]) simp
  qed simp
  show ?thesis
  proof (cases "session_version fes \<ge> CURRENT_SESSION_VERSION")
    case True
    then show ?thesis using assms by (simp add: migrateToCurrentVersion_def Let_def)
  next
    case False
    have "\<exists>h. first_header (if session_version fes < 2 then migrateV1ToV2 uuid fes else fes) = Some h"
      using assms v2 [of "[]" fes 0 None] by (simp add: migrateV1ToV2_def)
    then obtain h2 where "first_header (if session_version fes < 2 then migrateV1ToV2 uuid fes else fes) = Some h2" ..
    from v3 [OF this] False show ?thesis
      by (auto simp: migrateToCurrentVersion_def Let_def CURRENT_SESSION_VERSION_def session_version_def
          split: if_splits)
  qed
qed

end
