(* ===== verification/Compaction_Utils.thy ===== *)
theory Compaction_Utils
  imports Session_Branching "HOL-Library.List_Lexorder"
begin

text \<open>
  The shared utilities of compaction and branch summaries,
  \<open>packages/coding-agent/src/core/compaction/utils.ts\<close>: which files the tool calls of a
  conversation touched, the lists of read and modified files, and the conversation as text.

  \<^item> A JavaScript \<open>Set\<close> of strings is the list of its elements in insertion order.
  \<^item> \<open>sort()\<close> compares strings by their code units: the lexicographic order of
    \<open>List_Lexorder\<close>.
\<close>

section \<open>File operations\<close>

definition set_add :: "'a \<Rightarrow> 'a list \<Rightarrow> 'a list" where
  "set_add x s = (if x \<in> set s then s else s @ [x])"

definition set_adds :: "'a list \<Rightarrow> 'a list \<Rightarrow> 'a list" where
  "set_adds xs s = fold set_add xs s"

record file_operations =
  fo_read :: "jsstring list"
  fo_written :: "jsstring list"
  fo_edited :: "jsstring list"

definition createFileOps :: file_operations where
  "createFileOps = \<lparr>fo_read = [], fo_written = [], fo_edited = []\<rparr>"

fun file_op_of_block :: "assistant_block \<Rightarrow> file_operations \<Rightarrow> file_operations" where
  "file_op_of_block (AToolCall tc) ops =
     (case json_field (js ''path'') (tc_arguments tc) of
        Some (JStr p) \<Rightarrow>
          (if p = [] then ops
           else if tc_name tc = js ''read'' then ops\<lparr>fo_read := set_add p (fo_read ops)\<rparr>
           else if tc_name tc = js ''write'' then ops\<lparr>fo_written := set_add p (fo_written ops)\<rparr>
           else if tc_name tc = js ''edit'' then ops\<lparr>fo_edited := set_add p (fo_edited ops)\<rparr>
           else ops)
      | _ \<Rightarrow> ops)"
| "file_op_of_block _ ops = ops"

fun extractFileOpsFromMessage :: "agent_message \<Rightarrow> file_operations \<Rightarrow> file_operations" where
  "extractFileOpsFromMessage (Assistant a) ops = fold file_op_of_block (am_content a) ops"
| "extractFileOpsFromMessage _ ops = ops"

definition computeFileLists :: "file_operations \<Rightarrow> jsstring list \<times> jsstring list" where
  "computeFileLists ops =
     (let modified = set_adds (fo_edited ops @ fo_written ops) [];
          readOnly = sort (filter (\<lambda>f. f \<notin> set modified) (fo_read ops));
          modifiedFiles = sort modified
      in (readOnly, modifiedFiles))"

definition formatFileOperations :: "jsstring list \<Rightarrow> jsstring list \<Rightarrow> jsstring" where
  "formatFileOperations readFiles modifiedFiles =
     (let sections =
        (if readFiles \<noteq> []
         then [js ''<read-files>'' @ nl @ join_with nl readFiles @ nl @ js ''</read-files>''] else [])
        @ (if modifiedFiles \<noteq> []
           then [js ''<modified-files>'' @ nl @ join_with nl modifiedFiles @ nl @ js ''</modified-files>'']
           else [])
      in if sections = [] then [] else nl @ nl @ join_with (nl @ nl) sections)"

section \<open>The conversation as text\<close>

definition TOOL_RESULT_MAX_CHARS :: nat where
  "TOOL_RESULT_MAX_CHARS = 2000"

definition truncateForSummary :: "jsstring \<Rightarrow> nat \<Rightarrow> jsstring" where
  "truncateForSummary text maxChars =
     (if length text \<le> maxChars then text
      else take maxChars text @ nl @ nl @ js ''[... '' @ show_nat (length text - maxChars)
             @ js '' more characters truncated]'')"

fun text_of_user_block :: "user_block \<Rightarrow> jsstring option" where
  "text_of_user_block (TextBlock t _) = Some t"
| "text_of_user_block (ImageBlock _ _) = None"

fun text_of_content :: "user_content \<Rightarrow> jsstring" where
  "text_of_content (UString s) = s"
| "text_of_content (UBlocks bs) = join_with [] (List.map_filter text_of_user_block bs)"

fun text_of_assistant_block :: "assistant_block \<Rightarrow> jsstring option" where
  "text_of_assistant_block (AText t _) = Some t"
| "text_of_assistant_block _ = None"

fun thinking_of_block :: "assistant_block \<Rightarrow> jsstring option" where
  "thinking_of_block (AThinking t _ _) = Some t"
| "thinking_of_block _ = None"

definition tool_call_text :: "tool_call \<Rightarrow> jsstring" where
  "tool_call_text tc =
     tc_name tc @ js ''(''
     @ join_with (js '', '')
         (map (\<lambda>(k, v). k @ js ''='' @ stringify v)
           (case tc_arguments tc of JObj kvs \<Rightarrow> kvs | _ \<Rightarrow> []))
     @ js '')''"

fun message_parts :: "llm_message \<Rightarrow> jsstring list" where
  "message_parts (LUser m) =
     (let content = text_of_content (um_content m)
      in if content \<noteq> [] then [js ''[User]: '' @ content] else [])"
| "message_parts (LAssistant m) =
     (let textParts = List.map_filter text_of_assistant_block (am_content m);
          thinkingParts = List.map_filter thinking_of_block (am_content m);
          toolCalls = map tool_call_text (tool_calls_of (am_content m))
      in (if thinkingParts \<noteq> [] then [js ''[Assistant thinking]: '' @ join_with nl thinkingParts] else [])
         @ (if textParts \<noteq> [] then [js ''[Assistant]: '' @ join_with nl textParts] else [])
         @ (if toolCalls \<noteq> [] then [js ''[Assistant tool calls]: '' @ join_with (js ''; '') toolCalls]
            else []))"
| "message_parts (LToolResult m) =
     (let content = text_of_content (UBlocks (tr_content m))
      in if content \<noteq> []
         then [js ''[Tool result]: '' @ truncateForSummary content TOOL_RESULT_MAX_CHARS] else [])"

definition serializeConversation :: "llm_message list \<Rightarrow> jsstring" where
  "serializeConversation messages = join_with (nl @ nl) (concat (map message_parts messages))"

definition js_lines :: "string list \<Rightarrow> jsstring" where
  "js_lines ls = join_with nl (map js ls)"

definition SUMMARIZATION_SYSTEM_PROMPT :: jsstring where
  "SUMMARIZATION_SYSTEM_PROMPT = js_lines
     [''You are a context summarization assistant. Your task is to read a conversation between a user and an AI coding assistant, then produce a structured summary following the exact format specified.'',
      '''',
      ''Do NOT continue the conversation. Do NOT respond to any questions in the conversation. ONLY output the structured summary.'']"

section \<open>The file lists\<close>

lemma set_set_add [simp]: "set (set_add x s) = insert x (set s)"
  by (auto simp: set_add_def)

lemma distinct_set_add [simp]: "distinct s \<Longrightarrow> distinct (set_add x s)"
  by (simp add: set_add_def)

lemma set_set_adds [simp]: "set (set_adds xs s) = set xs \<union> set s"
  by (induction xs arbitrary: s) (auto simp: set_adds_def)

lemma distinct_set_adds [simp]: "distinct s \<Longrightarrow> distinct (set_adds xs s)"
  by (induction xs arbitrary: s) (auto simp: set_adds_def)

definition ops_distinct :: "file_operations \<Rightarrow> bool" where
  "ops_distinct ops \<longleftrightarrow> distinct (fo_read ops) \<and> distinct (fo_written ops) \<and> distinct (fo_edited ops)"

definition touched :: "file_operations \<Rightarrow> jsstring set" where
  "touched ops = set (fo_read ops) \<union> set (fo_written ops) \<union> set (fo_edited ops)"

lemma createFileOps_simps [simp]: "ops_distinct createFileOps" "touched createFileOps = {}"
  by (simp_all add: createFileOps_def ops_distinct_def touched_def)

lemma file_op_of_block_distinct: "ops_distinct ops \<Longrightarrow> ops_distinct (file_op_of_block b ops)"
  by (cases "(b, ops)" rule: file_op_of_block.cases)
    (auto simp: ops_distinct_def split: option.splits json.splits)

lemma extractFileOps_distinct: "ops_distinct ops \<Longrightarrow> ops_distinct (extractFileOpsFromMessage m ops)"
proof (cases m)
  case (Assistant a)
  have "ops_distinct ops \<Longrightarrow> ops_distinct (fold file_op_of_block bs ops)" for bs
    by (induction bs arbitrary: ops) (auto intro: file_op_of_block_distinct)
  then show "ops_distinct ops \<Longrightarrow> ops_distinct (extractFileOpsFromMessage m ops)" using Assistant by simp
qed simp_all

text \<open>Extraction only adds files: each of the three sets grows.\<close>

definition ops_le :: "file_operations \<Rightarrow> file_operations \<Rightarrow> bool" where
  "ops_le a b \<longleftrightarrow> set (fo_read a) \<subseteq> set (fo_read b) \<and> set (fo_written a) \<subseteq> set (fo_written b)
     \<and> set (fo_edited a) \<subseteq> set (fo_edited b)"

lemma ops_le_refl [simp]: "ops_le a a"
  by (simp add: ops_le_def)

lemma ops_le_trans [trans]: "ops_le a b \<Longrightarrow> ops_le b c \<Longrightarrow> ops_le a c"
  by (auto simp: ops_le_def)

lemma file_op_of_block_le: "ops_le ops (file_op_of_block b ops)"
  by (cases "(b, ops)" rule: file_op_of_block.cases)
    (auto simp: ops_le_def split: option.splits json.splits)

lemma extractFileOps_le: "ops_le ops (extractFileOpsFromMessage m ops)"
proof (cases m)
  case (Assistant a)
  have "ops_le ops (fold file_op_of_block bs ops)" for bs
  proof (induction bs arbitrary: ops)
    case (Cons b bs)
    from ops_le_trans [OF file_op_of_block_le Cons.IH [of "file_op_of_block b ops"]] show ?case by simp
  qed simp
  then show ?thesis using Assistant by simp
qed simp_all

lemma computeFileLists_facts:
  assumes "ops_distinct ops" "computeFileLists ops = (readFiles, modifiedFiles)"
  shows "sorted readFiles" "distinct readFiles" "sorted modifiedFiles" "distinct modifiedFiles"
    "set modifiedFiles = set (fo_edited ops) \<union> set (fo_written ops)"
    "set readFiles = set (fo_read ops) - set modifiedFiles"
  using assms by (auto simp: computeFileLists_def Let_def ops_distinct_def)

lemma truncateForSummary_prefix:
  "take maxChars (truncateForSummary text maxChars) = take maxChars text"
  by (simp add: truncateForSummary_def)

end
