(* ===== verification/Compaction.thy ===== *)
theory Compaction
  imports Compaction_Utils
begin

text \<open>
  Context compaction, \<open>packages/coding-agent/src/core/compaction/compaction.ts\<close>: token
  estimates, the cut point, and the preparation that divides a branch into what is summarised
  and what is kept. \<open>-1\<close> for "no turn start" is \<open>None\<close>.
\<close>

section \<open>Token estimates\<close>

record compaction_settings =
  cs_enabled :: bool
  cs_reserveTokens :: nat
  cs_keepRecentTokens :: nat

definition DEFAULT_COMPACTION_SETTINGS :: compaction_settings where
  "DEFAULT_COMPACTION_SETTINGS =
     \<lparr>cs_enabled = True, cs_reserveTokens = 16384, cs_keepRecentTokens = 20000\<rparr>"

definition calculateContextTokens :: "usage \<Rightarrow> nat" where
  "calculateContextTokens u =
     (if u_totalTokens u \<noteq> 0 then u_totalTokens u
      else u_input u + u_output u + u_cacheRead u + u_cacheWrite u)"

fun getAssistantUsage :: "agent_message \<Rightarrow> usage option" where
  "getAssistantUsage (Assistant a) =
     (if am_stopReason a \<noteq> AbortedR \<and> am_stopReason a \<noteq> ErrorR then Some (am_usage a) else None)"
| "getAssistantUsage _ = None"

fun entry_usage :: "session_entry \<Rightarrow> usage option" where
  "entry_usage e = (case e_payload e of MessageEntry m \<Rightarrow> getAssistantUsage m | _ \<Rightarrow> None)"

definition getLastAssistantUsage :: "session_entry list \<Rightarrow> usage option" where
  "getLastAssistantUsage entries =
     (case find_last (\<lambda>e. entry_usage e \<noteq> None) entries of Some e \<Rightarrow> entry_usage e | None \<Rightarrow> None)"

fun user_block_chars :: "nat \<Rightarrow> user_block \<Rightarrow> nat" where
  "user_block_chars img (TextBlock t _) = length t"
| "user_block_chars img (ImageBlock _ _) = img"

fun content_chars :: "nat \<Rightarrow> user_content \<Rightarrow> nat" where
  "content_chars img (UString s) = length s"
| "content_chars img (UBlocks bs) = sum_list (map (user_block_chars img) bs)"

fun assistant_block_chars :: "assistant_block \<Rightarrow> nat" where
  "assistant_block_chars (AText t _) = length t"
| "assistant_block_chars (AThinking t _ _) = length t"
| "assistant_block_chars (AToolCall tc) = length (tc_name tc) + length (stringify (tc_arguments tc))"

fun message_chars :: "agent_message \<Rightarrow> nat" where
  "message_chars (User m) = content_chars 0 (um_content m)"
| "message_chars (Assistant m) = sum_list (map assistant_block_chars (am_content m))"
| "message_chars (Custom m) = content_chars 4800 (cm_content m)"
| "message_chars (ToolResult m) = content_chars 4800 (UBlocks (tr_content m))"
| "message_chars (BashExecution m) = length (be_command m) + length (be_output m)"
| "message_chars (BranchSummary m) = length (bsm_summary m)"
| "message_chars (CompactionSummary m) = length (csm_summary m)"
| "message_chars (HookMessage m) = 0"

text \<open>\<open>Math.ceil(chars / 4)\<close>\<close>

definition estimateTokens :: "agent_message \<Rightarrow> nat" where
  "estimateTokens m = (message_chars m + 3) div 4"

record context_usage_estimate =
  ce_tokens :: nat
  ce_usageTokens :: nat
  ce_trailingTokens :: nat
  ce_lastUsageIndex :: "nat option"

definition getLastAssistantUsageInfo :: "agent_message list \<Rightarrow> (usage \<times> nat) option" where
  "getLastAssistantUsageInfo messages =
     (case last_index_of (\<lambda>m. getAssistantUsage m \<noteq> None) messages of
        Some i \<Rightarrow> map_option (\<lambda>u. (u, i)) (getAssistantUsage (messages ! i))
      | None \<Rightarrow> None)"

definition estimateContextTokens :: "agent_message list \<Rightarrow> context_usage_estimate" where
  "estimateContextTokens messages =
     (case getLastAssistantUsageInfo messages of
        None \<Rightarrow>
          (let estimated = sum_list (map estimateTokens messages)
           in \<lparr>ce_tokens = estimated, ce_usageTokens = 0, ce_trailingTokens = estimated,
               ce_lastUsageIndex = None\<rparr>)
      | Some (usage, index) \<Rightarrow>
          (let usageTokens = calculateContextTokens usage;
               trailingTokens = sum_list (map estimateTokens (drop (index + 1) messages))
           in \<lparr>ce_tokens = usageTokens + trailingTokens, ce_usageTokens = usageTokens,
               ce_trailingTokens = trailingTokens, ce_lastUsageIndex = Some index\<rparr>))"

definition shouldCompact :: "nat \<Rightarrow> nat \<Rightarrow> compaction_settings \<Rightarrow> bool" where
  "shouldCompact contextTokens contextWindow settings \<longleftrightarrow>
     cs_enabled settings
     \<and> int contextTokens > int contextWindow - int (cs_reserveTokens settings)"

section \<open>The cut point\<close>

fun is_message :: "session_entry \<Rightarrow> bool" where
  "is_message e = (case e_payload e of MessageEntry _ \<Rightarrow> True | _ \<Rightarrow> False)"

fun is_cut_point :: "session_entry \<Rightarrow> bool" where
  "is_cut_point e =
     (case e_payload e of
        MessageEntry (ToolResult _) \<Rightarrow> False
      | MessageEntry (HookMessage _) \<Rightarrow> False
      | MessageEntry _ \<Rightarrow> True
      | BranchSummaryEntry _ \<Rightarrow> True
      | CustomMessageEntry _ \<Rightarrow> True
      | _ \<Rightarrow> False)"

definition findValidCutPoints :: "session_entry list \<Rightarrow> nat \<Rightarrow> nat \<Rightarrow> nat list" where
  "findValidCutPoints entries startIndex endIndex =
     filter (\<lambda>i. is_cut_point (entries ! i)) [startIndex..<endIndex]"

fun starts_turn :: "session_entry \<Rightarrow> bool" where
  "starts_turn e =
     (case e_payload e of
        BranchSummaryEntry _ \<Rightarrow> True
      | CustomMessageEntry _ \<Rightarrow> True
      | MessageEntry (User _) \<Rightarrow> True
      | MessageEntry (BashExecution _) \<Rightarrow> True
      | _ \<Rightarrow> False)"

definition findTurnStartIndex :: "session_entry list \<Rightarrow> nat \<Rightarrow> nat \<Rightarrow> nat option" where
  "findTurnStartIndex entries entryIndex startIndex =
     find (\<lambda>i. starts_turn (entries ! i)) (rev [startIndex..<Suc entryIndex])"

record cut_point_result =
  cp_firstKeptEntryIndex :: nat
  cp_turnStartIndex :: "nat option"
  cp_isSplitTurn :: bool

text \<open>The backward walk over \<open>endIndex - 1, \<dots>, startIndex\<close>: the index that fills the budget.\<close>

fun find_trigger :: "session_entry list \<Rightarrow> nat \<Rightarrow> nat \<Rightarrow> nat list \<Rightarrow> nat option" where
  "find_trigger entries keep acc [] = None"
| "find_trigger entries keep acc (i # rest) =
     (case e_payload (entries ! i) of
        MessageEntry m \<Rightarrow>
          (let acc' = acc + estimateTokens m
           in if acc' \<ge> keep then Some i else find_trigger entries keep acc' rest)
      | _ \<Rightarrow> find_trigger entries keep acc rest)"

text \<open>The scan back over the settings entries before the cut.\<close>

fun extend_back :: "session_entry list \<Rightarrow> nat \<Rightarrow> nat \<Rightarrow> nat" where
  "extend_back entries startIndex 0 = 0"
| "extend_back entries startIndex (Suc c) =
     (if Suc c > startIndex \<and> \<not> is_compaction (entries ! c) \<and> \<not> is_message (entries ! c)
      then extend_back entries startIndex c else Suc c)"

fun is_user_message :: "session_entry \<Rightarrow> bool" where
  "is_user_message e = (case e_payload e of MessageEntry (User _) \<Rightarrow> True | _ \<Rightarrow> False)"

definition findCutPoint :: "session_entry list \<Rightarrow> nat \<Rightarrow> nat \<Rightarrow> nat \<Rightarrow> cut_point_result" where
  "findCutPoint entries startIndex endIndex keepRecentTokens =
     (let cutPoints = findValidCutPoints entries startIndex endIndex
      in case cutPoints of
           [] \<Rightarrow> \<lparr>cp_firstKeptEntryIndex = startIndex, cp_turnStartIndex = None, cp_isSplitTurn = False\<rparr>
         | first # _ \<Rightarrow>
             (let cut0 = (case find_trigger entries keepRecentTokens 0 (rev [startIndex..<endIndex]) of
                            None \<Rightarrow> first
                          | Some i \<Rightarrow> (case find (\<lambda>c. c \<ge> i) cutPoints of Some c \<Rightarrow> c | None \<Rightarrow> first));
                  cutIndex = extend_back entries startIndex cut0;
                  isUserMessage = is_user_message (entries ! cutIndex);
                  turnStartIndex =
                    (if isUserMessage then None else findTurnStartIndex entries cutIndex startIndex)
              in \<lparr>cp_firstKeptEntryIndex = cutIndex, cp_turnStartIndex = turnStartIndex,
                  cp_isSplitTurn = (\<not> isUserMessage \<and> turnStartIndex \<noteq> None)\<rparr>))"

section \<open>Preparation\<close>

fun getMessageFromEntry :: "session_entry \<Rightarrow> agent_message option" where
  "getMessageFromEntry e =
     (case e_payload e of
        MessageEntry m \<Rightarrow> Some m
      | CustomMessageEntry c \<Rightarrow>
          Some (createCustomMessage (cmd_customType c) (cmd_content c) (cmd_display c) (cmd_details c)
                  (e_timestamp e))
      | BranchSummaryEntry b \<Rightarrow>
          Some (createBranchSummaryMessage (bs_summary b) (bs_fromId b) (e_timestamp e))
      | Compaction c \<Rightarrow>
          Some (createCompactionSummaryMessage (c_summary c) (c_tokensBefore c) (e_timestamp e))
      | _ \<Rightarrow> None)"

definition getMessageFromEntryForCompaction :: "session_entry \<Rightarrow> agent_message option" where
  "getMessageFromEntryForCompaction e = (if is_compaction e then None else getMessageFromEntry e)"

text \<open>The strings of an array of a detail object.\<close>

fun json_strings :: "json option \<Rightarrow> jsstring list" where
  "json_strings (Some (JArr xs)) = List.map_filter (\<lambda>j. case j of JStr s \<Rightarrow> Some s | _ \<Rightarrow> None) xs"
| "json_strings _ = []"

text \<open>The file lists an earlier summary of our own recorded.\<close>

definition add_details :: "bool \<Rightarrow> json option \<Rightarrow> file_operations \<Rightarrow> file_operations" where
  "add_details fromHook details ops =
     (if fromHook then ops
      else (case details of
              None \<Rightarrow> ops
            | Some d \<Rightarrow>
                ops\<lparr>fo_read := set_adds (json_strings (json_field (js ''readFiles'') d)) (fo_read ops),
                    fo_edited := set_adds (json_strings (json_field (js ''modifiedFiles'') d))
                                   (fo_edited ops)\<rparr>))"

definition extractFileOperations ::
    "agent_message list \<Rightarrow> session_entry list \<Rightarrow> nat option \<Rightarrow> file_operations" where
  "extractFileOperations messages entries prevCompactionIndex =
     (let fileOps =
        (case prevCompactionIndex of
           None \<Rightarrow> createFileOps
         | Some i \<Rightarrow>
             (case e_payload (entries ! i) of
                Compaction c \<Rightarrow> add_details (c_fromHook c) (c_details c) createFileOps
              | _ \<Rightarrow> createFileOps))
      in fold extractFileOpsFromMessage messages fileOps)"

record compaction_preparation =
  pp_firstKeptEntryId :: jsstring
  pp_messagesToSummarize :: "agent_message list"
  pp_turnPrefixMessages :: "agent_message list"
  pp_isSplitTurn :: bool
  pp_tokensBefore :: nat
  pp_previousSummary :: "jsstring option"
  pp_fileOps :: file_operations
  pp_settings :: compaction_settings

fun compaction_of :: "session_entry \<Rightarrow> compaction_data option" where
  "compaction_of e = (case e_payload e of Compaction c \<Rightarrow> Some c | _ \<Rightarrow> None)"

definition prev_compaction :: "session_entry list \<Rightarrow> (nat \<times> compaction_data) option" where
  "prev_compaction pathEntries =
     (case last_index_of is_compaction pathEntries of
        Some i \<Rightarrow> map_option (\<lambda>c. (i, c)) (compaction_of (pathEntries ! i))
      | None \<Rightarrow> None)"

definition boundary_start :: "session_entry list \<Rightarrow> nat" where
  "boundary_start pathEntries =
     (case prev_compaction pathEntries of
        None \<Rightarrow> 0
      | Some (i, c) \<Rightarrow>
          (case index_of (\<lambda>e. e_id e = c_firstKeptEntryId c) pathEntries of
             Some k \<Rightarrow> k
           | None \<Rightarrow> i + 1))"

definition messages_between :: "session_entry list \<Rightarrow> nat \<Rightarrow> nat \<Rightarrow> agent_message list" where
  "messages_between entries i j = List.map_filter getMessageFromEntryForCompaction (sub_list i j entries)"

definition prepare_at :: "session_entry list \<Rightarrow> compaction_settings \<Rightarrow> nat \<Rightarrow> compaction_preparation option" where
  "prepare_at pathEntries settings tokensBefore =
     (let boundaryStart = boundary_start pathEntries;
          boundaryEnd = length pathEntries;
          cutPoint = findCutPoint pathEntries boundaryStart boundaryEnd (cs_keepRecentTokens settings);
          kept = cp_firstKeptEntryIndex cutPoint
      in if \<not> kept < length pathEntries \<or> e_id (pathEntries ! kept) = [] then None
         else
           (let historyEnd = (case cp_turnStartIndex cutPoint of
                                Some t \<Rightarrow> if cp_isSplitTurn cutPoint then t else kept
                              | None \<Rightarrow> kept);
                messagesToSummarize = messages_between pathEntries boundaryStart historyEnd;
                turnPrefixMessages =
                  (if cp_isSplitTurn cutPoint then messages_between pathEntries historyEnd kept else []);
                fileOps = extractFileOperations messagesToSummarize pathEntries
                            (map_option fst (prev_compaction pathEntries));
                fileOps2 = (if cp_isSplitTurn cutPoint
                            then fold extractFileOpsFromMessage turnPrefixMessages fileOps else fileOps)
            in Some \<lparr>pp_firstKeptEntryId = e_id (pathEntries ! kept),
                     pp_messagesToSummarize = messagesToSummarize,
                     pp_turnPrefixMessages = turnPrefixMessages,
                     pp_isSplitTurn = cp_isSplitTurn cutPoint,
                     pp_tokensBefore = tokensBefore,
                     pp_previousSummary = map_option (\<lambda>(i, c). c_summary c) (prev_compaction pathEntries),
                     pp_fileOps = fileOps2,
                     pp_settings = settings\<rparr>))"

text \<open>The outer \<open>None\<close> is the parent walk that does not return.\<close>

definition prepareCompaction ::
    "session_entry list \<Rightarrow> compaction_settings \<Rightarrow> compaction_preparation option option" where
  "prepareCompaction pathEntries settings =
     (if pathEntries \<noteq> [] \<and> is_compaction (last pathEntries) then Some None
      else map_option
        (\<lambda>context. prepare_at pathEntries settings (ce_tokens (estimateContextTokens (sc_messages context))))
        (buildSessionContext pathEntries LeafUndefined None))"

end
