(* ===== verification/Compaction_Cut.thy ===== *)
theory Compaction_Cut
  imports Compaction
begin

text \<open>
  The cut point: it lies in its range, at a place where a cut is allowed, what is kept
  exceeds the budget by at most one message, and the preparation divides the messages of the
  branch without losing one.

  The context of a branch in the terms of the preparation: the summary of the last
  compaction, then the messages from its first kept entry on.
\<close>

section \<open>The cut point is valid\<close>

definition entry_tokens :: "session_entry \<Rightarrow> nat" where
  "entry_tokens e = (case e_payload e of MessageEntry m \<Rightarrow> estimateTokens m | _ \<Rightarrow> 0)"

lemma entry_tokens_other: "\<not> is_message e \<Longrightarrow> entry_tokens e = 0"
  by (auto simp: entry_tokens_def split: entry_payload.splits)

lemma extend_back_bounds:
  "startIndex \<le> c \<Longrightarrow> startIndex \<le> extend_back entries startIndex c \<and> extend_back entries startIndex c \<le> c"
  by (induction entries startIndex c rule: extend_back.induct) auto

lemma extend_back_settings:
  "extend_back entries startIndex c \<le> i \<Longrightarrow> i < c \<Longrightarrow>
     \<not> is_message (entries ! i) \<and> \<not> is_compaction (entries ! i)"
proof (induction entries startIndex c rule: extend_back.induct)
  case (2 entries startIndex c)
  then show ?case by (cases "i = c") (auto split: if_splits)
qed simp

declare extend_back.simps [simp del] is_message.simps [simp del] is_cut_point.simps [simp del]
  starts_turn.simps [simp del] is_user_message.simps [simp del] getMessageFromEntry.simps [simp del]

lemma find_upt_filter:
  assumes "find (\<lambda>c. i \<le> c) (filter P [a..<b]) = Some c"
  shows "P c" "a \<le> c" "c < b" "i \<le> c" "\<forall>d. a \<le> d \<and> i \<le> d \<and> d < c \<longrightarrow> \<not> P d"
proof -
  from assms obtain n where n: "n < length (filter P [a..<b])" "i \<le> filter P [a..<b] ! n"
      "c = filter P [a..<b] ! n" "\<forall>j < n. \<not> i \<le> filter P [a..<b] ! j"
    by (auto simp: find_Some_iff)
  have "c \<in> set (filter P [a..<b])" unfolding n(3) using n(1) by (rule nth_mem)
  then show "P c" "a \<le> c" "c < b" by simp_all
  show "i \<le> c" using n by simp
  have srt: "sorted_wrt (<) (filter P [a..<b])" by (simp add: sorted_wrt_filter)
  show "\<forall>d. a \<le> d \<and> i \<le> d \<and> d < c \<longrightarrow> \<not> P d"
  proof (intro allI impI notI)
    fix d assume d: "a \<le> d \<and> i \<le> d \<and> d < c" "P d"
    then have "d \<in> set (filter P [a..<b])" using \<open>c < b\<close> by auto
    then obtain m where m: "m < length (filter P [a..<b])" "filter P [a..<b] ! m = d"
      unfolding in_set_conv_nth by blast
    have "m < n"
    proof (rule ccontr)
      assume "\<not> m < n"
      then have "c \<le> d"
        using srt n(1,3) m by (cases "n = m") (auto simp: sorted_wrt_iff_nth_less dest!: not_less_iff_gr_or_eq [THEN iffD1] intro: order_less_imp_le)
      then show False using d by simp
    qed
    then show False using n(4) m(2) d by blast
  qed
qed

text \<open>The index that fills the budget: later messages do not reach it, with it they do.\<close>

definition msg_tokens :: "session_entry list \<Rightarrow> nat list \<Rightarrow> nat" where
  "msg_tokens entries idxs = sum_list (map (\<lambda>i. entry_tokens (entries ! i)) idxs)"

lemma msg_tokens_simps [simp]:
  "msg_tokens es [] = 0" "msg_tokens es (i # xs) = entry_tokens (es ! i) + msg_tokens es xs"
  "msg_tokens es (xs @ ys) = msg_tokens es xs + msg_tokens es ys" "msg_tokens es (rev xs) = msg_tokens es xs"
  by (simp_all add: msg_tokens_def rev_map [symmetric] sum_list_rev)

lemma find_trigger_Some:
  "find_trigger es keep acc idxs = Some i \<Longrightarrow>
     \<exists>pre post. idxs = pre @ i # post \<and> is_message (es ! i)
       \<and> (acc + msg_tokens es pre < keep \<or> msg_tokens es pre = 0)
       \<and> keep \<le> acc + msg_tokens es pre + entry_tokens (es ! i)"
proof (induction es keep acc idxs rule: find_trigger.induct)
  case (2 es keep acc j rest)
  show ?case
  proof (cases "is_message (es ! j)")
    case False
    with 2 obtain pre post where "rest = pre @ i # post" "is_message (es ! i)"
        "acc + msg_tokens es pre < keep \<or> msg_tokens es pre = 0"
        "keep \<le> acc + msg_tokens es pre + entry_tokens (es ! i)"
      by (auto simp: is_message.simps split: entry_payload.splits)
    then show ?thesis
      using entry_tokens_other [OF False] by (intro exI [of _ "j # pre"] exI [of _ post]) simp
  next
    case True
    then obtain m where m: "e_payload (es ! j) = MessageEntry m"
      by (auto simp: is_message.simps split: entry_payload.splits)
    then have t: "entry_tokens (es ! j) = estimateTokens m" by (simp add: entry_tokens_def)
    show ?thesis
    proof (cases "acc + estimateTokens m \<ge> keep")
      case True
      with 2 m have "i = j" by simp
      with True t \<open>is_message (es ! j)\<close> show ?thesis
        by (intro exI [of _ "[]"] exI [of _ rest]) simp
    next
      case False
      with 2 m have "find_trigger es keep (acc + estimateTokens m) rest = Some i" by simp
      from "2.IH"(1) [OF m refl] False this obtain pre post where "rest = pre @ i # post" "is_message (es ! i)"
        "acc + estimateTokens m + msg_tokens es pre < keep \<or> msg_tokens es pre = 0"
        "keep \<le> acc + estimateTokens m + msg_tokens es pre + entry_tokens (es ! i)"
        by auto
      with False t show ?thesis by (intro exI [of _ "j # pre"] exI [of _ post]) auto
    qed
  qed
qed simp

definition cut_base :: "session_entry list \<Rightarrow> nat \<Rightarrow> nat \<Rightarrow> nat \<Rightarrow> nat" where
  "cut_base es a b keep =
     (case find_trigger es keep 0 (rev [a..<b]) of
        None \<Rightarrow> hd (findValidCutPoints es a b)
      | Some i \<Rightarrow> (case find (\<lambda>c. c \<ge> i) (findValidCutPoints es a b) of
                    Some c \<Rightarrow> c | None \<Rightarrow> hd (findValidCutPoints es a b)))"

lemma findCutPoint_base:
  assumes "findValidCutPoints es a b \<noteq> []"
  shows "cp_firstKeptEntryIndex (findCutPoint es a b keep) = extend_back es a (cut_base es a b keep)"
  using assms by (cases "findValidCutPoints es a b")
    (simp_all add: findCutPoint_def cut_base_def Let_def split: option.splits)

lemma cut_base_valid:
  assumes "findValidCutPoints es a b \<noteq> []"
  shows "a \<le> cut_base es a b keep" "cut_base es a b keep < b" "is_cut_point (es ! cut_base es a b keep)"
proof -
  have hd: "hd (findValidCutPoints es a b) \<in> set (findValidCutPoints es a b)" using assms by simp
  have "cut_base es a b keep \<in> set (findValidCutPoints es a b)"
    using hd by (auto simp: cut_base_def find_Some_iff split: option.splits)
  then show "a \<le> cut_base es a b keep" "cut_base es a b keep < b" "is_cut_point (es ! cut_base es a b keep)"
    by (auto simp: findValidCutPoints_def)
qed

lemma findTurnStartIndex_Some:
  "findTurnStartIndex es k a = Some t \<Longrightarrow> a \<le> t \<and> t \<le> k \<and> starts_turn (es ! t)"
  by (auto simp: findTurnStartIndex_def find_Some_iff simp del: upt_Suc) 
    (metis atLeastLessThan_iff length_rev length_upt nth_mem rev_nth set_rev set_upt less_Suc_eq_le)+


lemma msg_tokens_mono: "a \<le> b \<Longrightarrow> msg_tokens es [b..<n] \<le> msg_tokens es [a..<n]"
proof (cases "b \<le> n")
  case True
  assume "a \<le> b"
  with True have "[a..<n] = [a..<b] @ [b..<n]" by (metis le_add_diff_inverse upt_add_eq_append)
  then show ?thesis by simp
qed simp

lemma msg_tokens_none: "\<forall>i \<in> set idxs. \<not> is_message (es ! i) \<Longrightarrow> msg_tokens es idxs = 0"
  by (induction idxs) (simp_all add: entry_tokens_other)

lemma upt_split: "[a..<b] = xs @ i # ys \<Longrightarrow> a \<le> i \<and> i < b \<and> ys = [Suc i..<b]"
  by (induction xs arbitrary: a) (fastforce simp: upt_eq_Cons_conv)+

text \<open>What is kept from the trigger on exceeds the budget by at most its first message.\<close>

lemma cut_base_budget:
  assumes trig: "find_trigger es keep 0 (rev [a..<b]) = Some i"
    and cp: "c \<in> set (findValidCutPoints es a b)" "i \<le> c"
  shows "msg_tokens es [extend_back es a (cut_base es a b keep)..<b] \<le> keep + entry_tokens (es ! cut_base es a b keep)"
    "i \<le> cut_base es a b keep"
    "\<forall>d. i \<le> d \<and> d < cut_base es a b keep \<longrightarrow> \<not> is_cut_point (es ! d)"
proof -
  from find_trigger_Some [OF trig] obtain pre post where t: "rev [a..<b] = pre @ i # post"
      "msg_tokens es pre < keep \<or> msg_tokens es pre = 0"
    by auto
  from t(1) have "[a..<b] = rev post @ i # rev pre" by (metis append.assoc append_Cons append_Nil rev.simps(2) rev_append rev_rev_ident)
  then have up: "[Suc i..<b] = rev pre" "a \<le> i" "i < b"
    using upt_split by metis+
  have later: "msg_tokens es [Suc i..<b] \<le> keep" using t(2) by (auto simp: up(1))
  obtain j where j: "find (\<lambda>c. i \<le> c) (findValidCutPoints es a b) = Some j"
    using cp by (cases "find (\<lambda>c. i \<le> c) (findValidCutPoints es a b)") (auto simp: find_None_iff)
  have base: "cut_base es a b keep = j" by (simp add: cut_base_def trig j)
  note J = find_upt_filter [OF j [unfolded findValidCutPoints_def]]
  show "i \<le> cut_base es a b keep" using J base by simp
  show "\<forall>d. i \<le> d \<and> d < cut_base es a b keep \<longrightarrow> \<not> is_cut_point (es ! d)"
    using J(5) base up(2) by auto
  have "[j..<b] = j # [Suc j..<b]" using J(3) by (simp add: upt_conv_Cons)
  then have "msg_tokens es [j..<b] = entry_tokens (es ! j) + msg_tokens es [Suc j..<b]" by simp
  moreover have "msg_tokens es [Suc j..<b] \<le> msg_tokens es [Suc i..<b]"
    using J(4) by (intro msg_tokens_mono) simp
  ultimately have tail: "msg_tokens es [j..<b] \<le> keep + entry_tokens (es ! j)" using later by simp
  let ?e = "extend_back es a j"
  have "a \<le> j" using J by simp
  then have "?e \<le> j" using extend_back_bounds by blast
  then have "[?e..<b] = [?e..<j] @ [j..<b]" using J(3) by (metis le_add_diff_inverse less_imp_le upt_add_eq_append)
  moreover have "msg_tokens es [?e..<j] = 0"
    using extend_back_settings by (intro msg_tokens_none) auto
  ultimately show "msg_tokens es [extend_back es a (cut_base es a b keep)..<b] \<le> keep + entry_tokens (es ! cut_base es a b keep)"
    using tail by (simp add: base)
qed

section \<open>Nothing is lost\<close>

lemma messages_between_append:
  "i \<le> j \<Longrightarrow> j \<le> k \<Longrightarrow> messages_between es i j @ messages_between es j k = messages_between es i k"
  by (simp add: messages_between_def map_filter_append [symmetric] sub_list_append)

lemma prev_compaction_Some:
  assumes "prev_compaction es = Some (i, c)"
  shows "i < length es" "e_payload (es ! i) = Compaction c" "\<forall>j. i < j \<and> j < length es \<longrightarrow> \<not> is_compaction (es ! j)"
  using assms last_index_of_Some [of is_compaction es]
  by (auto simp: prev_compaction_def split: option.splits entry_payload.splits)

lemma boundary_start_le: "boundary_start es \<le> length es"
  using prev_compaction_Some [of es] index_of_Some
  by (fastforce simp: boundary_start_def Suc_le_eq split: option.splits)

lemma findCutPoint_order:
  assumes "a \<le> b"
  shows "a \<le> cp_firstKeptEntryIndex (findCutPoint es a b keep)"
    "cp_firstKeptEntryIndex (findCutPoint es a b keep) \<le> b"
    "cp_turnStartIndex (findCutPoint es a b keep) = Some t \<Longrightarrow>
       a \<le> t \<and> t \<le> cp_firstKeptEntryIndex (findCutPoint es a b keep) \<and> cp_isSplitTurn (findCutPoint es a b keep)
       \<and> starts_turn (es ! t)"
    "cp_isSplitTurn (findCutPoint es a b keep) \<Longrightarrow> cp_turnStartIndex (findCutPoint es a b keep) \<noteq> None"
proof -
  show "a \<le> cp_firstKeptEntryIndex (findCutPoint es a b keep)"
    "cp_firstKeptEntryIndex (findCutPoint es a b keep) \<le> b"
  proof (atomize (full), cases "findValidCutPoints es a b = []")
    case True
    then show "a \<le> cp_firstKeptEntryIndex (findCutPoint es a b keep)
        \<and> cp_firstKeptEntryIndex (findCutPoint es a b keep) \<le> b"
      using assms by (simp add: findCutPoint_def)
  next
    case False
    then show "a \<le> cp_firstKeptEntryIndex (findCutPoint es a b keep)
        \<and> cp_firstKeptEntryIndex (findCutPoint es a b keep) \<le> b"
      using cut_base_valid [OF False, of keep] extend_back_bounds [of a "cut_base es a b keep" es]
      by (simp add: findCutPoint_base)
  qed
  show "cp_turnStartIndex (findCutPoint es a b keep) = Some t \<Longrightarrow>
       a \<le> t \<and> t \<le> cp_firstKeptEntryIndex (findCutPoint es a b keep) \<and> cp_isSplitTurn (findCutPoint es a b keep)
       \<and> starts_turn (es ! t)"
    using findTurnStartIndex_Some
    by (auto simp: findCutPoint_def Let_def split: list.splits if_splits)
  show "cp_isSplitTurn (findCutPoint es a b keep) \<Longrightarrow> cp_turnStartIndex (findCutPoint es a b keep) \<noteq> None"
    by (auto simp: findCutPoint_def Let_def split: list.splits if_splits)
qed

lemma prepare_at_partition:
  assumes "prepare_at path settings tokens = Some p"
  defines "k \<equiv> cp_firstKeptEntryIndex (findCutPoint path (boundary_start path) (length path) (cs_keepRecentTokens settings))"
  shows "k < length path" "e_id (path ! k) = pp_firstKeptEntryId p" "e_id (path ! k) \<noteq> []" "boundary_start path \<le> k"
    "messages_between path (boundary_start path) k = pp_messagesToSummarize p @ pp_turnPrefixMessages p"
    "pp_tokensBefore p = tokens"
    "pp_previousSummary p = map_option (\<lambda>(i, c). c_summary c) (prev_compaction path)"
proof -
  let ?b = "boundary_start path"
  let ?cp = "findCutPoint path ?b (length path) (cs_keepRecentTokens settings)"
  note O = findCutPoint_order [OF boundary_start_le [of path], of path "cs_keepRecentTokens settings"]
  have k: "k = cp_firstKeptEntryIndex ?cp" by (simp add: k_def)
  show "k < length path" "e_id (path ! k) = pp_firstKeptEntryId p" "e_id (path ! k) \<noteq> []"
    "pp_tokensBefore p = tokens" "pp_previousSummary p = map_option (\<lambda>(i, c). c_summary c) (prev_compaction path)"
    using assms(1) by (auto simp: prepare_at_def Let_def k split: if_splits)
  show "?b \<le> k" using O(1) by (simp add: k)
  show "messages_between path ?b k = pp_messagesToSummarize p @ pp_turnPrefixMessages p"
  proof (cases "cp_turnStartIndex ?cp")
    case None
    then have "\<not> cp_isSplitTurn ?cp" using O(4) by blast
    with None assms(1) show ?thesis by (auto simp: prepare_at_def Let_def k split: if_splits)
  next
    case (Some t)
    with O(3) have t: "?b \<le> t" "t \<le> k" "cp_isSplitTurn ?cp" by (auto simp: k)
    from messages_between_append [OF t(1,2), of path] assms(1) Some t(3)
    show ?thesis by (auto simp: prepare_at_def Let_def k split: if_splits)
  qed
qed

section \<open>The context before and after\<close>

fun summary_ok :: "session_entry \<Rightarrow> bool" where
  "summary_ok e = (case e_payload e of BranchSummaryEntry b \<Rightarrow> bs_summary b \<noteq> [] | _ \<Rightarrow> True)"

declare summary_ok.simps [simp del] settings_step.simps [simp del] is_compaction.simps [simp del]

lemma entry_messages_option:
  "summary_ok e \<Longrightarrow> entry_messages e =
     (case getMessageFromEntryForCompaction e of None \<Rightarrow> [] | Some m \<Rightarrow> [m])"
  by (auto simp: summary_ok.simps entry_messages_def getMessageFromEntryForCompaction_def
      getMessageFromEntry.simps is_compaction.simps split: entry_payload.splits)

lemma concat_entry_messages:
  "\<forall>e \<in> set es. summary_ok e \<Longrightarrow>
     concat (map entry_messages es) = List.map_filter getMessageFromEntryForCompaction es"
  by (induction es) (simp_all add: entry_messages_option map_filter_Cons split: option.split)

lemma last_index_of_snoc:
  "last_index_of P (xs @ [x]) = (if P x then Some (length xs) else last_index_of P xs)"
  by (induction xs) auto

lemma path_settings_last_compaction:
  "snd (snd (path_settings path)) = map_option (\<lambda>(i, c). path ! i) (prev_compaction path)"
proof (induction path rule: rev_induct)
  case Nil
  then show ?case by (simp add: path_settings_def prev_compaction_def)
next
  case (snoc e path)
  obtain t m c where ps: "path_settings path = (t, m, c)" by (cases "path_settings path") auto
  show ?case
  proof (cases "is_compaction e")
    case True
    then have "\<exists>c. compaction_of e = Some c" by (auto simp: is_compaction.simps split: entry_payload.splits)
    with True ps show ?thesis
      by (auto simp: path_settings_snoc settings_step_compaction prev_compaction_def last_index_of_snoc)
  next
    case False
    then have pc: "prev_compaction (path @ [e]) = prev_compaction path"
      using last_index_of_Some [of is_compaction path]
      by (auto simp: prev_compaction_def last_index_of_snoc nth_append split: option.splits)
    have "\<And>i c. prev_compaction path = Some (i, c) \<Longrightarrow> (path @ [e]) ! i = path ! i"
      using prev_compaction_Some(1) by (simp add: nth_append)
    then have "map_option (\<lambda>(i, c). (path @ [e]) ! i) (prev_compaction path) =
        map_option (\<lambda>(i, c). path ! i) (prev_compaction path)"
      by (cases "prev_compaction path") auto
    with False ps snoc pc show ?thesis by (simp add: path_settings_snoc settings_step_compaction)
  qed
qed

definition prev_summary :: "session_entry list \<Rightarrow> agent_message list" where
  "prev_summary path =
     (case prev_compaction path of
        None \<Rightarrow> []
      | Some (i, c) \<Rightarrow> [createCompactionSummaryMessage (c_summary c) (c_tokensBefore c) (e_timestamp (path ! i))])"

text \<open>The last compaction keeps from an entry before it, or from one that is not on the path.\<close>

definition kept_before :: "session_entry list \<Rightarrow> bool" where
  "kept_before path =
     (case prev_compaction path of
        None \<Rightarrow> True
      | Some (i, c) \<Rightarrow>
          (case index_of (\<lambda>e. e_id e = c_firstKeptEntryId c) path of None \<Rightarrow> True | Some m \<Rightarrow> m \<le> i))"

lemma index_of_unique:
  assumes "distinct (map e_id path)" "i < length path" "P (path ! i)" "\<And>e. P e \<Longrightarrow> e_id e = e_id (path ! i)"
  shows "index_of P path = Some i"
proof (cases "index_of P path")
  case None
  then show ?thesis using assms(2,3) by (auto simp: index_of_None)
next
  case (Some j)
  from index_of_Some [OF this] assms(4) have "j < length path" "e_id (path ! j) = e_id (path ! i)" by auto
  then have "j = i" using assms(1,2) by (metis distinct_conv_nth length_map nth_map)
  with Some show ?thesis by simp
qed

lemma set_sub_list: "x \<in> set (sub_list i j xs) \<Longrightarrow> x \<in> set xs"
  by (auto simp: sub_list_def dest: in_set_dropD in_set_takeD)

lemma kept_entries_sub_list:
  assumes "index_of (\<lambda>e. e_id e = k) path = Some m" "m \<le> i" "i \<le> length path"
  shows "kept_entries k False (take i path) = sub_list m i path"
proof -
  note I = index_of_Some [OF assms(1)]
  have pre: "k \<notin> ids (take m path)"
  proof
    assume "k \<in> ids (take m path)"
    then obtain j where "j < length (take m path)" "e_id (take m path ! j) = k"
      unfolding ids_def in_set_conv_nth [symmetric] image_iff by (auto simp: in_set_conv_nth)
    then show False using I by auto
  qed
  have tk: "take i path = take m path @ sub_list m i path"
    unfolding sub_list_def using assms(2) by (metis append_take_drop_id min_absorb1 take_take)
  show ?thesis
  proof (cases "m = i")
    case True
    then show ?thesis using kept_entries_none [OF pre] by simp
  next
    case False
    then have "sub_list m i path = path ! m # sub_list (Suc m) i path"
      unfolding sub_list_def using assms(2,3) I
      by (subst Cons_nth_drop_Suc [symmetric]) simp_all
    with kept_entries_from [OF pre, of "path ! m" "sub_list (Suc m) i path"] I show ?thesis unfolding tk by simp
  qed
qed

lemma context_messages:
  assumes dist: "distinct (map e_id path)" and ok: "\<forall>e \<in> set path. summary_ok e" and kb: "kept_before path"
  shows "sc_messages (path_context path) =
    prev_summary path @ messages_between path (boundary_start path) (length path)"
proof (cases "prev_compaction path")
  case None
  then have "snd (snd (path_settings path)) = None" by (simp add: path_settings_last_compaction)
  then have "sc_messages (path_context path) = concat (map entry_messages path)"
    by (auto simp: path_context_def path_messages_def split: prod.splits)
  with None show ?thesis
    by (simp add: concat_entry_messages ok prev_summary_def boundary_start_def messages_between_def)
next
  case (Some ic)
  then obtain i c where pc: "prev_compaction path = Some (i, c)" by (cases ic) auto
  note P = prev_compaction_Some [OF pc]
  let ?ce = "path ! i"
  have st: "snd (snd (path_settings path)) = Some ?ce" using pc by (simp add: path_settings_last_compaction)
  have ix: "index_of (\<lambda>e. is_compaction e \<and> e_id e = e_id ?ce) path = Some i"
    using P by (intro index_of_unique [OF dist]) (auto simp: is_compaction.simps)
  let ?kept = "kept_entries (c_firstKeptEntryId c) False (take i path)"
  have ctx: "sc_messages (path_context path) =
      prev_summary path @ concat (map entry_messages ?kept) @ concat (map entry_messages (drop (Suc i) path))"
    using st P(2) ix pc
    by (cases "path_settings path") (simp add: path_context_def path_messages_def prev_summary_def)
  have post: "concat (map entry_messages (drop (Suc i) path)) = messages_between path (Suc i) (length path)"
    using ok by (simp add: messages_between_def concat_entry_messages in_set_dropD)
  have self: "messages_between path i (Suc i) = []"
    using P(1,2) by (simp add: messages_between_def sub_list_def take_Suc_conv_app_nth map_filter_Cons
      getMessageFromEntryForCompaction_def is_compaction.simps)
  show ?thesis
  proof (cases "index_of (\<lambda>e. e_id e = c_firstKeptEntryId c) path")
    case None
    then have "?kept = []"
      by (intro kept_entries_none) (auto simp: index_of_None ids_def dest: in_set_takeD)
    with None pc ctx post show ?thesis by (simp add: boundary_start_def)
  next
    case (Some m)
    with kb pc have m: "m \<le> i" by (simp add: kept_before_def)
    have k: "?kept = sub_list m i path" using kept_entries_sub_list [OF Some m] P by simp
    have "concat (map entry_messages (sub_list m i path)) = messages_between path m i"
      unfolding messages_between_def
      by (rule concat_entry_messages) (use ok in \<open>auto dest: set_sub_list\<close>)
    moreover have "messages_between path m i @ messages_between path (Suc i) (length path) =
        messages_between path m (length path)"
    proof -
      have "messages_between path m (Suc i) = messages_between path m i"
        using messages_between_append [of m i "Suc i" path] self m by simp
      then show ?thesis using messages_between_append [of m "Suc i" "length path" path] m P(1) by simp
    qed
    ultimately show ?thesis unfolding ctx post k by (simp add: boundary_start_def pc Some)
  qed
qed

end
