(* ===== verification/Summarization.thy ===== *)
theory Summarization
  imports Compaction
begin

text \<open>
  The requests that summarise a conversation and \<open>compact\<close>, the second half of
  \<open>packages/coding-agent/src/core/compaction/compaction.ts\<close>. The prompts are the code's texts,
  line by line.

  \<^item> The call of the model is \<open>le_complete\<close> and the clock \<open>le_now\<close> of the environment; the
    api key, headers and abort signal are passed through to it unchanged and belong to it.
  \<^item> The two summaries of a split turn are requested together: both requests are made, and a
    failure of the first is reported before one of the second.
\<close>

section \<open>Prompts\<close>

definition SUMMARIZATION_PROMPT :: jsstring where
  "SUMMARIZATION_PROMPT = js_lines
     [''The messages above are a conversation to summarize. Create a structured context checkpoint summary that another LLM will use to continue the work.'',
      '''',
      ''Use this EXACT format:'',
      '''',
      ''## Goal'',
      ''[What is the user trying to accomplish? Can be multiple items if the session covers different tasks.]'',
      '''',
      ''## Constraints & Preferences'',
      ''- [Any constraints, preferences, or requirements mentioned by user]'',
      ''- [Or \"(none)\" if none were mentioned]'',
      '''',
      ''## Progress'',
      ''### Done'',
      ''- [x] [Completed tasks/changes]'',
      '''',
      ''### In Progress'',
      ''- [ ] [Current work]'',
      '''',
      ''### Blocked'',
      ''- [Issues preventing progress, if any]'',
      '''',
      ''## Key Decisions'',
      ''- **[Decision]**: [Brief rationale]'',
      '''',
      ''## Next Steps'',
      ''1. [Ordered list of what should happen next]'',
      '''',
      ''## Critical Context'',
      ''- [Any data, examples, or references needed to continue]'',
      ''- [Or \"(none)\" if not applicable]'',
      '''',
      ''Keep each section concise. Preserve exact file paths, function names, and error messages.'']"

definition UPDATE_SUMMARIZATION_PROMPT :: jsstring where
  "UPDATE_SUMMARIZATION_PROMPT = js_lines
     [''The messages above are NEW conversation messages to incorporate into the existing summary provided in <previous-summary> tags.'',
      '''',
      ''Update the existing structured summary with new information. RULES:'',
      ''- PRESERVE all existing information from the previous summary'',
      ''- ADD new progress, decisions, and context from the new messages'',
      ''- UPDATE the Progress section: move items from \"In Progress\" to \"Done\" when completed'',
      ''- UPDATE \"Next Steps\" based on what was accomplished'',
      ''- PRESERVE exact file paths, function names, and error messages'',
      ''- If something is no longer relevant, you may remove it'',
      '''',
      ''Use this EXACT format:'',
      '''',
      ''## Goal'',
      ''[Preserve existing goals, add new ones if the task expanded]'',
      '''',
      ''## Constraints & Preferences'',
      ''- [Preserve existing, add new ones discovered]'',
      '''',
      ''## Progress'',
      ''### Done'',
      ''- [x] [Include previously done items AND newly completed items]'',
      '''',
      ''### In Progress'',
      ''- [ ] [Current work - update based on progress]'',
      '''',
      ''### Blocked'',
      ''- [Current blockers - remove if resolved]'',
      '''',
      ''## Key Decisions'',
      ''- **[Decision]**: [Brief rationale] (preserve all previous, add new)'',
      '''',
      ''## Next Steps'',
      ''1. [Update based on current state]'',
      '''',
      ''## Critical Context'',
      ''- [Preserve important context, add new if needed]'',
      '''',
      ''Keep each section concise. Preserve exact file paths, function names, and error messages.'']"

definition TURN_PREFIX_SUMMARIZATION_PROMPT :: jsstring where
  "TURN_PREFIX_SUMMARIZATION_PROMPT = js_lines
     [''This is the PREFIX of a turn that was too large to keep. The SUFFIX (recent work) is retained.'',
      '''',
      ''Summarize the prefix to provide context for the retained suffix:'',
      '''',
      ''## Original Request'',
      ''[What did the user ask for in this turn?]'',
      '''',
      ''## Early Progress'',
      ''- [Key decisions and work done in the prefix]'',
      '''',
      ''## Context for Suffix'',
      ''- [Information needed to understand the retained recent work]'',
      '''',
      ''Be concise. Focus on what's needed to understand the kept suffix.'']"

section \<open>Requests\<close>

record llm_model =
  mdl_reasoning :: bool
  mdl_contextWindow :: nat

record llm_request =
  rq_model :: llm_model
  rq_systemPrompt :: jsstring
  rq_messages :: "llm_message list"
  rq_maxTokens :: nat
  rq_reasoning :: "jsstring option"

record 'w llm_env =
  le_now :: "('w, int) eff"
  le_complete :: "llm_request \<Rightarrow> ('w, assistant_message) eff"

definition in_tags :: "string \<Rightarrow> jsstring \<Rightarrow> jsstring" where
  "in_tags tag body =
     js ''<'' @ js tag @ js ''>'' @ nl @ body @ nl @ js ''</'' @ js tag @ js ''>'' @ nl @ nl"

text \<open>The reasoning option is passed when the model reasons and the level is set and not off.\<close>

definition reasoning_option :: "llm_model \<Rightarrow> jsstring option \<Rightarrow> jsstring option" where
  "reasoning_option model thinkingLevel =
     (case thinkingLevel of
        Some l \<Rightarrow> if mdl_reasoning model \<and> l \<noteq> [] \<and> l \<noteq> js ''off'' then Some l else None
      | None \<Rightarrow> None)"

definition text_parts :: "assistant_message \<Rightarrow> jsstring" where
  "text_parts response = join_with nl (List.map_filter text_of_assistant_block (am_content response))"

text \<open>A text an option may hold, when it is not empty: JavaScript's truth of a string.\<close>

definition truthy :: "jsstring option \<Rightarrow> jsstring option" where
  "truthy s = (case s of Some t \<Rightarrow> if t = [] then None else Some t | None \<Rightarrow> None)"

definition error_text :: "jsstring \<Rightarrow> assistant_message \<Rightarrow> jsstring" where
  "error_text fallback response =
     (case truthy (am_errorMessage response) of Some e \<Rightarrow> e | None \<Rightarrow> fallback)"

definition request_summary ::
    "'w llm_env \<Rightarrow> llm_model \<Rightarrow> nat \<Rightarrow> jsstring option \<Rightarrow> jsstring \<Rightarrow> jsstring \<Rightarrow> ('w, jsstring) eff" where
  "request_summary env model maxTokens thinkingLevel promptText failure =
     bind_eff (le_now env) (\<lambda>now.
     bind_eff
       (le_complete env \<lparr>rq_model = model, rq_systemPrompt = SUMMARIZATION_SYSTEM_PROMPT,
          rq_messages = [user_text_message promptText now], rq_maxTokens = maxTokens,
          rq_reasoning = reasoning_option model thinkingLevel\<rparr>)
       (\<lambda>response.
          if am_stopReason response = ErrorR
          then throw (failure @ error_text (js ''Unknown error'') response)
          else ret (text_parts response)))"

definition summary_prompt :: "agent_message list \<Rightarrow> jsstring option \<Rightarrow> jsstring option \<Rightarrow> jsstring" where
  "summary_prompt currentMessages customInstructions previousSummary =
     (let base0 = (case truthy previousSummary of Some _ \<Rightarrow> UPDATE_SUMMARIZATION_PROMPT
                   | None \<Rightarrow> SUMMARIZATION_PROMPT);
          basePrompt = (case truthy customInstructions of
                          Some c \<Rightarrow> base0 @ nl @ nl @ js ''Additional focus: '' @ c | None \<Rightarrow> base0);
          conversationText = serializeConversation (convertToLlm currentMessages)
      in in_tags ''conversation'' conversationText
         @ (case truthy previousSummary of Some p \<Rightarrow> in_tags ''previous-summary'' p | None \<Rightarrow> [])
         @ basePrompt)"

definition generateSummary ::
    "'w llm_env \<Rightarrow> agent_message list \<Rightarrow> llm_model \<Rightarrow> nat \<Rightarrow> jsstring option \<Rightarrow> jsstring option
     \<Rightarrow> jsstring option \<Rightarrow> ('w, jsstring) eff" where
  "generateSummary env currentMessages model reserveTokens customInstructions previousSummary thinkingLevel =
     request_summary env model (4 * reserveTokens div 5) thinkingLevel
       (summary_prompt currentMessages customInstructions previousSummary)
       (js ''Summarization failed: '')"

definition generateTurnPrefixSummary ::
    "'w llm_env \<Rightarrow> agent_message list \<Rightarrow> llm_model \<Rightarrow> nat \<Rightarrow> jsstring option \<Rightarrow> ('w, jsstring) eff" where
  "generateTurnPrefixSummary env messages model reserveTokens thinkingLevel =
     request_summary env model (reserveTokens div 2) thinkingLevel
       (in_tags ''conversation'' (serializeConversation (convertToLlm messages))
          @ TURN_PREFIX_SUMMARIZATION_PROMPT)
       (js ''Turn prefix summarization failed: '')"

section \<open>Compaction\<close>

definition both_eff :: "('w, 'a) eff \<Rightarrow> ('w, 'b) eff \<Rightarrow> ('w, 'a \<times> 'b) eff" where
  "both_eff f g = (\<lambda>w.
     case f w of (r1, w1) \<Rightarrow>
       (case g w1 of (r2, w2) \<Rightarrow>
          (case r1 of
             Inl e \<Rightarrow> (Inl e, w2)
           | Inr a \<Rightarrow> (case r2 of Inl e \<Rightarrow> (Inl e, w2) | Inr b \<Rightarrow> (Inr (a, b), w2)))))"

record compaction_result =
  cr_summary :: jsstring
  cr_firstKeptEntryId :: jsstring
  cr_tokensBefore :: nat
  cr_details :: json

definition file_details :: "jsstring list \<Rightarrow> jsstring list \<Rightarrow> json" where
  "file_details readFiles modifiedFiles =
     JObj [(js ''readFiles'', JArr (map JStr readFiles)), (js ''modifiedFiles'', JArr (map JStr modifiedFiles))]"

definition split_turn_separator :: jsstring where
  "split_turn_separator = nl @ nl @ js ''---'' @ nl @ nl @ js ''**Turn Context (split turn):**'' @ nl @ nl"

definition compact_conversation ::
    "'w llm_env \<Rightarrow> compaction_preparation \<Rightarrow> llm_model \<Rightarrow> jsstring option \<Rightarrow> jsstring option
     \<Rightarrow> ('w, compaction_result) eff" where
  "compact_conversation env p model customInstructions thinkingLevel =
     bind_eff
       (if pp_isSplitTurn p \<and> pp_turnPrefixMessages p \<noteq> []
        then bind_eff
          (both_eff
            (if pp_messagesToSummarize p \<noteq> []
             then generateSummary env (pp_messagesToSummarize p) model
                    (cs_reserveTokens (pp_settings p)) customInstructions (pp_previousSummary p) thinkingLevel
             else ret (js ''No prior history.''))
            (generateTurnPrefixSummary env (pp_turnPrefixMessages p) model
               (cs_reserveTokens (pp_settings p)) thinkingLevel))
          (\<lambda>(historyResult, turnPrefixResult).
             ret (historyResult @ split_turn_separator @ turnPrefixResult))
        else generateSummary env (pp_messagesToSummarize p) model
               (cs_reserveTokens (pp_settings p)) customInstructions (pp_previousSummary p) thinkingLevel)
       (\<lambda>summary.
          (let (readFiles, modifiedFiles) = computeFileLists (pp_fileOps p);
               summary' = summary @ formatFileOperations readFiles modifiedFiles
           in if pp_firstKeptEntryId p = []
              then throw (js ''First kept entry has no UUID - session may need migration'')
              else ret \<lparr>cr_summary = summary', cr_firstKeptEntryId = pp_firstKeptEntryId p,
                        cr_tokensBefore = pp_tokensBefore p,
                        cr_details = file_details readFiles modifiedFiles\<rparr>))"

end
