(* ===== verification/Compaction_Session.thy ===== *)
theory Compaction_Session
  imports Compaction_Cut Summarization
begin

text \<open>
  Compaction as an operation on a session: the contexts before and after it, and the file
  lists it records.
\<close>

section \<open>Compaction of a session\<close>

lemma linked_context:
  assumes "linked None path" "distinct (map e_id path)" "[] \<notin> ids path"
  shows "buildSessionContext path LeafUndefined None = Some (path_context path)"
proof (cases "path = []")
  case True
  then show ?thesis by (simp add: buildSessionContext_def path_context_Nil)
next
  case False
  from linked_walk [OF assms] False have wf: "wf_entries path"
    and walk: "walk_to_root (idx path) (Some (last path)) [] = Some path" by auto
  have "index_entries path = idx path" unfolding index_entries_def by (rule fold_update_idx [OF wf])
  then show ?thesis using False walk by (simp add: buildSessionContext_def)
qed

lemma getBranch_facts:
  assumes "wf_session sm" "getBranch sm i = Some path"
  shows "linked None path" "distinct (map e_id path)" "[] \<notin> ids path"
proof -
  show "linked None path" by (rule getBranch_linked [OF assms])
  note B = branch_ids_subset [OF assms]
  then show "distinct (map e_id path)" by simp
  have "[] \<notin> ids (getEntries sm)" using wf_entries_distinct assms(1) by (auto simp: wf_session_def)
  with B show "[] \<notin> ids path" by (auto simp: ids_def)
qed

lemma prepareCompaction_result:
  assumes "linked None path" "distinct (map e_id path)" "[] \<notin> ids path"
  shows "prepareCompaction path settings =
    Some (if path \<noteq> [] \<and> is_compaction (last path) then None
          else prepare_at path settings (ce_tokens (estimateContextTokens (sc_messages (path_context path)))))"
  using linked_context [OF assms] by (simp add: prepareCompaction_def)

lemma compaction_split:
  assumes wf: "wf_session sm" and br: "getBranch sm None = Some path"
    and prep: "prepareCompaction path settings = Some (Some p)"
  obtains e post where "getBranch sm None = Some (take (length path - length (e # post)) path @ e # post)"
    "e_id e = pp_firstKeptEntryId p"
    "messages_between path (boundary_start path) (length path) =
       pp_messagesToSummarize p @ pp_turnPrefixMessages p
       @ List.map_filter getMessageFromEntryForCompaction (e # post)"
    "set (e # post) \<subseteq> set path"
proof -
  let ?t = "ce_tokens (estimateContextTokens (sc_messages (path_context path)))"
  have pa: "prepare_at path settings ?t = Some p"
    using prep prepareCompaction_result [OF getBranch_facts [OF wf br]] by (auto split: if_splits)
  let ?k = "cp_firstKeptEntryIndex (findCutPoint path (boundary_start path) (length path) (cs_keepRecentTokens settings))"
  note P = prepare_at_partition [OF pa]
  have dr: "drop ?k path = path ! ?k # drop (Suc ?k) path" using P(1) by (simp add: Cons_nth_drop_Suc)
  have "messages_between path (boundary_start path) ?k @ messages_between path ?k (length path) =
      messages_between path (boundary_start path) (length path)"
    using P(1,4) by (intro messages_between_append) auto
  then have mb: "messages_between path (boundary_start path) (length path) =
      pp_messagesToSummarize p @ pp_turnPrefixMessages p
      @ List.map_filter getMessageFromEntryForCompaction (path ! ?k # drop (Suc ?k) path)"
    unfolding P(5) by (simp add: messages_between_def dr [symmetric])
  have pt: "path = take ?k path @ path ! ?k # drop (Suc ?k) path" by (simp add: dr [symmetric])
  have len: "length path - length (path ! ?k # drop (Suc ?k) path) = ?k" using P(1) by simp
  show ?thesis
  proof (rule that [of "path ! ?k" "drop (Suc ?k) path"])
    show "getBranch sm None = Some (take (length path - length (path ! ?k # drop (Suc ?k) path)) path @ path ! ?k # drop (Suc ?k) path)"
      unfolding len br using pt by simp
    show "set (path ! ?k # drop (Suc ?k) path) \<subseteq> set path" unfolding dr [symmetric] by (rule set_drop_subset)
  qed (use P(2) mb in auto)
qed

lemma compaction_contexts:
  assumes wf: "wf_session sm" and fresh: "fresh_uuid uuid sm" and br: "getBranch sm None = Some path"
    and ok: "\<forall>e \<in> set path. summary_ok e" and kb: "kept_before path"
    and prep: "prepareCompaction path settings = Some (Some p)"
    and app: "appendCompaction summary (pp_firstKeptEntryId p) tokens details hook uuid now sm fs = (i, sm', fs')"
  shows "\<exists>c c' kept. sessionContext sm = Some c \<and> sessionContext sm' = Some c'
    \<and> sc_messages c = prev_summary path @ pp_messagesToSummarize p @ pp_turnPrefixMessages p @ kept
    \<and> sc_messages c' = createCompactionSummaryMessage summary tokens now # kept"
proof -
  obtain e post where E: "getBranch sm None = Some (take (length path - length (e # post)) path @ e # post)"
      "e_id e = pp_firstKeptEntryId p"
      "messages_between path (boundary_start path) (length path) =
         pp_messagesToSummarize p @ pp_turnPrefixMessages p
         @ List.map_filter getMessageFromEntryForCompaction (e # post)"
      "set (e # post) \<subseteq> set path"
    using compaction_split [OF wf br prep] by blast
  have old: "sessionContext sm = Some (path_context path)"
    using sessionContext_branch [OF wf] br by simp
  have "sc_messages (path_context path) =
      prev_summary path @ messages_between path (boundary_start path) (length path)"
    by (rule context_messages [OF getBranch_facts(2) [OF wf br] ok kb])
  moreover from append_compaction_context [OF wf fresh app E(1,2)] obtain c' where
    "sessionContext sm' = Some c'"
    "sc_messages c' = createCompactionSummaryMessage summary tokens now # concat (map entry_messages (e # post))"
    by blast
  moreover have "concat (map entry_messages (e # post)) =
      List.map_filter getMessageFromEntryForCompaction (e # post)"
    using E(4) ok by (intro concat_entry_messages) auto
  ultimately show ?thesis using old E(3) by auto
qed

section \<open>File lists\<close>

lemma json_field_details [simp]:
  "json_strings (json_field (js ''readFiles'') (file_details r m)) = r"
  "json_strings (json_field (js ''modifiedFiles'') (file_details r m)) = m"
proof -
  have ne: "js ''readFiles'' \<noteq> js ''modifiedFiles''" by (simp add: js_def)
  have st: "List.map_filter (\<lambda>j. case j of JStr s \<Rightarrow> Some s | _ \<Rightarrow> None) (map JStr xs) = xs" for xs
    by (induction xs) (simp_all add: map_filter_Cons)
  show "json_strings (json_field (js ''readFiles'') (file_details r m)) = r"
    "json_strings (json_field (js ''modifiedFiles'') (file_details r m)) = m"
    using ne st by (simp_all add: file_details_def)
qed

lemma fold_extract_le: "ops_le ops (fold extractFileOpsFromMessage ms ops)"
proof (induction ms arbitrary: ops)
  case (Cons m ms)
  from ops_le_trans [OF extractFileOps_le Cons.IH [of "extractFileOpsFromMessage m ops"]] show ?case by simp
qed simp

lemma fold_extract_distinct: "ops_distinct ops \<Longrightarrow> ops_distinct (fold extractFileOpsFromMessage ms ops)"
  by (induction ms arbitrary: ops) (auto intro: extractFileOps_distinct)

lemma add_details_distinct: "ops_distinct ops \<Longrightarrow> ops_distinct (add_details h d ops)"
  by (simp add: add_details_def ops_distinct_def split: option.split)

lemma extractFileOperations_facts:
  "ops_distinct (extractFileOperations ms es prev)"
  by (auto simp: extractFileOperations_def Let_def intro!: fold_extract_distinct add_details_distinct
      split: option.split entry_payload.split)

lemma prepare_fileOps:
  assumes "prepare_at path settings tokens = Some p"
  shows "ops_distinct (pp_fileOps p)"
    "prev_compaction path = Some (i, c) \<Longrightarrow> ops_le (add_details (c_fromHook c) (c_details c) createFileOps) (pp_fileOps p)"
proof -
  have f: "pp_fileOps p = fold extractFileOpsFromMessage (pp_turnPrefixMessages p)
      (extractFileOperations (pp_messagesToSummarize p) path (map_option fst (prev_compaction path)))"
    using assms by (auto simp: prepare_at_def Let_def split: if_splits)
  show "ops_distinct (pp_fileOps p)"
    using extractFileOperations_facts by (auto simp: f intro: fold_extract_distinct)
  assume "prev_compaction path = Some (i, c)"
  then have "ops_le (add_details (c_fromHook c) (c_details c) createFileOps)
      (extractFileOperations (pp_messagesToSummarize p) path (map_option fst (prev_compaction path)))"
    using prev_compaction_Some(2) fold_extract_le by (simp add: extractFileOperations_def)
  from ops_le_trans [OF this fold_extract_le]
  show "ops_le (add_details (c_fromHook c) (c_details c) createFileOps) (pp_fileOps p)"
    by (simp add: f)
qed

lemma compact_result:
  assumes "compact_conversation env p model ci thinking w = (Inr r, w')"
  obtains rf mf where "computeFileLists (pp_fileOps p) = (rf, mf)" "cr_details r = file_details rf mf"
    "cr_firstKeptEntryId r = pp_firstKeptEntryId p" "cr_tokensBefore r = pp_tokensBefore p"
    "\<exists>s. cr_summary r = s @ formatFileOperations rf mf"
proof -
  obtain rf mf where l: "computeFileLists (pp_fileOps p) = (rf, mf)" by (cases "computeFileLists (pp_fileOps p)")
  from assms show ?thesis
    unfolding compact_conversation_def bind_eff_Inr l Let_def
    by (intro that [OF l]) (auto simp: eff_simps split: if_splits)
qed

lemma computeFileLists_covers:
  assumes "ops_le a b" "ops_distinct b" "computeFileLists b = (rf, mf)"
  shows "set (fo_edited a) \<union> set (fo_written a) \<subseteq> set mf" "set (fo_read a) \<subseteq> set rf \<union> set mf"
  using computeFileLists_facts(5,6) [OF assms(2,3)] assms(1) by (auto simp: ops_le_def)

text \<open>The tool calls that modify a file.\<close>

definition modifies :: "tool_call \<Rightarrow> jsstring \<Rightarrow> bool" where
  "modifies tc f \<longleftrightarrow> (tc_name tc = js ''write'' \<or> tc_name tc = js ''edit'')
     \<and> json_field (js ''path'') (tc_arguments tc) = Some (JStr f) \<and> f \<noteq> []"

lemma file_op_of_block_modifies:
  "modifies tc f \<Longrightarrow> f \<in> set (fo_edited (file_op_of_block (AToolCall tc) ops))
     \<union> set (fo_written (file_op_of_block (AToolCall tc) ops))"
  by (auto simp: modifies_def js_def)

lemma ops_le_modified:
  "ops_le a b \<Longrightarrow> set (fo_edited a) \<union> set (fo_written a) \<subseteq> set (fo_edited b) \<union> set (fo_written b)"
  by (auto simp: ops_le_def)

lemma fold_block_le: "ops_le ops (fold file_op_of_block bs ops)"
proof (induction bs arbitrary: ops)
  case (Cons b bs)
  from ops_le_trans [OF file_op_of_block_le Cons.IH [of "file_op_of_block b ops"]] show ?case by simp
qed simp

lemma fold_extract_modifies:
  assumes "Assistant a \<in> set ms" "AToolCall tc \<in> set (am_content a)" "modifies tc f"
  shows "f \<in> set (fo_edited (fold extractFileOpsFromMessage ms ops))
    \<union> set (fo_written (fold extractFileOpsFromMessage ms ops))"
proof -
  from assms(1) obtain ms1 ms2 where ms: "ms = ms1 @ Assistant a # ms2" by (auto dest: split_list)
  from assms(2) obtain b1 b2 where bs: "am_content a = b1 @ AToolCall tc # b2" by (auto dest: split_list)
  let ?o1 = "fold file_op_of_block b1 (fold extractFileOpsFromMessage ms1 ops)"
  let ?o2 = "file_op_of_block (AToolCall tc) ?o1"
  have "ops_le ?o2 (fold extractFileOpsFromMessage ms2 (fold file_op_of_block b2 ?o2))"
    using fold_block_le fold_extract_le ops_le_trans by blast
  then have "ops_le ?o2 (fold extractFileOpsFromMessage ms ops)" by (simp add: ms bs)
  from ops_le_modified [OF this] file_op_of_block_modifies [OF assms(3)] show ?thesis by blast
qed

lemma prepare_fileOps_modifies:
  assumes "prepare_at path settings tokens = Some p"
    and "Assistant a \<in> set (pp_messagesToSummarize p @ pp_turnPrefixMessages p)"
    and "AToolCall tc \<in> set (am_content a)" "modifies tc f"
  shows "f \<in> set (fo_edited (pp_fileOps p)) \<union> set (fo_written (pp_fileOps p))"
proof -
  obtain ops where "pp_fileOps p = fold extractFileOpsFromMessage (pp_turnPrefixMessages p)
      (fold extractFileOpsFromMessage (pp_messagesToSummarize p) ops)"
    using assms(1) by (fastforce simp: prepare_at_def Let_def extractFileOperations_def split: if_splits)
  then have "pp_fileOps p = fold extractFileOpsFromMessage (pp_messagesToSummarize p @ pp_turnPrefixMessages p) ops"
    by simp
  with fold_extract_modifies [OF assms(2-4)] show ?thesis by simp
qed

end
