(* ===== verification/Branch_Summary.thy ===== *)
theory Branch_Summary
  imports Summarization
begin

text \<open>
  Branch summaries, \<open>packages/coding-agent/src/core/compaction/branch-summarization.ts\<close>: the
  entries left behind when the leaf moves to another branch, the messages that fit the token
  budget, and the summary request.

  \<^item> The read-only session is the two functions the code calls on it, \<open>getBranch\<close> and
    \<open>getEntry\<close>; what it promises is the interface \<open>branch_reader\<close>.
  \<^item> The parent walk may cycle on a damaged session and then does not return: \<open>None\<close>.
  \<^item> \<open>totalTokens < tokenBudget * 0.9\<close> is written over the integers.
\<close>

section \<open>Entries left behind\<close>

lemma find_last_split:
  assumes "find_last P xs = Some a"
  shows "\<exists>ys zs. xs = ys @ [a] @ zs \<and> P a \<and> (\<forall>z \<in> set zs. \<not> P z)"
  using assms
proof (induction xs rule: rev_induct)
  case (snoc x xs)
  show ?case
  proof (cases "P x")
    case True
    with snoc.prems show ?thesis by (intro exI [of _ xs] exI [of _ "[]"]) (simp add: find_last_def)
  next
    case False
    with snoc.prems have "find_last P xs = Some a" by (simp add: find_last_def)
    with snoc.IH obtain ys zs where "xs = ys @ [a] @ zs" "P a" "\<forall>z \<in> set zs. \<not> P z" by blast
    with False show ?thesis by (intro exI [of _ ys] exI [of _ "zs @ [x]"]) auto
  qed
qed (simp add: find_last_def)

record collect_entries_result =
  ce_entries :: "session_entry list"
  ce_commonAncestorId :: "jsstring option"

partial_function (option) collect_walk ::
    "(jsstring \<Rightarrow> session_entry option) \<Rightarrow> jsstring option \<Rightarrow> jsstring option \<Rightarrow> session_entry list
     \<Rightarrow> session_entry list option" where
  "collect_walk entryOf commonAncestorId current entries =
     (case current of
        None \<Rightarrow> Some entries
      | Some i \<Rightarrow>
          (if i = [] \<or> Some i = commonAncestorId then Some entries
           else
             (case entryOf i of
                None \<Rightarrow> Some entries
              | Some e \<Rightarrow> collect_walk entryOf commonAncestorId (e_parentId e) (e # entries))))"

definition collectEntriesForBranchSummary ::
    "(jsstring \<Rightarrow> session_entry list option) \<Rightarrow> (jsstring \<Rightarrow> session_entry option) \<Rightarrow> jsstring option
     \<Rightarrow> jsstring \<Rightarrow> collect_entries_result option" where
  "collectEntriesForBranchSummary branchOf entryOf oldLeafId targetId =
     (case oldLeafId of
        None \<Rightarrow> Some \<lparr>ce_entries = [], ce_commonAncestorId = None\<rparr>
      | Some old \<Rightarrow>
          (if old = [] then Some \<lparr>ce_entries = [], ce_commonAncestorId = None\<rparr>
           else
             Option.bind (branchOf old) (\<lambda>oldPath.
             Option.bind (branchOf targetId) (\<lambda>targetPath.
               (let common = map_option e_id
                      (find_last (\<lambda>e. e_id e \<in> set (map e_id oldPath)) targetPath)
                in map_option (\<lambda>entries. \<lparr>ce_entries = entries, ce_commonAncestorId = common\<rparr>)
                     (collect_walk entryOf common (Some old) []))))))"

section \<open>The messages that fit the budget\<close>

fun branch_message :: "session_entry \<Rightarrow> agent_message option" where
  "branch_message e =
     (case e_payload e of
        MessageEntry m \<Rightarrow> (if is_tool_result m then None else Some m)
      | CustomMessageEntry c \<Rightarrow>
          Some (createCustomMessage (cmd_customType c) (cmd_content c) (cmd_display c) (cmd_details c)
                  (e_timestamp e))
      | BranchSummaryEntry b \<Rightarrow>
          Some (createBranchSummaryMessage (bs_summary b) (bs_fromId b) (e_timestamp e))
      | Compaction c \<Rightarrow>
          Some (createCompactionSummaryMessage (c_summary c) (c_tokensBefore c) (e_timestamp e))
      | _ \<Rightarrow> None)"

fun is_summary_entry :: "session_entry \<Rightarrow> bool" where
  "is_summary_entry e =
     (case e_payload e of Compaction _ \<Rightarrow> True | BranchSummaryEntry _ \<Rightarrow> True | _ \<Rightarrow> False)"

record branch_preparation =
  bp_messages :: "agent_message list"
  bp_fileOps :: file_operations
  bp_totalTokens :: nat

fun add_branch_details :: "session_entry \<Rightarrow> file_operations \<Rightarrow> file_operations" where
  "add_branch_details e ops =
     (case e_payload e of
        BranchSummaryEntry b \<Rightarrow> add_details (bs_fromHook b) (bs_details b) ops
      | _ \<Rightarrow> ops)"

text \<open>The second pass, over the entries from newest to oldest.\<close>

fun budget_walk :: "int \<Rightarrow> session_entry list \<Rightarrow> branch_preparation \<Rightarrow> branch_preparation" where
  "budget_walk tokenBudget [] p = p"
| "budget_walk tokenBudget (e # rest) p =
     (case branch_message e of
        None \<Rightarrow> budget_walk tokenBudget rest p
      | Some message \<Rightarrow>
          (let p1 = p\<lparr>bp_fileOps := extractFileOpsFromMessage message (bp_fileOps p)\<rparr>;
               tokens = estimateTokens message;
               added = p1\<lparr>bp_messages := message # bp_messages p1, bp_totalTokens := bp_totalTokens p1 + tokens\<rparr>
           in if tokenBudget > 0 \<and> int (bp_totalTokens p1) + int tokens > tokenBudget
              then (if is_summary_entry e \<and> 10 * int (bp_totalTokens p1) < 9 * tokenBudget then added else p1)
              else budget_walk tokenBudget rest added))"

definition prepareBranchEntries :: "session_entry list \<Rightarrow> int \<Rightarrow> branch_preparation" where
  "prepareBranchEntries entries tokenBudget =
     budget_walk tokenBudget (rev entries)
       \<lparr>bp_messages = [], bp_fileOps = fold add_branch_details entries createFileOps, bp_totalTokens = 0\<rparr>"

section \<open>The summary request\<close>

definition BRANCH_SUMMARY_PREAMBLE :: jsstring where
  "BRANCH_SUMMARY_PREAMBLE = js_lines
     [''The user explored a different conversation branch before returning here.'',
      ''Summary of that exploration:'',
      '''',
      '''']"

definition BRANCH_SUMMARY_PROMPT :: jsstring where
  "BRANCH_SUMMARY_PROMPT = js_lines
     [''Create a structured summary of this conversation branch for context when returning later.'',
      '''',
      ''Use this EXACT format:'',
      '''',
      ''## Goal'',
      ''[What was the user trying to accomplish in this branch?]'',
      '''',
      ''## Constraints & Preferences'',
      ''- [Any constraints, preferences, or requirements mentioned]'',
      ''- [Or \"(none)\" if none were mentioned]'',
      '''',
      ''## Progress'',
      ''### Done'',
      ''- [x] [Completed tasks/changes]'',
      '''',
      ''### In Progress'',
      ''- [ ] [Work that was started but not finished]'',
      '''',
      ''### Blocked'',
      ''- [Issues preventing progress, if any]'',
      '''',
      ''## Key Decisions'',
      ''- **[Decision]**: [Brief rationale]'',
      '''',
      ''## Next Steps'',
      ''1. [What should happen next to continue this work]'',
      '''',
      ''Keep each section concise. Preserve exact file paths, function names, and error messages.'']"

record branch_summary_result =
  br_summary :: "jsstring option"
  br_readFiles :: "jsstring list option"
  br_modifiedFiles :: "jsstring list option"
  br_aborted :: bool
  br_error :: "jsstring option"

definition no_result :: branch_summary_result where
  "no_result = \<lparr>br_summary = None, br_readFiles = None, br_modifiedFiles = None, br_aborted = False, br_error = None\<rparr>"

definition branch_instructions :: "jsstring option \<Rightarrow> bool \<Rightarrow> jsstring" where
  "branch_instructions customInstructions replaceInstructions =
     (case truthy customInstructions of
        Some c \<Rightarrow> (if replaceInstructions then c
                    else BRANCH_SUMMARY_PROMPT @ nl @ nl @ js ''Additional focus: '' @ c)
      | None \<Rightarrow> BRANCH_SUMMARY_PROMPT)"

definition branch_budget :: "llm_model \<Rightarrow> nat \<Rightarrow> int" where
  "branch_budget model reserveTokens =
     (let contextWindow = (if mdl_contextWindow model = 0 then 128000 else mdl_contextWindow model)
      in int contextWindow - int reserveTokens)"

definition generateBranchSummary ::
    "'w llm_env \<Rightarrow> session_entry list \<Rightarrow> llm_model \<Rightarrow> jsstring option \<Rightarrow> bool \<Rightarrow> nat
     \<Rightarrow> ('w, branch_summary_result) eff" where
  "generateBranchSummary env entries model customInstructions replaceInstructions reserveTokens =
     (let p = prepareBranchEntries entries (branch_budget model reserveTokens)
      in if bp_messages p = [] then ret (no_result\<lparr>br_summary := Some (js ''No content to summarize'')\<rparr>)
         else
           bind_eff (le_now env) (\<lambda>now.
           bind_eff
             (le_complete env \<lparr>rq_model = model, rq_systemPrompt = SUMMARIZATION_SYSTEM_PROMPT,
                rq_messages =
                  [user_text_message
                     (in_tags ''conversation'' (serializeConversation (convertToLlm (bp_messages p)))
                        @ branch_instructions customInstructions replaceInstructions) now],
                rq_maxTokens = 2048, rq_reasoning = None\<rparr>)
             (\<lambda>response.
                if am_stopReason response = AbortedR then ret (no_result\<lparr>br_aborted := True\<rparr>)
                else if am_stopReason response = ErrorR
                then ret (no_result\<lparr>br_error := Some (error_text (js ''Summarization failed'') response)\<rparr>)
                else
                  (let (readFiles, modifiedFiles) = computeFileLists (bp_fileOps p);
                       summary = BRANCH_SUMMARY_PREAMBLE @ text_parts response
                                   @ formatFileOperations readFiles modifiedFiles
                   in ret (no_result\<lparr>br_summary := Some summary, br_readFiles := Some readFiles,
                                      br_modifiedFiles := Some modifiedFiles\<rparr>)))))"

section \<open>The session as the collector sees it\<close>

text \<open>
  What the collector relies on: a known entry ends its own branch, the branch of an entry is
  its parent's branch followed by it, parents are known, and an unknown id has an empty branch.
\<close>

locale branch_reader =
  fixes invar :: "'s \<Rightarrow> bool"
    and branch_of :: "'s \<Rightarrow> jsstring \<Rightarrow> session_entry list option"
    and entry_at :: "'s \<Rightarrow> jsstring \<Rightarrow> session_entry option"
  assumes entry_id: "invar s \<Longrightarrow> entry_at s i = Some e \<Longrightarrow> e_id e = i \<and> i \<noteq> []"
    and entry_parent: "invar s \<Longrightarrow> entry_at s i = Some e \<Longrightarrow> e_parentId e = Some q \<Longrightarrow> entry_at s q \<noteq> None"
    and branch_unknown: "invar s \<Longrightarrow> entry_at s i = None \<Longrightarrow> branch_of s i = Some []"
    and branch_total: "invar s \<Longrightarrow> branch_of s i \<noteq> None"
    and branch_entry: "invar s \<Longrightarrow> entry_at s i = Some e \<Longrightarrow>
      branch_of s i = map_option (\<lambda>p. p @ [e])
        (case e_parentId e of None \<Rightarrow> Some [] | Some q \<Rightarrow> branch_of s q)"
begin

lemma branch_snoc:
  assumes "invar s" "branch_of s i = Some (p @ [e])"
  shows "entry_at s i = Some e" "(case e_parentId e of None \<Rightarrow> Some [] | Some q \<Rightarrow> branch_of s q) = Some p"
proof -
  obtain e' where e': "entry_at s i = Some e'"
    using branch_unknown [OF assms(1), of i] assms(2) by (cases "entry_at s i") auto
  have "map_option (\<lambda>p. p @ [e']) (case e_parentId e' of None \<Rightarrow> Some [] | Some q \<Rightarrow> branch_of s q) = Some (p @ [e])"
    using branch_entry [OF assms(1) e'] assms(2) by simp
  then have "e' = e \<and> (case e_parentId e' of None \<Rightarrow> Some [] | Some q \<Rightarrow> branch_of s q) = Some p" by auto
  with e' show "entry_at s i = Some e" "(case e_parentId e of None \<Rightarrow> Some [] | Some q \<Rightarrow> branch_of s q) = Some p"
    by auto
qed

lemmas branch_last = branch_snoc(1)

text \<open>An initial part of a branch is the branch of its last entry.\<close>

lemma branch_init:
  assumes "invar s"
  shows "branch_of s i = Some (p @ [e] @ r) \<Longrightarrow> branch_of s (e_id e) = Some (p @ [e])"
proof (induction r arbitrary: i rule: rev_induct)
  case Nil
  then have "branch_of s i = Some (p @ [e])" by simp
  with branch_last [OF assms this] entry_id [OF assms] show ?case by auto
next
  case (snoc x r)
  then have b: "branch_of s i = Some ((p @ [e] @ r) @ [x])" by simp
  note x = branch_last [OF assms b]
  have "(case e_parentId x of None \<Rightarrow> Some [] | Some q \<Rightarrow> branch_of s q) = Some (p @ [e] @ r)"
    by (rule branch_snoc(2) [OF assms b])
  then obtain q where "branch_of s q = Some (p @ [e] @ r)" by (auto split: option.splits)
  then show ?case by (rule snoc.IH)
qed

lemma branch_parent_pointer:
  assumes "invar s" "branch_of s i = Some (p @ [e])"
  shows "e_parentId e = (if p = [] then None else Some (e_id (last p)))"
proof -
  note x = branch_last [OF assms]
  note par = branch_snoc(2) [OF assms]
  show ?thesis
  proof (cases "e_parentId e")
    case None
    with par show ?thesis by simp
  next
    case (Some q)
    with par have b: "branch_of s q = Some p" by simp
    from entry_parent [OF assms(1) x Some] obtain eq where eq: "entry_at s q = Some eq" by auto
    have "map_option (\<lambda>p. p @ [eq]) (case e_parentId eq of None \<Rightarrow> Some [] | Some q \<Rightarrow> branch_of s q) = Some p"
      using branch_entry [OF assms(1) eq] b by simp
    then obtain p' where p: "p = p' @ [eq]" by auto
    with entry_id [OF assms(1) eq] Some show ?thesis by simp
  qed
qed

lemma walk_collects:
  assumes "invar s"
  shows "branch_of s i = Some (xs @ ys) \<Longrightarrow> ys \<noteq> [] \<Longrightarrow>
    common = (if xs = [] then None else Some (e_id (last xs))) \<Longrightarrow>
    (\<forall>e \<in> set ys. Some (e_id e) \<noteq> common) \<Longrightarrow>
    collect_walk (entry_at s) common (Some i) acc = Some (ys @ acc)"
proof (induction ys arbitrary: i acc rule: rev_induct)
  case (snoc e ys)
  from snoc.prems(1) have b: "branch_of s i = Some ((xs @ ys) @ [e])" by simp
  note x = branch_last [OF assms b]
  note ei = entry_id [OF assms x]
  note par = branch_parent_pointer [OF assms b]
  have step: "collect_walk (entry_at s) common (Some i) acc =
      collect_walk (entry_at s) common (e_parentId e) (e # acc)"
    by (subst collect_walk.simps) (use x ei snoc.prems(4) in auto)
  show ?case
  proof (cases "ys = []")
    case True
    with par snoc.prems(3) have "e_parentId e = common" by simp
    then show ?thesis using step True
      by (subst (asm) (2) collect_walk.simps) (auto split: option.splits)
  next
    case False
    then have "branch_of s i = Some ((xs @ butlast ys) @ [last ys] @ [e])" using b by simp
    from branch_init [OF assms this] False have "branch_of s (e_id (last ys)) = Some (xs @ ys)" by simp
    from snoc.IH [OF this False snoc.prems(3)] snoc.prems(4) step par False show ?thesis by simp
  qed
qed simp

lemma collect_splits_branch:
  assumes inv: "invar s" and old: "branch_of s i = Some p" and tgt: "branch_of s t = Some q" and i: "i \<noteq> []"
  shows "\<exists>common es. collectEntriesForBranchSummary (branch_of s) (entry_at s) (Some i) t =
      Some \<lparr>ce_entries = es, ce_commonAncestorId = (if common = [] then None else Some (e_id (last common)))\<rparr>
    \<and> p = common @ es \<and> (\<exists>r. q = common @ r) \<and> (\<forall>e \<in> set es. e_id e \<notin> e_id ` set q)"
proof -
  let ?on = "\<lambda>e. e_id e \<in> set (map e_id p)"
  obtain common es where ce: "p = common @ es" "\<exists>r. q = common @ r" "\<forall>e \<in> set es. e_id e \<notin> e_id ` set q"
    "map_option e_id (find_last ?on q) = (if common = [] then None else Some (e_id (last common)))"
  proof (cases "find_last ?on q")
    case None
    then have "\<forall>e \<in> set q. \<not> ?on e" by (auto simp: find_last_def find_None_iff)
    then have "\<forall>e \<in> set p. e_id e \<notin> e_id ` set q"
      unfolding set_map by (metis imageE image_eqI)
    with None show ?thesis by (intro that [of "[]" p]) (simp_all del: set_map)
  next
    case (Some a)
    then obtain q1 q2 where q: "q = q1 @ [a] @ q2" "?on a" "\<forall>e \<in> set q2. \<not> ?on e"
      using find_last_split [OF Some] by blast
    from q(2) obtain x where "x \<in> set p" "e_id x = e_id a" by auto
    then obtain p1 p2 where p: "p = p1 @ [x] @ p2" by (auto dest: split_list)
    have "branch_of s (e_id a) = Some (p1 @ [x])"
      using branch_init [OF inv, of i p1 x p2] old p \<open>e_id x = e_id a\<close> by simp
    moreover have "branch_of s (e_id a) = Some (q1 @ [a])"
      using branch_init [OF inv, of t q1 a q2] tgt q(1) by simp
    ultimately have eq: "p1 = q1" "x = a" by auto
    have "e_id e \<notin> e_id ` set q" if "e \<in> set p2" for e
    proof
      assume "e_id e \<in> e_id ` set q"
      then obtain y where y: "y \<in> set q" "e_id y = e_id e" by auto
      with that p have "?on y" by auto
      with q(1,3) y(1) have "y \<in> set (q1 @ [a])" by auto
      then obtain r1 r2 where r: "q1 @ [a] = r1 @ [y] @ r2" by (metis append_Cons append_Nil split_list)
      from that obtain s1 s2 where s: "p2 = s1 @ [e] @ s2" by (metis append_Cons append_Nil split_list)
      have b1: "branch_of s (e_id y) = Some (r1 @ [y])"
        using branch_init [OF inv, of t r1 y "r2 @ q2"] tgt q(1) r by simp
      have b2: "branch_of s (e_id e) = Some ((p1 @ [x] @ s1) @ [e])"
        using branch_init [OF inv, of i "p1 @ [x] @ s1" e s2] old p s by simp
      have "Some (r1 @ [y]) = Some ((p1 @ [x] @ s1) @ [e])"
        unfolding b1 [symmetric] b2 [symmetric] y(2) by (rule refl)
      then have "length (r1 @ [y]) = length ((p1 @ [x] @ s1) @ [e])"
        unfolding option.inject by (rule arg_cong)
      moreover have "length (r1 @ [y]) \<le> length (q1 @ [a])" unfolding r by simp
      ultimately show False using eq by simp
    qed
    moreover have "p = (q1 @ [a]) @ p2" using p eq by simp
    moreover have "\<exists>r. q = (q1 @ [a]) @ r" using q(1) by auto
    ultimately show ?thesis using Some by (intro that [of "q1 @ [a]" p2]) simp_all
  qed
  let ?c = "if common = [] then None else Some (e_id (last common))"
  have "collect_walk (entry_at s) ?c (Some i) [] = Some es"
  proof (cases "es = []")
    case False
    have "\<forall>e \<in> set es. Some (e_id e) \<noteq> ?c"
      using ce(2,3) by (auto dest: last_in_set)
    with walk_collects [OF inv, of i common es ?c "[]"] old ce(1) False show ?thesis by simp
  next
    case True
    then have p: "p = common" using ce(1) by simp
    show ?thesis
    proof (cases "common = []")
      case True
      then have "entry_at s i = None" using branch_entry [OF inv] old p by (cases "entry_at s i") auto
      then show ?thesis using \<open>es = []\<close> by (subst collect_walk.simps) simp
    next
      case False
      then have "branch_of s i = Some (butlast common @ [last common])" using old p by simp
      from branch_last [OF inv this] entry_id [OF inv] have "e_id (last common) = i" by blast
      then show ?thesis using False \<open>es = []\<close> by (subst collect_walk.simps) simp
    qed
  qed
  then have "collectEntriesForBranchSummary (branch_of s) (entry_at s) (Some i) t =
      Some \<lparr>ce_entries = es, ce_commonAncestorId = ?c\<rparr>"
    unfolding collectEntriesForBranchSummary_def Let_def using old tgt i ce(4) by (simp del: set_map)
  with ce(1-3) show ?thesis by blast
qed

end

interpretation session_reader: branch_reader wf_session "\<lambda>sm i. getBranch sm (Some i)" getEntry
proof unfold_locales
  fix sm :: session_manager and i q e
  assume wf: "wf_session sm"
  have byId: "getEntry sm i = map_of (idx (getEntries sm)) i" for i
    using wf by (simp add: getEntry_def wf_session_def)
  show "getBranch sm (Some i) \<noteq> None" using getBranch_total [OF wf, of "Some i"] by auto
  show "getBranch sm (Some i) = Some []" if "getEntry sm i = None"
    using that getBranch_unknown [OF wf, of i] by (simp add: byId map_of_idx_None)
  assume e: "getEntry sm i = Some e"
  then have e': "e \<in> set (getEntries sm)" "e_id e = i" using map_of_idx_SomeD byId by simp_all
  show "e_id e = i \<and> i \<noteq> []" using e' wf_id_nonempty wf by (auto simp: wf_session_def)
  show "getBranch sm (Some i) = map_option (\<lambda>p. p @ [e])
      (case e_parentId e of None \<Rightarrow> Some [] | Some q \<Rightarrow> getBranch sm (Some q))"
    using getBranch_parent [OF wf e'(1)] e'(2) by simp
  show "getEntry sm q \<noteq> None" if "e_parentId e = Some q"
    using wf_parent_in [OF _ e'(1) that] wf by (simp add: byId map_of_idx_None wf_session_def)
qed

end
