(* ===== verification/Session_Properties.thy ===== *)
theory Session_Properties
  imports Session_Branching
begin

text \<open>
  The properties of the session manager, each with a concrete run that meets its hypotheses.
  The runs start from a new persisted session and use the id draws \<open>demo_uuid\<close>.
\<close>

section \<open>Concrete runs\<close>

definition demo_uuid :: "nat \<Rightarrow> nat \<Rightarrow> jsstring" where
  "demo_uuid k i = replicate 8 (of_nat (k + 1)) @ (if i = 100 then [of_nat k] else [])"

definition demo_message :: "nat \<Rightarrow> agent_message" where
  "demo_message k = embed_llm (user_text_message (replicate k 65) (int k))"

definition demo_reply :: "nat \<Rightarrow> agent_message" where
  "demo_reply k = Assistant \<lparr>am_content = [AText (replicate k 66) None], am_api = js ''api'',
     am_provider = js ''prov'', am_model = js ''model'', am_responseModel = None,
     am_responseId = None, am_diagnostics = None, am_usage = EMPTY_USAGE,
     am_stopReason = StopR, am_errorMessage = None, am_timestamp = int k\<rparr>"

fun demo_ops ::
    "nat \<Rightarrow> session_op list \<Rightarrow> session_manager \<times> session_fs \<Rightarrow> (session_manager \<times> session_fs) option" where
  "demo_ops k [] s = Some s"
| "demo_ops k (op # ops) (sm, fs) =
     (if \<not> has_id sm (demo_uuid k 100)
      then (case run_op op (demo_uuid k) (int k) sm fs of Inl e \<Rightarrow> None | Inr s \<Rightarrow> demo_ops (Suc k) ops s)
      else None)"

definition demo_start :: session_manager where
  "demo_start = newSession None None (js ''s'') 0 (blank_manager (js ''/w'') (js ''/d'') True)"

definition demo_run :: "session_op list \<Rightarrow> session_manager \<times> session_fs" where
  "demo_run ops = the (demo_ops 0 ops (demo_start, \<lambda>_. None))"

definition demo_id :: "nat \<Rightarrow> jsstring" where
  "demo_id k = take 8 (demo_uuid k 0)"

lemma demo_uuid_fresh: "\<not> has_id sm (demo_uuid k 100) \<Longrightarrow> fresh_uuid (demo_uuid k) sm"
  by (simp add: fresh_uuid_def demo_uuid_def eval_nat_numeral)

lemma demo_ops_reach:
  "demo_ops k ops s = Some s' \<Longrightarrow> session_reach (fst s) (snd s) \<Longrightarrow> session_reach (fst s') (snd s')"
proof (induction k ops s rule: demo_ops.induct)
  case (2 k op ops sm fs)
  from "2.prems" obtain t where t: "\<not> has_id sm (demo_uuid k 100)"
      "run_op op (demo_uuid k) (int k) sm fs = Inr t" "demo_ops (Suc k) ops t = Some s'"
    by (auto split: if_splits sum.splits intro: demo_uuid_fresh)
  then have "session_reach (fst t) (snd t)"
    using "2.prems"(2) by (auto intro: session_reach.step [of sm fs] demo_uuid_fresh simp: prod_eq_iff)
  with "2.IH" [OF t(1,2) t(3)] show ?case .
qed simp

lemma demo_run_reach:
  "demo_ops 0 ops (demo_start, \<lambda>_. None) \<noteq> None \<Longrightarrow> session_reach (fst (demo_run ops)) (snd (demo_run ops))"
  using demo_ops_reach [of 0 ops "(demo_start, \<lambda>_. None)"]
    session_reach.start [of "\<lambda>_. None" "js ''/d''" 0 "js ''s''" "js ''/w''" True]
  by (auto simp: demo_run_def demo_start_def)

definition demo_history :: "session_op list" where
  "demo_history = [OpMessage (demo_message 1), OpMessage (demo_reply 2), OpLabel (demo_id 0) (Some (js ''a'')),
     OpBranch (demo_id 1), OpMessage (demo_message 3), OpMessage (demo_reply 4)]"

definition demo_sm :: session_manager where
  "demo_sm = fst (demo_run demo_history)"

definition demo_fs :: session_fs where
  "demo_fs = snd (demo_run demo_history)"

lemma demo_reach: "session_reach demo_sm demo_fs"
proof -
  have "demo_ops 0 demo_history (demo_start, \<lambda>_. None) \<noteq> None" by code_simp
  then show ?thesis unfolding demo_sm_def demo_fs_def by (rule demo_run_reach)
qed

lemma demo_wf: "wf_session demo_sm"
  using session_reach_inv [OF demo_reach] by (simp add: session_inv_def)

lemma demo_fresh: "fresh_uuid (demo_uuid 6) demo_sm"
  by (rule demo_uuid_fresh) code_simp

section \<open>The tree\<close>

text \<open>C1 Every session that the operations reach from a new one is well-formed: ids are
  distinct, every parent is an earlier entry, the id index holds exactly the entries and the
  leaf is an entry. The resolved labels are those the entries give, the file is absent until
  the first assistant message and from then on holds exactly the session, under one header.\<close>

theorem session_invariant:
  assumes "session_reach sm fs"
  shows "wf_session sm \<and> labels_ok sm \<and> synced sm fs \<and> headed sm"
  using session_reach_inv [OF assms] by (simp add: session_inv_def)

lemma session_invariant_witness:
  "wf_session demo_sm \<and> labels_ok demo_sm \<and> synced demo_sm demo_fs \<and> headed demo_sm
   \<and> length (getEntries demo_sm) = 5"
proof -
  have "length (getEntries demo_sm) = 5" by code_simp
  with session_invariant [OF demo_reach] show ?thesis by blast
qed

text \<open>C2 No operation rewrites history: on a well-formed session each one that succeeds keeps
  the session well-formed, only appends to the entries, and leaves the branch of every earlier
  entry as it was.\<close>

theorem operations_keep_history:
  assumes "wf_session sm" "fresh_uuid uuid sm" "run_op op uuid now sm fs = Inr (sm', fs')"
  shows "wf_session sm' \<and> prefix (getEntries sm) (getEntries sm')
    \<and> (\<forall>i \<in> ids (getEntries sm). getBranch sm' (Some i) = getBranch sm (Some i))"
  using run_op_keeps [OF assms] by blast

lemma operations_keep_history_witness:
  "\<exists>sm' fs'. run_op (OpMessage (demo_message 5)) (demo_uuid 6) 6 demo_sm demo_fs = Inr (sm', fs')
     \<and> wf_session sm' \<and> prefix (getEntries demo_sm) (getEntries sm')
     \<and> (\<forall>i \<in> ids (getEntries demo_sm). getBranch sm' (Some i) = getBranch demo_sm (Some i))"
proof -
  obtain sm' fs' where run: "run_op (OpMessage (demo_message 5)) (demo_uuid 6) 6 demo_sm demo_fs = Inr (sm', fs')"
    by (cases "snd (appendMessage (demo_message 5) (demo_uuid 6) 6 demo_sm demo_fs)") simp
  from operations_keep_history [OF demo_wf demo_fresh this] run show ?thesis by blast
qed

text \<open>An operation fails exactly when it names an entry the session does not have, and the
  error names that entry: \<open>appendLabelChange\<close>, \<open>branch\<close> and \<open>branchWithSummary\<close> are the
  only ones that can.\<close>

fun op_target :: "session_op \<Rightarrow> jsstring option" where
  "op_target (OpLabel t l) = Some t"
| "op_target (OpBranch i) = Some i"
| "op_target (OpBranchWithSummary i s d h) = i"
| "op_target _ = None"

theorem operations_fail_iff_unknown:
  "run_op op uuid now sm fs = Inl err
   = (case op_target op of None \<Rightarrow> False | Some i \<Rightarrow> \<not> has_id sm i \<and> err = not_found i)"
  by (cases op) (auto simp: appendLabelChange_def branch_def branchWithSummary_def Let_def
    split: option.splits prod.splits)

text \<open>C3 On a well-formed session the parent walk returns from every start, the branch is a
  subsequence of the entries, and the context for the model is that of the branch at the leaf.\<close>

theorem branch_and_context_return:
  assumes "wf_session sm"
  shows "\<exists>p c. getBranch sm i = Some p \<and> subseq p (getEntries sm)
    \<and> sessionContext sm = Some c \<and> Some c = map_option path_context (getBranch sm None)"
  using getBranch_total [OF assms, of i] sessionContext_total [OF assms] sessionContext_branch [OF assms]
  by metis

lemma branch_and_context_return_witness:
  "\<exists>p c. getBranch demo_sm (Some (demo_id 3)) = Some p \<and> subseq p (getEntries demo_sm)
    \<and> sessionContext demo_sm = Some c \<and> Some c = map_option path_context (getBranch demo_sm None)"
  by (rule branch_and_context_return [OF demo_wf])

text \<open>After \<open>appendMessage\<close> the context for the model is the earlier context with exactly
  that message at the end.\<close>

theorem append_message_extends_context:
  assumes "wf_session sm" "fresh_uuid uuid sm" "appendMessage m uuid now sm fs = (i, sm', fs')"
    and "sessionContext sm = Some c"
  shows "\<exists>c'. sessionContext sm' = Some c' \<and> sc_messages c' = sc_messages c @ [m]"
  by (rule append_message_context [OF assms])

lemma append_message_extends_context_witness:
  "\<exists>c'. sessionContext (fst (snd (appendMessage (demo_message 5) (demo_uuid 6) 6 demo_sm demo_fs))) = Some c'
    \<and> sc_messages c' = [demo_message 1, demo_reply 2, demo_message 3, demo_reply 4, demo_message 5]"
proof -
  obtain i sm' fs' where app: "appendMessage (demo_message 5) (demo_uuid 6) 6 demo_sm demo_fs = (i, sm', fs')"
    by (cases "appendMessage (demo_message 5) (demo_uuid 6) 6 demo_sm demo_fs") auto
  obtain c where c: "sessionContext demo_sm = Some c" using sessionContext_total [OF demo_wf] ..
  have "map_option sc_messages (sessionContext demo_sm) =
      Some [demo_message 1, demo_reply 2, demo_message 3, demo_reply 4]"
    by code_simp
  with append_message_extends_context [OF demo_wf demo_fresh app c] c app show ?thesis by auto
qed

text \<open>After \<open>appendCompaction\<close> with a first kept entry on the current branch, the context
  is the compaction summary followed by the messages of the branch from that entry on.\<close>

theorem append_compaction_replaces_prefix:
  assumes "wf_session sm" "fresh_uuid uuid sm"
    and "appendCompaction summary k tokens details hook uuid now sm fs = (i, sm', fs')"
    and "getBranch sm None = Some (pre @ e # post)" "e_id e = k"
  shows "\<exists>c'. sessionContext sm' = Some c' \<and>
      sc_messages c' = createCompactionSummaryMessage summary tokens now
        # concat (map entry_messages (e # post))"
  by (rule append_compaction_context [OF assms])

lemma append_compaction_replaces_prefix_witness:
  "\<exists>c'. sessionContext (fst (snd (appendCompaction (js ''sum'') (demo_id 4) 9 None False (demo_uuid 6) 6
        demo_sm demo_fs))) = Some c'
    \<and> sc_messages c' = [createCompactionSummaryMessage (js ''sum'') 9 6, demo_message 3, demo_reply 4]"
proof -
  let ?app = "appendCompaction (js ''sum'') (demo_id 4) 9 None False (demo_uuid 6) 6 demo_sm demo_fs"
  let ?p = "the (getBranch demo_sm None)"
  have br: "getBranch demo_sm None = Some (take 2 ?p @ (?p ! 2) # drop 3 ?p)" by code_simp
  have k: "e_id (?p ! 2) = demo_id 4" by code_simp
  have ms: "concat (map entry_messages (?p ! 2 # drop 3 ?p)) = [demo_message 3, demo_reply 4]" by code_simp
  obtain i sm' fs' where app: "?app = (i, sm', fs')" by (cases ?app) auto
  from append_compaction_replaces_prefix [OF demo_wf demo_fresh app br k] show ?thesis
    unfolding app ms by simp
qed



lemma createBranchedSession_returns:
  assumes "getBranch sm (Some leaf) = Some path" "path \<noteq> []"
  shows "\<exists>f sm' fs'. createBranchedSession leaf sid uuid now sm fs = Some (Inr (f, sm', fs'))"
proof -
  have "\<exists>r. createBranchedSession leaf sid uuid now sm fs = Some r \<and> \<not> isl r"
    unfolding createBranchedSession_def Let_def using assms by simp
  then show ?thesis by (metis isl_def prod_cases3 sum.exhaust)
qed

text \<open>C5 Extracting a branch that holds no label entry keeps the conversation: the new session
  is well-formed, its context is that of the branch, and its branch is the old one followed by
  the label entries written for it.\<close>

theorem branched_session_keeps_context:
  assumes "wf_session sm" "getBranch sm (Some leaf) = Some path" "path \<noteq> []"
    and "\<forall>e \<in> set path. \<not> is_label e" "fresh_draws (length (sm_labelsById sm)) uuid path"
  shows "\<exists>f sm' fs' ls. createBranchedSession leaf sid uuid now sm fs = Some (Inr (f, sm', fs'))
    \<and> wf_session sm' \<and> sessionContext sm' = Some (path_context path)
    \<and> getBranch sm' None = Some (path @ ls) \<and> (\<forall>e \<in> set ls. is_label e)"
  using createBranchedSession_returns [OF assms(2,3), of sid uuid now fs]
    createBranchedSession_result [OF assms] by meson

lemma branched_session_keeps_context_witness:
  "\<exists>f sm' fs'. createBranchedSession (demo_id 1) [] (\<lambda>k. demo_uuid (7 + k)) 9 demo_sm demo_fs = Some (Inr (f, sm', fs'))
     \<and> sessionContext sm' = Some (path_context (the (getBranch demo_sm (Some (demo_id 1)))))"
proof -
  let ?p = "the (getBranch demo_sm (Some (demo_id 1)))"
  let ?u = "\<lambda>k. demo_uuid (7 + k)"
  have br: "getBranch demo_sm (Some (demo_id 1)) = Some ?p" by code_simp
  have ne: "?p \<noteq> []" by code_simp
  have nl: "\<forall>e \<in> set ?p. \<not> is_label e" by code_simp
  have l: "length (sm_labelsById demo_sm) = 1" by code_simp
  have "demo_uuid 7 100 \<notin> ids ?p" by code_simp
  then have fr: "fresh_draws (length (sm_labelsById demo_sm)) ?u ?p"
    unfolding l by (simp add: fresh_draws_def demo_uuid_def)
  from branched_session_keeps_context [OF demo_wf br ne nl fr] show ?thesis by blast
qed

text \<open>A version 1 file opens as one branch: when the drawn ids are distinct, the session is
  well-formed, its current branch holds every entry of the file in order, and the migrated
  entries are written back.\<close>

theorem open_version_1_file:
  assumes "fs f = Some lines" "loadEntriesFromFile fs f = fes" "fes \<noteq> []" "session_version fes < 2"
    and "n = length (List.map_filter entry_of fes)" "0 < n"
    and "distinct (map (v1_id uuid) [0..<n])" "\<forall>k < n. v1_id uuid k \<noteq> []"
    and "openManager cwd dir (Some f) True fresh uuid now fs = (sm, fs')"
  shows "wf_session sm \<and> getBranch sm None = Some (getEntries sm) \<and> length (getEntries sm) = n
    \<and> fs' f = Some (map Parsed (sm_fileEntries sm))"
  using open_v1 [OF assms] by blast

definition demo_v1_entry :: "nat \<Rightarrow> file_entry" where
  "demo_v1_entry k = Entry \<lparr>e_id = [], e_parentId = None, e_timestamp = int k,
     e_payload = MessageEntry (demo_message k)\<rparr>"

definition demo_v1_lines :: "file_line list" where
  "demo_v1_lines = map Parsed (Header \<lparr>h_version = None, h_id = js ''old'', h_timestamp = 0,
     h_cwd = js ''/w'', h_parentSession = None\<rparr> # map demo_v1_entry [1, 2, 3])"

definition demo_v1_path :: session_path where
  "demo_v1_path = ExplicitPath (js ''old.jsonl'')"

definition demo_v1_fs :: session_fs where
  "demo_v1_fs p = (if p = demo_v1_path then Some demo_v1_lines else None)"

lemma open_version_1_file_witness:
  "length (getEntries (fst (openManager [] [] (Some demo_v1_path) True [] demo_uuid 0 demo_v1_fs))) = 3
   \<and> wf_session (fst (openManager [] [] (Some demo_v1_path) True [] demo_uuid 0 demo_v1_fs))"
proof -
  have f: "demo_v1_fs demo_v1_path = Some demo_v1_lines" by (simp add: demo_v1_fs_def)
  let ?l = "loadEntriesFromFile demo_v1_fs demo_v1_path"
  have ne: "?l \<noteq> []" by code_simp
  have v: "session_version ?l < 2" by code_simp
  have n: "3 = length (List.map_filter entry_of ?l)" by code_simp
  have d: "distinct (map (v1_id demo_uuid) [0..<3])" by (simp add: v1_id_def demo_uuid_def upt_conv_Cons numeral_3_eq_3)
  have z: "\<forall>k < 3. v1_id demo_uuid k \<noteq> []" by (simp add: v1_id_def demo_uuid_def)
  obtain sm fs' where op: "openManager [] [] (Some demo_v1_path) True [] demo_uuid 0 demo_v1_fs = (sm, fs')"
    by fastforce
  from open_version_1_file [OF f refl ne v n _ d z op] show ?thesis by (simp add: op)
qed
section \<open>Where the code loses or repeats entries\<close>

text \<open>Extracting a branch that has a label entry on it loses conversation: label entries are
  filtered from the path and the entry after one keeps its old parent, so a session whose
  context was two messages becomes one whose context is only the second.\<close>

definition demo_labelled :: "session_manager \<times> session_fs" where
  "demo_labelled = demo_run [OpMessage (demo_message 1), OpLabel (demo_id 0) (Some (js ''a'')),
     OpMessage (demo_reply 2)]"

theorem branched_session_drops_before_label:
  "wf_session (fst demo_labelled)
   \<and> map_option sc_messages (sessionContext (fst demo_labelled)) = Some [demo_message 1, demo_reply 2]
   \<and> (case createBranchedSession (demo_id 2) (js ''n'') (\<lambda>k. demo_uuid (7 + k)) 9
            (fst demo_labelled) (snd demo_labelled) of
        Some (Inr (f, sm', fs')) \<Rightarrow> map_option sc_messages (sessionContext sm') = Some [demo_reply 2]
      | _ \<Rightarrow> False)"
proof (intro conjI)
  have "demo_ops 0 [OpMessage (demo_message 1), OpLabel (demo_id 0) (Some (js ''a'')),
     OpMessage (demo_reply 2)] (demo_start, \<lambda>_. None) \<noteq> None" by code_simp
  from session_reach_inv [OF demo_run_reach [OF this]] show "wf_session (fst demo_labelled)"
    by (simp add: demo_labelled_def session_inv_def)
qed code_simp+

text \<open>Opening an existing empty file writes the header at once but leaves the flag that says
  so to be cleared by the next entry: the first assistant message then writes the whole session
  again, and the file holds two headers.\<close>

definition demo_empty_path :: session_path where
  "demo_empty_path = ExplicitPath (js ''empty.jsonl'')"

definition demo_empty_open :: "session_manager \<times> session_fs" where
  "demo_empty_open = openManager (js ''/w'') (js ''/d'') (Some demo_empty_path) True (js ''s'') demo_uuid 0
     (\<lambda>p. if p = demo_empty_path then Some [] else None)"

definition header_lines :: "file_line list \<Rightarrow> nat" where
  "header_lines ls = length (List.map_filter header_of (parseSessionEntries ls))"

theorem opened_empty_file_repeats_header:
  "map_option header_lines (snd demo_empty_open demo_empty_path) = Some 1
   \<and> (case demo_ops 0 [OpMessage (demo_message 1), OpMessage (demo_reply 2)] demo_empty_open of
        Some (sm, fs) \<Rightarrow>
          map_option header_lines (fs demo_empty_path) = Some 2 \<and> length (getEntries sm) = 2
      | None \<Rightarrow> False)"
  by (intro conjI) code_simp+

text \<open>Forking a version 1 file writes its entries, which have no ids, under a header of the
  current version, so the copy is never migrated: opening the source gives a context of three
  messages, forking it gives the last one alone.\<close>

definition context_length :: "session_manager \<Rightarrow> nat option" where
  "context_length sm = map_option (\<lambda>c. length (sc_messages c)) (sessionContext sm)"

theorem fork_of_version_1_loses_history:
  "context_length (fst (openManager [] [] (Some demo_v1_path) True [] demo_uuid 0 demo_v1_fs)) = Some 3
   \<and> (case forkFrom demo_v1_path (js ''/t'') (js ''/d'') (js ''n'') [] demo_uuid 9 demo_v1_fs of
        Inr (sm, fs) \<Rightarrow> context_length sm = Some 1 \<and> length (getEntries sm) = 3
      | Inl e \<Rightarrow> False)"
  by (intro conjI) code_simp+

end
