(* ===== verification/Compaction_Properties.thy ===== *)
theory Compaction_Properties
  imports Compaction_Session Branch_Summary Session_Properties
begin

text \<open>
  The budget of a branch summary: which messages are taken and what their total is.

  The properties of compaction and branch summaries, with runs on the demonstration session.
\<close>

section \<open>The branch budget\<close>

declare branch_message.simps [simp del] is_summary_entry.simps [simp del]

definition total_tokens :: "agent_message list \<Rightarrow> nat" where
  "total_tokens ms = sum_list (map estimateTokens ms)"

definition within_budget :: "int \<Rightarrow> session_entry list \<Rightarrow> agent_message list \<Rightarrow> nat \<Rightarrow> bool" where
  "within_budget B es ms t \<longleftrightarrow>
     int t \<le> B
     \<or> (\<exists>e m rest. ms = m # rest \<and> e \<in> set es \<and> is_summary_entry e \<and> branch_message e = Some m
          \<and> 10 * (int t - int (estimateTokens m)) < 9 * B)"

lemma budget_walk_result:
  "\<exists>dropped taken. List.map_filter branch_message (rev es) = dropped @ taken
     \<and> bp_messages (budget_walk B es p) = taken @ bp_messages p
     \<and> bp_totalTokens (budget_walk B es p) = total_tokens taken + bp_totalTokens p
     \<and> (B \<le> 0 \<longrightarrow> dropped = [])
     \<and> (0 < B \<and> int (bp_totalTokens p) \<le> B \<longrightarrow>
          within_budget B es (taken @ bp_messages p) (bp_totalTokens (budget_walk B es p)))"
proof (induction B es p rule: budget_walk.induct)
  case (1 B p)
  then show ?case by (simp add: total_tokens_def within_budget_def)
next
  case (2 B e rest p)
  show ?case
  proof (cases "branch_message e")
    case None
    with 2(1) [OF None] show ?thesis
      by (fastforce simp: map_filter_append map_filter_Cons within_budget_def)
  next
    case (Some m)
    let ?p1 = "p\<lparr>bp_fileOps := extractFileOpsFromMessage m (bp_fileOps p)\<rparr>"
    let ?added = "?p1\<lparr>bp_messages := m # bp_messages ?p1, bp_totalTokens := bp_totalTokens ?p1 + estimateTokens m\<rparr>"
    have all: "List.map_filter branch_message (rev (e # rest)) = List.map_filter branch_message (rev rest) @ [m]"
      using Some by (simp add: map_filter_append map_filter_Cons)
    show ?thesis
    proof (cases "B > 0 \<and> int (bp_totalTokens p) + int (estimateTokens m) > B")
      case True
      show ?thesis
      proof (cases "is_summary_entry e \<and> 10 * int (bp_totalTokens p) < 9 * B")
        case summary: True
        then have "budget_walk B (e # rest) p = ?added" using True Some by (simp add: Let_def)
        moreover have "within_budget B (e # rest) (m # bp_messages p) (bp_totalTokens p + estimateTokens m)"
          using summary Some unfolding within_budget_def by (intro disjI2 exI [of _ e] exI [of _ m]) auto
        ultimately show ?thesis
          using all True by (intro exI [of _ "List.map_filter branch_message (rev rest)"] exI [of _ "[m]"])
            (simp add: total_tokens_def)
      next
        case False
        then have "budget_walk B (e # rest) p = ?p1" using True Some by (simp add: Let_def)
        then show ?thesis
          using all True
          by (intro exI [of _ "List.map_filter branch_message (rev (e # rest))"] exI [of _ "[]"])
            (simp add: total_tokens_def within_budget_def)
      qed
    next
      case False
      then have bw: "budget_walk B (e # rest) p = budget_walk B rest ?added" using Some by (auto simp: Let_def)
      from "2.IH"(2) [OF Some refl refl refl] False obtain dropped taken where ih:
        "List.map_filter branch_message (rev rest) = dropped @ taken"
        "bp_messages (budget_walk B rest ?added) = taken @ bp_messages ?added"
        "bp_totalTokens (budget_walk B rest ?added) = total_tokens taken + bp_totalTokens ?added"
        "B \<le> 0 \<longrightarrow> dropped = []"
        "0 < B \<and> int (bp_totalTokens ?added) \<le> B \<longrightarrow>
          within_budget B rest (taken @ bp_messages ?added) (bp_totalTokens (budget_walk B rest ?added))"
        by auto
      have mono: "within_budget B rest ms t \<Longrightarrow> within_budget B (e # rest) ms t" for ms t
        unfolding within_budget_def by auto
      have "0 < B \<Longrightarrow> int (bp_totalTokens p) \<le> B \<Longrightarrow> int (bp_totalTokens ?added) \<le> B"
        using False by auto
      then show ?thesis
        using ih mono all unfolding bw
        by (intro exI [of _ dropped] exI [of _ "taken @ [m]"]) (simp add: total_tokens_def)
    qed
  qed
qed

lemma prepareBranchEntries_result:
  "\<exists>dropped. List.map_filter branch_message entries = dropped @ bp_messages (prepareBranchEntries entries B)
     \<and> bp_totalTokens (prepareBranchEntries entries B) = total_tokens (bp_messages (prepareBranchEntries entries B))
     \<and> (B \<le> 0 \<longrightarrow> dropped = [])
     \<and> (0 < B \<longrightarrow> within_budget B entries (bp_messages (prepareBranchEntries entries B))
           (bp_totalTokens (prepareBranchEntries entries B)))"
  using budget_walk_result [of "rev entries" B
      "\<lparr>bp_messages = [], bp_fileOps = fold add_branch_details entries createFileOps, bp_totalTokens = 0\<rparr>"]
  by (auto simp: prepareBranchEntries_def within_budget_def)

definition demo_settings :: compaction_settings where
  "demo_settings = \<lparr>cs_enabled = True, cs_reserveTokens = 10, cs_keepRecentTokens = 2\<rparr>"

definition demo_path :: "session_entry list" where
  "demo_path = the (getBranch demo_sm None)"

lemma demo_branch: "getBranch demo_sm None = Some demo_path"
  unfolding demo_path_def by code_simp

text \<open>C15 Compaction loses nothing. With the preparation of the current branch and the summary
  appended with its first kept entry, the context before is the previous summary, the messages
  to summarise, the prefix of the split turn and the kept messages, in this order; the context
  after is the new summary and exactly those kept messages.\<close>

theorem compaction_conserves_messages:
  assumes "wf_session sm" "fresh_uuid uuid sm" "getBranch sm None = Some path"
    and "\<forall>e \<in> set path. summary_ok e" "kept_before path"
    and "prepareCompaction path settings = Some (Some p)"
    and "appendCompaction summary (pp_firstKeptEntryId p) tokens details hook uuid now sm fs = (i, sm', fs')"
  shows "\<exists>c c' kept. sessionContext sm = Some c \<and> sessionContext sm' = Some c'
    \<and> sc_messages c = prev_summary path @ pp_messagesToSummarize p @ pp_turnPrefixMessages p @ kept
    \<and> sc_messages c' = createCompactionSummaryMessage summary tokens now # kept"
  by (rule compaction_contexts [OF assms])

lemma compaction_conserves_messages_witness:
  "\<exists>c c' kept. sessionContext demo_sm = Some c
    \<and> sessionContext (fst (snd (appendCompaction (js ''sum'') (demo_id 4) 9 None False (demo_uuid 6) 6 demo_sm demo_fs))) = Some c'
    \<and> sc_messages c = [demo_message 1, demo_reply 2] @ kept
    \<and> sc_messages c' = createCompactionSummaryMessage (js ''sum'') 9 6 # kept"
proof -
  obtain p where p: "prepareCompaction demo_path demo_settings = Some (Some p)" "pp_firstKeptEntryId p = demo_id 4"
    "pp_messagesToSummarize p = [demo_message 1, demo_reply 2]" "pp_turnPrefixMessages p = []"
  proof -
    let ?r = "prepareCompaction demo_path demo_settings"
    have "?r = Some (Some (the (the ?r)))" by code_simp
    moreover have "pp_firstKeptEntryId (the (the ?r)) = demo_id 4" by code_simp
    moreover have "pp_messagesToSummarize (the (the ?r)) = [demo_message 1, demo_reply 2]" by code_simp
    moreover have "pp_turnPrefixMessages (the (the ?r)) = []" by code_simp
    ultimately show ?thesis by (rule that)
  qed
  have ok: "\<forall>e \<in> set demo_path. summary_ok e" by code_simp
  have kb: "kept_before demo_path" by code_simp
  have ps: "prev_summary demo_path = []" by code_simp
  let ?app = "appendCompaction (js ''sum'') (pp_firstKeptEntryId p) 9 None False (demo_uuid 6) 6 demo_sm demo_fs"
  obtain i sm' fs' where app: "?app = (i, sm', fs')" by (cases ?app) auto
  from compaction_conserves_messages [OF demo_wf demo_fresh demo_branch ok kb p(1) app] app p ps
  show ?thesis by simp
qed

text \<open>C16 The cut point is valid: when the range has a place to cut, the first kept entry is in
  it, between it and the first kept message are only settings entries, and that message is
  never a tool result; a split turn starts at or before the cut.\<close>

theorem cut_point_valid:
  fixes keep :: nat
  assumes "startIndex \<le> endIndex" "endIndex \<le> length entries"
    and "findValidCutPoints entries startIndex endIndex \<noteq> []"
  defines "r \<equiv> findCutPoint entries startIndex endIndex keep"
  shows "(\<exists>j. startIndex \<le> cp_firstKeptEntryIndex r \<and> cp_firstKeptEntryIndex r \<le> j \<and> j < endIndex
      \<and> is_cut_point (entries ! j)
      \<and> (\<forall>i. cp_firstKeptEntryIndex r \<le> i \<and> i < j \<longrightarrow>
            \<not> is_message (entries ! i) \<and> \<not> is_compaction (entries ! i)))
    \<and> (cp_isSplitTurn r \<longrightarrow>
        (\<exists>t. cp_turnStartIndex r = Some t \<and> startIndex \<le> t \<and> t \<le> cp_firstKeptEntryIndex r
           \<and> starts_turn (entries ! t)))"
proof -
  let ?j = "cut_base entries startIndex endIndex keep"
  note B = cut_base_valid [OF assms(3), of keep]
  note K = findCutPoint_base [OF assms(3), of keep, folded r_def]
  have "\<exists>t. cp_turnStartIndex r = Some t" if "cp_isSplitTurn r"
    using findCutPoint_order(4) [OF assms(1)] that unfolding r_def by auto
  then have "cp_isSplitTurn r \<longrightarrow> (\<exists>t. cp_turnStartIndex r = Some t \<and> startIndex \<le> t
      \<and> t \<le> cp_firstKeptEntryIndex r \<and> starts_turn (entries ! t))"
    using findCutPoint_order(3) [OF assms(1)] unfolding r_def by blast
  moreover have "startIndex \<le> extend_back entries startIndex ?j \<and> extend_back entries startIndex ?j \<le> ?j"
    using extend_back_bounds [OF B(1)] .
  ultimately show ?thesis using B extend_back_settings unfolding K by blast
qed

lemma cut_point_valid_witness:
  "(\<exists>j. 0 \<le> cp_firstKeptEntryIndex (findCutPoint demo_path 0 4 2)
      \<and> cp_firstKeptEntryIndex (findCutPoint demo_path 0 4 2) \<le> j \<and> j < 4 \<and> is_cut_point (demo_path ! j))
   \<and> cp_firstKeptEntryIndex (findCutPoint demo_path 0 4 2) = 2"
proof -
  have l: "4 \<le> length demo_path" by code_simp
  have v: "findValidCutPoints demo_path 0 4 \<noteq> []" by code_simp
  have k: "cp_firstKeptEntryIndex (findCutPoint demo_path 0 4 2) = 2" by code_simp
  from cut_point_valid [OF _ l v, of 2] k show ?thesis by auto
qed



text \<open>A trailing tool result larger than the budget switches compaction off: no place to cut
  lies at or after it, the cut falls back to the first one, and a conversation of two turns is
  kept whole while its preparation has nothing to summarise.\<close>

definition big_result_path :: "session_entry list" where
  "big_result_path =
     (let entry = (\<lambda>k m. \<lparr>e_id = demo_id k, e_parentId = (if k = 0 then None else Some (demo_id (k - 1))),
                         e_timestamp = int k, e_payload = MessageEntry m\<rparr>)
      in map (\<lambda>(k, m). entry k m)
           [(0, demo_message 1), (1, demo_reply 2), (2, demo_message 3), (3, demo_reply 4),
            (4, ToolResult \<lparr>tr_toolCallId = [], tr_toolName = [], tr_content = [TextBlock (replicate 40 65) None],
                           tr_details = None, tr_isError = False, tr_timestamp = 5\<rparr>)])"

theorem trailing_tool_result_stops_compaction:
  "(case prepareCompaction big_result_path demo_settings of
      Some (Some p) \<Rightarrow> pp_messagesToSummarize p = [] \<and> pp_turnPrefixMessages p = []
        \<and> pp_firstKeptEntryId p = demo_id 0
    | _ \<Rightarrow> False)
   \<and> (case prepareCompaction (butlast big_result_path) demo_settings of
        Some (Some p) \<Rightarrow> length (pp_messagesToSummarize p) = 2 | _ \<Rightarrow> False)"
  by (intro conjI) code_simp+

text \<open>C18 No file is forgotten: a compaction after one of our own records sorted, disjoint lists
  without repetition, in which every modified file of the earlier one is still modified and
  every file it read is still read or modified; and every file written or edited by a tool
  call of the summarised messages is modified.\<close>

theorem compaction_accumulates_files:
  assumes "prepare_at path settings tokens = Some p" "prev_compaction path = Some (i, c)"
    and "\<not> c_fromHook c" "c_details c = Some (file_details r0 m0)"
    and "compact_conversation env p model instructions level w = (Inr res, w')"
  shows "\<exists>r m. cr_details res = file_details r m \<and> sorted r \<and> distinct r \<and> sorted m \<and> distinct m
    \<and> set r \<inter> set m = {} \<and> set m0 \<subseteq> set m \<and> set r0 \<subseteq> set r \<union> set m
    \<and> (\<forall>a tc f. Assistant a \<in> set (pp_messagesToSummarize p @ pp_turnPrefixMessages p)
          \<and> AToolCall tc \<in> set (am_content a) \<and> modifies tc f \<longrightarrow> f \<in> set m)"
proof -
  from compact_result [OF assms(5)] obtain r m where l: "computeFileLists (pp_fileOps p) = (r, m)"
    "cr_details res = file_details r m" by metis
  note d = prepare_fileOps(1) [OF assms(1)]
  note F = computeFileLists_facts [OF d l(1)]
  let ?old = "add_details (c_fromHook c) (c_details c) createFileOps"
  have "ops_le ?old (pp_fileOps p)" by (rule prepare_fileOps(2) [OF assms(1,2)])
  from computeFileLists_covers [OF this d l(1)]
  have old: "set m0 \<subseteq> set m" "set r0 \<subseteq> set r \<union> set m"
    using assms(3,4) by (simp_all add: add_details_def createFileOps_def)
  have "\<forall>a tc f. Assistant a \<in> set (pp_messagesToSummarize p @ pp_turnPrefixMessages p)
      \<and> AToolCall tc \<in> set (am_content a) \<and> modifies tc f \<longrightarrow> f \<in> set m"
    using prepare_fileOps_modifies [OF assms(1)] F(5) by blast
  then show ?thesis using l(2) F(1-4,6) old by (intro exI [of _ r] exI [of _ m]) blast
qed

definition demo_env :: "unit llm_env" where
  "demo_env = \<lparr>le_now = ret 7, le_complete = (\<lambda>rq. ret (case demo_reply 3 of Assistant a \<Rightarrow> a))\<rparr>"

definition demo_model :: llm_model where
  "demo_model = \<lparr>mdl_reasoning = False, mdl_contextWindow = 16000\<rparr>"

definition demo_files_path :: "session_entry list" where
  "demo_files_path = \<lparr>e_id = demo_id 8, e_parentId = None, e_timestamp = 0, e_payload = Compaction
       \<lparr>c_summary = js ''s'', c_firstKeptEntryId = [], c_tokensBefore = 1,
        c_details = Some (file_details [js ''a''] [js ''b'']), c_fromHook = False, c_firstKeptEntryIndex = None\<rparr>\<rparr>
     # demo_path"

lemma compaction_accumulates_files_witness:
  "\<exists>res r m. fst (compact_conversation demo_env (the (prepare_at demo_files_path demo_settings 5)) demo_model None None ())
       = Inr res
     \<and> cr_details res = file_details r m \<and> js ''b'' \<in> set m \<and> js ''a'' \<in> set r \<union> set m"
proof -
  let ?p = "the (prepare_at demo_files_path demo_settings 5)"
  have p: "prepare_at demo_files_path demo_settings 5 = Some ?p" by code_simp
  let ?i = "fst (the (prev_compaction demo_files_path))" let ?c = "snd (the (prev_compaction demo_files_path))"
  have pc: "prev_compaction demo_files_path = Some (?i, ?c)" by code_simp
  have h: "\<not> c_fromHook ?c" by code_simp
  have det: "c_details ?c = Some (file_details [js ''a''] [js ''b''])" by code_simp
  have split: "pp_turnPrefixMessages ?p = []" "pp_firstKeptEntryId ?p \<noteq> []" by code_simp+
  obtain res where r: "compact_conversation demo_env ?p demo_model None None () = (Inr res, ())"
    using split by (cases "computeFileLists (pp_fileOps ?p)") (auto simp: compact_conversation_def generateSummary_def request_summary_def demo_env_def demo_reply_def
        bind_eff_def ret_def Let_def throw_def split: prod.splits)
  from compaction_accumulates_files [OF p pc h det r] r show ?thesis by auto
qed

text \<open>Leaving a branch collects exactly what is left behind: on a well-formed session the
  branch of the old leaf is the part it shares with the target's branch followed by the
  collected entries, none of which is on the target's branch, and the common ancestor is the
  last shared entry.\<close>

theorem collected_entries_left_behind:
  assumes "wf_session sm" "getBranch sm (Some old) = Some p" "getBranch sm (Some target) = Some q" "old \<noteq> []"
  shows "\<exists>common es. collectEntriesForBranchSummary (\<lambda>i. getBranch sm (Some i)) (getEntry sm) (Some old) target =
      Some \<lparr>ce_entries = es, ce_commonAncestorId = (if common = [] then None else Some (e_id (last common)))\<rparr>
    \<and> p = common @ es \<and> (\<exists>r. q = common @ r) \<and> (\<forall>e \<in> set es. e_id e \<notin> e_id ` set q)"
  by (rule session_reader.collect_splits_branch [OF assms])

lemma collected_entries_left_behind_witness:
  "\<exists>es. collectEntriesForBranchSummary (\<lambda>i. getBranch demo_sm (Some i)) (getEntry demo_sm) (Some (demo_id 5)) (demo_id 2)
      = Some \<lparr>ce_entries = es, ce_commonAncestorId = Some (demo_id 1)\<rparr> \<and> length es = 2"
proof -
  let ?p = "the (getBranch demo_sm (Some (demo_id 5)))" let ?q = "the (getBranch demo_sm (Some (demo_id 2)))"
  have p: "getBranch demo_sm (Some (demo_id 5)) = Some ?p" and q: "getBranch demo_sm (Some (demo_id 2)) = Some ?q"
    by code_simp+
  have l: "map e_id ?p = [demo_id 0, demo_id 1, demo_id 4, demo_id 5]"
    "map e_id ?q = [demo_id 0, demo_id 1, demo_id 2]" by code_simp+
  have ne: "demo_id 5 \<noteq> []" "demo_id 4 \<noteq> demo_id 2" by code_simp+
  from collected_entries_left_behind [OF demo_wf p q ne(1)] obtain common es r where C:
    "collectEntriesForBranchSummary (\<lambda>i. getBranch demo_sm (Some i)) (getEntry demo_sm) (Some (demo_id 5)) (demo_id 2) =
      Some \<lparr>ce_entries = es, ce_commonAncestorId = (if common = [] then None else Some (e_id (last common)))\<rparr>"
    "?p = common @ es" "?q = common @ r" "\<forall>e \<in> set es. e_id e \<notin> e_id ` set ?q" by blast
  have "map e_id common @ map e_id es = [demo_id 0, demo_id 1, demo_id 4, demo_id 5]"
    "map e_id common @ map e_id r = [demo_id 0, demo_id 1, demo_id 2]"
    using l C(2,3) by simp_all
  moreover have "\<forall>x \<in> set (map e_id es). x \<notin> set (map e_id ?q)" using C(4) by simp
  ultimately have c: "map e_id common = [demo_id 0, demo_id 1]" "map e_id es = [demo_id 4, demo_id 5]"
    using ne(2) l(2) by (auto simp: append_eq_Cons_conv)
  then have "e_id (last common) = demo_id 1" "common \<noteq> []" "length es = 2"
    by (auto simp: last_map [symmetric] dest: arg_cong [of _ _ length])
  with C(1) show ?thesis by auto
qed

text \<open>The messages summarised for a branch are its newest ones: a suffix of all its messages,
  their total is the sum of their estimates, and with a positive budget the total stays within
  it unless the oldest of them is a summary that was added below nine tenths of the budget.\<close>

theorem branch_messages_within_budget:
  "\<exists>dropped. List.map_filter branch_message entries = dropped @ bp_messages (prepareBranchEntries entries budget)
     \<and> bp_totalTokens (prepareBranchEntries entries budget)
         = total_tokens (bp_messages (prepareBranchEntries entries budget))
     \<and> (budget \<le> 0 \<or> within_budget budget entries (bp_messages (prepareBranchEntries entries budget))
           (bp_totalTokens (prepareBranchEntries entries budget)))"
  using prepareBranchEntries_result [of entries budget] by (auto simp: not_le)

text \<open>A model whose context window is not larger than the reserved tokens gets no limit at
  all: the budget is then zero or negative, which the preparation reads as unlimited, and every
  message of the branch is put into the request.\<close>

theorem small_window_is_unlimited:
  assumes "0 < mdl_contextWindow model" "mdl_contextWindow model \<le> reserveTokens"
  shows "bp_messages (prepareBranchEntries entries (branch_budget model reserveTokens))
    = List.map_filter branch_message entries"
proof -
  have "branch_budget model reserveTokens \<le> 0" using assms by (simp add: branch_budget_def)
  then show ?thesis using prepareBranchEntries_result [of entries "branch_budget model reserveTokens"] by auto
qed

lemma small_window_is_unlimited_witness:
  "mdl_contextWindow demo_model = 16000
   \<and> bp_messages (prepareBranchEntries demo_path (branch_budget demo_model 16384))
     = List.map_filter branch_message demo_path"
  using small_window_is_unlimited [of demo_model 16384 demo_path] by (simp add: demo_model_def)

end
