(* ===== verification/Agent_Types.thy ===== *)
theory Agent_Types
  imports Session_Branching
begin

text \<open>
  The data of the agent loop, \<open>packages/agent/src/types.ts\<close> and the stream events of
  \<open>packages/ai/src/types.ts\<close>: tools, tool results, hooks, events, and the state a run threads.

  \<^item> Everything outside the loop (the model, the hooks, the tools, the clock, the sink's
    listeners) reads and changes a world of any type \<open>'w\<close>; an asynchronous call is one effect.
  \<^item> A response is the events its stream delivers and its final result.
  \<^item> A tool runs step by step: it may change the world, report a partial result, finish or
    fail. That it ends is part of the type; a tool that never settles is not modelled.
\<close>

section \<open>Stream events\<close>

datatype assistant_message_event =
    StartE assistant_message
  | TextStartE nat assistant_message
  | TextDeltaE nat jsstring assistant_message
  | TextEndE nat jsstring assistant_message
  | ThinkingStartE nat assistant_message
  | ThinkingDeltaE nat jsstring assistant_message
  | ThinkingEndE nat jsstring assistant_message
  | ToolcallStartE nat assistant_message
  | ToolcallDeltaE nat jsstring assistant_message
  | ToolcallEndE nat tool_call assistant_message
  | DoneE stop_reason assistant_message
  | ErrorE stop_reason assistant_message

text \<open>The partial message of an update event; \<open>None\<close> for start, done and error.\<close>

fun update_partial :: "assistant_message_event \<Rightarrow> assistant_message option" where
  "update_partial (TextStartE _ m) = Some m"
| "update_partial (TextDeltaE _ _ m) = Some m"
| "update_partial (TextEndE _ _ m) = Some m"
| "update_partial (ThinkingStartE _ m) = Some m"
| "update_partial (ThinkingDeltaE _ _ m) = Some m"
| "update_partial (ThinkingEndE _ _ m) = Some m"
| "update_partial (ToolcallStartE _ m) = Some m"
| "update_partial (ToolcallDeltaE _ _ m) = Some m"
| "update_partial (ToolcallEndE _ _ m) = Some m"
| "update_partial _ = None"

record stream_response =
  sr_events :: "assistant_message_event list"
  sr_result :: assistant_message

section \<open>Tools\<close>

record agent_tool_result =
  atr_content :: "user_block list"
  atr_details :: "json option"
  atr_terminate :: "bool option"

datatype 'w tool_run =
    Finish agent_tool_result
  | Fail jsstring
  | Update agent_tool_result "'w tool_run"
  | Step "'w \<Rightarrow> 'w" "'w \<Rightarrow> 'w tool_run"

datatype execution_mode = Sequential | Parallel

record 'w agent_tool =
  at_name :: jsstring
  at_parameters :: json
  at_prepareArguments :: "(json \<Rightarrow> jsstring + json) option"
  at_execute :: "jsstring \<Rightarrow> json \<Rightarrow> 'w \<Rightarrow> 'w tool_run"
  at_executionMode :: "execution_mode option"

section \<open>Events\<close>

datatype agent_event =
    AgentStart
  | AgentEnd "agent_message list"
  | TurnStart
  | TurnEnd agent_message "tool_result_message list"
  | MessageStart agent_message
  | MessageUpdate agent_message assistant_message_event
  | MessageEnd agent_message
  | ToolExecutionStart jsstring jsstring json
  | ToolExecutionUpdate jsstring jsstring json agent_tool_result
  | ToolExecutionEnd jsstring jsstring agent_tool_result bool

section \<open>Configuration\<close>

record agent_model =
  mo_api :: jsstring
  mo_provider :: jsstring
  mo_id :: jsstring

record before_result =
  bf_block :: bool
  bf_reason :: "jsstring option"

record after_result =
  af_content :: "user_block list option"
  af_details :: "json option"
  af_isError :: "bool option"
  af_terminate :: "bool option"

record tool_hook_context =
  hc_assistantMessage :: assistant_message
  hc_toolCall :: tool_call
  hc_args :: json
  hc_messages :: "agent_message list"

record stop_context =
  st_message :: assistant_message
  st_toolResults :: "tool_result_message list"
  st_messages :: "agent_message list"
  st_newMessages :: "agent_message list"

record 'w agent_context =
  ac_systemPrompt :: jsstring
  ac_tools :: "'w agent_tool list option"

record 'w stream_request =
  sq_model :: agent_model
  sq_systemPrompt :: jsstring
  sq_messages :: "llm_message list"
  sq_tools :: "'w agent_tool list option"
  sq_apiKey :: "jsstring option"
  sq_temperature :: "nat option"
  sq_maxTokens :: "nat option"

text \<open>
  \<open>validateToolArguments\<close> and \<open>parseJsonWithRepair\<close> wrap third-party packages and are
  parameters, as are the stream function, the clock and the event sink.
\<close>

record 'w agent_config =
  cf_model :: agent_model
  cf_apiKey :: "jsstring option"
  cf_maxTokens :: "nat option"
  cf_convertToLlm :: "agent_message list \<Rightarrow> ('w, llm_message list) eff"
  cf_transformContext :: "(agent_message list \<Rightarrow> ('w, agent_message list) eff) option"
  cf_getApiKey :: "(jsstring \<Rightarrow> ('w, jsstring option) eff) option"
  cf_shouldStopAfterTurn :: "(stop_context \<Rightarrow> ('w, bool) eff) option"
  cf_getSteeringMessages :: "('w, agent_message list) eff option"
  cf_getFollowUpMessages :: "('w, agent_message list) eff option"
  cf_toolExecution :: "execution_mode option"
  cf_beforeToolCall :: "(tool_hook_context \<Rightarrow> ('w, before_result option) eff) option"
  cf_afterToolCall ::
    "(tool_hook_context \<Rightarrow> agent_tool_result \<Rightarrow> bool \<Rightarrow> ('w, after_result option) eff) option"
  cf_repairToolCalls :: bool
  cf_stream :: "'w stream_request \<Rightarrow> ('w, stream_response) eff"
  cf_validate :: "'w agent_tool \<Rightarrow> tool_call \<Rightarrow> jsstring + json"
  cf_parseJson :: "jsstring \<Rightarrow> json option"
  cf_aborted :: "'w \<Rightarrow> bool"
  cf_now :: "('w, int) eff"
  cf_emit :: "agent_event \<Rightarrow> ('w, unit) eff"

section \<open>The state of a run\<close>

text \<open>
  \<open>ls_messages\<close> is \<open>currentContext.messages\<close>, \<open>ls_newMessages\<close> the array the run returns;
  \<open>ls_trace\<close> records the events given to the sink.
\<close>

record 'w loop_state =
  ls_messages :: "agent_message list"
  ls_newMessages :: "agent_message list"
  ls_trace :: "agent_event list"
  ls_world :: 'w

type_synonym ('w, 'a) loop_eff = "('w loop_state, 'a) eff"

definition on_world :: "('w, 'a) eff \<Rightarrow> ('w, 'a) loop_eff" where
  "on_world f = (\<lambda>s. case f (ls_world s) of (r, w) \<Rightarrow> (r, s\<lparr>ls_world := w\<rparr>))"

definition emit :: "'w agent_config \<Rightarrow> agent_event \<Rightarrow> ('w, unit) loop_eff" where
  "emit config e = (\<lambda>s. on_world (cf_emit config e) (s\<lparr>ls_trace := ls_trace s @ [e]\<rparr>))"

definition get_messages :: "('w, agent_message list) loop_eff" where
  "get_messages = (\<lambda>s. (Inr (ls_messages s), s))"

definition push_message :: "agent_message \<Rightarrow> ('w, unit) loop_eff" where
  "push_message m = (\<lambda>s. (Inr (), s\<lparr>ls_messages := ls_messages s @ [m]\<rparr>))"

definition set_last_message :: "agent_message \<Rightarrow> ('w, unit) loop_eff" where
  "set_last_message m = (\<lambda>s. (Inr (), s\<lparr>ls_messages := butlast (ls_messages s) @ [m]\<rparr>))"

definition push_new :: "agent_message \<Rightarrow> ('w, unit) loop_eff" where
  "push_new m = (\<lambda>s. (Inr (), s\<lparr>ls_newMessages := ls_newMessages s @ [m]\<rparr>))"

definition catch_eff :: "('w, 'a) eff \<Rightarrow> (jsstring \<Rightarrow> ('w, 'a) eff) \<Rightarrow> ('w, 'a) eff" where
  "catch_eff f h = (\<lambda>w. case f w of (Inl m, w') \<Rightarrow> h m w' | (Inr a, w') \<Rightarrow> (Inr a, w'))"

definition lift_result :: "jsstring + 'a \<Rightarrow> ('w, 'a) eff" where
  "lift_result r = (\<lambda>w. (r, w))"

end
