(* ===== verification/Agent_Tools.thy ===== *)
theory Agent_Tools
  imports Agent_Types
begin

text \<open>
  Tool calls in \<open>packages/agent/src/agent-loop.ts\<close>: preparation with validation, the bounded
  repair request and the hooks, execution, and the two ways to run a batch.

  \<^item> In a parallel batch each prepared call is a slot. A schedule, a list of slot numbers,
    says which slot moves next; when it is used up the remaining slots move in order until
    they are done, so that a batch always completes. Promise timing in the code gives one such
    schedule; the lemmas hold for all of them.
  \<^item> A failing sink makes the batch fail at once with that error.
\<close>

section \<open>Pretty JSON\<close>

fun pretty :: "jsstring \<Rightarrow> json \<Rightarrow> jsstring" where
  "pretty ind (JArr xs) =
     (if xs = [] then js ''[]''
      else js ''['' @ nl @ join_with (js '','' @ nl) (map (\<lambda>x. ind @ js ''  '' @ pretty (ind @ js ''  '') x) xs)
             @ nl @ ind @ js '']'')"
| "pretty ind (JObj kvs) =
     (if kvs = [] then js ''{}''
      else js ''{'' @ nl
             @ join_with (js '','' @ nl)
                 (map (\<lambda>(k, v). ind @ js ''  '' @ quote_js k @ js '': '' @ pretty (ind @ js ''  '') v) kvs)
             @ nl @ ind @ js ''}'')"
| "pretty ind v = stringify v"

section \<open>Repair of tool-call arguments\<close>

definition strip_affixes :: "jsstring \<Rightarrow> jsstring \<Rightarrow> jsstring \<Rightarrow> jsstring option" where
  "strip_affixes pre post s =
     (if length pre + length post \<le> length s \<and> take (length pre) s = pre
         \<and> drop (length s - length post) s = post
      then Some (take (length s - length pre - length post) (drop (length pre) s)) else None)"

text \<open>The fence: three backticks around the text, with an optional language mark.\<close>

definition stripJsonFence :: "jsstring \<Rightarrow> jsstring" where
  "stripJsonFence text =
     (case strip_affixes (js ''```'') (js ''```'') text of
        None \<Rightarrow> text
      | Some body \<Rightarrow> trim_js (if take 4 body = js ''json'' then drop 4 body else body))"

definition ascii_lower :: "16 word \<Rightarrow> 16 word" where
  "ascii_lower u = (if 65 \<le> u \<and> u \<le> 90 then u + 32 else u)"

text \<open>An opening and a closing tag, each spelt in one of three ways, in any case.\<close>

definition tag_spellings :: "string list" where
  "tag_spellings = [''toolcall'', ''tool_call'', ''tool-call'']"

definition has_tag_affixes :: "jsstring \<Rightarrow> jsstring \<Rightarrow> jsstring \<Rightarrow> jsstring option" where
  "has_tag_affixes pre post s =
     (if strip_affixes pre post (map ascii_lower s) = None then None
      else Some (take (length s - length pre - length post) (drop (length pre) s)))"

definition extractRepairJson :: "jsstring \<Rightarrow> jsstring" where
  "extractRepairJson text =
     (let stripped = stripJsonFence text;
          tries = concat (map (\<lambda>a. map (\<lambda>b. (js (''<'' @ a @ ''>''), js (''</'' @ b @ ''>''))) tag_spellings)
                    tag_spellings)
      in case find (\<lambda>(a, b). has_tag_affixes a b stripped \<noteq> None) tries of
           None \<Rightarrow> stripped
         | Some (a, b) \<Rightarrow> (case has_tag_affixes a b stripped of Some body \<Rightarrow> trim_js body | None \<Rightarrow> stripped))"

fun isRecord :: "json \<Rightarrow> bool" where
  "isRecord (JObj _) = True"
| "isRecord _ = False"

fun record_field :: "string \<Rightarrow> json \<Rightarrow> json option" where
  "record_field k v =
     (case json_field (js k) v of Some r \<Rightarrow> if isRecord r then Some r else None | None \<Rightarrow> None)"

definition repaired_of_json :: "(jsstring \<Rightarrow> json option) \<Rightarrow> jsstring \<Rightarrow> json \<Rightarrow> json option" where
  "repaired_of_json parse toolName parsed =
     (if \<not> isRecord parsed then None
      else
        (case record_field ''arguments'' parsed of
           Some a \<Rightarrow> Some a
         | None \<Rightarrow>
             (let fallback = (case record_field ''args'' parsed of Some a \<Rightarrow> Some a | None \<Rightarrow> Some parsed)
              in case record_field ''function'' parsed of
                   None \<Rightarrow> fallback
                 | Some f \<Rightarrow>
                     (if json_field (js ''name'') f = Some (JStr toolName)
                      then (case json_field (js ''arguments'') f of
                              Some (JStr t) \<Rightarrow>
                                (case parse t of Some n \<Rightarrow> if isRecord n then Some n else None | None \<Rightarrow> None)
                            | Some (JObj kvs) \<Rightarrow> Some (JObj kvs)
                            | _ \<Rightarrow> fallback)
                      else fallback))))"

definition parseRepairedToolArguments ::
    "(jsstring \<Rightarrow> json option) \<Rightarrow> jsstring \<Rightarrow> assistant_message \<Rightarrow> json option" where
  "parseRepairedToolArguments parse toolName message =
     (case find (\<lambda>tc. tc_name tc = toolName) (tool_calls_of (am_content message)) of
        Some tc \<Rightarrow> Some (tc_arguments tc)
      | None \<Rightarrow>
          (let text = trim_js (join_with nl (List.map_filter
                 (\<lambda>b. case b of AText t _ \<Rightarrow> Some t | _ \<Rightarrow> None) (am_content message)))
           in if text = [] then None
              else (case parse (extractRepairJson text) of
                      None \<Rightarrow> None
                    | Some parsed \<Rightarrow> repaired_of_json parse toolName parsed)))"

definition resolve_api_key :: "'w agent_config \<Rightarrow> ('w, jsstring option) eff" where
  "resolve_api_key config =
     bind_eff (case cf_getApiKey config of Some f \<Rightarrow> f (mo_provider (cf_model config)) | None \<Rightarrow> ret None)
       (\<lambda>k. ret (case k of Some (u # us) \<Rightarrow> Some (u # us) | _ \<Rightarrow> cf_apiKey config))"

definition repair_prompt :: "'w agent_tool \<Rightarrow> tool_call \<Rightarrow> jsstring \<Rightarrow> jsstring" where
  "repair_prompt tool toolCall err =
     join_with (nl @ nl)
       [js ''The following tool call failed validation. Fix only the JSON arguments.'',
        js ''Tool name: '' @ at_name tool,
        js ''Validation error:'' @ nl @ err,
        js ''Original arguments:'' @ nl @ pretty [] (tc_arguments toolCall),
        js ''Correct JSON schema:'' @ nl @ pretty [] (at_parameters tool),
        js ''Respond with ONLY the corrected JSON arguments object, for example: {\"field\":\"value\"}'']"

definition repairToolCallArguments ::
    "'w agent_config \<Rightarrow> 'w agent_tool \<Rightarrow> tool_call \<Rightarrow> jsstring \<Rightarrow> ('w, json option) eff" where
  "repairToolCallArguments config tool toolCall err =
     (\<lambda>w. if \<not> cf_repairToolCalls config \<or> cf_aborted config w then (Inr None, w)
          else
            bind_eff (resolve_api_key config) (\<lambda>apiKey.
            catch_eff
              (bind_eff (cf_now config) (\<lambda>now.
               bind_eff
                 (cf_stream config \<lparr>sq_model = cf_model config,
                    sq_systemPrompt =
                      js ''You repair malformed tool-call arguments. Return only valid JSON and no prose.'',
                    sq_messages = [LUser \<lparr>um_content = UString (repair_prompt tool toolCall err), um_timestamp = now\<rparr>],
                    sq_tools = None, sq_apiKey = apiKey, sq_temperature = Some 0,
                    sq_maxTokens = Some (min (case cf_maxTokens config of Some n \<Rightarrow> n | None \<Rightarrow> 2048) 2048)\<rparr>)
                 (\<lambda>response.
                    (let message = sr_result response
                     in if am_stopReason message = ErrorR \<or> am_stopReason message = AbortedR then ret None
                        else ret (parseRepairedToolArguments (cf_parseJson config) (at_name tool) message)))))
              (\<lambda>_. ret None)) w)"

section \<open>Preparation\<close>

record 'w prepared_call =
  pc_toolCall :: tool_call
  pc_tool :: "'w agent_tool"
  pc_args :: json

record executed_outcome =
  eo_result :: agent_tool_result
  eo_isError :: bool

datatype 'w preparation = Immediate agent_tool_result bool | Prepared "'w prepared_call"

record finalized_outcome =
  fo_toolCall :: tool_call
  fo_result :: agent_tool_result
  fo_isError :: bool

definition createErrorToolResult :: "jsstring \<Rightarrow> agent_tool_result" where
  "createErrorToolResult m =
     \<lparr>atr_content = [TextBlock m None], atr_details = Some (JObj []), atr_terminate = None\<rparr>"

definition prepareToolCallArguments :: "'w agent_tool \<Rightarrow> tool_call \<Rightarrow> jsstring + tool_call" where
  "prepareToolCallArguments tool toolCall =
     (case at_prepareArguments tool of
        None \<Rightarrow> Inr toolCall
      | Some f \<Rightarrow> map_sum id (\<lambda>a. toolCall\<lparr>tc_arguments := a\<rparr>) (f (tc_arguments toolCall)))"

text \<open>The prepared call and its validated arguments, after at most one repair.\<close>

definition validated_call ::
    "'w agent_config \<Rightarrow> 'w agent_tool \<Rightarrow> tool_call \<Rightarrow> ('w, tool_call \<times> json) eff" where
  "validated_call config tool toolCall =
     (case cf_validate config tool toolCall of
        Inr args \<Rightarrow> ret (toolCall, args)
      | Inl err \<Rightarrow>
          bind_eff (repairToolCallArguments config tool toolCall err) (\<lambda>repaired.
            case repaired of
              None \<Rightarrow> throw err
            | Some a \<Rightarrow>
                (let toolCall' = toolCall\<lparr>tc_arguments := a\<rparr>
                 in bind_eff (lift_result (cf_validate config tool toolCall'))
                      (\<lambda>args. ret (toolCall', args)))))"

text \<open>The reason of a block, when the hook blocks the call.\<close>

definition blocked_reason :: "before_result option \<Rightarrow> jsstring option" where
  "blocked_reason before =
     (case before of
        Some b \<Rightarrow>
          (if bf_block b
           then Some (case bf_reason b of Some (u # us) \<Rightarrow> u # us | _ \<Rightarrow> js ''Tool execution was blocked'')
           else None)
      | None \<Rightarrow> None)"

definition ask_before ::
    "'w agent_config \<Rightarrow> assistant_message \<Rightarrow> tool_call \<Rightarrow> json \<Rightarrow> agent_message list
     \<Rightarrow> ('w, jsstring option) eff" where
  "ask_before config assistantMessage call args messages =
     (case cf_beforeToolCall config of
        None \<Rightarrow> ret None
      | Some hook \<Rightarrow>
          bind_eff
            (hook \<lparr>hc_assistantMessage = assistantMessage, hc_toolCall = call, hc_args = args,
                   hc_messages = messages\<rparr>)
            (\<lambda>before. ret (blocked_reason before)))"

definition try_prepare ::
    "'w agent_config \<Rightarrow> 'w agent_tool \<Rightarrow> assistant_message \<Rightarrow> tool_call \<Rightarrow> agent_message list
     \<Rightarrow> ('w, 'w preparation) eff" where
  "try_prepare config tool assistantMessage toolCall messages =
     bind_eff (lift_result (prepareToolCallArguments tool toolCall)) (\<lambda>prepared.
     bind_eff (validated_call config tool prepared) (\<lambda>(call, args).
     bind_eff (ask_before config assistantMessage call args messages) (\<lambda>blocked.
       case blocked of
         Some reason \<Rightarrow> ret (Immediate (createErrorToolResult reason) True)
       | None \<Rightarrow> ret (Prepared \<lparr>pc_toolCall = call, pc_tool = tool, pc_args = args\<rparr>))))"

definition prepareToolCall ::
    "'w agent_context \<Rightarrow> 'w agent_config \<Rightarrow> assistant_message \<Rightarrow> tool_call \<Rightarrow> agent_message list
     \<Rightarrow> ('w, 'w preparation) eff" where
  "prepareToolCall ctx config assistantMessage toolCall messages =
     (case Option.bind (ac_tools ctx) (find (\<lambda>t. at_name t = tc_name toolCall)) of
        None \<Rightarrow> ret (Immediate (createErrorToolResult (js ''Tool '' @ tc_name toolCall @ js '' not found'')) True)
      | Some tool \<Rightarrow>
          catch_eff (try_prepare config tool assistantMessage toolCall messages)
            (\<lambda>m. ret (Immediate (createErrorToolResult m) True)))"

section \<open>Execution\<close>

text \<open>Update events are given to the sink as they occur; the first failure is raised at the end.\<close>

definition note_failure :: "jsstring option \<Rightarrow> jsstring + unit \<Rightarrow> jsstring option" where
  "note_failure err r = (case err of Some e \<Rightarrow> Some e | None \<Rightarrow> (case r of Inl e \<Rightarrow> Some e | Inr _ \<Rightarrow> None))"

definition settle :: "jsstring option \<Rightarrow> executed_outcome \<Rightarrow> ('w, executed_outcome) loop_eff" where
  "settle err outcome = (case err of Some e \<Rightarrow> throw e | None \<Rightarrow> ret outcome)"

definition update_event :: "'w prepared_call \<Rightarrow> agent_tool_result \<Rightarrow> agent_event" where
  "update_event p r =
     ToolExecutionUpdate (tc_id (pc_toolCall p)) (tc_name (pc_toolCall p)) (tc_arguments (pc_toolCall p)) r"

primrec run_tool ::
    "'w agent_config \<Rightarrow> 'w prepared_call \<Rightarrow> 'w tool_run \<Rightarrow> jsstring option \<Rightarrow> ('w, executed_outcome) loop_eff" where
  "run_tool config p (Finish r) = (\<lambda>err. settle err \<lparr>eo_result = r, eo_isError = False\<rparr>)"
| "run_tool config p (Fail m) = (\<lambda>err. settle err \<lparr>eo_result = createErrorToolResult m, eo_isError = True\<rparr>)"
| "run_tool config p (Update r k) =
     (\<lambda>err s. case emit config (update_event p r) s of (e, s') \<Rightarrow> run_tool config p k (note_failure err e) s')"
| "run_tool config p (Step u k) =
     (\<lambda>err s. run_tool config p (k (ls_world s)) err (s\<lparr>ls_world := u (ls_world s)\<rparr>))"

definition start_tool :: "'w prepared_call \<Rightarrow> 'w \<Rightarrow> 'w tool_run" where
  "start_tool p w = at_execute (pc_tool p) (tc_id (pc_toolCall p)) (pc_args p) w"

definition executePreparedToolCall ::
    "'w agent_config \<Rightarrow> 'w prepared_call \<Rightarrow> ('w, executed_outcome) loop_eff" where
  "executePreparedToolCall config p = (\<lambda>s. run_tool config p (start_tool p (ls_world s)) None s)"

definition apply_after :: "after_result option \<Rightarrow> executed_outcome \<Rightarrow> executed_outcome" where
  "apply_after after e =
     (case after of
        None \<Rightarrow> e
      | Some a \<Rightarrow>
          (let r = eo_result e;
               or_old = (\<lambda>new old. case new of Some x \<Rightarrow> x | None \<Rightarrow> old)
           in \<lparr>eo_result =
                 \<lparr>atr_content = or_old (af_content a) (atr_content r),
                  atr_details = (case af_details a of Some d \<Rightarrow> Some d | None \<Rightarrow> atr_details r),
                  atr_terminate = (case af_terminate a of Some t \<Rightarrow> Some t | None \<Rightarrow> atr_terminate r)\<rparr>,
               eo_isError = (case af_isError a of Some b \<Rightarrow> b | None \<Rightarrow> eo_isError e)\<rparr>))"

definition finalizeExecutedToolCall ::
    "'w agent_config \<Rightarrow> assistant_message \<Rightarrow> 'w prepared_call \<Rightarrow> executed_outcome
     \<Rightarrow> ('w, finalized_outcome) loop_eff" where
  "finalizeExecutedToolCall config assistantMessage p executed =
     bind_eff get_messages (\<lambda>messages.
     bind_eff
       (case cf_afterToolCall config of
          None \<Rightarrow> ret executed
        | Some hook \<Rightarrow>
            catch_eff
              (bind_eff
                (on_world (hook \<lparr>hc_assistantMessage = assistantMessage, hc_toolCall = pc_toolCall p,
                                 hc_args = pc_args p, hc_messages = messages\<rparr>
                             (eo_result executed) (eo_isError executed)))
                (\<lambda>after. ret (apply_after after executed)))
              (\<lambda>m. ret \<lparr>eo_result = createErrorToolResult m, eo_isError = True\<rparr>))
       (\<lambda>e. ret \<lparr>fo_toolCall = pc_toolCall p, fo_result = eo_result e, fo_isError = eo_isError e\<rparr>))"

definition emitToolExecutionEnd :: "'w agent_config \<Rightarrow> finalized_outcome \<Rightarrow> ('w, unit) loop_eff" where
  "emitToolExecutionEnd config f =
     emit config (ToolExecutionEnd (tc_id (fo_toolCall f)) (tc_name (fo_toolCall f)) (fo_result f) (fo_isError f))"

definition createToolResultMessage ::
    "'w agent_config \<Rightarrow> finalized_outcome \<Rightarrow> ('w, tool_result_message) loop_eff" where
  "createToolResultMessage config f =
     bind_eff (on_world (cf_now config)) (\<lambda>now.
       ret \<lparr>tr_toolCallId = tc_id (fo_toolCall f), tr_toolName = tc_name (fo_toolCall f),
            tr_content = atr_content (fo_result f), tr_details = atr_details (fo_result f),
            tr_isError = fo_isError f, tr_timestamp = now\<rparr>)"

definition emitToolResultMessage :: "'w agent_config \<Rightarrow> tool_result_message \<Rightarrow> ('w, unit) loop_eff" where
  "emitToolResultMessage config m =
     bind_eff (emit config (MessageStart (ToolResult m))) (\<lambda>_. emit config (MessageEnd (ToolResult m)))"

definition shouldTerminateToolBatch :: "finalized_outcome list \<Rightarrow> bool" where
  "shouldTerminateToolBatch fs \<longleftrightarrow> fs \<noteq> [] \<and> (\<forall>f \<in> set fs. atr_terminate (fo_result f) = Some True)"

definition start_call ::
    "'w agent_context \<Rightarrow> 'w agent_config \<Rightarrow> assistant_message \<Rightarrow> tool_call \<Rightarrow> ('w, 'w preparation) loop_eff" where
  "start_call ctx config assistantMessage tc =
     bind_eff (emit config (ToolExecutionStart (tc_id tc) (tc_name tc) (tc_arguments tc))) (\<lambda>_.
     bind_eff get_messages (\<lambda>messages.
       on_world (prepareToolCall ctx config assistantMessage tc messages)))"

section \<open>Sequential batches\<close>

primrec sequential_calls ::
    "'w agent_context \<Rightarrow> 'w agent_config \<Rightarrow> assistant_message \<Rightarrow> tool_call list
     \<Rightarrow> ('w, (finalized_outcome \<times> tool_result_message) list) loop_eff" where
  "sequential_calls ctx config am [] = ret []"
| "sequential_calls ctx config am (tc # tcs) =
     bind_eff (start_call ctx config am tc) (\<lambda>preparation.
     bind_eff
       (case preparation of
          Immediate r isError \<Rightarrow> ret \<lparr>fo_toolCall = tc, fo_result = r, fo_isError = isError\<rparr>
        | Prepared p \<Rightarrow>
            bind_eff (executePreparedToolCall config p) (finalizeExecutedToolCall config am p))
       (\<lambda>finalized.
     bind_eff (emitToolExecutionEnd config finalized) (\<lambda>_.
     bind_eff (createToolResultMessage config finalized) (\<lambda>m.
     bind_eff (emitToolResultMessage config m) (\<lambda>_.
     bind_eff (sequential_calls ctx config am tcs) (\<lambda>rest. ret ((finalized, m) # rest)))))))"

definition executeToolCallsSequential ::
    "'w agent_context \<Rightarrow> 'w agent_config \<Rightarrow> assistant_message \<Rightarrow> tool_call list
     \<Rightarrow> ('w, tool_result_message list \<times> bool) loop_eff" where
  "executeToolCallsSequential ctx config am tcs =
     bind_eff (sequential_calls ctx config am tcs)
       (\<lambda>rs. ret (map snd rs, shouldTerminateToolBatch (map fst rs)))"

section \<open>Parallel batches\<close>

datatype 'w slot =
    Running "'w prepared_call" "'w tool_run" "jsstring option"
  | Executed "'w prepared_call" executed_outcome
  | Finalized finalized_outcome
  | DoneSlot finalized_outcome

text \<open>The preflight: calls are started in order, an immediate outcome ends at once.\<close>

primrec preflight ::
    "'w agent_context \<Rightarrow> 'w agent_config \<Rightarrow> assistant_message \<Rightarrow> tool_call list
     \<Rightarrow> ('w, ('w prepared_call + finalized_outcome) list) loop_eff" where
  "preflight ctx config am [] = ret []"
| "preflight ctx config am (tc # tcs) =
     bind_eff (start_call ctx config am tc) (\<lambda>preparation.
     bind_eff
       (case preparation of
          Immediate r isError \<Rightarrow>
            (let f = \<lparr>fo_toolCall = tc, fo_result = r, fo_isError = isError\<rparr>
             in bind_eff (emitToolExecutionEnd config f) (\<lambda>_. ret (Inr f)))
        | Prepared p \<Rightarrow> ret (Inl p))
       (\<lambda>entry. bind_eff (preflight ctx config am tcs) (\<lambda>rest. ret (entry # rest))))"

text \<open>The calls of \<open>entry()\<close> in order: each tool starts before any is awaited.\<close>

fun start_slots :: "('w prepared_call + finalized_outcome) list \<Rightarrow> 'w \<Rightarrow> 'w slot list" where
  "start_slots [] w = []"
| "start_slots (Inl p # es) w = Running p (start_tool p w) None # start_slots es w"
| "start_slots (Inr f # es) w = DoneSlot f # start_slots es w"

fun slot_step :: "'w agent_config \<Rightarrow> assistant_message \<Rightarrow> 'w slot \<Rightarrow> ('w, 'w slot) loop_eff" where
  "slot_step config am (Running p (Finish r) err) =
     bind_eff (settle err \<lparr>eo_result = r, eo_isError = False\<rparr>) (\<lambda>e. ret (Executed p e))"
| "slot_step config am (Running p (Fail m) err) =
     bind_eff (settle err \<lparr>eo_result = createErrorToolResult m, eo_isError = True\<rparr>) (\<lambda>e. ret (Executed p e))"
| "slot_step config am (Running p (Update r k) err) =
     (\<lambda>s. case emit config (update_event p r) s of (e, s') \<Rightarrow> (Inr (Running p k (note_failure err e)), s'))"
| "slot_step config am (Running p (Step u k) err) =
     (\<lambda>s. (Inr (Running p (k (ls_world s)) err), s\<lparr>ls_world := u (ls_world s)\<rparr>))"
| "slot_step config am (Executed p e) =
     bind_eff (finalizeExecutedToolCall config am p e) (\<lambda>f. ret (Finalized f))"
| "slot_step config am (Finalized f) = bind_eff (emitToolExecutionEnd config f) (\<lambda>_. ret (DoneSlot f))"
| "slot_step config am (DoneSlot f) = ret (DoneSlot f)"

primrec scheduled ::
    "'w agent_config \<Rightarrow> assistant_message \<Rightarrow> nat list \<Rightarrow> 'w slot list \<Rightarrow> ('w, 'w slot list) loop_eff" where
  "scheduled config am [] slots = ret slots"
| "scheduled config am (i # rest) slots =
     (if i < length slots
      then bind_eff (slot_step config am (slots ! i)) (\<lambda>s'. scheduled config am rest (slots[i := s']))
      else scheduled config am rest slots)"

fun complete_slot :: "'w agent_config \<Rightarrow> assistant_message \<Rightarrow> 'w slot \<Rightarrow> ('w, finalized_outcome) loop_eff" where
  "complete_slot config am (Running p k err) =
     bind_eff (run_tool config p k err) (\<lambda>e.
     bind_eff (finalizeExecutedToolCall config am p e) (\<lambda>f.
     bind_eff (emitToolExecutionEnd config f) (\<lambda>_. ret f)))"
| "complete_slot config am (Executed p e) =
     bind_eff (finalizeExecutedToolCall config am p e) (\<lambda>f.
     bind_eff (emitToolExecutionEnd config f) (\<lambda>_. ret f))"
| "complete_slot config am (Finalized f) = bind_eff (emitToolExecutionEnd config f) (\<lambda>_. ret f)"
| "complete_slot config am (DoneSlot f) = ret f"

primrec complete_slots ::
    "'w agent_config \<Rightarrow> assistant_message \<Rightarrow> 'w slot list \<Rightarrow> ('w, finalized_outcome list) loop_eff" where
  "complete_slots config am [] = ret []"
| "complete_slots config am (sl # sls) =
     bind_eff (complete_slot config am sl) (\<lambda>f.
     bind_eff (complete_slots config am sls) (\<lambda>fs. ret (f # fs)))"

primrec emit_results ::
    "'w agent_config \<Rightarrow> finalized_outcome list \<Rightarrow> ('w, tool_result_message list) loop_eff" where
  "emit_results config [] = ret []"
| "emit_results config (f # fs) =
     bind_eff (createToolResultMessage config f) (\<lambda>m.
     bind_eff (emitToolResultMessage config m) (\<lambda>_.
     bind_eff (emit_results config fs) (\<lambda>ms. ret (m # ms))))"

definition executeToolCallsParallel ::
    "'w agent_context \<Rightarrow> 'w agent_config \<Rightarrow> nat list \<Rightarrow> assistant_message \<Rightarrow> tool_call list
     \<Rightarrow> ('w, tool_result_message list \<times> bool) loop_eff" where
  "executeToolCallsParallel ctx config schedule am tcs =
     bind_eff (preflight ctx config am tcs) (\<lambda>entries.
     bind_eff (\<lambda>s. scheduled config am schedule (start_slots entries (ls_world s)) s) (\<lambda>slots.
     bind_eff (complete_slots config am slots) (\<lambda>fs.
     bind_eff (emit_results config fs) (\<lambda>ms. ret (ms, shouldTerminateToolBatch fs)))))"

definition executeToolCalls ::
    "'w agent_context \<Rightarrow> 'w agent_config \<Rightarrow> nat list \<Rightarrow> assistant_message
     \<Rightarrow> ('w, tool_result_message list \<times> bool) loop_eff" where
  "executeToolCalls ctx config schedule am =
     (let toolCalls = tool_calls_of (am_content am);
          tool_of = (\<lambda>tc. Option.bind (ac_tools ctx) (find (\<lambda>t. at_name t = tc_name tc)));
          hasSequential =
            (\<exists>tc \<in> set toolCalls. Option.bind (tool_of tc) at_executionMode = Some Sequential)
      in if cf_toolExecution config = Some Sequential \<or> hasSequential
         then executeToolCallsSequential ctx config am toolCalls
         else executeToolCallsParallel ctx config schedule am toolCalls)"

end
