(* ===== verification/Agent_Run.thy ===== *)
theory Agent_Run
  imports Agent_Tools
begin

text \<open>
  The turn loop of \<open>packages/agent/src/agent-loop.ts\<close>: streaming a response, one turn, the two
  nested loops as one recursion with fuel, and the entry points with their event stream.

  \<^item> \<open>run_turns\<close> spends one unit of fuel per turn and per poll of the follow-up queue; \<open>None\<close>
    means that the fuel was not enough. \<open>hasMoreToolCalls\<close> and \<open>pendingMessages\<close> are the
    arguments of the same names: the inner loop runs while one of them holds.
  \<^item> \<open>schedules n\<close> is the schedule of the tool batch of turn \<open>n\<close>.
\<close>

section \<open>Streaming a response\<close>

definition add_final :: "bool \<Rightarrow> assistant_message \<Rightarrow> ('w, unit) loop_eff" where
  "add_final addedPartial m =
     (if addedPartial then set_last_message (Assistant m) else push_message (Assistant m))"

definition finish_response ::
    "'w agent_config \<Rightarrow> bool \<Rightarrow> assistant_message \<Rightarrow> ('w, assistant_message) loop_eff" where
  "finish_response config addedPartial m =
     bind_eff (add_final addedPartial m) (\<lambda>_.
     bind_eff (if addedPartial then ret () else emit config (MessageStart (Assistant m))) (\<lambda>_.
     bind_eff (emit config (MessageEnd (Assistant m))) (\<lambda>_. ret m)))"

text \<open>\<open>addedPartial\<close> and \<open>partialMessage\<close> become set together, by the start event.\<close>

fun consume ::
    "'w agent_config \<Rightarrow> assistant_message \<Rightarrow> bool \<Rightarrow> assistant_message_event list
     \<Rightarrow> ('w, assistant_message) loop_eff" where
  "consume config final addedPartial [] = finish_response config addedPartial final"
| "consume config final addedPartial (StartE m # es) =
     bind_eff (push_message (Assistant m)) (\<lambda>_.
     bind_eff (emit config (MessageStart (Assistant m))) (\<lambda>_. consume config final True es))"
| "consume config final addedPartial (DoneE r m # es) = finish_response config addedPartial final"
| "consume config final addedPartial (ErrorE r m # es) = finish_response config addedPartial final"
| "consume config final addedPartial (e # es) =
     (case update_partial e of
        Some m \<Rightarrow>
          (if addedPartial
           then bind_eff (set_last_message (Assistant m)) (\<lambda>_.
                bind_eff (emit config (MessageUpdate (Assistant m) e)) (\<lambda>_.
                  consume config final addedPartial es))
           else consume config final addedPartial es)
      | None \<Rightarrow> consume config final addedPartial es)"

definition request_response ::
    "'w agent_context \<Rightarrow> 'w agent_config \<Rightarrow> agent_message list \<Rightarrow> ('w, stream_response) eff" where
  "request_response ctx config context_messages =
     bind_eff (case cf_transformContext config of Some f \<Rightarrow> f context_messages | None \<Rightarrow> ret context_messages)
       (\<lambda>messages.
     bind_eff (cf_convertToLlm config messages) (\<lambda>llmMessages.
     bind_eff (resolve_api_key config) (\<lambda>apiKey.
       cf_stream config \<lparr>sq_model = cf_model config, sq_systemPrompt = ac_systemPrompt ctx,
         sq_messages = llmMessages, sq_tools = ac_tools ctx, sq_apiKey = apiKey,
         sq_temperature = None, sq_maxTokens = cf_maxTokens config\<rparr>)))"

definition streamAssistantResponse ::
    "'w agent_context \<Rightarrow> 'w agent_config \<Rightarrow> ('w, assistant_message) loop_eff" where
  "streamAssistantResponse ctx config =
     bind_eff get_messages (\<lambda>messages.
     bind_eff (on_world (request_response ctx config messages)) (\<lambda>response.
       consume config (sr_result response) False (sr_events response)))"

section \<open>One turn\<close>

definition inject :: "'w agent_config \<Rightarrow> agent_message \<Rightarrow> ('w, unit) loop_eff" where
  "inject config m =
     bind_eff (emit config (MessageStart m)) (\<lambda>_.
     bind_eff (emit config (MessageEnd m)) (\<lambda>_.
     bind_eff (push_message m) (\<lambda>_. push_new m)))"

definition add_result :: "tool_result_message \<Rightarrow> ('w, unit) loop_eff" where
  "add_result m = bind_eff (push_message (ToolResult m)) (\<lambda>_. push_new (ToolResult m))"

definition end_run :: "'w agent_config \<Rightarrow> ('w, unit) loop_eff" where
  "end_run config = (\<lambda>s. emit config (AgentEnd (ls_newMessages s)) s)"

definition poll :: "('w, agent_message list) eff option \<Rightarrow> ('w, agent_message list) loop_eff" where
  "poll f = (case f of Some g \<Rightarrow> on_world g | None \<Rightarrow> ret [])"

datatype turn_result = Stopped | Continue bool "agent_message list"

definition ask_stop ::
    "'w agent_config \<Rightarrow> assistant_message \<Rightarrow> tool_result_message list \<Rightarrow> ('w, bool) loop_eff" where
  "ask_stop config m toolResults =
     (case cf_shouldStopAfterTurn config of
        None \<Rightarrow> ret False
      | Some f \<Rightarrow>
          (\<lambda>s. on_world (f \<lparr>st_message = m, st_toolResults = toolResults, st_messages = ls_messages s,
                            st_newMessages = ls_newMessages s\<rparr>) s))"

definition respond ::
    "'w agent_context \<Rightarrow> 'w agent_config \<Rightarrow> nat list \<Rightarrow> ('w, turn_result) loop_eff" where
  "respond ctx config schedule =
     bind_eff (streamAssistantResponse ctx config) (\<lambda>m.
     bind_eff (push_new (Assistant m)) (\<lambda>_.
       if am_stopReason m = ErrorR \<or> am_stopReason m = AbortedR
       then bind_eff (emit config (TurnEnd (Assistant m) [])) (\<lambda>_.
            bind_eff (end_run config) (\<lambda>_. ret Stopped))
       else
         bind_eff
           (if tool_calls_of (am_content m) \<noteq> [] then executeToolCalls ctx config schedule m
            else ret ([], True))
           (\<lambda>(toolResults, terminate).
         bind_eff (each_eff add_result toolResults) (\<lambda>_.
         bind_eff (emit config (TurnEnd (Assistant m) toolResults)) (\<lambda>_.
         bind_eff (ask_stop config m toolResults) (\<lambda>stop.
           if stop then bind_eff (end_run config) (\<lambda>_. ret Stopped)
           else
             bind_eff (poll (cf_getSteeringMessages config)) (\<lambda>pendingMessages.
               ret (Continue (\<not> terminate) pendingMessages))))))))"

definition turn ::
    "'w agent_context \<Rightarrow> 'w agent_config \<Rightarrow> nat list \<Rightarrow> bool \<Rightarrow> agent_message list
     \<Rightarrow> ('w, turn_result) loop_eff" where
  "turn ctx config schedule firstTurn pendingMessages =
     bind_eff (if firstTurn then ret () else emit config TurnStart) (\<lambda>_.
     bind_eff (each_eff (inject config) pendingMessages) (\<lambda>_.
       respond ctx config schedule))"

section \<open>The loop\<close>

fun run_turns ::
    "'w agent_context \<Rightarrow> 'w agent_config \<Rightarrow> (nat \<Rightarrow> nat list) \<Rightarrow> nat \<Rightarrow> bool \<Rightarrow> bool \<Rightarrow> agent_message list
     \<Rightarrow> 'w loop_state \<Rightarrow> ((jsstring + unit) \<times> 'w loop_state) option" where
  "run_turns ctx config schedules 0 firstTurn hasMoreToolCalls pendingMessages s = None"
| "run_turns ctx config schedules (Suc n) firstTurn hasMoreToolCalls pendingMessages s =
     (if hasMoreToolCalls \<or> pendingMessages \<noteq> []
      then (case turn ctx config (schedules 0) firstTurn pendingMessages s of
              (Inl e, s') \<Rightarrow> Some (Inl e, s')
            | (Inr Stopped, s') \<Rightarrow> Some (Inr (), s')
            | (Inr (Continue hasMore pending), s') \<Rightarrow>
                run_turns ctx config (\<lambda>i. schedules (Suc i)) n False hasMore pending s')
      else (case poll (cf_getFollowUpMessages config) s of
              (Inl e, s') \<Rightarrow> Some (Inl e, s')
            | (Inr followUpMessages, s') \<Rightarrow>
                (if followUpMessages \<noteq> []
                 then run_turns ctx config schedules n firstTurn True followUpMessages s'
                 else Some (end_run config s'))))"

definition runLoop ::
    "'w agent_context \<Rightarrow> 'w agent_config \<Rightarrow> (nat \<Rightarrow> nat list) \<Rightarrow> nat \<Rightarrow> 'w loop_state
     \<Rightarrow> ((jsstring + unit) \<times> 'w loop_state) option" where
  "runLoop ctx config schedules fuel s =
     (case poll (cf_getSteeringMessages config) s of
        (Inl e, s') \<Rightarrow> Some (Inl e, s')
      | (Inr pendingMessages, s') \<Rightarrow> run_turns ctx config schedules fuel True True pendingMessages s')"

definition announce :: "'w agent_config \<Rightarrow> agent_message \<Rightarrow> ('w, unit) loop_eff" where
  "announce config m =
     bind_eff (emit config (MessageStart m)) (\<lambda>_. emit config (MessageEnd m))"

text \<open>The result is the new messages, or the error the run rejects with.\<close>

definition run_result ::
    "((jsstring + unit) \<times> 'w loop_state) option \<Rightarrow> ((jsstring + agent_message list) \<times> 'w loop_state) option" where
  "run_result r = map_option (\<lambda>(x, s). (map_sum id (\<lambda>_. ls_newMessages s) x, s)) r"

definition runAgentLoop ::
    "agent_message list \<Rightarrow> agent_message list \<Rightarrow> 'w agent_context \<Rightarrow> 'w agent_config \<Rightarrow> (nat \<Rightarrow> nat list) \<Rightarrow> nat
     \<Rightarrow> 'w \<Rightarrow> ((jsstring + agent_message list) \<times> 'w loop_state) option" where
  "runAgentLoop prompts messages ctx config schedules fuel w =
     run_result
       (case bind_eff (emit config AgentStart) (\<lambda>_.
             bind_eff (emit config TurnStart) (\<lambda>_. each_eff (announce config) prompts))
             \<lparr>ls_messages = messages @ prompts, ls_newMessages = prompts, ls_trace = [], ls_world = w\<rparr> of
          (Inl e, s) \<Rightarrow> Some (Inl e, s)
        | (Inr _, s) \<Rightarrow> runLoop ctx config schedules fuel s)"

definition runAgentLoopContinue ::
    "agent_message list \<Rightarrow> 'w agent_context \<Rightarrow> 'w agent_config \<Rightarrow> (nat \<Rightarrow> nat list) \<Rightarrow> nat
     \<Rightarrow> 'w \<Rightarrow> ((jsstring + agent_message list) \<times> 'w loop_state) option" where
  "runAgentLoopContinue messages ctx config schedules fuel w =
     (let s0 = \<lparr>ls_messages = messages, ls_newMessages = [], ls_trace = [], ls_world = w\<rparr>
      in if messages = [] then Some (Inl (js ''Cannot continue: no messages in context''), s0)
         else if is_assistant (last messages)
         then Some (Inl (js ''Cannot continue from message role: assistant''), s0)
         else
           run_result
             (case bind_eff (emit config AgentStart) (\<lambda>_. emit config TurnStart) s0 of
                (Inl e, s) \<Rightarrow> Some (Inl e, s)
              | (Inr _, s) \<Rightarrow> runLoop ctx config schedules fuel s))"

section \<open>The stream of a run\<close>

text \<open>The functions \<open>createAgentStream\<close> gives to its event stream.\<close>

fun is_agent_end :: "agent_event \<Rightarrow> bool" where
  "is_agent_end (AgentEnd _) = True"
| "is_agent_end _ = False"

fun agent_end_messages :: "agent_event \<Rightarrow> agent_message list" where
  "agent_end_messages (AgentEnd ms) = ms"
| "agent_end_messages _ = []"

definition createAgentLoopErrorMessage :: "'w agent_config \<Rightarrow> jsstring \<Rightarrow> int \<Rightarrow> assistant_message" where
  "createAgentLoopErrorMessage config err now =
     \<lparr>am_content = [], am_api = mo_api (cf_model config), am_provider = mo_provider (cf_model config),
      am_model = mo_id (cf_model config), am_responseModel = None, am_responseId = None,
      am_diagnostics = None, am_usage = EMPTY_USAGE, am_stopReason = ErrorR,
      am_errorMessage = Some err, am_timestamp = now\<rparr>"

text \<open>
  What the stream of \<open>agentLoop\<close> and \<open>agentLoopContinue\<close> delivers, and its result. The sink
  of these runs only pushes to the stream, which never fails.
\<close>

definition endAgentStreamWithError ::
    "agent_message list \<Rightarrow> 'w agent_config \<Rightarrow> jsstring \<Rightarrow> int \<Rightarrow> agent_event list \<times> agent_message list" where
  "endAgentStreamWithError prefixMessages config err now =
     (let message = Assistant (createAgentLoopErrorMessage config err now);
          messages = prefixMessages @ [message]
      in ([MessageStart message, MessageEnd message, TurnEnd message [], AgentEnd messages], messages))"

definition stream_config :: "'w agent_config \<Rightarrow> 'w agent_config" where
  "stream_config config = config\<lparr>cf_emit := \<lambda>e. ret ()\<rparr>"

definition stream_of_run ::
    "agent_message list \<Rightarrow> 'w agent_config \<Rightarrow> int \<Rightarrow> (jsstring + agent_message list) \<times> 'w loop_state
     \<Rightarrow> agent_event list \<times> agent_message list" where
  "stream_of_run prefixMessages config now r =
     (case r of
        (Inr messages, s) \<Rightarrow> (ls_trace s, messages)
      | (Inl err, s) \<Rightarrow>
          (case endAgentStreamWithError prefixMessages config err now of
             (events, messages) \<Rightarrow> (ls_trace s @ events, messages)))"

definition agentLoop ::
    "agent_message list \<Rightarrow> agent_message list \<Rightarrow> 'w agent_context \<Rightarrow> 'w agent_config \<Rightarrow> (nat \<Rightarrow> nat list) \<Rightarrow> nat
     \<Rightarrow> 'w \<Rightarrow> int \<Rightarrow> (agent_event list \<times> agent_message list) option" where
  "agentLoop prompts messages ctx config schedules fuel w now =
     map_option (stream_of_run prompts config now)
       (runAgentLoop prompts messages ctx (stream_config config) schedules fuel w)"

definition agentLoopContinue ::
    "agent_message list \<Rightarrow> 'w agent_context \<Rightarrow> 'w agent_config \<Rightarrow> (nat \<Rightarrow> nat list) \<Rightarrow> nat \<Rightarrow> 'w \<Rightarrow> int
     \<Rightarrow> jsstring + (agent_event list \<times> agent_message list) option" where
  "agentLoopContinue messages ctx config schedules fuel w now =
     (if messages = [] then Inl (js ''Cannot continue: no messages in context'')
      else if is_assistant (last messages) then Inl (js ''Cannot continue from message role: assistant'')
      else Inr (map_option (stream_of_run [] config now)
             (runAgentLoopContinue messages ctx (stream_config config) schedules fuel w)))"

end
