(* ===== verification/Agent_Protocol.thy ===== *)
theory Agent_Protocol
  imports Agent_Run "HOL-Library.Multiset"
begin

text \<open>
  The event protocol of a run as an automaton, and what the operations on one tool call and the
  sequential batch add to the messages and the trace (\<open>moved\<close>).
\<close>

section \<open>The event protocol\<close>

datatype phase = P_Init | P_Idle | P_Turn "jsstring multiset" | P_Message | P_Ended

fun phase_step :: "phase \<Rightarrow> agent_event \<Rightarrow> phase option" where
  "phase_step P_Init AgentStart = Some P_Idle"
| "phase_step P_Idle TurnStart = Some (P_Turn {#})"
| "phase_step P_Idle (AgentEnd ms) = Some P_Ended"
| "phase_step (P_Turn M) (MessageStart m) = (if M = {#} then Some P_Message else None)"
| "phase_step P_Message (MessageUpdate m e) = Some P_Message"
| "phase_step P_Message (MessageEnd m) = Some (P_Turn {#})"
| "phase_step (P_Turn M) (ToolExecutionStart i n a) = Some (P_Turn (add_mset i M))"
| "phase_step (P_Turn M) (ToolExecutionUpdate i n a r) = (if i \<in># M then Some (P_Turn M) else None)"
| "phase_step (P_Turn M) (ToolExecutionEnd i n r b) = (if i \<in># M then Some (P_Turn (M - {#i#})) else None)"
| "phase_step (P_Turn M) (TurnEnd m rs) = (if M = {#} then Some P_Idle else None)"
| "phase_step _ _ = None"

primrec phases :: "phase \<Rightarrow> agent_event list \<Rightarrow> phase option" where
  "phases p [] = Some p"
| "phases p (e # es) = Option.bind (phase_step p e) (\<lambda>p'. phases p' es)"

lemma phases_append: "phases p (xs @ ys) = Option.bind (phases p xs) (\<lambda>p'. phases p' ys)"
  by (induction xs arbitrary: p) (auto split: Option.bind_splits)

lemma phases_trans: "phases p xs = Some q \<Longrightarrow> phases q ys = Some r \<Longrightarrow> phases p (xs @ ys) = Some r"
  by (simp add: phases_append)

fun ended_message :: "agent_event \<Rightarrow> agent_message option" where
  "ended_message (MessageEnd m) = Some m"
| "ended_message _ = None"

definition ended :: "agent_event list \<Rightarrow> agent_message list" where
  "ended tr = List.map_filter ended_message tr"

lemma ended_simps [simp]:
  "ended [] = []" "ended (e # es) = (case ended_message e of None \<Rightarrow> [] | Some m \<Rightarrow> [m]) @ ended es"
  "ended (xs @ ys) = ended xs @ ended ys"
  by (simp_all add: ended_def map_filter_append map_filter_Cons split: option.split)

section \<open>What the operations change\<close>

text \<open>\<open>moved s s' d tr\<close>: from \<open>s\<close> to \<open>s'\<close> the messages grew by \<open>d\<close> and the trace by \<open>tr\<close>.\<close>

definition moved :: "'w loop_state \<Rightarrow> 'w loop_state \<Rightarrow> agent_message list \<Rightarrow> agent_message list \<Rightarrow> agent_event list \<Rightarrow> bool" where
  "moved s s' d n tr \<longleftrightarrow> ls_messages s' = ls_messages s @ d \<and> ls_newMessages s' = ls_newMessages s @ n
     \<and> ls_trace s' = ls_trace s @ tr"

lemma moved_refl [simp]: "moved s s [] [] []"
  by (simp add: moved_def)

lemma moved_trans:
  "moved s t d n tr \<Longrightarrow> moved t u d' n' tr' \<Longrightarrow> moved s u (d @ d') (n @ n') (tr @ tr')"
  by (simp add: moved_def)

lemma moved_on_world: "on_world f s = (r, s') \<Longrightarrow> moved s s' [] [] []"
  by (auto simp: on_world_def moved_def split: prod.splits)

lemma on_world_Inr: "on_world f s = (Inr a, s') \<Longrightarrow> \<exists>w'. f (ls_world s) = (Inr a, w')"
  by (auto simp: on_world_def split: prod.splits)

lemma moved_emit: "emit c e s = (r, s') \<Longrightarrow> moved s s' [] [] [e]"
  unfolding emit_def by (drule moved_on_world) (simp add: moved_def)

lemma get_messages_Inr [eff_simps]: "get_messages s = (Inr a, s') \<longleftrightarrow> a = ls_messages s \<and> s' = s"
  by (auto simp: get_messages_def)

lemma push_message_Inr [eff_simps]:
  "push_message m s = (Inr u, s') \<longleftrightarrow> s' = s\<lparr>ls_messages := ls_messages s @ [m]\<rparr>"
  "push_new m s = (Inr u, s') \<longleftrightarrow> s' = s\<lparr>ls_newMessages := ls_newMessages s @ [m]\<rparr>"
  "set_last_message m s = (Inr u, s') \<longleftrightarrow> s' = s\<lparr>ls_messages := butlast (ls_messages s) @ [m]\<rparr>"
  by (auto simp: push_message_def push_new_def set_last_message_def)

lemma lift_result_Inr [eff_simps]: "lift_result r w = (Inr a, w') \<longleftrightarrow> r = Inr a \<and> w' = w"
  by (auto simp: lift_result_def)

lemma catch_eff_Inr:
  "catch_eff f h w = (Inr a, w') \<Longrightarrow> f w = (Inr a, w') \<or> (\<exists>m w1. f w = (Inl m, w1) \<and> h m w1 = (Inr a, w'))"
  by (auto simp: catch_eff_def split: prod.splits sum.splits)

section \<open>One tool call\<close>

definition call_key :: "tool_call \<Rightarrow> jsstring \<times> jsstring" where
  "call_key tc = (tc_id tc, tc_name tc)"

definition updates_of :: "'w prepared_call \<Rightarrow> agent_event list \<Rightarrow> bool" where
  "updates_of p tr \<longleftrightarrow> (\<forall>e \<in> set tr. \<exists>r. e = update_event p r)"

lemma updates_ended: "updates_of p tr \<Longrightarrow> ended tr = []"
  by (induction tr) (auto simp: updates_of_def update_event_def)

lemma updates_phases: "updates_of p tr \<Longrightarrow> tc_id (pc_toolCall p) \<in># M \<Longrightarrow> phases (P_Turn M) tr = Some (P_Turn M)"
  by (induction tr) (auto simp: updates_of_def update_event_def)

lemma run_tool_moved:
  "run_tool c p k err s = (r, s') \<Longrightarrow> \<exists>tr. moved s s' [] [] tr \<and> updates_of p tr"
proof (induction k arbitrary: err s)
  case (Update x k)
  obtain e s1 where em: "emit c (update_event p x) s = (e, s1)" by fastforce
  with Update.prems have "run_tool c p k (note_failure err e) s1 = (r, s')" by simp
  from Update.IH [OF this] obtain tr where tr: "moved s1 s' [] [] tr" "updates_of p tr" by blast
  have "moved s s' ([] @ []) ([] @ []) ([update_event p x] @ tr)"
    by (rule moved_trans [OF moved_emit [OF em] tr(1)])
  with tr(2) show ?case by (intro exI [of _ "update_event p x # tr"]) (auto simp: updates_of_def)
next
  case (Step u k)
  from Step.prems have "run_tool c p (k (ls_world s)) err (s\<lparr>ls_world := u (ls_world s)\<rparr>) = (r, s')" by simp
  from Step.IH [OF rangeI this] show ?case by (auto simp: moved_def)
qed (auto simp: settle_def throw_def ret_def updates_of_def split: option.splits intro!: exI [of _ "[]"])

lemma executePrepared_moved:
  "executePreparedToolCall c p s = (r, s') \<Longrightarrow> \<exists>tr. moved s s' [] [] tr \<and> updates_of p tr"
  unfolding executePreparedToolCall_def by (rule run_tool_moved)

lemma finalize_moved:
  assumes "finalizeExecutedToolCall c am p e s = (r, s')"
  shows "moved s s' [] [] []" "\<exists>f. r = Inr f \<and> fo_toolCall f = pc_toolCall p"
proof -
  show "moved s s' [] [] []"
    using assms by (auto simp: finalizeExecutedToolCall_def bind_eff_def get_messages_def ret_def catch_eff_def
        moved_on_world split: option.splits prod.splits sum.splits dest: moved_on_world)
  show "\<exists>f. r = Inr f \<and> fo_toolCall f = pc_toolCall p"
    using assms by (auto simp: finalizeExecutedToolCall_def bind_eff_def get_messages_def ret_def catch_eff_def
        split: option.splits prod.splits sum.splits)
qed

lemma validated_call_key:
  "validated_call c tool tc w = (Inr (tc', args), w') \<Longrightarrow> call_key tc' = call_key tc"
  by (auto simp: validated_call_def eff_simps call_key_def Let_def split: sum.splits option.splits)

lemma try_prepare_key:
  assumes "try_prepare c tool am tc ms w = (Inr (Prepared p), w')"
  shows "call_key (pc_toolCall p) = call_key tc"
proof -
  from assms obtain prepared args w1 where
    pre: "prepareToolCallArguments tool tc = Inr prepared"
    "validated_call c tool prepared w = (Inr (pc_toolCall p, args), w1)"
    by (auto simp: try_prepare_def eff_simps split: option.splits)
  have "call_key prepared = call_key tc"
    using pre(1) by (auto simp: prepareToolCallArguments_def call_key_def map_sum_def split: option.splits sum.splits)
  with validated_call_key [OF pre(2)] show ?thesis by simp
qed

lemma prepareToolCall_key:
  assumes "prepareToolCall ctx c am tc ms w = (Inr (Prepared p), w')"
  shows "call_key (pc_toolCall p) = call_key tc"
proof -
  from assms obtain tool where
    "catch_eff (try_prepare c tool am tc ms) (\<lambda>m. ret (Immediate (createErrorToolResult m) True)) w = (Inr (Prepared p), w')"
    by (auto simp: prepareToolCall_def ret_def split: option.splits)
  from catch_eff_Inr [OF this] show ?thesis using try_prepare_key by (auto simp: eff_simps)
qed

lemma start_call_moved:
  assumes "start_call ctx c am tc s = (Inr prep, s')"
  shows "moved s s' [] [] [ToolExecutionStart (tc_id tc) (tc_name tc) (tc_arguments tc)]"
    "prep = Prepared p \<Longrightarrow> call_key (pc_toolCall p) = call_key tc"
proof -
  from assms obtain s1 where s: "emit c (ToolExecutionStart (tc_id tc) (tc_name tc) (tc_arguments tc)) s = (Inr (), s1)"
    "on_world (prepareToolCall ctx c am tc (ls_messages s1)) s1 = (Inr prep, s')"
    by (auto simp: start_call_def eff_simps)
  from moved_trans [OF moved_emit [OF s(1)] moved_on_world [OF s(2)]]
  show "moved s s' [] [] [ToolExecutionStart (tc_id tc) (tc_name tc) (tc_arguments tc)]" by simp
  show "call_key (pc_toolCall p) = call_key tc" if "prep = Prepared p"
    using on_world_Inr [OF s(2)] unfolding that by (elim exE) (rule prepareToolCall_key)
qed

lemma create_result_moved:
  assumes "createToolResultMessage c f s = (Inr m, s')"
  shows "moved s s' [] [] []" "(tr_toolCallId m, tr_toolName m) = call_key (fo_toolCall f)"
  using assms by (auto simp: createToolResultMessage_def eff_simps call_key_def dest: moved_on_world)

lemma emit_result_moved:
  assumes "emitToolResultMessage c m s = (Inr u, s')"
  shows "moved s s' [] [] [MessageStart (ToolResult m), MessageEnd (ToolResult m)]"
proof -
  from assms obtain s1 where "emit c (MessageStart (ToolResult m)) s = (Inr (), s1)"
    "emit c (MessageEnd (ToolResult m)) s1 = (Inr u, s')"
    by (auto simp: emitToolResultMessage_def eff_simps)
  from moved_trans [OF moved_emit [OF this(1)] moved_emit [OF this(2)]] show ?thesis by simp
qed

lemma emit_end_moved:
  "emitToolExecutionEnd c f s = (r, s') \<Longrightarrow>
     moved s s' [] [] [ToolExecutionEnd (tc_id (fo_toolCall f)) (tc_name (fo_toolCall f)) (fo_result f) (fo_isError f)]"
  unfolding emitToolExecutionEnd_def by (rule moved_emit)


section \<open>Sequential batches\<close>

lemma sequential_calls_moved:
  "sequential_calls ctx c am tcs s = (Inr rs, s') \<Longrightarrow>
     \<exists>tr. moved s s' [] [] tr \<and> phases (P_Turn {#}) tr = Some (P_Turn {#})
       \<and> ended tr = map (\<lambda>r. ToolResult (snd r)) rs
       \<and> map (\<lambda>r. (tr_toolCallId (snd r), tr_toolName (snd r))) rs = map call_key tcs"
proof (induction tcs arbitrary: s rs)
  case Nil
  then show ?case by (auto simp: eff_simps intro!: exI [of _ "[]"])
next
  case (Cons tc tcs)
  from Cons.prems obtain prep s1 f s2 s3 m s4 s5 rest where run:
    "start_call ctx c am tc s = (Inr prep, s1)"
    "(case prep of Immediate r e \<Rightarrow> ret \<lparr>fo_toolCall = tc, fo_result = r, fo_isError = e\<rparr>
      | Prepared p \<Rightarrow> bind_eff (executePreparedToolCall c p) (finalizeExecutedToolCall c am p)) s1 = (Inr f, s2)"
    "emitToolExecutionEnd c f s2 = (Inr (), s3)" "createToolResultMessage c f s3 = (Inr m, s4)"
    "emitToolResultMessage c m s4 = (Inr (), s5)" "sequential_calls ctx c am tcs s5 = (Inr rest, s')"
    "rs = (f, m) # rest"
    by (auto simp: eff_simps)
  note start = start_call_moved [OF run(1)]
  obtain tr1 where mid: "moved s1 s2 [] [] tr1" "phases (P_Turn {#tc_id tc#}) tr1 = Some (P_Turn {#tc_id tc#})"
    "ended tr1 = []" "call_key (fo_toolCall f) = call_key tc"
  proof (cases prep)
    case (Immediate r e)
    with run(2) show ?thesis by (intro that [of "[]"]) (auto simp: eff_simps)
  next
    case (Prepared p)
    with run(2) obtain e t where ex: "executePreparedToolCall c p s1 = (Inr e, t)"
      "finalizeExecutedToolCall c am p e t = (Inr f, s2)" by (auto simp: eff_simps)
    from executePrepared_moved [OF ex(1)] obtain tr1 where tr1: "moved s1 t [] [] tr1" "updates_of p tr1" by blast
    have key: "call_key (pc_toolCall p) = call_key tc" by (rule start(2) [OF Prepared])
    note fin = finalize_moved [OF ex(2)]
    show ?thesis
    proof (rule that)
      show "moved s1 s2 [] [] tr1" using moved_trans [OF tr1(1) fin(1)] by simp
      show "phases (P_Turn {#tc_id tc#}) tr1 = Some (P_Turn {#tc_id tc#})"
        using key by (intro updates_phases [OF tr1(2)]) (simp add: call_key_def)
      show "ended tr1 = []" by (rule updates_ended [OF tr1(2)])
      show "call_key (fo_toolCall f) = call_key tc" using fin(2) key by auto
    qed
  qed
  from Cons.IH [OF run(6)] obtain tr2 where ih: "moved s5 s' [] [] tr2"
    "phases (P_Turn {#}) tr2 = Some (P_Turn {#})" "ended tr2 = map (\<lambda>r. ToolResult (snd r)) rest"
    "map (\<lambda>r. (tr_toolCallId (snd r), tr_toolName (snd r))) rest = map call_key tcs" by blast
  note mv = moved_trans [OF start(1) moved_trans [OF mid(1) moved_trans [OF emit_end_moved [OF run(3)]
      moved_trans [OF create_result_moved(1) [OF run(4)] moved_trans [OF emit_result_moved [OF run(5)] ih(1)]]]]]
  show ?case
    using mv mid ih create_result_moved(2) [OF run(4)] unfolding run(7)
    by (intro exI conjI) (assumption | simp add: phases_append call_key_def)+
qed

end
