(* ===== verification/Agent_Batches.thy ===== *)
theory Agent_Batches
  imports Agent_Protocol
begin

text \<open>
  What a parallel batch adds to the trace, for every schedule: the events keep to the protocol and
  the results come in the order of the calls.

  What streaming one response adds to the messages and the trace, provided the provider's stream
  has at most one start event (\<open>streams_ok\<close>).
\<close>

section \<open>Parallel batches\<close>

fun slot_call :: "'w slot \<Rightarrow> tool_call" where
  "slot_call (Running p k err) = pc_toolCall p"
| "slot_call (Executed p e) = pc_toolCall p"
| "slot_call (Finalized f) = fo_toolCall f"
| "slot_call (DoneSlot f) = fo_toolCall f"

text \<open>The calls of the slots that still execute.\<close>

fun slot_active :: "'w slot \<Rightarrow> jsstring multiset" where
  "slot_active (DoneSlot f) = {#}"
| "slot_active sl = {#tc_id (slot_call sl)#}"

definition active :: "'w slot list \<Rightarrow> jsstring multiset" where
  "active sls = sum_list (map slot_active sls)"

lemma active_simps [simp]:
  "active [] = {#}" "active (sl # sls) = slot_active sl + active sls" "active (xs @ ys) = active xs + active ys"
  by (simp_all add: active_def)

lemma active_update:
  assumes "i < length sls"
  shows "active (sls[i := x]) + slot_active (sls ! i) = active sls + slot_active x"
  using assms by (subst (2) id_take_nth_drop [OF assms]) (simp add: upd_conv_take_nth_drop)

lemma active_at: "i < length sls \<Longrightarrow> j \<in># slot_active (sls ! i) \<Longrightarrow> j \<in># active sls"
  by (subst id_take_nth_drop) auto

lemma preflight_moved:
  "preflight ctx c am tcs s = (Inr entries, s') \<Longrightarrow>
     \<exists>tr. moved s s' [] [] tr \<and> ended tr = []
       \<and> (\<forall>M. phases (P_Turn M) tr = Some (P_Turn (active (start_slots entries w) + M)))
       \<and> map (\<lambda>sl. call_key (slot_call sl)) (start_slots entries w) = map call_key tcs"
proof (induction tcs arbitrary: s entries)
  case Nil
  then show ?case by (auto simp: eff_simps intro!: exI [of _ "[]"])
next
  case (Cons tc tcs)
  from Cons.prems obtain prep s1 entry s2 rest where run:
    "start_call ctx c am tc s = (Inr prep, s1)"
    "(case prep of
        Immediate r e \<Rightarrow> (let f = \<lparr>fo_toolCall = tc, fo_result = r, fo_isError = e\<rparr>
             in bind_eff (emitToolExecutionEnd c f) (\<lambda>_. ret (Inr f)))
      | Prepared p \<Rightarrow> ret (Inl p)) s1 = (Inr entry, s2)"
    "preflight ctx c am tcs s2 = (Inr rest, s')" "entries = entry # rest"
    by (auto simp: eff_simps)
  note start = start_call_moved [OF run(1)]
  from Cons.IH [OF run(3)] obtain tr2 where ih: "moved s2 s' [] [] tr2" "ended tr2 = []"
    "\<forall>M. phases (P_Turn M) tr2 = Some (P_Turn (active (start_slots rest w) + M))"
    "map (\<lambda>sl. call_key (slot_call sl)) (start_slots rest w) = map call_key tcs" by blast
  show ?case
  proof (cases prep)
    case (Immediate r e)
    let ?f = "\<lparr>fo_toolCall = tc, fo_result = r, fo_isError = e\<rparr>"
    from Immediate run(2) have en: "emitToolExecutionEnd c ?f s1 = (Inr (), s2)" "entry = Inr ?f"
      by (auto simp: eff_simps Let_def)
    from moved_trans [OF start(1) moved_trans [OF emit_end_moved [OF en(1)] ih(1)]] ih(2-4) en(2)
    show ?thesis unfolding run(4) by (intro exI conjI) (assumption | simp add: phases_append)+
  next
    case (Prepared p)
    with run(2) have en: "entry = Inl p" "s2 = s1" by (auto simp: eff_simps)
    from moved_trans [OF start(1) ih(1) [unfolded en(2)]] ih(2-4) en(1) start(2) [OF Prepared]
    show ?thesis unfolding run(4)
      by (intro exI conjI) (assumption | simp add: phases_append call_key_def)+
  qed
qed

lemma slot_step_moved:
  assumes "slot_step c am sl s = (Inr sl', s')"
  shows "\<exists>tr. moved s s' [] [] tr \<and> ended tr = [] \<and> slot_call sl' = slot_call sl
    \<and> (\<forall>M. phases (P_Turn (slot_active sl + M)) tr = Some (P_Turn (slot_active sl' + M)))"
proof (cases "(c, am, sl)" rule: slot_step.cases)
  case (3 c' am' p r k err)
  obtain e s1 where em: "emit c (update_event p r) s = (e, s1)" by fastforce
  with assms 3 have "sl' = Running p k (note_failure err e)" "s' = s1" by auto
  with moved_emit [OF em] 3 show ?thesis
    by (intro exI [of _ "[update_event p r]"]) (auto simp: update_event_def)
next
  case (5 c' am' p e)
  with assms obtain f where f: "finalizeExecutedToolCall c am p e s = (Inr f, s')" "sl' = Finalized f"
    by (auto simp: eff_simps)
  with finalize_moved [OF f(1)] 5 show ?thesis by (intro exI [of _ "[]"]) auto
next
  case (6 c' am' f)
  with assms have f: "emitToolExecutionEnd c f s = (Inr (), s')" "sl' = DoneSlot f"
    by (auto simp: eff_simps)
  with emit_end_moved [OF f(1)] 6 show ?thesis by (intro exI conjI) (assumption | simp)+
qed (use assms in \<open>auto simp: eff_simps settle_def moved_def split: option.splits intro!: exI [of _ "[]"]\<close>)

lemma scheduled_moved:
  "scheduled c am is sls s = (Inr sls', s') \<Longrightarrow>
     \<exists>tr. moved s s' [] [] tr \<and> ended tr = [] \<and> map slot_call sls' = map slot_call sls
       \<and> phases (P_Turn (active sls)) tr = Some (P_Turn (active sls'))"
proof (induction "is" arbitrary: sls s)
  case Nil
  then show ?case by (auto simp: eff_simps intro!: exI [of _ "[]"])
next
  case (Cons i rest)
  show ?case
  proof (cases "i < length sls")
    case False
    with Cons show ?thesis by simp
  next
    case True
    with Cons.prems obtain sl s1 where st: "slot_step c am (sls ! i) s = (Inr sl, s1)"
      "scheduled c am rest (sls[i := sl]) s1 = (Inr sls', s')"
      by (auto simp: eff_simps)
    from slot_step_moved [OF st(1)] obtain tr1 where t1: "moved s s1 [] [] tr1" "ended tr1 = []"
      "slot_call sl = slot_call (sls ! i)"
      "\<forall>M. phases (P_Turn (slot_active (sls ! i) + M)) tr1 = Some (P_Turn (slot_active sl + M))" by blast
    from Cons.IH [OF st(2)] obtain tr2 where t2: "moved s1 s' [] [] tr2" "ended tr2 = []"
      "map slot_call sls' = map slot_call (sls[i := sl])"
      "phases (P_Turn (active (sls[i := sl]))) tr2 = Some (P_Turn (active sls'))" by blast
    define M where "M = active (take i sls) + active (drop (Suc i) sls)"
    have a: "active sls = slot_active (sls ! i) + M"
      by (subst id_take_nth_drop [OF True]) (simp add: M_def ac_simps)
    have a': "active (sls[i := sl]) = slot_active sl + M"
      by (simp add: upd_conv_take_nth_drop [OF True] M_def ac_simps)
    have "phases (P_Turn (active sls)) (tr1 @ tr2) = Some (P_Turn (active sls'))"
      using phases_trans [of "P_Turn (active sls)" tr1 "P_Turn (active (sls[i := sl]))"] t1(4) t2(4) a a' by metis
    moreover have "map slot_call (sls[i := sl]) = map slot_call sls"
      using t1(3) True by (simp add: map_update list_update_same_conv)
    ultimately show ?thesis
      using moved_trans [OF t1(1) t2(1)] t1(2) t2(2,3) by (intro exI [of _ "tr1 @ tr2"]) auto
  qed
qed

lemma complete_slot_moved:
  assumes "complete_slot c am sl s = (Inr f, s')"
  shows "\<exists>tr. moved s s' [] [] tr \<and> ended tr = [] \<and> fo_toolCall f = slot_call sl
    \<and> (\<forall>M. phases (P_Turn (slot_active sl + M)) tr = Some (P_Turn M))"
proof (cases sl)
  case (Running p k err)
  with assms obtain e s1 s2 where run: "run_tool c p k err s = (Inr e, s1)"
    "finalizeExecutedToolCall c am p e s1 = (Inr f, s2)" "emitToolExecutionEnd c f s2 = (Inr (), s')"
    by (auto simp: eff_simps)
  from run_tool_moved [OF run(1)] obtain tr where tr: "moved s s1 [] [] tr" "updates_of p tr" by blast
  note fin = finalize_moved [OF run(2)]
  have ph: "phases (P_Turn (add_mset (tc_id (pc_toolCall p)) M)) tr = Some (P_Turn (add_mset (tc_id (pc_toolCall p)) M))" for M
    by (rule updates_phases [OF tr(2)]) simp
  from moved_trans [OF tr(1) moved_trans [OF fin(1) emit_end_moved [OF run(3)]]] fin(2) updates_ended [OF tr(2)] ph Running
  show ?thesis by (intro exI conjI) (assumption | simp add: phases_append)+
next
  case (Executed p e)
  with assms obtain s2 where run:
    "finalizeExecutedToolCall c am p e s = (Inr f, s2)" "emitToolExecutionEnd c f s2 = (Inr (), s')"
    by (auto simp: eff_simps)
  note fin = finalize_moved [OF run(1)]
  from moved_trans [OF fin(1) emit_end_moved [OF run(2)]] fin(2) Executed
  show ?thesis by (intro exI conjI) (assumption | simp)+
next
  case (Finalized f')
  with assms have "emitToolExecutionEnd c f s = (Inr (), s')" "f' = f" by (auto simp: eff_simps)
  from emit_end_moved [OF this(1)] this(2) Finalized show ?thesis by (intro exI conjI) (assumption | simp)+
next
  case (DoneSlot f')
  with assms show ?thesis by (auto simp: eff_simps intro!: exI [of _ "[]"])
qed

lemma complete_slots_moved:
  "complete_slots c am sls s = (Inr fs, s') \<Longrightarrow>
     \<exists>tr. moved s s' [] [] tr \<and> ended tr = [] \<and> map fo_toolCall fs = map slot_call sls
       \<and> phases (P_Turn (active sls)) tr = Some (P_Turn {#})"
proof (induction sls arbitrary: s fs)
  case Nil
  then show ?case by (auto simp: eff_simps intro!: exI [of _ "[]"])
next
  case (Cons sl sls)
  from Cons.prems obtain f s1 rest where run: "complete_slot c am sl s = (Inr f, s1)"
    "complete_slots c am sls s1 = (Inr rest, s')" "fs = f # rest" by (auto simp: eff_simps)
  from complete_slot_moved [OF run(1)] obtain tr1 where t1: "moved s s1 [] [] tr1" "ended tr1 = []"
    "fo_toolCall f = slot_call sl" "\<forall>M. phases (P_Turn (slot_active sl + M)) tr1 = Some (P_Turn M)" by blast
  from Cons.IH [OF run(2)] obtain tr2 where t2: "moved s1 s' [] [] tr2" "ended tr2 = []"
    "map fo_toolCall rest = map slot_call sls" "phases (P_Turn (active sls)) tr2 = Some (P_Turn {#})" by blast
  from moved_trans [OF t1(1) t2(1)] t1 t2 run(3) show ?case
    by (intro exI [of _ "tr1 @ tr2"]) (simp add: phases_append)
qed

lemma emit_results_moved:
  "emit_results c fs s = (Inr ms, s') \<Longrightarrow>
     \<exists>tr. moved s s' [] [] tr \<and> ended tr = map ToolResult ms
       \<and> phases (P_Turn {#}) tr = Some (P_Turn {#})
       \<and> map (\<lambda>m. (tr_toolCallId m, tr_toolName m)) ms = map (\<lambda>f. call_key (fo_toolCall f)) fs"
proof (induction fs arbitrary: s ms)
  case Nil
  then show ?case by (auto simp: eff_simps intro!: exI [of _ "[]"])
next
  case (Cons f fs)
  from Cons.prems obtain m s1 s2 rest where run: "createToolResultMessage c f s = (Inr m, s1)"
    "emitToolResultMessage c m s1 = (Inr (), s2)" "emit_results c fs s2 = (Inr rest, s')" "ms = m # rest"
    by (auto simp: eff_simps)
  from Cons.IH [OF run(3)] obtain tr where ih: "moved s2 s' [] [] tr" "ended tr = map ToolResult rest"
    "phases (P_Turn {#}) tr = Some (P_Turn {#})"
    "map (\<lambda>m. (tr_toolCallId m, tr_toolName m)) rest = map (\<lambda>f. call_key (fo_toolCall f)) fs" by blast
  from moved_trans [OF create_result_moved(1) [OF run(1)] moved_trans [OF emit_result_moved [OF run(2)] ih(1)]]
    create_result_moved(2) [OF run(1)] ih(2-4) run(4)
  show ?case by (intro exI conjI) (assumption | simp add: phases_append)+
qed

lemma executeToolCallsParallel_moved:
  assumes "executeToolCallsParallel ctx c schedule am tcs s = (Inr (ms, b), s')"
  shows "\<exists>tr. moved s s' [] [] tr \<and> ended tr = map ToolResult ms
    \<and> phases (P_Turn {#}) tr = Some (P_Turn {#})
    \<and> map (\<lambda>m. (tr_toolCallId m, tr_toolName m)) ms = map call_key tcs"
proof -
  from assms obtain entries s1 sls s2 fs s3 where run: "preflight ctx c am tcs s = (Inr entries, s1)"
    "scheduled c am schedule (start_slots entries (ls_world s1)) s1 = (Inr sls, s2)"
    "complete_slots c am sls s2 = (Inr fs, s3)" "emit_results c fs s3 = (Inr ms, s')"
    by (auto simp: executeToolCallsParallel_def eff_simps)
  let ?st = "start_slots entries (ls_world s1)"
  from preflight_moved [OF run(1), of "ls_world s1"] obtain t1 where t1: "moved s s1 [] [] t1" "ended t1 = []"
    "\<forall>M. phases (P_Turn M) t1 = Some (P_Turn (active ?st + M))"
    "map (\<lambda>sl. call_key (slot_call sl)) ?st = map call_key tcs" by blast
  from scheduled_moved [OF run(2)] obtain t2 where t2: "moved s1 s2 [] [] t2" "ended t2 = []"
    "map slot_call sls = map slot_call ?st" "phases (P_Turn (active ?st)) t2 = Some (P_Turn (active sls))" by blast
  from complete_slots_moved [OF run(3)] obtain t3 where t3: "moved s2 s3 [] [] t3" "ended t3 = []"
    "map fo_toolCall fs = map slot_call sls" "phases (P_Turn (active sls)) t3 = Some (P_Turn {#})" by blast
  from emit_results_moved [OF run(4)] obtain t4 where t4: "moved s3 s' [] [] t4" "ended t4 = map ToolResult ms"
    "phases (P_Turn {#}) t4 = Some (P_Turn {#})"
    "map (\<lambda>m. (tr_toolCallId m, tr_toolName m)) ms = map (\<lambda>f. call_key (fo_toolCall f)) fs" by blast
  have "map (\<lambda>f. call_key (fo_toolCall f)) fs = map call_key (map fo_toolCall fs)" by simp
  also have "\<dots> = map call_key (map slot_call ?st)" unfolding t3(3) t2(3) ..
  also have "\<dots> = map call_key tcs" using t1(4) by (simp add: o_def)
  finally have keys: "map (\<lambda>f. call_key (fo_toolCall f)) fs = map call_key tcs" .
  from moved_trans [OF t1(1) moved_trans [OF t2(1) moved_trans [OF t3(1) t4(1)]]] t1 t2 t3 t4 keys
  show ?thesis by (intro exI [of _ "t1 @ t2 @ t3 @ t4"]) (simp add: phases_append)
qed

lemma executeToolCalls_moved:
  assumes "executeToolCalls ctx c schedule am s = (Inr (ms, b), s')"
  shows "\<exists>tr. moved s s' [] [] tr \<and> ended tr = map ToolResult ms
    \<and> phases (P_Turn {#}) tr = Some (P_Turn {#})
    \<and> map (\<lambda>m. (tr_toolCallId m, tr_toolName m)) ms = map call_key (tool_calls_of (am_content am))"
proof (cases "executeToolCalls ctx c schedule am = executeToolCallsParallel ctx c schedule am (tool_calls_of (am_content am))")
  case True
  from executeToolCallsParallel_moved [OF assms [unfolded True]] show ?thesis .
next
  case False
  then have "executeToolCallsSequential ctx c am (tool_calls_of (am_content am)) s = (Inr (ms, b), s')"
    using assms by (auto simp: executeToolCalls_def Let_def split: if_splits)
  then obtain rs where rs: "sequential_calls ctx c am (tool_calls_of (am_content am)) s = (Inr rs, s')" "ms = map snd rs"
    by (auto simp: executeToolCallsSequential_def eff_simps)
  from sequential_calls_moved [OF rs(1)] rs(2) show ?thesis by (auto simp: o_def)
qed

section \<open>A response\<close>

fun is_start :: "assistant_message_event \<Rightarrow> bool" where
  "is_start (StartE m) = True"
| "is_start _ = False"

text \<open>What a provider's stream promises: at most one start event.\<close>

definition streams_ok :: "'w agent_config \<Rightarrow> bool" where
  "streams_ok c \<longleftrightarrow> (\<forall>rq w r w'. cf_stream c rq w = (Inr r, w') \<longrightarrow> length (filter is_start (sr_events r)) \<le> 1)"

definition base_messages :: "bool \<Rightarrow> 'w loop_state \<Rightarrow> agent_message list" where
  "base_messages added s = (if added then butlast (ls_messages s) else ls_messages s)"

definition streamed ::
    "bool \<Rightarrow> assistant_message \<Rightarrow> 'w loop_state \<Rightarrow> 'w loop_state \<Rightarrow> agent_event list \<Rightarrow> bool" where
  "streamed added m s s' tr \<longleftrightarrow>
     ls_messages s' = base_messages added s @ [Assistant m] \<and> ls_newMessages s' = ls_newMessages s
     \<and> ls_trace s' = ls_trace s @ tr \<and> ended tr = [Assistant m]
     \<and> phases (if added then P_Message else P_Turn {#}) tr = Some (P_Turn {#})"

lemma emit_state:
  assumes "emit c e s = (r, s')"
  shows "ls_messages s' = ls_messages s" "ls_newMessages s' = ls_newMessages s" "ls_trace s' = ls_trace s @ [e]"
  using moved_emit [OF assms] by (simp_all add: moved_def)

lemma finish_response_streamed:
  assumes "finish_response c added final s = (Inr m, s')"
  shows "m = final \<and> (\<exists>tr. streamed added m s s' tr)"
proof (cases added)
  case True
  with assms have run: "emit c (MessageEnd (Assistant final)) (s\<lparr>ls_messages := butlast (ls_messages s) @ [Assistant final]\<rparr>)
      = (Inr (), s')" "m = final"
    by (auto simp: finish_response_def add_final_def eff_simps)
  from emit_state [OF run(1)] run(2) True show ?thesis
    by (auto simp: streamed_def base_messages_def)
next
  case False
  with assms obtain s1 where run:
    "emit c (MessageStart (Assistant final)) (s\<lparr>ls_messages := ls_messages s @ [Assistant final]\<rparr>) = (Inr (), s1)"
    "emit c (MessageEnd (Assistant final)) s1 = (Inr (), s')" "m = final"
    by (auto simp: finish_response_def add_final_def eff_simps)
  from emit_state [OF run(1)] emit_state [OF run(2)] run(3) False show ?thesis
    by (auto simp: streamed_def base_messages_def intro!: exI [of _ "[MessageStart (Assistant final), MessageEnd (Assistant final)]"])
qed

lemma consume_update:
  assumes "update_partial e = Some p"
  shows "consume c final added (e # es) =
     (if added
      then bind_eff (set_last_message (Assistant p)) (\<lambda>_.
           bind_eff (emit c (MessageUpdate (Assistant p) e)) (\<lambda>_. consume c final added es))
      else consume c final added es)"
  using assms by (cases e) auto

lemma streamed_update:
  assumes "emit c (MessageUpdate (Assistant p) e) (s\<lparr>ls_messages := butlast (ls_messages s) @ [Assistant p]\<rparr>) = (Inr u, s1)"
    and "streamed True m s1 s' tr"
  shows "streamed True m s s' (MessageUpdate (Assistant p) e # tr)"
  using emit_state [OF assms(1)] assms(2) by (simp add: streamed_def base_messages_def)

lemma streamed_start:
  assumes "emit c (MessageStart (Assistant p)) (s\<lparr>ls_messages := ls_messages s @ [Assistant p]\<rparr>) = (Inr u, s1)"
    and "streamed True m s1 s' tr"
  shows "streamed False m s s' (MessageStart (Assistant p) # tr)"
  using emit_state [OF assms(1)] assms(2) by (simp add: streamed_def base_messages_def)

lemma consume_streamed:
  "consume c final added es s = (Inr m, s') \<Longrightarrow>
     length (filter is_start es) + (if added then 1 else 0) \<le> 1 \<Longrightarrow>
     m = final \<and> (\<exists>tr. streamed added m s s' tr)"
proof (induction es arbitrary: added s)
  case Nil
  then show ?case by (simp add: finish_response_streamed)
next
  case (Cons e es)
  show ?case
  proof (cases "update_partial e")
    case None
    then consider p where "e = StartE p" | r p where "e = DoneE r p \<or> e = ErrorE r p" by (cases e) auto
    then show ?thesis
    proof cases
      case 1
      with Cons.prems(2) have na: "\<not> added" "length (filter is_start es) + 1 \<le> 1" by (auto split: if_splits)
      from 1 Cons.prems(1) obtain s1 where
        run: "emit c (MessageStart (Assistant p)) (s\<lparr>ls_messages := ls_messages s @ [Assistant p]\<rparr>) = (Inr (), s1)"
          "consume c final True es s1 = (Inr m, s')"
        by (auto simp: eff_simps)
      from Cons.IH [OF run(2)] na(2) obtain tr where "m = final" "streamed True m s1 s' tr" by auto
      with streamed_start [OF run(1)] na(1) show ?thesis by auto
    next
      case 2
      with Cons.prems(1) show ?thesis by (auto dest: finish_response_streamed)
    qed
  next
    case (Some p)
    then have ns: "length (filter is_start es) + (if added then 1 else 0) \<le> 1"
      using Cons.prems(2) by (cases e) auto
    show ?thesis
    proof (cases added)
      case True
      with Cons.prems(1) obtain s1 where
        run: "emit c (MessageUpdate (Assistant p) e) (s\<lparr>ls_messages := butlast (ls_messages s) @ [Assistant p]\<rparr>) = (Inr (), s1)"
          "consume c final added es s1 = (Inr m, s')"
        unfolding consume_update [OF Some] by (auto simp: eff_simps)
      from Cons.IH [OF run(2) ns] obtain tr where "m = final" "streamed added m s1 s' tr" by auto
      with streamed_update [OF run(1)] True show ?thesis by auto
    next
      case False
      with Cons.prems(1) have "consume c final added es s = (Inr m, s')"
        unfolding consume_update [OF Some] by simp
      from Cons.IH [OF this ns] show ?thesis .
    qed
  qed
qed

lemma streamAssistantResponse_moved:
  assumes "streams_ok c" "streamAssistantResponse ctx c s = (Inr m, s')"
  shows "\<exists>tr. moved s s' [Assistant m] [] tr \<and> ended tr = [Assistant m]
    \<and> phases (P_Turn {#}) tr = Some (P_Turn {#})"
proof -
  from assms(2) obtain r s1 where run: "on_world (request_response ctx c (ls_messages s)) s = (Inr r, s1)"
    "consume c (sr_result r) False (sr_events r) s1 = (Inr m, s')"
    by (auto simp: streamAssistantResponse_def eff_simps)
  from on_world_Inr [OF run(1)] obtain w' rq w1 where "cf_stream c rq w1 = (Inr r, w')"
    by (auto simp: request_response_def eff_simps)
  with assms(1) have "length (filter is_start (sr_events r)) \<le> 1" by (auto simp: streams_ok_def)
  then obtain tr where "streamed False m s1 s' tr" using consume_streamed [OF run(2)] by auto
  with moved_on_world [OF run(1)] show ?thesis
    by (intro exI [of _ tr]) (simp add: streamed_def moved_def base_messages_def)
qed

end
