(* ===== verification/Agent_Turns.thy ===== *)
theory Agent_Turns
  imports Agent_Batches
begin

text \<open>
  Turns, the loop and whole runs: the context and the result grow by the same messages, those the
  events announce as ended (\<open>grown\<close>), and the events keep to the protocol.
\<close>

section \<open>A turn\<close>

text \<open>
  \<open>grown p s s' q\<close>: from \<open>s\<close> to \<open>s'\<close> the context and the result grew by the same messages,
  which are those the events of the step announced as ended, and the events lead from phase
  \<open>p\<close> to phase \<open>q\<close>.
\<close>

definition grown :: "phase \<Rightarrow> 'w loop_state \<Rightarrow> 'w loop_state \<Rightarrow> phase \<Rightarrow> bool" where
  "grown p s s' q \<longleftrightarrow> (\<exists>tr. moved s s' (ended tr) (ended tr) tr \<and> phases p tr = Some q)"

definition finished :: "'w loop_state \<Rightarrow> bool" where
  "finished s \<longleftrightarrow> ls_trace s \<noteq> [] \<and> last (ls_trace s) = AgentEnd (ls_newMessages s)"

lemma grown_trans: "grown p s t q \<Longrightarrow> grown q t u r \<Longrightarrow> grown p s u r"
proof -
  assume "grown p s t q" "grown q t u r"
  then obtain x y where "moved s t (ended x) (ended x) x" "phases p x = Some q"
    "moved t u (ended y) (ended y) y" "phases q y = Some r" by (auto simp: grown_def)
  with moved_trans show ?thesis unfolding grown_def
    by (intro exI [of _ "x @ y"]) (auto simp: phases_append)
qed

lemma grown_refl [simp]: "grown p s s p"
  unfolding grown_def by (intro exI [of _ "[]"]) simp

lemma grown_silent: "moved s s' [] [] [] \<Longrightarrow> grown p s s' p"
  unfolding grown_def by (intro exI [of _ "[]"]) simp

lemma grown_emit:
  "emit c e s = (r, s') \<Longrightarrow> ended_message e = None \<Longrightarrow> phase_step p e = Some q \<Longrightarrow> grown p s s' q"
  unfolding grown_def by (intro exI [of _ "[e]"]) (simp add: moved_emit)

lemma emit_all:
  "emit c e s = (r, s') \<Longrightarrow> ls_messages s' = ls_messages s \<and> ls_newMessages s' = ls_newMessages s
     \<and> ls_trace s' = ls_trace s @ [e]"
  by (intro conjI emit_state)

lemma run_result_Inr:
  "run_result r = Some (Inr ms, s) \<longleftrightarrow> r = Some (Inr (), s) \<and> ms = ls_newMessages s"
proof -
  have "map_sum id g x = Inr y \<longleftrightarrow> (\<exists>u. x = Inr u \<and> y = g u)" for g :: "unit \<Rightarrow> agent_message list" and x :: "jsstring + unit" and y
    by (cases x) auto
  then show ?thesis by (auto simp: run_result_def)
qed

lemma inject_grown: "inject c m s = (Inr u, s') \<Longrightarrow> grown (P_Turn {#}) s s' (P_Turn {#})"
  unfolding grown_def
  by (rule exI [of _ "[MessageStart m, MessageEnd m]"])
    (auto simp: inject_def eff_simps moved_def dest!: emit_all)

lemma each_inject_grown: "each_eff (inject c) ms s = (Inr u, s') \<Longrightarrow> grown (P_Turn {#}) s s' (P_Turn {#})"
  by (induction ms arbitrary: s) (auto simp: eff_simps intro: grown_trans inject_grown)

lemma add_results_state:
  "each_eff add_result rs s = (Inr u, s') \<Longrightarrow> moved s s' (map ToolResult rs) (map ToolResult rs) []"
  by (induction rs arbitrary: s) (fastforce simp: add_result_def eff_simps moved_def)+

lemma end_run_grown:
  "end_run c s = (r, s') \<Longrightarrow> grown P_Idle s s' P_Ended \<and> finished s'"
  unfolding end_run_def finished_def by (intro conjI grown_emit) (auto dest!: emit_all)

lemma poll_moved: "poll f s = (r, s') \<Longrightarrow> moved s s' [] [] []"
  by (auto simp: poll_def ret_def split: option.splits dest: moved_on_world)

lemma ask_stop_moved: "ask_stop c m rs s = (r, s') \<Longrightarrow> moved s s' [] [] []"
  by (auto simp: ask_stop_def ret_def split: option.splits dest: moved_on_world)

text \<open>The answer of the model and the results of its tool calls.\<close>

lemma answer_grown:
  assumes "streams_ok c" "streamAssistantResponse ctx c s = (Inr m, s1)" "push_new (Assistant m) s1 = (Inr u, s2)"
  shows "grown (P_Turn {#}) s s2 (P_Turn {#})"
proof -
  from streamAssistantResponse_moved [OF assms(1,2)] obtain tr where
    tr: "moved s s1 [Assistant m] [] tr" "ended tr = [Assistant m]" "phases (P_Turn {#}) tr = Some (P_Turn {#})" by blast
  with assms(3) show ?thesis
    by (auto simp: grown_def moved_def eff_simps intro!: exI [of _ tr])
qed

lemma batch_grown:
  assumes "(if tool_calls_of (am_content m) \<noteq> [] then executeToolCalls ctx c schedule m else ret ([], True)) s
      = (Inr (rs, b), s1)" "each_eff add_result rs s1 = (Inr u, s2)"
  shows "grown (P_Turn {#}) s s2 (P_Turn {#})"
proof -
  obtain tr where "moved s s1 [] [] tr" "ended tr = map ToolResult rs" "phases (P_Turn {#}) tr = Some (P_Turn {#})"
  proof (cases "tool_calls_of (am_content m) = []")
    case True
    with assms(1) show ?thesis by (intro that [of "[]"]) (auto simp: eff_simps)
  next
    case False
    with assms(1) have "executeToolCalls ctx c schedule m s = (Inr (rs, b), s1)" by simp
    from executeToolCalls_moved [OF this] that show ?thesis by blast
  qed
  with add_results_state [OF assms(2)] show ?thesis
    by (auto simp: grown_def moved_def intro!: exI [of _ tr])
qed

fun after_turn :: "turn_result \<Rightarrow> phase" where
  "after_turn Stopped = P_Ended"
| "after_turn (Continue b ms) = P_Idle"

lemma respond_grown:
  assumes ok: "streams_ok c" and run: "respond ctx c schedule s = (Inr t, s')"
  shows "grown (P_Turn {#}) s s' (after_turn t) \<and> (t = Stopped \<longrightarrow> finished s')"
proof -
  from run obtain m s1 s2 where ans: "streamAssistantResponse ctx c s = (Inr m, s1)"
    "push_new (Assistant m) s1 = (Inr (), s2)"
    by (auto simp: respond_def eff_simps)
  have te: "emit c (TurnEnd (Assistant m) rs) a = (Inr x, a') \<Longrightarrow> grown (P_Turn {#}) a a' P_Idle" for rs a a' x
    by (rule grown_emit) auto
  note head = answer_grown [OF ok ans]
  show ?thesis
  proof (cases "am_stopReason m = ErrorR \<or> am_stopReason m = AbortedR")
    case True
    with run ans obtain s3 where "emit c (TurnEnd (Assistant m) []) s2 = (Inr (), s3)"
      "end_run c s3 = (Inr (), s')" "t = Stopped"
      by (auto simp: respond_def eff_simps)
    with grown_trans [OF head grown_trans [OF te]] end_run_grown show ?thesis by fastforce
  next
    case False
    with run ans obtain rs b s3 s4 s5 stop s6 where tail:
      "(if tool_calls_of (am_content m) \<noteq> [] then executeToolCalls ctx c schedule m else ret ([], True)) s2
        = (Inr (rs, b), s3)"
      "each_eff add_result rs s3 = (Inr (), s4)" "emit c (TurnEnd (Assistant m) rs) s4 = (Inr (), s5)"
      "ask_stop c m rs s5 = (Inr stop, s6)"
      "(if stop then bind_eff (end_run c) (\<lambda>_. ret Stopped)
        else bind_eff (poll (cf_getSteeringMessages c)) (\<lambda>p. ret (Continue (\<not> b) p))) s6 = (Inr t, s')"
      by (auto simp: respond_def bind_eff_Inr split del: if_split)
    have g: "grown (P_Turn {#}) s s6 P_Idle"
      using grown_trans [OF head grown_trans [OF batch_grown [OF tail(1,2)]
          grown_trans [OF te [OF tail(3)] grown_silent [OF ask_stop_moved [OF tail(4)]]]]] .
    show ?thesis
    proof (cases stop)
      case True
      with tail(5) have "end_run c s6 = (Inr (), s')" "t = Stopped" by (auto simp: eff_simps)
      with grown_trans [OF g] end_run_grown show ?thesis by fastforce
    next
      case False
      with tail(5) obtain p where "poll (cf_getSteeringMessages c) s6 = (Inr p, s')" "t = Continue (\<not> b) p"
        by (auto simp: eff_simps)
      with grown_trans [OF g grown_silent [OF poll_moved]] show ?thesis by fastforce
    qed
  qed
qed

definition at_turn :: "bool \<Rightarrow> phase" where
  "at_turn firstTurn = (if firstTurn then P_Turn {#} else P_Idle)"

lemma turn_grown:
  assumes ok: "streams_ok c" and run: "turn ctx c schedule firstTurn pending s = (Inr t, s')"
  shows "grown (at_turn firstTurn) s s' (after_turn t) \<and> (t = Stopped \<longrightarrow> finished s')"
proof -
  from run obtain s1 s2 where st: "(if firstTurn then ret () else emit c TurnStart) s = (Inr (), s1)"
    "each_eff (inject c) pending s1 = (Inr (), s2)" "respond ctx c schedule s2 = (Inr t, s')"
    by (auto simp: turn_def eff_simps)
  have "grown (at_turn firstTurn) s s1 (P_Turn {#})"
    using st(1) by (auto simp: at_turn_def eff_simps intro: grown_emit split: if_splits)
  from grown_trans [OF this grown_trans [OF each_inject_grown [OF st(2)]]] respond_grown [OF ok st(3)]
  show ?thesis by blast
qed

section \<open>The loop\<close>

text \<open>
  The loop starts with \<open>firstTurn\<close> and a turn to do, so that \<open>firstTurn\<close> is false again
  when it polls for follow-up messages.
\<close>

lemma run_turns_grown:
  "run_turns ctx c schedules n first hasMore pending s = Some (Inr u, s') \<Longrightarrow> streams_ok c \<Longrightarrow>
     first \<longrightarrow> hasMore \<or> pending \<noteq> [] \<Longrightarrow> grown (at_turn first) s s' P_Ended \<and> finished s'"
proof (induction n arbitrary: schedules first hasMore pending s)
  case 0
  then show ?case by simp
next
  case (Suc n)
  show ?case
  proof (cases "hasMore \<or> pending \<noteq> []")
    case True
    with Suc.prems(1) obtain t s1 where t: "turn ctx c (schedules 0) first pending s = (Inr t, s1)"
      by (auto split: prod.splits sum.splits)
    note tg = turn_grown [OF Suc.prems(2) t]
    show ?thesis
    proof (cases t)
      case Stopped
      with tg t True Suc.prems(1) show ?thesis by simp
    next
      case (Continue m p)
      with t True Suc.prems(1) have "run_turns ctx c (\<lambda>i. schedules (Suc i)) n False m p s1 = Some (Inr u, s')" by simp
      from Suc.IH [OF this Suc.prems(2)] tg Continue grown_trans show ?thesis by (auto simp: at_turn_def)
    qed
  next
    case False
    with Suc.prems obtain fs s1 where f: "poll (cf_getFollowUpMessages c) s = (Inr fs, s1)" "\<not> first"
      by (auto split: prod.splits sum.splits)
    note pg = grown_silent [OF poll_moved [OF f(1)], of P_Idle]
    show ?thesis
    proof (cases "fs = []")
      case True
      with f False Suc.prems(1) have "end_run c s1 = (Inr u, s')" by simp
      with end_run_grown grown_trans [OF pg] f(2) show ?thesis by (fastforce simp: at_turn_def)
    next
      case nn: False
      with f False Suc.prems(1) have "run_turns ctx c schedules n first True fs s1 = Some (Inr u, s')" by simp
      from Suc.IH [OF this Suc.prems(2)] grown_trans [OF pg] f(2) show ?thesis by (auto simp: at_turn_def)
    qed
  qed
qed

lemma runLoop_grown:
  assumes "runLoop ctx c schedules fuel s = Some (Inr u, s')" "streams_ok c"
  shows "grown (P_Turn {#}) s s' P_Ended \<and> finished s'"
proof -
  from assms(1) obtain p s1 where run: "poll (cf_getSteeringMessages c) s = (Inr p, s1)"
    "run_turns ctx c schedules fuel True True p s1 = Some (Inr u, s')"
    by (auto simp: runLoop_def split: prod.splits sum.splits)
  from run_turns_grown [OF run(2) assms(2)] grown_trans [OF grown_silent [OF poll_moved [OF run(1)]]]
  show ?thesis by (auto simp: at_turn_def)
qed

lemma announce_moved:
  "each_eff (announce c) ms s = (Inr u, s') \<Longrightarrow>
     \<exists>tr. moved s s' [] [] tr \<and> ended tr = ms \<and> phases (P_Turn {#}) tr = Some (P_Turn {#})"
proof (induction ms arbitrary: s)
  case Nil
  then show ?case by (auto simp: eff_simps intro!: exI [of _ "[]"])
next
  case (Cons m ms)
  then obtain s2 where "announce c m s = (Inr (), s2)" and rest: "each_eff (announce c) ms s2 = (Inr u, s')"
    by (auto simp: eff_simps)
  then obtain s1 where run: "emit c (MessageStart m) s = (Inr (), s1)" "emit c (MessageEnd m) s1 = (Inr (), s2)"
    by (auto simp: announce_def eff_simps)
  from Cons.IH [OF rest] obtain tr where ih: "moved s2 s' [] [] tr" "ended tr = ms"
    "phases (P_Turn {#}) tr = Some (P_Turn {#})" by blast
  from moved_trans [OF moved_emit [OF run(1)] moved_trans [OF moved_emit [OF run(2)] ih(1)]] ih(2,3)
  show ?case by (intro exI conjI) (assumption | simp)+
qed

section \<open>A whole run\<close>

text \<open>What a completed run has done, whatever it started from.\<close>

definition run_correct :: "agent_message list \<Rightarrow> agent_message list \<Rightarrow> 'w loop_state \<Rightarrow> bool" where
  "run_correct messages result s \<longleftrightarrow>
     ls_messages s = messages @ result \<and> ended (ls_trace s) = result
     \<and> phases P_Init (ls_trace s) = Some P_Ended \<and> last (ls_trace s) = AgentEnd result"

lemma runAgentLoop_run_correct:
  assumes "streams_ok c" "runAgentLoop prompts messages ctx c schedules fuel w = Some (Inr result, s)"
  shows "run_correct messages result s \<and> take (length prompts) result = prompts"
proof -
  let ?s0 = "\<lparr>ls_messages = messages @ prompts, ls_newMessages = prompts, ls_trace = [], ls_world = w\<rparr>"
  from assms(2) obtain s1 s2 s3 where run: "emit c AgentStart ?s0 = (Inr (), s1)" "emit c TurnStart s1 = (Inr (), s2)"
    "each_eff (announce c) prompts s2 = (Inr (), s3)" "runLoop ctx c schedules fuel s3 = Some (Inr (), s)"
    "result = ls_newMessages s"
    by (auto simp: runAgentLoop_def run_result_Inr eff_simps split: prod.splits sum.splits)
  from announce_moved [OF run(3)] obtain tr where tr: "moved s2 s3 [] [] tr" "ended tr = prompts"
    "phases (P_Turn {#}) tr = Some (P_Turn {#})" by blast
  from runLoop_grown [OF run(4) assms(1)] obtain tr2 where tr2: "moved s3 s (ended tr2) (ended tr2) tr2"
    "phases (P_Turn {#}) tr2 = Some P_Ended" "finished s" by (auto simp: grown_def)
  from emit_state [OF run(1)] emit_state [OF run(2)] tr tr2 show ?thesis
    by (simp add: run_correct_def run(5) moved_def finished_def phases_append)
qed

lemma runAgentLoopContinue_run_correct:
  assumes "streams_ok c" "runAgentLoopContinue messages ctx c schedules fuel w = Some (Inr result, s)"
  shows "run_correct messages result s"
proof -
  let ?s0 = "\<lparr>ls_messages = messages, ls_newMessages = [], ls_trace = [], ls_world = w\<rparr>"
  from assms(2) obtain s1 s2 where run: "emit c AgentStart ?s0 = (Inr (), s1)" "emit c TurnStart s1 = (Inr (), s2)"
    "runLoop ctx c schedules fuel s2 = Some (Inr (), s)" "result = ls_newMessages s"
    by (auto simp: runAgentLoopContinue_def Let_def run_result_Inr eff_simps
        split: prod.splits sum.splits if_splits)
  from runLoop_grown [OF run(3) assms(1)] obtain tr2 where tr2: "moved s2 s (ended tr2) (ended tr2) tr2"
    "phases (P_Turn {#}) tr2 = Some P_Ended" "finished s" by (auto simp: grown_def)
  from emit_state [OF run(1)] emit_state [OF run(2)] tr2 show ?thesis
    by (simp add: run_correct_def run(4) moved_def finished_def phases_append)
qed

end
