(* ===== verification/Agent_Equivalence.thy ===== *)
theory Agent_Equivalence
  imports Agent_Turns
begin

text \<open>
  A batch of one call is the same in both modes; more fuel does not change a run; what a prepared
  call has passed.
\<close>

section \<open>A batch of one call\<close>

lemma settle_cases: "settle err o1 s = (case err of None \<Rightarrow> (Inr o1, s) | Some e \<Rightarrow> (Inl e, s))"
  by (simp add: settle_def ret_def throw_def split: option.split)

text \<open>Completing a slot is the same before and after one of its own steps.\<close>

lemma complete_after_step:
  "slot_step c am sl s = (Inr sl', s1) \<Longrightarrow> complete_slot c am sl' s1 = complete_slot c am sl s"
proof (induction c am sl rule: slot_step.induct)
  case (5 c am p e)
  then show ?case by (auto simp: bind_eff_def ret_def split: prod.splits sum.splits)
next
  case (6 c am f)
  then show ?case by (auto simp: bind_eff_def ret_def split: prod.splits sum.splits)
qed (auto simp: bind_eff_def settle_cases ret_def split: option.splits prod.splits)

lemma complete_failed_step:
  "slot_step c am sl s = (Inl e, s1) \<Longrightarrow> complete_slot c am sl s = (Inl e, s1)"
  by (induction c am sl rule: slot_step.induct)
    (auto simp: bind_eff_def settle_cases ret_def split: option.splits prod.splits sum.splits)

lemma complete_slots_one: "complete_slots c am [sl] = bind_eff (complete_slot c am sl) (\<lambda>f. ret [f])"
  by (simp add: bind_eff_def ret_def fun_eq_iff split: prod.split sum.split)

lemma scheduled_one:
  "bind_eff (scheduled c am is [sl]) (complete_slots c am) s = complete_slots c am [sl] s"
proof (induction "is" arbitrary: sl s)
  case Nil
  then show ?case by (simp add: bind_eff_def ret_def)
next
  case (Cons i rest)
  show ?case
  proof (cases "i = 0")
    case False
    with Cons show ?thesis by simp
  next
    case True
    obtain r s1 where st: "slot_step c am sl s = (r, s1)" by fastforce
    show ?thesis
    proof (cases r)
      case (Inl e)
      with st complete_failed_step [of c am sl s e s1] True show ?thesis
        by (simp add: bind_eff_def)
    next
      case (Inr sl')
      with st True have "bind_eff (scheduled c am (i # rest) [sl]) (complete_slots c am) s
          = bind_eff (scheduled c am rest [sl']) (complete_slots c am) s1"
        by (simp add: bind_eff_def)
      also have "\<dots> = complete_slots c am [sl'] s1" by (rule Cons.IH)
      also have "\<dots> = complete_slots c am [sl] s"
        unfolding complete_slots_one using complete_after_step [of c am sl s sl' s1] st Inr
        by (simp add: bind_eff_def)
      finally show ?thesis .
    qed
  qed
qed

text \<open>From the preparation of one call to its result message, as the sequential mode runs it.\<close>

definition one_call ::
    "'w agent_context \<Rightarrow> 'w agent_config \<Rightarrow> assistant_message \<Rightarrow> tool_call \<Rightarrow> ('w, finalized_outcome) loop_eff" where
  "one_call ctx c am tc =
     bind_eff (start_call ctx c am tc) (\<lambda>prep.
     bind_eff
       (case prep of
          Immediate r e \<Rightarrow> ret \<lparr>fo_toolCall = tc, fo_result = r, fo_isError = e\<rparr>
        | Prepared p \<Rightarrow> bind_eff (executePreparedToolCall c p) (finalizeExecutedToolCall c am p)) (\<lambda>f.
     bind_eff (emitToolExecutionEnd c f) (\<lambda>_. ret f)))"

definition result_of :: "'w agent_config \<Rightarrow> finalized_outcome \<Rightarrow> ('w, tool_result_message list \<times> bool) loop_eff" where
  "result_of c f =
     bind_eff (createToolResultMessage c f) (\<lambda>m.
     bind_eff (emitToolResultMessage c m) (\<lambda>_. ret ([m], shouldTerminateToolBatch [f])))"

lemma bind_assoc: "bind_eff (bind_eff f g) h = bind_eff f (\<lambda>x. bind_eff (g x) h)"
  by (simp add: bind_eff_def fun_eq_iff split: prod.split sum.split)

lemma bind_ret: "bind_eff (ret x) g = g x"
  by (simp add: bind_eff_def ret_def fun_eq_iff)

lemma bind_at:
  "f s = (Inr a, s') \<Longrightarrow> bind_eff f g s = g a s'" "f s = (Inl e, s') \<Longrightarrow> bind_eff f g s = (Inl e, s')"
  by (simp_all add: bind_eff_def)

lemma sequential_one:
  "executeToolCallsSequential ctx c am [tc] = bind_eff (one_call ctx c am tc) (result_of c)"
  by (simp add: executeToolCallsSequential_def one_call_def result_of_def bind_assoc bind_ret)

lemma parallel_one:
  "executeToolCallsParallel ctx c sch am [tc] = bind_eff (one_call ctx c am tc) (result_of c)"
proof (rule ext)
  fix s
  let ?tail = "\<lambda>fs. bind_eff (emit_results c fs) (\<lambda>ms. ret (ms, shouldTerminateToolBatch fs))"
  have tail: "?tail [f] = result_of c f" for f
    by (simp add: result_of_def bind_assoc bind_ret)
  have slots: "bind_eff (scheduled c am sch [sl]) (\<lambda>sls. bind_eff (complete_slots c am sls) ?tail) t
      = bind_eff (complete_slot c am sl) (result_of c) t" for sl t
  proof -
    have "bind_eff (scheduled c am sch [sl]) (\<lambda>sls. bind_eff (complete_slots c am sls) ?tail) t
        = bind_eff (\<lambda>u. bind_eff (scheduled c am sch [sl]) (complete_slots c am) u) ?tail t"
      by (simp add: bind_assoc [symmetric])
    also have "\<dots> = bind_eff (complete_slots c am [sl]) ?tail t"
      unfolding scheduled_one ..
    also have "\<dots> = bind_eff (complete_slot c am sl) (result_of c) t"
      unfolding complete_slots_one bind_assoc bind_ret tail ..
    finally show ?thesis .
  qed
  show "executeToolCallsParallel ctx c sch am [tc] s = bind_eff (one_call ctx c am tc) (result_of c) s"
  proof (cases "start_call ctx c am tc s")
    case (Pair r s1)
    show ?thesis
    proof (cases r)
      case (Inl e)
      with Pair show ?thesis by (simp add: executeToolCallsParallel_def one_call_def bind_eff_def)
    next
      case (Inr prep)
      show ?thesis
      proof (cases prep)
        case (Immediate x e)
        let ?f = "\<lparr>fo_toolCall = tc, fo_result = x, fo_isError = e\<rparr>"
        obtain r2 s2 where e2: "emitToolExecutionEnd c ?f s1 = (r2, s2)" by fastforce
        show ?thesis
        proof (cases r2)
          case (Inl e')
          with e2 Pair Inr Immediate show ?thesis
            by (simp add: executeToolCallsParallel_def one_call_def bind_assoc bind_ret bind_at Let_def)
        next
          case (Inr u)
          with e2 Pair \<open>r = Inr prep\<close> Immediate have "executeToolCallsParallel ctx c sch am [tc] s
              = bind_eff (scheduled c am sch [DoneSlot ?f]) (\<lambda>sls. bind_eff (complete_slots c am sls) ?tail) s2"
            by (simp add: executeToolCallsParallel_def bind_assoc bind_ret bind_at Let_def)
          also have "\<dots> = bind_eff (one_call ctx c am tc) (result_of c) s"
            unfolding slots using e2 Inr Pair \<open>r = Inr prep\<close> Immediate
            by (simp add: one_call_def bind_assoc bind_ret bind_at)
          finally show ?thesis .
        qed
      next
        case (Prepared p)
        have "executeToolCallsParallel ctx c sch am [tc] s
            = bind_eff (scheduled c am sch [Running p (start_tool p (ls_world s1)) None])
                (\<lambda>sls. bind_eff (complete_slots c am sls) ?tail) s1"
          using Pair Inr Prepared
          by (simp add: executeToolCallsParallel_def bind_assoc bind_ret bind_at) (simp add: bind_eff_def)
        also have "\<dots> = bind_eff (complete_slot c am (Running p (start_tool p (ls_world s1)) None)) (result_of c) s1"
          by (rule slots)
        also have "\<dots> = bind_eff (one_call ctx c am tc) (result_of c) s"
          using Pair Inr Prepared
          by (simp add: one_call_def executePreparedToolCall_def bind_assoc bind_ret bind_at) (simp add: bind_eff_def)
        finally show ?thesis .
      qed
    qed
  qed
qed

section \<open>Fuel\<close>

lemma run_turns_more_fuel:
  "run_turns ctx c sch n first hasMore pending s = Some r \<Longrightarrow> n \<le> m \<Longrightarrow>
     run_turns ctx c sch m first hasMore pending s = Some r"
proof (induction n arbitrary: sch first hasMore pending s m)
  case 0
  then show ?case by simp
next
  case (Suc n)
  then obtain k where k: "m = Suc k" "n \<le> k" by (cases m) auto
  show ?case
    using Suc.prems(1) Suc.IH [OF _ k(2)] unfolding k(1)
    by (auto split: prod.splits sum.splits turn_result.splits)
qed

lemma runLoop_more_fuel:
  "runLoop ctx c sch n s = Some r \<Longrightarrow> n \<le> m \<Longrightarrow> runLoop ctx c sch m s = Some r"
  by (auto simp: runLoop_def intro: run_turns_more_fuel split: prod.splits sum.splits)

lemma runAgentLoop_more_fuel:
  "runAgentLoop prompts messages ctx c sch n w = Some r \<Longrightarrow> n \<le> m \<Longrightarrow>
     runAgentLoop prompts messages ctx c sch m w = Some r"
  unfolding runAgentLoop_def run_result_def
  by (auto simp: map_option_case dest: runLoop_more_fuel [where m = m] split: prod.splits sum.splits option.splits)

section \<open>What a prepared call has passed\<close>

lemma try_prepare_checked:
  assumes "try_prepare c tool am tc ms w = (Inr (Prepared p), w')"
  shows "pc_tool p = tool \<and> cf_validate c tool (pc_toolCall p) = Inr (pc_args p)
    \<and> (\<exists>v. ask_before c am (pc_toolCall p) (pc_args p) ms v = (Inr None, w'))"
  using assms
  by (auto simp: try_prepare_def validated_call_def eff_simps Let_def split: option.splits sum.splits)

end
