(* ===== verification/Loop_Invariant.thy ===== *)
theory Loop_Invariant
  imports Agent_Equivalence
begin

text \<open>
  Predicates of the trace and the world that a run keeps: the interface \<open>loop_invariant\<close> says what
  the hooks, the tools and the sink have to keep, and every operation of the loop then keeps it,
  whether it returns or fails. \<open>run_invariant\<close> and \<open>safe_sink\<close> add what whole runs need.
\<close>

section \<open>What every operation of a run keeps\<close>

text \<open>
  A predicate of the trace and the world that every call out of the loop keeps and every event
  but \<open>agent_end\<close> leads back to holds after every operation, whether it returns or fails.
\<close>

definition world_keeps :: "(agent_event list \<Rightarrow> 'w \<Rightarrow> bool) \<Rightarrow> ('w, 'a) eff \<Rightarrow> bool" where
  "world_keeps P f \<longleftrightarrow> (\<forall>tr w. P tr w \<longrightarrow> P tr (snd (f w)))"

definition loop_keeps :: "(agent_event list \<Rightarrow> 'w \<Rightarrow> bool) \<Rightarrow> ('w, 'a) loop_eff \<Rightarrow> bool" where
  "loop_keeps P f \<longleftrightarrow> (\<forall>s. P (ls_trace s) (ls_world s) \<longrightarrow> P (ls_trace (snd (f s))) (ls_world (snd (f s))))"

primrec tool_keeps :: "(agent_event list \<Rightarrow> 'w \<Rightarrow> bool) \<Rightarrow> 'w tool_run \<Rightarrow> bool" where
  "tool_keeps P (Finish r) = True"
| "tool_keeps P (Fail m) = True"
| "tool_keeps P (Update r k) = tool_keeps P k"
| "tool_keeps P (Step u k) = ((\<forall>tr w. P tr w \<longrightarrow> P tr (u w)) \<and> (\<forall>w. tool_keeps P (k w)))"

definition option_keeps :: "(agent_event list \<Rightarrow> 'w \<Rightarrow> bool) \<Rightarrow> ('w, 'a) eff option \<Rightarrow> bool" where
  "option_keeps P f \<longleftrightarrow> (case f of None \<Rightarrow> True | Some g \<Rightarrow> world_keeps P g)"

definition hooks_keep :: "(agent_event list \<Rightarrow> 'w \<Rightarrow> bool) \<Rightarrow> 'w agent_config \<Rightarrow> bool" where
  "hooks_keep P c \<longleftrightarrow>
     (\<forall>ms. world_keeps P (cf_convertToLlm c ms))
     \<and> (\<forall>ms. option_keeps P (map_option (\<lambda>f. f ms) (cf_transformContext c)))
     \<and> (\<forall>p. option_keeps P (map_option (\<lambda>f. f p) (cf_getApiKey c)))
     \<and> (\<forall>x. option_keeps P (map_option (\<lambda>f. f x) (cf_shouldStopAfterTurn c)))
     \<and> option_keeps P (cf_getSteeringMessages c) \<and> option_keeps P (cf_getFollowUpMessages c)
     \<and> (\<forall>x. option_keeps P (map_option (\<lambda>f. f x) (cf_beforeToolCall c)))
     \<and> (\<forall>x r b. option_keeps P (map_option (\<lambda>f. f x r b) (cf_afterToolCall c)))
     \<and> (\<forall>rq. world_keeps P (cf_stream c rq)) \<and> world_keeps P (cf_now c)"

definition tools_keep :: "(agent_event list \<Rightarrow> 'w \<Rightarrow> bool) \<Rightarrow> 'w agent_context \<Rightarrow> bool" where
  "tools_keep P ctx \<longleftrightarrow>
     (\<forall>tools t. ac_tools ctx = Some tools \<longrightarrow> t \<in> set tools \<longrightarrow> (\<forall>i a w. tool_keeps P (at_execute t i a w)))"

named_theorems keeps_rules \<open>operations that keep a predicate of the trace and the world\<close>

lemma world_keeps_bind [keeps_rules]:
  "world_keeps P f \<Longrightarrow> (\<And>a. world_keeps P (g a)) \<Longrightarrow> world_keeps P (bind_eff f g)"
  unfolding world_keeps_def bind_eff_def by (fastforce split: prod.splits sum.splits)

lemma world_keeps_catch [keeps_rules]:
  "world_keeps P f \<Longrightarrow> (\<And>m. world_keeps P (h m)) \<Longrightarrow> world_keeps P (catch_eff f h)"
  unfolding world_keeps_def catch_eff_def by (fastforce split: prod.splits sum.splits)

lemma world_keeps_basic [keeps_rules]:
  "world_keeps P (ret a)" "world_keeps P (throw m)" "world_keeps P (lift_result r)"
  by (simp_all add: world_keeps_def ret_def throw_def lift_result_def)

lemma loop_keeps_bind [keeps_rules]:
  "loop_keeps P f \<Longrightarrow> (\<And>a. loop_keeps P (g a)) \<Longrightarrow> loop_keeps P (bind_eff f g)"
  unfolding loop_keeps_def bind_eff_def by (fastforce split: prod.splits sum.splits)

lemma loop_keeps_bind_dep:
  "loop_keeps P f \<Longrightarrow> (\<And>a s s'. f s = (Inr a, s') \<Longrightarrow> loop_keeps P (g a)) \<Longrightarrow> loop_keeps P (bind_eff f g)"
  unfolding loop_keeps_def bind_eff_def by (fastforce split: prod.splits sum.splits)

lemma loop_keeps_catch [keeps_rules]:
  "loop_keeps P f \<Longrightarrow> (\<And>m. loop_keeps P (h m)) \<Longrightarrow> loop_keeps P (catch_eff f h)"
  unfolding loop_keeps_def catch_eff_def by (fastforce split: prod.splits sum.splits)

lemma loop_keeps_basic [keeps_rules]:
  "loop_keeps P (ret a)" "loop_keeps P (throw m)" "loop_keeps P get_messages" "loop_keeps P (push_message x)"
  "loop_keeps P (set_last_message x)" "loop_keeps P (push_new x)" "loop_keeps P (settle err e)"
  by (simp_all add: loop_keeps_def ret_def throw_def get_messages_def push_message_def set_last_message_def
      push_new_def settle_def split: option.split)

lemma loop_keeps_on_world [keeps_rules]: "world_keeps P f \<Longrightarrow> loop_keeps P (on_world f)"
  unfolding loop_keeps_def world_keeps_def on_world_def by (auto split: prod.split) (metis snd_conv)

lemma world_keeps_guard:
  "world_keeps P g \<Longrightarrow> world_keeps P (\<lambda>w. if b w then (Inr a, w) else g w)"
  by (simp add: world_keeps_def)

lemma loop_keeps_state: "(\<And>s. loop_keeps P (f s)) \<Longrightarrow> loop_keeps P (\<lambda>s. f s s)"
  by (simp add: loop_keeps_def)

lemma loop_keeps_each [keeps_rules]: "(\<And>x. loop_keeps P (f x)) \<Longrightarrow> loop_keeps P (each_eff f xs)"
  by (induction xs) (auto intro: keeps_rules)

lemma loop_keeps_run:
  "loop_keeps P f \<Longrightarrow> P (ls_trace s) (ls_world s) \<Longrightarrow> f s = (r, s') \<Longrightarrow> P (ls_trace s') (ls_world s')"
  by (auto simp: loop_keeps_def)

locale loop_invariant =
  fixes P :: "agent_event list \<Rightarrow> 'w \<Rightarrow> bool"
    and ctx :: "'w agent_context"
    and c :: "'w agent_config"
  assumes hooks: "hooks_keep P c" and tools: "tools_keep P ctx"
    and events: "(\<And>ms. e \<noteq> AgentEnd ms) \<Longrightarrow> P tr w \<Longrightarrow> P (tr @ [e]) (snd (cf_emit c e w))"
begin

lemma keeps_emit: "(\<And>ms. e \<noteq> AgentEnd ms) \<Longrightarrow> loop_keeps P (emit c e)"
  using events unfolding loop_keeps_def emit_def on_world_def by (auto split: prod.split) (metis snd_conv)

lemma hook_rules:
  "world_keeps P (cf_convertToLlm c ms)" "world_keeps P (cf_stream c rq)" "world_keeps P (cf_now c)"
  "cf_transformContext c = Some f1 \<Longrightarrow> world_keeps P (f1 ms)"
  "cf_getApiKey c = Some f2 \<Longrightarrow> world_keeps P (f2 p)"
  "cf_shouldStopAfterTurn c = Some f3 \<Longrightarrow> world_keeps P (f3 x)"
  "cf_getSteeringMessages c = Some f4 \<Longrightarrow> world_keeps P f4"
  "cf_getFollowUpMessages c = Some f5 \<Longrightarrow> world_keeps P f5"
  "cf_beforeToolCall c = Some f6 \<Longrightarrow> world_keeps P (f6 y)"
  "cf_afterToolCall c = Some f7 \<Longrightarrow> world_keeps P (f7 y r b)"
  using hooks by (simp_all add: hooks_keep_def option_keeps_def)

lemma keeps_api_key: "world_keeps P (resolve_api_key c)"
proof (cases "cf_getApiKey c")
  case None
  then show ?thesis unfolding resolve_api_key_def by (simp add: keeps_rules)
next
  case (Some f)
  then show ?thesis unfolding resolve_api_key_def by (simp add: keeps_rules hook_rules)
qed

lemma keeps_repair: "world_keeps P (repairToolCallArguments c tool tc err)"
  unfolding repairToolCallArguments_def Let_def
  by (intro world_keeps_guard keeps_rules keeps_api_key hook_rules) (simp add: keeps_rules)

lemma keeps_validated: "world_keeps P (validated_call c tool tc)"
  unfolding validated_call_def Let_def
  by (auto intro!: keeps_rules keeps_repair split: sum.split option.split)

lemma keeps_ask_before: "world_keeps P (ask_before c am tc a ms)"
proof (cases "cf_beforeToolCall c")
  case None
  then show ?thesis unfolding ask_before_def by (simp add: keeps_rules)
next
  case (Some f)
  then show ?thesis unfolding ask_before_def by (simp add: keeps_rules hook_rules)
qed

lemma keeps_prepare: "world_keeps P (prepareToolCall ctx c am tc ms)"
  unfolding prepareToolCall_def try_prepare_def
  by (auto intro!: keeps_rules keeps_validated keeps_ask_before split: option.split)

lemma keeps_start: "loop_keeps P (start_call ctx c am tc)"
  unfolding start_call_def by (intro keeps_rules keeps_emit keeps_prepare) simp

lemma keeps_run_tool: "tool_keeps P k \<Longrightarrow> loop_keeps P (run_tool c p k err)"
proof (induction k arbitrary: err)
  case (Update r k)
  have "loop_keeps P (emit c (update_event p r))" by (rule keeps_emit) (simp add: update_event_def)
  with Update show ?case by (fastforce simp: loop_keeps_def split: prod.split)
next
  case (Step u k)
  then show ?case by (auto simp: loop_keeps_def)
qed (simp_all add: keeps_rules)

lemma prepared_tool:
  assumes "prepareToolCall ctx c am tc ms w = (Inr (Prepared p), w')"
  shows "tool_keeps P (start_tool p v)"
proof -
  from assms obtain tool where t: "Option.bind (ac_tools ctx) (find (\<lambda>t. at_name t = tc_name tc)) = Some tool"
    "catch_eff (try_prepare c tool am tc ms) (\<lambda>m. ret (Immediate (createErrorToolResult m) True)) w = (Inr (Prepared p), w')"
    by (auto simp: prepareToolCall_def ret_def split: option.splits)
  from catch_eff_Inr [OF t(2)] have "pc_tool p = tool" by (auto simp: eff_simps dest: try_prepare_checked)
  moreover from t(1) obtain ts where "ac_tools ctx = Some ts" "tool \<in> set ts"
    by (auto simp: Option.bind_eq_Some_conv find_Some_iff)
  ultimately show ?thesis using tools by (auto simp: tools_keep_def start_tool_def)
qed

lemma started_tool:
  assumes "start_call ctx c am tc s = (Inr (Prepared p), s')"
  shows "tool_keeps P (start_tool p v)"
proof -
  from assms obtain s1 where "on_world (prepareToolCall ctx c am tc (ls_messages s1)) s1 = (Inr (Prepared p), s')"
    by (auto simp: start_call_def eff_simps)
  from on_world_Inr [OF this] show ?thesis by (elim exE) (rule prepared_tool)
qed

lemma keeps_execute: "(\<And>v. tool_keeps P (start_tool p v)) \<Longrightarrow> loop_keeps P (executePreparedToolCall c p)"
  unfolding executePreparedToolCall_def by (rule loop_keeps_state) (rule keeps_run_tool)

lemma keeps_finalize: "loop_keeps P (finalizeExecutedToolCall c am p e)"
proof (cases "cf_afterToolCall c")
  case None
  then show ?thesis unfolding finalizeExecutedToolCall_def by (simp add: keeps_rules)
next
  case (Some f)
  then show ?thesis unfolding finalizeExecutedToolCall_def by (simp add: keeps_rules hook_rules)
qed

lemma keeps_emit_end: "loop_keeps P (emitToolExecutionEnd c f)"
  unfolding emitToolExecutionEnd_def by (rule keeps_emit) simp

lemma keeps_result: "loop_keeps P (createToolResultMessage c f)" "loop_keeps P (emitToolResultMessage c m)"
  unfolding createToolResultMessage_def emitToolResultMessage_def by (intro keeps_rules hook_rules keeps_emit; simp)+

lemma keeps_outcome:
  assumes "start_call ctx c am tc s = (Inr prep, s')"
  shows "loop_keeps P (case prep of Immediate r e \<Rightarrow> ret \<lparr>fo_toolCall = tc, fo_result = r, fo_isError = e\<rparr>
        | Prepared p \<Rightarrow> bind_eff (executePreparedToolCall c p) (finalizeExecutedToolCall c am p))"
  using started_tool assms
  by (cases prep) (auto intro!: keeps_rules keeps_execute keeps_finalize)

lemma keeps_sequential: "loop_keeps P (sequential_calls ctx c am tcs)"
proof (induction tcs)
  case (Cons tc tcs)
  show ?case unfolding sequential_calls.simps
  proof (rule loop_keeps_bind_dep [OF keeps_start])
    fix prep s s'
    assume "start_call ctx c am tc s = (Inr prep, s')"
    note out = keeps_outcome [OF this]
    show "loop_keeps P (bind_eff
       (case prep of Immediate r e \<Rightarrow> ret \<lparr>fo_toolCall = tc, fo_result = r, fo_isError = e\<rparr>
        | Prepared p \<Rightarrow> bind_eff (executePreparedToolCall c p) (finalizeExecutedToolCall c am p)) (\<lambda>finalized.
     bind_eff (emitToolExecutionEnd c finalized) (\<lambda>_. bind_eff (createToolResultMessage c finalized) (\<lambda>m.
     bind_eff (emitToolResultMessage c m) (\<lambda>_. bind_eff (sequential_calls ctx c am tcs)
      (\<lambda>rest. ret ((finalized, m) # rest)))))))"
      by (intro keeps_rules out keeps_emit_end keeps_result Cons.IH)
  qed
qed (simp add: keeps_rules)

section \<open>Parallel batches\<close>

definition slot_keeps :: "'w slot \<Rightarrow> bool" where
  "slot_keeps sl \<longleftrightarrow> (case sl of Running p k err \<Rightarrow> tool_keeps P k | _ \<Rightarrow> True)"

definition entry_keeps :: "'w prepared_call + finalized_outcome \<Rightarrow> bool" where
  "entry_keeps e \<longleftrightarrow> (case e of Inl p \<Rightarrow> \<forall>v. tool_keeps P (start_tool p v) | Inr f \<Rightarrow> True)"

lemma keeps_preflight:
  "loop_keeps P (preflight ctx c am tcs)
     \<and> (\<forall>s es s'. preflight ctx c am tcs s = (Inr es, s') \<longrightarrow> list_all entry_keeps es)"
proof (induction tcs)
  case (Cons tc tcs)
  let ?entry = "\<lambda>prep. case prep of
        Immediate r e \<Rightarrow> (let f = \<lparr>fo_toolCall = tc, fo_result = r, fo_isError = e\<rparr>
             in bind_eff (emitToolExecutionEnd c f) (\<lambda>_. ret (Inr f)))
      | Prepared p \<Rightarrow> ret (Inl p)"
  have k: "loop_keeps P (?entry prep)" for prep
    by (cases prep) (auto simp: Let_def intro!: keeps_rules keeps_emit_end)
  have "loop_keeps P (preflight ctx c am (tc # tcs))"
    unfolding preflight.simps by (intro keeps_rules keeps_start k conjunct1 [OF Cons.IH])
  moreover have "list_all entry_keeps es" if run: "preflight ctx c am (tc # tcs) s = (Inr es, s')" for s es s'
  proof -
    from run obtain prep s1 e s2 rest where r: "start_call ctx c am tc s = (Inr prep, s1)" "?entry prep s1 = (Inr e, s2)"
      "preflight ctx c am tcs s2 = (Inr rest, s')" "es = e # rest" by (auto simp: eff_simps)
    have "entry_keeps e" using r(1,2) started_tool by (cases prep) (auto simp: entry_keeps_def Let_def eff_simps)
    with r(3,4) Cons.IH show ?thesis by auto
  qed
  ultimately show ?case by blast
qed (auto simp: keeps_rules eff_simps)

lemma start_slots_keeps: "list_all entry_keeps es \<Longrightarrow> list_all slot_keeps (start_slots es w)"
  by (induction es w rule: start_slots.induct) (auto simp: entry_keeps_def slot_keeps_def)

lemma keeps_slot_step: "slot_keeps sl \<Longrightarrow> loop_keeps P (slot_step c am sl)"
proof (cases "(c, am, sl)" rule: slot_step.cases)
  case (3 c' am' p r k err)
  have "loop_keeps P (emit c (update_event p r))" by (rule keeps_emit) (simp add: update_event_def)
  with 3 show ?thesis by (fastforce simp: loop_keeps_def split: prod.split)
next
  case (4 c' am' p u k err)
  then show "slot_keeps sl \<Longrightarrow> loop_keeps P (slot_step c am sl)" by (simp add: slot_keeps_def loop_keeps_def)
qed (auto simp: slot_keeps_def intro!: keeps_rules keeps_finalize keeps_emit_end)

lemma slot_step_keeps: "slot_keeps sl \<Longrightarrow> slot_step c am sl s = (Inr sl', s') \<Longrightarrow> slot_keeps sl'"
  by (cases "(c, am, sl)" rule: slot_step.cases)
    (auto simp: slot_keeps_def eff_simps settle_def split: option.splits prod.splits)

lemma keeps_scheduled:
  "list_all slot_keeps sls \<Longrightarrow> loop_keeps P (scheduled c am is sls)
     \<and> (\<forall>s sls' s'. scheduled c am is sls s = (Inr sls', s') \<longrightarrow> list_all slot_keeps sls')"
proof (induction "is" arbitrary: sls)
  case (Cons i rest)
  show ?case
  proof (cases "i < length sls")
    case True
    with Cons.prems have sl: "slot_keeps (sls ! i)" by (simp add: list_all_length)
    have upd: "list_all slot_keeps (sls[i := sl'])" if "slot_step c am (sls ! i) s = (Inr sl', s')" for sl' s s'
      using Cons.prems slot_step_keeps [OF sl that]
      by (simp add: list_all_length) (metis nth_list_update_eq nth_list_update_neq)
    have "loop_keeps P (scheduled c am (i # rest) sls)"
      using True Cons.IH [OF upd] by (auto intro!: loop_keeps_bind_dep [OF keeps_slot_step [OF sl]])
    moreover have "list_all slot_keeps sls'" if run: "scheduled c am (i # rest) sls s = (Inr sls', s')" for s sls' s'
    proof -
      from run True obtain a w' where "slot_step c am (sls ! i) s = (Inr a, w')"
        "scheduled c am rest (sls[i := a]) w' = (Inr sls', s')" by (auto simp: eff_simps)
      with Cons.IH [OF upd] show ?thesis by blast
    qed
    ultimately show ?thesis by blast
  qed (use Cons in auto)
qed (auto simp: keeps_rules eff_simps)

lemma keeps_complete: "slot_keeps sl \<Longrightarrow> loop_keeps P (complete_slot c am sl)"
  by (cases sl) (auto simp: slot_keeps_def intro!: keeps_rules keeps_run_tool keeps_finalize keeps_emit_end)

lemma keeps_complete_all: "list_all slot_keeps sls \<Longrightarrow> loop_keeps P (complete_slots c am sls)"
  by (induction sls) (auto intro!: keeps_rules keeps_complete)

lemma keeps_emit_results: "loop_keeps P (emit_results c fs)"
  by (induction fs) (auto intro!: keeps_rules keeps_result)

lemma keeps_parallel: "loop_keeps P (executeToolCallsParallel ctx c sch am tcs)"
  unfolding executeToolCallsParallel_def
proof (rule loop_keeps_bind_dep [OF conjunct1 [OF keeps_preflight]])
  fix es s s'
  assume "preflight ctx c am tcs s = (Inr es, s')"
  with keeps_preflight have es: "list_all entry_keeps es" by blast
  note sl = start_slots_keeps [OF es]
  show "loop_keeps P (bind_eff (\<lambda>s. scheduled c am sch (start_slots es (ls_world s)) s) (\<lambda>slots.
     bind_eff (complete_slots c am slots) (\<lambda>fs. bind_eff (emit_results c fs)
      (\<lambda>ms. ret (ms, shouldTerminateToolBatch fs)))))"
  proof (rule loop_keeps_bind_dep)
    show "loop_keeps P (\<lambda>s. scheduled c am sch (start_slots es (ls_world s)) s)"
      by (rule loop_keeps_state) (rule conjunct1 [OF keeps_scheduled [OF sl]])
    show "loop_keeps P (bind_eff (complete_slots c am slots) (\<lambda>fs. bind_eff (emit_results c fs)
      (\<lambda>ms. ret (ms, shouldTerminateToolBatch fs))))"
      if "scheduled c am sch (start_slots es (ls_world t)) t = (Inr slots, t')" for slots t t'
      using that keeps_scheduled [OF sl] by (intro keeps_rules keeps_complete_all keeps_emit_results) blast
  qed
qed

lemma keeps_batch: "loop_keeps P (executeToolCalls ctx c sch am)"
  unfolding executeToolCalls_def executeToolCallsSequential_def Let_def
  by (auto intro!: keeps_rules keeps_sequential keeps_parallel)

section \<open>Turns\<close>

lemma keeps_finish: "loop_keeps P (finish_response c b m)"
  unfolding finish_response_def add_final_def by (auto intro!: keeps_rules keeps_emit)

lemma keeps_consume: "loop_keeps P (consume c final b es)"
proof (induction es arbitrary: b)
  case (Cons e es)
  then show ?case by (cases e) (auto intro!: keeps_rules keeps_emit keeps_finish)
qed (simp add: keeps_finish)

lemma keeps_request: "world_keeps P (request_response ctx c ms)"
proof (cases "cf_transformContext c")
  case None
  then show ?thesis unfolding request_response_def by (simp add: keeps_rules hook_rules keeps_api_key)
next
  case (Some f)
  then show ?thesis unfolding request_response_def by (simp add: keeps_rules hook_rules keeps_api_key)
qed

lemma keeps_stream: "loop_keeps P (streamAssistantResponse ctx c)"
  unfolding streamAssistantResponse_def by (intro keeps_rules keeps_request keeps_consume)

lemma keeps_inject: "loop_keeps P (inject c m)" "loop_keeps P (announce c m)" "loop_keeps P (add_result x)"
  unfolding inject_def announce_def add_result_def by (intro keeps_rules keeps_emit; simp)+

lemma keeps_poll: "loop_keeps P (poll (cf_getSteeringMessages c))" "loop_keeps P (poll (cf_getFollowUpMessages c))"
proof -
  have "loop_keeps P (poll f)" if "\<And>g. f = Some g \<Longrightarrow> world_keeps P g" for f
    using that by (cases f) (simp_all add: poll_def keeps_rules)
  with hook_rules(7,8) show "loop_keeps P (poll (cf_getSteeringMessages c))" "loop_keeps P (poll (cf_getFollowUpMessages c))"
    by blast+
qed

lemma keeps_ask: "loop_keeps P (ask_stop c m rs)"
proof (cases "cf_shouldStopAfterTurn c")
  case None
  then show ?thesis unfolding ask_stop_def by (simp add: keeps_rules)
next
  case (Some f)
  have "loop_keeps P (\<lambda>s. on_world (f \<lparr>st_message = m, st_toolResults = rs, st_messages = ls_messages s,
                            st_newMessages = ls_newMessages s\<rparr>) s)"
    by (rule loop_keeps_state) (intro keeps_rules hook_rules(6) [OF Some])
  with Some show ?thesis unfolding ask_stop_def by simp
qed

lemma keeps_tools_part:
  "loop_keeps P (if tool_calls_of (am_content m) \<noteq> [] then executeToolCalls ctx c sch m else ret ([], True))"
  by (simp add: keeps_rules keeps_batch)

end

section \<open>Sinks that accept the last event\<close>

text \<open>When \<open>agent_end\<close> keeps the predicate too, so does a whole run, however it ends.\<close>

locale run_invariant = loop_invariant P ctx c
  for P :: "agent_event list \<Rightarrow> 'w \<Rightarrow> bool" and ctx :: "'w agent_context" and c :: "'w agent_config" +
  assumes last_event: "P tr w \<Longrightarrow> P (tr @ [AgentEnd ms]) (snd (cf_emit c (AgentEnd ms) w))"
begin

lemma keeps_end: "loop_keeps P (end_run c)"
  using last_event unfolding end_run_def loop_keeps_def emit_def on_world_def
  by (auto split: prod.split) (metis snd_conv)

lemma keeps_respond: "loop_keeps P (respond ctx c sch)"
  unfolding respond_def
  by (intro keeps_rules keeps_stream)
    (auto intro!: keeps_rules keeps_end keeps_emit keeps_batch keeps_inject keeps_ask keeps_poll)

lemma keeps_turn: "loop_keeps P (turn ctx c sch first pending)"
  unfolding turn_def by (auto intro!: keeps_rules keeps_respond keeps_inject keeps_emit)

lemma run_turns_keeps:
  "run_turns ctx c sch n first hasMore pending s = Some (r, s') \<Longrightarrow> P (ls_trace s) (ls_world s) \<Longrightarrow>
     P (ls_trace s') (ls_world s')"
proof (induction n arbitrary: sch first hasMore pending s)
  case (Suc n)
  show ?case
  proof (cases "hasMore \<or> pending \<noteq> []")
    case True
    obtain t s1 where t: "turn ctx c (sch 0) first pending s = (t, s1)" by fastforce
    note P1 = loop_keeps_run [OF keeps_turn Suc.prems(2) t]
    from t True Suc.prems(1) Suc.IH [OF _ P1] P1 show ?thesis
      by (auto split: sum.splits turn_result.splits)
  next
    case False
    obtain t s1 where t: "poll (cf_getFollowUpMessages c) s = (t, s1)" by fastforce
    note P1 = loop_keeps_run [OF keeps_poll(2) Suc.prems(2) t]
    from t False Suc.prems(1) Suc.IH [OF _ P1] P1 loop_keeps_run [OF keeps_end P1] show ?thesis
      by (auto split: sum.splits if_splits)
  qed
qed simp

lemma runLoop_keeps:
  assumes "runLoop ctx c sch n s = Some (r, s')" "P (ls_trace s) (ls_world s)"
  shows "P (ls_trace s') (ls_world s')"
proof -
  obtain t s1 where t: "poll (cf_getSteeringMessages c) s = (t, s1)" by fastforce
  note P1 = loop_keeps_run [OF keeps_poll(1) assms(2) t]
  from assms(1) t P1 run_turns_keeps [OF _ P1] show ?thesis
    by (auto simp: runLoop_def split: sum.splits)
qed

lemma runAgentLoop_keeps:
  assumes "runAgentLoop prompts messages ctx c sch n w = Some (r, s)" "P [] w"
  shows "P (ls_trace s) (ls_world s)"
proof -
  let ?s0 = "\<lparr>ls_messages = messages @ prompts, ls_newMessages = prompts, ls_trace = [], ls_world = w\<rparr>"
  let ?f = "bind_eff (emit c AgentStart) (\<lambda>_. bind_eff (emit c TurnStart) (\<lambda>_. each_eff (announce c) prompts))"
  have k: "loop_keeps P ?f" by (intro keeps_rules keeps_emit keeps_inject) simp_all
  obtain t s1 where t: "?f ?s0 = (t, s1)" by fastforce
  have P1: "P (ls_trace s1) (ls_world s1)" by (rule loop_keeps_run [OF k _ t]) (simp add: assms(2))
  from assms(1) t P1 runLoop_keeps [OF _ P1] show ?thesis
    by (auto simp: runAgentLoop_def run_result_def split: sum.splits)
qed

lemma runAgentLoopContinue_keeps:
  assumes "runAgentLoopContinue messages ctx c sch n w = Some (r, s)" "P [] w"
  shows "P (ls_trace s) (ls_world s)"
proof -
  let ?s0 = "\<lparr>ls_messages = messages, ls_newMessages = [], ls_trace = [], ls_world = w\<rparr>"
  let ?f = "bind_eff (emit c AgentStart) (\<lambda>_. emit c TurnStart)"
  have k: "loop_keeps P ?f" by (intro keeps_rules keeps_emit) simp_all
  obtain t s1 where t: "?f ?s0 = (t, s1)" by fastforce
  have P1: "P (ls_trace s1) (ls_world s1)" by (rule loop_keeps_run [OF k _ t]) (simp add: assms(2))
  from assms(1) t P1 runLoop_keeps [OF _ P1] assms(2) show ?thesis
    by (auto simp: runAgentLoopContinue_def Let_def run_result_def split: sum.splits if_splits)
qed

end

section \<open>Sinks that never fail\<close>

text \<open>A run with such a sink that fails has not sent \<open>agent_end\<close>.\<close>

locale safe_sink = loop_invariant P ctx c
  for P :: "agent_event list \<Rightarrow> 'w \<Rightarrow> bool" and ctx :: "'w agent_context" and c :: "'w agent_config" +
  assumes accepts: "\<exists>w'. cf_emit c e w = (Inr (), w')"
begin

definition open_unless_stopped :: "('w, turn_result) loop_eff \<Rightarrow> bool" where
  "open_unless_stopped f \<longleftrightarrow>
     (\<forall>s. P (ls_trace s) (ls_world s) \<longrightarrow> fst (f s) \<noteq> Inr Stopped \<longrightarrow> P (ls_trace (snd (f s))) (ls_world (snd (f s))))"

lemma open_keeps: "loop_keeps P f \<Longrightarrow> open_unless_stopped f"
  by (simp add: open_unless_stopped_def loop_keeps_def)

lemma open_bind: "loop_keeps P f \<Longrightarrow> (\<And>a. open_unless_stopped (g a)) \<Longrightarrow> open_unless_stopped (bind_eff f g)"
  unfolding open_unless_stopped_def loop_keeps_def bind_eff_def by (fastforce split: prod.splits sum.splits)

lemma emit_accepts: "\<exists>s'. emit c e s = (Inr (), s')"
  using accepts [of e "ls_world s"] by (auto simp: emit_def on_world_def)

lemma open_end: "open_unless_stopped (bind_eff (end_run c) (\<lambda>_. ret Stopped))"
proof -
  have "fst (bind_eff (end_run c) (\<lambda>_. ret Stopped) s) = Inr Stopped" for s
    using emit_accepts [of "AgentEnd (ls_newMessages s)" s] by (auto simp: end_run_def bind_eff_def ret_def)
  then show ?thesis by (simp add: open_unless_stopped_def)
qed

lemma open_ret: "open_unless_stopped (ret x)"
  by (simp add: open_unless_stopped_def ret_def)

lemma open_respond: "open_unless_stopped (respond ctx c sch)"
  unfolding respond_def
  by (intro open_bind keeps_stream keeps_rules)
    (auto intro!: open_bind open_end open_ret keeps_rules keeps_emit keeps_batch keeps_inject keeps_ask keeps_poll)

lemma open_turn: "open_unless_stopped (turn ctx c sch first pending)"
  unfolding turn_def by (auto intro!: open_bind open_respond keeps_rules keeps_inject keeps_emit)

lemma run_turns_open:
  "run_turns ctx c sch n first hasMore pending s = Some (Inl e, s') \<Longrightarrow> P (ls_trace s) (ls_world s) \<Longrightarrow>
     P (ls_trace s') (ls_world s')"
proof (induction n arbitrary: sch first hasMore pending s)
  case (Suc n)
  show ?case
  proof (cases "hasMore \<or> pending \<noteq> []")
    case True
    obtain t s1 where t: "turn ctx c (sch 0) first pending s = (t, s1)" by fastforce
    have P1: "t \<noteq> Inr Stopped \<Longrightarrow> P (ls_trace s1) (ls_world s1)"
      using open_turn [of "sch 0" first pending] Suc.prems(2) t by (simp add: open_unless_stopped_def) (metis fst_conv snd_conv)
    from t True Suc.prems(1) Suc.IH P1 show ?thesis
      by (auto split: sum.splits turn_result.splits)
  next
    case False
    obtain t s1 where t: "poll (cf_getFollowUpMessages c) s = (t, s1)" by fastforce
    note P1 = loop_keeps_run [OF keeps_poll(2) Suc.prems(2) t]
    have "fst (end_run c s1) = Inr ()" using emit_accepts [of "AgentEnd (ls_newMessages s1)" s1] by (auto simp: end_run_def)
    with t False Suc.prems(1) Suc.IH [OF _ P1] P1 show ?thesis
      by (auto split: sum.splits if_splits)
  qed
qed simp

lemma runAgentLoop_open:
  assumes "runAgentLoop prompts messages ctx c sch n w = Some (Inl e, s)" "P [] w"
  shows "P (ls_trace s) (ls_world s)"
proof -
  let ?s0 = "\<lparr>ls_messages = messages @ prompts, ls_newMessages = prompts, ls_trace = [], ls_world = w\<rparr>"
  let ?f = "bind_eff (emit c AgentStart) (\<lambda>_. bind_eff (emit c TurnStart) (\<lambda>_. each_eff (announce c) prompts))"
  have k: "loop_keeps P ?f" by (intro keeps_rules keeps_emit keeps_inject) simp_all
  obtain t s1 where t: "?f ?s0 = (t, s1)" by fastforce
  have P1: "P (ls_trace s1) (ls_world s1)" by (rule loop_keeps_run [OF k _ t]) (simp add: assms(2))
  obtain q s2 where q: "poll (cf_getSteeringMessages c) s1 = (q, s2)" by fastforce
  note P2 = loop_keeps_run [OF keeps_poll(1) P1 q]
  have m: "map_sum id g x = Inl y \<longleftrightarrow> x = Inl y" for g :: "unit \<Rightarrow> agent_message list" and x :: "jsstring + unit" and y
    by (cases x) auto
  from assms(1) t P1 P2 q run_turns_open [OF _ P2] show ?thesis
    by (auto simp: runAgentLoop_def run_result_def runLoop_def m split: sum.splits)
qed

end

end
