(* ===== verification/Event_Stream.thy ===== *)
theory Event_Stream
  imports Js_Prelude
begin

text \<open>
  The asynchronous event stream of \<open>packages/ai/src/utils/event-stream.ts\<close>: a queue of
  events, the consumers that wait for one, the end mark and the final result.

  \<^item> A waiting consumer is its number. An operation returns the new state and the
    deliveries it makes: a consumer with its event, or with \<open>None\<close> for the end.
  \<^item> The result promise keeps the first value it is resolved with.
  \<^item> \<open>next_event\<close> is one round of the loop of the async iterator.
\<close>

section \<open>The stream\<close>

record ('t, 'r) event_stream =
  es_queue :: "'t list"
  es_waiting :: "nat list"
  es_done :: bool
  es_result :: "'r option"

type_synonym 't delivery = "nat \<times> 't option"

definition new_stream :: "('t, 'r) event_stream" where
  "new_stream = \<lparr>es_queue = [], es_waiting = [], es_done = False, es_result = None\<rparr>"

definition resolveFinalResult :: "'r \<Rightarrow> ('t, 'r) event_stream \<Rightarrow> ('t, 'r) event_stream" where
  "resolveFinalResult r st = (if es_result st = None then st\<lparr>es_result := Some r\<rparr> else st)"

definition push ::
    "('t \<Rightarrow> bool) \<Rightarrow> ('t \<Rightarrow> 'r) \<Rightarrow> 't \<Rightarrow> ('t, 'r) event_stream \<Rightarrow> 't delivery list \<times> ('t, 'r) event_stream" where
  "push isComplete extractResult event st =
     (if es_done st then ([], st)
      else
        (let st1 = (if isComplete event then resolveFinalResult (extractResult event) (st\<lparr>es_done := True\<rparr>) else st)
         in case es_waiting st1 of
              waiter # rest \<Rightarrow> ([(waiter, Some event)], st1\<lparr>es_waiting := rest\<rparr>)
            | [] \<Rightarrow> ([], st1\<lparr>es_queue := es_queue st1 @ [event]\<rparr>)))"

definition end_stream ::
    "'r option \<Rightarrow> ('t, 'r) event_stream \<Rightarrow> 't delivery list \<times> ('t, 'r) event_stream" where
  "end_stream result st =
     (let st1 = st\<lparr>es_done := True\<rparr>;
          st2 = (case result of Some r \<Rightarrow> resolveFinalResult r st1 | None \<Rightarrow> st1)
      in (map (\<lambda>waiter. (waiter, None)) (es_waiting st2), st2\<lparr>es_waiting := []\<rparr>))"

definition next_event :: "nat \<Rightarrow> ('t, 'r) event_stream \<Rightarrow> 't delivery list \<times> ('t, 'r) event_stream" where
  "next_event consumer st =
     (case es_queue st of
        e # rest \<Rightarrow> ([(consumer, Some e)], st\<lparr>es_queue := rest\<rparr>)
      | [] \<Rightarrow>
          (if es_done st then ([(consumer, None)], st)
           else ([], st\<lparr>es_waiting := es_waiting st @ [consumer]\<rparr>)))"

section \<open>Streams in use\<close>

text \<open>
  A stream with its consumers: what each has received, and which have been told the end.
  A consumer asks again only when it has an answer and the loop has not ended.
\<close>

datatype ('t, 'r) stream_op = Push 't | End "'r option" | Next nat

record ('t, 'r) stream_system =
  sy_stream :: "('t, 'r) event_stream"
  sy_received :: "(nat \<times> 't) list"
  sy_finished :: "nat list"

definition new_system :: "('t, 'r) stream_system" where
  "new_system = \<lparr>sy_stream = new_stream, sy_received = [], sy_finished = []\<rparr>"

fun receive :: "'t delivery \<Rightarrow> ('t, 'r) stream_system \<Rightarrow> ('t, 'r) stream_system" where
  "receive (i, Some e) sy = sy\<lparr>sy_received := sy_received sy @ [(i, e)]\<rparr>"
| "receive (i, None) sy = sy\<lparr>sy_finished := sy_finished sy @ [i]\<rparr>"

definition deliver ::
    "'t delivery list \<times> ('t, 'r) event_stream \<Rightarrow> ('t, 'r) stream_system \<Rightarrow> ('t, 'r) stream_system" where
  "deliver r sy = fold receive (fst r) (sy\<lparr>sy_stream := snd r\<rparr>)"

fun system_step ::
    "('t \<Rightarrow> bool) \<Rightarrow> ('t \<Rightarrow> 'r) \<Rightarrow> ('t, 'r) stream_op \<Rightarrow> ('t, 'r) stream_system \<Rightarrow> ('t, 'r) stream_system" where
  "system_step ic ex (Push e) sy = deliver (push ic ex e (sy_stream sy)) sy"
| "system_step ic ex (End r) sy = deliver (end_stream r (sy_stream sy)) sy"
| "system_step ic ex (Next i) sy =
     (if i \<in> set (es_waiting (sy_stream sy)) \<or> i \<in> set (sy_finished sy) then sy
      else deliver (next_event i (sy_stream sy)) sy)"

definition system_run ::
    "('t \<Rightarrow> bool) \<Rightarrow> ('t \<Rightarrow> 'r) \<Rightarrow> ('t, 'r) stream_op list \<Rightarrow> ('t, 'r) stream_system \<Rightarrow> ('t, 'r) stream_system" where
  "system_run ic ex ops sy = fold (system_step ic ex) ops sy"

section \<open>What a channel promises\<close>

text \<open>
  The abstract channel: the events accepted until it closes, whether it is closed, and the
  first result.
\<close>

record ('t, 'r) channel =
  ch_accepted :: "'t list"
  ch_closed :: bool
  ch_result :: "'r option"

definition new_channel :: "('t, 'r) channel" where
  "new_channel = \<lparr>ch_accepted = [], ch_closed = False, ch_result = None\<rparr>"

definition settle_result :: "'r option \<Rightarrow> 'r option \<Rightarrow> 'r option" where
  "settle_result old new = (case old of Some r \<Rightarrow> Some r | None \<Rightarrow> new)"

fun channel_step ::
    "('t \<Rightarrow> bool) \<Rightarrow> ('t \<Rightarrow> 'r) \<Rightarrow> ('t, 'r) stream_op \<Rightarrow> ('t, 'r) channel \<Rightarrow> ('t, 'r) channel" where
  "channel_step ic ex (Push e) ch =
     (if ch_closed ch then ch
      else \<lparr>ch_accepted = ch_accepted ch @ [e], ch_closed = ic e,
            ch_result = (if ic e then settle_result (ch_result ch) (Some (ex e)) else ch_result ch)\<rparr>)"
| "channel_step ic ex (End r) ch = ch\<lparr>ch_closed := True, ch_result := settle_result (ch_result ch) r\<rparr>"
| "channel_step ic ex (Next i) ch = ch"

definition channel_run ::
    "('t \<Rightarrow> bool) \<Rightarrow> ('t \<Rightarrow> 'r) \<Rightarrow> ('t, 'r) stream_op list \<Rightarrow> ('t, 'r) channel \<Rightarrow> ('t, 'r) channel" where
  "channel_run ic ex ops ch = fold (channel_step ic ex) ops ch"

text \<open>
  The stream implements the channel: what was received and what is queued is, in order, what
  was accepted; nobody waits while there is an event; the end is told only
  when every accepted event has been received.
\<close>

definition implements :: "('t, 'r) stream_system \<Rightarrow> ('t, 'r) channel \<Rightarrow> bool" where
  "implements sy ch \<longleftrightarrow>
     ch_accepted ch = map snd (sy_received sy) @ es_queue (sy_stream sy)
     \<and> ch_closed ch = es_done (sy_stream sy) \<and> ch_result ch = es_result (sy_stream sy)
     \<and> (es_queue (sy_stream sy) = [] \<or> es_waiting (sy_stream sy) = [])
     \<and> (sy_finished sy \<noteq> [] \<longrightarrow> ch_closed ch \<and> es_queue (sy_stream sy) = [])"

lemma implements_new: "implements new_system new_channel"
  by (simp add: implements_def new_system_def new_channel_def new_stream_def)

lemma receive_ends:
  "fold receive (map (\<lambda>i. (i, None)) is) sy = sy\<lparr>sy_finished := sy_finished sy @ is\<rparr>"
  by (induction "is" arbitrary: sy) simp_all

lemma push_eq:
  "push ic ex e st =
     (if es_done st then ([], st)
      else
        (let st1 = st\<lparr>es_done := ic e,
                      es_result := (if ic e then settle_result (es_result st) (Some (ex e)) else es_result st)\<rparr>
         in case es_waiting st of
              i # rest \<Rightarrow> ([(i, Some e)], st1\<lparr>es_waiting := rest\<rparr>)
            | [] \<Rightarrow> ([], st1\<lparr>es_queue := es_queue st @ [e]\<rparr>)))"
  by (cases st) (simp add: push_def resolveFinalResult_def settle_result_def Let_def split: list.split option.split)

lemma implements_push: "implements sy ch \<Longrightarrow> implements (system_step ic ex (Push e) sy) (channel_step ic ex (Push e) ch)"
proof -
  assume a: "implements sy ch"
  show ?thesis
  proof (cases "es_done (sy_stream sy)")
    case True
    with a show ?thesis by (simp add: push_eq deliver_def implements_def)
  next
    case False
    with a have "sy_finished sy = []" by (simp add: implements_def) blast
    with a False show ?thesis
      by (cases "es_waiting (sy_stream sy)") (simp_all add: push_eq deliver_def implements_def)
  qed
qed

lemma end_stream_eq:
  "end_stream r st = (map (\<lambda>i. (i, None)) (es_waiting st),
     st\<lparr>es_done := True, es_result := settle_result (es_result st) r, es_waiting := []\<rparr>)"
  by (cases st) (auto simp: end_stream_def resolveFinalResult_def settle_result_def Let_def split: option.split)

lemma implements_end:
  "implements sy ch \<Longrightarrow> implements (system_step ic ex (End r) sy) (channel_step ic ex (End r) ch)"
  by (auto simp: end_stream_eq deliver_def receive_ends implements_def)

lemma implements_next:
  assumes a: "implements sy ch"
  shows "implements (system_step ic ex (Next i) sy) (channel_step ic ex (Next i) ch)"
proof (cases "i \<in> set (es_waiting (sy_stream sy)) \<or> i \<in> set (sy_finished sy)")
  case True
  with a show ?thesis by simp
next
  case False
  then have n: "system_step ic ex (Next i) sy = deliver (next_event i (sy_stream sy)) sy" by simp
  show ?thesis
  proof (cases "es_queue (sy_stream sy)")
    case Nil
    with a show ?thesis unfolding n
      by (cases "es_done (sy_stream sy)") (auto simp: next_event_def deliver_def implements_def)
  next
    case (Cons e rest)
    with a show ?thesis unfolding n by (simp add: next_event_def deliver_def implements_def)
  qed
qed

lemma implements_step: "implements sy ch \<Longrightarrow> implements (system_step ic ex op sy) (channel_step ic ex op ch)"
  by (cases op) (simp_all only: implements_push implements_end implements_next)

lemma implements_run: "implements sy ch \<Longrightarrow> implements (system_run ic ex ops sy) (channel_run ic ex ops ch)"
  unfolding system_run_def channel_run_def
proof (induction ops arbitrary: sy ch)
  case (Cons op ops)
  from Cons.IH [OF implements_step [OF Cons.prems]] show ?case by simp
qed simp

section \<open>The channel as an interface\<close>

text \<open>
  What a producer and its consumers rely on: some system whose steps follow the channel, that
  gives out what was accepted in order, and tells the end only after everything.
\<close>

locale event_channel =
  fixes step :: "('t, 'r) stream_op \<Rightarrow> 's \<Rightarrow> 's"
    and start :: 's
    and received :: "'s \<Rightarrow> 't list"
    and told_end :: "'s \<Rightarrow> bool"
    and outcome :: "'s \<Rightarrow> 'r option"
    and follows :: "'s \<Rightarrow> ('t, 'r) channel \<Rightarrow> bool"
    and ic :: "'t \<Rightarrow> bool"
    and ex :: "'t \<Rightarrow> 'r"
  assumes follows_start: "follows start new_channel"
    and follows_step: "follows s ch \<Longrightarrow> follows (step op s) (channel_step ic ex op ch)"
    and gives_in_order: "follows s ch \<Longrightarrow> \<exists>rest. ch_accepted ch = received s @ rest \<and> (told_end s \<longrightarrow> rest = [])"
    and outcome_channel: "follows s ch \<Longrightarrow> outcome s = ch_result ch"
begin

lemma follows_run: "follows s ch \<Longrightarrow> follows (fold step ops s) (channel_run ic ex ops ch)"
  unfolding channel_run_def
proof (induction ops arbitrary: s ch)
  case (Cons op ops)
  from Cons.IH [OF follows_step [OF Cons.prems]] show ?case by simp
qed simp

lemma received_accepted:
  assumes "told_end (fold step ops start)"
  shows "received (fold step ops start) = ch_accepted (channel_run ic ex ops new_channel)"
    "outcome (fold step ops start) = ch_result (channel_run ic ex ops new_channel)"
  using gives_in_order [OF follows_run [OF follows_start, of ops]] assms
    outcome_channel [OF follows_run [OF follows_start, of ops]] by auto

end

definition told :: "('t, 'r) stream_system \<Rightarrow> bool" where
  "told sy \<longleftrightarrow> sy_finished sy \<noteq> []"

definition received_events :: "('t, 'r) stream_system \<Rightarrow> 't list" where
  "received_events sy = map snd (sy_received sy)"

interpretation stream_channel: event_channel "system_step ic ex" new_system received_events told
    "\<lambda>sy. es_result (sy_stream sy)" implements ic ex for ic ex
proof (unfold_locales, goal_cases)
  case 1
  show ?case by (rule implements_new)
next
  case (2 s ch op)
  then show ?case by (rule implements_step)
next
  case (3 s ch)
  then show ?case by (auto simp: implements_def told_def received_events_def)
next
  case (4 s ch)
  then show ?case by (simp add: implements_def)
qed

section \<open>One producer\<close>

fun is_next :: "('t, 'r) stream_op \<Rightarrow> bool" where
  "is_next (Next i) = True"
| "is_next _ = False"

definition produced :: "('t, 'r) stream_op list \<Rightarrow> ('t, 'r) stream_op list" where
  "produced ops = filter (\<lambda>op. \<not> is_next op) ops"

lemma channel_run_produced: "channel_run ic ex (produced ops) ch = channel_run ic ex ops ch"
  unfolding channel_run_def produced_def
proof (induction ops arbitrary: ch)
  case (Cons op ops)
  then show ?case by (cases op) simp_all
qed simp

lemma channel_run_append: "channel_run ic ex (xs @ ys) ch = channel_run ic ex ys (channel_run ic ex xs ch)"
  by (simp add: channel_run_def)

lemma channel_run_pushes:
  "\<forall>e \<in> set es. \<not> ic e \<Longrightarrow> \<not> ch_closed ch \<Longrightarrow>
     channel_run ic ex (map Push es) ch = ch\<lparr>ch_accepted := ch_accepted ch @ es\<rparr>"
  unfolding channel_run_def by (induction es arbitrary: ch) simp_all

lemma channel_run_complete:
  assumes "\<forall>x \<in> set es. \<not> ic x" "ic e"
  shows "channel_run ic ex (map Push (es @ [e]) @ [End r]) new_channel
    = \<lparr>ch_accepted = es @ [e], ch_closed = True, ch_result = Some (ex e)\<rparr>"
  using assms channel_run_pushes [of es ic new_channel ex]
  by (simp add: channel_run_append) (simp add: channel_run_def new_channel_def settle_result_def)

section \<open>The end reaches a consumer\<close>

definition idle_after_end :: "('t, 'r) stream_system \<Rightarrow> bool" where
  "idle_after_end sy \<longleftrightarrow> es_done (sy_stream sy) \<and> es_waiting (sy_stream sy) = []"

lemma idle_end: "idle_after_end (system_step ic ex (End r) sy)"
  by (simp add: idle_after_end_def deliver_def end_stream_eq receive_ends)

lemma idle_step: "idle_after_end sy \<Longrightarrow> idle_after_end (system_step ic ex op sy)"
  by (cases op) (auto simp: idle_after_end_def deliver_def end_stream_eq push_eq next_event_def split: list.split)

lemma idle_run: "idle_after_end sy \<Longrightarrow> idle_after_end (system_run ic ex ops sy)"
  unfolding system_run_def
proof (induction ops arbitrary: sy)
  case (Cons op ops)
  from Cons.IH [OF idle_step [OF Cons.prems]] show ?case by simp
qed simp

lemma system_run_append: "system_run ic ex (xs @ ys) sy = system_run ic ex ys (system_run ic ex xs sy)"
  by (simp add: system_run_def)

lemma idle_ended:
  assumes "End r \<in> set ops"
  shows "idle_after_end (system_run ic ex ops sy)"
proof -
  from assms obtain xs ys where ops: "ops = (xs @ [End r]) @ ys" by (auto simp: in_set_conv_decomp)
  have "idle_after_end (system_run ic ex (xs @ [End r]) sy)"
    unfolding system_run_append by (simp add: system_run_def idle_end del: system_step.simps)
  from idle_run [OF this] show ?thesis unfolding ops system_run_append [of ic ex "xs @ [End r]"] .
qed

lemma drain_finishes:
  "idle_after_end sy \<Longrightarrow> length (es_queue (sy_stream sy)) < n \<Longrightarrow>
     i \<in> set (sy_finished (system_run ic ex (replicate n (Next i)) sy))"
proof (induction n arbitrary: sy)
  case (Suc n)
  let ?t = "system_step ic ex (Next i) sy"
  have run: "system_run ic ex (replicate (Suc n) (Next i)) sy = system_run ic ex (replicate n (Next i)) ?t"
    by (simp add: system_run_def)
  have stay: "i \<in> set (sy_finished sy) \<Longrightarrow> system_run ic ex (replicate m (Next i)) sy = sy" for m sy
    unfolding system_run_def by (induction m) simp_all
  show ?case
  proof (cases "i \<in> set (sy_finished sy)")
    case True
    with stay [OF this, of "Suc n"] show ?thesis by (simp del: replicate.simps)
  next
    case False
    then have t: "?t = deliver (next_event i (sy_stream sy)) sy" using Suc.prems(1) by (simp add: idle_after_end_def)
    show ?thesis
    proof (cases "es_queue (sy_stream sy)")
      case Nil
      with Suc.prems(1) have "i \<in> set (sy_finished ?t)"
        unfolding t by (simp add: idle_after_end_def next_event_def deliver_def)
      with stay [OF this] show ?thesis unfolding run by simp
    next
      case (Cons e rest)
      then have "length (es_queue (sy_stream ?t)) < n"
        using Suc.prems(2) unfolding t by (simp add: next_event_def deliver_def)
      from Suc.IH [OF idle_step [OF Suc.prems(1)] this] show ?thesis unfolding run .
    qed
  qed
qed simp

text \<open>The bound: never more is queued than was accepted.\<close>

lemma queued_accepted:
  "length (es_queue (sy_stream (system_run ic ex ops new_system))) \<le> length (ch_accepted (channel_run ic ex ops new_channel))"
  using implements_run [OF implements_new, of ic ex ops] by (simp add: implements_def)

lemma complete_stream:
  assumes prod: "produced ops = map Push (es @ [e]) @ [End r]"
    and ev: "\<forall>x \<in> set es. \<not> ic x" "ic e" and n: "length es + 1 < n"
    and sy: "sy = system_run ic ex (ops @ replicate n (Next i)) new_system"
  shows "received_events sy = es @ [e]" "i \<in> set (sy_finished sy)" "es_result (sy_stream sy) = Some (ex e)"
proof -
  have prod': "produced (ops @ replicate n (Next i)) = map Push (es @ [e]) @ [End r]"
    using prod by (simp add: produced_def)
  have "End r \<in> set (produced ops)" unfolding prod by simp
  then have "idle_after_end (system_run ic ex ops new_system)" by (auto simp: produced_def intro: idle_ended)
  moreover have "length (es_queue (sy_stream (system_run ic ex ops new_system))) < n"
    using queued_accepted [of ic ex ops] n channel_run_produced [of ic ex ops new_channel]
      channel_run_complete [OF ev, of ex r] by (simp add: prod)
  ultimately show fin: "i \<in> set (sy_finished sy)" unfolding sy system_run_append by (rule drain_finishes)
  have ch: "channel_run ic ex (ops @ replicate n (Next i)) new_channel
      = \<lparr>ch_accepted = es @ [e], ch_closed = True, ch_result = Some (ex e)\<rparr>"
    using channel_run_produced [of ic ex "ops @ replicate n (Next i)" new_channel] channel_run_complete [OF ev, of ex r]
    unfolding prod' by simp
  have "told sy" using fin by (auto simp: told_def)
  with stream_channel.received_accepted [of ic ex "ops @ replicate n (Next i)"] ch
  show "received_events sy = es @ [e]" "es_result (sy_stream sy) = Some (ex e)"
    unfolding sy by (simp_all add: system_run_def)
qed

end
