(* ===== verification/Agent_Loop_Properties.thy ===== *)
theory Agent_Loop_Properties
  imports Loop_Invariant Event_Stream
begin

text \<open>
  A concrete run of the agent loop for the witnesses: a model
  that asks for two tools and then answers, tools that report progress and count their calls,
  and a schedule that lets the second tool finish first.

  The properties of runs of the loop and of its tool calls.
\<close>

section \<open>A concrete run\<close>

definition demo_assistant :: "assistant_block list \<Rightarrow> stop_reason \<Rightarrow> assistant_message" where
  "demo_assistant bs r = \<lparr>am_content = bs, am_api = js ''api'', am_provider = js ''prov'', am_model = js ''model'',
     am_responseModel = None, am_responseId = None, am_diagnostics = None, am_usage = EMPTY_USAGE,
     am_stopReason = r, am_errorMessage = None, am_timestamp = 0\<rparr>"

definition demo_call :: "string \<Rightarrow> string \<Rightarrow> tool_call" where
  "demo_call i n = \<lparr>tc_id = js i, tc_name = js n, tc_arguments = JObj [], tc_thoughtSignature = None\<rparr>"

definition demo_result :: "string \<Rightarrow> agent_tool_result" where
  "demo_result t = \<lparr>atr_content = [TextBlock (js t) None], atr_details = None, atr_terminate = None\<rparr>"

definition demo_tool :: "string \<Rightarrow> nat agent_tool" where
  "demo_tool n = \<lparr>at_name = js n, at_parameters = JObj [], at_prepareArguments = None,
     at_execute = (\<lambda>i args w. Update (demo_result ''half'') (Step Suc (\<lambda>w. Finish (demo_result n)))),
     at_executionMode = None\<rparr>"

definition demo_ctx :: "nat agent_context" where
  "demo_ctx = \<lparr>ac_systemPrompt = [], ac_tools = Some [demo_tool ''a'', demo_tool ''b'']\<rparr>"

definition demo_asking :: assistant_message where
  "demo_asking = demo_assistant [AToolCall (demo_call ''1'' ''a''), AToolCall (demo_call ''2'' ''b'')] ToolUseR"

definition demo_answer :: assistant_message where
  "demo_answer = demo_assistant [AText (js ''ok'') None] StopR"

text \<open>The world counts the requests and the tool runs; the first request is the one at zero.\<close>

definition demo_stream :: "nat stream_request \<Rightarrow> (nat, stream_response) eff" where
  "demo_stream rq w =
     (if w = 0 then (Inr \<lparr>sr_events = [StartE demo_asking, DoneE ToolUseR demo_asking], sr_result = demo_asking\<rparr>, 1)
      else (Inr \<lparr>sr_events = [DoneE StopR demo_answer], sr_result = demo_answer\<rparr>, Suc w))"

definition demo_config :: "nat agent_config" where
  "demo_config = \<lparr>cf_model = \<lparr>mo_api = js ''api'', mo_provider = js ''prov'', mo_id = js ''model''\<rparr>,
     cf_apiKey = None, cf_maxTokens = None, cf_convertToLlm = (\<lambda>ms. ret []), cf_transformContext = None,
     cf_getApiKey = None, cf_shouldStopAfterTurn = None, cf_getSteeringMessages = None,
     cf_getFollowUpMessages = None, cf_toolExecution = None, cf_beforeToolCall = None, cf_afterToolCall = None,
     cf_repairToolCalls = False, cf_stream = demo_stream, cf_validate = (\<lambda>t tc. Inr (tc_arguments tc)),
     cf_parseJson = (\<lambda>t. None), cf_aborted = (\<lambda>w. False), cf_now = ret 7, cf_emit = (\<lambda>e. ret ())\<rparr>"

definition demo_prompt :: agent_message where
  "demo_prompt = User \<lparr>um_content = UString (js ''hi''), um_timestamp = 0\<rparr>"

definition demo_schedule :: "nat \<Rightarrow> nat list" where
  "demo_schedule n = [1, 1, 1, 0, 1, 1]"

definition demo_tool_result :: "string \<Rightarrow> string \<Rightarrow> tool_result_message" where
  "demo_tool_result i n = \<lparr>tr_toolCallId = js i, tr_toolName = js n, tr_content = [TextBlock (js n) None],
     tr_details = None, tr_isError = False, tr_timestamp = 7\<rparr>"

definition demo_results :: "agent_message list" where
  "demo_results = [demo_prompt, Assistant demo_asking, ToolResult (demo_tool_result ''1'' ''a''),
     ToolResult (demo_tool_result ''2'' ''b''), Assistant demo_answer]"

definition demo_loop :: "nat loop_state" where
  "demo_loop = snd (the (runAgentLoop [demo_prompt] [] demo_ctx demo_config demo_schedule 3 0))"

lemma demo_streams: "streams_ok demo_config"
  by (auto simp: streams_ok_def demo_config_def demo_stream_def split: if_splits)

text \<open>Running a concrete loop: effects are unfolded one after another.\<close>

lemma bind_weak_cong: "f = f' \<Longrightarrow> s = s' \<Longrightarrow> bind_eff f k s = bind_eff f' k s'"
  by simp

lemma bind_eval: "bind_eff f k s = (case f s of (Inl m, s') \<Rightarrow> (Inl m, s') | (Inr a, s') \<Rightarrow> k a s')"
  by (simp add: bind_eff_def)

lemma demo_names: "js ''a'' \<noteq> js ''b''" "js ''b'' \<noteq> js ''a''" "js ''c'' \<noteq> js ''a''" "js ''c'' \<noteq> js ''b''"
  by code_simp+

lemmas loop_eval = bind_eval ret_def throw_def emit_def on_world_def get_messages_def push_message_def
  set_last_message_def push_new_def catch_eff_def lift_result_def start_call_def prepareToolCall_def
  try_prepare_def prepareToolCallArguments_def validated_call_def ask_before_def executePreparedToolCall_def
  start_tool_def settle_def update_event_def note_failure_def finalizeExecutedToolCall_def
  emitToolExecutionEnd_def createToolResultMessage_def emitToolResultMessage_def
  executeToolCallsSequential_def executeToolCallsParallel_def executeToolCalls_def tool_calls_of_def
  List.map_filter_simps finish_response_def add_final_def request_response_def resolve_api_key_def
  streamAssistantResponse_def inject_def add_result_def end_run_def poll_def ask_stop_def respond_def
  turn_def runLoop_def announce_def run_result_def runAgentLoop_def shouldTerminateToolBatch_def eval_nat_numeral

lemmas demo_eval = demo_config_def demo_stream_def demo_ctx_def demo_tool_def demo_call_def demo_asking_def
  demo_answer_def demo_assistant_def demo_prompt_def demo_results_def demo_tool_result_def demo_result_def
  demo_schedule_def demo_names

lemma demo_run_result:
  "map_option fst (runAgentLoop [demo_prompt] [] demo_ctx demo_config demo_schedule 3 0) = Some (Inr demo_results)"
  by (simp add: loop_eval demo_eval cong: bind_weak_cong)

lemma demo_loop_run:
  "runAgentLoop [demo_prompt] [] demo_ctx demo_config demo_schedule 3 0 = Some (Inr demo_results, demo_loop)"
  using demo_run_result by (auto simp: demo_loop_def)

section \<open>What a run does\<close>

text \<open>C19 A run that returns has added to the conversation exactly the messages it returns: they
  start with the prompts, they are the messages its events announced as ended, in order, and
  the context it ends with is the given one followed by them.\<close>

theorem run_returns_ended_messages:
  assumes "streams_ok config"
    and "runAgentLoop prompts messages ctx config schedules fuel w = Some (Inr result, s)"
  shows "take (length prompts) result = prompts \<and> ended (ls_trace s) = result
    \<and> ls_messages s = messages @ result"
  using runAgentLoop_run_correct [OF assms] by (simp add: run_correct_def)

theorem run_returns_ended_messages_witness:
  "ended (ls_trace demo_loop) = demo_results \<and> length demo_results = 5"
  using run_returns_ended_messages [OF demo_streams demo_loop_run] by (simp add: demo_results_def)

text \<open>C20 The events of a run that returns follow the protocol: \<open>agent_start\<close>, turns in which
  messages start, update and end one at a time and tool calls end before the turn does, every
  update or end of a tool call between its start and its end, and \<open>agent_end\<close> last with the
  messages that are returned.\<close>

theorem run_follows_protocol:
  assumes "streams_ok config"
    and "runAgentLoop prompts messages ctx config schedules fuel w = Some (Inr result, s)"
  shows "phases P_Init (ls_trace s) = Some P_Ended \<and> last (ls_trace s) = AgentEnd result"
  using runAgentLoop_run_correct [OF assms] by (simp add: run_correct_def)

theorem run_follows_protocol_witness:
  "phases P_Init (ls_trace demo_loop) = Some P_Ended \<and> last (ls_trace demo_loop) = AgentEnd demo_results"
  by (rule run_follows_protocol [OF demo_streams demo_loop_run])

text \<open>C21 The tool results of a turn are in the order of the calls in the assistant message, with
  their ids and names, in both modes and for every interleaving of a parallel batch; they are
  the messages announced as ended in between.\<close>

theorem tool_results_in_call_order:
  assumes "executeToolCalls ctx config schedule m s = (Inr (results, terminate), s')"
  shows "map (\<lambda>r. (tr_toolCallId r, tr_toolName r)) results
      = map (\<lambda>c. (tc_id c, tc_name c)) (tool_calls_of (am_content m))
    \<and> (\<exists>events. ls_trace s' = ls_trace s @ events \<and> ended events = map ToolResult results)"
  using executeToolCalls_moved [OF assms] by (auto simp: call_key_def moved_def)

definition demo_state :: "nat loop_state" where
  "demo_state = \<lparr>ls_messages = [demo_prompt], ls_newMessages = [demo_prompt], ls_trace = [], ls_world = 0\<rparr>"

lemma demo_batch:
  "executeToolCalls demo_ctx demo_config [1, 1, 1, 1, 1, 0] demo_asking demo_state
     = (Inr ([demo_tool_result ''1'' ''a'', demo_tool_result ''2'' ''b''], False),
        snd (executeToolCalls demo_ctx demo_config [1, 1, 1, 1, 1, 0] demo_asking demo_state))"
  by (simp add: loop_eval demo_eval demo_state_def cong: bind_weak_cong)

theorem tool_results_in_call_order_witness:
  "map (\<lambda>r. (tr_toolCallId r, tr_toolName r)) [demo_tool_result ''1'' ''a'', demo_tool_result ''2'' ''b'']
     = map (\<lambda>c. (tc_id c, tc_name c)) (tool_calls_of (am_content demo_asking))"
  using tool_results_in_call_order [OF demo_batch] by blast

text \<open>For one tool call the two modes are the same computation: same result, events, messages
  and effects, whatever the schedule, also when the sink or a hook fails.\<close>

theorem modes_agree_on_one_call:
  "executeToolCallsParallel ctx config schedule m [call] = executeToolCallsSequential ctx config m [call]"
  unfolding parallel_one sequential_one ..

text \<open>C22 A tool call is executed only if the tool exists under its name, its arguments passed
  validation, possibly after one repair, and the hook, asked with those arguments, did not
  block it; the call keeps its id and name.\<close>

theorem prepared_call_checked:
  assumes "prepareToolCall ctx config m call messages w = (Inr (Prepared p), w')"
  shows "Option.bind (ac_tools ctx) (find (\<lambda>t. at_name t = tc_name call)) = Some (pc_tool p)
    \<and> cf_validate config (pc_tool p) (pc_toolCall p) = Inr (pc_args p)
    \<and> tc_id (pc_toolCall p) = tc_id call \<and> tc_name (pc_toolCall p) = tc_name call
    \<and> (\<exists>v. ask_before config m (pc_toolCall p) (pc_args p) messages v = (Inr None, w'))"
proof -
  from assms obtain tool where
    tool: "Option.bind (ac_tools ctx) (find (\<lambda>t. at_name t = tc_name call)) = Some tool" and
    "catch_eff (try_prepare config tool m call messages) (\<lambda>e. ret (Immediate (createErrorToolResult e) True)) w
       = (Inr (Prepared p), w')"
    by (auto simp: prepareToolCall_def ret_def split: option.splits)
  then have "try_prepare config tool m call messages w = (Inr (Prepared p), w')"
    by (auto simp: ret_def dest!: catch_eff_Inr)
  with tool prepareToolCall_key [OF assms] show ?thesis
    by (auto simp: call_key_def dest: try_prepare_checked)
qed

definition demo_prepared :: "nat prepared_call" where
  "demo_prepared = \<lparr>pc_toolCall = demo_call ''2'' ''b'', pc_tool = demo_tool ''b'', pc_args = JObj []\<rparr>"

theorem prepared_call_checked_witness:
  "cf_validate demo_config (demo_tool ''b'') (demo_call ''2'' ''b'') = Inr (JObj [])"
proof -
  have "prepareToolCall demo_ctx demo_config demo_asking (demo_call ''2'' ''b'') [] 0 = (Inr (Prepared demo_prepared), 0)"
    by (simp add: loop_eval demo_eval demo_prepared_def cong: bind_weak_cong)
  from prepared_call_checked [OF this] show ?thesis by (simp add: demo_prepared_def)
qed

section \<open>Ending\<close>

lemma consume_final: "consume c final b es s = (Inr m, s') \<Longrightarrow> m = final"
proof (induction es arbitrary: b s)
  case Nil
  then show ?case by (auto simp: finish_response_def eff_simps)
next
  case (Cons e es)
  then show ?case by (cases e) (auto simp: eff_simps finish_response_def split: if_splits)
qed

lemma streamed_response:
  assumes "streamAssistantResponse ctx c s = (Inr m, s')"
  shows "\<exists>rq w r w'. cf_stream c rq w = (Inr r, w') \<and> m = sr_result r"
proof -
  from assms obtain r s1 where run: "on_world (request_response ctx c (ls_messages s)) s = (Inr r, s1)"
    "consume c (sr_result r) False (sr_events r) s1 = (Inr m, s')"
    by (auto simp: streamAssistantResponse_def eff_simps)
  from on_world_Inr [OF run(1)] obtain w' rq w1 where "cf_stream c rq w1 = (Inr r, w')"
    by (auto simp: request_response_def eff_simps)
  with consume_final [OF run(2)] show ?thesis by blast
qed

text \<open>A model that asks for no tools.\<close>

definition asks_no_tools :: "'w agent_config \<Rightarrow> bool" where
  "asks_no_tools c \<longleftrightarrow> (\<forall>rq w r w'. cf_stream c rq w = (Inr r, w') \<longrightarrow> tool_calls_of (am_content (sr_result r)) = [])"

lemma quiet_turn:
  assumes "asks_no_tools c" "cf_getSteeringMessages c = None" "turn ctx c sch first pending s = (Inr t, s')"
  shows "t = Stopped \<or> t = Continue False []"
proof (cases t)
  case (Continue b ms)
  with assms(3) obtain s2 where run: "respond ctx c sch s2 = (Inr (Continue b ms), s')"
    by (auto simp: turn_def eff_simps)
  then obtain m s3 where m: "streamAssistantResponse ctx c s2 = (Inr m, s3)"
    by (auto simp: respond_def bind_eff_Inr)
  from streamed_response [OF m] assms(1) have "tool_calls_of (am_content m) = []"
    by (auto simp: asks_no_tools_def)
  with run m assms(2) Continue show ?thesis
    by (auto simp: respond_def eff_simps poll_def split: if_splits)
qed simp

text \<open>With a model that asks for no tools and without queues, a run returns after one turn,
  with a result or with the error of what it called: two units of fuel are enough.\<close>

theorem run_without_tools_returns:
  assumes "asks_no_tools config" "cf_getSteeringMessages config = None" "cf_getFollowUpMessages config = None"
    and "2 \<le> fuel"
  shows "\<exists>r. runAgentLoop prompts messages ctx config schedules fuel w = Some r"
proof -
  have loop: "\<exists>r. runLoop ctx config schedules 2 s = Some r" for s
  proof -
    have p: "poll None u = (Inr [], u)" for u :: "'a loop_state"
      by (simp add: poll_def ret_def)
    have start: "runLoop ctx config schedules 2 s = run_turns ctx config schedules (Suc (Suc 0)) True True [] s"
      by (simp add: runLoop_def assms(2) p numeral_2_eq_2)
    obtain t s1 where t: "turn ctx config (schedules 0) True [] s = (t, s1)" by fastforce
    show ?thesis
    proof (cases t)
      case (Inr x)
      with quiet_turn [OF assms(1,2), of ctx "schedules 0" True "[]" s x s1] t
      have "x = Stopped \<or> x = Continue False []" by simp
      with t Inr show ?thesis unfolding start by (auto simp: assms(3) p)
    qed (use t in \<open>simp add: start\<close>)
  qed
  have "\<exists>r. runAgentLoop prompts messages ctx config schedules 2 w = Some r"
  proof -
    obtain x s1 where "bind_eff (emit config AgentStart) (\<lambda>_.
             bind_eff (emit config TurnStart) (\<lambda>_. each_eff (announce config) prompts))
             \<lparr>ls_messages = messages @ prompts, ls_newMessages = prompts, ls_trace = [], ls_world = w\<rparr> = (x, s1)"
      by fastforce
    with loop [of s1] show ?thesis by (cases x) (auto simp: runAgentLoop_def run_result_def)
  qed
  then obtain r where "runAgentLoop prompts messages ctx config schedules 2 w = Some r" by blast
  from runAgentLoop_more_fuel [OF this assms(4)] show ?thesis by blast
qed

definition demo_quiet_config :: "nat agent_config" where
  "demo_quiet_config = demo_config\<lparr>cf_stream := \<lambda>rq w. (Inr \<lparr>sr_events = [], sr_result = demo_answer\<rparr>, w)\<rparr>"

theorem run_without_tools_returns_witness:
  "\<exists>r. runAgentLoop [demo_prompt] [] demo_ctx demo_quiet_config demo_schedule 2 0 = Some r"
  by (rule run_without_tools_returns)
    (auto simp: asks_no_tools_def demo_quiet_config_def demo_config_def demo_answer_def demo_assistant_def
      tool_calls_of_def List.map_filter_simps)

text \<open>More fuel never changes the outcome of a run: the fuel only bounds how long a run is
  followed.\<close>

theorem more_fuel_same_run:
  assumes "runAgentLoop prompts messages ctx config schedules fuel w = Some r" "fuel \<le> fuel'"
  shows "runAgentLoop prompts messages ctx config schedules fuel' w = Some r"
  by (rule runAgentLoop_more_fuel [OF assms])

theorem more_fuel_same_run_witness:
  "runAgentLoop [demo_prompt] [] demo_ctx demo_config demo_schedule 100 0 = Some (Inr demo_results, demo_loop)"
  by (rule more_fuel_same_run [OF demo_loop_run]) simp

end
