(* ===== verification/Agent_Stream_Properties.thy ===== *)
theory Agent_Stream_Properties
  imports Agent_Loop_Properties
begin

text \<open>
  The stream of a run, by the interpretation of \<open>safe_sink\<close> on the sink that only pushes.
\<close>

section \<open>The stream of a run\<close>

definition still_open :: "agent_event list \<Rightarrow> 'w \<Rightarrow> bool" where
  "still_open tr w \<longleftrightarrow> (\<forall>e \<in> set tr. \<not> is_agent_end e)"

lemma still_open_tool: "tool_keeps still_open k"
  by (induction k) (auto simp: still_open_def)

lemma still_open_world: "world_keeps still_open f"
  by (simp add: world_keeps_def still_open_def)

interpretation stream_run: safe_sink still_open ctx "stream_config config" for ctx config
proof
  show "hooks_keep still_open (stream_config config)"
    by (simp add: hooks_keep_def option_keeps_def still_open_world split: option.split)
  show "tools_keep still_open ctx" by (simp add: tools_keep_def still_open_tool)
  show "\<exists>w'. cf_emit (stream_config config) e w = (Inr (), w')" for e w
    by (simp add: stream_config_def ret_def)
  show "still_open (tr @ [e]) (snd (cf_emit (stream_config config) e w))"
    if "\<And>ms. e \<noteq> AgentEnd ms" "still_open tr w" for e tr w
    using that by (cases e) (auto simp: still_open_def)
qed

lemma phases_end:
  "phases p tr = Some P_Ended \<Longrightarrow> p \<noteq> P_Ended \<Longrightarrow> tr \<noteq> [] \<and> (\<forall>e \<in> set (butlast tr). \<not> is_agent_end e) \<and> is_agent_end (last tr)"
proof (induction tr arbitrary: p)
  case (Cons e tr)
  show ?case
  proof (cases "is_agent_end e")
    case True
    then obtain ms where e: "e = AgentEnd ms" by (cases e) auto
    have stuck: "phases P_Ended tr = Some P_Ended \<Longrightarrow> tr = []" by (cases tr) auto
    from Cons.prems e stuck show ?thesis by (cases p) (auto split: Option.bind_splits if_splits)
  next
    case False
    from Cons.prems obtain q where q: "phase_step p e = Some q" "phases q tr = Some P_Ended"
      by (auto split: Option.bind_splits)
    have "q \<noteq> P_Ended" using q(1) False by (cases "(p, e)" rule: phase_step.cases) (auto split: if_splits)
    from Cons.IH [OF q(2) this] False show ?thesis by auto
  qed
qed simp

text \<open>What a stream gets from a run: events that end with the only \<open>agent_end\<close>.\<close>

lemma agentLoop_events:
  assumes ok: "streams_ok config"
    and run: "agentLoop prompts messages ctx config schedules fuel w now = Some (events, result)"
  obtains es where "events = es @ [AgentEnd result]" "\<forall>e \<in> set es. \<not> is_agent_end e"
proof -
  have ok': "streams_ok (stream_config config)" using ok by (simp add: streams_ok_def stream_config_def)
  from run obtain x s where r: "runAgentLoop prompts messages ctx (stream_config config) schedules fuel w = Some (x, s)"
    "stream_of_run prompts config now (x, s) = (events, result)"
    by (auto simp: agentLoop_def)
  show ?thesis
  proof (cases x)
    case (Inr ms)
    with r(2) have ev: "events = ls_trace s" "result = ms" by (auto simp: stream_of_run_def)
    from runAgentLoop_run_correct [OF ok' r(1) [unfolded Inr]]
    have p: "phases P_Init events = Some P_Ended" "last events = AgentEnd result"
      by (simp_all add: run_correct_def ev)
    note pe = phases_end [OF p(1)]
    have "events = butlast events @ [AgentEnd result]"
      using pe p(2) append_butlast_last_id [of events] by auto
    with pe show ?thesis by (intro that [of "butlast events"]) auto
  next
    case (Inl err)
    have op: "still_open (ls_trace s) (ls_world s)"
      by (rule stream_run.runAgentLoop_open [OF r(1) [unfolded Inl]]) (simp add: still_open_def)
    let ?m = "Assistant (createAgentLoopErrorMessage config err now)"
    show ?thesis using op r(2) Inl
      by (intro that [of "ls_trace s @ [MessageStart ?m, MessageEnd ?m, TurnEnd ?m []]"])
        (auto simp: stream_of_run_def endAgentStreamWithError_def Let_def still_open_def)
  qed
qed

text \<open>C23 Whoever reads the stream of \<open>agentLoop\<close> to its end has received every event of the run,
  in order, with \<open>agent_end\<close> last, and the stream's result is the list in that event. It holds
  for every interleaving of the run with its reader, and for runs that fail, which deliver an
  error message instead of hanging.\<close>

theorem stream_delivers_run:
  assumes "streams_ok config"
    and "agentLoop prompts messages ctx config schedules fuel w now = Some (events, result)"
    and "produced ops = map Push events @ [End (Some result)]" "length events < n"
    and "sy = system_run is_agent_end agent_end_messages (ops @ replicate n (Next i)) new_system"
  shows "received_events sy = events \<and> i \<in> set (sy_finished sy) \<and> es_result (sy_stream sy) = Some result
    \<and> last events = AgentEnd result"
proof -
  obtain es where es: "events = es @ [AgentEnd result]" "\<forall>e \<in> set es. \<not> is_agent_end e"
    by (rule agentLoop_events [OF assms(1,2)])
  from complete_stream [of ops es "AgentEnd result" "Some result" is_agent_end n sy agent_end_messages i] assms(3-5) es
  show ?thesis by simp
qed

definition demo_interleaved :: "(agent_event, agent_message list) stream_op list" where
  "demo_interleaved =
     Next 0 # map Push (ls_trace demo_loop) @ [Next 0, End (Some demo_results)]"

theorem stream_delivers_run_witness:
  "received_events (system_run is_agent_end agent_end_messages
     (demo_interleaved @ replicate (Suc (length (ls_trace demo_loop))) (Next 0)) new_system) = ls_trace demo_loop"
proof -
  have c: "stream_config demo_config = demo_config" by (simp add: stream_config_def demo_config_def)
  have run: "agentLoop [demo_prompt] [] demo_ctx demo_config demo_schedule 3 0 9 = Some (ls_trace demo_loop, demo_results)"
    by (simp add: agentLoop_def c demo_loop_run stream_of_run_def)
  have "produced demo_interleaved = map Push (ls_trace demo_loop) @ [End (Some demo_results)]"
    by (simp add: produced_def demo_interleaved_def filter_map o_def)
  from stream_delivers_run [OF demo_streams run this lessI refl] show ?thesis by blast
qed

text \<open>The event stream implements its channel: at any moment what its consumers received and
  what is queued is, in order, exactly what was pushed before the end; the first result stays; a
  consumer is told the end only when nothing is left, and waits only when the queue is empty.\<close>

theorem event_stream_implements_channel:
  "implements (system_run isComplete extractResult ops new_system) (channel_run isComplete extractResult ops new_channel)"
  by (rule implements_run [OF implements_new])

end
