(* ===== verification/Agent_State.thy ===== *)
theory Agent_State
  imports Loop_Invariant
begin

text \<open>
  The stateful agent of \<open>packages/agent/src/agent.ts\<close>: transcript, run state, listeners and
  the two message queues, around the loop of \<open>Agent_Run\<close>.

  \<^item> \<open>'w agent_env\<close> is what code outside the class can change while a run is active: the
    queues (by \<open>steer\<close>, \<open>followUp\<close> and the clear operations), the abort flag and the world.
    Hooks, tools and listeners act on it. Starting a run from inside a run fails in the code;
    \<open>reset\<close> and assignments to \<open>state\<close> from inside a run are not modelled.
  \<^item> A listener is a number, its identity in the set, with its action. The options of
    the constructor are a separate argument.
  \<^item> The state that the closure \<open>getSteeringMessages\<close> keeps is \<open>ag_skipPoll\<close>.
\<close>

section \<open>Message queues\<close>

datatype queue_mode = AllMessages | OneAtATime

record message_queue =
  mq_messages :: "agent_message list"
  mq_mode :: queue_mode

definition new_queue :: "queue_mode \<Rightarrow> message_queue" where
  "new_queue mode = \<lparr>mq_messages = [], mq_mode = mode\<rparr>"

definition enqueue :: "agent_message \<Rightarrow> message_queue \<Rightarrow> message_queue" where
  "enqueue m q = q\<lparr>mq_messages := mq_messages q @ [m]\<rparr>"

definition hasItems :: "message_queue \<Rightarrow> bool" where
  "hasItems q \<longleftrightarrow> length (mq_messages q) > 0"

definition drain :: "message_queue \<Rightarrow> agent_message list \<times> message_queue" where
  "drain q =
     (if mq_mode q = AllMessages then (mq_messages q, q\<lparr>mq_messages := []\<rparr>)
      else (case mq_messages q of
              [] \<Rightarrow> ([], q)
            | first # rest \<Rightarrow> ([first], q\<lparr>mq_messages := rest\<rparr>)))"

definition clear_queue :: "message_queue \<Rightarrow> message_queue" where
  "clear_queue q = q\<lparr>mq_messages := []\<rparr>"

section \<open>State\<close>

record 'w agent_env =
  ae_steering :: message_queue
  ae_followUp :: message_queue
  ae_aborted :: bool
  ae_world :: 'w

datatype run_mode = LocalRun | RemoteRun

record active_run =
  ar_number :: nat
  ar_mode :: run_mode

type_synonym 'w listener = "agent_event \<Rightarrow> ('w agent_env, unit) eff"

record 'w agent =
  ag_systemPrompt :: jsstring
  ag_model :: agent_model
  ag_tools :: "'w agent_env agent_tool list"
  ag_messages :: "agent_message list"
  ag_isStreaming :: bool
  ag_streamingMessage :: "agent_message option"
  ag_pendingToolCalls :: "jsstring set"
  ag_errorMessage :: "jsstring option"
  ag_listeners :: "(nat \<times> 'w listener) list"
  ag_activeRun :: "active_run option"
  ag_runs :: nat
  ag_remoteEvents :: "(nat \<times> agent_event) list"
  ag_remoteAgentEndApplied :: bool
  ag_skipPoll :: bool
  ag_env :: "'w agent_env"

record 'w agent_options =
  op_convertToLlm :: "(agent_message list \<Rightarrow> ('w agent_env, llm_message list) eff) option"
  op_transformContext :: "(agent_message list \<Rightarrow> ('w agent_env, agent_message list) eff) option"
  op_streamFn :: "'w agent stream_request \<Rightarrow> ('w agent_env, stream_response) eff"
  op_getApiKey :: "(jsstring \<Rightarrow> ('w agent_env, jsstring option) eff) option"
  op_beforeToolCall :: "(tool_hook_context \<Rightarrow> ('w agent_env, before_result option) eff) option"
  op_afterToolCall ::
    "(tool_hook_context \<Rightarrow> agent_tool_result \<Rightarrow> bool \<Rightarrow> ('w agent_env, after_result option) eff) option"
  op_repairToolCalls :: bool
  op_toolExecution :: "execution_mode option"
  op_validate :: "'w agent agent_tool \<Rightarrow> tool_call \<Rightarrow> jsstring + json"
  op_parseJson :: "jsstring \<Rightarrow> json option"
  op_now :: "'w agent_env \<Rightarrow> int \<times> 'w agent_env"

definition createMutableAgentState ::
    "jsstring \<Rightarrow> agent_model \<Rightarrow> 'w agent_env agent_tool list \<Rightarrow> agent_message list \<Rightarrow> queue_mode \<Rightarrow> queue_mode
     \<Rightarrow> 'w \<Rightarrow> 'w agent" where
  "createMutableAgentState systemPrompt model tools messages steeringMode followUpMode w =
     \<lparr>ag_systemPrompt = systemPrompt, ag_model = model, ag_tools = tools, ag_messages = messages,
      ag_isStreaming = False, ag_streamingMessage = None, ag_pendingToolCalls = {}, ag_errorMessage = None,
      ag_listeners = [], ag_activeRun = None, ag_runs = 0, ag_remoteEvents = [],
      ag_remoteAgentEndApplied = False, ag_skipPoll = False,
      ag_env = \<lparr>ae_steering = new_queue steeringMode, ae_followUp = new_queue followUpMode,
                ae_aborted = False, ae_world = w\<rparr>\<rparr>"

definition on_env :: "('w agent_env, 'a) eff \<Rightarrow> ('w agent, 'a) eff" where
  "on_env f = (\<lambda>ag. case f (ag_env ag) of (r, e) \<Rightarrow> (r, ag\<lparr>ag_env := e\<rparr>))"

definition update_env :: "('w agent_env \<Rightarrow> 'w agent_env) \<Rightarrow> 'w agent \<Rightarrow> 'w agent" where
  "update_env f ag = ag\<lparr>ag_env := f (ag_env ag)\<rparr>"

definition clock :: "'w agent_options \<Rightarrow> ('w agent_env, int) eff" where
  "clock opts = (\<lambda>env. case op_now opts env of (t, env') \<Rightarrow> (Inr t, env'))"

section \<open>Queue operations and subscriptions\<close>

definition steer :: "agent_message \<Rightarrow> 'w agent_env \<Rightarrow> 'w agent_env" where
  "steer m env = env\<lparr>ae_steering := enqueue m (ae_steering env)\<rparr>"

definition followUp :: "agent_message \<Rightarrow> 'w agent_env \<Rightarrow> 'w agent_env" where
  "followUp m env = env\<lparr>ae_followUp := enqueue m (ae_followUp env)\<rparr>"

definition clearSteeringQueue :: "'w agent_env \<Rightarrow> 'w agent_env" where
  "clearSteeringQueue env = env\<lparr>ae_steering := clear_queue (ae_steering env)\<rparr>"

definition clearFollowUpQueue :: "'w agent_env \<Rightarrow> 'w agent_env" where
  "clearFollowUpQueue env = env\<lparr>ae_followUp := clear_queue (ae_followUp env)\<rparr>"

definition clearAllQueues :: "'w agent_env \<Rightarrow> 'w agent_env" where
  "clearAllQueues env = clearFollowUpQueue (clearSteeringQueue env)"

definition hasQueuedMessages :: "'w agent_env \<Rightarrow> bool" where
  "hasQueuedMessages env \<longleftrightarrow> hasItems (ae_steering env) \<or> hasItems (ae_followUp env)"

definition set_steeringMode :: "queue_mode \<Rightarrow> 'w agent_env \<Rightarrow> 'w agent_env" where
  "set_steeringMode mode env = env\<lparr>ae_steering := (ae_steering env)\<lparr>mq_mode := mode\<rparr>\<rparr>"

definition set_followUpMode :: "queue_mode \<Rightarrow> 'w agent_env \<Rightarrow> 'w agent_env" where
  "set_followUpMode mode env = env\<lparr>ae_followUp := (ae_followUp env)\<lparr>mq_mode := mode\<rparr>\<rparr>"

definition abort :: "'w agent \<Rightarrow> 'w agent" where
  "abort ag = (if ag_activeRun ag = None then ag else update_env (\<lambda>env. env\<lparr>ae_aborted := True\<rparr>) ag)"

definition subscribe :: "nat \<Rightarrow> 'w listener \<Rightarrow> 'w agent \<Rightarrow> 'w agent" where
  "subscribe k f ag =
     (if k \<in> fst ` set (ag_listeners ag) then ag else ag\<lparr>ag_listeners := ag_listeners ag @ [(k, f)]\<rparr>)"

definition unsubscribe :: "nat \<Rightarrow> 'w agent \<Rightarrow> 'w agent" where
  "unsubscribe k ag = ag\<lparr>ag_listeners := filter (\<lambda>l. fst l \<noteq> k) (ag_listeners ag)\<rparr>"

definition reset_agent :: "'w agent \<Rightarrow> 'w agent" where
  "reset_agent ag =
     update_env (\<lambda>env. clearSteeringQueue (clearFollowUpQueue env))
       (ag\<lparr>ag_messages := [], ag_isStreaming := False, ag_streamingMessage := None,
          ag_pendingToolCalls := {}, ag_errorMessage := None\<rparr>)"

section \<open>The reducer\<close>

text \<open>An empty error message is false in the code's test.\<close>

fun turn_error :: "agent_message \<Rightarrow> jsstring option" where
  "turn_error (Assistant m) = (case am_errorMessage m of Some (u # us) \<Rightarrow> Some (u # us) | _ \<Rightarrow> None)"
| "turn_error _ = None"

fun reduce_event :: "agent_event \<Rightarrow> 'w agent \<Rightarrow> 'w agent" where
  "reduce_event (MessageStart m) ag = ag\<lparr>ag_streamingMessage := Some m\<rparr>"
| "reduce_event (MessageUpdate m e) ag = ag\<lparr>ag_streamingMessage := Some m\<rparr>"
| "reduce_event (MessageEnd m) ag = ag\<lparr>ag_streamingMessage := None, ag_messages := ag_messages ag @ [m]\<rparr>"
| "reduce_event (ToolExecutionStart i n a) ag = ag\<lparr>ag_pendingToolCalls := insert i (ag_pendingToolCalls ag)\<rparr>"
| "reduce_event (ToolExecutionEnd i n r b) ag = ag\<lparr>ag_pendingToolCalls := ag_pendingToolCalls ag - {i}\<rparr>"
| "reduce_event (TurnEnd m rs) ag =
     (case turn_error m of Some e \<Rightarrow> ag\<lparr>ag_errorMessage := Some e\<rparr> | None \<Rightarrow> ag)"
| "reduce_event (AgentEnd ms) ag = ag\<lparr>ag_streamingMessage := None\<rparr>"
| "reduce_event _ ag = ag"

definition notify :: "agent_event \<Rightarrow> ('w agent, unit) eff" where
  "notify event =
     (\<lambda>ag. if ag_activeRun ag = None then (Inl (js ''Agent listener invoked outside active run''), ag)
           else on_env (each_eff (\<lambda>l. snd l event) (ag_listeners ag)) ag)"

definition processEvents :: "agent_event \<Rightarrow> ('w agent, unit) eff" where
  "processEvents event = (\<lambda>ag. notify event (reduce_event event ag))"

section \<open>The configuration of a run\<close>

primrec lift_run :: "'w agent_env tool_run \<Rightarrow> 'w agent tool_run" where
  "lift_run (Finish r) = Finish r"
| "lift_run (Fail m) = Fail m"
| "lift_run (Update r k) = Update r (lift_run k)"
| "lift_run (Step u k) = Step (update_env u) ((\<lambda>env. lift_run (k env)) \<circ> ag_env)"

definition lift_tool :: "'w agent_env agent_tool \<Rightarrow> 'w agent agent_tool" where
  "lift_tool t =
     \<lparr>at_name = at_name t, at_parameters = at_parameters t, at_prepareArguments = at_prepareArguments t,
      at_execute = (\<lambda>i args ag. lift_run (at_execute t i args (ag_env ag))),
      at_executionMode = at_executionMode t\<rparr>"

text \<open>The context holds copies of the arrays, so later changes of the state do not reach it.\<close>

definition createContextSnapshot :: "'w agent \<Rightarrow> 'w agent agent_context \<times> agent_message list" where
  "createContextSnapshot ag =
     (\<lparr>ac_systemPrompt = ag_systemPrompt ag, ac_tools = Some (map lift_tool (ag_tools ag))\<rparr>, ag_messages ag)"

fun llm_of :: "agent_message \<Rightarrow> llm_message option" where
  "llm_of (User m) = Some (LUser m)"
| "llm_of (Assistant m) = Some (LAssistant m)"
| "llm_of (ToolResult m) = Some (LToolResult m)"
| "llm_of _ = None"

definition defaultConvertToLlm :: "agent_message list \<Rightarrow> llm_message list" where
  "defaultConvertToLlm messages = List.map_filter llm_of messages"

definition poll_steering :: "('w agent, agent_message list) eff" where
  "poll_steering =
     (\<lambda>ag. if ag_skipPoll ag then (Inr [], ag\<lparr>ag_skipPoll := False\<rparr>)
           else (case drain (ae_steering (ag_env ag)) of
                   (ms, q) \<Rightarrow> (Inr ms, update_env (\<lambda>env. env\<lparr>ae_steering := q\<rparr>) ag)))"

definition poll_followUp :: "('w agent, agent_message list) eff" where
  "poll_followUp =
     (\<lambda>ag. case drain (ae_followUp (ag_env ag)) of
             (ms, q) \<Rightarrow> (Inr ms, update_env (\<lambda>env. env\<lparr>ae_followUp := q\<rparr>) ag))"

definition createLoopConfig :: "'w agent_options \<Rightarrow> 'w agent \<Rightarrow> 'w agent agent_config" where
  "createLoopConfig opts ag =
     \<lparr>cf_model = ag_model ag, cf_apiKey = None, cf_maxTokens = None,
      cf_convertToLlm =
        (case op_convertToLlm opts of
           Some f \<Rightarrow> (\<lambda>ms. on_env (f ms)) | None \<Rightarrow> (\<lambda>ms. ret (defaultConvertToLlm ms))),
      cf_transformContext = map_option (\<lambda>f ms. on_env (f ms)) (op_transformContext opts),
      cf_getApiKey = map_option (\<lambda>f p. on_env (f p)) (op_getApiKey opts),
      cf_shouldStopAfterTurn = None,
      cf_getSteeringMessages = Some poll_steering,
      cf_getFollowUpMessages = Some poll_followUp,
      cf_toolExecution = (case op_toolExecution opts of Some m \<Rightarrow> Some m | None \<Rightarrow> Some Parallel),
      cf_beforeToolCall = map_option (\<lambda>f x. on_env (f x)) (op_beforeToolCall opts),
      cf_afterToolCall = map_option (\<lambda>f x r b. on_env (f x r b)) (op_afterToolCall opts),
      cf_repairToolCalls = op_repairToolCalls opts,
      cf_stream = (\<lambda>rq. on_env (op_streamFn opts rq)),
      cf_validate = op_validate opts,
      cf_parseJson = op_parseJson opts,
      cf_aborted = (\<lambda>ag. ae_aborted (ag_env ag)),
      cf_now = on_env (clock opts),
      cf_emit = processEvents\<rparr>"

section \<open>Runs\<close>

definition createActiveRun :: "run_mode \<Rightarrow> 'w agent \<Rightarrow> 'w agent" where
  "createActiveRun mode ag =
     update_env (\<lambda>env. env\<lparr>ae_aborted := False\<rparr>)
       (ag\<lparr>ag_activeRun := Some \<lparr>ar_number = ag_runs ag, ar_mode = mode\<rparr>, ag_runs := Suc (ag_runs ag)\<rparr>)"

definition begin_run :: "run_mode \<Rightarrow> 'w agent \<Rightarrow> 'w agent" where
  "begin_run mode ag =
     (createActiveRun mode ag)\<lparr>ag_isStreaming := True, ag_streamingMessage := None, ag_errorMessage := None\<rparr>"

definition finishRun :: "'w agent \<Rightarrow> 'w agent" where
  "finishRun ag =
     ag\<lparr>ag_isStreaming := False, ag_streamingMessage := None, ag_pendingToolCalls := {},
        ag_remoteEvents := [], ag_remoteAgentEndApplied := False, ag_activeRun := None\<rparr>"

definition failure_message :: "'w agent \<Rightarrow> jsstring \<Rightarrow> bool \<Rightarrow> int \<Rightarrow> assistant_message" where
  "failure_message ag err aborted now =
     \<lparr>am_content = [AText [] None], am_api = mo_api (ag_model ag), am_provider = mo_provider (ag_model ag),
      am_model = mo_id (ag_model ag), am_responseModel = None, am_responseId = None, am_diagnostics = None,
      am_usage = EMPTY_USAGE, am_stopReason = (if aborted then AbortedR else ErrorR),
      am_errorMessage = Some err, am_timestamp = now\<rparr>"

definition handleRunFailure :: "'w agent_options \<Rightarrow> jsstring \<Rightarrow> bool \<Rightarrow> ('w agent, unit) eff" where
  "handleRunFailure opts err aborted =
     bind_eff (on_env (clock opts)) (\<lambda>now.
       (\<lambda>ag. (let m = Assistant (failure_message ag err aborted now)
              in processEvents (AgentEnd [m])
                   (ag\<lparr>ag_messages := ag_messages ag @ [m], ag_errorMessage := Some err\<rparr>))))"

type_synonym 'w run = "'w agent \<Rightarrow> ((jsstring + unit) \<times> 'w agent) option"

definition runWithLifecycle ::
    "'w agent_options \<Rightarrow> ('w agent \<Rightarrow> ((jsstring + agent_message list) \<times> 'w agent loop_state) option) \<Rightarrow> 'w run" where
  "runWithLifecycle opts executor ag =
     (if ag_activeRun ag \<noteq> None then Some (Inl (js ''Agent is already processing.''), ag)
      else
        (case executor (begin_run LocalRun ag) of
           None \<Rightarrow> None
         | Some (Inr _, s) \<Rightarrow> Some (Inr (), finishRun (ls_world s))
         | Some (Inl err, s) \<Rightarrow>
             (case handleRunFailure opts err (ae_aborted (ag_env (ls_world s))) (ls_world s) of
                (r, ag') \<Rightarrow> Some (r, finishRun ag'))))"

definition prompt_executor ::
    "'w agent_options \<Rightarrow> (nat \<Rightarrow> nat list) \<Rightarrow> nat \<Rightarrow> bool \<Rightarrow> agent_message list
     \<Rightarrow> 'w agent \<Rightarrow> ((jsstring + agent_message list) \<times> 'w agent loop_state) option" where
  "prompt_executor opts schedules fuel skipInitialSteeringPoll messages ag =
     (case createContextSnapshot ag of
        (ctx, old) \<Rightarrow>
          runAgentLoop messages old ctx (createLoopConfig opts ag) schedules fuel
            (ag\<lparr>ag_skipPoll := skipInitialSteeringPoll\<rparr>))"

definition continue_executor ::
    "'w agent_options \<Rightarrow> (nat \<Rightarrow> nat list) \<Rightarrow> nat
     \<Rightarrow> 'w agent \<Rightarrow> ((jsstring + agent_message list) \<times> 'w agent loop_state) option" where
  "continue_executor opts schedules fuel ag =
     (case createContextSnapshot ag of
        (ctx, old) \<Rightarrow>
          runAgentLoopContinue old ctx (createLoopConfig opts ag) schedules fuel (ag\<lparr>ag_skipPoll := False\<rparr>))"

definition runPromptMessages ::
    "'w agent_options \<Rightarrow> (nat \<Rightarrow> nat list) \<Rightarrow> nat \<Rightarrow> bool \<Rightarrow> agent_message list \<Rightarrow> 'w run" where
  "runPromptMessages opts schedules fuel skip messages =
     runWithLifecycle opts (prompt_executor opts schedules fuel skip messages)"

definition runContinuation :: "'w agent_options \<Rightarrow> (nat \<Rightarrow> nat list) \<Rightarrow> nat \<Rightarrow> 'w run" where
  "runContinuation opts schedules fuel = runWithLifecycle opts (continue_executor opts schedules fuel)"

datatype prompt_input =
    PromptText jsstring "user_block list"
  | PromptMessage agent_message
  | PromptMessages "agent_message list"

definition normalizePromptInput :: "'w agent_options \<Rightarrow> prompt_input \<Rightarrow> ('w agent_env, agent_message list) eff" where
  "normalizePromptInput opts input =
     (case input of
        PromptMessages ms \<Rightarrow> ret ms
      | PromptMessage m \<Rightarrow> ret [m]
      | PromptText text images \<Rightarrow>
          bind_eff (clock opts) (\<lambda>now.
            ret [User \<lparr>um_content = UBlocks (TextBlock text None # images), um_timestamp = now\<rparr>]))"

definition prompt :: "'w agent_options \<Rightarrow> (nat \<Rightarrow> nat list) \<Rightarrow> nat \<Rightarrow> prompt_input \<Rightarrow> 'w run" where
  "prompt opts schedules fuel input ag =
     (if ag_activeRun ag \<noteq> None
      then Some (Inl (js ''Agent is already processing a prompt. Use steer() or followUp() to queue messages, or wait for completion.''), ag)
      else
        (case on_env (normalizePromptInput opts input) ag of
           (Inl e, ag1) \<Rightarrow> Some (Inl e, ag1)
         | (Inr messages, ag1) \<Rightarrow> runPromptMessages opts schedules fuel False messages ag1))"

definition continue_run :: "'w agent_options \<Rightarrow> (nat \<Rightarrow> nat list) \<Rightarrow> nat \<Rightarrow> 'w run" where
  "continue_run opts schedules fuel ag =
     (if ag_activeRun ag \<noteq> None
      then Some (Inl (js ''Agent is already processing. Wait for completion before continuing.''), ag)
      else if ag_messages ag = [] then Some (Inl (js ''No messages to continue from''), ag)
      else if is_assistant (last (ag_messages ag))
      then
        (case drain (ae_steering (ag_env ag)) of
           (queuedSteering, q) \<Rightarrow>
             (let ag1 = update_env (\<lambda>env. env\<lparr>ae_steering := q\<rparr>) ag
              in if queuedSteering \<noteq> [] then runPromptMessages opts schedules fuel True queuedSteering ag1
                 else
                   (case drain (ae_followUp (ag_env ag1)) of
                      (queuedFollowUps, q2) \<Rightarrow>
                        (let ag2 = update_env (\<lambda>env. env\<lparr>ae_followUp := q2\<rparr>) ag1
                         in if queuedFollowUps \<noteq> [] then runPromptMessages opts schedules fuel False queuedFollowUps ag2
                            else Some (Inl (js ''Cannot continue from message role: assistant''), ag2)))))
      else runContinuation opts schedules fuel ag)"

section \<open>Remote runs\<close>

text \<open>
  Events of a remote run are processed one after another: \<open>ag_remoteEvents\<close> is the chain of
  promises that wait; the end of a run drops it, since the events left in it are rejected
  and change nothing. \<open>endRemoteRun\<close> waits for the whole chain; calls that arrive while it
  waits are not modelled. A failed event does not stop the chain.
\<close>

definition beginRemoteRun :: "('w agent, unit) eff" where
  "beginRemoteRun =
     (\<lambda>ag. if ag_activeRun ag \<noteq> None then (Inl (js ''Agent is already processing.''), ag)
           else (Inr (), (begin_run RemoteRun ag)\<lparr>ag_remoteEvents := [], ag_remoteAgentEndApplied := False\<rparr>))"

definition remote_active :: "'w agent \<Rightarrow> bool" where
  "remote_active ag \<longleftrightarrow> (case ag_activeRun ag of Some r \<Rightarrow> ar_mode r = RemoteRun | None \<Rightarrow> False)"

definition applyRemoteEvent :: "agent_event \<Rightarrow> ('w agent, unit) eff" where
  "applyRemoteEvent event =
     (\<lambda>ag. case ag_activeRun ag of
             Some r \<Rightarrow>
               (if ar_mode r = RemoteRun
                then (Inr (), ag\<lparr>ag_remoteEvents := ag_remoteEvents ag @ [(ar_number r, event)]\<rparr>)
                else (Inl (js ''beginRemoteRun() must be called before applyRemoteEvent().''), ag))
           | None \<Rightarrow> (Inl (js ''beginRemoteRun() must be called before applyRemoteEvent().''), ag))"

definition remote_event :: "nat \<Rightarrow> agent_event \<Rightarrow> ('w agent, unit) eff" where
  "remote_event number event =
     (\<lambda>ag. if map_option ar_number (ag_activeRun ag) \<noteq> Some number
           then (Inl (js ''Remote run is no longer active.''), ag)
           else bind_eff (processEvents event)
                  (\<lambda>_ ag'. (Inr (), if is_agent_end event then ag'\<lparr>ag_remoteAgentEndApplied := True\<rparr> else ag')) ag)"

text \<open>One event of the chain: its own promise has this outcome.\<close>

definition next_remote_event :: "'w agent \<Rightarrow> ((jsstring + unit) \<times> 'w agent) option" where
  "next_remote_event ag =
     (case ag_remoteEvents ag of
        [] \<Rightarrow> None
      | (number, event) # rest \<Rightarrow> Some (remote_event number event (ag\<lparr>ag_remoteEvents := rest\<rparr>)))"

primrec settle_events :: "(nat \<times> agent_event) list \<Rightarrow> 'w agent \<Rightarrow> 'w agent" where
  "settle_events [] ag = ag"
| "settle_events (x # xs) ag = settle_events xs (snd (remote_event (fst x) (snd x) ag))"

definition settle_remote :: "'w agent \<Rightarrow> 'w agent" where
  "settle_remote ag = settle_events (ag_remoteEvents ag) (ag\<lparr>ag_remoteEvents := []\<rparr>)"

definition endRemoteRun :: "('w agent, unit) eff" where
  "endRemoteRun =
     (\<lambda>ag. if \<not> remote_active ag then (Inl (js ''beginRemoteRun() must be called before endRemoteRun().''), ag)
           else
             (let ag' = settle_remote ag
              in if \<not> ag_remoteAgentEndApplied ag' then (Inl (js ''Remote run cannot end before an agent_end event.''), ag')
                 else (Inr (), finishRun ag')))"

end
