(* ===== verification/Agent_Lifecycle.thy ===== *)
theory Agent_Lifecycle
  imports Agent_State
begin

text \<open>
  The queues of the agent as an interface with its interpretation, and the main fact about runs
  inside the agent: its own state is what reducing the events of the run gives, by the
  interpretation of \<open>run_invariant\<close> on the configuration the agent creates.

  The public operations of the agent as steps, and the invariant they keep.
\<close>

section \<open>Queues\<close>

text \<open>What the agent relies on in a queue of pending messages.\<close>

locale pending_messages =
  fixes add :: "agent_message \<Rightarrow> 'q \<Rightarrow> 'q"
    and take_out :: "'q \<Rightarrow> agent_message list \<times> 'q"
    and has :: "'q \<Rightarrow> bool"
    and empty_it :: "'q \<Rightarrow> 'q"
    and contents :: "'q \<Rightarrow> agent_message list"
  assumes add_contents: "contents (add m q) = contents q @ [m]"
    and take_contents: "take_out q = (ms, q') \<Longrightarrow> contents q = ms @ contents q'"
    and take_some: "take_out q = (ms, q') \<Longrightarrow> ms = [] \<Longrightarrow> contents q = []"
    and has_contents: "has q \<longleftrightarrow> contents q \<noteq> []"
    and empty_contents: "contents (empty_it q) = []"
begin

text \<open>A sequence of additions (\<open>Some m\<close>) and drains (\<open>None\<close>), with what the drains gave.\<close>

primrec serve :: "agent_message option list \<Rightarrow> 'q \<Rightarrow> agent_message list \<times> 'q" where
  "serve [] q = ([], q)"
| "serve (x # xs) q =
     (case x of
        Some m \<Rightarrow> serve xs (add m q)
      | None \<Rightarrow> (case take_out q of (ms, q1) \<Rightarrow> (case serve xs q1 of (rest, q2) \<Rightarrow> (ms @ rest, q2))))"

lemma served_in_order:
  "serve xs q = (out, q') \<Longrightarrow> contents q @ List.map_filter id xs = out @ contents q'"
proof (induction xs arbitrary: q out)
  case (Cons x xs)
  show ?case
  proof (cases x)
    case None
    with Cons show ?thesis by (auto simp: map_filter_Cons dest!: take_contents split: prod.splits)
  next
    case (Some m)
    with Cons.prems Cons.IH [of "add m q" out] show ?thesis by (simp add: add_contents map_filter_Cons)
  qed
qed simp

lemma drained_empty: "take_out q = ([], q') \<Longrightarrow> \<not> has q"
  using take_some by (auto simp: has_contents)

end

interpretation queue: pending_messages enqueue drain hasItems clear_queue mq_messages
proof (unfold_locales, goal_cases)
  case (2 q ms q')
  then show ?case by (auto simp: drain_def split: if_splits list.splits)
next
  case (3 q ms q')
  then show ?case by (auto simp: drain_def split: if_splits list.splits)
qed (simp_all add: enqueue_def hasItems_def clear_queue_def)

section \<open>The state is what the events make of it\<close>

text \<open>\<open>apart_env a b\<close>: the agents agree on all the class itself keeps.\<close>

definition apart_env :: "'w agent \<Rightarrow> 'w agent \<Rightarrow> bool" where
  "apart_env a b \<longleftrightarrow> b = a\<lparr>ag_env := ag_env b, ag_skipPoll := ag_skipPoll b\<rparr>"

definition reduced :: "'w agent \<Rightarrow> agent_event list \<Rightarrow> 'w agent \<Rightarrow> bool" where
  "reduced a tr b \<longleftrightarrow> apart_env (fold reduce_event tr a) b"

lemma apart_env_refl [simp]: "apart_env a a"
  by (simp add: apart_env_def)

lemma apart_env_update: "apart_env a b \<Longrightarrow> apart_env a (b\<lparr>ag_env := e\<rparr>)"
  "apart_env a b \<Longrightarrow> apart_env a (b\<lparr>ag_skipPoll := x\<rparr>)"
  unfolding apart_env_def by (cases a; cases b; simp)+

lemma apart_env_fields:
  assumes "apart_env a b"
  shows "ag_messages b = ag_messages a" "ag_activeRun b = ag_activeRun a" "ag_model b = ag_model a"
    "ag_listeners b = ag_listeners a" "ag_runs b = ag_runs a" "ag_streamingMessage b = ag_streamingMessage a"
    "ag_pendingToolCalls b = ag_pendingToolCalls a" "ag_errorMessage b = ag_errorMessage a"
  by (subst assms [unfolded apart_env_def], simp)+

lemma apart_env_reduce: "apart_env a b \<Longrightarrow> apart_env (reduce_event e a) (reduce_event e b)"
  unfolding apart_env_def by (cases a; cases b; cases e) (auto split: option.split)

lemma on_env_apart: "apart_env a b \<Longrightarrow> apart_env a (snd (on_env f b))"
  by (auto simp: on_env_def apart_env_update split: prod.split)

lemma notify_apart: "apart_env a b \<Longrightarrow> apart_env a (snd (notify e b))"
  by (auto simp: notify_def on_env_apart)

lemma process_reduced: "reduced a tr b \<Longrightarrow> reduced a (tr @ [e]) (snd (processEvents e b))"
  by (simp add: reduced_def processEvents_def notify_apart apart_env_reduce)

lemma reduced_env: "world_keeps (reduced a) (on_env f)"
  by (simp add: world_keeps_def reduced_def on_env_apart)

lemma update_env_apart: "apart_env a b \<Longrightarrow> apart_env a (update_env f b)"
  by (simp add: update_env_def apart_env_update)

lemma lift_run_keeps: "tool_keeps (reduced a) (lift_run k)"
  by (induction k) (auto simp: reduced_def update_env_apart)

lemma poll_keeps: "world_keeps (reduced a) poll_steering" "world_keeps (reduced a) poll_followUp"
  by (auto simp: world_keeps_def reduced_def poll_steering_def poll_followUp_def apart_env_update update_env_apart
      split: prod.split)

interpretation agent_run: run_invariant "reduced a" "fst (createContextSnapshot ag)" "createLoopConfig opts ag"
  for a ag opts
proof
  show "hooks_keep (reduced a) (createLoopConfig opts ag)"
    by (simp add: hooks_keep_def createLoopConfig_def option_keeps_def reduced_env world_keeps_basic poll_keeps
        split: option.split)
  show "tools_keep (reduced a) (fst (createContextSnapshot ag))"
    by (auto simp: tools_keep_def createContextSnapshot_def lift_tool_def lift_run_keeps)
qed (simp_all add: createLoopConfig_def process_reduced)

lemma fold_reduce_messages: "ag_messages (fold reduce_event tr a) = ag_messages a @ ended tr"
proof (induction tr arbitrary: a)
  case (Cons e tr)
  have "ag_messages (reduce_event e a) = ag_messages a @ (case ended_message e of None \<Rightarrow> [] | Some m \<Rightarrow> [m])"
    by (cases e) (auto split: option.split)
  with Cons show ?case by simp
qed simp

lemma fold_reduce_core:
  "ag_activeRun (fold reduce_event tr a) = ag_activeRun a" "ag_model (fold reduce_event tr a) = ag_model a"
  "ag_listeners (fold reduce_event tr a) = ag_listeners a" "ag_runs (fold reduce_event tr a) = ag_runs a"
proof (induction tr arbitrary: a)
  case (Cons e tr)
  case 1 show ?case using Cons(1) by (cases e) (auto split: option.split)
  case 2 show ?case using Cons(2) by (cases e) (auto split: option.split)
  case 3 show ?case using Cons(3) by (cases e) (auto split: option.split)
  case 4 show ?case using Cons(4) by (cases e) (auto split: option.split)
qed simp_all

lemma prompt_executor_reduced:
  assumes "prompt_executor opts sch fuel skip ms ag = Some (r, s)"
  shows "reduced ag (ls_trace s) (ls_world s)"
  using assms agent_run.runAgentLoop_keeps [of _ _ ag opts sch fuel "ag\<lparr>ag_skipPoll := skip\<rparr>" r s ag]
  by (simp add: prompt_executor_def createContextSnapshot_def split_def reduced_def apart_env_update)

lemma continue_executor_reduced:
  assumes "continue_executor opts sch fuel ag = Some (r, s)"
  shows "reduced ag (ls_trace s) (ls_world s)"
  using assms agent_run.runAgentLoopContinue_keeps [of _ ag opts sch fuel "ag\<lparr>ag_skipPoll := False\<rparr>" r s ag]
  by (simp add: continue_executor_def createContextSnapshot_def split_def reduced_def apart_env_update)

section \<open>Runs\<close>

lemma finishRun_fields [simp]:
  "ag_messages (finishRun ag) = ag_messages ag" "ag_activeRun (finishRun ag) = None"
  "ag_listeners (finishRun ag) = ag_listeners ag" "ag_runs (finishRun ag) = ag_runs ag"
  "ag_isStreaming (finishRun ag) = False" "ag_streamingMessage (finishRun ag) = None"
  "ag_pendingToolCalls (finishRun ag) = {}" "ag_remoteEvents (finishRun ag) = []"
  "ag_remoteAgentEndApplied (finishRun ag) = False" "ag_errorMessage (finishRun ag) = ag_errorMessage ag"
  by (simp_all add: finishRun_def)

lemma begin_run_fields [simp]:
  "ag_messages (begin_run mode ag) = ag_messages ag" "ag_listeners (begin_run mode ag) = ag_listeners ag"
  "ag_activeRun (begin_run mode ag) = Some \<lparr>ar_number = ag_runs ag, ar_mode = mode\<rparr>"
  "ag_runs (begin_run mode ag) = Suc (ag_runs ag)" "ag_model (begin_run mode ag) = ag_model ag"
  "ag_remoteEvents (begin_run mode ag) = ag_remoteEvents ag"
  by (simp_all add: begin_run_def createActiveRun_def update_env_def)

lemma on_env_fields:
  assumes "on_env f ag = (r, ag')"
  shows "ag_messages ag' = ag_messages ag" "ag_activeRun ag' = ag_activeRun ag" "ag_listeners ag' = ag_listeners ag"
    "ag_runs ag' = ag_runs ag" "ag_isStreaming ag' = ag_isStreaming ag" "ag_streamingMessage ag' = ag_streamingMessage ag"
    "ag_pendingToolCalls ag' = ag_pendingToolCalls ag" "ag_remoteEvents ag' = ag_remoteEvents ag"
    "ag_remoteAgentEndApplied ag' = ag_remoteAgentEndApplied ag" "ag_model ag' = ag_model ag"
  using assms by (auto simp: on_env_def split: prod.splits)

lemma update_env_fields [simp]:
  "ag_messages (update_env f ag) = ag_messages ag" "ag_activeRun (update_env f ag) = ag_activeRun ag"
  "ag_listeners (update_env f ag) = ag_listeners ag" "ag_runs (update_env f ag) = ag_runs ag"
  "ag_isStreaming (update_env f ag) = ag_isStreaming ag" "ag_streamingMessage (update_env f ag) = ag_streamingMessage ag"
  "ag_pendingToolCalls (update_env f ag) = ag_pendingToolCalls ag" "ag_remoteEvents (update_env f ag) = ag_remoteEvents ag"
  "ag_remoteAgentEndApplied (update_env f ag) = ag_remoteAgentEndApplied ag"
  by (simp_all add: update_env_def)

lemma notify_fields:
  assumes "notify e ag = (r, ag')"
  shows "ag_messages ag' = ag_messages ag" "ag_activeRun ag' = ag_activeRun ag" "ag_listeners ag' = ag_listeners ag"
    "ag_runs ag' = ag_runs ag" "ag_remoteEvents ag' = ag_remoteEvents ag"
    "ag_remoteAgentEndApplied ag' = ag_remoteAgentEndApplied ag"
  using assms on_env_fields [of _ ag r ag'] by (auto simp: notify_def split: if_splits)

lemma reduce_event_fields [simp]:
  "ag_activeRun (reduce_event e ag) = ag_activeRun ag" "ag_listeners (reduce_event e ag) = ag_listeners ag"
  "ag_runs (reduce_event e ag) = ag_runs ag" "ag_remoteEvents (reduce_event e ag) = ag_remoteEvents ag"
  "ag_remoteAgentEndApplied (reduce_event e ag) = ag_remoteAgentEndApplied ag"
  "ag_messages (reduce_event e ag) = ag_messages ag @ ended [e]"
  by (cases e; auto split: option.split)+

lemma processEvents_fields:
  assumes "processEvents e ag = (r, ag')"
  shows "ag_messages ag' = ag_messages ag @ ended [e]" "ag_activeRun ag' = ag_activeRun ag"
    "ag_listeners ag' = ag_listeners ag" "ag_runs ag' = ag_runs ag" "ag_remoteEvents ag' = ag_remoteEvents ag"
    "ag_remoteAgentEndApplied ag' = ag_remoteAgentEndApplied ag"
  using notify_fields [of e "reduce_event e ag" r ag'] assms by (simp_all add: processEvents_def)

lemma handleRunFailure_fields:
  assumes "handleRunFailure opts err aborted ag = (r, ag')"
  shows "\<exists>now. ag_messages ag' = ag_messages ag @ [Assistant (failure_message ag err aborted now)]"
    "ag_listeners ag' = ag_listeners ag" "ag_runs ag' = ag_runs ag"
proof -
  obtain now e1 where now: "op_now opts (ag_env ag) = (now, e1)" by fastforce
  let ?ag1 = "ag\<lparr>ag_env := e1\<rparr>"
  let ?m = "Assistant (failure_message ?ag1 err aborted now)"
  have p: "processEvents (AgentEnd [?m]) (?ag1\<lparr>ag_messages := ag_messages ag @ [?m], ag_errorMessage := Some err\<rparr>) = (r, ag')"
    using assms now by (simp add: handleRunFailure_def bind_eff_def on_env_def clock_def Let_def)
  have m: "failure_message ?ag1 err aborted now = failure_message ag err aborted now"
    by (simp add: failure_message_def)
  show "\<exists>now. ag_messages ag' = ag_messages ag @ [Assistant (failure_message ag err aborted now)]"
    "ag_listeners ag' = ag_listeners ag" "ag_runs ag' = ag_runs ag"
    using processEvents_fields [OF p] m by auto
qed

lemma runWithLifecycle_cases:
  assumes run: "runWithLifecycle opts ex ag = Some (r, ag')" and idle: "ag_activeRun ag = None"
  obtains (returned) result s where "ex (begin_run LocalRun ag) = Some (Inr result, s)" "r = Inr ()" "ag' = finishRun (ls_world s)"
  | (failed) err s ag2 where "ex (begin_run LocalRun ag) = Some (Inl err, s)" "ag' = finishRun ag2"
      "handleRunFailure opts err (ae_aborted (ag_env (ls_world s))) (ls_world s) = (r, ag2)"
  using run idle by (auto simp: runWithLifecycle_def split: option.splits prod.splits sum.splits)

lemma reduced_fields:
  assumes "reduced a tr b"
  shows "ag_messages b = ag_messages a @ ended tr" "ag_listeners b = ag_listeners a" "ag_runs b = ag_runs a"
    "ag_activeRun b = ag_activeRun a" "ag_model b = ag_model a"
  using apart_env_fields [OF assms [unfolded reduced_def]] by (simp_all add: fold_reduce_messages fold_reduce_core)

section \<open>Steps of the agent\<close>

text \<open>
  The public operations, with any outcome of the runs. \<open>env\<close> covers \<open>steer\<close>, \<open>followUp\<close>,
  the clear operations, the modes and \<open>abort\<close>, which only change the environment.
\<close>

inductive agent_step :: "'w agent_options \<Rightarrow> 'w agent \<Rightarrow> 'w agent \<Rightarrow> bool" for opts where
  env: "agent_step opts ag (update_env f ag)"
| subscribed: "agent_step opts ag (subscribe k f ag)"
| unsubscribed: "agent_step opts ag (unsubscribe k ag)"
| was_reset: "agent_step opts ag (reset_agent ag)"
| prompted: "prompt opts sch fuel input ag = Some (r, ag') \<Longrightarrow> agent_step opts ag ag'"
| continued: "continue_run opts sch fuel ag = Some (r, ag') \<Longrightarrow> agent_step opts ag ag'"
| remote_begun: "beginRemoteRun ag = (r, ag') \<Longrightarrow> agent_step opts ag ag'"
| remote_applied: "applyRemoteEvent e ag = (r, ag') \<Longrightarrow> agent_step opts ag ag'"
| remote_processed: "next_remote_event ag = Some (r, ag') \<Longrightarrow> agent_step opts ag ag'"
| remote_ended: "endRemoteRun ag = (r, ag') \<Longrightarrow> agent_step opts ag ag'"

inductive agent_reach :: "'w agent_options \<Rightarrow> 'w agent \<Rightarrow> 'w agent \<Rightarrow> bool" for opts a where
  start: "agent_reach opts a a"
| step: "agent_reach opts a b \<Longrightarrow> agent_step opts b d \<Longrightarrow> agent_reach opts a d"

text \<open>
  An idle agent is not streaming and has no message, tool call or remote event pending;
  listeners are distinct; between operations only a remote run is active, with a number already given out.
\<close>

definition agent_ok :: "'w agent \<Rightarrow> bool" where
  "agent_ok ag \<longleftrightarrow>
     (ag_activeRun ag = None \<longrightarrow>
        \<not> ag_isStreaming ag \<and> ag_streamingMessage ag = None \<and> ag_pendingToolCalls ag = {}
        \<and> ag_remoteEvents ag = [] \<and> \<not> ag_remoteAgentEndApplied ag)
     \<and> distinct (map fst (ag_listeners ag))
     \<and> (\<forall>r. ag_activeRun ag = Some r \<longrightarrow> ar_number r < ag_runs ag \<and> ar_mode r = RemoteRun)"

lemma agent_ok_initial: "agent_ok (createMutableAgentState p m ts ms sm fm w)"
  by (simp add: agent_ok_def createMutableAgentState_def)

lemma agent_ok_finish: "distinct (map fst (ag_listeners ag)) \<Longrightarrow> agent_ok (finishRun ag)"
  by (simp add: agent_ok_def)

lemma agent_ok_env: "agent_ok ag \<Longrightarrow> on_env f ag = (r, ag') \<Longrightarrow> agent_ok ag'"
  using on_env_fields [of f ag r ag'] by (simp add: agent_ok_def)

lemma agent_ok_update_env [simp]: "agent_ok (update_env f ag) = agent_ok ag"
  by (simp add: agent_ok_def)

lemma executor_reduced:
  "prompt_executor opts sch fuel skip ms ag = Some (r, s) \<or> continue_executor opts sch fuel ag = Some (r, s) \<Longrightarrow>
     reduced ag (ls_trace s) (ls_world s)"
  using prompt_executor_reduced continue_executor_reduced by blast

lemma lifecycle_ok:
  assumes ok: "agent_ok ag" and run: "runWithLifecycle opts ex ag = Some (r, ag')"
    and ex: "\<And>x s. ex (begin_run LocalRun ag) = Some (x, s) \<Longrightarrow> reduced (begin_run LocalRun ag) (ls_trace s) (ls_world s)"
  shows "agent_ok ag' \<and> (ag_activeRun ag = None \<longrightarrow> ag_activeRun ag' = None)"
proof (cases "ag_activeRun ag = None")
  case False
  with run ok show ?thesis by (auto simp: runWithLifecycle_def)
next
  case True
  have d: "distinct (map fst (ag_listeners (ls_world s)))" if "ex (begin_run LocalRun ag) = Some (x, s)" for x s
    using reduced_fields(2) [OF ex [OF that]] ok by (simp add: agent_ok_def)
  from run True show ?thesis
  proof (cases rule: runWithLifecycle_cases)
    case (returned result s)
    with d agent_ok_finish show ?thesis by auto
  next
    case (failed err s ag2)
    with d [OF failed(1)] handleRunFailure_fields(2) [OF failed(3)] agent_ok_finish [of ag2] show ?thesis by auto
  qed
qed

lemma prompt_messages_ok:
  "agent_ok ag \<Longrightarrow> runPromptMessages opts sch fuel skip ms ag = Some (r, ag') \<Longrightarrow>
     agent_ok ag' \<and> (ag_activeRun ag = None \<longrightarrow> ag_activeRun ag' = None)"
  unfolding runPromptMessages_def by (rule lifecycle_ok) (auto dest: prompt_executor_reduced)

lemma prompt_ok:
  assumes "agent_ok ag" "prompt opts sch fuel input ag = Some (r, ag')"
  shows "agent_ok ag' \<and> (ag_activeRun ag = None \<longrightarrow> ag_activeRun ag' = None)"
proof (cases "ag_activeRun ag = None")
  case False
  with assms show ?thesis by (auto simp: prompt_def)
next
  case True
  obtain x ag1 where n: "on_env (normalizePromptInput opts input) ag = (x, ag1)" by fastforce
  have ok1: "agent_ok ag1" "ag_activeRun ag1 = None"
    using agent_ok_env [OF assms(1) n] on_env_fields(2) [OF n] True by simp_all
  from assms(2) True n ok1 prompt_messages_ok [OF ok1(1)] show ?thesis
    by (auto simp: prompt_def split: sum.splits)
qed

lemma continue_ok:
  assumes "agent_ok ag" "continue_run opts sch fuel ag = Some (r, ag')"
  shows "agent_ok ag' \<and> (ag_activeRun ag = None \<longrightarrow> ag_activeRun ag' = None)"
proof -
  let ?good = "\<lambda>b. agent_ok b \<and> (ag_activeRun ag = None \<longrightarrow> ag_activeRun b = None)"
  have p: "runPromptMessages opts sch fuel skip ms (update_env f ag) = Some (r, b) \<Longrightarrow> ?good b"
    "runPromptMessages opts sch fuel skip ms (update_env f (update_env g ag)) = Some (r, b) \<Longrightarrow> ?good b"
    for skip ms f g b
    using prompt_messages_ok [of "update_env f (update_env g ag)" opts sch fuel skip ms r b]
      prompt_messages_ok [of "update_env f ag" opts sch fuel skip ms r b] assms(1) by auto
  have c: "runContinuation opts sch fuel ag = Some (r, b) \<Longrightarrow> ?good b" for b
    using lifecycle_ok [OF assms(1), of opts "continue_executor opts sch fuel" r b] continue_executor_reduced
    unfolding runContinuation_def by blast
  have "?good ag" using assms(1) by simp
  moreover have "?good (update_env f (update_env g ag))" for f g using assms(1) by simp
  ultimately show ?thesis
    using assms(2) unfolding continue_run_def Let_def
    by (auto split: if_splits prod.splits dest: p c)
qed

lemma remote_event_fields:
  assumes "remote_event n e ag = (r, ag')"
  shows "ag_activeRun ag' = ag_activeRun ag" "ag_listeners ag' = ag_listeners ag" "ag_runs ag' = ag_runs ag"
    "ag_remoteEvents ag' = ag_remoteEvents ag"
proof -
  obtain x ag1 where p: "processEvents e ag = (x, ag1)" by fastforce
  from assms p processEvents_fields [OF p]
  show "ag_activeRun ag' = ag_activeRun ag" "ag_listeners ag' = ag_listeners ag" "ag_runs ag' = ag_runs ag"
    "ag_remoteEvents ag' = ag_remoteEvents ag"
    by (auto simp: remote_event_def bind_eff_def split: if_splits sum.splits)
qed

lemma settle_events_fields:
  "ag_activeRun (settle_events es ag) = ag_activeRun ag \<and> ag_listeners (settle_events es ag) = ag_listeners ag
     \<and> ag_runs (settle_events es ag) = ag_runs ag \<and> ag_remoteEvents (settle_events es ag) = ag_remoteEvents ag"
proof (induction es arbitrary: ag)
  case (Cons x es)
  obtain r ag1 where e: "remote_event (fst x) (snd x) ag = (r, ag1)" by fastforce
  from Cons [of ag1] remote_event_fields [OF e] e show ?case by simp
qed simp

lemma agent_step_ok: "agent_step opts ag ag' \<Longrightarrow> agent_ok ag \<Longrightarrow> agent_ok ag'"
proof (induction rule: agent_step.induct)
  case (subscribed ag k f)
  then show ?case by (auto simp: agent_ok_def subscribe_def)
next
  case (unsubscribed ag k)
  then show ?case by (auto simp: agent_ok_def unsubscribe_def distinct_map_filter)
next
  case (was_reset ag)
  then show ?case by (simp add: reset_agent_def) (simp add: agent_ok_def)
next
  case (remote_begun ag r ag')
  then show ?case by (auto simp: beginRemoteRun_def agent_ok_def split: if_splits)
next
  case (remote_applied e ag r ag')
  then show ?case by (auto simp: applyRemoteEvent_def agent_ok_def split: option.splits if_splits)
next
  case (remote_processed ag r ag')
  then obtain n e rest where e: "ag_remoteEvents ag = (n, e) # rest"
    "remote_event n e (ag\<lparr>ag_remoteEvents := rest\<rparr>) = (r, ag')"
    by (auto simp: next_remote_event_def split: list.splits)
  with remote_processed(2) have "ag_activeRun ag \<noteq> None" by (auto simp: agent_ok_def)
  with remote_processed(2) remote_event_fields [OF e(2)] show ?case by (auto simp: agent_ok_def)
next
  case (remote_ended ag r ag')
  have f: "ag_activeRun (settle_remote ag) = ag_activeRun ag" "ag_listeners (settle_remote ag) = ag_listeners ag"
    "ag_runs (settle_remote ag) = ag_runs ag"
    by (simp_all add: settle_remote_def settle_events_fields)
  have active: "remote_active ag \<Longrightarrow> ag_activeRun ag \<noteq> None" by (auto simp: remote_active_def split: option.splits)
  from remote_ended have "ag' = ag \<or> (remote_active ag \<and> (ag' = settle_remote ag \<or> ag' = finishRun (settle_remote ag)))"
    by (auto simp: endRemoteRun_def Let_def split: if_splits)
  with remote_ended(2) f active agent_ok_finish [of "settle_remote ag"] show ?case by (auto simp: agent_ok_def)
qed (auto dest: prompt_ok continue_ok)

end
