(* ===== verification/Agent_Properties.thy ===== *)
theory Agent_Properties
  imports Agent_Stream_Properties Agent_Lifecycle
begin

text \<open>
  The properties of the stateful agent, with concrete agents as witnesses.
\<close>

section \<open>The stateful agent\<close>

text \<open>C24 After any sequence of the agent's operations: an agent with no active run is not
  streaming and has no message, tool call or remote event pending; between operations only a
  remote run can be active; no listener is subscribed twice.\<close>

theorem agent_invariant:
  assumes "agent_reach opts (createMutableAgentState systemPrompt model tools messages sm fm w) ag"
  shows "(ag_activeRun ag = None \<longrightarrow> \<not> ag_isStreaming ag \<and> ag_streamingMessage ag = None
        \<and> ag_pendingToolCalls ag = {} \<and> ag_remoteEvents ag = [])
    \<and> (\<forall>r. ag_activeRun ag = Some r \<longrightarrow> ar_mode r = RemoteRun)
    \<and> distinct (map fst (ag_listeners ag))"
proof -
  from assms have "agent_ok ag"
    by (induction rule: agent_reach.induct) (simp_all add: agent_ok_initial agent_step_ok)
  then show ?thesis by (auto simp: agent_ok_def)
qed

definition demo_model :: agent_model where
  "demo_model = \<lparr>mo_api = js ''api'', mo_provider = js ''prov'', mo_id = js ''model''\<rparr>"

definition demo_agent :: "nat agent" where
  "demo_agent = createMutableAgentState [] demo_model [] [] OneAtATime OneAtATime 0"

definition demo_listener :: "nat listener" where
  "demo_listener e = (\<lambda>env. (Inr (), env\<lparr>ae_world := Suc (ae_world env)\<rparr>))"

definition demo_listened :: "nat agent" where
  "demo_listened = subscribe 0 demo_listener demo_agent"

theorem agent_invariant_witness:
  "distinct (map fst (ag_listeners (subscribe 0 demo_listener demo_listened)))"
proof -
  let ?opts = "undefined :: nat agent_options"
  have "agent_reach ?opts demo_agent (subscribe 0 demo_listener demo_listened)"
    unfolding demo_listened_def
    by (rule agent_reach.step [OF agent_reach.step [OF agent_reach.start agent_step.subscribed] agent_step.subscribed])
  from agent_invariant [OF this [unfolded demo_agent_def]] show ?thesis by blast
qed

text \<open>A run never fails in between when there is nothing to fail: options for concrete runs.\<close>

definition demo_options :: "nat agent_options" where
  "demo_options = \<lparr>op_convertToLlm = None, op_transformContext = None,
     op_streamFn = (\<lambda>rq. ret \<lparr>sr_events = [DoneE StopR demo_answer], sr_result = demo_answer\<rparr>),
     op_getApiKey = None, op_beforeToolCall = None, op_afterToolCall = None, op_repairToolCalls = False,
     op_toolExecution = None, op_validate = (\<lambda>t tc. Inr (tc_arguments tc)), op_parseJson = (\<lambda>t. None),
     op_now = (\<lambda>env. (5, env))\<rparr>"

lemma demo_options_streams: "streams_ok (createLoopConfig demo_options ag)"
  by (auto simp: streams_ok_def createLoopConfig_def demo_options_def on_env_def ret_def)

text \<open>C25 A prompt, on an agent that is idle, leaves it idle with a transcript that is the old one
  followed by the messages of the run: all the run returned when it succeeds, and when it fails
  the messages that had ended and an error message with the reason.\<close>

theorem prompt_extends_transcript:
  assumes "streams_ok (createLoopConfig opts (begin_run LocalRun ag))" "ag_activeRun ag = None"
    and "runPromptMessages opts schedules fuel skip messages ag = Some (r, ag')"
  shows "ag_activeRun ag' = None \<and>
    (\<exists>x s. prompt_executor opts schedules fuel skip messages (begin_run LocalRun ag) = Some (x, s) \<and>
      (case x of
         Inr result \<Rightarrow> r = Inr () \<and> ag_messages ag' = ag_messages ag @ result
           \<and> take (length messages) result = messages
       | Inl err \<Rightarrow> \<exists>aborted now. ag_messages ag' = ag_messages ag @ ended (ls_trace s)
           @ [Assistant (failure_message ag err aborted now)]))"
  using assms(3) [unfolded runPromptMessages_def] assms(2)
proof (cases rule: runWithLifecycle_cases)
  case (returned result s)
  note ex = returned(1)
  from ex have run: "runAgentLoop messages (ag_messages ag) (fst (createContextSnapshot (begin_run LocalRun ag)))
      (createLoopConfig opts (begin_run LocalRun ag)) schedules fuel
      ((begin_run LocalRun ag)\<lparr>ag_skipPoll := skip\<rparr>) = Some (Inr result, s)"
    by (simp add: prompt_executor_def createContextSnapshot_def)
  from runAgentLoop_run_correct [OF assms(1) run] have c: "ended (ls_trace s) = result" "take (length messages) result = messages"
    by (simp_all add: run_correct_def)
  have "ag_messages (ls_world s) = ag_messages ag @ result"
    using reduced_fields(1) [OF prompt_executor_reduced [OF ex]] c(1) by simp
  with returned c(2) show ?thesis by simp
next
  case (failed err s ag2)
  note red = prompt_executor_reduced [OF failed(1)]
  have m: "failure_message (ls_world s) err b now = failure_message ag err b now" for b now
    using reduced_fields(5) [OF red] by (simp add: failure_message_def)
  from handleRunFailure_fields(1) [OF failed(3)] obtain now where
    "ag_messages ag2 = ag_messages (ls_world s)
      @ [Assistant (failure_message (ls_world s) err (ae_aborted (ag_env (ls_world s))) now)]" ..
  then have "ag_messages ag' = ag_messages ag @ ended (ls_trace s)
      @ [Assistant (failure_message ag err (ae_aborted (ag_env (ls_world s))) now)]"
    using failed(2) reduced_fields(1) [OF red] by (simp add: m)
  with failed(1,2) show ?thesis by auto
qed

definition demo_prompted :: "nat agent" where
  "demo_prompted = snd (the (runPromptMessages demo_options demo_schedule 3 False [demo_prompt] demo_agent))"

lemmas agent_eval = createLoopConfig_def demo_options_def demo_model_def createMutableAgentState_def new_queue_def
  begin_run_def createActiveRun_def update_env_def prompt_executor_def createContextSnapshot_def on_env_def
  processEvents_def notify_def poll_steering_def poll_followUp_def drain_def finishRun_def runWithLifecycle_def
  runPromptMessages_def clock_def

lemma demo_prompted_run:
  "runPromptMessages demo_options demo_schedule 3 False [demo_prompt] demo_agent = Some (Inr (), demo_prompted)"
proof -
  have "map_option fst (runPromptMessages demo_options demo_schedule 3 False [demo_prompt] demo_agent) = Some (Inr ())"
    by (simp add: loop_eval demo_eval agent_eval demo_agent_def cong: bind_weak_cong)
  then show ?thesis by (auto simp: demo_prompted_def)
qed

lemma demo_prompted_messages: "ag_messages demo_prompted = [demo_prompt, Assistant demo_answer]"
  unfolding demo_prompted_def
  by (simp add: loop_eval demo_eval agent_eval demo_agent_def cong: bind_weak_cong)

theorem prompt_extends_transcript_witness:
  "ag_activeRun demo_prompted = None \<and> ag_messages demo_prompted = [demo_prompt, Assistant demo_answer]"
proof -
  have idle: "ag_activeRun demo_agent = None" by (simp add: demo_agent_def createMutableAgentState_def)
  from prompt_extends_transcript [OF demo_options_streams idle demo_prompted_run] demo_prompted_messages
  show ?thesis by simp
qed



section \<open>Remote runs and queues\<close>

lemma remote_event_messages:
  assumes "remote_event n e ag = (r, ag')" "map_option ar_number (ag_activeRun ag) = Some n"
  shows "ag_messages ag' = ag_messages ag @ ended [e]"
    "ag_remoteAgentEndApplied ag' \<longleftrightarrow> ag_remoteAgentEndApplied ag \<or> (is_agent_end e \<and> r = Inr ())"
proof -
  obtain x ag1 where p: "processEvents e ag = (x, ag1)" by fastforce
  from assms p processEvents_fields [OF p]
  show "ag_messages ag' = ag_messages ag @ ended [e]"
    "ag_remoteAgentEndApplied ag' \<longleftrightarrow> ag_remoteAgentEndApplied ag \<or> (is_agent_end e \<and> r = Inr ())"
    by (auto simp: remote_event_def bind_eff_def split: sum.splits if_splits)
qed

text \<open>The outcome of each event of a chain, in order.\<close>

primrec event_outcomes :: "(nat \<times> agent_event) list \<Rightarrow> 'w agent \<Rightarrow> (jsstring + unit) list" where
  "event_outcomes [] ag = []"
| "event_outcomes (x # xs) ag =
     (case remote_event (fst x) (snd x) ag of (r, ag') \<Rightarrow> r # event_outcomes xs ag')"

lemma settle_events_messages:
  "\<forall>x \<in> set xs. fst x = n \<Longrightarrow> map_option ar_number (ag_activeRun ag) = Some n \<Longrightarrow>
     ag_messages (settle_events xs ag) = ag_messages ag @ ended (map snd xs)
     \<and> (ag_remoteAgentEndApplied (settle_events xs ag) \<longleftrightarrow> ag_remoteAgentEndApplied ag
        \<or> (\<exists>(x, r) \<in> set (zip xs (event_outcomes xs ag)). is_agent_end (snd x) \<and> r = Inr ()))"
proof (induction xs arbitrary: ag)
  case (Cons x xs)
  obtain r ag1 where e: "remote_event (fst x) (snd x) ag = (r, ag1)" by fastforce
  have n: "fst x = n" using Cons.prems(1) by simp
  note f = remote_event_fields(1) [OF e] remote_event_messages [OF e [unfolded n] Cons.prems(2)]
  from Cons.IH [of ag1] Cons.prems f e n show ?case by auto
qed simp

text \<open>A remote run adds to the transcript the messages its events ended, in order, also when
  listeners fail, and it can be ended, leaving the agent idle, exactly when some \<open>agent_end\<close>
  event was processed without a failing listener.\<close>

theorem remote_run_ends_after_agent_end:
  assumes "ag_activeRun ag = Some run" "ar_mode run = RemoteRun" "\<not> ag_remoteAgentEndApplied ag"
    and "ag_remoteEvents ag = map (Pair (ar_number run)) events" "endRemoteRun ag = (r, ag')"
  shows "ag_messages ag' = ag_messages ag @ ended events
    \<and> (r = Inr () \<longleftrightarrow> ag_activeRun ag' = None)
    \<and> (r = Inr () \<longleftrightarrow> (\<exists>(e, out) \<in> set (zip events
        (event_outcomes (ag_remoteEvents ag) (ag\<lparr>ag_remoteEvents := []\<rparr>))). is_agent_end e \<and> out = Inr ()))"
proof -
  let ?xs = "map (Pair (ar_number run)) events" and ?ag0 = "ag\<lparr>ag_remoteEvents := []\<rparr>"
  from settle_events_messages [of ?xs "ar_number run" ?ag0] assms(1,3)
  have s: "ag_messages (settle_events ?xs ?ag0) = ag_messages ag @ ended events"
    "ag_remoteAgentEndApplied (settle_events ?xs ?ag0) \<longleftrightarrow>
       (\<exists>(x, out) \<in> set (zip ?xs (event_outcomes ?xs ?ag0)). is_agent_end (snd x) \<and> out = Inr ())"
    by (simp_all add: o_def)
  have z: "(\<exists>(x, out) \<in> set (zip ?xs outs). is_agent_end (snd x) \<and> out = Inr ())
      \<longleftrightarrow> (\<exists>(e, out) \<in> set (zip events outs). is_agent_end e \<and> out = Inr ())" for outs :: "(jsstring + unit) list"
    by (auto simp: zip_map1 split_beta)
  have act: "ag_activeRun (settle_events ?xs ?ag0) = Some run" using settle_events_fields [of ?xs ?ag0] assms(1) by simp
  have rem: "remote_active ag" using assms(1,2) by (simp add: remote_active_def)
  let ?T = "settle_events ?xs ?ag0"
  have out: "ag' = (if ag_remoteAgentEndApplied ?T then finishRun ?T else ?T)" "r = Inr () \<longleftrightarrow> ag_remoteAgentEndApplied ?T"
    using assms(5) rem unfolding endRemoteRun_def settle_remote_def assms(4) Let_def by (auto split: if_splits)
  have "ag_messages ag' = ag_messages ag @ ended events" "r = Inr () \<longleftrightarrow> ag_activeRun ag' = None"
    using out s(1) act by simp_all
  with out(2) s(2) z show ?thesis unfolding assms(4) by simp
qed

definition demo_remote :: "nat agent" where
  "demo_remote = fold (\<lambda>e ag. snd (applyRemoteEvent e ag))
     [AgentStart, MessageStart demo_prompt, MessageEnd demo_prompt, AgentEnd [demo_prompt]] (snd (beginRemoteRun demo_agent))"

theorem remote_run_ends_after_agent_end_witness:
  "ag_messages (snd (endRemoteRun demo_remote)) = [demo_prompt]"
proof -
  let ?es = "[AgentStart, MessageStart demo_prompt, MessageEnd demo_prompt, AgentEnd [demo_prompt]]"
  let ?run = "\<lparr>ar_number = 0, ar_mode = RemoteRun\<rparr>"
  have s: "ag_activeRun demo_remote = Some ?run" "ar_mode ?run = RemoteRun" "\<not> ag_remoteAgentEndApplied demo_remote"
    "ag_remoteEvents demo_remote = map (Pair (ar_number ?run)) ?es" "ag_messages demo_remote = []"
    by (simp_all add: demo_remote_def beginRemoteRun_def applyRemoteEvent_def agent_eval demo_agent_def)
  from remote_run_ends_after_agent_end [OF s(1-4) prod.collapse [symmetric]] s(5)
  show ?thesis by (simp add: ended_def List.map_filter_simps)
qed

text \<open>A queue of pending messages gives out each message once and in the order it was queued,
  whatever the mode and however drains and additions alternate.\<close>

theorem queue_serves_in_order:
  assumes "queue.serve xs q = (out, q')"
  shows "mq_messages q @ List.map_filter id xs = out @ mq_messages q'"
  by (rule queue.served_in_order [OF assms])

theorem queue_serves_in_order_witness:
  "mq_messages (snd (queue.serve [Some demo_prompt, Some (Assistant demo_answer), None] (new_queue OneAtATime)))
     = [Assistant demo_answer]"
proof -
  let ?q = "snd (queue.serve [Some demo_prompt, Some (Assistant demo_answer), None] (new_queue OneAtATime))"
  have "queue.serve [Some demo_prompt, Some (Assistant demo_answer), None] (new_queue OneAtATime) = ([demo_prompt], ?q)"
    by (simp add: queue.serve.simps enqueue_def drain_def new_queue_def)
  from queue_serves_in_order [OF this] show ?thesis by (simp add: new_queue_def List.map_filter_simps)
qed

end
