(* ===== verification/Truncation.thy ===== *)
theory Truncation
  imports Pi_Messages
begin

text \<open>
  Truncation of tool output, \<open>packages/coding-agent/src/core/tools/truncate.ts\<close>.

  \<^item> \<open>utf8\<close> is \<open>Buffer.from(s, "utf-8")\<close>: a surrogate pair is four bytes, a surrogate on its
    own is encoded as U+FFFD. \<open>from_utf8\<close> is \<open>toString("utf-8")\<close> on the well-formed bytes a
    slice at a character boundary has; other bytes, which the code never decodes, give U+FFFD.
  \<^item> A limit is a natural number.
\<close>

section \<open>UTF-8\<close>

definition byte :: "nat \<Rightarrow> 8 word" where
  "byte n = word_of_nat n"

definition three_bytes :: "nat \<Rightarrow> 8 word list" where
  "three_bytes n = [byte (224 + n div 4096), byte (128 + n div 64 mod 64), byte (128 + n mod 64)]"

definition unit_bytes :: "16 word \<Rightarrow> 8 word list" where
  "unit_bytes u =
     (let n = unat u
      in if n < 128 then [byte n]
         else if n < 2048 then [byte (192 + n div 64), byte (128 + n mod 64)]
         else if is_high_surrogate u \<or> is_low_surrogate u then three_bytes 65533
         else three_bytes n)"

text \<open>The code point of a surrogate pair.\<close>

definition pair_code :: "16 word \<Rightarrow> 16 word \<Rightarrow> nat" where
  "pair_code u v = 65536 + (unat u - 55296) * 1024 + (unat v - 56320)"

definition four_bytes :: "nat \<Rightarrow> 8 word list" where
  "four_bytes n =
     [byte (240 + n div 262144), byte (128 + n div 4096 mod 64), byte (128 + n div 64 mod 64), byte (128 + n mod 64)]"

fun utf8 :: "jsstring \<Rightarrow> 8 word list" where
  "utf8 [] = []"
| "utf8 [u] = unit_bytes u"
| "utf8 (u # v # s) =
     (if is_high_surrogate u \<and> is_low_surrogate v then four_bytes (pair_code u v) @ utf8 s
      else unit_bytes u @ utf8 (v # s))"

definition byteLength :: "jsstring \<Rightarrow> nat" where
  "byteLength s = length (utf8 s)"

definition is_continuation :: "8 word \<Rightarrow> bool" where
  "is_continuation b \<longleftrightarrow> 128 \<le> unat b \<and> unat b < 192"

definition low6 :: "8 word \<Rightarrow> nat" where
  "low6 b = unat b mod 64"

fun from_utf8 :: "8 word list \<Rightarrow> jsstring" where
  "from_utf8 [] = []"
| "from_utf8 (a # bs) =
     (if unat a < 128 then word_of_nat (unat a) # from_utf8 bs
      else if 192 \<le> unat a \<and> unat a < 224
      then (case bs of
              b # rest \<Rightarrow> word_of_nat ((unat a - 192) * 64 + low6 b) # from_utf8 rest
            | [] \<Rightarrow> [65533])
      else if 224 \<le> unat a \<and> unat a < 240
      then (case bs of
              b # c # rest \<Rightarrow> word_of_nat ((unat a - 224) * 4096 + low6 b * 64 + low6 c) # from_utf8 rest
            | _ \<Rightarrow> [65533])
      else if 240 \<le> unat a
      then (case bs of
              b # c # d # rest \<Rightarrow>
                (let n = (unat a - 240) * 262144 + low6 b * 4096 + low6 c * 64 + low6 d - 65536
                 in word_of_nat (55296 + n div 1024) # word_of_nat (56320 + n mod 1024) # from_utf8 rest)
            | _ \<Rightarrow> [65533])
      else 65533 # from_utf8 bs)"

section \<open>Results\<close>

datatype truncated_by = ByLines | ByBytes

record truncation_result =
  tn_content :: jsstring
  tn_truncated :: bool
  tn_truncatedBy :: "truncated_by option"
  tn_totalLines :: nat
  tn_totalBytes :: nat
  tn_outputLines :: nat
  tn_outputBytes :: nat
  tn_lastLinePartial :: bool
  tn_firstLineExceedsLimit :: bool
  tn_maxLines :: nat
  tn_maxBytes :: nat

definition DEFAULT_MAX_LINES :: nat where
  "DEFAULT_MAX_LINES = 2000"

definition DEFAULT_MAX_BYTES :: nat where
  "DEFAULT_MAX_BYTES = 50 * 1024"

definition GREP_MAX_LINE_LENGTH :: nat where
  "GREP_MAX_LINE_LENGTH = 500"

definition option_or :: "nat option \<Rightarrow> nat \<Rightarrow> nat" where
  "option_or x d = (case x of Some n \<Rightarrow> n | None \<Rightarrow> d)"

definition lines_of :: "jsstring \<Rightarrow> jsstring list" where
  "lines_of s = split_on 10 s"

definition untruncated :: "jsstring \<Rightarrow> nat \<Rightarrow> nat \<Rightarrow> truncation_result" where
  "untruncated content maxLines maxBytes =
     \<lparr>tn_content = content, tn_truncated = False, tn_truncatedBy = None,
      tn_totalLines = length (lines_of content), tn_totalBytes = byteLength content,
      tn_outputLines = length (lines_of content), tn_outputBytes = byteLength content,
      tn_lastLinePartial = False, tn_firstLineExceedsLimit = False, tn_maxLines = maxLines, tn_maxBytes = maxBytes\<rparr>"

text \<open>\<open>(a / d).toFixed(1)\<close> for a power of two \<open>d\<close>, where the quotient is exact: the nearest tenth, the
  larger one of two.\<close>

definition toFixed_1 :: "nat \<Rightarrow> nat \<Rightarrow> jsstring" where
  "toFixed_1 a d = (let n = (20 * a + d) div (2 * d) in show_nat (n div 10) @ js ''.'' @ show_nat (n mod 10))"

definition formatSize :: "nat \<Rightarrow> jsstring" where
  "formatSize bytes =
     (if bytes < 1024 then show_nat bytes @ js ''B''
      else if bytes < 1024 * 1024 then toFixed_1 bytes 1024 @ js ''KB''
      else toFixed_1 bytes (1024 * 1024) @ js ''MB'')"

section \<open>From the head\<close>

text \<open>The loop: what is collected, its bytes, and the limit that stopped it.\<close>

fun head_lines :: "nat \<Rightarrow> nat \<Rightarrow> jsstring list \<Rightarrow> jsstring list \<Rightarrow> nat \<Rightarrow> jsstring list \<times> nat \<times> truncated_by" where
  "head_lines maxLines maxBytes [] acc used = (acc, used, ByLines)"
| "head_lines maxLines maxBytes (line # lines) acc used =
     (if length acc \<ge> maxLines then (acc, used, ByLines)
      else
        (let lineBytes = byteLength line + (if acc \<noteq> [] then 1 else 0)
         in if used + lineBytes > maxBytes then (acc, used, ByBytes)
            else head_lines maxLines maxBytes lines (acc @ [line]) (used + lineBytes)))"

definition truncateHead :: "jsstring \<Rightarrow> nat option \<Rightarrow> nat option \<Rightarrow> truncation_result" where
  "truncateHead content optLines optBytes =
     (let maxLines = option_or optLines DEFAULT_MAX_LINES;
          maxBytes = option_or optBytes DEFAULT_MAX_BYTES;
          totalBytes = byteLength content;
          lines = lines_of content;
          totalLines = length lines
      in if totalLines \<le> maxLines \<and> totalBytes \<le> maxBytes then untruncated content maxLines maxBytes
         else if byteLength (hd lines) > maxBytes
         then \<lparr>tn_content = [], tn_truncated = True, tn_truncatedBy = Some ByBytes, tn_totalLines = totalLines,
               tn_totalBytes = totalBytes, tn_outputLines = 0, tn_outputBytes = 0, tn_lastLinePartial = False,
               tn_firstLineExceedsLimit = True, tn_maxLines = maxLines, tn_maxBytes = maxBytes\<rparr>
         else
           (case head_lines maxLines maxBytes lines [] 0 of
              (output, used, by) \<Rightarrow>
                (let by' = (if length output \<ge> maxLines \<and> used \<le> maxBytes then ByLines else by);
                     outputContent = join_with nl output
                 in \<lparr>tn_content = outputContent, tn_truncated = True, tn_truncatedBy = Some by',
                     tn_totalLines = totalLines, tn_totalBytes = totalBytes, tn_outputLines = length output,
                     tn_outputBytes = byteLength outputContent, tn_lastLinePartial = False,
                     tn_firstLineExceedsLimit = False, tn_maxLines = maxLines, tn_maxBytes = maxBytes\<rparr>)))"

section \<open>From the tail\<close>

text \<open>The search for a character boundary.\<close>

definition boundary_from :: "8 word list \<Rightarrow> nat \<Rightarrow> nat" where
  "boundary_from buf start = start + length (takeWhile is_continuation (drop start buf))"

definition truncateStringToBytesFromEnd :: "jsstring \<Rightarrow> nat \<Rightarrow> jsstring" where
  "truncateStringToBytesFromEnd str maxBytes =
     (let buf = utf8 str
      in if length buf \<le> maxBytes then str
         else from_utf8 (drop (boundary_from buf (length buf - maxBytes)) buf))"

text \<open>The lines come last first; \<open>acc\<close> is in the order of the text.\<close>

fun tail_lines ::
    "nat \<Rightarrow> nat \<Rightarrow> jsstring list \<Rightarrow> jsstring list \<Rightarrow> nat \<Rightarrow> jsstring list \<times> nat \<times> truncated_by \<times> bool" where
  "tail_lines maxLines maxBytes [] acc used = (acc, used, ByLines, False)"
| "tail_lines maxLines maxBytes (line # lines) acc used =
     (if length acc \<ge> maxLines then (acc, used, ByLines, False)
      else
        (let lineBytes = byteLength line + (if acc \<noteq> [] then 1 else 0)
         in if used + lineBytes > maxBytes
            then (if acc = []
                  then (let t = truncateStringToBytesFromEnd line maxBytes
                        in ([t], byteLength t, ByBytes, True))
                  else (acc, used, ByBytes, False))
            else tail_lines maxLines maxBytes lines (line # acc) (used + lineBytes)))"

definition truncateTail :: "jsstring \<Rightarrow> nat option \<Rightarrow> nat option \<Rightarrow> truncation_result" where
  "truncateTail content optLines optBytes =
     (let maxLines = option_or optLines DEFAULT_MAX_LINES;
          maxBytes = option_or optBytes DEFAULT_MAX_BYTES;
          totalBytes = byteLength content;
          lines = lines_of content;
          totalLines = length lines
      in if totalLines \<le> maxLines \<and> totalBytes \<le> maxBytes then untruncated content maxLines maxBytes
         else
           (case tail_lines maxLines maxBytes (rev lines) [] 0 of
              (output, used, by, partial) \<Rightarrow>
                (let by' = (if length output \<ge> maxLines \<and> used \<le> maxBytes then ByLines else by);
                     outputContent = join_with nl output
                 in \<lparr>tn_content = outputContent, tn_truncated = True, tn_truncatedBy = Some by',
                     tn_totalLines = totalLines, tn_totalBytes = totalBytes, tn_outputLines = length output,
                     tn_outputBytes = byteLength outputContent, tn_lastLinePartial = partial,
                     tn_firstLineExceedsLimit = False, tn_maxLines = maxLines, tn_maxBytes = maxBytes\<rparr>)))"

section \<open>Single lines\<close>

definition truncateLine :: "jsstring \<Rightarrow> nat option \<Rightarrow> jsstring \<times> bool" where
  "truncateLine line optChars =
     (let maxChars = option_or optChars GREP_MAX_LINE_LENGTH
      in if length line \<le> maxChars then (line, False)
         else (take maxChars line @ js ''... [truncated]'', True))"

end
