(* ===== verification/Utf8_Scalars.thy ===== *)
theory Utf8_Scalars
  imports Truncation
begin

text \<open>
  Strings as sequences of Unicode scalar values: \<open>scalars\<close> reads them off the code units, \<open>enc\<close> and
  \<open>dec\<close> write one as bytes and as code units. \<open>truncate_end_spec\<close>: a line cut from its end is a suffix of
  its scalar values within the byte limit.
\<close>

section \<open>Scalar values\<close>

text \<open>The Unicode scalar values of a string, a lone surrogate read as U+FFFD, and their encodings.\<close>

definition unit_scalar :: "16 word \<Rightarrow> nat" where
  "unit_scalar u = (if is_high_surrogate u \<or> is_low_surrogate u then 65533 else unat u)"

fun scalars :: "jsstring \<Rightarrow> nat list" where
  "scalars [] = []"
| "scalars [u] = [unit_scalar u]"
| "scalars (u # v # s) =
     (if is_high_surrogate u \<and> is_low_surrogate v then pair_code u v # scalars s
      else unit_scalar u # scalars (v # s))"

definition enc :: "nat \<Rightarrow> 8 word list" where
  "enc n = (if n < 128 then [byte n]
     else if n < 2048 then [byte (192 + n div 64), byte (128 + n mod 64)]
     else if n < 65536 then three_bytes n else four_bytes n)"

definition dec :: "nat \<Rightarrow> jsstring" where
  "dec n = (if n < 65536 then [word_of_nat n]
     else [word_of_nat (55296 + (n - 65536) div 1024), word_of_nat (56320 + (n - 65536) mod 1024)])"

definition is_scalar :: "nat \<Rightarrow> bool" where
  "is_scalar n \<longleftrightarrow> n < 55296 \<or> (57344 \<le> n \<and> n < 1114112)"

lemma high_surrogate_unat: "is_high_surrogate u \<longleftrightarrow> 55296 \<le> unat u \<and> unat u < 56320"
  by (auto simp: is_high_surrogate_def word_le_nat_alt)

lemma low_surrogate_unat: "is_low_surrogate u \<longleftrightarrow> 56320 \<le> unat u \<and> unat u < 57344"
  by (auto simp: is_low_surrogate_def word_le_nat_alt)

lemma unat_16: "unat (u :: 16 word) < 65536"
proof -
  have "unat u < 2 ^ LENGTH(16)" by (rule unsigned_less)
  then show ?thesis by simp
qed

lemma unit_scalar_ok: "is_scalar (unit_scalar u)"
  using unat_16 [of u] by (auto simp: is_scalar_def unit_scalar_def high_surrogate_unat low_surrogate_unat)

lemma pair_code_ok:
  assumes "is_high_surrogate u" "is_low_surrogate v"
  shows "is_scalar (pair_code u v)" "65536 \<le> pair_code u v"
  using assms by (auto simp: is_scalar_def pair_code_def high_surrogate_unat low_surrogate_unat)

lemma scalars_ok: "\<forall>n \<in> set (scalars s). is_scalar n"
  by (induction s rule: scalars.induct) (auto simp: unit_scalar_ok pair_code_ok)

lemma unit_bytes_enc: "unit_bytes u = enc (unit_scalar u)"
  using unat_16 [of u]
  by (auto simp: unit_bytes_def enc_def unit_scalar_def Let_def high_surrogate_unat low_surrogate_unat)

lemma utf8_scalars: "utf8 s = concat (map enc (scalars s))"
  by (induction s rule: utf8.induct) (auto simp: unit_bytes_enc enc_def dest: pair_code_ok(2))

lemma unat_word16: "n < 65536 \<Longrightarrow> unat (word_of_nat n :: 16 word) = n"
  by (simp add: unat_of_nat)

lemma unat_byte [simp]: "n < 256 \<Longrightarrow> unat (byte n) = n"
  by (simp add: byte_def unat_of_nat)

lemma byte_eq: "byte n = word_of_nat n"
  by (simp add: byte_def)

lemma low6_byte [simp]: "n < 64 \<Longrightarrow> low6 (byte (128 + n)) = n"
  using mod_mult_self3 [of 2 64 n] by (simp add: low6_def)

lemma digits64:
  "n div 64 * 64 + n mod 64 = n" "n div 4096 * 4096 + n div 64 mod 64 * 64 + n mod 64 = n"
  "n div 262144 * 262144 + n div 4096 mod 64 * 4096 + n div 64 mod 64 * 64 + n mod 64 = (n :: nat)"
proof -
  have a: "n div 64 * 64 + n mod 64 = n" by simp
  have b: "n div 4096 * 64 + n div 64 mod 64 = n div 64"
    using div_mult_mod_eq [of "n div 64" 64] by (simp add: div_mult2_eq [symmetric])
  have c: "n div 262144 * 64 + n div 4096 mod 64 = n div 4096"
    using div_mult_mod_eq [of "n div 4096" 64] by (simp add: div_mult2_eq [symmetric])
  show "n div 64 * 64 + n mod 64 = n" by (rule a)
  show "n div 4096 * 4096 + n div 64 mod 64 * 64 + n mod 64 = n" using a b by linarith
  show "n div 262144 * 262144 + n div 4096 mod 64 * 4096 + n div 64 mod 64 * 64 + n mod 64 = n"
    using a b c by linarith
qed

text \<open>A lead byte is no continuation, the others are.\<close>

lemma enc_shape:
  assumes "is_scalar n"
  shows "\<exists>a bs. enc n = a # bs \<and> \<not> is_continuation a \<and> (\<forall>b \<in> set bs. is_continuation b)"
proof -
  have c: "is_continuation (byte (128 + k))" if "k < 64" for k using that by (simp add: is_continuation_def)
  have l: "\<not> is_continuation (byte k)" if "k < 128 \<or> (192 \<le> k \<and> k < 256)" for k
    using that by (auto simp: is_continuation_def)
  from assms have n: "n < 1114112" by (auto simp: is_scalar_def)
  consider "n < 128" | "128 \<le> n" "n < 2048" | "2048 \<le> n" "n < 65536" | "65536 \<le> n" by linarith
  then show ?thesis
  proof cases
    case 1
    with l [of n] show ?thesis by (simp add: enc_def)
  next
    case 2
    then have "n div 64 < 32" by (simp add: less_mult_imp_div_less)
    with 2 l [of "192 + n div 64"] c [of "n mod 64"] show ?thesis by (simp add: enc_def)
  next
    case 3
    then have "n div 4096 < 16" by (simp add: less_mult_imp_div_less)
    with 3 l [of "224 + n div 4096"] c [of "n mod 64"] c [of "n div 64 mod 64"] show ?thesis
      by (simp add: enc_def three_bytes_def)
  next
    case 4
    from n have "n div 262144 < 16" by (simp add: less_mult_imp_div_less)
    with 4 l [of "240 + n div 262144"] c [of "n mod 64"] c [of "n div 64 mod 64"] c [of "n div 4096 mod 64"]
    show ?thesis by (simp add: enc_def four_bytes_def)
  qed
qed

lemma from_utf8_enc:
  assumes "is_scalar n"
  shows "from_utf8 (enc n @ rest) = dec n @ from_utf8 rest"
proof -
  from assms have n: "n < 1114112" by (auto simp: is_scalar_def)
  consider "n < 128" | "128 \<le> n" "n < 2048" | "2048 \<le> n" "n < 65536" | "65536 \<le> n" by linarith
  then show ?thesis
  proof cases
    case 1
    then show ?thesis by (simp add: enc_def dec_def)
  next
    case 2
    then have "n div 64 < 32" by (simp add: less_mult_imp_div_less)
    then have a: "unat (byte (192 + n div 64)) = 192 + n div 64" by simp
    from 2 show ?thesis by (simp add: enc_def dec_def a mult.commute)
  next
    case 3
    then have "n div 4096 < 16" by (simp add: less_mult_imp_div_less)
    then have a: "unat (byte (224 + n div 4096)) = 224 + n div 4096" "n div 4096 < 16" by simp_all
    have w: "word_of_nat (n div 4096) * 4096 + word_of_nat (n div 64 mod 64) * 64 + word_of_nat (n mod 64)
        = (word_of_nat n :: 16 word)"
      using arg_cong [OF digits64(2) [of n], of word_of_nat] by simp
    with 3 show ?thesis by (simp add: enc_def dec_def three_bytes_def a w)
  next
    case 4
    from n have "n div 262144 < 16" by (simp add: less_mult_imp_div_less)
    then have a: "unat (byte (240 + n div 262144)) = 240 + n div 262144" "n div 262144 < 16" by simp_all
    note split = digits64 [of n]
    with 4 show ?thesis by (simp add: enc_def dec_def four_bytes_def a Let_def split)
  qed
qed

lemma from_utf8_scalars:
  "\<forall>n \<in> set ns. is_scalar n \<Longrightarrow> from_utf8 (concat (map enc ns)) = concat (map dec ns)"
  by (induction ns) (simp_all add: from_utf8_enc)

lemma scalars_dec:
  assumes "is_scalar n"
  shows "scalars (dec n @ s) = n # scalars s"
proof (cases "n < 65536")
  case True
  have u: "unat (word_of_nat n :: 16 word) = n" using True by (simp add: unat_of_nat)
  have "\<not> is_high_surrogate (word_of_nat n)" "\<not> is_low_surrogate (word_of_nat n)"
    using assms True by (auto simp: high_surrogate_unat low_surrogate_unat u is_scalar_def)
  with True u show ?thesis by (cases s) (simp_all add: dec_def unit_scalar_def)
next
  case False
  with assms have n: "65536 \<le> n" "n < 1114112" by (auto simp: is_scalar_def)
  let ?h = "word_of_nat (55296 + (n - 65536) div 1024) :: 16 word" and ?l = "word_of_nat (56320 + (n - 65536) mod 1024) :: 16 word"
  have d: "(n - 65536) div 1024 < 1024" using n by (simp add: less_mult_imp_div_less)
  have m: "(n - 65536) mod 1024 < 1024" by simp
  have u: "unat ?h = 55296 + (n - 65536) div 1024" "unat ?l = 56320 + (n - 65536) mod 1024"
    using d m by (intro unat_word16; linarith)+
  have hl: "is_high_surrogate ?h" "is_low_surrogate ?l"
    unfolding high_surrogate_unat low_surrogate_unat u using d m by simp_all
  have p: "pair_code ?h ?l = n" unfolding pair_code_def u using n by simp
  from False have "dec n @ s = ?h # ?l # s" by (simp add: dec_def)
  with hl p show ?thesis by simp
qed

lemma scalars_concat_dec:
  "\<forall>n \<in> set ns. is_scalar n \<Longrightarrow> scalars (concat (map dec ns)) = ns"
  by (induction ns) (simp_all add: scalars_dec)

text \<open>A suffix that starts at a boundary consists of whole characters.\<close>

lemma continuations_in_enc:
  assumes "\<forall>n \<in> set ns. is_scalar n" "i \<le> length (concat (map enc ns))"
  shows "\<exists>k \<le> length ns. drop (boundary_from (concat (map enc ns)) i) (concat (map enc ns)) = concat (map enc (drop k ns))"
  using assms
proof (induction ns arbitrary: i)
  case Nil
  then show ?case by (simp add: boundary_from_def)
next
  case (Cons n ns)
  let ?tail = "concat (map enc ns)"
  obtain a bs where e: "enc n = a # bs" "\<not> is_continuation a" "\<forall>b \<in> set bs. is_continuation b"
    using enc_shape [of n] Cons.prems by auto
  consider "i = 0" | "0 < i" "i \<le> length (enc n)" | "length (enc n) < i" by linarith
  then show ?case
  proof cases
    case 1
    with e show ?thesis by (intro exI [of _ 0]) (simp add: boundary_from_def)
  next
    case 2
    then obtain j where j: "i = Suc j" "j \<le> length bs" using e(1) by (cases i) auto
    have cont: "takeWhile is_continuation (drop j bs @ ?tail) = drop j bs @ takeWhile is_continuation ?tail"
      using e(3) by (intro takeWhile_append2) (auto dest: in_set_dropD)
    have start: "takeWhile is_continuation ?tail = []"
    proof (cases ns)
      case (Cons m ms)
      then obtain x y where "enc m = x # y" "\<not> is_continuation x" using enc_shape [of m] Cons.prems(1) local.Cons by auto
      with Cons show ?thesis by simp
    qed simp
    from j e(1) cont start have "boundary_from (concat (map enc (n # ns))) i = length (enc n)"
      by (simp add: boundary_from_def)
    then show ?thesis by (intro exI [of _ 1]) simp
  next
    case 3
    then obtain j where j: "i = length (enc n) + j" "j \<le> length ?tail"
      using Cons.prems(2) by (intro that [of "i - length (enc n)"]) simp_all
    from Cons.IH [OF _ j(2)] Cons.prems(1) obtain k where
      k: "k \<le> length ns" "drop (boundary_from ?tail j) ?tail = concat (map enc (drop k ns))" by auto
    have "boundary_from (concat (map enc (n # ns))) i = length (enc n) + boundary_from ?tail j"
      using j by (simp add: boundary_from_def)
    with k show ?thesis by (intro exI [of _ "Suc k"]) simp
  qed
qed

lemma boundary_from_bounds: "i \<le> length buf \<Longrightarrow> i \<le> boundary_from buf i \<and> boundary_from buf i \<le> length buf"
  using length_takeWhile_le [of is_continuation "drop i buf"] by (simp add: boundary_from_def)

text \<open>What is kept of a line is a suffix of its characters within the limit.\<close>

lemma truncate_end_spec:
  "byteLength (truncateStringToBytesFromEnd s maxBytes) \<le> maxBytes
   \<and> (\<exists>k. scalars (truncateStringToBytesFromEnd s maxBytes) = drop k (scalars s))"
proof (cases "length (utf8 s) \<le> maxBytes")
  case True
  then show ?thesis by (auto simp: truncateStringToBytesFromEnd_def byteLength_def intro: exI [of _ 0])
next
  case False
  let ?buf = "utf8 s" and ?b = "boundary_from (utf8 s) (length (utf8 s) - maxBytes)"
  obtain k where k: "drop ?b ?buf = concat (map enc (drop k (scalars s)))"
    using continuations_in_enc [OF scalars_ok, of "length ?buf - maxBytes" s] unfolding utf8_scalars [of s] by auto
  have ok: "\<forall>n \<in> set (drop k (scalars s)). is_scalar n" using scalars_ok by (metis in_set_dropD)
  have res: "truncateStringToBytesFromEnd s maxBytes = concat (map dec (drop k (scalars s)))"
    using False k by (simp add: truncateStringToBytesFromEnd_def Let_def from_utf8_scalars [OF ok])
  have sc: "scalars (truncateStringToBytesFromEnd s maxBytes) = drop k (scalars s)"
    unfolding res by (rule scalars_concat_dec [OF ok])
  have "byteLength (truncateStringToBytesFromEnd s maxBytes) = length (drop ?b ?buf)"
    unfolding byteLength_def utf8_scalars [of "truncateStringToBytesFromEnd s maxBytes"] sc k ..
  also have "\<dots> \<le> maxBytes"
    using boundary_from_bounds [of "length ?buf - maxBytes" ?buf] unfolding length_drop by arith
  finally show ?thesis using sc by blast
qed

end
