(* ===== verification/Output_Accumulator.thy ===== *)
theory Output_Accumulator
  imports Utf8_Scalars
begin

text \<open>
  The output of a running command, \<open>packages/coding-agent/src/core/tools/output-accumulator.ts\<close>, and what the
  bash tool makes of it (\<open>execute\<close> in \<open>bash.ts\<close>).

  \<^item> \<open>TextDecoder\<close> with \<open>stream: true\<close> is the UTF-8 decoder of the Encoding standard: \<open>decode_byte\<close> is its
    handler for one byte, \<open>decoder\<close> its state between chunks. It drops a byte order mark at the start.
  \<^item> The temp file is what was written to its stream (\<open>oa_file\<close>); the stream is open or not, and its
    writes succeed. The path that \<open>defaultTempFilePath\<close> draws is an argument.
\<close>

section \<open>The streaming decoder\<close>

record decoder =
  d_code :: nat
  d_seen :: nat
  d_needed :: nat
  d_lower :: nat
  d_upper :: nat
  d_bomSeen :: bool

definition new_decoder :: decoder where
  "new_decoder = \<lparr>d_code = 0, d_seen = 0, d_needed = 0, d_lower = 128, d_upper = 191, d_bomSeen = False\<rparr>"

definition reset_decoder :: "decoder \<Rightarrow> decoder" where
  "reset_decoder d = d\<lparr>d_code := 0, d_seen := 0, d_needed := 0, d_lower := 128, d_upper := 191\<rparr>"

text \<open>A byte outside a character: itself, the start of a longer one, or an error.\<close>

definition lead_byte :: "decoder \<Rightarrow> nat \<Rightarrow> nat list \<times> decoder" where
  "lead_byte d b =
     (if b < 128 then ([b], d)
      else if 194 \<le> b \<and> b \<le> 223 then ([], d\<lparr>d_needed := 1, d_code := b - 192\<rparr>)
      else if 224 \<le> b \<and> b \<le> 239
      then ([], d\<lparr>d_lower := (if b = 224 then 160 else d_lower d), d_upper := (if b = 237 then 159 else d_upper d),
                  d_needed := 2, d_code := b - 224\<rparr>)
      else if 240 \<le> b \<and> b \<le> 244
      then ([], d\<lparr>d_lower := (if b = 240 then 144 else d_lower d), d_upper := (if b = 244 then 143 else d_upper d),
                  d_needed := 3, d_code := b - 240\<rparr>)
      else ([65533], d))"

definition decode_byte :: "decoder \<Rightarrow> nat \<Rightarrow> nat list \<times> decoder" where
  "decode_byte d b =
     (if d_needed d = 0 then lead_byte d b
      else if b < d_lower d \<or> d_upper d < b
      then (case lead_byte (reset_decoder d) b of (out, d') \<Rightarrow> (65533 # out, d'))
      else
        (let code = d_code d * 64 + b mod 64; seen = d_seen d + 1
         in if seen \<noteq> d_needed d
            then ([], d\<lparr>d_lower := 128, d_upper := 191, d_code := code, d_seen := seen\<rparr>)
            else ([code], reset_decoder d)))"

fun decode_bytes :: "decoder \<Rightarrow> 8 word list \<Rightarrow> nat list \<times> decoder" where
  "decode_bytes d [] = ([], d)"
| "decode_bytes d (b # bs) =
     (case decode_byte d (unat b) of (out, d') \<Rightarrow>
        (case decode_bytes d' bs of (out', d'') \<Rightarrow> (out @ out', d'')))"

text \<open>The end of the input: an unfinished character is an error.\<close>

definition decode_end :: "decoder \<Rightarrow> nat list \<times> decoder" where
  "decode_end d = (if d_needed d \<noteq> 0 then ([65533], reset_decoder d) else ([], d))"

text \<open>The first character is dropped when it is a byte order mark.\<close>

definition skip_bom :: "nat list \<times> decoder \<Rightarrow> jsstring \<times> decoder" where
  "skip_bom r =
     (case r of (out, d) \<Rightarrow>
        (if d_bomSeen d \<or> out = [] then (concat (map dec out), d)
         else (concat (map dec (if hd out = 65279 then tl out else out)), d\<lparr>d_bomSeen := True\<rparr>)))"

definition decode_chunk :: "decoder \<Rightarrow> 8 word list \<Rightarrow> jsstring \<times> decoder" where
  "decode_chunk d data = skip_bom (decode_bytes d data)"

definition decode_flush :: "decoder \<Rightarrow> jsstring \<times> decoder" where
  "decode_flush d = skip_bom (decode_end d)"

section \<open>State\<close>

record accumulator =
  oa_maxLines :: nat
  oa_maxBytes :: nat
  oa_maxRollingBytes :: nat
  oa_decoder :: decoder
  oa_rawChunks :: "8 word list list"
  oa_tailText :: jsstring
  oa_tailBytes :: nat
  oa_tailStartsAtLineBoundary :: bool
  oa_totalRawBytes :: nat
  oa_totalDecodedBytes :: nat
  oa_totalLines :: nat
  oa_currentLineBytes :: nat
  oa_finished :: bool
  oa_tempFilePath :: "jsstring option"
  oa_tempFileStream :: bool
  oa_file :: "8 word list"

definition new_accumulator :: "nat option \<Rightarrow> nat option \<Rightarrow> accumulator" where
  "new_accumulator maxLines maxBytes =
     (let mb = option_or maxBytes DEFAULT_MAX_BYTES
      in \<lparr>oa_maxLines = option_or maxLines DEFAULT_MAX_LINES, oa_maxBytes = mb, oa_maxRollingBytes = max (mb * 2) 1,
          oa_decoder = new_decoder, oa_rawChunks = [], oa_tailText = [], oa_tailBytes = 0,
          oa_tailStartsAtLineBoundary = True, oa_totalRawBytes = 0, oa_totalDecodedBytes = 0, oa_totalLines = 1,
          oa_currentLineBytes = 0, oa_finished = False, oa_tempFilePath = None, oa_tempFileStream = False, oa_file = []\<rparr>)"

section \<open>Text\<close>

definition trimTail :: "accumulator \<Rightarrow> accumulator" where
  "trimTail a =
     (let buffer = utf8 (oa_tailText a)
      in if length buffer \<le> oa_maxRollingBytes a then a\<lparr>oa_tailBytes := length buffer\<rparr>
         else
           (let start = boundary_from buffer (length buffer - oa_maxRollingBytes a);
                text = from_utf8 (drop start buffer)
            in a\<lparr>oa_tailStartsAtLineBoundary :=
                   (if start = 0 then oa_tailStartsAtLineBoundary a else buffer ! (start - 1) = 10),
                 oa_tailText := text, oa_tailBytes := byteLength text\<rparr>))"

definition appendDecodedText :: "jsstring \<Rightarrow> accumulator \<Rightarrow> accumulator" where
  "appendDecodedText text a =
     (if text = [] then a
      else
        (let bytes = byteLength text;
             a1 = a\<lparr>oa_totalDecodedBytes := oa_totalDecodedBytes a + bytes, oa_tailText := oa_tailText a @ text,
                    oa_tailBytes := oa_tailBytes a + bytes\<rparr>;
             a2 = (if oa_tailBytes a1 > oa_maxRollingBytes a * 2 then trimTail a1 else a1)
         in case last_index_of (\<lambda>u. u = 10) text of
              None \<Rightarrow> a2\<lparr>oa_currentLineBytes := oa_currentLineBytes a + bytes\<rparr>
            | Some lastNewline \<Rightarrow>
                a2\<lparr>oa_totalLines := oa_totalLines a + count_list text 10,
                   oa_currentLineBytes := byteLength (drop (lastNewline + 1) text)\<rparr>))"

section \<open>The temp file\<close>

definition shouldUseTempFile :: "accumulator \<Rightarrow> bool" where
  "shouldUseTempFile a \<longleftrightarrow>
     oa_totalRawBytes a > oa_maxBytes a \<or> oa_totalDecodedBytes a > oa_maxBytes a \<or> oa_totalLines a > oa_maxLines a"

definition ensureTempFile :: "jsstring \<Rightarrow> accumulator \<Rightarrow> accumulator" where
  "ensureTempFile path a =
     (if oa_tempFilePath a \<noteq> None then a
      else a\<lparr>oa_tempFilePath := Some path, oa_tempFileStream := True, oa_file := concat (oa_rawChunks a),
             oa_rawChunks := []\<rparr>)"

section \<open>Operations\<close>

definition append_data :: "jsstring \<Rightarrow> 8 word list \<Rightarrow> accumulator \<Rightarrow> jsstring + accumulator" where
  "append_data path data a =
     (if oa_finished a then Inl (js ''Cannot append to a finished output accumulator'')
      else
        (case decode_chunk (oa_decoder a) data of (text, d) \<Rightarrow>
           (let a1 = appendDecodedText text
                       (a\<lparr>oa_totalRawBytes := oa_totalRawBytes a + length data, oa_decoder := d\<rparr>)
            in Inr (if oa_tempFileStream a1 \<or> shouldUseTempFile a1
                    then (let a2 = ensureTempFile path a1
                          in if oa_tempFileStream a2 then a2\<lparr>oa_file := oa_file a2 @ data\<rparr> else a2)
                    else if data \<noteq> [] then a1\<lparr>oa_rawChunks := oa_rawChunks a1 @ [data]\<rparr>
                    else a1))))"

definition finish :: "jsstring \<Rightarrow> accumulator \<Rightarrow> accumulator" where
  "finish path a =
     (if oa_finished a then a
      else
        (case decode_flush (oa_decoder a) of (text, d) \<Rightarrow>
           (let a1 = appendDecodedText text (a\<lparr>oa_finished := True, oa_decoder := d\<rparr>)
            in if shouldUseTempFile a1 then ensureTempFile path a1 else a1)))"

definition getSnapshotText :: "accumulator \<Rightarrow> jsstring" where
  "getSnapshotText a =
     (if oa_tailStartsAtLineBoundary a then oa_tailText a
      else (case index_of (\<lambda>u. u = 10) (oa_tailText a) of
              None \<Rightarrow> oa_tailText a
            | Some firstNewline \<Rightarrow> drop (firstNewline + 1) (oa_tailText a)))"

definition snapshot_truncation :: "accumulator \<Rightarrow> truncation_result" where
  "snapshot_truncation a =
     (let tailTruncation = truncateTail (getSnapshotText a) (Some (oa_maxLines a)) (Some (oa_maxBytes a));
          truncated = (oa_totalLines a > oa_maxLines a \<or> oa_totalDecodedBytes a > oa_maxBytes a)
      in tailTruncation
           \<lparr>tn_truncated := truncated,
            tn_truncatedBy :=
              (if truncated
               then (case tn_truncatedBy tailTruncation of
                       Some b \<Rightarrow> Some b
                     | None \<Rightarrow> Some (if oa_totalDecodedBytes a > oa_maxBytes a then ByBytes else ByLines))
               else None),
            tn_totalLines := oa_totalLines a, tn_totalBytes := oa_totalDecodedBytes a,
            tn_maxLines := oa_maxLines a, tn_maxBytes := oa_maxBytes a\<rparr>)"

record output_snapshot =
  os_content :: jsstring
  os_truncation :: truncation_result
  os_fullOutputPath :: "jsstring option"

definition snapshot :: "jsstring \<Rightarrow> bool \<Rightarrow> accumulator \<Rightarrow> output_snapshot \<times> accumulator" where
  "snapshot path persistIfTruncated a =
     (let truncation = snapshot_truncation a;
          a1 = (if persistIfTruncated \<and> tn_truncated truncation then ensureTempFile path a else a)
      in (\<lparr>os_content = tn_content truncation, os_truncation = truncation, os_fullOutputPath = oa_tempFilePath a1\<rparr>, a1))"

definition closeTempFile :: "accumulator \<Rightarrow> accumulator" where
  "closeTempFile a = (if oa_tempFileStream a then a\<lparr>oa_tempFileStream := False\<rparr> else a)"

definition getLastLineBytes :: "accumulator \<Rightarrow> nat" where
  "getLastLineBytes a = oa_currentLineBytes a"

section \<open>The bash tool\<close>

text \<open>How a command ends: with an exit code (or none), aborted, timed out, or failing to run.\<close>

datatype exec_end =
    Exited "int option"
  | Failed jsstring

text \<open>What happens while a command runs: data, and the throttled updates that take a snapshot
  (\<open>emitOutputUpdate\<close>). \<open>dirty\<close>: an update is due when it ends.\<close>

datatype output_event = OutputData "8 word list" | OutputUpdate

fun handle_event :: "jsstring \<Rightarrow> output_event \<Rightarrow> accumulator \<Rightarrow> accumulator" where
  "handle_event path (OutputData data) a = (case append_data path data a of Inl _ \<Rightarrow> a | Inr a' \<Rightarrow> a')"
| "handle_event path OutputUpdate a = snd (snapshot path True a)"

definition handle_events :: "jsstring \<Rightarrow> output_event list \<Rightarrow> accumulator \<Rightarrow> accumulator" where
  "handle_events path evs a = fold (handle_event path) evs a"

definition finishOutput :: "jsstring \<Rightarrow> bool \<Rightarrow> accumulator \<Rightarrow> output_snapshot \<times> accumulator" where
  "finishOutput path dirty a =
     (let a1 = finish path a;
          a2 = (if dirty then handle_event path OutputUpdate a1 else a1)
      in case snapshot path True a2 of (s, a3) \<Rightarrow> (s, closeTempFile a3))"

definition path_text :: "jsstring option \<Rightarrow> jsstring" where
  "path_text p = (case p of Some s \<Rightarrow> s | None \<Rightarrow> js ''undefined'')"

text \<open>The text, and the details of a truncated output.\<close>

type_synonym bash_result = "jsstring \<times> (truncation_result \<times> jsstring option) option"

definition formatOutput :: "accumulator \<Rightarrow> output_snapshot \<Rightarrow> jsstring \<Rightarrow> bash_result" where
  "formatOutput a s emptyText =
     (let t = os_truncation s;
          text = (if os_content s = [] then emptyText else os_content s);
          startLine = int (tn_totalLines t) - int (tn_outputLines t) + 1;
          endLine = show_nat (tn_totalLines t);
          full = js ''. Full output: '' @ path_text (os_fullOutputPath s) @ js '']'';
          showing = js ''[Showing lines '' @ show_int startLine @ js ''-'' @ endLine @ js '' of '' @ endLine
      in if \<not> tn_truncated t then (text, None)
         else (text @ nl @ nl @
           (if tn_lastLinePartial t
            then js ''[Showing last '' @ formatSize (tn_outputBytes t) @ js '' of line '' @ endLine @ js '' (line is ''
                   @ formatSize (getLastLineBytes a) @ js '')'' @ full
            else if tn_truncatedBy t = Some ByLines then showing @ full
            else showing @ js '' ('' @ formatSize DEFAULT_MAX_BYTES @ js '' limit)'' @ full),
           Some (t, os_fullOutputPath s)))"

definition appendStatus :: "jsstring \<Rightarrow> jsstring \<Rightarrow> jsstring" where
  "appendStatus text status = (if text \<noteq> [] then text @ nl @ nl else []) @ status"

text \<open>\<open>execute\<close> from the events of the command and its end: the result, or the message of the error.\<close>

definition starts_with :: "jsstring \<Rightarrow> jsstring \<Rightarrow> bool" where
  "starts_with p s \<longleftrightarrow> take (length p) s = p"

definition bash_execute :: "jsstring \<Rightarrow> output_event list \<Rightarrow> bool \<Rightarrow> exec_end \<Rightarrow> jsstring + bash_result" where
  "bash_execute path evs dirty how =
     (case finishOutput path dirty (handle_events path evs (new_accumulator None None)) of (s, a) \<Rightarrow>
        (case how of
           Failed m \<Rightarrow>
             (if m = js ''aborted'' then Inl (appendStatus (fst (formatOutput a s [])) (js ''Command aborted''))
              else if starts_with (js ''timeout:'') m
              then Inl (appendStatus (fst (formatOutput a s []))
                         (js ''Command timed out after '' @ (split_on 58 m ! 1) @ js '' seconds''))
              else Inl m)
         | Exited code \<Rightarrow>
             (case code of
                Some c \<Rightarrow>
                  (if c \<noteq> 0 then Inl (appendStatus (fst (formatOutput a s (js ''(no output)'')))
                                        (js ''Command exited with code '' @ show_int c))
                   else Inr (formatOutput a s (js ''(no output)'')))
              | None \<Rightarrow> Inr (formatOutput a s (js ''(no output)'')))))"

end
