(* ===== verification/Output_Decoder.thy ===== *)
theory Output_Decoder
  imports Output_Accumulator
begin

text \<open>
  The streaming decoder: it only gives Unicode scalar values, and chunks decode as the data they split.
\<close>

section \<open>The decoder\<close>

definition decoder_ok :: "decoder \<Rightarrow> bool" where
  "decoder_ok d \<longleftrightarrow> 128 \<le> d_lower d \<and> d_upper d \<le> 191 \<and>
     (d_needed d = 0 \<and> d_code d = 0 \<and> d_seen d = 0 \<and> d_lower d = 128 \<and> d_upper d = 191
      \<or> d_needed d = 1 \<and> d_seen d = 0 \<and> 2 \<le> d_code d \<and> d_code d < 32
      \<or> d_needed d = 2 \<and> d_seen d = 0 \<and> d_code d < 16 \<and> (d_code d = 0 \<longrightarrow> 160 \<le> d_lower d) \<and> (d_code d = 13 \<longrightarrow> d_upper d \<le> 159)
      \<or> d_needed d = 2 \<and> d_seen d = 1 \<and> 32 \<le> d_code d \<and> d_code d < 1024 \<and> \<not> (864 \<le> d_code d \<and> d_code d < 896)
      \<or> d_needed d = 3 \<and> d_seen d = 0 \<and> d_code d \<le> 4 \<and> (d_code d = 0 \<longrightarrow> 144 \<le> d_lower d) \<and> (d_code d = 4 \<longrightarrow> d_upper d \<le> 143)
      \<or> d_needed d = 3 \<and> d_seen d = 1 \<and> 16 \<le> d_code d \<and> d_code d < 272
      \<or> d_needed d = 3 \<and> d_seen d = 2 \<and> 1024 \<le> d_code d \<and> d_code d < 17408)"

lemma new_decoder_ok: "decoder_ok new_decoder"
  by (simp add: decoder_ok_def new_decoder_def)

lemma reset_decoder_ok: "decoder_ok (reset_decoder d)"
  by (simp add: decoder_ok_def reset_decoder_def)

lemma lead_byte_ok:
  assumes "decoder_ok d" "d_needed d = 0" "b < 256"
  shows "decoder_ok (snd (lead_byte d b)) \<and> (\<forall>n \<in> set (fst (lead_byte d b)). is_scalar n)"
  using assms by (auto simp: lead_byte_def decoder_ok_def is_scalar_def)

lemma continuation_byte_ok:
  assumes "decoder_ok d" "d_needed d \<noteq> 0" "d_lower d \<le> b" "b \<le> d_upper d"
  shows "decoder_ok (snd (decode_byte d b)) \<and> (\<forall>n \<in> set (fst (decode_byte d b)). is_scalar n)"
proof -
  from assms have r: "128 \<le> b" "b \<le> 191" by (auto simp: decoder_ok_def)
  then have "b mod 64 = b - 128" by (simp add: mod_if)
  then obtain x where x: "b = 128 + x" "b mod 64 = x" "x < 64" using r by (intro that [of "b - 128"]) auto
  note defs = decode_byte_def Let_def decoder_ok_def is_scalar_def reset_decoder_def
  have in_range: "\<not> (b < d_lower d \<or> d_upper d < b)" using assms(3,4) by simp
  from assms(1,2) consider
      (one) "d_needed d = 1" "d_seen d = 0" "2 \<le> d_code d" "d_code d < 32"
    | (two) "d_needed d = 2" "d_seen d = 0" "d_code d < 16" "d_code d = 0 \<longrightarrow> 160 \<le> d_lower d" "d_code d = 13 \<longrightarrow> d_upper d \<le> 159"
    | (two') "d_needed d = 2" "d_seen d = 1" "32 \<le> d_code d" "d_code d < 1024" "\<not> (864 \<le> d_code d \<and> d_code d < 896)"
    | (three) "d_needed d = 3" "d_seen d = 0" "d_code d \<le> 4" "d_code d = 0 \<longrightarrow> 144 \<le> d_lower d" "d_code d = 4 \<longrightarrow> d_upper d \<le> 143"
    | (three') "d_needed d = 3" "d_seen d = 1" "16 \<le> d_code d" "d_code d < 272"
    | (three'') "d_needed d = 3" "d_seen d = 2" "1024 \<le> d_code d" "d_code d < 17408"
    unfolding decoder_ok_def by (elim conjE disjE) metis+
  then show ?thesis
  proof cases
    case one
    with in_range x show ?thesis by (simp add: defs)
  next
    case two
    then have "32 \<le> d_code d * 64 + x" "\<not> (864 \<le> d_code d * 64 + x \<and> d_code d * 64 + x < 896)"
      using assms(3,4) x(1,3) by (cases "d_code d = 0"; cases "d_code d = 13"; simp; linarith)+
    with two in_range x show ?thesis by (simp add: defs)
  next
    case two'
    with in_range x show ?thesis by (simp add: defs) linarith
  next
    case three
    then have "16 \<le> d_code d * 64 + x" "d_code d * 64 + x < 272"
      using assms(3,4) x(1,3) by (cases "d_code d = 0"; cases "d_code d = 4"; simp; linarith)+
    with three in_range x show ?thesis by (simp add: defs)
  next
    case three'
    with in_range x show ?thesis by (simp add: defs)
  next
    case three''
    with in_range x show ?thesis by (simp add: defs)
  qed
qed

lemma decode_byte_ok:
  assumes "decoder_ok d" "b < 256"
  shows "decoder_ok (snd (decode_byte d b)) \<and> (\<forall>n \<in> set (fst (decode_byte d b)). is_scalar n)"
proof -
  consider "d_needed d = 0" | "d_needed d \<noteq> 0" "b < d_lower d \<or> d_upper d < b"
    | "d_needed d \<noteq> 0" "d_lower d \<le> b" "b \<le> d_upper d" by linarith
  then show ?thesis
  proof cases
    case 1
    with lead_byte_ok [OF assms(1) 1 assms(2)] show ?thesis by (simp add: decode_byte_def)
  next
    case 2
    have "d_needed (reset_decoder d) = 0" by (simp add: reset_decoder_def)
    from lead_byte_ok [OF reset_decoder_ok this assms(2)] 2 show ?thesis
      by (auto simp: decode_byte_def is_scalar_def split: prod.splits)
  next
    case 3
    with continuation_byte_ok [OF assms(1)] show ?thesis by blast
  qed
qed

lemma decode_bytes_ok:
  "decoder_ok d \<Longrightarrow> decode_bytes d bs = (out, d') \<Longrightarrow> decoder_ok d' \<and> (\<forall>n \<in> set out. is_scalar n)"
proof (induction bs arbitrary: d out d')
  case (Cons b bs)
  obtain o1 d1 where 1: "decode_byte d (unat b) = (o1, d1)" by fastforce
  obtain o2 d2 where 2: "decode_bytes d1 bs = (o2, d2)" by fastforce
  have "unat b < 2 ^ LENGTH(8)" by (rule unsigned_less)
  then have "unat b < 256" by simp
  from decode_byte_ok [OF Cons.prems(1) this] 1 have ok: "decoder_ok d1" "\<forall>n \<in> set o1. is_scalar n" by simp_all
  from Cons.IH [OF ok(1) 2] ok(2) Cons.prems(2) 1 2 show ?case by auto
qed simp

lemma decode_bytes_append:
  "decode_bytes d (xs @ ys) =
     (case decode_bytes d xs of (out, d') \<Rightarrow> (case decode_bytes d' ys of (out', d'') \<Rightarrow> (out @ out', d'')))"
  by (induction xs arbitrary: d) (auto split: prod.splits)

text \<open>The byte order mark flag plays no part in decoding.\<close>

lemma lead_byte_bom: "lead_byte (d\<lparr>d_bomSeen := t\<rparr>) b = (case lead_byte d b of (out, d') \<Rightarrow> (out, d'\<lparr>d_bomSeen := t\<rparr>))"
  by (simp add: lead_byte_def)

lemma reset_decoder_bom: "reset_decoder (d\<lparr>d_bomSeen := t\<rparr>) = (reset_decoder d)\<lparr>d_bomSeen := t\<rparr>"
  by (simp add: reset_decoder_def)

lemma decode_byte_bom: "decode_byte (d\<lparr>d_bomSeen := t\<rparr>) b = (case decode_byte d b of (out, d') \<Rightarrow> (out, d'\<lparr>d_bomSeen := t\<rparr>))"
  by (simp add: decode_byte_def lead_byte_bom reset_decoder_bom Let_def split: prod.splits)

lemma decode_bytes_bom:
  "decode_bytes (d\<lparr>d_bomSeen := t\<rparr>) bs = (case decode_bytes d bs of (out, d') \<Rightarrow> (out, d'\<lparr>d_bomSeen := t\<rparr>))"
proof (induction bs arbitrary: d)
  case (Cons b bs)
  obtain o1 d1 where 1: "decode_byte d (unat b) = (o1, d1)" by fastforce
  then show ?case using Cons.IH [of d1] by (simp add: decode_byte_bom split: prod.splits)
qed simp

lemma bomSeen_lead: "d_bomSeen (snd (lead_byte d b)) = d_bomSeen d"
  by (simp add: lead_byte_def)

lemma bomSeen_decode: "d_bomSeen (snd (decode_bytes d bs)) = d_bomSeen d"
proof (induction bs arbitrary: d)
  case (Cons b bs)
  have "d_bomSeen (snd (decode_byte d (unat b))) = d_bomSeen d"
    using bomSeen_lead [of d "unat b"] bomSeen_lead [of "reset_decoder d" "unat b"]
    by (auto simp: decode_byte_def Let_def reset_decoder_def split: prod.splits)
  with Cons.IH show ?case by (metis (no_types, lifting) case_prod_beta decode_bytes.simps(2) snd_conv)
qed simp

text \<open>What a chunk adds, and that chunks decode as the data they split.\<close>

definition kept :: "bool \<Rightarrow> nat list \<Rightarrow> nat list" where
  "kept seen out = (if \<not> seen \<and> out \<noteq> [] \<and> hd out = 65279 then tl out else out)"

lemma kept_append: "kept seen (xs @ ys) = kept seen xs @ kept (seen \<or> xs \<noteq> []) ys"
  by (cases xs) (auto simp: kept_def)

lemma kept_ok: "\<forall>n \<in> set out. is_scalar n \<Longrightarrow> \<forall>n \<in> set (kept seen out). is_scalar n"
  by (cases out) (auto simp: kept_def)

definition chars :: "nat list \<Rightarrow> jsstring" where
  "chars ns = concat (map dec ns)"

lemma chars_append [simp]: "chars (xs @ ys) = chars xs @ chars ys"
  by (simp add: chars_def)

lemma skip_bom_eq:
  "skip_bom (out, d) = (chars (kept (d_bomSeen d) out), d\<lparr>d_bomSeen := d_bomSeen d \<or> out \<noteq> []\<rparr>)"
  by (cases d) (auto simp: skip_bom_def kept_def chars_def)

lemma decode_chunk_append:
  "decode_chunk d (xs @ ys) =
     (case decode_chunk d xs of (t, d') \<Rightarrow> (case decode_chunk d' ys of (t', d'') \<Rightarrow> (t @ t', d'')))"
proof -
  obtain o1 d1 where 1: "decode_bytes d xs = (o1, d1)" by fastforce
  obtain o2 d2 where 2: "decode_bytes d1 ys = (o2, d2)" by fastforce
  have b: "d_bomSeen d1 = d_bomSeen d" "d_bomSeen d2 = d_bomSeen d"
    using bomSeen_decode [of d xs] bomSeen_decode [of d1 ys] 1 2 by simp_all
  show ?thesis
    by (simp add: decode_chunk_def decode_bytes_append 1 2 skip_bom_eq decode_bytes_bom b kept_append)
qed

lemma decoder_ok_bom [simp]: "decoder_ok (d\<lparr>d_bomSeen := t\<rparr>) = decoder_ok d"
  by (simp add: decoder_ok_def)

lemma decode_chunk_ok:
  assumes "decoder_ok d" "decode_chunk d data = (t, d')"
  shows "decoder_ok d' \<and> (\<exists>ns. t = chars ns \<and> (\<forall>n \<in> set ns. is_scalar n))"
proof -
  obtain out d1 where 1: "decode_bytes d data = (out, d1)" by fastforce
  then have "t = chars (kept (d_bomSeen d1) out)" "d' = d1\<lparr>d_bomSeen := d_bomSeen d1 \<or> out \<noteq> []\<rparr>"
    using assms(2) by (auto simp: decode_chunk_def skip_bom_eq)
  with decode_bytes_ok [OF assms(1) 1] kept_ok show ?thesis by (simp only: decoder_ok_bom) blast
qed

lemma decode_flush_ok:
  assumes "decode_flush d = (t, d')"
  shows "\<exists>ns. t = chars ns \<and> (\<forall>n \<in> set ns. is_scalar n)"
proof -
  obtain out d1 where 1: "decode_end d = (out, d1)" by fastforce
  then have "\<forall>n \<in> set out. is_scalar n" by (auto simp: decode_end_def is_scalar_def split: if_splits)
  moreover have "t = chars (kept (d_bomSeen d1) out)" using 1 assms by (auto simp: decode_flush_def skip_bom_eq)
  ultimately show ?thesis using kept_ok by blast
qed

end
