(* ===== verification/Truncation_Properties.thy ===== *)
theory Truncation_Properties
  imports Utf8_Scalars
begin

text \<open>
  What the two truncations keep: lemmas on bytes and lines of joined text, the two loops, and the
  properties of \<open>truncateHead\<close> and \<open>truncateTail\<close>.
\<close>

section \<open>Lines and bytes\<close>

lemma nl_eq: "nl = [10]"
  by (simp add: js_def)

lemma nl_no_surrogate [simp]: "\<not> is_high_surrogate 10" "\<not> is_low_surrogate 10"
  by (simp_all add: is_high_surrogate_def is_low_surrogate_def)

lemma utf8_nl_Cons: "utf8 (10 # s) = byte 10 # utf8 s"
  by (cases s) (simp_all add: unit_bytes_def)

lemma utf8_nl: "utf8 (xs @ 10 # ys) = utf8 xs @ byte 10 # utf8 ys"
proof (induction xs rule: utf8.induct)
  case (2 u)
  then show ?case by (simp add: utf8_nl_Cons)
next
  case (3 u v s)
  then show ?case by auto
qed (simp add: utf8_nl_Cons)

definition bytes_of :: "jsstring list \<Rightarrow> nat" where
  "bytes_of ls = byteLength (join_with nl ls)"

lemma bytes_of_simps [simp]:
  "bytes_of [] = 0" "bytes_of [l] = byteLength l"
  by (simp_all add: bytes_of_def byteLength_def)

lemma bytes_of_append:
  "xs \<noteq> [] \<Longrightarrow> ys \<noteq> [] \<Longrightarrow> bytes_of (xs @ ys) = bytes_of xs + 1 + bytes_of ys"
  by (simp add: bytes_of_def byteLength_def join_with_append nl_eq utf8_nl)

lemma bytes_of_snoc: "bytes_of (xs @ [l]) = bytes_of xs + byteLength l + (if xs \<noteq> [] then 1 else 0)"
  by (cases "xs = []") (simp_all add: bytes_of_append)

lemma bytes_of_Cons: "bytes_of (l # xs) = bytes_of xs + byteLength l + (if xs \<noteq> [] then 1 else 0)"
  using bytes_of_append [of "[l]" xs] by (cases "xs = []") simp_all

lemma join_lines: "join_with nl (lines_of s) = s"
  unfolding lines_of_def nl_eq by (rule join_split_on)

lemma lines_of_join:
  "ls \<noteq> [] \<Longrightarrow> \<forall>l \<in> set ls. 10 \<notin> set l \<Longrightarrow> lines_of (join_with nl ls) = ls"
proof (induction ls)
  case (Cons l ls)
  have one: "10 \<notin> set l \<Longrightarrow> lines_of (l @ t) = (case lines_of t of [] \<Rightarrow> [] | x # xs \<Rightarrow> (l @ x) # xs)" for l t
    unfolding lines_of_def by (induction l) (auto split: list.split)
  have nl: "lines_of (10 # t) = [] # lines_of t" for t by (simp add: lines_of_def)
  have e: "lines_of [] = [[]]" by (simp add: lines_of_def)
  show ?case
  proof (cases ls)
    case Nil
    with Cons.prems one [of l "[]"] e show ?thesis by simp
  next
    case (Cons x xs)
    with Cons.prems Cons.IH one [of l "10 # join_with nl ls"] nl show ?thesis by (simp add: nl_eq)
  qed
qed simp

section \<open>The loops\<close>

lemma head_lines_spec:
  assumes "head_lines maxL maxB lines acc used = (out, used', by_what)"
    and "used = bytes_of acc" "used \<le> maxB" "length acc \<le> maxL"
  shows "\<exists>k \<le> length lines. out = acc @ take k lines \<and> used' = bytes_of out \<and> used' \<le> maxB \<and> length out \<le> maxL
    \<and> (k = length lines \<or> length out = maxL \<or> bytes_of (out @ [lines ! k]) > maxB)"
  using assms
proof (induction lines arbitrary: acc used)
  case Nil
  then show ?case by auto
next
  case (Cons l lines)
  let ?n = "used + (byteLength l + (if acc \<noteq> [] then 1 else 0))"
  consider "maxL \<le> length acc" | "length acc < maxL" "?n > maxB" | "length acc < maxL" "?n \<le> maxB" by linarith
  then show ?case
  proof cases
    case 1
    with Cons.prems show ?thesis by (intro exI [of _ 0]) auto
  next
    case 2
    with Cons.prems show ?thesis by (intro exI [of _ 0]) (auto simp: bytes_of_snoc)
  next
    case 3
    with Cons.prems(1) have "head_lines maxL maxB lines (acc @ [l]) ?n = (out, used', by_what)" by simp
    moreover have "?n = bytes_of (acc @ [l])" "length (acc @ [l]) \<le> maxL" using 3 Cons.prems(2) by (simp_all add: bytes_of_snoc)
    ultimately obtain k where k: "k \<le> length lines" "out = (acc @ [l]) @ take k lines"
      "used' = bytes_of out" "used' \<le> maxB" "length out \<le> maxL"
      "k = length lines \<or> length out = maxL \<or> bytes_of (out @ [lines ! k]) > maxB"
      using Cons.IH [of "acc @ [l]" ?n] 3(2) by blast
    then show ?thesis by (intro exI [of _ "Suc k"]) simp
  qed
qed

lemma tail_lines_spec:
  assumes "tail_lines maxL maxB lines acc used = (out, used', by_what, partial)"
    and "used = bytes_of acc" "used \<le> maxB" "length acc \<le> maxL"
  shows "used' = bytes_of out \<and> used' \<le> maxB \<and> length out \<le> maxL
    \<and> (\<not> partial \<longrightarrow> (\<exists>k \<le> length lines. out = rev (take k lines) @ acc
         \<and> (k = length lines \<or> length out = maxL \<or> bytes_of (lines ! k # out) > maxB)))
    \<and> (partial \<longrightarrow> acc = [] \<and> lines \<noteq> [] \<and> maxB < byteLength (hd lines)
         \<and> out = [truncateStringToBytesFromEnd (hd lines) maxB])"
  using assms
proof (induction lines arbitrary: acc used)
  case Nil
  then show ?case by auto
next
  case (Cons l lines)
  let ?n = "used + (byteLength l + (if acc \<noteq> [] then 1 else 0))"
  consider "maxL \<le> length acc" | "length acc < maxL" "?n > maxB" "acc = []"
    | "length acc < maxL" "?n > maxB" "acc \<noteq> []" | "length acc < maxL" "?n \<le> maxB" by linarith
  then show ?case
  proof cases
    case 1
    with Cons.prems show ?thesis by auto
  next
    case 2
    with Cons.prems truncate_end_spec [of l maxB] show ?thesis by (auto simp: Let_def)
  next
    case 3
    with Cons.prems show ?thesis by (auto simp: bytes_of_Cons intro!: exI [of _ 0])
  next
    case 4
    with Cons.prems(1) have "tail_lines maxL maxB lines (l # acc) ?n = (out, used', by_what, partial)" by simp
    from Cons.IH [OF this] 4 Cons.prems(2) have ih: "used' = bytes_of out" "used' \<le> maxB" "length out \<le> maxL" "\<not> partial"
      "\<exists>k \<le> length lines. out = rev (take k lines) @ l # acc
         \<and> (k = length lines \<or> length out = maxL \<or> bytes_of (lines ! k # out) > maxB)"
      by (auto simp: bytes_of_Cons)
    from ih(5) obtain k where "k \<le> length lines" "out = rev (take k lines) @ l # acc"
      "k = length lines \<or> length out = maxL \<or> bytes_of (lines ! k # out) > maxB" by blast
    with ih(1-4) show ?thesis by (auto intro!: exI [of _ "Suc k"])
  qed
qed

section \<open>Properties\<close>

lemmas truncation_simps =
  truncateHead_def truncateTail_def truncateStringToBytesFromEnd_def boundary_from_def is_continuation_def untruncated_def
  option_or_def DEFAULT_MAX_LINES_def DEFAULT_MAX_BYTES_def lines_of_def nl_eq byteLength_def unit_bytes_def byte_eq
  is_high_surrogate_def is_low_surrogate_def word_le_nat_alt Let_def

text \<open>Truncation from the head keeps the longest run of whole lines from the start that stays
  within both limits; the counts it reports are those of the result. Only a first line that is
  itself over the limit gives nothing.\<close>

theorem truncateHead_within_limits:
  assumes "r = truncateHead content optLines optBytes" "tn_truncated r"
  shows "tn_content r = join_with nl (take (tn_outputLines r) (lines_of content))
    \<and> tn_outputLines r \<le> tn_maxLines r \<and> byteLength (tn_content r) \<le> tn_maxBytes r
    \<and> tn_outputBytes r = byteLength (tn_content r)
    \<and> (tn_outputLines r = tn_maxLines r \<or> tn_outputLines r = length (lines_of content)
       \<or> tn_maxBytes r < byteLength (join_with nl (take (Suc (tn_outputLines r)) (lines_of content))))"
proof -
  define L B where "L = option_or optLines DEFAULT_MAX_LINES" and "B = option_or optBytes DEFAULT_MAX_BYTES"
  have ne: "lines_of content \<noteq> []" by (simp add: lines_of_def)
  consider (small) "length (lines_of content) \<le> L" "byteLength content \<le> B"
    | (first) "\<not> (length (lines_of content) \<le> L \<and> byteLength content \<le> B)" "byteLength (hd (lines_of content)) > B"
    | (loop) "\<not> (length (lines_of content) \<le> L \<and> byteLength content \<le> B)" "byteLength (hd (lines_of content)) \<le> B"
    by linarith
  then show ?thesis
  proof cases
    case small
    with assms show ?thesis by (simp add: truncateHead_def Let_def L_def B_def untruncated_def)
  next
    case first
    then have "B < byteLength (join_with nl (take 1 (lines_of content)))" using ne by (cases "lines_of content") auto
    with first assms(1) show ?thesis
      by (auto simp: truncateHead_def Let_def L_def [symmetric] B_def [symmetric] byteLength_def)
  next
    case loop
    obtain out used by_what where h: "head_lines L B (lines_of content) [] 0 = (out, used, by_what)"
      by (metis prod_cases3)
    have "\<exists>k \<le> length (lines_of content). out = take k (lines_of content) \<and> used = bytes_of out \<and> used \<le> B \<and> length out \<le> L
      \<and> (k = length (lines_of content) \<or> length out = L \<or> bytes_of (out @ [lines_of content ! k]) > B)"
      using head_lines_spec [OF h] by simp
    then obtain k where k: "k \<le> length (lines_of content)" "out = take k (lines_of content)"
      "used = bytes_of out" "used \<le> B" "length out \<le> L"
      "k = length (lines_of content) \<or> length out = L \<or> bytes_of (out @ [lines_of content ! k]) > B"
      by blast
    have r: "tn_content r = join_with nl out" "tn_outputLines r = length out" "tn_maxLines r = L" "tn_maxBytes r = B"
      "tn_outputBytes r = byteLength (join_with nl out)"
      using assms(1) h loop by (auto simp: truncateHead_def Let_def L_def [symmetric] B_def [symmetric])
    from k(1,2) have len: "length out = k" by simp
    have next_line: "k < length (lines_of content) \<Longrightarrow> out @ [lines_of content ! k] = take (Suc k) (lines_of content)"
      using k(2) by (simp add: take_Suc_conv_app_nth)
    have longest: "k = L \<or> k = length (lines_of content) \<or> B < byteLength (join_with nl (take (Suc k) (lines_of content)))"
      using k(1,6) next_line unfolding len bytes_of_def by (metis le_neq_implies_less)
    from k(2-5) len longest show ?thesis unfolding r by (simp add: bytes_of_def)
  qed
qed

theorem truncateHead_within_limits_witness:
  "tn_content (truncateHead [97, 97, 10, 98, 98, 10, 99] None (Some 6)) = [97, 97, 10, 98, 98]"
proof -
  let ?t = "[97, 97, 10, 98, 98, 10, 99] :: jsstring"
  have t: "tn_truncated (truncateHead ?t None (Some 6))" "tn_outputLines (truncateHead ?t None (Some 6)) = 2"
    by (simp_all add: truncation_simps)
  from truncateHead_within_limits [OF refl t(1)]
  have "tn_content (truncateHead ?t None (Some 6)) = join_with nl (take 2 (lines_of ?t))" by (simp only: t(2))
  moreover have "join_with nl (take 2 (lines_of ?t)) = [97, 97, 10, 98, 98]" by (simp add: truncation_simps)
  ultimately show ?thesis by (rule trans)
qed

text \<open>C38 Truncation from the tail keeps the longest run of whole lines up to the end that stays
  within both limits, or, when the last line alone is over the byte limit, an end of that line
  that is within it and does not start inside a character.\<close>

theorem truncateTail_within_limits:
  assumes "r = truncateTail content optLines optBytes" "tn_truncated r" "0 < tn_maxLines r"
  shows "tn_outputLines r \<le> tn_maxLines r \<and> byteLength (tn_content r) \<le> tn_maxBytes r
    \<and> tn_outputBytes r = byteLength (tn_content r)
    \<and> (\<not> tn_lastLinePartial r \<longrightarrow>
         (\<exists>k. k \<le> length (lines_of content) \<and> tn_content r = join_with nl (drop k (lines_of content))
           \<and> tn_outputLines r = length (lines_of content) - k
           \<and> (k = 0 \<or> tn_outputLines r = tn_maxLines r
              \<or> tn_maxBytes r < byteLength (join_with nl (drop (k - 1) (lines_of content))))))
    \<and> (tn_lastLinePartial r \<longrightarrow>
         tn_maxBytes r < byteLength (last (lines_of content))
         \<and> (\<exists>k. scalars (tn_content r) = drop k (scalars (last (lines_of content)))))"
proof -
  define L B where "L = option_or optLines DEFAULT_MAX_LINES" and "B = option_or optBytes DEFAULT_MAX_BYTES"
  let ?ls = "lines_of content"
  have ne: "?ls \<noteq> []" by (simp add: lines_of_def)
  have big: "\<not> (length ?ls \<le> L \<and> byteLength content \<le> B)"
    using assms(1,2) by (auto simp: truncateTail_def Let_def L_def B_def untruncated_def)
  obtain out used by_what partial where h: "tail_lines L B (rev ?ls) [] 0 = (out, used, by_what, partial)"
    by (metis prod_cases4)
  have r: "tn_content r = join_with nl out" "tn_outputLines r = length out" "tn_maxLines r = L" "tn_maxBytes r = B"
    "tn_outputBytes r = byteLength (join_with nl out)" "tn_lastLinePartial r = partial"
    using assms(1) h big by (auto simp: truncateTail_def Let_def L_def [symmetric] B_def [symmetric])
  have spec: "used = bytes_of out \<and> used \<le> B \<and> length out \<le> L
    \<and> (\<not> partial \<longrightarrow> (\<exists>k \<le> length ?ls. out = rev (take k (rev ?ls))
         \<and> (k = length ?ls \<or> length out = L \<or> bytes_of (rev ?ls ! k # out) > B)))
    \<and> (partial \<longrightarrow> B < byteLength (hd (rev ?ls)) \<and> out = [truncateStringToBytesFromEnd (hd (rev ?ls)) B])"
    using tail_lines_spec [OF h] by simp
  have whole: "\<exists>k. k \<le> length ?ls \<and> join_with nl out = join_with nl (drop k ?ls) \<and> length out = length ?ls - k
      \<and> (k = 0 \<or> length out = L \<or> B < byteLength (join_with nl (drop (k - 1) ?ls)))" if "\<not> partial"
  proof -
    from spec that obtain k where k: "k \<le> length ?ls" "out = rev (take k (rev ?ls))"
      "k = length ?ls \<or> length out = L \<or> bytes_of (rev ?ls ! k # out) > B" by blast
    let ?j = "length ?ls - k"
    have out: "out = drop ?j ?ls" using k(2) by (simp add: take_rev)
    have "rev ?ls ! k # out = drop (?j - 1) ?ls" if "k < length ?ls"
    proof -
      from that have j: "Suc (?j - 1) = ?j" "?j - 1 < length ?ls" by simp_all
      have "rev ?ls ! k = ?ls ! (?j - 1)" using that by (simp add: rev_nth)
      then show ?thesis using Cons_nth_drop_Suc [OF j(2)] unfolding out j(1) by simp
    qed
    with k(1,3) out show ?thesis by (intro exI [of _ ?j]) (auto simp: bytes_of_def)
  qed
  have part: "B < byteLength (last ?ls) \<and> (\<exists>k. scalars (join_with nl out) = drop k (scalars (last ?ls)))" if partial
    using spec that truncate_end_spec [of "last ?ls" B] ne by (auto simp: hd_rev)
  from spec whole part show ?thesis unfolding r by (simp add: bytes_of_def)
qed

theorem truncateTail_within_limits_witness:
  "byteLength (tn_content (truncateTail [97, 10, 98] (Some 1) None)) \<le> 51200"
proof -
  have t: "tn_truncated (truncateTail [97, 10, 98] (Some 1) None)" "0 < tn_maxLines (truncateTail [97, 10, 98] (Some 1) None)"
    "tn_maxBytes (truncateTail [97, 10, 98] (Some 1) None) = 51200" by (simp_all add: truncation_simps)
  from truncateTail_within_limits [OF refl t(1,2)] t(3) show ?thesis by simp
qed

text \<open>A long line that ends with a newline is dropped whole: the empty last line is collected
  first, so the case of a single line over the limit does not apply.\<close>

theorem truncateTail_drops_terminated_line:
  "tn_content (truncateTail [97, 97, 97, 97] None (Some 2)) = [97, 97]
   \<and> tn_content (truncateTail [97, 97, 97, 97, 10] None (Some 2)) = []"
  by (simp add: truncation_simps)

end
