(* ===== verification/Output_Text.thy ===== *)
theory Output_Text
  imports Output_Decoder Truncation_Properties
begin

text \<open>
  The text of the accumulator: \<open>text_inv\<close> says that its counts are those of all the text so far and that its
  tail is an end of that text at a character boundary, long enough once it was trimmed.
\<close>

section \<open>Texts of whole characters\<close>

lemma utf8_append: "y = [] \<or> \<not> is_low_surrogate (hd y) \<Longrightarrow> utf8 (x @ y) = utf8 x @ utf8 y"
proof (induction x rule: utf8.induct)
  case (2 u)
  then show ?case by (cases y) simp_all
qed simp_all

lemma dec_hd:
  assumes "is_scalar n"
  shows "dec n \<noteq> []" "\<not> is_low_surrogate (hd (dec n))"
proof -
  show "dec n \<noteq> []" by (simp add: dec_def)
  show "\<not> is_low_surrogate (hd (dec n))"
  proof (cases "n < 65536")
    case True
    with assms show ?thesis by (auto simp: dec_def low_surrogate_unat unat_of_nat is_scalar_def)
  next
    case False
    with assms have d: "(n - 65536) div 1024 < 1024" by (auto simp: is_scalar_def intro!: less_mult_imp_div_less)
    then have "unat (word_of_nat (55296 + (n - 65536) div 1024) :: 16 word) = 55296 + (n - 65536) div 1024"
      by (intro unat_word16) linarith
    with d show ?thesis using False by (simp only: dec_def low_surrogate_unat if_False list.sel) linarith
  qed
qed

lemma chars_Nil [simp]: "chars [] = []"
  by (simp add: chars_def)

lemma chars_hd: "\<forall>n \<in> set ns. is_scalar n \<Longrightarrow> chars ns = [] \<or> \<not> is_low_surrogate (hd (chars ns))"
  by (cases ns) (auto simp: chars_def dec_hd)

lemma utf8_chars: "\<forall>n \<in> set ns. is_scalar n \<Longrightarrow> utf8 (chars ns) = concat (map enc ns)"
  by (simp add: utf8_scalars chars_def scalars_concat_dec)

lemma byteLength_append_chars:
  "\<forall>n \<in> set ns. is_scalar n \<Longrightarrow> byteLength (x @ chars ns) = byteLength x + byteLength (chars ns)"
  using utf8_append [OF chars_hd] by (simp add: byteLength_def)

lemma from_utf8_chars: "\<forall>n \<in> set ns. is_scalar n \<Longrightarrow> from_utf8 (concat (map enc ns)) = chars ns"
  unfolding chars_def by (rule from_utf8_scalars)

lemma length_enc: "length (enc n) \<le> 4"
  by (simp add: enc_def three_bytes_def four_bytes_def)

lemma boundary_close:
  "\<forall>n \<in> set ns. is_scalar n \<Longrightarrow> length (takeWhile is_continuation (drop i (concat (map enc ns)))) \<le> 3"
proof (induction ns arbitrary: i)
  case (Cons n ns)
  let ?tail = "concat (map enc ns)"
  obtain a bs where e: "enc n = a # bs" "\<not> is_continuation a" "\<forall>b \<in> set bs. is_continuation b"
    using enc_shape [of n] Cons.prems by auto
  have start: "takeWhile is_continuation ?tail = []"
  proof (cases ns)
    case (Cons m ms)
    then obtain x y where "enc m = x # y" "\<not> is_continuation x" using enc_shape [of m] Cons.prems local.Cons by auto
    with Cons show ?thesis by simp
  qed simp
  show ?case
  proof (cases "i < length (enc n)")
    case True
    show ?thesis
    proof (cases i)
      case 0
      with e show ?thesis by simp
    next
      case (Suc j)
      with True e(1) have j: "j \<le> length bs" by simp
      have "takeWhile is_continuation (drop j bs @ ?tail) = drop j bs"
        using e(3) start takeWhile_append2 [of "drop j bs" is_continuation ?tail] by (metis append_Nil2 in_set_dropD)
      with Suc j e(1) length_enc [of n] show ?thesis by simp
    qed
  next
    case False
    with Cons.IH [of "i - length (enc n)"] Cons.prems show ?thesis by simp
  qed
qed simp

lemma enc_last:
  assumes "is_scalar n"
  shows "enc n \<noteq> [] \<and> (last (enc n) = 10 \<longleftrightarrow> n = 10)"
proof -
  have inj: "byte m = 10 \<longleftrightarrow> m = 10" if "m < 256" for m
  proof
    assume "byte m = 10"
    then have "unat (byte m) = unat (10 :: 8 word)" by simp
    with that show "m = 10" by simp
  qed (simp add: byte_def)
  have "128 + n mod 64 < 256" "128 + n mod 64 \<noteq> 10" using mod_less_divisor [of 64 n] by linarith+
  with inj [of "128 + n mod 64"] inj [of n] show ?thesis
    by (auto simp: enc_def three_bytes_def four_bytes_def)
qed

section \<open>Lines\<close>

lemma lines_of_Nil [simp]: "lines_of [] = [[]]"
  by (simp add: lines_of_def)

lemma lines_of_nonempty [simp]: "lines_of s \<noteq> []"
  by (simp add: lines_of_def)

lemma lines_nl: "lines_of (a @ 10 # b) = lines_of a @ lines_of b"
  unfolding lines_of_def by (induction a) (auto split: list.splits simp: neq_Nil_conv)

lemma lines_single: "10 \<notin> set t \<Longrightarrow> lines_of t = [t]"
  unfolding lines_of_def by (induction t) auto

lemma length_lines: "length (lines_of s) = Suc (count_list s 10)"
  unfolding lines_of_def by (induction s) (auto split: list.splits)

lemma lines_extend:
  "10 \<notin> set t \<Longrightarrow> lines_of (a @ t) = butlast (lines_of a) @ [last (lines_of a) @ t]"
proof (induction a)
  case Nil
  then show ?case by (simp add: lines_single)
next
  case (Cons x a)
  show ?case
  proof (cases "x = 10")
    case True
    with Cons lines_nl [of "[]"] show ?thesis by simp
  next
    case False
    obtain l ls where l: "lines_of a = l # ls" by (cases "lines_of a") simp_all
    then show ?thesis using Cons False unfolding lines_of_def by (cases ls) auto
  qed
qed

lemma last_newline:
  assumes "last_index_of (\<lambda>u. u = 10) text = Some i"
  shows "text = take i text @ 10 # drop (i + 1) text" "10 \<notin> set (drop (i + 1) text)"
proof -
  from last_index_of_Some [OF assms] have i: "i < length text" "text ! i = 10"
    "\<And>j. i < j \<Longrightarrow> j < length text \<Longrightarrow> text ! j \<noteq> 10" by auto
  from i(1,2) show "text = take i text @ 10 # drop (i + 1) text" by (metis Suc_eq_plus1 id_take_nth_drop)
  show "10 \<notin> set (drop (i + 1) text)" using i(3) by (auto simp: in_set_conv_nth)
qed

lemma first_newline:
  assumes "index_of (\<lambda>u. u = 10) text = Some i"
  shows "text = take i text @ 10 # drop (i + 1) text" "10 \<notin> set (take i text)"
proof -
  from index_of_Some [OF assms] have i: "i < length text" "text ! i = 10" "\<And>j. j < i \<Longrightarrow> text ! j \<noteq> 10" by auto
  from i(1,2) show "text = take i text @ 10 # drop (i + 1) text" by (metis Suc_eq_plus1 id_take_nth_drop)
  show "10 \<notin> set (take i text)" using i(3) by (auto simp: in_set_conv_nth)
qed

section \<open>The tail\<close>

definition tail_inv :: "accumulator \<Rightarrow> nat list \<Rightarrow> bool" where
  "tail_inv a ns \<longleftrightarrow>
     oa_tailBytes a = byteLength (oa_tailText a)
     \<and> (\<exists>k \<le> length ns. oa_tailText a = chars (drop k ns) \<and> (oa_tailStartsAtLineBoundary a \<longleftrightarrow> k = 0 \<or> ns ! (k - 1) = 10)
          \<and> (0 < k \<longrightarrow> oa_maxRollingBytes a \<le> oa_tailBytes a + 3))"

lemma trimTail_fields [simp]:
  "oa_maxLines (trimTail a) = oa_maxLines a" "oa_maxBytes (trimTail a) = oa_maxBytes a"
  "oa_maxRollingBytes (trimTail a) = oa_maxRollingBytes a" "oa_decoder (trimTail a) = oa_decoder a"
  "oa_rawChunks (trimTail a) = oa_rawChunks a" "oa_totalRawBytes (trimTail a) = oa_totalRawBytes a"
  "oa_totalDecodedBytes (trimTail a) = oa_totalDecodedBytes a" "oa_totalLines (trimTail a) = oa_totalLines a"
  "oa_currentLineBytes (trimTail a) = oa_currentLineBytes a" "oa_finished (trimTail a) = oa_finished a"
  "oa_tempFilePath (trimTail a) = oa_tempFilePath a" "oa_tempFileStream (trimTail a) = oa_tempFileStream a"
  "oa_file (trimTail a) = oa_file a"
  by (simp_all add: trimTail_def Let_def)

lemma take_of_drop: "xs = a @ b \<Longrightarrow> drop n xs = b \<Longrightarrow> take n xs = a"
  by (metis append_same_eq append_take_drop_id)

lemma trimTail_inv:
  assumes ok: "\<forall>n \<in> set ns. is_scalar n" and inv: "tail_inv a ns"
  shows "tail_inv (trimTail a) ns \<and> oa_tailBytes (trimTail a) \<le> oa_maxRollingBytes a"
proof (cases "byteLength (oa_tailText a) \<le> oa_maxRollingBytes a")
  case True
  with inv show ?thesis by (auto simp: trimTail_def tail_inv_def byteLength_def)
next
  case False
  let ?R = "oa_maxRollingBytes a"
  from inv obtain k where k: "k \<le> length ns" "oa_tailText a = chars (drop k ns)"
    "oa_tailStartsAtLineBoundary a \<longleftrightarrow> k = 0 \<or> ns ! (k - 1) = 10" unfolding tail_inv_def by blast
  let ?ms = "drop k ns"
  have ms: "\<forall>n \<in> set ?ms. is_scalar n" using ok by (meson in_set_dropD)
  define buf where "buf = utf8 (oa_tailText a)"
  have buf: "buf = concat (map enc ?ms)" by (simp add: buf_def k(2) utf8_chars [OF ms])
  have len: "?R < length buf" using False by (simp add: buf_def byteLength_def)
  define b where "b = boundary_from buf (length buf - ?R)"
  have b: "length buf - ?R \<le> b" "b \<le> length buf" "b \<le> length buf - ?R + 3"
    using boundary_from_bounds [of "length buf - ?R" buf] boundary_close [OF ms, of "length buf - ?R"]
    unfolding b_def buf [symmetric] by (simp_all add: boundary_from_def)
  obtain j where j: "j \<le> length ?ms" "drop b buf = concat (map enc (drop j ?ms))"
    using continuations_in_enc [OF ms, of "length buf - ?R"] unfolding b_def buf by auto
  have rest: "\<forall>n \<in> set (drop j ?ms). is_scalar n" using ms by (meson in_set_dropD)
  have decoded: "from_utf8 (drop b buf) = chars (drop (k + j) ns)"
    using from_utf8_chars [OF rest] j(2) by (simp add: add.commute)
  have pos: "0 < b" using b(1) len by simp
  have front: "take b buf = concat (map enc (take j ?ms))"
  proof (rule take_of_drop [OF _ j(2)])
    show "buf = concat (map enc (take j ?ms)) @ concat (map enc (drop j ?ms))"
      unfolding buf by (metis append_take_drop_id concat_append map_append)
  qed
  have jpos: "0 < j"
  proof (rule ccontr)
    assume "\<not> 0 < j"
    with front have "take b buf = []" by simp
    with pos len show False by auto
  qed
  have "?ms ! (j - 1) \<in> set ?ms" using jpos j(1) by (intro nth_mem) linarith
  with ms have "is_scalar (?ms ! (j - 1))" by blast
  note prev = enc_last [OF this]
  have "buf ! (b - 1) = last (take b buf)" proof -
    have "take b buf \<noteq> []" using pos len by auto
    with pos b(2) show ?thesis by (simp add: last_conv_nth)
  qed
  also have "\<dots> = last (enc (?ms ! (j - 1)))"
  proof -
    have "take j ?ms = take (j - 1) ?ms @ [?ms ! (j - 1)]"
      using jpos j(1) by (metis Suc_diff_1 Suc_le_eq take_Suc_conv_app_nth)
    with front prev show ?thesis by simp
  qed
  finally have "buf ! (b - 1) = 10 \<longleftrightarrow> ns ! (k + j - 1) = 10"
    using prev jpos k(1) by simp
  moreover have "byteLength (chars (drop (k + j) ns)) = length buf - b"
    using j(2) utf8_chars [OF rest] by (metis add.commute byteLength_def drop_drop length_drop)
  moreover have "trimTail a = a\<lparr>oa_tailStartsAtLineBoundary := buf ! (b - 1) = 10,
      oa_tailText := chars (drop (k + j) ns), oa_tailBytes := byteLength (chars (drop (k + j) ns))\<rparr>"
    using len pos decoded by (simp add: trimTail_def Let_def buf_def [symmetric] b_def [symmetric])
  ultimately show ?thesis using b len j(1) k(1) jpos
    by (auto simp: tail_inv_def intro!: exI [of _ "k + j"])
qed

lemma tail_inv_counts [simp]:
  "tail_inv (a\<lparr>oa_totalLines := l\<rparr>) ns = tail_inv a ns" "tail_inv (a\<lparr>oa_currentLineBytes := c\<rparr>) ns = tail_inv a ns"
  by (simp_all add: tail_inv_def)

definition text_inv :: "accumulator \<Rightarrow> nat list \<Rightarrow> bool" where
  "text_inv a ns \<longleftrightarrow>
     (\<forall>n \<in> set ns. is_scalar n) \<and> tail_inv a ns \<and> oa_tailBytes a \<le> oa_maxRollingBytes a * 2
     \<and> oa_totalDecodedBytes a = byteLength (chars ns) \<and> oa_totalLines a = length (lines_of (chars ns))
     \<and> oa_currentLineBytes a = byteLength (last (lines_of (chars ns)))"

lemma appendDecodedText_fields [simp]:
  "oa_maxLines (appendDecodedText t a) = oa_maxLines a" "oa_maxBytes (appendDecodedText t a) = oa_maxBytes a"
  "oa_maxRollingBytes (appendDecodedText t a) = oa_maxRollingBytes a" "oa_decoder (appendDecodedText t a) = oa_decoder a"
  "oa_rawChunks (appendDecodedText t a) = oa_rawChunks a" "oa_totalRawBytes (appendDecodedText t a) = oa_totalRawBytes a"
  "oa_finished (appendDecodedText t a) = oa_finished a" "oa_tempFilePath (appendDecodedText t a) = oa_tempFilePath a"
  "oa_tempFileStream (appendDecodedText t a) = oa_tempFileStream a" "oa_file (appendDecodedText t a) = oa_file a"
  by (simp_all add: appendDecodedText_def Let_def split: option.splits)

lemma appendDecodedText_inv:
  assumes inv: "text_inv a ns" and ms: "\<forall>n \<in> set ms. is_scalar n"
  shows "text_inv (appendDecodedText (chars ms) a) (ns @ ms)"
proof (cases "chars ms = []")
  case True
  have "dec n \<noteq> []" for n by (simp add: dec_def)
  with True have "ms = []" by (cases ms) (auto simp: chars_def)
  with inv show ?thesis by (simp add: appendDecodedText_def)
next
  case False
  let ?t = "chars ms"
  define a1 where "a1 = a\<lparr>oa_totalDecodedBytes := oa_totalDecodedBytes a + byteLength ?t,
    oa_tailText := oa_tailText a @ ?t, oa_tailBytes := oa_tailBytes a + byteLength ?t\<rparr>"
  define a2 where "a2 = (if oa_tailBytes a1 > oa_maxRollingBytes a * 2 then trimTail a1 else a1)"
  from inv obtain k where ok: "\<forall>n \<in> set ns. is_scalar n" and k: "k \<le> length ns" "oa_tailText a = chars (drop k ns)"
    "oa_tailStartsAtLineBoundary a \<longleftrightarrow> k = 0 \<or> ns ! (k - 1) = 10" "0 < k \<longrightarrow> oa_maxRollingBytes a \<le> oa_tailBytes a + 3"
    "oa_tailBytes a = byteLength (oa_tailText a)"
    unfolding text_inv_def tail_inv_def by blast
  have all: "\<forall>n \<in> set (ns @ ms). is_scalar n" using ok ms by auto
  have "tail_inv a1 (ns @ ms)"
    using k byteLength_append_chars [OF ms, of "oa_tailText a"]
    by (auto simp: tail_inv_def a1_def nth_append intro!: exI [of _ k])
  with trimTail_inv [OF all this] have tail: "tail_inv a2 (ns @ ms)" "oa_tailBytes a2 \<le> oa_maxRollingBytes a * 2"
    by (auto simp: a2_def a1_def)
  have a2: "oa_totalDecodedBytes a2 = byteLength (chars (ns @ ms))" "oa_maxRollingBytes a2 = oa_maxRollingBytes a"
    "oa_totalLines a2 = oa_totalLines a" "oa_currentLineBytes a2 = oa_currentLineBytes a"
    using inv byteLength_append_chars [OF ms] by (simp_all add: a2_def a1_def text_inv_def)
  have lines: "length (lines_of (chars (ns @ ms))) = oa_totalLines a + count_list ?t 10"
    using inv by (simp add: length_lines text_inv_def)
  show ?thesis
  proof (cases "last_index_of (\<lambda>u. u = 10) ?t")
    case None
    then have no: "10 \<notin> set ?t" by (auto simp: last_index_of_None)
    have res: "appendDecodedText ?t a = a2\<lparr>oa_currentLineBytes := oa_currentLineBytes a + byteLength ?t\<rparr>"
      using False None by (simp add: appendDecodedText_def Let_def a1_def a2_def)
    have "byteLength (last (lines_of (chars (ns @ ms)))) = oa_currentLineBytes a + byteLength ?t"
      using inv lines_extend [OF no, of "chars ns"] byteLength_append_chars [OF ms] by (simp add: text_inv_def)
    moreover have "count_list ?t 10 = 0" using no by simp
    ultimately show ?thesis using all tail a2 lines unfolding res text_inv_def by simp
  next
    case (Some i)
    note nlp = last_newline [OF Some]
    have res: "appendDecodedText ?t a = a2\<lparr>oa_totalLines := oa_totalLines a + count_list ?t 10,
        oa_currentLineBytes := byteLength (drop (i + 1) ?t)\<rparr>"
      using False Some by (simp add: appendDecodedText_def Let_def a1_def a2_def)
    have "chars (ns @ ms) = (chars ns @ take i ?t) @ 10 # drop (i + 1) ?t" using nlp(1) by simp
    then have "last (lines_of (chars (ns @ ms))) = drop (i + 1) ?t"
      using lines_single [OF nlp(2)] by (simp only: lines_nl) simp
    with all tail a2 lines show ?thesis unfolding res text_inv_def by simp
  qed
qed

end
