(* ===== verification/Output_Snapshot.thy ===== *)
theory Output_Snapshot
  imports Output_Text
begin

text \<open>
  Why the tail is enough: the walk of \<open>truncateTail\<close> stops inside it. \<open>snapshot_of_text\<close>: the snapshot is the
  truncation of the whole text.
\<close>

section \<open>Where the walk from the end stops\<close>

text \<open>Lines before those that already fill a limit are never looked at.\<close>

lemma tail_lines_stop:
  assumes "used = bytes_of acc" "used \<le> B" "B < bytes_of (rev xs @ acc) \<or> L \<le> length xs + length acc"
  shows "tail_lines L B (xs @ ys) acc used = tail_lines L B xs acc used"
  using assms
proof (induction xs arbitrary: acc used)
  case Nil
  then show ?case by (cases ys) simp_all
next
  case (Cons l xs)
  let ?n = "used + (byteLength l + (if acc \<noteq> [] then 1 else 0))"
  consider "L \<le> length acc" | "\<not> L \<le> length acc" "?n > B" | "\<not> L \<le> length acc" "?n \<le> B" by linarith
  then show ?case
  proof cases
    case 3
    have "tail_lines L B (xs @ ys) (l # acc) ?n = tail_lines L B xs (l # acc) ?n"
      using Cons.prems 3 by (intro Cons.IH) (simp_all add: bytes_of_Cons)
    with 3 show ?thesis by (simp add: Let_def)
  qed (simp_all add: Let_def)
qed

lemma bytes_of_suffix: "bytes_of ys \<le> bytes_of (xs @ ys)"
  by (cases "xs = []"; cases "ys = []") (simp_all add: bytes_of_append)

text \<open>Lines that fit are all kept, up to a line that does not.\<close>

lemma tail_lines_fit:
  assumes "used = bytes_of acc" "bytes_of (rev xs @ acc) \<le> B" "length xs + length acc < L" "acc \<noteq> [] \<or> xs \<noteq> []"
    "B < bytes_of (l # rev xs @ acc)"
  shows "tail_lines L B (xs @ l # ys) acc used = (rev xs @ acc, bytes_of (rev xs @ acc), ByBytes, False)"
  using assms
proof (induction xs arbitrary: acc used)
  case Nil
  then show ?case by (simp add: bytes_of_Cons)
next
  case (Cons x xs)
  let ?n = "used + (byteLength x + (if acc \<noteq> [] then 1 else 0))"
  have "?n = bytes_of (x # acc)" using Cons.prems(1) by (simp add: bytes_of_Cons)
  moreover have "bytes_of (x # acc) \<le> bytes_of (rev xs @ x # acc)" by (rule bytes_of_suffix)
  ultimately show ?case using Cons.prems Cons.IH [of ?n "x # acc"] by (simp add: Let_def)
qed

lemma tail_lines_all:
  assumes "used = bytes_of acc" "bytes_of (rev xs @ acc) \<le> B" "length xs + length acc \<le> L"
  shows "tail_lines L B xs acc used = (rev xs @ acc, bytes_of (rev xs @ acc), ByLines, False)"
  using assms
proof (induction xs arbitrary: acc used)
  case (Cons x xs)
  let ?n = "used + (byteLength x + (if acc \<noteq> [] then 1 else 0))"
  have "?n = bytes_of (x # acc)" using Cons.prems(1) by (simp add: bytes_of_Cons)
  moreover have "bytes_of (x # acc) \<le> bytes_of (rev xs @ x # acc)" by (rule bytes_of_suffix)
  ultimately show ?case using Cons.prems Cons.IH [of ?n "x # acc"] by (simp add: Let_def)
qed simp

section \<open>Truncating the kept tail\<close>

text \<open>The result of the walk, as the fields that the caller sees of it.\<close>

definition same_cut :: "truncation_result \<Rightarrow> truncation_result \<Rightarrow> bool" where
  "same_cut r s \<longleftrightarrow> tn_content r = tn_content s \<and> tn_outputLines r = tn_outputLines s
     \<and> tn_outputBytes r = tn_outputBytes s \<and> tn_lastLinePartial r = tn_lastLinePartial s
     \<and> tn_firstLineExceedsLimit r = tn_firstLineExceedsLimit s"

lemma same_cut_walk:
  assumes "\<not> (length (lines_of s) \<le> L \<and> byteLength s \<le> B)" "\<not> (length (lines_of t) \<le> L \<and> byteLength t \<le> B)"
    "tail_lines L B (rev (lines_of s)) [] 0 = tail_lines L B (rev (lines_of t)) [] 0"
  shows "same_cut (truncateTail s (Some L) (Some B)) (truncateTail t (Some L) (Some B))
    \<and> tn_truncatedBy (truncateTail s (Some L) (Some B)) = tn_truncatedBy (truncateTail t (Some L) (Some B))"
  using assms by (auto simp: truncateTail_def option_or_def Let_def same_cut_def split: prod.split)

lemma bytes_of_lines: "bytes_of (lines_of s) = byteLength s"
  by (simp add: bytes_of_def join_lines)

text \<open>A text whose end after a newline already fills a limit.\<close>

lemma truncateTail_after_newline:
  assumes "B < byteLength r \<or> L < length (lines_of r)"
  shows "same_cut (truncateTail (p @ 10 # r) (Some L) (Some B)) (truncateTail r (Some L) (Some B))
    \<and> tn_truncatedBy (truncateTail (p @ 10 # r) (Some L) (Some B)) = tn_truncatedBy (truncateTail r (Some L) (Some B))"
proof -
  have walk: "tail_lines L B (rev (lines_of (p @ 10 # r))) [] 0 = tail_lines L B (rev (lines_of r)) [] 0"
    unfolding lines_nl rev_append
    by (rule tail_lines_stop) (use assms in \<open>auto simp: bytes_of_lines\<close>)
  have "byteLength (p @ 10 # r) = byteLength p + 1 + byteLength r" by (simp add: byteLength_def utf8_nl)
  with assms show ?thesis by (intro same_cut_walk [OF _ _ walk]) (auto simp: lines_nl)
qed

text \<open>An end that is within the limits, before which a line ends that is not.\<close>

lemma truncateTail_before_long_line:
  assumes "byteLength r \<le> B" "length (lines_of r) \<le> L" "B < byteLength (last (lines_of p)) + 1 + byteLength r"
  shows "same_cut (truncateTail (p @ 10 # r) (Some L) (Some B)) (truncateTail r (Some L) (Some B))
    \<and> tn_truncated (truncateTail (p @ 10 # r) (Some L) (Some B))
    \<and> (length (lines_of r) < L \<longrightarrow> tn_truncatedBy (truncateTail (p @ 10 # r) (Some L) (Some B)) = Some ByBytes)"
proof -
  let ?s = "p @ 10 # r"
  obtain q l where ql: "lines_of p = q @ [l]" by (metis lines_of_nonempty rev_exhaust)
  have s: "rev (lines_of ?s) = rev (lines_of r) @ l # rev q" by (simp add: lines_nl ql)
  have "byteLength ?s = byteLength p + 1 + byteLength r" by (simp add: byteLength_def utf8_nl)
  moreover have "byteLength (last (lines_of p)) \<le> byteLength p"
    using bytes_of_snoc [of q l] bytes_of_lines [of p] by (simp add: ql)
  ultimately have big: "B < byteLength ?s" using assms(3) by simp
  have whole: "truncateTail r (Some L) (Some B) = untruncated r L B"
    using assms(1,2) by (simp add: truncateTail_def option_or_def Let_def)
  have out: "\<exists>b. tail_lines L B (rev (lines_of ?s)) [] 0 = (lines_of r, byteLength r, b, False)
      \<and> (length (lines_of r) < L \<longrightarrow> b = ByBytes)"
  proof (cases "length (lines_of r) < L")
    case True
    have "B < bytes_of (l # lines_of r)" using assms(3) by (simp add: bytes_of_Cons bytes_of_lines ql)
    then have "tail_lines L B (rev (lines_of ?s)) [] 0 = (lines_of r, byteLength r, ByBytes, False)"
      unfolding s using True assms(1) tail_lines_fit [of 0 "[]" "rev (lines_of r)" B L l "rev q"] by (simp add: bytes_of_lines)
    then show ?thesis by simp
  next
    case False
    with assms(2) have len: "length (lines_of r) = L" by simp
    have "tail_lines L B (rev (lines_of ?s)) [] 0 = tail_lines L B (rev (lines_of r)) [] 0"
      unfolding s by (rule tail_lines_stop) (use len in auto)
    moreover have "tail_lines L B (rev (lines_of r)) [] 0 = (lines_of r, byteLength r, ByLines, False)"
      using tail_lines_all [of 0 "[]" "rev (lines_of r)" B L] assms(1) len by (simp add: bytes_of_lines)
    ultimately show ?thesis using False by simp
  qed
  then obtain b where b: "tail_lines L B (rev (lines_of ?s)) [] 0 = (lines_of r, byteLength r, b, False)"
    "length (lines_of r) < L \<longrightarrow> b = ByBytes" by blast
  have "tn_content (truncateTail ?s (Some L) (Some B)) = r" "tn_outputLines (truncateTail ?s (Some L) (Some B)) = length (lines_of r)"
    "tn_outputBytes (truncateTail ?s (Some L) (Some B)) = byteLength r" "\<not> tn_lastLinePartial (truncateTail ?s (Some L) (Some B))"
    "\<not> tn_firstLineExceedsLimit (truncateTail ?s (Some L) (Some B))" "tn_truncated (truncateTail ?s (Some L) (Some B))"
    "length (lines_of r) < L \<longrightarrow> tn_truncatedBy (truncateTail ?s (Some L) (Some B)) = Some ByBytes"
    using big b by (simp_all add: truncateTail_def option_or_def Let_def join_lines)
  then show ?thesis unfolding whole same_cut_def untruncated_def by simp
qed

section \<open>A snapshot of the tail\<close>

lemma truncateString_suffix:
  assumes "\<forall>n \<in> set ms. is_scalar n" "B < byteLength (chars ms)"
  shows "truncateStringToBytesFromEnd (x @ chars ms) B = truncateStringToBytesFromEnd (chars ms) B"
proof -
  let ?a = "utf8 x" and ?b = "utf8 (chars ms)"
  have u: "utf8 (x @ chars ms) = ?a @ ?b" by (rule utf8_append [OF chars_hd [OF assms(1)]])
  have l: "length ?b - B + length ?a = length ?a + length ?b - B" using assms(2) by (simp add: byteLength_def)
  have "boundary_from (?a @ ?b) (length ?a + length ?b - B) = length ?a + boundary_from ?b (length ?b - B)"
    unfolding boundary_from_def l [symmetric] by simp
  with assms(2) show ?thesis by (simp add: truncateStringToBytesFromEnd_def u byteLength_def Let_def)
qed

lemma truncateTail_in_line:
  assumes "\<forall>n \<in> set ms. is_scalar n" "B < byteLength (chars ms)" "10 \<notin> set (chars ms)"
  shows "same_cut (truncateTail (x @ chars ms) (Some L) (Some B)) (truncateTail (chars ms) (Some L) (Some B))
    \<and> tn_truncatedBy (truncateTail (x @ chars ms) (Some L) (Some B)) = tn_truncatedBy (truncateTail (chars ms) (Some L) (Some B))"
proof -
  let ?t = "chars ms" and ?l = "last (lines_of x)"
  have lines: "lines_of (x @ ?t) = butlast (lines_of x) @ [?l @ ?t]" "lines_of ?t = [?t]"
    using lines_extend [OF assms(3)] lines_single [OF assms(3)] by simp_all
  have "byteLength (x @ ?t) = byteLength x + byteLength ?t" "byteLength (?l @ ?t) = byteLength ?l + byteLength ?t"
    by (rule byteLength_append_chars [OF assms(1)])+
  then have big: "B < byteLength (x @ ?t)" "B < byteLength (?l @ ?t)" using assms(2) by simp_all
  have "tail_lines L B (rev (lines_of (x @ ?t))) [] 0 = tail_lines L B (rev (lines_of ?t)) [] 0"
    using big(2) assms(2) by (simp add: lines truncateString_suffix [OF assms(1,2)] Let_def)
  with big(1) assms(2) show ?thesis by (intro same_cut_walk) auto
qed

lemma byteLength_prefix_of_chars:
  assumes "\<forall>n \<in> set ms. is_scalar n" "chars ms = p @ q"
  shows "byteLength (x @ p) = byteLength x + byteLength p"
proof -
  have "p = [] \<or> \<not> is_low_surrogate (hd p)" using chars_hd [OF assms(1)] assms(2) by (cases p) auto
  from utf8_append [OF this] show ?thesis by (simp add: byteLength_def)
qed

lemma getSnapshotText_cut:
  fixes L :: nat
  assumes inv: "text_inv a ns" and B: "oa_maxRollingBytes a = 2 * B" "4 \<le> B"
  defines "t \<equiv> truncateTail (chars ns) (Some L) (Some B)" and "s \<equiv> truncateTail (getSnapshotText a) (Some L) (Some B)"
  shows "same_cut t s \<and> (getSnapshotText a = chars ns \<or>
    B < byteLength (chars ns) \<and> (tn_outputLines t = L \<or> tn_truncatedBy s = tn_truncatedBy t
      \<or> tn_truncatedBy s = None \<and> tn_truncatedBy t = Some ByBytes))"
proof -
  from inv obtain k where ok: "\<forall>n \<in> set ns. is_scalar n" and k: "k \<le> length ns" "oa_tailText a = chars (drop k ns)"
    "oa_tailStartsAtLineBoundary a \<longleftrightarrow> k = 0 \<or> ns ! (k - 1) = 10"
    "0 < k \<longrightarrow> oa_maxRollingBytes a \<le> byteLength (oa_tailText a) + 3"
    unfolding text_inv_def tail_inv_def by metis
  let ?tail = "chars (drop k ns)"
  have ms: "\<forall>n \<in> set (drop k ns). is_scalar n" using ok by (meson in_set_dropD)
  have split: "chars ns = chars (take k ns) @ ?tail" by (metis append_take_drop_id chars_append)
  have all: "byteLength (chars ns) = byteLength (chars (take k ns)) + byteLength ?tail"
    unfolding split by (rule byteLength_append_chars [OF ms])
  show ?thesis
  proof (cases "k = 0")
    case True
    then have "getSnapshotText a = chars ns" using k by (simp add: getSnapshotText_def)
    then show ?thesis by (simp add: t_def s_def same_cut_def)
  next
    case False
    then have long: "B < byteLength ?tail" using k(2,4) B by simp
    then have total: "B < byteLength (chars ns)" using all by simp
    consider (boundary) "ns ! (k - 1) = 10"
      | (inside) "ns ! (k - 1) \<noteq> 10" "index_of (\<lambda>u. u = 10) ?tail = None"
      | (partial) i where "ns ! (k - 1) \<noteq> 10" "index_of (\<lambda>u. u = 10) ?tail = Some i" by fastforce
    then show ?thesis
    proof cases
      case boundary
      have "take k ns = take (k - 1) ns @ [10]"
        using False k(1) boundary take_Suc_conv_app_nth [of "k - 1" ns] by simp
      then have "chars ns = chars (take (k - 1) ns) @ 10 # ?tail" using split by (simp add: chars_def dec_def)
      with truncateTail_after_newline [of B ?tail L "chars (take (k - 1) ns)"] long total boundary k
      show ?thesis by (simp add: t_def s_def getSnapshotText_def)
    next
      case inside
      then have no: "10 \<notin> set ?tail" by (auto simp: index_of_None)
      from truncateTail_in_line [OF ms long no, of "chars (take k ns)" L] split total inside k False
      show ?thesis by (simp add: t_def s_def getSnapshotText_def)
    next
      case partial
      let ?p = "take i ?tail" and ?r = "drop (i + 1) ?tail"
      note nlp = first_newline [OF partial(2)]
      have snap: "getSnapshotText a = ?r" using partial k False by (simp add: getSnapshotText_def)
      have text_eq: "chars ns = (chars (take k ns) @ ?p) @ 10 # ?r" using split nlp(1) by simp
      have "byteLength ?tail = byteLength ?p + 1 + byteLength ?r"
        using arg_cong [OF nlp(1), of byteLength] by (simp add: byteLength_def utf8_nl)
      moreover have "last (lines_of (chars (take k ns) @ ?p)) = last (lines_of (chars (take k ns))) @ ?p"
        using lines_extend [OF nlp(2)] by simp
      moreover have "byteLength (last (lines_of (chars (take k ns))) @ ?p) \<ge> byteLength ?p"
        using byteLength_prefix_of_chars [OF ms nlp(1)] by simp
      ultimately have line: "B < byteLength (last (lines_of (chars (take k ns) @ ?p))) + 1 + byteLength ?r"
        using long by simp
      show ?thesis
      proof (cases "B < byteLength ?r \<or> L < length (lines_of ?r)")
        case True
        with truncateTail_after_newline [OF True, of "chars (take k ns) @ ?p"] total
        show ?thesis unfolding t_def s_def snap text_eq [symmetric] by simp
      next
        case False
        then have fits: "byteLength ?r \<le> B" "length (lines_of ?r) \<le> L" by simp_all
        then have "tn_truncatedBy s = None" "tn_outputLines s = length (lines_of ?r)"
          by (simp_all add: s_def snap truncateTail_def option_or_def Let_def untruncated_def)
        moreover have "s = truncateTail ?r (Some L) (Some B)" by (simp add: s_def snap)
        moreover note truncateTail_before_long_line [OF fits line, folded text_eq, folded t_def]
        ultimately show ?thesis using total fits(2) by (auto simp: same_cut_def)
      qed
    qed
  qed
qed

lemma truncateTail_totals:
  "tn_truncated (truncateTail s (Some L) (Some B)) \<longleftrightarrow> length (lines_of s) > L \<or> byteLength s > B"
  "tn_totalLines (truncateTail s (Some L) (Some B)) = length (lines_of s)"
  "tn_totalBytes (truncateTail s (Some L) (Some B)) = byteLength s"
  "tn_maxLines (truncateTail s (Some L) (Some B)) = L" "tn_maxBytes (truncateTail s (Some L) (Some B)) = B"
  "tn_truncatedBy (truncateTail s (Some L) (Some B)) = None \<longleftrightarrow> \<not> tn_truncated (truncateTail s (Some L) (Some B))"
  by (auto simp: truncateTail_def option_or_def untruncated_def Let_def split: prod.split)

lemma snapshot_of_text:
  assumes inv: "text_inv a ns" and B: "oa_maxRollingBytes a = 2 * oa_maxBytes a" "4 \<le> oa_maxBytes a"
  defines "t \<equiv> truncateTail (chars ns) (Some (oa_maxLines a)) (Some (oa_maxBytes a))"
  shows "(snapshot_truncation a)\<lparr>tn_truncatedBy := tn_truncatedBy t\<rparr> = t
    \<and> (tn_truncatedBy (snapshot_truncation a) = tn_truncatedBy t \<or> tn_outputLines t = oa_maxLines a)"
proof -
  let ?L = "oa_maxLines a" and ?B = "oa_maxBytes a"
  define s where "s = truncateTail (getSnapshotText a) (Some ?L) (Some ?B)"
  note tot = truncateTail_totals [of "chars ns" ?L ?B, folded t_def] truncateTail_totals [of "getSnapshotText a" ?L ?B, folded s_def]
  note cut = getSnapshotText_cut [OF inv B, of ?L, folded t_def s_def]
  have counts: "oa_totalDecodedBytes a = byteLength (chars ns)" "oa_totalLines a = length (lines_of (chars ns))"
    using inv by (simp_all add: text_inv_def)
  have tr: "tn_truncated t \<longleftrightarrow> oa_totalLines a > ?L \<or> oa_totalDecodedBytes a > ?B" by (simp add: counts tot)
  have by_eq: "tn_truncatedBy (snapshot_truncation a) = tn_truncatedBy t \<or> tn_outputLines t = ?L"
  proof (cases "tn_truncated t")
    case False
    then have "tn_truncatedBy t = None" using tot(6) by simp
    moreover have "tn_truncatedBy (snapshot_truncation a) = None"
      using False tr by (simp add: snapshot_truncation_def Let_def)
    ultimately show ?thesis by simp
  next
    case True
    have by_snapshot: "tn_truncatedBy (snapshot_truncation a) =
        (case tn_truncatedBy s of Some b \<Rightarrow> Some b | None \<Rightarrow> Some (if oa_totalDecodedBytes a > ?B then ByBytes else ByLines))"
      using True tr by (simp add: snapshot_truncation_def s_def [symmetric] Let_def)
    show ?thesis
    proof (cases "getSnapshotText a = chars ns")
      case same: True
      then have "s = t" by (simp add: s_def t_def)
      with True tot(6) by_snapshot show ?thesis by (auto split: option.splits)
    next
      case False
      with cut have "?B < oa_totalDecodedBytes a" "tn_outputLines t = ?L \<or> tn_truncatedBy s = tn_truncatedBy t
          \<or> tn_truncatedBy s = None \<and> tn_truncatedBy t = Some ByBytes" by (simp_all add: counts)
      with True tot(6) by_snapshot show ?thesis by (auto split: option.splits)
    qed
  qed
  have "(snapshot_truncation a)\<lparr>tn_truncatedBy := tn_truncatedBy t\<rparr> = t"
    using cut tr tot counts
    by (simp add: snapshot_truncation_def s_def [symmetric] Let_def same_cut_def)
  with by_eq show ?thesis by blast
qed

end
