(* ===== verification/Output_Properties.thy ===== *)
theory Output_Properties
  imports Output_Snapshot
begin

text \<open>
  A run of the accumulator: \<open>run_inv\<close> joins the text with the raw data and the temp file; the properties
  of snapshots and of the memory held.

  The bash tool on top of the accumulator: small output is returned as it is; a long last line is lost.
\<close>

section \<open>A run of the accumulator\<close>

fun event_data :: "output_event list \<Rightarrow> 8 word list" where
  "event_data [] = []"
| "event_data (OutputData data # evs) = data @ event_data evs"
| "event_data (OutputUpdate # evs) = event_data evs"

text \<open>\<open>new TextDecoder().decode(data)\<close>.\<close>

definition decode_text :: "8 word list \<Rightarrow> jsstring" where
  "decode_text data = (case decode_chunk new_decoder data of (t, d) \<Rightarrow> t @ fst (decode_flush d))"

definition file_inv :: "jsstring \<Rightarrow> accumulator \<Rightarrow> 8 word list \<Rightarrow> bool" where
  "file_inv path a data \<longleftrightarrow>
     oa_tempFilePath a = None \<and> \<not> oa_tempFileStream a \<and> concat (oa_rawChunks a) = data \<and> length data \<le> oa_maxBytes a
     \<or> oa_tempFilePath a = Some path \<and> oa_tempFileStream a \<and> oa_rawChunks a = [] \<and> oa_file a = data"

definition run_inv :: "jsstring \<Rightarrow> nat \<Rightarrow> nat \<Rightarrow> accumulator \<Rightarrow> 8 word list \<Rightarrow> bool" where
  "run_inv path L B a data \<longleftrightarrow>
     \<not> oa_finished a \<and> oa_maxLines a = L \<and> oa_maxBytes a = B \<and> oa_maxRollingBytes a = max (B * 2) 1
     \<and> oa_totalRawBytes a = length data \<and> file_inv path a data \<and> decoder_ok (oa_decoder a)
     \<and> (\<exists>ns. decode_chunk new_decoder data = (chars ns, oa_decoder a) \<and> text_inv a ns)"

lemma ensureTempFile_fields [simp]:
  "oa_maxLines (ensureTempFile p a) = oa_maxLines a" "oa_maxBytes (ensureTempFile p a) = oa_maxBytes a"
  "oa_maxRollingBytes (ensureTempFile p a) = oa_maxRollingBytes a" "oa_decoder (ensureTempFile p a) = oa_decoder a"
  "oa_totalRawBytes (ensureTempFile p a) = oa_totalRawBytes a" "oa_finished (ensureTempFile p a) = oa_finished a"
  "oa_totalDecodedBytes (ensureTempFile p a) = oa_totalDecodedBytes a" "oa_totalLines (ensureTempFile p a) = oa_totalLines a"
  "text_inv (ensureTempFile p a) ns = text_inv a ns" "getSnapshotText (ensureTempFile p a) = getSnapshotText a"
  "getLastLineBytes (ensureTempFile p a) = getLastLineBytes a"
  by (simp_all add: ensureTempFile_def text_inv_def tail_inv_def getSnapshotText_def getLastLineBytes_def
      cong: option.case_cong)

lemma ensureTempFile_snapshot [simp]: "snapshot_truncation (ensureTempFile p a) = snapshot_truncation a"
  by (simp add: snapshot_truncation_def)

lemma ensureTempFile_file: "file_inv path a data \<Longrightarrow> file_inv path (ensureTempFile path a) data"
  by (auto simp: file_inv_def ensureTempFile_def)

lemma ensured: "file_inv path a data \<Longrightarrow> oa_tempFilePath (ensureTempFile path a) = Some path"
  by (auto simp: file_inv_def ensureTempFile_def)

lemma text_inv_file_fields [simp]:
  "text_inv (a\<lparr>oa_file := f\<rparr>) ns = text_inv a ns" "text_inv (a\<lparr>oa_rawChunks := r\<rparr>) ns = text_inv a ns"
  "text_inv (a\<lparr>oa_decoder := d\<rparr>) ns = text_inv a ns" "text_inv (a\<lparr>oa_totalRawBytes := n\<rparr>) ns = text_inv a ns"
  "text_inv (a\<lparr>oa_finished := b\<rparr>) ns = text_inv a ns" "text_inv (a\<lparr>oa_tempFileStream := b\<rparr>) ns = text_inv a ns"
  by (simp_all add: text_inv_def tail_inv_def)

lemma new_accumulator_inv: "run_inv path L B (new_accumulator (Some L) (Some B)) []"
  by (auto simp: run_inv_def new_accumulator_def option_or_def file_inv_def decoder_ok_def decode_chunk_def skip_bom_def
      text_inv_def tail_inv_def byteLength_def new_decoder_def Let_def intro!: exI [of _ "[]"])

lemma append_data_inv:
  assumes inv: "run_inv path L B a data"
  shows "\<exists>a'. append_data path d a = Inr a' \<and> run_inv path L B a' (data @ d)"
proof -
  obtain t dec where dec: "decode_chunk (oa_decoder a) d = (t, dec)" by fastforce
  from inv obtain ns where ns: "decode_chunk new_decoder data = (chars ns, oa_decoder a)" "text_inv a ns"
    "decoder_ok (oa_decoder a)" unfolding run_inv_def by blast
  from decode_chunk_ok [OF ns(3) dec] obtain ms where ms: "t = chars ms" "\<forall>n \<in> set ms. is_scalar n" "decoder_ok dec" by blast
  have chunk: "decode_chunk new_decoder (data @ d) = (chars (ns @ ms), dec)"
    using ns(1) dec ms(1) by (simp add: decode_chunk_append)
  define a0 where "a0 = a\<lparr>oa_totalRawBytes := oa_totalRawBytes a + length d, oa_decoder := dec\<rparr>"
  define a1 where "a1 = appendDecodedText t a0"
  have t1: "text_inv a1 (ns @ ms)" unfolding a1_def ms(1) by (rule appendDecodedText_inv [OF _ ms(2)]) (simp add: a0_def ns(2))
  have a1: "\<not> oa_finished a1" "oa_maxLines a1 = L" "oa_maxBytes a1 = B" "oa_maxRollingBytes a1 = max (B * 2) 1"
    "oa_totalRawBytes a1 = length (data @ d)" "oa_decoder a1 = dec" "file_inv path a1 data"
    using inv by (auto simp: a1_def a0_def run_inv_def file_inv_def)
  show ?thesis
  proof (cases "oa_tempFileStream a1 \<or> shouldUseTempFile a1")
    case True
    let ?a2 = "ensureTempFile path a1"
    have "oa_tempFilePath ?a2 = Some path" "file_inv path ?a2 data"
      using ensured [OF a1(7)] ensureTempFile_file [OF a1(7)] by simp_all
    then have f: "oa_tempFilePath ?a2 = Some path" "oa_tempFileStream ?a2" "oa_rawChunks ?a2 = []" "oa_file ?a2 = data"
      by (auto simp: file_inv_def)
    have "append_data path d a = Inr (?a2\<lparr>oa_file := oa_file ?a2 @ d\<rparr>)"
      using inv True f(2) dec by (simp add: append_data_def run_inv_def a1_def a0_def Let_def)
    with f a1 t1 chunk ms(3) show ?thesis by (simp add: run_inv_def file_inv_def) (metis chars_append)
  next
    case False
    then have f: "oa_tempFilePath a1 = None" "concat (oa_rawChunks a1) = data" "\<not> oa_tempFileStream a1"
      using a1(7) by (auto simp: file_inv_def)
    have len: "length (data @ d) \<le> B" using False a1(3,5) by (simp add: shouldUseTempFile_def)
    have "append_data path d a = Inr (if d \<noteq> [] then a1\<lparr>oa_rawChunks := oa_rawChunks a1 @ [d]\<rparr> else a1)"
      using inv False dec by (simp add: append_data_def run_inv_def a1_def a0_def Let_def)
    with f len a1 t1 chunk ms(3) show ?thesis by (simp add: run_inv_def file_inv_def) (metis chars_append)
  qed
qed

lemma snapshot_inv: "run_inv path L B a data \<Longrightarrow> run_inv path L B (snd (snapshot path True a)) data"
  by (simp add: snapshot_def run_inv_def Let_def ensureTempFile_file)

lemma handle_events_inv:
  "run_inv path L B a data \<Longrightarrow> run_inv path L B (handle_events path evs a) (data @ event_data evs)"
proof (induction evs arbitrary: a data)
  case (Cons ev evs)
  show ?case
  proof (cases ev)
    case (OutputData d)
    obtain a' where "append_data path d a = Inr a'" "run_inv path L B a' (data @ d)"
      using append_data_inv [OF Cons.prems] by blast
    with OutputData Cons.IH [of a' "data @ d"] show ?thesis by (simp add: handle_events_def)
  next
    case OutputUpdate
    with Cons.IH [OF snapshot_inv [OF Cons.prems]] show ?thesis by (simp add: handle_events_def)
  qed
qed (simp add: handle_events_def)

lemma run_from_new:
  "run_inv path L B (handle_events path evs (new_accumulator (Some L) (Some B))) (event_data evs)"
  using handle_events_inv [OF new_accumulator_inv] by fastforce

text \<open>After \<open>finish\<close> the text is that of the whole data.\<close>

lemma finish_inv:
  assumes "run_inv path L B a data"
  shows "\<exists>ns. chars ns = decode_text data \<and> text_inv (finish path a) ns \<and> file_inv path (finish path a) data
    \<and> oa_maxLines (finish path a) = L \<and> oa_maxBytes (finish path a) = B
    \<and> oa_maxRollingBytes (finish path a) = max (B * 2) 1"
proof -
  from assms obtain ns where ns: "decode_chunk new_decoder data = (chars ns, oa_decoder a)" "text_inv a ns"
    unfolding run_inv_def by blast
  obtain t d where fl: "decode_flush (oa_decoder a) = (t, d)" by fastforce
  from decode_flush_ok [OF fl] obtain ms where ms: "t = chars ms" "\<forall>n \<in> set ms. is_scalar n" by blast
  define a1 where "a1 = appendDecodedText t (a\<lparr>oa_finished := True, oa_decoder := d\<rparr>)"
  have t1: "text_inv a1 (ns @ ms)" unfolding a1_def ms(1) by (rule appendDecodedText_inv [OF _ ms(2)]) (simp add: ns(2))
  have f1: "file_inv path a1 data" using assms by (auto simp: a1_def run_inv_def file_inv_def)
  have "finish path a = (if shouldUseTempFile a1 then ensureTempFile path a1 else a1)"
    using assms fl by (simp add: finish_def run_inv_def a1_def Let_def)
  moreover have "chars (ns @ ms) = decode_text data" using ns(1) fl ms(1) by (simp add: decode_text_def)
  moreover have "oa_maxLines a1 = L" "oa_maxBytes a1 = B" "oa_maxRollingBytes a1 = max (B * 2) 1"
    using assms by (simp_all add: a1_def run_inv_def)
  ultimately show ?thesis using t1 f1 ensureTempFile_file [OF f1] by (intro exI [of _ "ns @ ms"]) simp
qed

lemma run_snapshot:
  assumes "run_inv path L B a data" "4 \<le> B"
  defines "now \<equiv> truncateTail (fst (decode_chunk new_decoder data)) (Some L) (Some B)"
  shows "(snapshot_truncation a)\<lparr>tn_truncatedBy := tn_truncatedBy now\<rparr> = now"
    "tn_truncatedBy (snapshot_truncation a) = tn_truncatedBy now \<or> tn_outputLines now = L"
proof -
  from assms(1,2) obtain ns where ns: "decode_chunk new_decoder data = (chars ns, oa_decoder a)" "text_inv a ns"
    and a: "oa_maxRollingBytes a = 2 * oa_maxBytes a" "oa_maxLines a = L" "oa_maxBytes a = B"
    unfolding run_inv_def by (auto simp: max_def)
  show "(snapshot_truncation a)\<lparr>tn_truncatedBy := tn_truncatedBy now\<rparr> = now"
    "tn_truncatedBy (snapshot_truncation a) = tn_truncatedBy now \<or> tn_outputLines now = L"
    using snapshot_of_text [OF ns(2) a(1)] assms(2) unfolding a(2,3) now_def ns(1) fst_conv by blast+
qed

lemma finished_snapshot:
  assumes "run_inv path L B a data" "4 \<le> B"
  defines "whole \<equiv> truncateTail (decode_text data) (Some L) (Some B)"
  shows "(snapshot_truncation (finish path a))\<lparr>tn_truncatedBy := tn_truncatedBy whole\<rparr> = whole"
    "tn_truncatedBy (snapshot_truncation (finish path a)) = tn_truncatedBy whole \<or> tn_outputLines whole = L"
proof -
  from finish_inv [OF assms(1)] assms(2) obtain ms where ms: "chars ms = decode_text data" "text_inv (finish path a) ms"
    and f: "oa_maxRollingBytes (finish path a) = 2 * oa_maxBytes (finish path a)" "oa_maxLines (finish path a) = L"
      "oa_maxBytes (finish path a) = B"
    by (auto simp: max_def)
  show "(snapshot_truncation (finish path a))\<lparr>tn_truncatedBy := tn_truncatedBy whole\<rparr> = whole"
    "tn_truncatedBy (snapshot_truncation (finish path a)) = tn_truncatedBy whole \<or> tn_outputLines whole = L"
    using snapshot_of_text [OF ms(2) f(1)] assms(2) unfolding f(2,3) ms(1) whole_def by blast+
qed

text \<open>What \<open>finishOutput\<close> returns, and where the whole output is when it was cut.\<close>

lemma finishOutput_saved:
  assumes inv: "run_inv path L B a data" and fin: "finishOutput path dirty a = (s, a')"
  shows "os_truncation s = snapshot_truncation (finish path a)" "os_content s = tn_content (snapshot_truncation (finish path a))"
    "tn_truncated (os_truncation s) \<Longrightarrow> os_fullOutputPath s = Some path \<and> oa_file a' = data"
proof -
  define a1 where "a1 = (if dirty then handle_event path OutputUpdate (finish path a) else finish path a)"
  have f1: "file_inv path a1 data"
    using finish_inv [OF inv] by (auto simp: a1_def snapshot_def Let_def ensureTempFile_file)
  have snap: "snapshot_truncation a1 = snapshot_truncation (finish path a)"
    by (simp add: a1_def snapshot_def Let_def)
  have eq: "(case snapshot path True a1 of (s, a3) \<Rightarrow> (s, closeTempFile a3)) = (s, a')"
    using fin by (simp add: finishOutput_def a1_def Let_def)
  show "os_truncation s = snapshot_truncation (finish path a)" "os_content s = tn_content (snapshot_truncation (finish path a))"
    using eq snap by (auto simp: snapshot_def Let_def)
  show "tn_truncated (os_truncation s) \<Longrightarrow> os_fullOutputPath s = Some path \<and> oa_file a' = data"
    using eq ensured [OF f1] ensureTempFile_file [OF f1] by (auto simp: snapshot_def Let_def closeTempFile_def file_inv_def)
qed

section \<open>Properties\<close>

text \<open>C39 A snapshot of the accumulator, which keeps only an end of the output, is the truncation from the
  tail of everything decoded so far, and after \<open>finish\<close> of the whole data, for every way the data was
  split into chunks: all fields agree, but for which limit is named when both are reached.\<close>

theorem snapshot_is_truncateTail:
  fixes path :: jsstring and L B :: nat and evs :: "output_event list"
  assumes "4 \<le> B"
  defines "a \<equiv> handle_events path evs (new_accumulator (Some L) (Some B))"
  defines "now \<equiv> truncateTail (fst (decode_chunk new_decoder (event_data evs))) (Some L) (Some B)"
    and "whole \<equiv> truncateTail (decode_text (event_data evs)) (Some L) (Some B)"
  shows "(snapshot_truncation a)\<lparr>tn_truncatedBy := tn_truncatedBy now\<rparr> = now
    \<and> (tn_truncatedBy (snapshot_truncation a) = tn_truncatedBy now \<or> tn_outputLines now = L)
    \<and> (snapshot_truncation (finish path a))\<lparr>tn_truncatedBy := tn_truncatedBy whole\<rparr> = whole
    \<and> (tn_truncatedBy (snapshot_truncation (finish path a)) = tn_truncatedBy whole \<or> tn_outputLines whole = L)"
proof -
  have inv: "run_inv path L B a (event_data evs)" unfolding a_def by (rule run_from_new)
  from run_snapshot [OF inv assms(1)] finished_snapshot [OF inv assms(1)] show ?thesis
    unfolding now_def whole_def by blast
qed

text \<open>The accumulator holds a bounded end of the output and either all the data, which is then
  within the byte limit, or none of it, and then the temp file has it all; when a snapshot that
  persists reports a truncation, the file exists.\<close>

theorem accumulator_bounded:
  fixes path :: jsstring and L B :: nat
  defines "a \<equiv> \<lambda>evs. handle_events path evs (new_accumulator (Some L) (Some B))"
  shows "byteLength (oa_tailText (a evs)) \<le> 4 * max B 1
    \<and> (oa_tempFilePath (a evs) = None \<and> concat (oa_rawChunks (a evs)) = event_data evs \<and> length (event_data evs) \<le> B
       \<or> oa_tempFilePath (a evs) = Some path \<and> oa_rawChunks (a evs) = [] \<and> oa_file (a evs) = event_data evs)
    \<and> (case finishOutput path dirty (a evs) of (s, a') \<Rightarrow>
         tn_truncated (os_truncation s) \<longrightarrow> os_fullOutputPath s = Some path \<and> oa_file a' = event_data evs)"
proof -
  have inv: "run_inv path L B (a evs) (event_data evs)" unfolding a_def by (rule run_from_new)
  then have kept_text: "byteLength (oa_tailText (a evs)) \<le> 4 * max B 1"
    by (auto simp: run_inv_def text_inv_def tail_inv_def)
  have held: "oa_tempFilePath (a evs) = None \<and> concat (oa_rawChunks (a evs)) = event_data evs \<and> length (event_data evs) \<le> B
       \<or> oa_tempFilePath (a evs) = Some path \<and> oa_rawChunks (a evs) = [] \<and> oa_file (a evs) = event_data evs"
    using inv by (auto simp: run_inv_def file_inv_def)
  have "case finishOutput path dirty (a evs) of (s, a') \<Rightarrow>
         tn_truncated (os_truncation s) \<longrightarrow> os_fullOutputPath s = Some path \<and> oa_file a' = event_data evs"
    using finishOutput_saved(3) [OF inv] by fastforce
  with kept_text held show ?thesis by blast
qed

theorem snapshot_is_truncateTail_witness:
  "tn_outputLines (snapshot_truncation (finish [] (handle_events []
     [OutputData [97, 226], OutputUpdate, OutputData [130, 172, 10]] (new_accumulator (Some 5) (Some 40))))) = 2"
proof -
  let ?evs = "[OutputData [97, 226], OutputUpdate, OutputData [130, 172, 10]]"
  have t: "decode_text (event_data ?evs) = [97, 8364, 10]"
    by (simp add: decode_text_def decode_chunk_def decode_flush_def decode_end_def decode_byte_def lead_byte_def
        new_decoder_def reset_decoder_def skip_bom_def dec_def Let_def)
  have n: "tn_outputLines (truncateTail [97, 8364, 10] (Some 5) (Some 40)) = 2" by (simp add: truncation_simps three_bytes_def)
  let ?s = "snapshot_truncation (finish [] (handle_events [] ?evs (new_accumulator (Some 5) (Some 40))))"
  have "?s\<lparr>tn_truncatedBy := tn_truncatedBy (truncateTail [97, 8364, 10] (Some 5) (Some 40))\<rparr>
      = truncateTail [97, 8364, 10] (Some 5) (Some 40)"
    using snapshot_is_truncateTail [where B = 40 and path = "[]" and L = 5 and evs = ?evs] unfolding t by linarith
  from arg_cong [OF this, of tn_outputLines] n show ?thesis by simp
qed

theorem accumulator_bounded_witness:
  "os_fullOutputPath (fst (finishOutput [120] False
     (handle_events [120] [OutputData [97, 98]] (new_accumulator (Some 5) (Some 1))))) = Some [120]"
proof -
  let ?r = "finishOutput [120] False (handle_events [120] [OutputData [97, 98]] (new_accumulator (Some 5) (Some 1)))"
  have "tn_truncated (os_truncation (fst ?r))"
    by (simp add: finishOutput_def handle_events_def new_accumulator_def append_data_def decode_chunk_def decode_byte_def
        lead_byte_def new_decoder_def skip_bom_def dec_def appendDecodedText_def truncation_simps shouldUseTempFile_def
        ensureTempFile_def finish_def decode_flush_def decode_end_def snapshot_def snapshot_truncation_def)
  with accumulator_bounded [where path = "[120]" and L = 5 and B = 1 and evs = "[OutputData [97, 98]]" and dirty = False] show ?thesis by (auto simp: case_prod_beta)
qed

section \<open>The bash tool\<close>

text \<open>What the tool sees of a command whose output is over: the truncation of all its text.\<close>

lemma finished_truncation:
  assumes fin: "finishOutput path dirty (handle_events path evs (new_accumulator None None)) = (s, a')"
  defines "whole \<equiv> truncateTail (decode_text (event_data evs)) (Some 2000) (Some 51200)"
  shows "(os_truncation s)\<lparr>tn_truncatedBy := tn_truncatedBy whole\<rparr> = whole"
    "tn_truncatedBy (os_truncation s) = tn_truncatedBy whole \<or> tn_outputLines whole = 2000"
    "os_content s = tn_content whole" "tn_truncated whole \<Longrightarrow> os_fullOutputPath s = Some path"
proof -
  have "new_accumulator None None = new_accumulator (Some 2000) (Some 51200)"
    by (simp add: new_accumulator_def option_or_def DEFAULT_MAX_LINES_def DEFAULT_MAX_BYTES_def)
  then have inv: "run_inv path 2000 51200 (handle_events path evs (new_accumulator None None)) (event_data evs)"
    using run_from_new [of path 2000 51200 evs] by simp
  note saved = finishOutput_saved [OF inv fin]
  show 1: "(os_truncation s)\<lparr>tn_truncatedBy := tn_truncatedBy whole\<rparr> = whole"
    "tn_truncatedBy (os_truncation s) = tn_truncatedBy whole \<or> tn_outputLines whole = 2000"
    unfolding saved(1) whole_def by (rule finished_snapshot [OF inv]; simp)+
  from arg_cong [OF 1(1), of tn_content] show "os_content s = tn_content whole" by (simp add: saved(1,2))
  from arg_cong [OF 1(1), of tn_truncated] saved(3) show "tn_truncated whole \<Longrightarrow> os_fullOutputPath s = Some path" by simp
qed

lemma formatSize_default: "formatSize DEFAULT_MAX_BYTES = js ''50.0KB''"
proof -
  have "char_of (53 :: nat) = CHR ''5''" "char_of (48 :: nat) = CHR ''0''" by code_simp+
  then show ?thesis
    by (simp add: formatSize_def toFixed_1_def DEFAULT_MAX_BYTES_def show_nat_def dec_digits.simps js_append [symmetric] Let_def)
qed

text \<open>A command that succeeds with output within both limits gives exactly its output.\<close>

theorem bash_small_output:
  assumes "how = Exited None \<or> how = Exited (Some 0)"
    and "length (lines_of (decode_text (event_data evs))) \<le> 2000" "byteLength (decode_text (event_data evs)) \<le> 51200"
  shows "bash_execute path evs dirty how =
    Inr (if decode_text (event_data evs) = [] then js ''(no output)'' else decode_text (event_data evs), None)"
proof -
  let ?t = "decode_text (event_data evs)"
  obtain s a' where fin: "finishOutput path dirty (handle_events path evs (new_accumulator None None)) = (s, a')" by fastforce
  have whole: "truncateTail ?t (Some 2000) (Some 51200) = untruncated ?t 2000 51200"
    using assms(2,3) by (simp add: truncateTail_def option_or_def Let_def)
  note seen = finished_truncation [OF fin, unfolded whole]
  have "\<not> tn_truncated (os_truncation s)" "os_content s = ?t"
    using arg_cong [OF seen(1), of tn_truncated] seen(3) by (simp_all add: untruncated_def)
  with assms(1) fin show ?thesis by (auto simp: bash_execute_def formatOutput_def Let_def)
qed

text \<open>A last line that ends with a newline and fills the byte limit disappears: only the empty line
  after it is kept, and the tool reports no output.\<close>

theorem bash_long_line_lost:
  assumes "decode_text (event_data evs) = p @ nl" "51200 \<le> byteLength (last (lines_of p))"
  shows "map_sum id fst (bash_execute path evs dirty (Exited (Some 0))) =
    Inr (js ''(no output)'' @ nl @ nl @ js ''[Showing lines '' @ show_nat (Suc (length (lines_of p))) @ js ''-''
      @ show_nat (Suc (length (lines_of p))) @ js '' of '' @ show_nat (Suc (length (lines_of p)))
      @ js '' (50.0KB limit). Full output: '' @ path @ js '']'')"
proof -
  let ?w = "truncateTail (p @ [10]) (Some 2000) (Some 51200)"
  obtain s a' where fin: "finishOutput path dirty (handle_events path evs (new_accumulator None None)) = (s, a')" by fastforce
  have "length (lines_of (p @ [10])) = Suc (length (lines_of p))" by (simp add: lines_nl)
  moreover have "same_cut ?w (truncateTail [] (Some 2000) (Some 51200)) \<and> tn_truncated ?w \<and> tn_truncatedBy ?w = Some ByBytes"
    using truncateTail_before_long_line [of "[]" 51200 2000 p] assms(2) by (simp add: byteLength_def)
  ultimately have w: "tn_content ?w = []" "tn_outputLines ?w = 1" "\<not> tn_lastLinePartial ?w" "tn_truncated ?w"
    "tn_truncatedBy ?w = Some ByBytes" "tn_totalLines ?w = Suc (length (lines_of p))"
    by (simp_all add: same_cut_def truncateTail_totals)
       (simp_all add: truncateTail_def untruncated_def option_or_def Let_def byteLength_def)
  note seen = finished_truncation [OF fin, unfolded assms(1) nl_eq]
  have t: "os_truncation s = ?w" using seen(1,2) w(2,5) by (cases "os_truncation s"; cases ?w) auto
  have "os_content s = []" "os_fullOutputPath s = Some path" using seen(3,4) w by simp_all
  moreover have "js '' ('' @ js ''50.0KB'' @ js '' limit)'' @ js ''. Full output: '' = js '' (50.0KB limit). Full output: ''"
    by (simp add: js_append [symmetric])
  ultimately show ?thesis using t w fin
    by (simp add: bash_execute_def formatOutput_def Let_def path_text_def show_int_def nat_add_distrib formatSize_default)
qed

end
