(* ===== verification/Edit_Matching.thy ===== *)
theory Edit_Matching
  imports Pi_Messages
begin

text \<open>
  The edit tool's matching, replacement and diff, \<open>packages/coding-agent/src/core/tools/edit-diff.ts\<close>, and what
  \<open>execute\<close> in \<open>edit.ts\<close> makes of the text of a file.

  \<^item> \<open>String.prototype.normalize("NFKC")\<close> is given by the Unicode data files: it is the argument \<open>nfkc\<close>.
    \<open>Diff.diffLines\<close> of the package \<open>diff\<close> is the argument \<open>diffLines\<close>.
  \<^item> An error is its cause; \<open>edit_error_message\<close> is the text of the exception.
\<close>

section \<open>Strings\<close>

text \<open>\<open>s.indexOf(p)\<close>.\<close>

fun indexOf :: "jsstring \<Rightarrow> jsstring \<Rightarrow> nat option" where
  "indexOf [] p = (if p = [] then Some 0 else None)"
| "indexOf (x # s) p = (if take (length p) (x # s) = p then Some 0 else map_option Suc (indexOf s p))"

lemma indexOf_Some: "indexOf s p = Some i \<Longrightarrow> i + length p \<le> length s \<and> take (length p) (drop i s) = p"
proof (induction s arbitrary: i)
  case (Cons x s)
  show ?case
  proof (cases "take (length p) (x # s) = p")
    case True
    then have "length p \<le> length (x # s)" by (metis length_take min.cobounded1)
    with True Cons.prems show ?thesis by simp
  next
    case False
    with Cons.prems obtain j where "indexOf s p = Some j" "i = Suc j" by auto
    with Cons.IH [of j] show ?thesis by simp
  qed
qed (auto split: if_splits)

text \<open>\<open>s.split(p)\<close>: for an empty separator the code units.\<close>

function split_str :: "jsstring \<Rightarrow> jsstring \<Rightarrow> jsstring list" where
  "split_str s p =
     (if p = [] then map (\<lambda>u. [u]) s
      else (case indexOf s p of
              None \<Rightarrow> [s]
            | Some i \<Rightarrow> take i s # split_str (drop (i + length p) s) p))"
  by pat_completeness auto
termination
proof (relation "measure (\<lambda>(s, p). length s)")
  fix s p :: jsstring and i
  assume "p \<noteq> []" "indexOf s p = Some i"
  with indexOf_Some [of s p i] show "((drop (i + length p) s, p), (s, p)) \<in> measure (\<lambda>(s, p). length s)"
    by (cases p) auto
qed simp

declare split_str.simps [simp del]

section \<open>Line endings and byte order mark\<close>

datatype line_ending = CRLF | LF

definition detectLineEnding :: "jsstring \<Rightarrow> line_ending" where
  "detectLineEnding content =
     (case indexOf content [10] of
        None \<Rightarrow> LF
      | Some lfIdx \<Rightarrow>
          (case indexOf content [13, 10] of
             None \<Rightarrow> LF
           | Some crlfIdx \<Rightarrow> if crlfIdx < lfIdx then CRLF else LF))"

fun replace_crlf :: "jsstring \<Rightarrow> jsstring" where
  "replace_crlf (u # v # s) =
     (if u = 13 \<and> v = 10 then 10 # replace_crlf s else u # replace_crlf (v # s))"
| "replace_crlf s = s"

definition normalizeToLF :: "jsstring \<Rightarrow> jsstring" where
  "normalizeToLF text = map (\<lambda>u. if u = 13 then 10 else u) (replace_crlf text)"

definition restoreLineEndings :: "jsstring \<Rightarrow> line_ending \<Rightarrow> jsstring" where
  "restoreLineEndings text ending =
     (case ending of CRLF \<Rightarrow> concat (map (\<lambda>u. if u = 10 then [13, 10] else [u]) text) | LF \<Rightarrow> text)"

definition stripBom :: "jsstring \<Rightarrow> jsstring \<times> jsstring" where
  "stripBom content = (if take 1 content = [65279] then ([65279], drop 1 content) else ([], content))"

section \<open>Fuzzy matching\<close>

definition ascii_quotes :: "16 word \<Rightarrow> 16 word" where
  "ascii_quotes u =
     (if u \<in> {0x2018, 0x2019, 0x201A, 0x201B} then 39
      else if u \<in> {0x201C, 0x201D, 0x201E, 0x201F} then 34 else u)"

definition ascii_dash :: "16 word \<Rightarrow> 16 word" where
  "ascii_dash u = (if u \<in> {0x2010, 0x2011, 0x2012, 0x2013, 0x2014, 0x2015, 0x2212} then 45 else u)"

definition ascii_space :: "16 word \<Rightarrow> 16 word" where
  "ascii_space u =
     (if u = 0xA0 \<or> (0x2002 \<le> u \<and> u \<le> 0x200A) \<or> u = 0x202F \<or> u = 0x205F \<or> u = 0x3000 then 32 else u)"

definition normalizeForFuzzyMatch :: "(jsstring \<Rightarrow> jsstring) \<Rightarrow> jsstring \<Rightarrow> jsstring" where
  "normalizeForFuzzyMatch nfkc text =
     map ascii_space (map ascii_dash (map ascii_quotes
       (join_with nl (map trim_end (split_on 10 (nfkc text))))))"

record fuzzy_match =
  fm_found :: bool
  fm_index :: nat
  fm_matchLength :: nat
  fm_usedFuzzyMatch :: bool
  fm_contentForReplacement :: jsstring

text \<open>Where nothing was found, the index, -1 in the code, is not read.\<close>

definition fuzzyFindText :: "(jsstring \<Rightarrow> jsstring) \<Rightarrow> jsstring \<Rightarrow> jsstring \<Rightarrow> fuzzy_match" where
  "fuzzyFindText nfkc content oldText =
     (case indexOf content oldText of
        Some exactIndex \<Rightarrow>
          \<lparr>fm_found = True, fm_index = exactIndex, fm_matchLength = length oldText, fm_usedFuzzyMatch = False,
           fm_contentForReplacement = content\<rparr>
      | None \<Rightarrow>
          (let fuzzyContent = normalizeForFuzzyMatch nfkc content;
               fuzzyOldText = normalizeForFuzzyMatch nfkc oldText
           in case indexOf fuzzyContent fuzzyOldText of
                None \<Rightarrow>
                  \<lparr>fm_found = False, fm_index = 0, fm_matchLength = 0, fm_usedFuzzyMatch = False,
                   fm_contentForReplacement = content\<rparr>
              | Some fuzzyIndex \<Rightarrow>
                  \<lparr>fm_found = True, fm_index = fuzzyIndex, fm_matchLength = length fuzzyOldText,
                   fm_usedFuzzyMatch = True, fm_contentForReplacement = fuzzyContent\<rparr>))"

definition countOccurrences :: "(jsstring \<Rightarrow> jsstring) \<Rightarrow> jsstring \<Rightarrow> jsstring \<Rightarrow> int" where
  "countOccurrences nfkc content oldText =
     int (length (split_str (normalizeForFuzzyMatch nfkc content) (normalizeForFuzzyMatch nfkc oldText))) - 1"

section \<open>Errors\<close>

text \<open>Each carries the index of its edit and the number of edits.\<close>

datatype edit_error =
    EmptyOldText nat nat
  | NotFound nat nat
  | Duplicate nat nat int
  | Overlap nat nat
  | NoChange nat

definition edit_error_message :: "jsstring \<Rightarrow> edit_error \<Rightarrow> jsstring" where
  "edit_error_message path e =
     (case e of
        EmptyOldText i edit_count \<Rightarrow>
          (if edit_count = 1 then js ''oldText must not be empty in '' @ path @ js ''.''
           else js ''edits['' @ show_nat i @ js ''].oldText must not be empty in '' @ path @ js ''.'')
      | NotFound i edit_count \<Rightarrow>
          (if edit_count = 1
           then js ''Could not find the exact text in '' @ path
                @ js ''. The old text must match exactly including all whitespace and newlines.''
           else js ''Could not find edits['' @ show_nat i @ js ''] in '' @ path
                @ js ''. The oldText must match exactly including all whitespace and newlines.'')
      | Duplicate i edit_count occurrences \<Rightarrow>
          (if edit_count = 1
           then js ''Found '' @ show_int occurrences @ js '' occurrences of the text in '' @ path
                @ js ''. The text must be unique. Please provide more context to make it unique.''
           else js ''Found '' @ show_int occurrences @ js '' occurrences of edits['' @ show_nat i @ js ''] in '' @ path
                @ js ''. Each oldText must be unique. Please provide more context to make it unique.'')
      | Overlap i j \<Rightarrow>
          js ''edits['' @ show_nat i @ js ''] and edits['' @ show_nat j @ js ''] overlap in '' @ path
          @ js ''. Merge them into one edit or target disjoint regions.''
      | NoChange edit_count \<Rightarrow>
          (if edit_count = 1
           then js ''No changes made to '' @ path @ js ''. The replacement produced identical content. This might indicate ''
                @ js ''an issue with special characters or the text not existing as expected.''
           else js ''No changes made to '' @ path @ js ''. The replacements produced identical content.''))"

section \<open>Applying edits\<close>

record edit =
  e_oldText :: jsstring
  e_newText :: jsstring

record matched_edit =
  m_editIndex :: nat
  m_matchIndex :: nat
  m_matchLength :: nat
  m_newText :: jsstring

definition normalized_edit :: "edit \<Rightarrow> edit" where
  "normalized_edit e = \<lparr>e_oldText = normalizeToLF (e_oldText e), e_newText = normalizeToLF (e_newText e)\<rparr>"

text \<open>The loop that matches the edits, from index \<open>i\<close> on.\<close>

fun match_edits ::
    "(jsstring \<Rightarrow> jsstring) \<Rightarrow> jsstring \<Rightarrow> nat \<Rightarrow> nat \<Rightarrow> edit list \<Rightarrow> edit_error + matched_edit list" where
  "match_edits nfkc base edit_count i [] = Inr []"
| "match_edits nfkc base edit_count i (e # es) =
     (let r = fuzzyFindText nfkc base (e_oldText e)
      in if \<not> fm_found r then Inl (NotFound i edit_count)
         else
           (let occurrences = countOccurrences nfkc base (e_oldText e)
            in if occurrences > 1 then Inl (Duplicate i edit_count occurrences)
               else
                 (case match_edits nfkc base edit_count (Suc i) es of
                    Inl err \<Rightarrow> Inl err
                  | Inr ms \<Rightarrow>
                      Inr (\<lparr>m_editIndex = i, m_matchIndex = fm_index r, m_matchLength = fm_matchLength r,
                            m_newText = e_newText e\<rparr> # ms))))"

fun first_overlap :: "matched_edit list \<Rightarrow> (nat \<times> nat) option" where
  "first_overlap (p # c # ms) =
     (if m_matchIndex p + m_matchLength p > m_matchIndex c then Some (m_editIndex p, m_editIndex c)
      else first_overlap (c # ms))"
| "first_overlap _ = None"

definition replace_match :: "matched_edit \<Rightarrow> jsstring \<Rightarrow> jsstring" where
  "replace_match m content =
     take (m_matchIndex m) content @ m_newText m @ drop (m_matchIndex m + m_matchLength m) content"

definition applyEditsToNormalizedContent ::
    "(jsstring \<Rightarrow> jsstring) \<Rightarrow> jsstring \<Rightarrow> edit list \<Rightarrow> edit_error + jsstring \<times> jsstring" where
  "applyEditsToNormalizedContent nfkc normalizedContent edits =
     (let es = map normalized_edit edits; edit_count = length es
      in case index_of (\<lambda>e. e_oldText e = []) es of
           Some i \<Rightarrow> Inl (EmptyOldText i edit_count)
         | None \<Rightarrow>
             (let base = (if \<exists>e \<in> set es. fm_usedFuzzyMatch (fuzzyFindText nfkc normalizedContent (e_oldText e))
                          then normalizeForFuzzyMatch nfkc normalizedContent else normalizedContent)
              in case match_edits nfkc base edit_count 0 es of
                   Inl err \<Rightarrow> Inl err
                 | Inr matches \<Rightarrow>
                     (let sorted_matches = sort_key m_matchIndex matches
                      in case first_overlap sorted_matches of
                           Some (i, j) \<Rightarrow> Inl (Overlap i j)
                         | None \<Rightarrow>
                             (let newContent = foldr replace_match sorted_matches base
                              in if base = newContent then Inl (NoChange edit_count) else Inr (base, newContent)))))"

section \<open>The diff\<close>

record diff_part =
  dp_value :: jsstring
  dp_added :: bool
  dp_removed :: bool

datatype diff_row =
    Added nat jsstring
  | Removed nat jsstring
  | Unchanged nat jsstring
  | Skipped

definition pad_start :: "nat \<Rightarrow> jsstring \<Rightarrow> jsstring" where
  "pad_start width s = replicate (width - length s) 32 @ s"

definition render_row :: "nat \<Rightarrow> diff_row \<Rightarrow> jsstring" where
  "render_row width r =
     (case r of
        Added n line \<Rightarrow> js ''+'' @ pad_start width (show_nat n) @ js '' '' @ line
      | Removed n line \<Rightarrow> js ''-'' @ pad_start width (show_nat n) @ js '' '' @ line
      | Unchanged n line \<Rightarrow> js '' '' @ pad_start width (show_nat n) @ js '' '' @ line
      | Skipped \<Rightarrow> js '' '' @ pad_start width [] @ js '' ...'')"

definition raw_lines :: "jsstring \<Rightarrow> jsstring list" where
  "raw_lines value = (let raw = split_on 10 value in if last raw = [] then butlast raw else raw)"

fun numbered :: "(nat \<Rightarrow> jsstring \<Rightarrow> diff_row) \<Rightarrow> nat \<Rightarrow> jsstring list \<Rightarrow> diff_row list" where
  "numbered row n [] = []"
| "numbered row n (l # ls) = row n l # numbered row (Suc n) ls"

text \<open>What is shown of an unchanged part that starts at line \<open>old\<close>.\<close>

definition context_rows :: "nat \<Rightarrow> bool \<Rightarrow> bool \<Rightarrow> nat \<Rightarrow> jsstring list \<Rightarrow> diff_row list" where
  "context_rows contextLines hasLeading hasTrailing old raw =
     (if hasLeading \<and> hasTrailing
      then (if length raw \<le> contextLines * 2 then numbered Unchanged old raw
            else numbered Unchanged old (take contextLines raw) @ [Skipped]
                 @ numbered Unchanged (old + (length raw - contextLines)) (drop (length raw - contextLines) raw))
      else if hasLeading
      then numbered Unchanged old (take contextLines raw) @ (if length raw > contextLines then [Skipped] else [])
      else if hasTrailing
      then (let skipped = length raw - contextLines
            in (if skipped > 0 then [Skipped] else []) @ numbered Unchanged (old + skipped) (drop skipped raw))
      else [])"

definition is_change :: "diff_part \<Rightarrow> bool" where
  "is_change p \<longleftrightarrow> dp_added p \<or> dp_removed p"

fun diff_rows ::
    "nat \<Rightarrow> diff_part list \<Rightarrow> nat \<Rightarrow> nat \<Rightarrow> bool \<Rightarrow> nat option \<Rightarrow> diff_row list \<times> nat option" where
  "diff_rows contextLines [] old new lastWasChange first = ([], first)"
| "diff_rows contextLines (p # ps) old new lastWasChange first =
     (let raw = raw_lines (dp_value p); n = length raw
      in if is_change p
         then
           (let first' = (case first of None \<Rightarrow> Some new | Some k \<Rightarrow> Some k)
            in if dp_added p
               then (case diff_rows contextLines ps old (new + n) True first' of
                       (rows, f) \<Rightarrow> (numbered Added new raw @ rows, f))
               else (case diff_rows contextLines ps (old + n) new True first' of
                       (rows, f) \<Rightarrow> (numbered Removed old raw @ rows, f)))
         else
           (let nextPartIsChange = (case ps of [] \<Rightarrow> False | q # _ \<Rightarrow> is_change q)
            in case diff_rows contextLines ps (old + n) (new + n) False first of
                 (rows, f) \<Rightarrow> (context_rows contextLines lastWasChange nextPartIsChange old raw @ rows, f)))"

definition generateDiffString ::
    "(jsstring \<Rightarrow> jsstring \<Rightarrow> diff_part list) \<Rightarrow> jsstring \<Rightarrow> jsstring \<Rightarrow> nat \<Rightarrow> jsstring \<times> nat option" where
  "generateDiffString diffLines oldContent newContent contextLines =
     (let width = length (show_nat (max (length (split_on 10 oldContent)) (length (split_on 10 newContent))))
      in case diff_rows contextLines (diffLines oldContent newContent) 1 1 False None of
           (rows, first) \<Rightarrow> (join_with nl (map (render_row width) rows), first))"

section \<open>The edit tool\<close>

record edit_result =
  er_written :: jsstring
  er_message :: jsstring
  er_diff :: jsstring
  er_firstChangedLine :: "nat option"

text \<open>From the text read to the text written, the message and the diff; or the message of the error.\<close>

definition edit_text ::
    "(jsstring \<Rightarrow> jsstring) \<Rightarrow> (jsstring \<Rightarrow> jsstring \<Rightarrow> diff_part list) \<Rightarrow> jsstring \<Rightarrow> edit list \<Rightarrow> jsstring
     \<Rightarrow> jsstring + edit_result" where
  "edit_text nfkc diffLines path edits rawContent =
     (if edits = [] then Inl (js ''Edit tool input is invalid. edits must contain at least one replacement.'')
      else
        (case stripBom rawContent of (bom, content) \<Rightarrow>
           (case applyEditsToNormalizedContent nfkc (normalizeToLF content) edits of
              Inl err \<Rightarrow> Inl (edit_error_message path err)
            | Inr (base, new) \<Rightarrow>
                (case generateDiffString diffLines base new 4 of (diff, first) \<Rightarrow>
                   Inr \<lparr>er_written = bom @ restoreLineEndings new (detectLineEnding content),
                        er_message = js ''Successfully replaced '' @ show_nat (length edits) @ js '' block(s) in '' @ path @ js ''.'',
                        er_diff = diff, er_firstChangedLine = first\<rparr>))))"

text \<open>\<open>execute\<close>: when the abort signal fires, and what the file operations answer (\<open>Inl\<close> an error message);
  the result and whether the file was written, and with what. Nothing is awaited between the end of
  the reading and the start of the writing.\<close>

datatype abort_time = NotAborted | AbortedBefore | DuringAccess | DuringRead | DuringWrite

record file_answers =
  fa_access :: "jsstring option"
  fa_read :: "jsstring + jsstring"
  fa_write :: "jsstring option"

definition edit_execute ::
    "(jsstring \<Rightarrow> jsstring) \<Rightarrow> (jsstring \<Rightarrow> jsstring \<Rightarrow> diff_part list) \<Rightarrow> jsstring \<Rightarrow> edit list \<Rightarrow> abort_time
     \<Rightarrow> file_answers \<Rightarrow> (jsstring + edit_result) \<times> jsstring option" where
  "edit_execute nfkc diffLines path edits abort answers =
     (if edits = [] then (Inl (js ''Edit tool input is invalid. edits must contain at least one replacement.''), None)
      else if abort = AbortedBefore \<or> abort = DuringAccess then (Inl (js ''Operation aborted''), None)
      else
        (case fa_access answers of
           Some m \<Rightarrow> (Inl (js ''Could not edit file: '' @ path @ js ''. '' @ m @ js ''.''), None)
         | None \<Rightarrow>
             if abort = DuringRead then (Inl (js ''Operation aborted''), None)
             else
               (case fa_read answers of
                  Inl m \<Rightarrow> (Inl m, None)
                | Inr rawContent \<Rightarrow>
                    (case edit_text nfkc diffLines path edits rawContent of
                       Inl m \<Rightarrow> (Inl m, None)
                     | Inr r \<Rightarrow>
                         if abort = DuringWrite then (Inl (js ''Operation aborted''), Some (er_written r))
                         else (case fa_write answers of
                                 Some m \<Rightarrow> (Inl m, Some (er_written r))
                               | None \<Rightarrow> (Inr r, Some (er_written r)))))))"

text \<open>The preview, \<open>computeEditsDiff\<close>: the same text without writing it.\<close>

definition preview_text ::
    "(jsstring \<Rightarrow> jsstring) \<Rightarrow> (jsstring \<Rightarrow> jsstring \<Rightarrow> diff_part list) \<Rightarrow> jsstring \<Rightarrow> edit list \<Rightarrow> jsstring
     \<Rightarrow> jsstring + jsstring \<times> nat option" where
  "preview_text nfkc diffLines path edits rawContent =
     (case applyEditsToNormalizedContent nfkc (normalizeToLF (snd (stripBom rawContent))) edits of
        Inl err \<Rightarrow> Inl (edit_error_message path err)
      | Inr (base, new) \<Rightarrow> Inr (generateDiffString diffLines base new 4))"

end
