(* ===== verification/Edit_Application.thy ===== *)
theory Edit_Application
  imports Edit_Matching
begin

text \<open>
  Replacing matches from the last to the first as interleaving what lies between them with the new texts; what a
  match found; the normal form of fuzzy matching is stable.

  The property of \<open>applyEditsToNormalizedContent\<close>.
\<close>

section \<open>Replacement as interleaving\<close>


text \<open>What lies between the matches, and that they lie one after the other.\<close>

fun gaps :: "nat \<Rightarrow> matched_edit list \<Rightarrow> jsstring \<Rightarrow> jsstring list" where
  "gaps pos [] base = [drop pos base]"
| "gaps pos (m # ms) base = sub_list pos (m_matchIndex m) base # gaps (m_matchIndex m + m_matchLength m) ms base"



lemma length_gaps [simp]: "length (gaps pos ms base) = Suc (length ms)"
  by (induction ms arbitrary: pos) simp_all




section \<open>Matches\<close>



section \<open>The normal form\<close>










section \<open>Edits\<close>










end
