(* ===== verification/Diff_Properties.thy ===== *)
theory Diff_Properties
  imports Edit_Matching
begin

text \<open>
  What \<open>diffLines\<close> promises (\<open>line_diff\<close>), and the lines of a text given in parts of whole lines.

  The rows of a diff: each shows the line it names.
\<close>

section \<open>What \<open>diffLines\<close> promises\<close>

text \<open>The parts are runs of whole lines: without the added ones they are the old text, without the
  removed ones the new text; only the last part of a text may lack its newline.\<close>

definition parts_text :: "(diff_part \<Rightarrow> bool) \<Rightarrow> diff_part list \<Rightarrow> jsstring" where
  "parts_text sel ps = concat (map dp_value (filter sel ps))"

fun whole_lines :: "(diff_part \<Rightarrow> bool) \<Rightarrow> diff_part list \<Rightarrow> bool" where
  "whole_lines sel [] \<longleftrightarrow> True"
| "whole_lines sel (p # ps) \<longleftrightarrow> (sel p \<longrightarrow> filter sel ps = [] \<or> last (dp_value p) = 10) \<and> whole_lines sel ps"

definition in_old :: "diff_part \<Rightarrow> bool" where
  "in_old p \<longleftrightarrow> \<not> dp_added p"

definition in_new :: "diff_part \<Rightarrow> bool" where
  "in_new p \<longleftrightarrow> \<not> dp_removed p"

definition line_diff :: "diff_part list \<Rightarrow> jsstring \<Rightarrow> jsstring \<Rightarrow> bool" where
  "line_diff ps old new \<longleftrightarrow>
     parts_text in_old ps = old \<and> parts_text in_new ps = new \<and> whole_lines in_old ps \<and> whole_lines in_new ps
     \<and> (\<forall>p \<in> set ps. dp_value p \<noteq> [] \<and> (in_old p \<or> in_new p))"

section \<open>Lines of a text in parts\<close>

lemma split_on_snoc: "split_on c (s @ c # t) = split_on c s @ split_on c t"
  by (induction s) (auto split: list.splits simp: neq_Nil_conv)

lemma length_split: "length (split_on c s) = Suc (count_list s c)"
  by (induction s) (auto split: list.splits)

lemma split_on_extend: "u \<noteq> c \<Longrightarrow> split_on c (w @ [u]) = butlast (split_on c w) @ [last (split_on c w) @ [u]]"
proof (induction w)
  case (Cons x w)
  obtain l ls where "split_on c w = l # ls" by (cases "split_on c w") simp_all
  with Cons show ?case by (cases ls) auto
qed simp

lemma split_last_end:
  assumes "s \<noteq> []"
  shows "last (split_on c s) = [] \<longleftrightarrow> last s = c"
proof -
  obtain w u where s: "s = w @ [u]" using assms by (metis append_butlast_last_id)
  show ?thesis
  proof (cases "u = c")
    case True
    then show ?thesis unfolding s by (simp add: split_on_snoc)
  next
    case False
    then show ?thesis unfolding s split_on_extend [OF False] by simp
  qed
qed

lemma raw_lines_terminated: "raw_lines (v @ [10]) = split_on 10 v"
  by (simp add: raw_lines_def split_on_snoc Let_def)

lemma raw_lines_open: "v \<noteq> [] \<Longrightarrow> last v \<noteq> 10 \<Longrightarrow> raw_lines v = split_on 10 v"
  by (simp add: raw_lines_def split_last_end Let_def)

text \<open>The line after the text \<open>x\<close>, which ends with a newline.\<close>

definition line_at :: "jsstring \<Rightarrow> nat \<Rightarrow> bool" where
  "line_at x n \<longleftrightarrow> (x = [] \<or> last x = 10) \<and> n = Suc (count_list x 10)"

lemma split_after: "line_at x n \<Longrightarrow> split_on 10 (x @ y) = take (n - 1) (split_on 10 (x @ y)) @ split_on 10 y \<and> 1 \<le> n"
proof -
  assume l: "line_at x n"
  show ?thesis
  proof (cases "x = []")
    case True
    with l show ?thesis by (simp add: line_at_def)
  next
    case False
    with l obtain z where z: "x = z @ [10]" by (metis append_butlast_last_id line_at_def)
    with l have "n = Suc (length (split_on 10 z))" by (simp add: line_at_def length_split)
    with z show ?thesis by (simp add: split_on_snoc)
  qed
qed

text \<open>The lines of a part are lines of the text, and where the next part starts.\<close>

lemma part_lines:
  assumes "line_at x n" "v \<noteq> []" "rest = [] \<or> last v = 10" "j < length (raw_lines v)"
  shows "1 \<le> n + j \<and> n + j \<le> length (split_on 10 (x @ v @ rest)) \<and> split_on 10 (x @ v @ rest) ! (n + j - 1) = raw_lines v ! j"
proof -
  have raw: "\<exists>tail. split_on 10 (v @ rest) = raw_lines v @ tail"
  proof (cases "last v = 10")
    case True
    with assms(2) obtain w where w: "v = w @ [10]" by (metis append_butlast_last_id)
    then show ?thesis by (simp add: split_on_snoc raw_lines_terminated)
  next
    case False
    with assms(2,3) show ?thesis by (simp add: raw_lines_open)
  qed
  then obtain tail where tail: "split_on 10 (v @ rest) = raw_lines v @ tail" by blast
  let ?s = "split_on 10 (x @ v @ rest)"
  from split_after [OF assms(1), of "v @ rest"] tail have s: "?s = take (n - 1) ?s @ raw_lines v @ tail" "1 \<le> n" by simp_all
  have "length (take (n - 1) ?s) = n - 1"
  proof -
    have "length ?s = length (take (n - 1) ?s) + length (raw_lines v @ tail)" using s(1) by (metis length_append)
    with assms(4) show ?thesis by simp
  qed
  moreover define t where "t = take (n - 1) ?s"
  ultimately have t: "?s = t @ raw_lines v @ tail" "length t = n - 1" "1 \<le> n" using s by simp_all
  have "?s ! (length t + j) = raw_lines v ! j" unfolding t(1) using assms(4) by (simp add: nth_append)
  moreover have "length t + j < length ?s" unfolding t(1) using assms(4) by simp
  moreover have "length t + j = n + j - 1" "1 \<le> n + j" using t(2,3) by simp_all
  ultimately show ?thesis by (metis Suc_leI Suc_pred' less_eq_Suc_le One_nat_def)
qed

lemma next_part:
  assumes "line_at x n" "v \<noteq> []" "last v = 10"
  shows "line_at (x @ v) (n + length (raw_lines v))"
proof -
  obtain w where w: "v = w @ [10]" using assms(2,3) by (metis append_butlast_last_id)
  with assms(1) show ?thesis by (simp add: line_at_def raw_lines_terminated length_split)
qed

section \<open>Rows\<close>

text \<open>A row shows the line it names: of the new text when added, of the old text otherwise.\<close>

definition row_ok :: "jsstring \<Rightarrow> jsstring \<Rightarrow> diff_row \<Rightarrow> bool" where
  "row_ok old new r \<longleftrightarrow>
     (case r of
        Added n l \<Rightarrow> 1 \<le> n \<and> n \<le> length (split_on 10 new) \<and> split_on 10 new ! (n - 1) = l
      | Removed n l \<Rightarrow> 1 \<le> n \<and> n \<le> length (split_on 10 old) \<and> split_on 10 old ! (n - 1) = l
      | Unchanged n l \<Rightarrow> 1 \<le> n \<and> n \<le> length (split_on 10 old) \<and> split_on 10 old ! (n - 1) = l
      | Skipped \<Rightarrow> True)"

definition shown :: "(diff_row \<Rightarrow> jsstring option) \<Rightarrow> diff_row list \<Rightarrow> jsstring list" where
  "shown f rows = concat (map (\<lambda>r. case f r of None \<Rightarrow> [] | Some l \<Rightarrow> [l]) rows)"

definition added_line :: "diff_row \<Rightarrow> jsstring option" where
  "added_line r = (case r of Added n l \<Rightarrow> Some l | _ \<Rightarrow> None)"

definition removed_line :: "diff_row \<Rightarrow> jsstring option" where
  "removed_line r = (case r of Removed n l \<Rightarrow> Some l | _ \<Rightarrow> None)"

lemma shown_append [simp]: "shown f (xs @ ys) = shown f xs @ shown f ys"
  by (simp add: shown_def)

lemma set_numbered: "r \<in> set (numbered row n ls) \<longleftrightarrow> (\<exists>j < length ls. r = row (n + j) (ls ! j))"
proof (induction ls arbitrary: n)
  case (Cons l ls)
  have "(\<exists>j < length (l # ls). r = row (n + j) ((l # ls) ! j)) \<longleftrightarrow> r = row n l \<or> (\<exists>j < length ls. r = row (Suc n + j) (ls ! j))"
    by (simp add: Ex_less_Suc2)
  with Cons.IH [of "Suc n"] show ?case by simp
qed simp

lemma numbered_drop: "k \<le> length ls \<Longrightarrow> numbered row (n + k) (drop k ls) = drop k (numbered row n ls)"
proof (induction ls arbitrary: k n)
  case (Cons l ls)
  then show ?case using Cons.IH [of _ "Suc n"] by (cases k) simp_all
qed simp

lemma numbered_take: "numbered row n (take k ls) = take k (numbered row n ls)"
proof (induction ls arbitrary: k n)
  case (Cons l ls)
  then show ?case by (cases k) simp_all
qed simp

lemma context_rows_set:
  assumes "r \<in> set (context_rows c lead trail old raw)"
  shows "r = Skipped \<or> (\<exists>j < length raw. r = Unchanged (old + j) (raw ! j))"
proof -
  have "r = Skipped \<or> r \<in> set (numbered Unchanged old raw)"
    using assms in_set_takeD [of r c "numbered Unchanged old raw"] in_set_dropD [of r "length raw - c" "numbered Unchanged old raw"]
      numbered_drop [of "length raw - c" raw Unchanged old]
    by (auto simp: context_rows_def Let_def numbered_take split: if_splits)
  then show ?thesis by (simp add: set_numbered)
qed

lemma shown_none: "\<forall>r \<in> set rows. f r = None \<Longrightarrow> shown f rows = []"
  by (simp add: shown_def)

lemma shown_context: "shown added_line (context_rows c a b o' raw) = []" "shown removed_line (context_rows c a b o' raw) = []"
  by (rule shown_none, auto dest!: context_rows_set simp: added_line_def removed_line_def)+

lemma shown_numbered:
  "shown added_line (numbered Added n ls) = ls" "shown removed_line (numbered Added n ls) = []"
  "shown removed_line (numbered Removed n ls) = ls" "shown added_line (numbered Removed n ls) = []"
  by (induction ls arbitrary: n) (simp_all add: shown_def added_line_def removed_line_def)

lemma parts_text_Cons: "parts_text sel (p # ps) = (if sel p then dp_value p else []) @ parts_text sel ps"
  by (simp add: parts_text_def)

lemma parts_text_last: "sel p \<Longrightarrow> whole_lines sel (p # ps) \<Longrightarrow> parts_text sel ps = [] \<or> last (dp_value p) = 10"
  unfolding parts_text_def whole_lines.simps by (metis concat.simps(1) list.simps(8))

text \<open>After a part that is in a text, the text's next line starts there, if the text goes on.\<close>

lemma advance:
  assumes "sel p" "whole_lines sel (p # ps)" "dp_value p \<noteq> []" "line_at x n"
  shows "filter sel ps \<noteq> [] \<longrightarrow> line_at (x @ dp_value p) (n + length (raw_lines (dp_value p)))"
  using assms next_part by auto

lemma diff_rows_ok:
  assumes "old = xo @ parts_text in_old ps" "new = xn @ parts_text in_new ps" "whole_lines in_old ps" "whole_lines in_new ps"
    "\<forall>p \<in> set ps. dp_value p \<noteq> [] \<and> (in_old p \<or> in_new p)"
    "filter in_old ps \<noteq> [] \<longrightarrow> line_at xo o'" "filter in_new ps \<noteq> [] \<longrightarrow> line_at xn n'"
  shows "(\<forall>r \<in> set (fst (diff_rows c ps o' n' lw f)). row_ok old new r)
    \<and> shown added_line (fst (diff_rows c ps o' n' lw f)) = concat (map (raw_lines \<circ> dp_value) (filter dp_added ps))
    \<and> shown removed_line (fst (diff_rows c ps o' n' lw f)) = concat (map (raw_lines \<circ> dp_value) (filter dp_removed ps))"
  using assms
proof (induction ps arbitrary: xo xn o' n' lw f)
  case Nil
  then show ?case by (simp add: shown_def)
next
  case (Cons p ps)
  let ?raw = "raw_lines (dp_value p)"
  have v: "dp_value p \<noteq> []" using Cons.prems(5) by simp
  have tail: "whole_lines in_old ps" "whole_lines in_new ps" "\<forall>p \<in> set ps. dp_value p \<noteq> [] \<and> (in_old p \<or> in_new p)"
    using Cons.prems(3-5) by simp_all
  have old_line: "1 \<le> o' + j \<and> o' + j \<le> length (split_on 10 old) \<and> split_on 10 old ! (o' + j - 1) = ?raw ! j"
    if "in_old p" "j < length ?raw" for j
    using part_lines [OF _ v _ that(2), of xo o' "parts_text in_old ps"] Cons.prems(1,3,6) that(1)
      parts_text_last [of in_old p ps] by (simp add: parts_text_Cons)
  have new_line: "1 \<le> n' + j \<and> n' + j \<le> length (split_on 10 new) \<and> split_on 10 new ! (n' + j - 1) = ?raw ! j"
    if "in_new p" "j < length ?raw" for j
    using part_lines [OF _ v _ that(2), of xn n' "parts_text in_new ps"] Cons.prems(2,4,7) that(1)
      parts_text_last [of in_new p ps] by (simp add: parts_text_Cons)
  consider (added) "dp_added p" "\<not> dp_removed p" | (removed) "\<not> dp_added p" "dp_removed p" | (same) "\<not> dp_added p" "\<not> dp_removed p"
    using Cons.prems(5) by (auto simp: in_old_def in_new_def)
  then show ?case
  proof cases
    case added
    then have sel: "in_new p" "\<not> in_old p" by (simp_all add: in_old_def in_new_def)
    define f' where "f' = (case f of None \<Rightarrow> Some n' | Some k \<Rightarrow> Some k)"
    have "old = xo @ parts_text in_old ps" "new = (xn @ dp_value p) @ parts_text in_new ps"
      "filter in_old ps \<noteq> [] \<longrightarrow> line_at xo o'"
      "filter in_new ps \<noteq> [] \<longrightarrow> line_at (xn @ dp_value p) (n' + length ?raw)"
      using Cons.prems sel advance [of in_new p ps xn n'] v by (simp_all add: parts_text_Cons)
    from Cons.IH [OF this(1,2) tail this(3,4), of True f'] new_line [OF sel(1)] added show ?thesis
      by (auto simp: is_change_def Let_def f'_def [symmetric] shown_numbered set_numbered row_ok_def split: prod.split)
  next
    case removed
    then have sel: "\<not> in_new p" "in_old p" by (simp_all add: in_old_def in_new_def)
    define f' where "f' = (case f of None \<Rightarrow> Some n' | Some k \<Rightarrow> Some k)"
    have "old = (xo @ dp_value p) @ parts_text in_old ps" "new = xn @ parts_text in_new ps"
      "filter in_old ps \<noteq> [] \<longrightarrow> line_at (xo @ dp_value p) (o' + length ?raw)"
      "filter in_new ps \<noteq> [] \<longrightarrow> line_at xn n'"
      using Cons.prems sel advance [of in_old p ps xo o'] v by (simp_all add: parts_text_Cons)
    from Cons.IH [OF this(1,2) tail this(3,4), of True f'] old_line [OF sel(2)] removed show ?thesis
      by (auto simp: is_change_def Let_def f'_def [symmetric] shown_numbered set_numbered row_ok_def split: prod.split)
  next
    case same
    then have sel: "in_new p" "in_old p" by (simp_all add: in_old_def in_new_def)
    have "old = (xo @ dp_value p) @ parts_text in_old ps" "new = (xn @ dp_value p) @ parts_text in_new ps"
      "filter in_old ps \<noteq> [] \<longrightarrow> line_at (xo @ dp_value p) (o' + length ?raw)"
      "filter in_new ps \<noteq> [] \<longrightarrow> line_at (xn @ dp_value p) (n' + length ?raw)"
      using Cons.prems sel advance [of in_old p ps xo o'] advance [of in_new p ps xn n'] v by (simp_all add: parts_text_Cons)
    note ih = Cons.IH [OF this(1,2) tail this(3,4), of False f]
    let ?trail = "case ps of [] \<Rightarrow> False | q # _ \<Rightarrow> is_change q"
    have rows: "fst (diff_rows c (p # ps) o' n' lw f)
        = context_rows c lw ?trail o' ?raw @ fst (diff_rows c ps (o' + length ?raw) (n' + length ?raw) False f)"
      using same by (simp add: is_change_def Let_def split: prod.split)
    have "row_ok old new r" if "r \<in> set (context_rows c lw ?trail o' ?raw)" for r
      using context_rows_set [OF that] old_line [OF sel(2)] by (auto simp: row_ok_def)
    with ih same show ?thesis unfolding rows by (auto simp: shown_context)
  qed
qed

section \<open>The first changed line\<close>

lemma lines_before: "line_at x n \<Longrightarrow> take (n - 1) (split_on 10 (x @ y)) = butlast (split_on 10 x)"
proof -
  assume l: "line_at x n"
  show ?thesis
  proof (cases "x = []")
    case True
    with l show ?thesis by (simp add: line_at_def)
  next
    case False
    with l obtain z where z: "x = z @ [10]" by (metis append_butlast_last_id line_at_def)
    with l have "n - 1 = length (split_on 10 z)" by (simp add: line_at_def length_split)
    with z show ?thesis by (simp add: split_on_snoc)
  qed
qed

lemma first_kept: "snd (diff_rows c ps o' n' lw (Some k)) = Some k"
  by (induction ps arbitrary: o' n' lw) (auto simp: Let_def split: prod.split, (metis snd_conv)+)

lemma first_changed:
  assumes "old = x @ parts_text in_old ps" "new = x @ parts_text in_new ps" "whole_lines in_old ps" "whole_lines in_new ps"
    "\<forall>p \<in> set ps. dp_value p \<noteq> [] \<and> (in_old p \<or> in_new p)" "ps \<noteq> [] \<longrightarrow> line_at x n'"
    "snd (diff_rows c ps n' n' lw None) = Some k"
  shows "1 \<le> k \<and> take (k - 1) (split_on 10 old) = take (k - 1) (split_on 10 new)"
  using assms
proof (induction ps arbitrary: x n' lw)
  case (Cons p ps)
  have l: "line_at x n'" using Cons.prems(6) by simp
  show ?case
  proof (cases "is_change p")
    case True
    then have "snd (diff_rows c (p # ps) n' n' lw None) = Some n'"
      using first_kept by (auto simp: Let_def split: prod.split) (metis snd_conv)+
    with Cons.prems(7) have "k = n'" by simp
    with lines_before [OF l] Cons.prems(1,2) l show ?thesis by (simp add: line_at_def)
  next
    case False
    then have sel: "in_old p" "in_new p" by (auto simp: is_change_def in_old_def in_new_def)
    have "ps \<noteq> [] \<longrightarrow> line_at (x @ dp_value p) (n' + length (raw_lines (dp_value p)))"
    proof
      assume "ps \<noteq> []"
      then have "filter in_old ps \<noteq> [] \<or> filter in_new ps \<noteq> []" using Cons.prems(5) by (cases ps) auto
      with advance [of in_old p ps x n'] advance [of in_new p ps x n'] sel Cons.prems l
      show "line_at (x @ dp_value p) (n' + length (raw_lines (dp_value p)))" by auto
    qed
    moreover have "snd (diff_rows c ps (n' + length (raw_lines (dp_value p))) (n' + length (raw_lines (dp_value p))) False None) = Some k"
      using Cons.prems(7) False by (auto simp: Let_def split: prod.splits)
    ultimately show ?thesis using Cons.prems sel
      by (intro Cons.IH [of "x @ dp_value p" "n' + length (raw_lines (dp_value p))" False]) (simp_all add: parts_text_Cons)
  qed
qed simp

section \<open>Properties\<close>

text \<open>The diff names and shows lines as they are: every added row is that line of the new text, every
  other row that line of the old text, all added and removed lines are shown in order, and before
  the first changed line the texts are the same.\<close>

theorem diff_shows_lines:
  assumes "line_diff (diffLines old new) old new" "generateDiffString diffLines old new contextLines = (diff, first)"
  shows "\<exists>rows width. diff = join_with nl (map (render_row width) rows)
    \<and> (\<forall>r \<in> set rows. row_ok old new r)
    \<and> shown added_line rows = concat (map (raw_lines \<circ> dp_value) (filter dp_added (diffLines old new)))
    \<and> shown removed_line rows = concat (map (raw_lines \<circ> dp_value) (filter dp_removed (diffLines old new)))
    \<and> (\<forall>k. first = Some k \<longrightarrow> take (k - 1) (split_on 10 old) = take (k - 1) (split_on 10 new))"
proof -
  let ?ps = "diffLines old new"
  obtain rows f where r: "diff_rows contextLines ?ps 1 1 False None = (rows, f)" by fastforce
  define width where "width = length (show_nat (max (length (split_on 10 old)) (length (split_on 10 new))))"
  have d: "diff = join_with nl (map (render_row width) rows)" "first = f"
    using assms(2) r by (simp_all add: generateDiffString_def Let_def width_def)
  have l: "line_at [] 1" by (simp add: line_at_def)
  from assms(1) have ps: "old = [] @ parts_text in_old ?ps" "new = [] @ parts_text in_new ?ps" "whole_lines in_old ?ps"
    "whole_lines in_new ?ps" "\<forall>p \<in> set ?ps. dp_value p \<noteq> [] \<and> (in_old p \<or> in_new p)"
    by (simp_all add: line_diff_def)
  from diff_rows_ok [OF ps, of 1 1 contextLines False None] r l
    first_changed [OF ps, of 1 contextLines False] d show ?thesis
    by (intro exI [of _ rows] exI [of _ width]) simp
qed

theorem diff_shows_lines_witness:
  "\<exists>rows width. fst (generateDiffString (\<lambda>_ _. [\<lparr>dp_value = [97, 10], dp_added = False, dp_removed = False\<rparr>,
       \<lparr>dp_value = [98, 10], dp_added = False, dp_removed = True\<rparr>, \<lparr>dp_value = [99], dp_added = True, dp_removed = False\<rparr>])
       [97, 10, 98, 10] [97, 10, 99] 4) = join_with nl (map (render_row width) rows)
     \<and> (\<forall>r \<in> set rows. row_ok [97, 10, 98, 10] [97, 10, 99] r) \<and> shown added_line rows = [[99]]"
proof -
  let ?d = "\<lambda>_ _. [\<lparr>dp_value = [97, 10], dp_added = False, dp_removed = False\<rparr>,
    \<lparr>dp_value = [98, 10], dp_added = False, dp_removed = True\<rparr>, \<lparr>dp_value = [99], dp_added = True, dp_removed = False\<rparr>]"
  have l: "line_diff (?d [97, 10, 98, 10] [97, 10, 99]) [97, 10, 98, 10] [97, 10, 99]"
    by (simp add: line_diff_def parts_text_def in_old_def in_new_def)
  have a: "concat (map (raw_lines \<circ> dp_value) (filter dp_added (?d [97, 10, 98, 10] [97, 10, 99]))) = [[99]]"
    by (simp add: raw_lines_def)
  show ?thesis using diff_shows_lines [of ?d, OF l surjective_pairing, of 4] unfolding a by blast
qed

end
