(* ===== verification/Edit_Properties.thy ===== *)
theory Edit_Properties
  imports Edit_Application Diff_Properties
begin

text \<open>
  The edit tool on the text of a file: line endings and byte order mark are kept; old texts of white space.
\<close>

section \<open>Line endings and byte order mark\<close>

lemma replace_crlf_restored: "13 \<notin> set t \<Longrightarrow> replace_crlf (concat (map (\<lambda>u. if u = 10 then [13, 10] else [u]) t)) = t"
proof (induction t)
  case (Cons u t)
  let ?r = "concat (map (\<lambda>u. if u = 10 then [13, 10] else [u]) t)"
  have ne: "?r \<noteq> [] \<Longrightarrow> replace_crlf (u # ?r) = u # replace_crlf ?r" if "u \<noteq> 13" for u
    using that by (cases ?r) simp_all
  show ?case
  proof (cases "?r = []")
    case True
    then have "t = []" by (cases t) (auto split: if_splits)
    with Cons show ?thesis by simp
  next
    case False
    with Cons ne [of u] show ?thesis by auto
  qed
qed simp

lemma replace_crlf_none: "13 \<notin> set t \<Longrightarrow> replace_crlf t = t"
  by (induction t rule: replace_crlf.induct) auto

lemma no_cr: "13 \<notin> set t \<Longrightarrow> map (\<lambda>u. if u = 13 then 10 else u) t = t"
  by (induction t) auto

lemma normalize_restored: "13 \<notin> set t \<Longrightarrow> normalizeToLF (restoreLineEndings t e) = t"
  by (cases e) (simp_all add: normalizeToLF_def restoreLineEndings_def replace_crlf_restored replace_crlf_none no_cr)

lemma indexOf_unit: "indexOf s [u] = index_of (\<lambda>x. x = u) s"
  by (induction s) auto

lemma indexOf_no_cr: "13 \<notin> set t \<Longrightarrow> indexOf t [13, 10] = None"
proof (induction t)
  case (Cons x t)
  then show ?case by (cases t) auto
qed simp

lemma indexOf_restored:
  assumes "13 \<notin> set t" "10 \<in> set t"
  shows "\<exists>i. indexOf (restoreLineEndings t CRLF) [13, 10] = Some i \<and> indexOf (restoreLineEndings t CRLF) [10] = Some (Suc i)"
  using assms
proof (induction t)
  case (Cons u t)
  show ?case
  proof (cases "u = 10")
    case True
    then show ?thesis by (simp add: restoreLineEndings_def)
  next
    case False
    with Cons obtain i where "indexOf (restoreLineEndings t CRLF) [13, 10] = Some i"
      "indexOf (restoreLineEndings t CRLF) [10] = Some (Suc i)" by auto
    with False Cons.prems show ?thesis by (simp add: restoreLineEndings_def)
  qed
qed simp

lemma detect_restored: "13 \<notin> set t \<Longrightarrow> 10 \<in> set t \<or> e = LF \<Longrightarrow> detectLineEnding (restoreLineEndings t e) = e"
proof (cases e)
  case LF
  then show "13 \<notin> set t \<Longrightarrow> ?thesis"
    using indexOf_no_cr [of t] by (simp add: detectLineEnding_def restoreLineEndings_def split: option.splits)
next
  case CRLF
  assume "13 \<notin> set t" "10 \<in> set t \<or> e = LF"
  with CRLF indexOf_restored [of t] obtain i where "indexOf (restoreLineEndings t CRLF) [13, 10] = Some i"
    "indexOf (restoreLineEndings t CRLF) [10] = Some (Suc i)" by auto
  with CRLF show ?thesis by (simp add: detectLineEnding_def)
qed

section \<open>The edit tool\<close>

text \<open>A file whose lines end alike keeps its line ending and its byte order mark: with the text \<open>t\<close> of the
  file, the tool writes the edited text with the same ending and mark.\<close>

theorem edit_keeps_endings:
  assumes "edit_text nfkc diffLines path edits (bom @ restoreLineEndings t e) = Inr r"
    and "13 \<notin> set t" "10 \<in> set t \<or> e = LF"
    and "bom = [65279] \<or> bom = [] \<and> take 1 t \<noteq> [65279]"
  shows "\<exists>base new. applyEditsToNormalizedContent nfkc t edits = Inr (base, new)
    \<and> er_written r = bom @ restoreLineEndings new e
    \<and> generateDiffString diffLines base new 4 = (er_diff r, er_firstChangedLine r)"
proof -
  have "take 1 (restoreLineEndings t e) = [65279] \<Longrightarrow> take 1 t = [65279]"
    by (cases t; cases e) (auto simp: restoreLineEndings_def split: if_splits)
  with assms(4) have "stripBom (bom @ restoreLineEndings t e) = (bom, restoreLineEndings t e)" by (auto simp: stripBom_def)
  with assms(1) show ?thesis
    by (auto simp: edit_text_def normalize_restored [OF assms(2)] detect_restored [OF assms(2,3)]
        split: if_splits sum.splits prod.splits)
qed


theorem edit_keeps_endings_witness:
  "\<exists>base new. applyEditsToNormalizedContent (\<lambda>s. s) [97, 10, 98] [\<lparr>e_oldText = [98], e_newText = [99]\<rparr>] = Inr (base, new)
     \<and> er_written (projr (edit_text (\<lambda>s. s) (\<lambda>_ _. []) [] [\<lparr>e_oldText = [98], e_newText = [99]\<rparr>] [65279, 97, 13, 10, 98]))
       = [65279] @ restoreLineEndings new CRLF"
proof -
  let ?edits = "[\<lparr>e_oldText = [98], e_newText = [99]\<rparr>]"
  have n: "normalizeForFuzzyMatch (\<lambda>s. s) [97, 10, 98] = [97, 10, 98]" "normalizeForFuzzyMatch (\<lambda>s. s) [98] = [98]"
    by (simp_all add: normalizeForFuzzyMatch_def ascii_space_def ascii_dash_def ascii_quotes_def trim_end_def
        is_js_space_def js_def)
  have c: "countOccurrences (\<lambda>s. s) [97, 10, 98] [98] = 1"
    by (simp add: countOccurrences_def n split_str.simps [of "[97, 10, 98]"] split_str.simps [of "[]"])
  have a: "applyEditsToNormalizedContent (\<lambda>s. s) [97, 10, 98] ?edits = Inr ([97, 10, 98], [97, 10, 99])"
    by (simp add: applyEditsToNormalizedContent_def normalized_edit_def normalizeToLF_def fuzzyFindText_def
        replace_match_def c Let_def)
  have raw: "[65279, 97, 13, 10, 98] = [65279] @ restoreLineEndings [97, 10, 98] CRLF" by (simp add: restoreLineEndings_def)
  obtain d f where "generateDiffString (\<lambda>_ _. []) [97, 10, 98] [97, 10, 99] 4 = (d, f)" by fastforce
  then obtain r where r: "edit_text (\<lambda>s. s) (\<lambda>_ _. []) [] ?edits [65279, 97, 13, 10, 98] = Inr r"
    using a by (simp add: edit_text_def stripBom_def normalizeToLF_def)
  from edit_keeps_endings [OF r [unfolded raw]] show ?thesis unfolding r by simp blast
qed

text \<open>An edit that fails has not touched the file, unless it was writing it: then it failed to write or was
  aborted meanwhile. One that succeeds wrote what it reports.\<close>

theorem failed_edit_keeps_file:
  assumes "edit_execute nfkc diffLines path edits abort answers = (res, written)"
  shows "case res of
      Inl m \<Rightarrow> written \<noteq> None \<longrightarrow> abort = DuringWrite \<and> m = js ''Operation aborted'' \<or> fa_write answers = Some m
    | Inr r \<Rightarrow> written = Some (er_written r) \<and> abort = NotAborted
        \<and> (\<exists>raw. fa_read answers = Inr raw \<and> edit_text nfkc diffLines path edits raw = Inr r)"
  using assms by (cases abort) (auto simp: edit_execute_def split: if_splits option.splits sum.splits)

section \<open>Old texts of white space\<close>

text \<open>White space has the empty normal form, which occurs between any two code units: an edit of the one
  tab in a text is refused as ambiguous, and an old text that is not there at all is found at the start.\<close>

theorem white_space_edits:
  "applyEditsToNormalizedContent (\<lambda>s. s) [97, 9, 98, 99] [\<lparr>e_oldText = [9], e_newText = [32]\<rparr>] = Inl (Duplicate 0 1 3)"
  "applyEditsToNormalizedContent (\<lambda>s. s) [97] [\<lparr>e_oldText = [9], e_newText = [120]\<rparr>] = Inr ([97], [120, 97])"
proof -
  note defs = normalizeForFuzzyMatch_def ascii_space_def ascii_dash_def ascii_quotes_def trim_end_def is_js_space_def
  have n: "normalizeForFuzzyMatch (\<lambda>s. s) [97, 9, 98, 99] = [97, 9, 98, 99]" "normalizeForFuzzyMatch (\<lambda>s. s) [9] = []"
    "normalizeForFuzzyMatch (\<lambda>s. s) [97] = [97]"
    by (simp_all add: defs)
  have c: "countOccurrences (\<lambda>s. s) [97, 9, 98, 99] [9] = 3" "countOccurrences (\<lambda>s. s) [97] [9] = 0"
    by (simp_all add: countOccurrences_def n split_str.simps [of _ "[]"])
  show "applyEditsToNormalizedContent (\<lambda>s. s) [97, 9, 98, 99] [\<lparr>e_oldText = [9], e_newText = [32]\<rparr>] = Inl (Duplicate 0 1 3)"
    "applyEditsToNormalizedContent (\<lambda>s. s) [97] [\<lparr>e_oldText = [9], e_newText = [120]\<rparr>] = Inr ([97], [120, 97])"
    by (simp_all add: applyEditsToNormalizedContent_def normalized_edit_def normalizeToLF_def fuzzyFindText_def
        replace_match_def c n Let_def)
qed

end
