(* ===== verification/Context_Overflow.thy ===== *)
theory Context_Overflow
  imports Js_Prelude Summarization
begin

text \<open>
  The regular expressions of the language, as far as the error classification uses them: no
  groups to capture, no look-around, the flag \<open>i\<close>. A test is by derivatives, and
  \<open>test_anywhere_iff\<close> states what it decides.

  What an error message of a provider means: \<open>packages/ai/src/utils/overflow.ts\<close>, the
  patterns of context overflow and \<open>isContextOverflow\<close>, and the test of
  \<open>packages/coding-agent/src/core/agent-session.ts\<close> for errors worth a retry.
\<close>

section \<open>Patterns\<close>

text \<open>
  A class of code units; letters are matched without case, which for these ASCII patterns
  is the folding of the 26 letters (a flag \<open>i\<close> without \<open>u\<close> maps no other unit to them).
\<close>

datatype unit_class = OneUnit char | AnyOf string | AnyDigit | AnySpace | AnyUnit

definition fold_case :: "16 word \<Rightarrow> 16 word" where
  "fold_case u = (if 65 \<le> u \<and> u \<le> 90 then u + 32 else u)"

definition is_line_end :: "16 word \<Rightarrow> bool" where
  "is_line_end u \<longleftrightarrow> u = 10 \<or> u = 13 \<or> u = 0x2028 \<or> u = 0x2029"

fun in_class :: "unit_class \<Rightarrow> 16 word \<Rightarrow> bool" where
  "in_class (OneUnit c) u = (fold_case u = fold_case (of_char c))"
| "in_class (AnyOf cs) u = (fold_case u \<in> set (map (fold_case \<circ> of_char) cs))"
| "in_class AnyDigit u = (48 \<le> u \<and> u \<le> 57)"
| "in_class AnySpace u = is_js_space u"
| "in_class AnyUnit u = (\<not> is_line_end u)"

datatype regex =
    RxNever
  | RxEmpty
  | RxOne unit_class
  | RxChoice regex regex
  | RxSeq regex regex
  | RxStar regex

text \<open>The patterns' notation: a text, \<open>r?\<close>, \<open>r+\<close>, \<open>r\<^sub>1r\<^sub>2\<dots>\<close> and \<open>r\<^sub>1|r\<^sub>2|\<dots>\<close>.\<close>

fun rx_seq :: "regex list \<Rightarrow> regex" where
  "rx_seq [] = RxEmpty"
| "rx_seq [r] = r"
| "rx_seq (r # rs) = RxSeq r (rx_seq rs)"

fun rx_alt :: "regex list \<Rightarrow> regex" where
  "rx_alt [] = RxNever"
| "rx_alt [r] = r"
| "rx_alt (r # rs) = RxChoice r (rx_alt rs)"

definition rx_lit :: "string \<Rightarrow> regex" where
  "rx_lit s = rx_seq (map (RxOne \<circ> OneUnit) s)"

definition rx_opt :: "regex \<Rightarrow> regex" where
  "rx_opt r = RxChoice r RxEmpty"

definition rx_many1 :: "regex \<Rightarrow> regex" where
  "rx_many1 r = RxSeq r (RxStar r)"

section \<open>Matching\<close>

inductive rx_matches :: "regex \<Rightarrow> jsstring \<Rightarrow> bool" where
  RxEmpty: "rx_matches RxEmpty []"
| RxOne: "in_class c u \<Longrightarrow> rx_matches (RxOne c) [u]"
| RxChoice1: "rx_matches r s \<Longrightarrow> rx_matches (RxChoice r q) s"
| RxChoice2: "rx_matches q s \<Longrightarrow> rx_matches (RxChoice r q) s"
| RxSeq: "rx_matches r s \<Longrightarrow> rx_matches q t \<Longrightarrow> rx_matches (RxSeq r q) (s @ t)"
| RxRepeat0: "rx_matches (RxStar r) []"
| RxRepeat1: "rx_matches r s \<Longrightarrow> rx_matches (RxStar r) t \<Longrightarrow> rx_matches (RxStar r) (s @ t)"

inductive_simps rx_matches_simps [simp]:
  "rx_matches RxNever s" "rx_matches RxEmpty s" "rx_matches (RxOne c) s" "rx_matches (RxChoice r q) s" "rx_matches (RxSeq r q) s"

fun rx_nullable :: "regex \<Rightarrow> bool" where
  "rx_nullable RxNever = False"
| "rx_nullable RxEmpty = True"
| "rx_nullable (RxOne _) = False"
| "rx_nullable (RxChoice r q) = (rx_nullable r \<or> rx_nullable q)"
| "rx_nullable (RxSeq r q) = (rx_nullable r \<and> rx_nullable q)"
| "rx_nullable (RxStar _) = True"

fun rx_derive :: "16 word \<Rightarrow> regex \<Rightarrow> regex" where
  "rx_derive u RxNever = RxNever"
| "rx_derive u RxEmpty = RxNever"
| "rx_derive u (RxOne c) = (if in_class c u then RxEmpty else RxNever)"
| "rx_derive u (RxChoice r q) = RxChoice (rx_derive u r) (rx_derive u q)"
| "rx_derive u (RxSeq r q) =
     (if rx_nullable r then RxChoice (RxSeq (rx_derive u r) q) (rx_derive u q) else RxSeq (rx_derive u r) q)"
| "rx_derive u (RxStar r) = RxSeq (rx_derive u r) (RxStar r)"

text \<open>A match at the start of the text, and \<open>test\<close>, a match anywhere.\<close>

fun test_here :: "regex \<Rightarrow> jsstring \<Rightarrow> bool" where
  "test_here r [] = rx_nullable r"
| "test_here r (u # us) = (rx_nullable r \<or> test_here (rx_derive u r) us)"

fun test_anywhere :: "regex \<Rightarrow> jsstring \<Rightarrow> bool" where
  "test_anywhere r [] = test_here r []"
| "test_anywhere r (u # us) = (test_here r (u # us) \<or> test_anywhere r us)"

lemma rx_nullable_iff: "rx_nullable r \<longleftrightarrow> rx_matches r []"
  by (induction r) (auto intro: rx_matches.intros)

lemma rx_star_Cons:
  "rx_matches (RxStar r) (u # t) \<longleftrightarrow> (\<exists>s1 s2. t = s1 @ s2 \<and> rx_matches r (u # s1) \<and> rx_matches (RxStar r) s2)"
proof
  have "rx_matches q w \<Longrightarrow> q = RxStar r \<Longrightarrow> w = u # t \<Longrightarrow>
      \<exists>s1 s2. t = s1 @ s2 \<and> rx_matches r (u # s1) \<and> rx_matches (RxStar r) s2" for q w
  proof (induction arbitrary: t rule: rx_matches.induct)
    case (RxRepeat1 r' s w)
    then show ?case by (cases s) auto
  qed simp_all
  then show "rx_matches (RxStar r) (u # t) \<Longrightarrow>
      \<exists>s1 s2. t = s1 @ s2 \<and> rx_matches r (u # s1) \<and> rx_matches (RxStar r) s2" by blast
next
  assume "\<exists>s1 s2. t = s1 @ s2 \<and> rx_matches r (u # s1) \<and> rx_matches (RxStar r) s2"
  then show "rx_matches (RxStar r) (u # t)"
    by (auto dest: rx_matches.RxRepeat1)
qed

lemma rx_derive_iff: "rx_matches (rx_derive u r) s \<longleftrightarrow> rx_matches r (u # s)"
proof (induction r arbitrary: s)
  case (RxSeq r q)
  then show ?case
    by (auto simp: rx_nullable_iff Cons_eq_append_conv)
next
  case (RxStar r)
  then show ?case by (auto simp: rx_star_Cons)
qed auto

lemma test_here_iff: "test_here r s \<longleftrightarrow> (\<exists>m rest. s = m @ rest \<and> rx_matches r m)"
  by (induction r s rule: test_here.induct)
    (auto simp: rx_nullable_iff rx_derive_iff Cons_eq_append_conv)

lemma match_position:
  "(\<exists>m rest. u # s = m @ rest \<and> P m) \<or> (\<exists>pre m post. s = pre @ m @ post \<and> P m)
     \<longleftrightarrow> (\<exists>pre m post. u # s = pre @ m @ post \<and> P m)"
proof
  assume "\<exists>pre m post. u # s = pre @ m @ post \<and> P m"
  then obtain pre m post where "u # s = pre @ m @ post" "P m" by blast
  then show "(\<exists>m rest. u # s = m @ rest \<and> P m) \<or> (\<exists>pre m post. s = pre @ m @ post \<and> P m)"
    by (cases pre) auto
next
  assume "(\<exists>m rest. u # s = m @ rest \<and> P m) \<or> (\<exists>pre m post. s = pre @ m @ post \<and> P m)"
  then show "\<exists>pre m post. u # s = pre @ m @ post \<and> P m"
    by (metis append_Cons append_Nil)
qed

lemma test_anywhere_iff: "test_anywhere r s \<longleftrightarrow> (\<exists>pre m post. s = pre @ m @ post \<and> rx_matches r m)"
proof (induction s)
  case Nil
  then show ?case by (auto simp: rx_nullable_iff)
next
  case (Cons u s)
  have "test_anywhere r (u # s) \<longleftrightarrow> (\<exists>m rest. u # s = m @ rest \<and> rx_matches r m) \<or> test_anywhere r s"
    by (simp only: test_anywhere.simps test_here_iff)
  also have "\<dots> \<longleftrightarrow> (\<exists>pre m post. u # s = pre @ m @ post \<and> rx_matches r m)"
    unfolding Cons.IH by (rule match_position)
  finally show ?case .
qed

lemma rx_one_seq:
  "rx_matches (RxSeq (RxOne c) q) s \<longleftrightarrow> (\<exists>u t. s = u # t \<and> in_class c u \<and> rx_matches q t)"
  by (auto intro: exI [where x = "[u]" for u])

lemma rx_matches_lit_Cons: "rx_matches (rx_lit (c # cs)) s \<longleftrightarrow>
    (\<exists>u t. s = u # t \<and> fold_case u = fold_case (of_char c) \<and> rx_matches (rx_lit cs) t)"
  by (cases cs) (auto simp: rx_lit_def rx_one_seq simp del: rx_matches_simps(5))

lemma rx_matches_lit: "rx_matches (rx_lit cs) s \<longleftrightarrow> map fold_case s = map (fold_case \<circ> of_char) cs"
proof (induction cs arbitrary: s)
  case Nil
  then show ?case by (simp add: rx_lit_def)
next
  case (Cons c cs)
  then show ?case by (cases s) (auto simp: rx_matches_lit_Cons)
qed

section \<open>Patterns\<close>

datatype pattern = Anywhere regex | AtStart regex

fun pattern_test :: "pattern \<Rightarrow> jsstring \<Rightarrow> bool" where
  "pattern_test (Anywhere r) s = test_anywhere r s"
| "pattern_test (AtStart r) s = test_here r s"

abbreviation rx_digits :: regex where
  "rx_digits \<equiv> rx_many1 (RxOne AnyDigit)"

abbreviation rx_spaces :: regex where
  "rx_spaces \<equiv> RxStar (RxOne AnySpace)"

definition OVERFLOW_PATTERNS :: "pattern list" where
  "OVERFLOW_PATTERNS =
     [Anywhere (rx_lit ''prompt is too long''),
      Anywhere (rx_lit ''request_too_large''),
      Anywhere (rx_lit ''input is too long for requested model''),
      Anywhere (rx_lit ''exceeds the context window''),
      Anywhere (rx_seq [rx_lit ''input token count'', RxStar (RxOne AnyUnit), rx_lit ''exceeds the maximum'']),
      Anywhere (rx_seq [rx_lit ''maximum prompt length is '', rx_digits]),
      Anywhere (rx_lit ''reduce the length of the messages''),
      Anywhere (rx_seq [rx_lit ''maximum context length is '', rx_digits, rx_lit '' tokens'']),
      Anywhere (rx_seq [rx_lit ''exceeds the limit of '', rx_digits]),
      Anywhere (rx_lit ''exceeds the available context size''),
      Anywhere (rx_lit ''greater than the context length''),
      Anywhere (rx_lit ''context window exceeds limit''),
      Anywhere (rx_lit ''exceeded model token limit''),
      Anywhere (rx_seq [rx_lit ''too large for model with '', rx_digits, rx_lit '' maximum context length'']),
      Anywhere (rx_lit ''model_context_window_exceeded''),
      Anywhere (rx_seq [rx_lit ''prompt too long; exceeded '', rx_opt (rx_lit ''max ''), rx_lit ''context length'']),
      Anywhere (rx_seq [rx_lit ''context'', RxOne (AnyOf ''_ ''), rx_lit ''length'', RxOne (AnyOf ''_ ''),
        rx_lit ''exceeded'']),
      Anywhere (rx_lit ''too many tokens''),
      Anywhere (rx_lit ''token limit exceeded''),
      AtStart (rx_seq [rx_lit ''4'', rx_alt [rx_lit ''00'', rx_lit ''13''], rx_spaces, rx_opt (rx_lit ''status code''),
        rx_spaces, rx_lit ''(no body)''])]"

definition NON_OVERFLOW_PATTERNS :: "pattern list" where
  "NON_OVERFLOW_PATTERNS =
     [AtStart (rx_seq [rx_alt [rx_lit ''Throttling error'', rx_lit ''Service unavailable''], rx_lit '':'']),
      Anywhere (rx_lit ''rate limit''),
      Anywhere (rx_lit ''too many requests'')]"

definition getOverflowPatterns :: "pattern list" where
  "getOverflowPatterns = OVERFLOW_PATTERNS"

section \<open>Overflow\<close>

text \<open>
  \<open>contextWindow * 0.99\<close> is a floating-point product; for a window below \<open>2^40\<close> an integer is
  at least the rounded product exactly when it is at least the exact one.
\<close>

definition isContextOverflow :: "assistant_message \<Rightarrow> nat \<Rightarrow> bool" where
  "isContextOverflow message contextWindow \<longleftrightarrow>
     (let u = am_usage message; inputTokens = u_input u + u_cacheRead u
      in (am_stopReason message = ErrorR \<and>
          (case truthy (am_errorMessage message) of
             None \<Rightarrow> False
           | Some e \<Rightarrow>
               \<not> list_ex (\<lambda>p. pattern_test p e) NON_OVERFLOW_PATTERNS
               \<and> list_ex (\<lambda>p. pattern_test p e) OVERFLOW_PATTERNS))
         \<or> (contextWindow \<noteq> 0 \<and> am_stopReason message = StopR \<and> inputTokens > contextWindow)
         \<or> (contextWindow \<noteq> 0 \<and> am_stopReason message = LengthR \<and> u_output u = 0
            \<and> 100 * inputTokens \<ge> 99 * contextWindow))"

section \<open>Errors worth a retry\<close>

text \<open>\<open>_isRetryableError\<close> of \<open>agent-session.ts\<close>; \<open>rx_words\<close> joins texts with \<open>.?\<close>.\<close>

fun rx_words :: "string list \<Rightarrow> regex" where
  "rx_words [] = RxEmpty"
| "rx_words [w] = rx_lit w"
| "rx_words (w # ws) = rx_seq [rx_lit w, rx_opt (RxOne AnyUnit), rx_words ws]"

definition RETRYABLE_PATTERN :: pattern where
  "RETRYABLE_PATTERN = Anywhere (rx_alt
     [rx_lit ''overloaded'',
      rx_words [''provider'', ''returned'', ''error''],
      rx_words [''rate'', ''limit''],
      rx_lit ''too many requests'',
      rx_lit ''429'',
      rx_lit ''500'',
      rx_lit ''502'',
      rx_lit ''503'',
      rx_lit ''504'',
      rx_words [''service'', ''unavailable''],
      rx_words [''server'', ''error''],
      rx_words [''internal'', ''error''],
      rx_words [''network'', ''error''],
      rx_words [''connection'', ''error''],
      rx_words [''connection'', ''refused''],
      rx_words [''connection'', ''lost''],
      rx_words [''websocket'', ''closed''],
      rx_words [''websocket'', ''error''],
      rx_lit ''other side closed'',
      rx_lit ''fetch failed'',
      rx_words [''upstream'', ''connect''],
      rx_lit ''reset before headers'',
      rx_lit ''socket hang up'',
      rx_lit ''ended without'',
      rx_lit ''http2 request did not get a response'',
      rx_seq [rx_lit ''time'', rx_opt (rx_lit ''d''), rx_lit '' out''],
      rx_lit ''timeout'',
      rx_lit ''terminated'',
      rx_lit ''retry delay''])"

definition isRetryableError :: "nat \<Rightarrow> assistant_message \<Rightarrow> bool" where
  "isRetryableError contextWindow message =
     (case truthy (am_errorMessage message) of
        None \<Rightarrow> False
      | Some e \<Rightarrow>
          am_stopReason message = ErrorR
          \<and> \<not> isContextOverflow message contextWindow
          \<and> pattern_test RETRYABLE_PATTERN e)"

lemma isRetryableError_error:
  "isRetryableError w m \<Longrightarrow> am_stopReason m = ErrorR \<and> truthy (am_errorMessage m) = am_errorMessage m
     \<and> am_errorMessage m \<noteq> None \<and> \<not> isContextOverflow m w"
  by (auto simp: isRetryableError_def truthy_def split: option.splits if_splits)

lemma test_alt: "r \<in> set rs \<Longrightarrow> rx_matches r m \<Longrightarrow> rx_matches (rx_alt rs) m"
  by (induction rs rule: rx_alt.induct) auto

lemma retryable_text:
  assumes "map fold_case m = map (fold_case \<circ> of_char) t" "rx_lit t \<in> set rs" "e = pre @ m @ post"
  shows "pattern_test (Anywhere (rx_alt rs)) e"
  using assms test_alt [OF assms(2)] by (auto simp: test_anywhere_iff rx_matches_lit)

end
