(* ===== verification/Thinking_Levels.thy ===== *)
theory Thinking_Levels
  imports Js_Prelude
begin

text \<open>
  Models as the session sees them and their thinking levels: \<open>getSupportedThinkingLevels\<close>,
  \<open>clampThinkingLevel\<close> and \<open>modelsAreEqual\<close> of \<open>packages/ai/src/models.ts\<close>. The generated
  catalogue and the cost calculation (floating point) are not modelled.
\<close>

section \<open>Models\<close>

text \<open>
  The fields of a model the session reads. A level maps to \<open>Some (Some v)\<close>, to \<open>null\<close>
  (\<open>Some None\<close>, not supported), or is missing.
\<close>

record chat_model =
  md_id :: jsstring
  md_api :: jsstring
  md_provider :: jsstring
  md_reasoning :: bool
  md_thinkingLevelMap :: "(jsstring \<times> jsstring option) list option"
  md_contextWindow :: nat

definition modelsAreEqual :: "chat_model option \<Rightarrow> chat_model option \<Rightarrow> bool" where
  "modelsAreEqual a b =
     (case (a, b) of
        (Some m, Some n) \<Rightarrow> md_id m = md_id n \<and> md_provider m = md_provider n
      | _ \<Rightarrow> False)"

section \<open>Thinking levels\<close>

definition EXTENDED_THINKING_LEVELS :: "jsstring list" where
  "EXTENDED_THINKING_LEVELS = map js [''off'', ''minimal'', ''low'', ''medium'', ''high'', ''xhigh'']"

definition THINKING_LEVELS :: "jsstring list" where
  "THINKING_LEVELS = map js [''off'', ''minimal'', ''low'', ''medium'', ''high'']"

definition DEFAULT_THINKING_LEVEL :: jsstring where
  "DEFAULT_THINKING_LEVEL = js ''medium''"

definition mapped_level :: "chat_model \<Rightarrow> jsstring \<Rightarrow> jsstring option option" where
  "mapped_level model level =
     (case md_thinkingLevelMap model of None \<Rightarrow> None | Some m \<Rightarrow> map_of m level)"

definition getSupportedThinkingLevels :: "chat_model \<Rightarrow> jsstring list" where
  "getSupportedThinkingLevels model =
     (if \<not> md_reasoning model then [js ''off'']
      else filter (\<lambda>level.
             (case mapped_level model level of
                Some None \<Rightarrow> False
              | mapped \<Rightarrow> if level = js ''xhigh'' then mapped \<noteq> None else True))
             EXTENDED_THINKING_LEVELS)"

definition first_level :: "jsstring list \<Rightarrow> jsstring" where
  "first_level levels = (case levels of [] \<Rightarrow> js ''off'' | l # _ \<Rightarrow> l)"

text \<open>From the requested level upwards, then downwards.\<close>

definition clampThinkingLevel :: "chat_model \<Rightarrow> jsstring \<Rightarrow> jsstring" where
  "clampThinkingLevel model level =
     (let availableLevels = getSupportedThinkingLevels model
      in if level \<in> set availableLevels then level
         else
           (case index_of (\<lambda>l. l = level) EXTENDED_THINKING_LEVELS of
              None \<Rightarrow> first_level availableLevels
            | Some requestedIndex \<Rightarrow>
                (case find (\<lambda>c. c \<in> set availableLevels) (drop requestedIndex EXTENDED_THINKING_LEVELS) of
                   Some c \<Rightarrow> c
                 | None \<Rightarrow>
                     (case find (\<lambda>c. c \<in> set availableLevels) (rev (take requestedIndex EXTENDED_THINKING_LEVELS)) of
                        Some c \<Rightarrow> c
                      | None \<Rightarrow> first_level availableLevels))))"

section \<open>What clamping chooses\<close>

lemma supported_extended: "set (getSupportedThinkingLevels model) \<subseteq> set EXTENDED_THINKING_LEVELS"
  by (auto simp: getSupportedThinkingLevels_def EXTENDED_THINKING_LEVELS_def)

lemma extended_distinct: "distinct EXTENDED_THINKING_LEVELS"
  by (simp add: EXTENDED_THINKING_LEVELS_def)

lemma find_drop_SomeD:
  "find P (drop i xs) = Some x \<Longrightarrow>
     \<exists>j. i \<le> j \<and> j < length xs \<and> x = xs ! j \<and> P x \<and> (\<forall>k. i \<le> k \<and> k < j \<longrightarrow> \<not> P (xs ! k))"
proof -
  assume "find P (drop i xs) = Some x"
  then obtain n where n: "n < length (drop i xs)" "P (drop i xs ! n)" "x = drop i xs ! n" "\<forall>m < n. \<not> P (drop i xs ! m)"
    by (auto simp: find_Some_iff)
  have "\<not> P (xs ! k)" if "i \<le> k" "k < i + n" for k
    using n(4) [rule_format, of "k - i"] that n(1) by auto
  with n show ?thesis by (intro exI [of _ "i + n"]) auto
qed

lemma find_rev_take_SomeD:
  "find P (rev (take i xs)) = Some x \<Longrightarrow> i \<le> length xs \<Longrightarrow>
     \<exists>j < i. x = xs ! j \<and> P x \<and> (\<forall>k. j < k \<and> k < i \<longrightarrow> \<not> P (xs ! k))"
proof -
  assume "find P (rev (take i xs)) = Some x" and i: "i \<le> length xs"
  then obtain n where n: "n < i" "P (rev (take i xs) ! n)" "x = rev (take i xs) ! n" "\<forall>m < n. \<not> P (rev (take i xs) ! m)"
    by (auto simp: find_Some_iff)
  have r: "rev (take i xs) ! m = xs ! (i - Suc m)" if "m < i" for m
    using that i by (simp add: rev_nth)
  have "\<not> P (xs ! k)" if "i - Suc n < k" "k < i" for k
    using n(4) [rule_format, of "i - Suc k"] that r [of "i - Suc k"] by (auto split: if_splits)
  then show ?thesis
    using n r [OF n(1)] by (intro exI [of _ "i - Suc n"]) auto
qed

definition level_index :: "jsstring \<Rightarrow> nat option" where
  "level_index l = index_of (\<lambda>x. x = l) EXTENDED_THINKING_LEVELS"

lemma level_index_nth: "level_index l = Some i \<longleftrightarrow> i < length EXTENDED_THINKING_LEVELS \<and> EXTENDED_THINKING_LEVELS ! i = l"
proof
  assume "level_index l = Some i"
  then show "i < length EXTENDED_THINKING_LEVELS \<and> EXTENDED_THINKING_LEVELS ! i = l"
    using index_of_Some unfolding level_index_def by fast
next
  assume i: "i < length EXTENDED_THINKING_LEVELS \<and> EXTENDED_THINKING_LEVELS ! i = l"
  then have "level_index l \<noteq> None" unfolding level_index_def index_of_None by auto
  then obtain j where j: "level_index l = Some j" by auto
  then have "j < length EXTENDED_THINKING_LEVELS" "EXTENDED_THINKING_LEVELS ! j = l"
    using index_of_Some unfolding level_index_def by fast+
  with i have "i = j" using nth_eq_iff_index_eq [OF extended_distinct] by metis
  with j show "level_index l = Some i" by simp
qed

text \<open>
  The chosen level is supported. Between it and the requested one no level is, and a lower
  level is chosen only when no higher one is supported.
\<close>

lemma clamp_nearest:
  assumes req: "level_index level = Some i" and ne: "getSupportedThinkingLevels model \<noteq> []"
  shows "\<exists>j. level_index (clampThinkingLevel model level) = Some j
    \<and> clampThinkingLevel model level \<in> set (getSupportedThinkingLevels model)
    \<and> (\<forall>k. i \<le> k \<and> k < length EXTENDED_THINKING_LEVELS \<and> (k < j \<or> j < i) \<longrightarrow>
          EXTENDED_THINKING_LEVELS ! k \<notin> set (getSupportedThinkingLevels model))
    \<and> (\<forall>k. j < k \<and> k < i \<longrightarrow> EXTENDED_THINKING_LEVELS ! k \<notin> set (getSupportedThinkingLevels model))"
proof -
  let ?A = "getSupportedThinkingLevels model" and ?E = "EXTENDED_THINKING_LEVELS"
  from req have i: "i < length ?E" "?E ! i = level" by (auto simp: level_index_nth)
  have idx: "index_of (\<lambda>l. l = level) ?E = Some i" using req by (simp add: level_index_def)
  show ?thesis
  proof (cases "level \<in> set ?A")
    case True
    then have "clampThinkingLevel model level = level" by (simp add: clampThinkingLevel_def Let_def)
    with True req show ?thesis by auto
  next
    case False
    show ?thesis
    proof (cases "find (\<lambda>c. c \<in> set ?A) (drop i ?E)")
      case (Some c)
      then have eq: "clampThinkingLevel model level = c"
        using False idx by (simp add: clampThinkingLevel_def Let_def)
      from find_drop_SomeD [OF Some] obtain j where "i \<le> j" "j < length ?E" "c = ?E ! j" "c \<in> set ?A"
        "\<forall>k. i \<le> k \<and> k < j \<longrightarrow> ?E ! k \<notin> set ?A" by blast
      moreover from this have "level_index c = Some j" by (simp add: level_index_nth)
      ultimately show ?thesis unfolding eq by (intro exI [of _ j]) auto
    next
      case None
      then have up: "?E ! k \<notin> set ?A" if "i \<le> k" "k < length ?E" for k
        using that unfolding find_None_iff by (metis in_set_conv_nth le_add_diff_inverse less_diff_conv2
            length_drop nth_drop i(1) less_imp_le_nat diff_less_mono)
      obtain a where a: "a \<in> set ?A" using ne by (cases ?A) auto
      then obtain k where k: "k < length ?E" "?E ! k = a"
        using supported_extended by (metis in_set_conv_nth subsetD)
      with up a have "k < i" by (meson not_le)
      then have "a \<in> set (take i ?E)" using k i(1) by (auto simp: in_set_conv_nth)
      then have "find (\<lambda>c. c \<in> set ?A) (rev (take i ?E)) \<noteq> None"
        using a unfolding find_None_iff by auto
      then obtain c where c: "find (\<lambda>c. c \<in> set ?A) (rev (take i ?E)) = Some c" by auto
      then have eq: "clampThinkingLevel model level = c"
        using False idx None by (simp add: clampThinkingLevel_def Let_def)
      from find_rev_take_SomeD [OF c] i(1) obtain j where "j < i" "c = ?E ! j" "c \<in> set ?A"
        "\<forall>k. j < k \<and> k < i \<longrightarrow> ?E ! k \<notin> set ?A" by (meson less_imp_le_nat)
      moreover from this i have "level_index c = Some j" by (simp add: level_index_nth)
      ultimately show ?thesis unfolding eq using up by (intro exI [of _ j]) auto
    qed
  qed
qed

end
