(* ===== verification/Prompt_Templates.thy ===== *)
theory Prompt_Templates
  imports Js_Prelude
begin

text \<open>
  Prompt templates, \<open>packages/coding-agent/src/core/prompt-templates.ts\<close>: the arguments of a
  slash command, their substitution in four passes over the template, and the expansion of a
  command. Finding and reading the files, and the front matter (a third-party YAML parser),
  are not modelled: \<open>loadTemplate\<close> gets the declared description, the hint and the body.
\<close>

section \<open>Arguments\<close>

text \<open>The loop of \<open>parseCommandArgs\<close> over the characters: \<open>current\<close>, \<open>inQuote\<close>, \<open>args\<close>.\<close>

fun parse_args_loop ::
    "jsstring list \<Rightarrow> jsstring \<Rightarrow> 16 word option \<Rightarrow> jsstring \<Rightarrow> jsstring list" where
  "parse_args_loop args current inQuote [] = (if current \<noteq> [] then args @ [current] else args)"
| "parse_args_loop args current (Some q) (c # cs) =
     (if c = q then parse_args_loop args current None cs
      else parse_args_loop args (current @ [c]) (Some q) cs)"
| "parse_args_loop args current None (c # cs) =
     (if c = 34 \<or> c = 39 then parse_args_loop args current (Some c) cs
      else if c = 32 \<or> c = 9
      then (if current \<noteq> [] then parse_args_loop (args @ [current]) [] None cs
            else parse_args_loop args current None cs)
      else parse_args_loop args (current @ [c]) None cs)"

definition parseCommandArgs :: "jsstring \<Rightarrow> jsstring list" where
  "parseCommandArgs argsString = parse_args_loop [] [] None argsString"

section \<open>Substitution\<close>

text \<open>
  \<open>String.prototype.replace\<close> with a global pattern: a match is found at a position given
  the text before it and the text from it; it answers the replacement and the length of the match
  less one (no pattern here matches the empty string).
\<close>

function replace_global ::
    "(jsstring \<Rightarrow> jsstring \<Rightarrow> (jsstring \<times> nat) option) \<Rightarrow> jsstring \<Rightarrow> jsstring \<Rightarrow> jsstring" where
  "replace_global f pre [] = []"
| "replace_global f pre (c # cs) =
     (case f pre (c # cs) of
        Some (r, n) \<Rightarrow> r @ replace_global f (pre @ c # take n cs) (drop n cs)
      | None \<Rightarrow> c # replace_global f (pre @ [c]) cs)"
  by pat_completeness auto
termination
  by (relation "measure (\<lambda>(f, b, s). length s)") auto

definition is_digit :: "16 word \<Rightarrow> bool" where
  "is_digit u \<longleftrightarrow> 48 \<le> u \<and> u \<le> 57"

definition parse_digits :: "jsstring \<Rightarrow> nat" where
  "parse_digits ds = foldl (\<lambda>n d. 10 * n + (unat d - 48)) 0 ds"

fun strip_prefix :: "'a list \<Rightarrow> 'a list \<Rightarrow> 'a list option" where
  "strip_prefix [] s = Some s"
| "strip_prefix (p # ps) [] = None"
| "strip_prefix (p # ps) (c # cs) = (if p = c then strip_prefix ps cs else None)"

text \<open>A non-empty run of digits, and what follows it.\<close>

definition digits_at :: "jsstring \<Rightarrow> (jsstring \<times> jsstring) option" where
  "digits_at s =
     (case takeWhile is_digit s of [] \<Rightarrow> None | d # ds \<Rightarrow> Some (d # ds, dropWhile is_digit s))"

text \<open>\<open>args[n - 1] ?? ""\<close>\<close>

definition nth_arg :: "jsstring list \<Rightarrow> nat \<Rightarrow> jsstring" where
  "nth_arg args n = (if 1 \<le> n \<and> n \<le> length args then args ! (n - 1) else [])"

definition positional_at :: "jsstring list \<Rightarrow> jsstring \<Rightarrow> jsstring \<Rightarrow> (jsstring \<times> nat) option" where
  "positional_at args pre s =
     (case strip_prefix (js ''$'') s of
        None \<Rightarrow> None
      | Some s1 \<Rightarrow>
          (case digits_at s1 of
             None \<Rightarrow> None
           | Some (ds, _) \<Rightarrow> Some (nth_arg args (parse_digits ds), length ds)))"

definition join_args :: "jsstring list \<Rightarrow> jsstring" where
  "join_args args = join_with (js '' '') args"

definition slice_args :: "jsstring list \<Rightarrow> nat \<Rightarrow> nat option \<Rightarrow> jsstring" where
  "slice_args args start len =
     (let rest = drop (start - 1) args
      in join_args (case len of Some l \<Rightarrow> take l rest | None \<Rightarrow> rest))"

definition slice_at :: "jsstring list \<Rightarrow> jsstring \<Rightarrow> jsstring \<Rightarrow> (jsstring \<times> nat) option" where
  "slice_at args pre s =
     (case strip_prefix (js ''${@:'') s of
        None \<Rightarrow> None
      | Some s1 \<Rightarrow>
          (case digits_at s1 of
             None \<Rightarrow> None
           | Some (ds, s2) \<Rightarrow>
               (case s2 of
                  [] \<Rightarrow> None
                | c # s3 \<Rightarrow>
                    (if c = 125 then Some (slice_args args (parse_digits ds) None, 4 + length ds)
                     else if c = 58
                     then (case digits_at s3 of
                             Some (ls, e # _) \<Rightarrow>
                               (if e = 125
                                then Some (slice_args args (parse_digits ds) (Some (parse_digits ls)),
                                           5 + length ds + length ls)
                                else None)
                           | _ \<Rightarrow> None)
                     else None))))"

text \<open>
  A replacement that is a string is not taken literally: \<open>$$\<close>, \<open>$&\<close>, \<open>$`\<close> and \<open>$'\<close>
  stand for a dollar, the match, the text before and the text after it.
\<close>

fun expand_replacement :: "jsstring \<Rightarrow> jsstring \<Rightarrow> jsstring \<Rightarrow> jsstring \<Rightarrow> jsstring" where
  "expand_replacement matched pre post (c # d # cs) =
     (if c = 36 \<and> d = 36 then 36 # expand_replacement matched pre post cs
      else if c = 36 \<and> d = 38 then matched @ expand_replacement matched pre post cs
      else if c = 36 \<and> d = 96 then pre @ expand_replacement matched pre post cs
      else if c = 36 \<and> d = 39 then post @ expand_replacement matched pre post cs
      else c # expand_replacement matched pre post (d # cs))"
| "expand_replacement matched pre post s = s"

definition literal_at :: "jsstring \<Rightarrow> jsstring \<Rightarrow> jsstring \<Rightarrow> jsstring \<Rightarrow> (jsstring \<times> nat) option" where
  "literal_at pat replacement pre s =
     (case strip_prefix pat s of
        None \<Rightarrow> None
      | Some post \<Rightarrow> Some (expand_replacement pat pre post replacement, length pat - 1))"

definition substituteArgs :: "jsstring \<Rightarrow> jsstring list \<Rightarrow> jsstring" where
  "substituteArgs content args =
     (let r1 = replace_global (positional_at args) [] content;
          r2 = replace_global (slice_at args) [] r1;
          allArgs = join_args args;
          r3 = replace_global (literal_at (js ''$ARGUMENTS'') allArgs) [] r2
      in replace_global (literal_at (js ''$@'') allArgs) [] r3)"

section \<open>Templates\<close>

record prompt_template =
  pt_name :: jsstring
  pt_description :: jsstring
  pt_argumentHint :: "jsstring option"
  pt_content :: jsstring

text \<open>The description of a template that declares none: its first line that is not blank.\<close>

definition template_description :: "jsstring option \<Rightarrow> jsstring \<Rightarrow> jsstring" where
  "template_description declared body =
     (case declared of
        Some (d # ds) \<Rightarrow> d # ds
      | _ \<Rightarrow>
          (case find (\<lambda>line. trim_js line \<noteq> []) (split_on 10 body) of
             None \<Rightarrow> []
           | Some firstLine \<Rightarrow>
               take 60 firstLine @ (if length firstLine > 60 then js ''...'' else [])))"

definition loadTemplate ::
    "jsstring \<Rightarrow> jsstring option \<Rightarrow> jsstring option \<Rightarrow> jsstring \<Rightarrow> prompt_template" where
  "loadTemplate name declared hint body =
     \<lparr>pt_name = name, pt_description = template_description declared body,
      pt_argumentHint = (case hint of Some (h # hs) \<Rightarrow> Some (h # hs) | _ \<Rightarrow> None),
      pt_content = body\<rparr>"

text \<open>the word after the slash and the rest of the line after the first space.\<close>

definition command_split :: "jsstring \<Rightarrow> jsstring \<times> jsstring" where
  "command_split s =
     (case index_of (\<lambda>c. c = 32) s of
        None \<Rightarrow> (drop 1 s, [])
      | Some i \<Rightarrow> (sub_list 1 i s, drop (i + 1) s))"

definition expandPromptTemplate :: "jsstring \<Rightarrow> prompt_template list \<Rightarrow> jsstring" where
  "expandPromptTemplate s templates =
     (if \<not> prefix (js ''/'') s then s
      else
        (case command_split s of
           (templateName, argsString) \<Rightarrow>
             (case find (\<lambda>t. pt_name t = templateName) templates of
                Some t \<Rightarrow> substituteArgs (pt_content t) (parseCommandArgs argsString)
              | None \<Rightarrow> s)))"

end
