(* ===== verification/Agent_Session.thy ===== *)
theory Agent_Session
  imports Agent_State Context_Overflow Thinking_Levels Prompt_Templates Branch_Summary
begin

text \<open>
  The agent session of \<open>packages/coding-agent/src/core/agent-session.ts\<close>: its state, what it
  asks of the code around it, and how it receives and records the agent's events.

  \<^item> The state of the session is the world of the agent it drives: \<open>'x host\<close> is the agent of
    \<open>Agent_State\<close> whose outside world holds a \<open>session_state\<close>, so that the session's listener is a
    listener of the agent and the operations below reach the transcript and the queues.
  \<^item> \<open>'x session_env\<close> is the code around: the model, random ids and the clock, extensions
    (whose failures their runner catches), skills, keys of the model registry. \<open>'x\<close> is its state.
    Ids are drawn knowing the session they are for; properties assume that they are new.
  \<^item> \<open>ss_emitted\<close> lists the events given to every listener of the session. \<open>ss_continues\<close> counts
    the timers that will call \<open>agent.continue\<close>.
  \<^item> Not modelled: tools and system prompt of the session, extensions that replace an ended message
    in place, errors distinguished by their name.
\<close>

section \<open>Events\<close>

datatype compaction_reason = ManualC | OverflowC | ThresholdC

datatype session_event =
    AgentEv agent_event
  | QueueUpdate "jsstring list" "jsstring list"
  | CompactionStart compaction_reason
  | CompactionEnd compaction_reason "compaction_result option" bool bool "jsstring option"
  | AutoRetryStart nat nat nat jsstring
  | AutoRetryEnd bool nat "jsstring option"
  | ThinkingLevelChanged jsstring
  | SessionInfoChanged "jsstring option"

text \<open>What extensions are told: the agent's events with the turn number and the time added, and the session's own.\<close>

datatype extension_event =
    XAgentStart
  | XAgentEnd "agent_message list"
  | XTurnStart nat int
  | XTurnEnd nat agent_message "tool_result_message list"
  | XMessageStart agent_message
  | XMessageUpdate agent_message assistant_message_event
  | XMessageEnd agent_message
  | XToolExecutionStart jsstring jsstring json
  | XToolExecutionUpdate jsstring jsstring json agent_tool_result
  | XToolExecutionEnd jsstring jsstring agent_tool_result bool
  | XSessionCompact session_entry bool
  | XSessionTree "jsstring option" "jsstring option" "session_entry option" "bool option"
  | XModelSelect chat_model "chat_model option" jsstring
  | XThinkingLevelSelect jsstring jsstring

section \<open>The environment\<close>

text \<open>
  What extensions answer before a compaction, a navigation, an input and a run. A hook is
  \<open>None\<close> when no extension handles the event.
\<close>

datatype before_compact = CompactDefault | CompactCancel | CompactWith jsstring jsstring nat "json option"

record tree_preparation =
  tp_targetId :: jsstring
  tp_oldLeafId :: "jsstring option"
  tp_commonAncestorId :: "jsstring option"
  tp_entriesToSummarize :: "session_entry list"
  tp_userWantsSummary :: bool
  tp_customInstructions :: "jsstring option"
  tp_replaceInstructions :: bool
  tp_label :: "jsstring option"

record before_tree =
  bt_cancel :: bool
  bt_summary :: "(jsstring \<times> json option) option"
  bt_customInstructions :: "jsstring option"
  bt_replaceInstructions :: "bool option"
  bt_label :: "jsstring option"

datatype input_result = InputContinue | InputHandled | InputTransform jsstring "user_block list option"

record skill =
  sk_name :: jsstring
  sk_filePath :: jsstring
  sk_baseDir :: jsstring

record 'x session_env =
  xe_llm :: "'x llm_env"
  xe_uuid :: "session_manager \<Rightarrow> 'x \<Rightarrow> (nat \<Rightarrow> jsstring) \<times> 'x"
  xe_clock :: "'x \<Rightarrow> int \<times> 'x"
  xe_aborted :: "'x \<Rightarrow> bool"
  xe_extension :: "extension_event \<Rightarrow> 'x \<Rightarrow> 'x"
  xe_beforeCompact ::
    "(compaction_preparation \<Rightarrow> session_entry list \<Rightarrow> jsstring option \<Rightarrow> 'x \<Rightarrow> before_compact \<times> 'x) option"
  xe_beforeTree :: "(tree_preparation \<Rightarrow> 'x \<Rightarrow> before_tree \<times> 'x) option"
  xe_beforeAgentStart ::
    "jsstring \<Rightarrow> user_block list \<Rightarrow> jsstring \<Rightarrow> 'x \<Rightarrow> (custom_message_data list \<times> jsstring option) \<times> 'x"
  xe_input :: "(jsstring \<Rightarrow> user_block list \<Rightarrow> 'x \<Rightarrow> input_result \<times> 'x) option"
  xe_command :: "jsstring \<Rightarrow> (jsstring \<Rightarrow> 'x \<Rightarrow> 'x) option"
  xe_templates :: "prompt_template list"
  xe_skills :: "skill list"
  xe_skillBody :: "skill \<Rightarrow> 'x \<Rightarrow> jsstring option"
  xe_auth :: "chat_model \<Rightarrow> 'x \<Rightarrow> (jsstring + jsstring option) \<times> 'x"
  xe_hasAuth :: "chat_model \<Rightarrow> bool"
  xe_isOAuth :: "chat_model \<Rightarrow> bool"
  xe_available :: "'x \<Rightarrow> chat_model list \<times> 'x"
  xe_noModelMessage :: jsstring
  xe_noKeyMessage :: "jsstring \<Rightarrow> jsstring"

section \<open>The state\<close>

record session_settings =
  st_compaction :: compaction_settings
  st_retryEnabled :: bool
  st_maxRetries :: nat
  st_baseDelayMs :: nat
  st_branchReserveTokens :: nat
  st_defaultThinkingLevel :: "jsstring option"
  st_defaultModel :: "(jsstring \<times> jsstring) option"
  st_steeringMode :: queue_mode
  st_followUpMode :: queue_mode

record 'x session_state =
  ss_manager :: session_manager
  ss_files :: session_fs
  ss_settings :: session_settings
  ss_model :: "chat_model option"
  ss_thinkingLevel :: jsstring
  ss_scopedModels :: "(chat_model \<times> jsstring option) list"
  ss_events :: "agent_event list"
  ss_steeringMessages :: "jsstring list"
  ss_followUpMessages :: "jsstring list"
  ss_pendingNextTurn :: "agent_message list"
  ss_overflowRecoveryAttempted :: bool
  ss_retryAttempt :: nat
  ss_retryPromise :: bool
  ss_retrying :: "assistant_message option"
  ss_continues :: nat
  ss_pendingBash :: "bash_execution_message list"
  ss_turnIndex :: nat
  ss_lastAssistant :: "assistant_message option"
  ss_baseSystemPrompt :: jsstring
  ss_emitted :: "session_event list"
  ss_outside :: 'x

type_synonym 'x host = "'x session_state agent"

definition ses :: "'x host \<Rightarrow> 'x session_state" where
  "ses h = ae_world (ag_env h)"

definition on_ses :: "('x session_state \<Rightarrow> 'x session_state) \<Rightarrow> 'x host \<Rightarrow> 'x host" where
  "on_ses f = update_env (\<lambda>env. env\<lparr>ae_world := f (ae_world env)\<rparr>)"

definition run_ses :: "('x session_state \<Rightarrow> 'a \<times> 'x session_state) \<Rightarrow> 'x host \<Rightarrow> 'a \<times> 'x host" where
  "run_ses f h = (case f (ses h) of (a, s) \<Rightarrow> (a, on_ses (\<lambda>_. s) h))"

definition outside :: "('x \<Rightarrow> 'a \<times> 'x) \<Rightarrow> 'x session_state \<Rightarrow> 'a \<times> 'x session_state" where
  "outside f s = (case f (ss_outside s) of (a, x) \<Rightarrow> (a, s\<lparr>ss_outside := x\<rparr>))"

definition emit_session :: "session_event \<Rightarrow> 'x session_state \<Rightarrow> 'x session_state" where
  "emit_session e s = s\<lparr>ss_emitted := ss_emitted s @ [e]\<rparr>"

definition emitQueueUpdate :: "'x session_state \<Rightarrow> 'x session_state" where
  "emitQueueUpdate s = emit_session (QueueUpdate (ss_steeringMessages s) (ss_followUpMessages s)) s"

definition tell_extensions :: "'x session_env \<Rightarrow> extension_event \<Rightarrow> 'x session_state \<Rightarrow> 'x session_state" where
  "tell_extensions env e s = s\<lparr>ss_outside := xe_extension env e (ss_outside s)\<rparr>"

text \<open>An append to the session: ids are drawn and the clock is read from outside.\<close>

definition store ::
    "'x session_env
     \<Rightarrow> ((nat \<Rightarrow> jsstring) \<Rightarrow> iso_time \<Rightarrow> session_manager \<Rightarrow> session_fs \<Rightarrow> jsstring \<times> session_manager \<times> session_fs)
     \<Rightarrow> 'x session_state \<Rightarrow> jsstring \<times> 'x session_state" where
  "store env op s =
     (case xe_uuid env (ss_manager s) (ss_outside s) of
        (uuid, x1) \<Rightarrow>
          (case xe_clock env x1 of
             (now, x2) \<Rightarrow>
               (case op uuid now (ss_manager s) (ss_files s) of
                  (i, sm, fs) \<Rightarrow> (i, s\<lparr>ss_manager := sm, ss_files := fs, ss_outside := x2\<rparr>))))"

definition contextWindow :: "'x session_state \<Rightarrow> nat" where
  "contextWindow s = (case ss_model s of Some m \<Rightarrow> md_contextWindow m | None \<Rightarrow> 0)"

section \<open>Receiving the agent's events\<close>

definition findLastAssistantInMessages :: "agent_message list \<Rightarrow> assistant_message option" where
  "findLastAssistantInMessages messages =
     (case find_last is_assistant messages of Some (Assistant m) \<Rightarrow> Some m | _ \<Rightarrow> None)"

definition createRetryPromiseForAgentEnd :: "agent_event \<Rightarrow> 'x session_state \<Rightarrow> 'x session_state" where
  "createRetryPromiseForAgentEnd event s =
     (case event of
        AgentEnd messages \<Rightarrow>
          (if ss_retryPromise s then s
           else if \<not> st_retryEnabled (ss_settings s) then s
           else
             (case findLastAssistantInMessages messages of
                None \<Rightarrow> s
              | Some m \<Rightarrow> if isRetryableError (contextWindow s) m then s\<lparr>ss_retryPromise := True\<rparr> else s))
      | _ \<Rightarrow> s)"

text \<open>The chain of promises \<open>_agentEventQueue\<close> is the list of the events that wait in it.\<close>

definition handleAgentEvent :: "agent_event \<Rightarrow> 'x session_state \<Rightarrow> 'x session_state" where
  "handleAgentEvent event s =
     (let s1 = createRetryPromiseForAgentEnd event s in s1\<lparr>ss_events := ss_events s1 @ [event]\<rparr>)"

definition session_listener :: "'x session_state listener" where
  "session_listener event env = (Inr (), env\<lparr>ae_world := handleAgentEvent event (ae_world env)\<rparr>)"

text \<open>The number 0 is the session's listener.\<close>

definition reconnectToAgent :: "'x host \<Rightarrow> 'x host" where
  "reconnectToAgent h = subscribe 0 session_listener h"

definition disconnectFromAgent :: "'x host \<Rightarrow> 'x host" where
  "disconnectFromAgent h = unsubscribe 0 h"

section \<open>Processing an event\<close>

fun text_of_user_block :: "user_block \<Rightarrow> jsstring option" where
  "text_of_user_block (TextBlock t _) = Some t"
| "text_of_user_block (ImageBlock _ _) = None"

definition user_content_text :: "user_content \<Rightarrow> jsstring" where
  "user_content_text c =
     (case c of UString s \<Rightarrow> s | UBlocks bs \<Rightarrow> concat (List.map_filter text_of_user_block bs))"

definition getUserMessageText :: "user_message \<Rightarrow> jsstring" where
  "getUserMessageText m = user_content_text (um_content m)"

definition user_message_started :: "agent_event \<Rightarrow> 'x session_state \<Rightarrow> 'x session_state" where
  "user_message_started event s =
     (case event of
        MessageStart (User m) \<Rightarrow>
          (let s1 = s\<lparr>ss_overflowRecoveryAttempted := False\<rparr>;
               messageText = getUserMessageText m
           in if messageText = [] then s1
              else if messageText \<in> set (ss_steeringMessages s1)
              then emitQueueUpdate (s1\<lparr>ss_steeringMessages := remove1 messageText (ss_steeringMessages s1)\<rparr>)
              else if messageText \<in> set (ss_followUpMessages s1)
              then emitQueueUpdate (s1\<lparr>ss_followUpMessages := remove1 messageText (ss_followUpMessages s1)\<rparr>)
              else s1)
      | _ \<Rightarrow> s)"

fun emitExtensionEvent :: "'x session_env \<Rightarrow> agent_event \<Rightarrow> 'x session_state \<Rightarrow> 'x session_state" where
  "emitExtensionEvent env AgentStart s = tell_extensions env XAgentStart (s\<lparr>ss_turnIndex := 0\<rparr>)"
| "emitExtensionEvent env (AgentEnd ms) s = tell_extensions env (XAgentEnd ms) s"
| "emitExtensionEvent env TurnStart s =
     (case outside (xe_clock env) s of
        (now, s1) \<Rightarrow> tell_extensions env (XTurnStart (ss_turnIndex s1) now) s1)"
| "emitExtensionEvent env (TurnEnd m rs) s =
     (let s1 = tell_extensions env (XTurnEnd (ss_turnIndex s) m rs) s
      in s1\<lparr>ss_turnIndex := Suc (ss_turnIndex s1)\<rparr>)"
| "emitExtensionEvent env (MessageStart m) s = tell_extensions env (XMessageStart m) s"
| "emitExtensionEvent env (MessageUpdate m e) s = tell_extensions env (XMessageUpdate m e) s"
| "emitExtensionEvent env (MessageEnd m) s = tell_extensions env (XMessageEnd m) s"
| "emitExtensionEvent env (ToolExecutionStart i n a) s = tell_extensions env (XToolExecutionStart i n a) s"
| "emitExtensionEvent env (ToolExecutionUpdate i n a r) s = tell_extensions env (XToolExecutionUpdate i n a r) s"
| "emitExtensionEvent env (ToolExecutionEnd i n r b) s = tell_extensions env (XToolExecutionEnd i n r b) s"

fun persist_message :: "'x session_env \<Rightarrow> agent_message \<Rightarrow> 'x session_state \<Rightarrow> 'x session_state" where
  "persist_message env (Custom m) s =
     snd (store env (appendCustomMessageEntry (cm_customType m) (cm_content m) (cm_display m) (cm_details m)) s)"
| "persist_message env (User m) s = snd (store env (appendMessage (User m)) s)"
| "persist_message env (Assistant m) s = snd (store env (appendMessage (Assistant m)) s)"
| "persist_message env (ToolResult m) s = snd (store env (appendMessage (ToolResult m)) s)"
| "persist_message env _ s = s"

text \<open>An assistant message that is no error ends the count of retries.\<close>

fun track_assistant :: "agent_message \<Rightarrow> 'x session_state \<Rightarrow> 'x session_state" where
  "track_assistant (Assistant m) s =
     (let s1 = s\<lparr>ss_lastAssistant := Some m\<rparr>;
          s2 = (if am_stopReason m \<noteq> ErrorR then s1\<lparr>ss_overflowRecoveryAttempted := False\<rparr> else s1)
      in if am_stopReason m \<noteq> ErrorR \<and> ss_retryAttempt s2 > 0
         then (emit_session (AutoRetryEnd True (ss_retryAttempt s2) None) s2)\<lparr>ss_retryAttempt := 0\<rparr>
         else s2)"
| "track_assistant _ s = s"

definition message_ended :: "'x session_env \<Rightarrow> agent_event \<Rightarrow> 'x session_state \<Rightarrow> 'x session_state" where
  "message_ended env event s =
     (case event of MessageEnd m \<Rightarrow> track_assistant m (persist_message env m s) | _ \<Rightarrow> s)"

definition resolveRetry :: "'x session_state \<Rightarrow> 'x session_state" where
  "resolveRetry s = s\<lparr>ss_retryPromise := False\<rparr>"

end
