(* ===== verification/Agent_Session_Recovery.thy ===== *)
theory Agent_Session_Recovery
  imports Agent_Session
begin

text \<open>
  What the session does when a run has ended: retries with backoff, compaction on overflow or over
  the threshold, and the manual compaction; \<open>agent-session.ts\<close>. \<open>None\<close> is a walk over a damaged
  tree that does not return. A compaction runs as one step, what happens meanwhile being part of its
  effect on the outside world; the sleep of a retry is a state of its own.
\<close>

section \<open>Retries\<close>

definition drop_last_assistant :: "'x host \<Rightarrow> 'x host" where
  "drop_last_assistant h =
     (if ag_messages h \<noteq> [] \<and> is_assistant (last (ag_messages h))
      then h\<lparr>ag_messages := butlast (ag_messages h)\<rparr> else h)"

text \<open>
  The result says whether a retry was initiated. The handler then sleeps: \<open>ss_retrying\<close> is
  set until the timer (\<open>retry_elapsed\<close>) or \<open>abortRetry\<close> wakes it.
\<close>

definition handleRetryableError :: "assistant_message \<Rightarrow> 'x host \<Rightarrow> bool \<times> 'x host" where
  "handleRetryableError message h =
     (let settings = ss_settings (ses h)
      in if \<not> st_retryEnabled settings then (False, on_ses resolveRetry h)
         else
           (let attempt = ss_retryAttempt (ses h) + 1;
                h1 = on_ses (\<lambda>s. s\<lparr>ss_retryPromise := True, ss_retryAttempt := attempt\<rparr>) h
            in if attempt > st_maxRetries settings
               then (False, on_ses (\<lambda>s. resolveRetry
                      ((emit_session (AutoRetryEnd False (attempt - 1) (am_errorMessage message)) s)\<lparr>ss_retryAttempt := 0\<rparr>)) h1)
               else
                 (let delayMs = st_baseDelayMs settings * 2 ^ (attempt - 1);
                      errorMessage = (case truthy (am_errorMessage message) of Some e \<Rightarrow> e | None \<Rightarrow> js ''Unknown error'');
                      h2 = on_ses (emit_session (AutoRetryStart attempt (st_maxRetries settings) delayMs errorMessage)) h1
                  in (True, on_ses (\<lambda>s. s\<lparr>ss_retrying := Some message\<rparr>) (drop_last_assistant h2)))))"

definition retry_elapsed :: "'x host \<Rightarrow> 'x host" where
  "retry_elapsed h =
     (if ss_retrying (ses h) = None then h
      else on_ses (\<lambda>s. s\<lparr>ss_retrying := None, ss_continues := Suc (ss_continues s)\<rparr>) h)"

definition retry_cancelled :: "'x session_state \<Rightarrow> 'x session_state" where
  "retry_cancelled s =
     resolveRetry
       (emit_session (AutoRetryEnd False (ss_retryAttempt s) (Some (js ''Retry cancelled'')))
          (s\<lparr>ss_retryAttempt := 0, ss_retrying := None\<rparr>))"

section \<open>Compaction of the session\<close>

definition llm_of_model :: "chat_model \<Rightarrow> llm_model" where
  "llm_of_model m = \<lparr>mdl_reasoning = md_reasoning m, mdl_contextWindow = md_contextWindow m\<rparr>"

text \<open>What a compaction appends, and whether an extension provided it.\<close>

record compaction_content =
  cc_summary :: jsstring
  cc_firstKeptEntryId :: jsstring
  cc_tokensBefore :: nat
  cc_details :: "json option"
  cc_fromExtension :: bool

datatype compaction_outcome =
    Compacted compaction_content
  | CompactionCancelled
  | CompactionAborted
  | CompactionFailed jsstring

definition before_compact_result ::
    "'x session_env \<Rightarrow> compaction_preparation \<Rightarrow> session_entry list \<Rightarrow> jsstring option \<Rightarrow> 'x session_state
     \<Rightarrow> before_compact \<times> 'x session_state" where
  "before_compact_result env preparation pathEntries customInstructions s =
     (case xe_beforeCompact env of
        None \<Rightarrow> (CompactDefault, s)
      | Some hook \<Rightarrow> outside (hook preparation pathEntries customInstructions) s)"

text \<open>
  The part both compactions share: the extensions' hook, the summary, and the abort signal
  once the content is there.
\<close>

definition make_compaction ::
    "'x session_env \<Rightarrow> compaction_preparation \<Rightarrow> session_entry list \<Rightarrow> chat_model \<Rightarrow> jsstring option
     \<Rightarrow> 'x session_state \<Rightarrow> compaction_outcome \<times> 'x session_state" where
  "make_compaction env preparation pathEntries model customInstructions s =
     (case before_compact_result env preparation pathEntries customInstructions s of
        (CompactCancel, s1) \<Rightarrow> (CompactionCancelled, s1)
      | (CompactWith summary kept tokens details, s1) \<Rightarrow>
          (if xe_aborted env (ss_outside s1) then (CompactionAborted, s1)
           else (Compacted \<lparr>cc_summary = summary, cc_firstKeptEntryId = kept, cc_tokensBefore = tokens,
                   cc_details = details, cc_fromExtension = True\<rparr>, s1))
      | (CompactDefault, s1) \<Rightarrow>
          (case outside (compact_conversation (xe_llm env) preparation (llm_of_model model) customInstructions
                   (Some (ss_thinkingLevel s1))) s1 of
             (Inl e, s2) \<Rightarrow> (CompactionFailed e, s2)
           | (Inr r, s2) \<Rightarrow>
               (if xe_aborted env (ss_outside s2) then (CompactionAborted, s2)
                else (Compacted \<lparr>cc_summary = cr_summary r, cc_firstKeptEntryId = cr_firstKeptEntryId r,
                        cc_tokensBefore = cr_tokensBefore r, cc_details = Some (cr_details r),
                        cc_fromExtension = False\<rparr>, s2))))"

text \<open>\<open>result\<close> of the end event; the model's record needs details.\<close>

definition content_result :: "compaction_content \<Rightarrow> compaction_result" where
  "content_result c =
     \<lparr>cr_summary = cc_summary c, cr_firstKeptEntryId = cc_firstKeptEntryId c,
      cr_tokensBefore = cc_tokensBefore c,
      cr_details = (case cc_details c of Some d \<Rightarrow> d | None \<Rightarrow> JNull)\<rparr>"

definition saved_compaction :: "jsstring \<Rightarrow> session_manager \<Rightarrow> session_entry option" where
  "saved_compaction summary sm =
     find (\<lambda>e. case e_payload e of Compaction c \<Rightarrow> c_summary c = summary | _ \<Rightarrow> False) (getEntries sm)"

text \<open>The entry is appended, the agent's transcript becomes the session's context. \<open>None\<close>: a damaged tree.\<close>

definition apply_compaction :: "'x session_env \<Rightarrow> compaction_content \<Rightarrow> 'x host \<Rightarrow> 'x host option" where
  "apply_compaction env c h =
     (let h1 = on_ses (\<lambda>s. snd (store env (appendCompaction (cc_summary c) (cc_firstKeptEntryId c)
                 (cc_tokensBefore c) (cc_details c) (cc_fromExtension c)) s)) h
      in map_option
           (\<lambda>context.
              (let h2 = h1\<lparr>ag_messages := sc_messages context\<rparr>
               in case saved_compaction (cc_summary c) (ss_manager (ses h2)) of
                    Some e \<Rightarrow> on_ses (tell_extensions env (XSessionCompact e (cc_fromExtension c))) h2
                  | None \<Rightarrow> h2))
           (sessionContext (ss_manager (ses h1))))"

section \<open>Automatic compaction\<close>

definition schedule_continue :: "'x host \<Rightarrow> 'x host" where
  "schedule_continue = on_ses (\<lambda>s. s\<lparr>ss_continues := Suc (ss_continues s)\<rparr>)"

fun is_error_message :: "agent_message \<Rightarrow> bool" where
  "is_error_message (Assistant m) = (am_stopReason m = ErrorR)"
| "is_error_message _ = False"

definition drop_last_error :: "'x host \<Rightarrow> 'x host" where
  "drop_last_error h =
     (if ag_messages h \<noteq> [] \<and> is_error_message (last (ag_messages h))
      then h\<lparr>ag_messages := butlast (ag_messages h)\<rparr> else h)"

definition end_compaction ::
    "compaction_reason \<Rightarrow> bool \<Rightarrow> jsstring option \<Rightarrow> 'x host \<Rightarrow> 'x host" where
  "end_compaction reason aborted errorMessage =
     on_ses (emit_session (CompactionEnd reason None aborted False errorMessage))"

definition failure_text :: "compaction_reason \<Rightarrow> jsstring \<Rightarrow> jsstring" where
  "failure_text reason e =
     (if reason = OverflowC then js ''Context overflow recovery failed: '' @ e else js ''Auto-compaction failed: '' @ e)"

definition runAutoCompaction :: "'x session_env \<Rightarrow> compaction_reason \<Rightarrow> bool \<Rightarrow> 'x host \<Rightarrow> 'x host option" where
  "runAutoCompaction env reason willRetry h0 =
     (let h = on_ses (emit_session (CompactionStart reason)) h0
      in case ss_model (ses h) of
           None \<Rightarrow> Some (end_compaction reason False None h)
         | Some model \<Rightarrow>
             (case run_ses (outside (xe_auth env model)) h of
                (authResult, h1) \<Rightarrow>
                  (if (case authResult of Inl _ \<Rightarrow> True | Inr key \<Rightarrow> truthy key = None)
                   then Some (end_compaction reason False None h1)
                   else
                     Option.bind (getBranch (ss_manager (ses h1)) None) (\<lambda>pathEntries.
                     Option.bind (prepareCompaction pathEntries (st_compaction (ss_settings (ses h1)))) (\<lambda>prep.
                       (case prep of
                          None \<Rightarrow> Some (end_compaction reason False None h1)
                        | Some preparation \<Rightarrow>
                            (case run_ses (make_compaction env preparation pathEntries model None) h1 of
                               (CompactionCancelled, h2) \<Rightarrow> Some (end_compaction reason True None h2)
                             | (CompactionAborted, h2) \<Rightarrow> Some (end_compaction reason True None h2)
                             | (CompactionFailed e, h2) \<Rightarrow>
                                 Some (end_compaction reason False (Some (failure_text reason e)) h2)
                             | (Compacted c, h2) \<Rightarrow>
                                 map_option
                                   (\<lambda>h3.
                                      (let h4 = on_ses (emit_session
                                              (CompactionEnd reason (Some (content_result c)) False willRetry None)) h3
                                       in if willRetry then schedule_continue (drop_last_error h4)
                                          else if hasQueuedMessages (ag_env h4) then schedule_continue h4
                                          else h4))
                                   (apply_compaction env c h2))))))))"

text \<open>The tokens a response says the context has; \<open>None\<close> when nothing current says it.\<close>

definition context_tokens :: "assistant_message \<Rightarrow> session_entry option \<Rightarrow> agent_message list \<Rightarrow> nat option" where
  "context_tokens message compactionEntry messages =
     (if am_stopReason message = ErrorR
      then
        (let estimate = estimateContextTokens messages
         in case ce_lastUsageIndex estimate of
              None \<Rightarrow> None
            | Some i \<Rightarrow>
                (case (compactionEntry, messages ! i) of
                   (Some e, Assistant u) \<Rightarrow>
                     if am_timestamp u \<le> e_timestamp e then None else Some (ce_tokens estimate)
                 | _ \<Rightarrow> Some (ce_tokens estimate)))
      else Some (calculateContextTokens (am_usage message)))"

definition OVERFLOW_TWICE :: jsstring where
  "OVERFLOW_TWICE = js ''Context overflow recovery failed after one compact-and-retry attempt. Try reducing context or switching to a larger-context model.''"

definition checkCompaction :: "'x session_env \<Rightarrow> assistant_message \<Rightarrow> bool \<Rightarrow> 'x host \<Rightarrow> 'x host option" where
  "checkCompaction env message skipAbortedCheck h =
     (let s = ses h; settings = st_compaction (ss_settings s)
      in if \<not> cs_enabled settings then Some h
         else if skipAbortedCheck \<and> am_stopReason message = AbortedR then Some h
         else
           (let sameModel =
                  (case ss_model s of
                     Some m \<Rightarrow> am_provider message = md_provider m \<and> am_model message = md_id m
                   | None \<Rightarrow> False)
            in Option.bind (getBranch (ss_manager s) None) (\<lambda>path.
                 (let compactionEntry = getLatestCompactionEntry path
                  in if (case compactionEntry of Some e \<Rightarrow> am_timestamp message \<le> e_timestamp e | None \<Rightarrow> False)
                     then Some h
                     else if sameModel \<and> isContextOverflow message (contextWindow s)
                     then
                       (if ss_overflowRecoveryAttempted s
                        then Some (end_compaction OverflowC False (Some OVERFLOW_TWICE) h)
                        else runAutoCompaction env OverflowC True
                               (drop_last_assistant (on_ses (\<lambda>s. s\<lparr>ss_overflowRecoveryAttempted := True\<rparr>) h)))
                     else
                       (case context_tokens message compactionEntry (ag_messages h) of
                          None \<Rightarrow> Some h
                        | Some tokens \<Rightarrow>
                            if shouldCompact tokens (contextWindow s) settings
                            then runAutoCompaction env ThresholdC False h
                            else Some h)))))"

section \<open>Processing the queue of events\<close>

text \<open>After a retry that ended or was not made.\<close>

definition settle_end :: "'x session_env \<Rightarrow> assistant_message \<Rightarrow> 'x host \<Rightarrow> 'x host option" where
  "settle_end env msg h = checkCompaction env msg True (on_ses resolveRetry h)"

definition agent_ended :: "'x session_env \<Rightarrow> agent_event \<Rightarrow> 'x host \<Rightarrow> 'x host option" where
  "agent_ended env event h =
     (case (event, ss_lastAssistant (ses h)) of
        (AgentEnd _, Some msg) \<Rightarrow>
          (let h1 = on_ses (\<lambda>s. s\<lparr>ss_lastAssistant := None\<rparr>) h
           in if isRetryableError (contextWindow (ses h1)) msg
              then (case handleRetryableError msg h1 of
                      (True, h2) \<Rightarrow> Some h2
                    | (False, h2) \<Rightarrow> settle_end env msg h2)
              else settle_end env msg h1)
      | _ \<Rightarrow> Some h)"

definition processAgentEvent :: "'x session_env \<Rightarrow> agent_event \<Rightarrow> 'x host \<Rightarrow> 'x host option" where
  "processAgentEvent env event h =
     agent_ended env event
       (on_ses (\<lambda>s.
          message_ended env event
            (emit_session (AgentEv event)
              (emitExtensionEvent env event
                (user_message_started event s)))) h)"

text \<open>One event of the queue; a sleeping handler holds the queue.\<close>

definition process_next :: "'x session_env \<Rightarrow> 'x host \<Rightarrow> 'x host option" where
  "process_next env h =
     (case ss_events (ses h) of
        [] \<Rightarrow> Some h
      | event # rest \<Rightarrow>
          (if ss_retrying (ses h) \<noteq> None then Some h
           else processAgentEvent env event (on_ses (\<lambda>s. s\<lparr>ss_events := rest\<rparr>) h)))"

definition abortRetry :: "'x session_env \<Rightarrow> 'x host \<Rightarrow> 'x host option" where
  "abortRetry env h =
     (case ss_retrying (ses h) of
        None \<Rightarrow> Some (on_ses resolveRetry h)
      | Some msg \<Rightarrow> settle_end env msg (on_ses (\<lambda>s. retry_cancelled (resolveRetry s)) h))"

section \<open>Manual compaction\<close>

text \<open>
  \<open>compact\<close> disconnects, aborts and waits until the agent is idle (\<open>compact_begin\<close>, then the run's
  own events, which the session does not see); then it compacts and reconnects.
\<close>

definition compact_begin :: "'x session_env \<Rightarrow> 'x host \<Rightarrow> 'x host option" where
  "compact_begin env h = map_option abort (abortRetry env (disconnectFromAgent h))"

definition getRequiredRequestAuth ::
    "'x session_env \<Rightarrow> chat_model \<Rightarrow> 'x session_state \<Rightarrow> (jsstring + jsstring) \<times> 'x session_state" where
  "getRequiredRequestAuth env model s =
     (case outside (xe_auth env model) s of
        (Inl e, s1) \<Rightarrow>
          (Inl (if prefix (js ''No API key found'') e then xe_noKeyMessage env (md_provider model) else e), s1)
      | (Inr key, s1) \<Rightarrow>
          (case truthy key of
             Some k \<Rightarrow> (Inr k, s1)
           | None \<Rightarrow>
               (Inl (if xe_isOAuth env model
                     then js ''Authentication failed for \"'' @ md_provider model @ js ''\". ''
                          @ js ''Credentials may have expired or network is unavailable. ''
                          @ js ''Run '' @ [39] @ js ''/login '' @ md_provider model @ [39] @ js '' to re-authenticate.''
                     else xe_noKeyMessage env (md_provider model)), s1)))"

text \<open>The content of a manual compaction, or the message of what it throws.\<close>

definition manual_content :: "'x session_env \<Rightarrow> jsstring option \<Rightarrow> 'x host
    \<Rightarrow> ((jsstring + compaction_content) \<times> 'x host) option" where
  "manual_content env customInstructions h =
     (case ss_model (ses h) of
        None \<Rightarrow> Some (Inl (xe_noModelMessage env), h)
      | Some model \<Rightarrow>
          (case run_ses (getRequiredRequestAuth env model) h of
             (Inl e, h1) \<Rightarrow> Some (Inl e, h1)
           | (Inr _, h1) \<Rightarrow>
               Option.bind (getBranch (ss_manager (ses h1)) None) (\<lambda>pathEntries.
               Option.bind (prepareCompaction pathEntries (st_compaction (ss_settings (ses h1)))) (\<lambda>prep.
                 (case prep of
                    None \<Rightarrow>
                      Some (Inl (if pathEntries \<noteq> [] \<and> is_compaction (last pathEntries) then js ''Already compacted''
                                 else js ''Nothing to compact (session too small)''), h1)
                  | Some preparation \<Rightarrow>
                      (case run_ses (make_compaction env preparation pathEntries model customInstructions) h1 of
                         (CompactionCancelled, h2) \<Rightarrow> Some (Inl (js ''Compaction cancelled''), h2)
                       | (CompactionAborted, h2) \<Rightarrow> Some (Inl (js ''Compaction cancelled''), h2)
                       | (CompactionFailed e, h2) \<Rightarrow> Some (Inl e, h2)
                       | (Compacted c, h2) \<Rightarrow> Some (Inr c, h2)))))))"

definition compact_finish :: "'x session_env \<Rightarrow> jsstring option \<Rightarrow> 'x host
    \<Rightarrow> ((jsstring + compaction_result) \<times> 'x host) option" where
  "compact_finish env customInstructions h0 =
     Option.bind (manual_content env customInstructions (on_ses (emit_session (CompactionStart ManualC)) h0))
       (\<lambda>(r, h).
          (case r of
             Inl e \<Rightarrow>
               (let aborted = (e = js ''Compaction cancelled'')
                in Some (Inl e, reconnectToAgent (end_compaction ManualC aborted
                     (if aborted then None else Some (js ''Compaction failed: '' @ e)) h)))
           | Inr c \<Rightarrow>
               map_option
                 (\<lambda>h1. (Inr (content_result c), reconnectToAgent (on_ses (emit_session
                          (CompactionEnd ManualC (Some (content_result c)) False False None)) h1)))
                 (apply_compaction env c h)))"

end
