(* ===== verification/Agent_Session_Input.thy ===== *)
theory Agent_Session_Input
  imports Agent_Session_Recovery
begin

text \<open>
  What a user and extensions send to the session: skills, queues, bash results, prompts and
  custom messages; \<open>agent-session.ts\<close>.
\<close>

section \<open>Skills\<close>

definition skill_block :: "skill \<Rightarrow> jsstring \<Rightarrow> jsstring" where
  "skill_block skill body =
     js ''<skill name=\"'' @ sk_name skill @ js ''\" location=\"'' @ sk_filePath skill @ js ''\">'' @ nl
     @ js ''References are relative to '' @ sk_baseDir skill @ js ''.'' @ nl @ nl @ body @ nl @ js ''</skill>''"

text \<open>\<open>xe_skillBody\<close> reads the file and strips its front matter; \<open>None\<close> when that throws.\<close>

definition expandSkillCommand :: "'x session_env \<Rightarrow> jsstring \<Rightarrow> 'x \<Rightarrow> jsstring" where
  "expandSkillCommand env t x =
     (if \<not> prefix (js ''/skill:'') t then t
      else
        (let (skillName, args) =
               (case index_of (\<lambda>c. c = 32) t of
                  None \<Rightarrow> (drop 7 t, [])
                | Some i \<Rightarrow> (sub_list 7 i t, trim_js (drop (i + 1) t)))
         in case find (\<lambda>s. sk_name s = skillName) (xe_skills env) of
              None \<Rightarrow> t
            | Some skill \<Rightarrow>
                (case xe_skillBody env skill x of
                   None \<Rightarrow> t
                 | Some body \<Rightarrow>
                     (let block = skill_block skill (trim_js body)
                      in if args \<noteq> [] then block @ nl @ nl @ args else block))))"

definition expand_text :: "'x session_env \<Rightarrow> jsstring \<Rightarrow> 'x session_state \<Rightarrow> jsstring" where
  "expand_text env t s = expandPromptTemplate (expandSkillCommand env t (ss_outside s)) (xe_templates env)"

section \<open>Queues\<close>

definition user_of :: "jsstring \<Rightarrow> user_block list \<Rightarrow> int \<Rightarrow> agent_message" where
  "user_of t images now = User \<lparr>um_content = UBlocks (TextBlock t None # images), um_timestamp = now\<rparr>"

text \<open>No images and an empty list of images are the same.\<close>

definition queueSteer :: "'x session_env \<Rightarrow> jsstring \<Rightarrow> user_block list \<Rightarrow> 'x host \<Rightarrow> 'x host" where
  "queueSteer env t images h =
     (case run_ses (\<lambda>s. outside (xe_clock env)
              (emitQueueUpdate (s\<lparr>ss_steeringMessages := ss_steeringMessages s @ [t]\<rparr>))) h of
        (now, h1) \<Rightarrow> update_env (steer (user_of t images now)) h1)"

definition queueFollowUp :: "'x session_env \<Rightarrow> jsstring \<Rightarrow> user_block list \<Rightarrow> 'x host \<Rightarrow> 'x host" where
  "queueFollowUp env t images h =
     (case run_ses (\<lambda>s. outside (xe_clock env)
              (emitQueueUpdate (s\<lparr>ss_followUpMessages := ss_followUpMessages s @ [t]\<rparr>))) h of
        (now, h1) \<Rightarrow> update_env (followUp (user_of t images now)) h1)"

definition throwIfExtensionCommand :: "'x session_env \<Rightarrow> jsstring \<Rightarrow> jsstring option" where
  "throwIfExtensionCommand env t =
     (let commandName = fst (command_split t)
      in if xe_command env commandName \<noteq> None
         then Some (js ''Extension command \"/'' @ commandName
                    @ js ''\" cannot be queued. Use prompt() or execute the command when not streaming.'')
         else None)"

definition queue_text ::
    "'x session_env \<Rightarrow> (jsstring \<Rightarrow> 'x host \<Rightarrow> 'x host) \<Rightarrow> jsstring \<Rightarrow> 'x host \<Rightarrow> (jsstring + unit) \<times> 'x host" where
  "queue_text env queue t h =
     (case (if prefix (js ''/'') t then throwIfExtensionCommand env t else None) of
        Some e \<Rightarrow> (Inl e, h)
      | None \<Rightarrow> (Inr (), queue (expand_text env t (ses h)) h))"

definition steer_session ::
    "'x session_env \<Rightarrow> jsstring \<Rightarrow> user_block list \<Rightarrow> 'x host \<Rightarrow> (jsstring + unit) \<times> 'x host" where
  "steer_session env t images = queue_text env (\<lambda>e. queueSteer env e images) t"

definition followUp_session ::
    "'x session_env \<Rightarrow> jsstring \<Rightarrow> user_block list \<Rightarrow> 'x host \<Rightarrow> (jsstring + unit) \<times> 'x host" where
  "followUp_session env t images = queue_text env (\<lambda>e. queueFollowUp env e images) t"

definition clearQueue :: "'x host \<Rightarrow> (jsstring list \<times> jsstring list) \<times> 'x host" where
  "clearQueue h =
     ((ss_steeringMessages (ses h), ss_followUpMessages (ses h)),
      on_ses emitQueueUpdate
        (update_env clearAllQueues
          (on_ses (\<lambda>s. s\<lparr>ss_steeringMessages := [], ss_followUpMessages := []\<rparr>) h)))"

definition pendingMessageCount :: "'x session_state \<Rightarrow> nat" where
  "pendingMessageCount s = length (ss_steeringMessages s) + length (ss_followUpMessages s)"

text \<open>\<open>abort\<close> up to its wait for the agent to become idle.\<close>

definition abort_session :: "'x session_env \<Rightarrow> 'x host \<Rightarrow> 'x host option" where
  "abort_session env h = map_option abort (abortRetry env h)"

section \<open>Bash results\<close>

record bash_outcome =
  bx_output :: jsstring
  bx_exitCode :: "int option"
  bx_cancelled :: bool
  bx_truncated :: bool
  bx_fullOutputPath :: "jsstring option"

text \<open>A bash message goes to the agent's transcript and to the session.\<close>

definition add_bash :: "'x session_env \<Rightarrow> bash_execution_message \<Rightarrow> 'x host \<Rightarrow> 'x host" where
  "add_bash env m h =
     on_ses (\<lambda>s. snd (store env (appendMessage (BashExecution m)) s))
       (h\<lparr>ag_messages := ag_messages h @ [BashExecution m]\<rparr>)"

definition recordBashResult :: "'x session_env \<Rightarrow> jsstring \<Rightarrow> bash_outcome \<Rightarrow> bool \<Rightarrow> 'x host \<Rightarrow> 'x host" where
  "recordBashResult env command result excludeFromContext h =
     (case run_ses (outside (xe_clock env)) h of
        (now, h1) \<Rightarrow>
          (let m = \<lparr>be_command = command, be_output = bx_output result, be_exitCode = bx_exitCode result,
                    be_cancelled = bx_cancelled result, be_truncated = bx_truncated result,
                    be_fullOutputPath = bx_fullOutputPath result, be_timestamp = now,
                    be_excludeFromContext = excludeFromContext\<rparr>
           in if ag_isStreaming h1 then on_ses (\<lambda>s. s\<lparr>ss_pendingBash := ss_pendingBash s @ [m]\<rparr>) h1
              else add_bash env m h1))"

definition flushPendingBashMessages :: "'x session_env \<Rightarrow> 'x host \<Rightarrow> 'x host" where
  "flushPendingBashMessages env h =
     (if ss_pendingBash (ses h) = [] then h
      else on_ses (\<lambda>s. s\<lparr>ss_pendingBash := []\<rparr>) (fold (add_bash env) (ss_pendingBash (ses h)) h))"

definition hasPendingBashMessages :: "'x session_state \<Rightarrow> bool" where
  "hasPendingBashMessages s \<longleftrightarrow> length (ss_pendingBash s) > 0"

section \<open>Prompting\<close>

datatype streaming_behavior = SteerB | FollowUpB

record prompt_options =
  po_expandPromptTemplates :: bool
  po_images :: "user_block list"
  po_streamingBehavior :: "streaming_behavior option"

text \<open>What the first half of \<open>prompt\<close> decides: it throws, it is done, or it has text to send.\<close>

datatype prompt_decision = PromptThrows jsstring | PromptDone | PromptSend jsstring "user_block list"

definition tryExecuteExtensionCommand :: "'x session_env \<Rightarrow> jsstring \<Rightarrow> 'x session_state \<Rightarrow> bool \<times> 'x session_state" where
  "tryExecuteExtensionCommand env t s =
     (case command_split t of
        (commandName, args) \<Rightarrow>
          (case xe_command env commandName of
             None \<Rightarrow> (False, s)
           | Some handler \<Rightarrow> (True, s\<lparr>ss_outside := handler args (ss_outside s)\<rparr>)))"

definition intercept_input ::
    "'x session_env \<Rightarrow> jsstring \<Rightarrow> user_block list \<Rightarrow> 'x session_state
     \<Rightarrow> (jsstring \<times> user_block list) option \<times> 'x session_state" where
  "intercept_input env t images s =
     (case xe_input env of
        None \<Rightarrow> (Some (t, images), s)
      | Some hook \<Rightarrow>
          (case outside (hook t images) s of
             (InputContinue, s1) \<Rightarrow> (Some (t, images), s1)
           | (InputHandled, s1) \<Rightarrow> (None, s1)
           | (InputTransform t' images', s1) \<Rightarrow>
               (Some (t', case images' of Some i \<Rightarrow> i | None \<Rightarrow> images), s1)))"

definition prompt_input_text ::
    "'x session_env \<Rightarrow> jsstring \<Rightarrow> prompt_options \<Rightarrow> 'x session_state
     \<Rightarrow> (jsstring \<times> user_block list) option \<times> 'x session_state" where
  "prompt_input_text env t opt s =
     (case (if po_expandPromptTemplates opt \<and> prefix (js ''/'') t then tryExecuteExtensionCommand env t s
            else (False, s)) of
        (True, s1) \<Rightarrow> (None, s1)
      | (False, s1) \<Rightarrow>
          (case intercept_input env t (po_images opt) s1 of
             (None, s2) \<Rightarrow> (None, s2)
           | (Some (t2, images), s2) \<Rightarrow>
               (Some (if po_expandPromptTemplates opt then expand_text env t2 s2 else t2, images), s2)))"

definition ALREADY_STREAMING :: jsstring where
  "ALREADY_STREAMING = js ''Agent is already processing. Specify streamingBehavior ('' @ [39] @ js ''steer'' @ [39]
     @ js '' or '' @ [39] @ js ''followUp'' @ [39] @ js '') to queue the message.''"

definition prompt_decide ::
    "'x session_env \<Rightarrow> jsstring \<Rightarrow> prompt_options \<Rightarrow> 'x host \<Rightarrow> prompt_decision \<times> 'x host" where
  "prompt_decide env t opt h =
     (case run_ses (prompt_input_text env t opt) h of
        (None, h1) \<Rightarrow> (PromptDone, h1)
      | (Some (expandedText, images), h1) \<Rightarrow>
          (if ag_isStreaming h1
           then
             (case po_streamingBehavior opt of
                None \<Rightarrow> (PromptThrows ALREADY_STREAMING, h1)
              | Some FollowUpB \<Rightarrow> (PromptDone, queueFollowUp env expandedText images h1)
              | Some SteerB \<Rightarrow> (PromptDone, queueSteer env expandedText images h1))
           else (PromptSend expandedText images, h1)))"

definition auth_error :: "'x session_env \<Rightarrow> chat_model \<Rightarrow> jsstring option" where
  "auth_error env model =
     (if xe_hasAuth env model then None
      else Some
        (if xe_isOAuth env model
         then js ''Authentication failed for \"'' @ md_provider model @ js ''\". ''
              @ js ''Credentials may have expired or network is unavailable. ''
              @ js ''Run '' @ [39] @ js ''/login '' @ md_provider model @ [39] @ js '' to re-authenticate.''
         else xe_noKeyMessage env (md_provider model)))"

definition findLastAssistantMessage :: "'x host \<Rightarrow> assistant_message option" where
  "findLastAssistantMessage h = findLastAssistantInMessages (ag_messages h)"

definition custom_of :: "custom_message_data \<Rightarrow> int \<Rightarrow> agent_message" where
  "custom_of c now =
     Custom \<lparr>cm_customType = cmd_customType c, cm_content = cmd_content c, cm_display = cmd_display c,
             cm_details = cmd_details c, cm_timestamp = now\<rparr>"

fun customs_of ::
    "'x session_env \<Rightarrow> custom_message_data list \<Rightarrow> 'x session_state \<Rightarrow> agent_message list \<times> 'x session_state" where
  "customs_of env [] s = ([], s)"
| "customs_of env (c # cs) s =
     (case outside (xe_clock env) s of
        (now, s1) \<Rightarrow> (case customs_of env cs s1 of (ms, s2) \<Rightarrow> (custom_of c now # ms, s2)))"

text \<open>The user's message, the asides, and the messages of extensions; the system prompt of the turn.\<close>

definition prompt_messages ::
    "'x session_env \<Rightarrow> jsstring \<Rightarrow> user_block list \<Rightarrow> 'x host \<Rightarrow> agent_message list \<times> 'x host" where
  "prompt_messages env expandedText images h =
     (case run_ses (outside (xe_clock env)) h of
        (now, h1) \<Rightarrow>
          (let asides = ss_pendingNextTurn (ses h1);
               h2 = on_ses (\<lambda>s. s\<lparr>ss_pendingNextTurn := []\<rparr>) h1
           in case run_ses (outside (xe_beforeAgentStart env expandedText images (ss_baseSystemPrompt (ses h2)))) h2 of
                ((customs, systemPrompt), h3) \<Rightarrow>
                  (case run_ses (customs_of env customs) h3 of
                     (ms, h4) \<Rightarrow>
                       (user_of expandedText images now # asides @ ms,
                        h4\<lparr>ag_systemPrompt :=
                             (case truthy systemPrompt of Some p \<Rightarrow> p | None \<Rightarrow> ss_baseSystemPrompt (ses h4))\<rparr>))))"

text \<open>
  The rest of \<open>prompt\<close> up to the run: pending bash results, the model and its key, and a
  compaction that the last response calls for.
\<close>

definition prompt_prepare ::
    "'x session_env \<Rightarrow> jsstring \<Rightarrow> user_block list \<Rightarrow> 'x host
     \<Rightarrow> ((jsstring + agent_message list) \<times> 'x host) option" where
  "prompt_prepare env expandedText images h =
     (let h1 = flushPendingBashMessages env h
      in case ss_model (ses h1) of
           None \<Rightarrow> Some (Inl (xe_noModelMessage env), h1)
         | Some model \<Rightarrow>
             (case auth_error env model of
                Some e \<Rightarrow> Some (Inl e, h1)
              | None \<Rightarrow>
                  map_option
                    (\<lambda>h2. case prompt_messages env expandedText images h2 of (ms, h3) \<Rightarrow> (Inr ms, h3))
                    (case findLastAssistantMessage h1 of
                       Some m \<Rightarrow> checkCompaction env m False h1
                     | None \<Rightarrow> Some h1)))"

text \<open>
  \<open>prompt\<close> up to its wait for a retry: \<open>None\<close> when a walk of the tree or the run does not
  return. It returns to its caller once \<open>waiting_for_retry\<close> is false and the agent is idle.
\<close>

definition prompt_session ::
    "'x session_env \<Rightarrow> 'x session_state agent_options \<Rightarrow> (nat \<Rightarrow> nat list) \<Rightarrow> nat \<Rightarrow> jsstring \<Rightarrow> prompt_options
     \<Rightarrow> 'x session_state run" where
  "prompt_session env opts schedules fuel t opt h =
     (case prompt_decide env t opt h of
        (PromptThrows e, h1) \<Rightarrow> Some (Inl e, h1)
      | (PromptDone, h1) \<Rightarrow> Some (Inr (), h1)
      | (PromptSend expandedText images, h1) \<Rightarrow>
          Option.bind (prompt_prepare env expandedText images h1)
            (\<lambda>(r, h2). case r of
               Inl e \<Rightarrow> Some (Inl e, h2)
             | Inr messages \<Rightarrow> prompt opts schedules fuel (PromptMessages messages) h2))"

definition waiting_for_retry :: "'x session_state \<Rightarrow> bool" where
  "waiting_for_retry s \<longleftrightarrow> ss_retryPromise s"

text \<open>A scheduled \<open>agent.continue()\<close>, whose rejection is ignored.\<close>

definition run_continue ::
    "'x session_state agent_options \<Rightarrow> (nat \<Rightarrow> nat list) \<Rightarrow> nat \<Rightarrow> 'x host \<Rightarrow> 'x host option" where
  "run_continue opts schedules fuel h =
     (if ss_continues (ses h) = 0 then Some h
      else map_option snd
        (continue_run opts schedules fuel (on_ses (\<lambda>s. s\<lparr>ss_continues := ss_continues s - 1\<rparr>) h)))"

section \<open>Messages from extensions\<close>

datatype deliver_as = DeliverSteer | DeliverFollowUp | DeliverNextTurn

definition sendCustomMessage ::
    "'x session_env \<Rightarrow> 'x session_state agent_options \<Rightarrow> (nat \<Rightarrow> nat list) \<Rightarrow> nat \<Rightarrow> custom_message_data \<Rightarrow> bool
     \<Rightarrow> deliver_as option \<Rightarrow> 'x session_state run" where
  "sendCustomMessage env opts schedules fuel c triggerTurn deliverAs h =
     (case run_ses (outside (xe_clock env)) h of
        (now, h1) \<Rightarrow>
          (let appMessage = custom_of c now
           in if deliverAs = Some DeliverNextTurn
              then Some (Inr (), on_ses (\<lambda>s. s\<lparr>ss_pendingNextTurn := ss_pendingNextTurn s @ [appMessage]\<rparr>) h1)
              else if ag_isStreaming h1
              then Some (Inr (), if deliverAs = Some DeliverFollowUp then update_env (followUp appMessage) h1
                                 else update_env (steer appMessage) h1)
              else if triggerTurn then prompt opts schedules fuel (PromptMessage appMessage) h1
              else Some (Inr (),
                on_ses (\<lambda>s. emit_session (AgentEv (MessageEnd appMessage))
                         (emit_session (AgentEv (MessageStart appMessage))
                           (snd (store env (appendCustomMessageEntry (cmd_customType c) (cmd_content c)
                                  (cmd_display c) (cmd_details c)) s))))
                  (h1\<lparr>ag_messages := ag_messages h1 @ [appMessage]\<rparr>))))"

text \<open>Texts and images of a message an extension sends as the user.\<close>

definition content_parts :: "user_content \<Rightarrow> jsstring \<times> user_block list" where
  "content_parts c =
     (case c of
        UString s \<Rightarrow> (s, [])
      | UBlocks bs \<Rightarrow>
          (join_with nl (List.map_filter text_of_user_block bs), filter (\<lambda>b. text_of_user_block b = None) bs))"

definition sendUserMessage ::
    "'x session_env \<Rightarrow> 'x session_state agent_options \<Rightarrow> (nat \<Rightarrow> nat list) \<Rightarrow> nat \<Rightarrow> user_content
     \<Rightarrow> streaming_behavior option \<Rightarrow> 'x session_state run" where
  "sendUserMessage env opts schedules fuel content deliverAs =
     (case content_parts content of
        (t, images) \<Rightarrow>
          prompt_session env opts schedules fuel t
            \<lparr>po_expandPromptTemplates = False, po_images = images, po_streamingBehavior = deliverAs\<rparr>)"

end
