(* ===== verification/Agent_Session_Models.thy ===== *)
theory Agent_Session_Models
  imports Agent_Session_Input
begin

text \<open>
  The model and the thinking level of the session and its smaller settings; \<open>agent-session.ts\<close>.
\<close>

section \<open>Thinking level\<close>

definition getAvailableThinkingLevels :: "'x session_state \<Rightarrow> jsstring list" where
  "getAvailableThinkingLevels s =
     (case ss_model s of None \<Rightarrow> THINKING_LEVELS | Some m \<Rightarrow> getSupportedThinkingLevels m)"

definition supportsThinking :: "'x session_state \<Rightarrow> bool" where
  "supportsThinking s = (case ss_model s of Some m \<Rightarrow> md_reasoning m | None \<Rightarrow> False)"

definition effective_level :: "jsstring \<Rightarrow> 'x session_state \<Rightarrow> jsstring" where
  "effective_level level s =
     (if level \<in> set (getAvailableThinkingLevels s) then level
      else (case ss_model s of Some m \<Rightarrow> clampThinkingLevel m level | None \<Rightarrow> js ''off''))"

text \<open>The level is stored in the session and the settings only when it changes.\<close>

definition apply_thinking_level :: "'x session_env \<Rightarrow> jsstring \<Rightarrow> 'x session_state \<Rightarrow> 'x session_state" where
  "apply_thinking_level env effectiveLevel s =
     (let previousLevel = ss_thinkingLevel s;
          s1 = s\<lparr>ss_thinkingLevel := effectiveLevel\<rparr>
      in if effectiveLevel = previousLevel then s1
         else
           (let s2 = snd (store env (appendThinkingLevelChange effectiveLevel) s1);
                s3 = (if supportsThinking s2 \<or> effectiveLevel \<noteq> js ''off''
                      then s2\<lparr>ss_settings := (ss_settings s2)\<lparr>st_defaultThinkingLevel := Some effectiveLevel\<rparr>\<rparr>
                      else s2)
            in tell_extensions env (XThinkingLevelSelect effectiveLevel previousLevel)
                 (emit_session (ThinkingLevelChanged effectiveLevel) s3)))"

definition setThinkingLevel :: "'x session_env \<Rightarrow> jsstring \<Rightarrow> 'x session_state \<Rightarrow> 'x session_state" where
  "setThinkingLevel env level s = apply_thinking_level env (effective_level level s) s"

text \<open>A model that supports no level at all: the next level is undefined, which is clamped to off.\<close>

definition cycleThinkingLevel :: "'x session_env \<Rightarrow> 'x session_state \<Rightarrow> jsstring option \<times> 'x session_state" where
  "cycleThinkingLevel env s =
     (if \<not> supportsThinking s then (None, s)
      else
        (let levels = getAvailableThinkingLevels s;
             nextIndex = (case index_of (\<lambda>l. l = ss_thinkingLevel s) levels of Some i \<Rightarrow> i + 1 | None \<Rightarrow> 0)
         in if levels = [] then (None, apply_thinking_level env (js ''off'') s)
            else
              (let nextLevel = levels ! (nextIndex mod length levels)
               in (Some nextLevel, setThinkingLevel env nextLevel s))))"

section \<open>Model\<close>

definition getThinkingLevelForModelSwitch :: "jsstring option \<Rightarrow> 'x session_state \<Rightarrow> jsstring" where
  "getThinkingLevelForModelSwitch explicitLevel s =
     (case explicitLevel of
        Some l \<Rightarrow> l
      | None \<Rightarrow>
          (if \<not> supportsThinking s
           then (case st_defaultThinkingLevel (ss_settings s) of Some l \<Rightarrow> l | None \<Rightarrow> DEFAULT_THINKING_LEVEL)
           else ss_thinkingLevel s))"

definition emitModelSelect ::
    "'x session_env \<Rightarrow> chat_model \<Rightarrow> chat_model option \<Rightarrow> jsstring \<Rightarrow> 'x session_state \<Rightarrow> 'x session_state" where
  "emitModelSelect env nextModel previousModel source s =
     (if modelsAreEqual previousModel (Some nextModel) then s
      else tell_extensions env (XModelSelect nextModel previousModel source) s)"

definition agent_model_of :: "chat_model \<Rightarrow> agent_model" where
  "agent_model_of m = \<lparr>mo_api = md_api m, mo_provider = md_provider m, mo_id = md_id m\<rparr>"

text \<open>The switch that \<open>setModel\<close> and both cycles make.\<close>

definition switch_model :: "'x session_env \<Rightarrow> chat_model \<Rightarrow> jsstring option \<Rightarrow> jsstring \<Rightarrow> 'x host \<Rightarrow> 'x host" where
  "switch_model env model explicitLevel source h =
     (let previousModel = ss_model (ses h);
          thinkingLevel = getThinkingLevelForModelSwitch explicitLevel (ses h)
      in on_ses (\<lambda>s. emitModelSelect env model previousModel source
                (setThinkingLevel env thinkingLevel
                  ((snd (store env (appendModelChange (md_provider model) (md_id model)) (s\<lparr>ss_model := Some model\<rparr>)))
                     \<lparr>ss_settings := (ss_settings s)\<lparr>st_defaultModel := Some (md_provider model, md_id model)\<rparr>\<rparr>)))
           (h\<lparr>ag_model := agent_model_of model\<rparr>))"

definition setModel :: "'x session_env \<Rightarrow> chat_model \<Rightarrow> 'x host \<Rightarrow> (jsstring + unit) \<times> 'x host" where
  "setModel env model h =
     (if \<not> xe_hasAuth env model
      then (Inl (js ''No API key for '' @ md_provider model @ js ''/'' @ md_id model), h)
      else (Inr (), switch_model env model None (js ''set'') h))"

datatype direction = Forward | Backward

record model_cycle_result =
  mc_model :: chat_model
  mc_thinkingLevel :: jsstring
  mc_isScoped :: bool

definition cycle_index :: "direction \<Rightarrow> nat option \<Rightarrow> nat \<Rightarrow> nat" where
  "cycle_index dir current len =
     (let currentIndex = (case current of Some i \<Rightarrow> i | None \<Rightarrow> 0)
      in if dir = Forward then (currentIndex + 1) mod len else (currentIndex + len - 1) mod len)"

definition cycleScopedModel :: "'x session_env \<Rightarrow> direction \<Rightarrow> 'x host \<Rightarrow> model_cycle_result option \<times> 'x host" where
  "cycleScopedModel env dir h =
     (let scopedModels = filter (\<lambda>sm. xe_hasAuth env (fst sm)) (ss_scopedModels (ses h))
      in if length scopedModels \<le> 1 then (None, h)
         else
           (let currentIndex = index_of (\<lambda>sm. modelsAreEqual (Some (fst sm)) (ss_model (ses h))) scopedModels;
                (model, level) = scopedModels ! cycle_index dir currentIndex (length scopedModels);
                h1 = switch_model env model level (js ''cycle'') h
            in (Some \<lparr>mc_model = model, mc_thinkingLevel = ss_thinkingLevel (ses h1), mc_isScoped = True\<rparr>, h1)))"

definition cycleAvailableModel :: "'x session_env \<Rightarrow> direction \<Rightarrow> 'x host \<Rightarrow> model_cycle_result option \<times> 'x host" where
  "cycleAvailableModel env dir h =
     (case run_ses (outside (xe_available env)) h of
        (availableModels, h0) \<Rightarrow>
          (if length availableModels \<le> 1 then (None, h0)
           else
             (let currentIndex = index_of (\<lambda>m. modelsAreEqual (Some m) (ss_model (ses h0))) availableModels;
                  model = availableModels ! cycle_index dir currentIndex (length availableModels);
                  h1 = switch_model env model None (js ''cycle'') h0
              in (Some \<lparr>mc_model = model, mc_thinkingLevel = ss_thinkingLevel (ses h1), mc_isScoped = False\<rparr>, h1))))"

definition cycleModel :: "'x session_env \<Rightarrow> direction \<Rightarrow> 'x host \<Rightarrow> model_cycle_result option \<times> 'x host" where
  "cycleModel env dir h =
     (if ss_scopedModels (ses h) \<noteq> [] then cycleScopedModel env dir h else cycleAvailableModel env dir h)"

section \<open>Other settings\<close>

definition setScopedModels :: "(chat_model \<times> jsstring option) list \<Rightarrow> 'x session_state \<Rightarrow> 'x session_state" where
  "setScopedModels models s = s\<lparr>ss_scopedModels := models\<rparr>"

definition setSteeringMode :: "queue_mode \<Rightarrow> 'x host \<Rightarrow> 'x host" where
  "setSteeringMode mode h =
     on_ses (\<lambda>s. s\<lparr>ss_settings := (ss_settings s)\<lparr>st_steeringMode := mode\<rparr>\<rparr>) (update_env (set_steeringMode mode) h)"

definition setFollowUpMode :: "queue_mode \<Rightarrow> 'x host \<Rightarrow> 'x host" where
  "setFollowUpMode mode h =
     on_ses (\<lambda>s. s\<lparr>ss_settings := (ss_settings s)\<lparr>st_followUpMode := mode\<rparr>\<rparr>) (update_env (set_followUpMode mode) h)"

definition setAutoCompactionEnabled :: "bool \<Rightarrow> 'x session_state \<Rightarrow> 'x session_state" where
  "setAutoCompactionEnabled b s =
     s\<lparr>ss_settings := (ss_settings s)\<lparr>st_compaction := (st_compaction (ss_settings s))\<lparr>cs_enabled := b\<rparr>\<rparr>\<rparr>"

definition setAutoRetryEnabled :: "bool \<Rightarrow> 'x session_state \<Rightarrow> 'x session_state" where
  "setAutoRetryEnabled b s = s\<lparr>ss_settings := (ss_settings s)\<lparr>st_retryEnabled := b\<rparr>\<rparr>"

definition setSessionName :: "'x session_env \<Rightarrow> jsstring \<Rightarrow> 'x session_state \<Rightarrow> 'x session_state" where
  "setSessionName env name s =
     (let s1 = snd (store env (appendSessionInfo name) s)
      in emit_session (SessionInfoChanged (getSessionName (ss_manager s1))) s1)"

end
