(* ===== verification/Agent_Session_Tree.thy ===== *)
theory Agent_Session_Tree
  imports Agent_Session_Models
begin

text \<open>
  Navigation in the session tree, statistics, and the export of a branch; \<open>agent-session.ts\<close>.
\<close>

section \<open>Navigating the tree\<close>

text \<open>An append that can throw: ids and clock are drawn in either case.\<close>

definition store_or ::
    "'x session_env
     \<Rightarrow> ((nat \<Rightarrow> jsstring) \<Rightarrow> iso_time \<Rightarrow> session_manager \<Rightarrow> session_fs
         \<Rightarrow> jsstring + jsstring \<times> session_manager \<times> session_fs)
     \<Rightarrow> 'x session_state \<Rightarrow> (jsstring + jsstring) \<times> 'x session_state" where
  "store_or env op s =
     (case xe_uuid env (ss_manager s) (ss_outside s) of
        (uuid, x1) \<Rightarrow>
          (case xe_clock env x1 of
             (now, x2) \<Rightarrow>
               (case op uuid now (ss_manager s) (ss_files s) of
                  Inl e \<Rightarrow> (Inl e, s\<lparr>ss_outside := x2\<rparr>)
                | Inr (i, sm, fs) \<Rightarrow> (Inr i, s\<lparr>ss_manager := sm, ss_files := fs, ss_outside := x2\<rparr>))))"

record navigate_options =
  no_summarize :: bool
  no_customInstructions :: "jsstring option"
  no_replaceInstructions :: bool
  no_label :: "jsstring option"

record navigate_result =
  nr_editorText :: "jsstring option"
  nr_cancelled :: bool
  nr_aborted :: bool
  nr_summaryEntry :: "session_entry option"

definition navigation_stopped :: "bool \<Rightarrow> bool \<Rightarrow> navigate_result" where
  "navigation_stopped cancelled aborted =
     \<lparr>nr_editorText = None, nr_cancelled = cancelled, nr_aborted = aborted, nr_summaryEntry = None\<rparr>"

definition no_before_tree :: before_tree where
  "no_before_tree =
     \<lparr>bt_cancel = False, bt_summary = None, bt_customInstructions = None, bt_replaceInstructions = None, bt_label = None\<rparr>"

text \<open>The new leaf and the text that goes to the editor.\<close>

definition navigation_target :: "session_entry \<Rightarrow> jsstring option \<times> jsstring option" where
  "navigation_target target =
     (case e_payload target of
        MessageEntry (User m) \<Rightarrow> (e_parentId target, Some (user_content_text (um_content m)))
      | CustomMessageEntry c \<Rightarrow> (e_parentId target, Some (user_content_text (cmd_content c)))
      | _ \<Rightarrow> (Some (e_id target), None))"

text \<open>The summary, when one is wanted: of an extension (\<open>True\<close>), or generated.\<close>

datatype summary_outcome =
    SummaryThrows jsstring
  | SummaryAborted
  | SummaryText "jsstring option" "json option" bool

definition navigation_summary ::
    "'x session_env \<Rightarrow> navigate_options \<Rightarrow> session_entry list \<Rightarrow> before_tree \<Rightarrow> 'x session_state
     \<Rightarrow> summary_outcome \<times> 'x session_state" where
  "navigation_summary env opt entriesToSummarize b s =
     (case (if no_summarize opt then bt_summary b else None) of
        Some (summary, details) \<Rightarrow> (SummaryText (Some summary) details True, s)
      | None \<Rightarrow>
          (if \<not> no_summarize opt \<or> entriesToSummarize = [] then (SummaryText None None False, s)
           else
             (case ss_model s of
                None \<Rightarrow> (SummaryThrows (js ''No model available for summarization''), s)
              | Some model \<Rightarrow>
                  (case getRequiredRequestAuth env model s of
                     (Inl e, s1) \<Rightarrow> (SummaryThrows e, s1)
                   | (Inr _, s1) \<Rightarrow>
                       (case outside (generateBranchSummary (xe_llm env) entriesToSummarize (llm_of_model model)
                                (case bt_customInstructions b of Some c \<Rightarrow> Some c | None \<Rightarrow> no_customInstructions opt)
                                (case bt_replaceInstructions b of Some r \<Rightarrow> r | None \<Rightarrow> no_replaceInstructions opt)
                                (st_branchReserveTokens (ss_settings s1))) s1 of
                          (Inl e, s2) \<Rightarrow> (SummaryThrows e, s2)
                        | (Inr r, s2) \<Rightarrow>
                            (if br_aborted r then (SummaryAborted, s2)
                             else
                               (case truthy (br_error r) of
                                  Some e \<Rightarrow> (SummaryThrows e, s2)
                                | None \<Rightarrow>
                                    (SummaryText (br_summary r)
                                       (Some (file_details (case br_readFiles r of Some fs \<Rightarrow> fs | None \<Rightarrow> [])
                                          (case br_modifiedFiles r of Some fs \<Rightarrow> fs | None \<Rightarrow> []))) False, s2))))))))"

text \<open>The leaf moves, with a summary entry or without, and the label is attached.\<close>

definition label_target ::
    "'x session_env \<Rightarrow> jsstring \<Rightarrow> jsstring option \<Rightarrow> 'x session_state \<Rightarrow> (jsstring + unit) \<times> 'x session_state" where
  "label_target env i label s =
     (case truthy label of
        None \<Rightarrow> (Inr (), s)
      | Some l \<Rightarrow>
          (case store_or env (appendLabelChange i (Some l)) s of
             (Inl e, s1) \<Rightarrow> (Inl e, s1)
           | (Inr _, s1) \<Rightarrow> (Inr (), s1)))"

definition switch_leaf ::
    "'x session_env \<Rightarrow> jsstring \<Rightarrow> jsstring option \<Rightarrow> jsstring option \<Rightarrow> json option \<Rightarrow> bool \<Rightarrow> jsstring option
     \<Rightarrow> 'x session_state \<Rightarrow> (jsstring + session_entry option) \<times> 'x session_state" where
  "switch_leaf env targetId newLeafId summaryText details fromExtension label s =
     (case truthy summaryText of
        Some t \<Rightarrow>
          (case store_or env (branchWithSummary newLeafId t details fromExtension) s of
             (Inl e, s1) \<Rightarrow> (Inl e, s1)
           | (Inr summaryId, s1) \<Rightarrow>
               (let summaryEntry = getEntry (ss_manager s1) summaryId
                in case label_target env summaryId label s1 of
                     (Inl e, s2) \<Rightarrow> (Inl e, s2)
                   | (Inr _, s2) \<Rightarrow> (Inr summaryEntry, s2)))
      | None \<Rightarrow>
          (case (case newLeafId of
                   None \<Rightarrow> Inr (resetLeaf (ss_manager s))
                 | Some i \<Rightarrow> branch i (ss_manager s)) of
             Inl e \<Rightarrow> (Inl e, s)
           | Inr sm \<Rightarrow>
               (case label_target env targetId label (s\<lparr>ss_manager := sm\<rparr>) of
                  (Inl e, s2) \<Rightarrow> (Inl e, s2)
                | (Inr _, s2) \<Rightarrow> (Inr None, s2))))"

definition finish_navigation ::
    "'x session_env \<Rightarrow> jsstring option \<Rightarrow> session_entry option \<Rightarrow> bool option \<Rightarrow> 'x host \<Rightarrow> 'x host option" where
  "finish_navigation env oldLeafId summaryEntry fromExtension h =
     map_option
       (\<lambda>context. on_ses (\<lambda>s. tell_extensions env
            (XSessionTree (sm_leafId (ss_manager s)) oldLeafId summaryEntry fromExtension) s)
          (h\<lparr>ag_messages := sc_messages context\<rparr>))
       (sessionContext (ss_manager (ses h)))"

definition navigate_to ::
    "'x session_env \<Rightarrow> navigate_options \<Rightarrow> jsstring option \<Rightarrow> session_entry \<Rightarrow> session_entry list \<Rightarrow> before_tree
     \<Rightarrow> 'x host \<Rightarrow> ((jsstring + navigate_result) \<times> 'x host) option" where
  "navigate_to env opt oldLeafId target entriesToSummarize b h =
     (case run_ses (navigation_summary env opt entriesToSummarize b) h of
        (SummaryThrows e, h1) \<Rightarrow> Some (Inl e, h1)
      | (SummaryAborted, h1) \<Rightarrow> Some (Inr (navigation_stopped True True), h1)
      | (SummaryText summaryText details fromExtension, h1) \<Rightarrow>
          (let (newLeafId, editorText) = navigation_target target;
               label = (case bt_label b of Some l \<Rightarrow> Some l | None \<Rightarrow> no_label opt)
           in case run_ses (switch_leaf env (e_id target) newLeafId summaryText details fromExtension label) h1 of
                (Inl e, h2) \<Rightarrow> Some (Inl e, h2)
              | (Inr summaryEntry, h2) \<Rightarrow>
                  map_option
                    (\<lambda>h3. (Inr \<lparr>nr_editorText = editorText, nr_cancelled = False, nr_aborted = False,
                                nr_summaryEntry = summaryEntry\<rparr>, h3))
                    (finish_navigation env oldLeafId summaryEntry
                       (if truthy summaryText \<noteq> None then Some fromExtension else None) h2)))"

definition navigateTree ::
    "'x session_env \<Rightarrow> jsstring \<Rightarrow> navigate_options \<Rightarrow> 'x host
     \<Rightarrow> ((jsstring + navigate_result) \<times> 'x host) option" where
  "navigateTree env targetId opt h =
     (let sm = ss_manager (ses h); oldLeafId = sm_leafId sm
      in if Some targetId = oldLeafId then Some (Inr (navigation_stopped False False), h)
         else if no_summarize opt \<and> ss_model (ses h) = None
         then Some (Inl (js ''No model available for summarization''), h)
         else
           (case getEntry sm targetId of
              None \<Rightarrow> Some (Inl (not_found targetId), h)
            | Some target \<Rightarrow>
                Option.bind (collectEntriesForBranchSummary (\<lambda>i. getBranch sm (Some i)) (getEntry sm) oldLeafId targetId)
                  (\<lambda>collected.
                    (case xe_beforeTree env of
                       None \<Rightarrow> navigate_to env opt oldLeafId target (ce_entries collected) no_before_tree h
                     | Some hook \<Rightarrow>
                         (case run_ses (outside (hook
                                  \<lparr>tp_targetId = targetId, tp_oldLeafId = oldLeafId,
                                   tp_commonAncestorId = ce_commonAncestorId collected,
                                   tp_entriesToSummarize = ce_entries collected,
                                   tp_userWantsSummary = no_summarize opt,
                                   tp_customInstructions = no_customInstructions opt,
                                   tp_replaceInstructions = no_replaceInstructions opt,
                                   tp_label = no_label opt\<rparr>)) h of
                            (b, h1) \<Rightarrow>
                              (if bt_cancel b then Some (Inr (navigation_stopped True False), h1)
                               else navigate_to env opt oldLeafId target (ce_entries collected) b h1))))))"

section \<open>Questions about the session\<close>

definition getUserMessagesForForking :: "session_manager \<Rightarrow> (jsstring \<times> jsstring) list" where
  "getUserMessagesForForking sm =
     List.map_filter
       (\<lambda>e. case e_payload e of
              MessageEntry (User m) \<Rightarrow>
                (let t = user_content_text (um_content m) in if t \<noteq> [] then Some (e_id e, t) else None)
            | _ \<Rightarrow> None)
       (getEntries sm)"

record session_stats =
  sx_userMessages :: nat
  sx_assistantMessages :: nat
  sx_toolCalls :: nat
  sx_toolResults :: nat
  sx_totalMessages :: nat
  sx_input :: nat
  sx_output :: nat
  sx_cacheRead :: nat
  sx_cacheWrite :: nat
  sx_totalTokens :: nat
  sx_cost :: rat

fun is_user :: "agent_message \<Rightarrow> bool" where
  "is_user (User _) = True"
| "is_user _ = False"

fun assistant_part :: "agent_message \<Rightarrow> assistant_message option" where
  "assistant_part (Assistant m) = Some m"
| "assistant_part _ = None"

definition getSessionStats :: "'x host \<Rightarrow> session_stats" where
  "getSessionStats h =
     (let messages = ag_messages h;
          assistants = List.map_filter assistant_part messages;
          sum_of = (\<lambda>f. sum_list (map (f \<circ> am_usage) assistants))
      in \<lparr>sx_userMessages = length (filter is_user messages),
          sx_assistantMessages = length (filter is_assistant messages),
          sx_toolCalls = sum_list (map (\<lambda>m. length (tool_calls_of (am_content m))) assistants),
          sx_toolResults = length (filter is_tool_result messages),
          sx_totalMessages = length messages,
          sx_input = sum_of u_input, sx_output = sum_of u_output,
          sx_cacheRead = sum_of u_cacheRead, sx_cacheWrite = sum_of u_cacheWrite,
          sx_totalTokens = sum_of u_input + sum_of u_output + sum_of u_cacheRead + sum_of u_cacheWrite,
          sx_cost = sum_list (map (cost_total \<circ> u_cost \<circ> am_usage) assistants)\<rparr>)"

text \<open>The tokens are unknown after a compaction until a response says them.\<close>

record session_usage =
  su_tokens :: "nat option"
  su_contextWindow :: nat
  su_percent :: "rat option"

fun completed_response :: "session_entry \<Rightarrow> assistant_message option" where
  "completed_response e =
     (case e_payload e of
        MessageEntry (Assistant m) \<Rightarrow>
          if am_stopReason m \<noteq> AbortedR \<and> am_stopReason m \<noteq> ErrorR then Some m else None
      | _ \<Rightarrow> None)"

definition hasPostCompactionUsage :: "session_entry list \<Rightarrow> nat \<Rightarrow> bool" where
  "hasPostCompactionUsage branchEntries compactionIndex =
     (case find_last (\<lambda>e. completed_response e \<noteq> None) (drop (compactionIndex + 1) branchEntries) of
        None \<Rightarrow> False
      | Some e \<Rightarrow>
          (case completed_response e of
             Some m \<Rightarrow> calculateContextTokens (am_usage m) > 0
           | None \<Rightarrow> False))"

definition getContextUsage :: "'x host \<Rightarrow> session_usage option option" where
  "getContextUsage h =
     (if contextWindow (ses h) = 0 then Some None
      else map_option
        (\<lambda>branchEntries.
           (let unknown = (case last_index_of is_compaction branchEntries of
                             Some i \<Rightarrow> \<not> hasPostCompactionUsage branchEntries i
                           | None \<Rightarrow> False);
                w = contextWindow (ses h);
                tokens = ce_tokens (estimateContextTokens (ag_messages h))
            in Some (if unknown then \<lparr>su_tokens = None, su_contextWindow = w, su_percent = None\<rparr>
                     else \<lparr>su_tokens = Some tokens, su_contextWindow = w,
                           su_percent = Some (of_nat tokens / of_nat w * 100)\<rparr>)))
        (getBranch (ss_manager (ses h)) None))"

definition getLastAssistantText :: "agent_message list \<Rightarrow> jsstring option" where
  "getLastAssistantText messages =
     (case find_last
             (\<lambda>m. case m of
                    Assistant a \<Rightarrow> \<not> (am_stopReason a = AbortedR \<and> am_content a = [])
                  | _ \<Rightarrow> False) messages of
        Some (Assistant a) \<Rightarrow>
          truthy (Some (trim_js (concat (List.map_filter text_of_assistant_block (am_content a)))))
      | _ \<Rightarrow> None)"

section \<open>Exporting the branch\<close>

fun relink :: "jsstring option \<Rightarrow> session_entry list \<Rightarrow> session_entry list" where
  "relink prevId [] = []"
| "relink prevId (e # es) = e\<lparr>e_parentId := prevId\<rparr> # relink (Some (e_id e)) es"

text \<open>The directory of the target is created when it is missing, which the file map has no part of.\<close>

definition exportToJsonl ::
    "session_path \<Rightarrow> iso_time \<Rightarrow> session_manager \<Rightarrow> session_fs \<Rightarrow> session_fs option" where
  "exportToJsonl path now sm fs =
     map_option
       (\<lambda>branchEntries.
          fs(path := Some (map Parsed
            (Header \<lparr>h_version = Some CURRENT_SESSION_VERSION, h_id = sm_sessionId sm, h_timestamp = now,
                     h_cwd = sm_cwd sm, h_parentSession = None\<rparr>
             # map Entry (relink None branchEntries)))))
       (getBranch sm None)"

end
