(* ===== verification/Agent_Session_Host.thy ===== *)
theory Agent_Session_Host
  imports Agent_Session_Tree Session_Steps Agent_Lifecycle
begin

text \<open>
  The host of a session and what the operations leave alone; storing an entry with a new id; how
  the events that are no end of a run are recorded (\<open>process_times_records\<close>).
\<close>

section \<open>Host and session\<close>

lemma ses_simps [simp]:
  "ses (on_ses f h) = f (ses h)"
  "ses (h\<lparr>ag_messages := ms\<rparr>) = ses h"
  "ses (h\<lparr>ag_systemPrompt := p\<rparr>) = ses h"
  "ses (h\<lparr>ag_model := m\<rparr>) = ses h"
  "ses (update_env g h) = ae_world (g (ag_env h))"
  by (simp_all add: ses_def on_ses_def update_env_def)

lemma on_ses_fields [simp]:
  "ag_messages (on_ses f h) = ag_messages h" "ag_listeners (on_ses f h) = ag_listeners h"
  "ag_activeRun (on_ses f h) = ag_activeRun h" "ag_isStreaming (on_ses f h) = ag_isStreaming h"
  "ae_steering (ag_env (on_ses f h)) = ae_steering (ag_env h)"
  "ae_followUp (ag_env (on_ses f h)) = ae_followUp (ag_env h)"
  "hasQueuedMessages (ag_env (on_ses f h)) = hasQueuedMessages (ag_env h)"
  by (simp_all add: on_ses_def update_env_def hasQueuedMessages_def)

lemma on_ses_comp [simp]: "on_ses f (on_ses g h) = on_ses (\<lambda>s. f (g s)) h"
  by (simp add: on_ses_def update_env_def)

lemma on_ses_id [simp]: "on_ses (\<lambda>s. s) h = h"
  by (simp add: on_ses_def update_env_def)

lemma on_ses_const: "on_ses (\<lambda>_. s) (on_ses f h) = on_ses (\<lambda>_. s) h"
  by (simp add: on_ses_def update_env_def)

lemma ses_fold: "ae_world (ag_env h) = ses h"
  by (simp add: ses_def)

lemma run_ses_same: "f (ses h) = (a, ses h) \<Longrightarrow> run_ses f h = (a, h)"
  by (simp add: run_ses_def on_ses_def update_env_def ses_def)

lemma run_ses_eq: "run_ses f h = (a, h') \<longleftrightarrow> (\<exists>s'. f (ses h) = (a, s') \<and> h' = on_ses (\<lambda>_. s') h)"
  by (auto simp: run_ses_def split: prod.splits)

lemma run_ses_fields:
  assumes "run_ses f h = (a, h')"
  shows "ag_messages h' = ag_messages h" "ag_listeners h' = ag_listeners h" "f (ses h) = (a, ses h')"
  using assms by (auto simp: run_ses_eq)

section \<open>Storing an entry\<close>

text \<open>The ids that are drawn are new to the session they are drawn for.\<close>

definition fresh_env :: "'x session_env \<Rightarrow> bool" where
  "fresh_env env \<longleftrightarrow> (\<forall>sm x. fresh_uuid (fst (xe_uuid env sm x)) sm)"

lemma store_cases:
  assumes "store env op s = (i, s')"
  obtains uuid now sm fs x where "op uuid now (ss_manager s) (ss_files s) = (i, sm, fs)"
    "s' = s\<lparr>ss_manager := sm, ss_files := fs, ss_outside := x\<rparr>" "fresh_env env \<longrightarrow> fresh_uuid uuid (ss_manager s)"
  using assms by (auto simp: store_def fresh_env_def split: prod.splits) (metis fst_conv)

lemma persist_message_context:
  assumes "fresh_env env" "wf_session (ss_manager s)" "sessionContext (ss_manager s) = Some c"
    and "m = embed_llm l"
  shows "wf_session (ss_manager (persist_message env m s)) \<and>
    (\<exists>c'. sessionContext (ss_manager (persist_message env m s)) = Some c' \<and> sc_messages c' = sc_messages c @ [m])"
proof -
  obtain i s' where st: "store env (appendMessage m) s = (i, s')" by fastforce
  have p: "persist_message env m s = s'" using assms(4) st by (cases l) auto
  from st obtain uuid now sm fs x where o: "appendMessage m uuid now (ss_manager s) (ss_files s) = (i, sm, fs)"
    "s' = s\<lparr>ss_manager := sm, ss_files := fs, ss_outside := x\<rparr>" "fresh_uuid uuid (ss_manager s)"
    using assms(1) by (blast elim: store_cases)
  from append_message_context [OF assms(2) o(3,1) assms(3)] append_new_wf [OF assms(2) o(3) o(1) [unfolded appendMessage_def]]
  show ?thesis unfolding p o(2) by simp
qed

section \<open>Events that are no end of a run\<close>

definition note_event :: "'x session_env \<Rightarrow> agent_event \<Rightarrow> 'x session_state \<Rightarrow> 'x session_state" where
  "note_event env event s =
     message_ended env event (emit_session (AgentEv event) (emitExtensionEvent env event (user_message_started event s)))"

lemma processAgentEvent_note:
  "processAgentEvent env e h = agent_ended env e (on_ses (note_event env e) h)"
  by (simp add: processAgentEvent_def note_event_def [abs_def])

lemma processAgentEvent_other:
  "\<not> is_agent_end e \<Longrightarrow> processAgentEvent env e h = Some (on_ses (note_event env e) h)"
  by (cases e) (simp_all add: processAgentEvent_note agent_ended_def)

lemma emit_session_manager [simp]: "ss_manager (emit_session e s) = ss_manager s"
  by (simp add: emit_session_def)

lemma tell_extensions_manager [simp]: "ss_manager (tell_extensions env e s) = ss_manager s"
  by (simp add: tell_extensions_def)

lemma outside_fields:
  assumes "outside f s = (a, s')"
  shows "s' = s\<lparr>ss_outside := ss_outside s'\<rparr>"
  using assms by (auto simp: outside_def split: prod.splits)

lemma user_message_started_manager [simp]: "ss_manager (user_message_started e s) = ss_manager s"
  by (auto simp: user_message_started_def emitQueueUpdate_def Let_def split: agent_event.splits agent_message.splits)

lemma emitExtensionEvent_manager [simp]: "ss_manager (emitExtensionEvent env e s) = ss_manager s"
  by (cases e) (auto simp: outside_def Let_def split: prod.splits)

lemma track_assistant_manager [simp]: "ss_manager (track_assistant m s) = ss_manager s"
  by (cases m) (auto simp: Let_def)

lemma note_event_context:
  assumes "fresh_env env" "wf_session (ss_manager s)" "sessionContext (ss_manager s) = Some c"
    and "\<forall>m \<in> set (ended [e]). \<exists>l. m = embed_llm l"
  shows "wf_session (ss_manager (note_event env e s)) \<and>
    (\<exists>c'. sessionContext (ss_manager (note_event env e s)) = Some c' \<and> sc_messages c' = sc_messages c @ ended [e])"
proof (cases "\<exists>m. e = MessageEnd m")
  case True
  then obtain m where e: "e = MessageEnd m" ..
  with assms(4) obtain l where "m = embed_llm l" by auto
  with persist_message_context [OF assms(1), of "emit_session (AgentEv e) (emitExtensionEvent env e (user_message_started e s))" c m l]
    assms(2,3) e show ?thesis by (simp add: note_event_def message_ended_def)
next
  case False
  then have "ended [e] = []" "message_ended env e s' = s'" for s'
    by (cases e; simp add: message_ended_def)+
  with assms(2,3) show ?thesis by (auto simp: note_event_def)
qed

text \<open>\<open>n\<close> events of the queue.\<close>

primrec process_times :: "'x session_env \<Rightarrow> nat \<Rightarrow> 'x host \<Rightarrow> 'x host option" where
  "process_times env 0 h = Some h"
| "process_times env (Suc n) h = Option.bind (process_next env h) (process_times env n)"

lemma ended_Cons: "ended (e # es) = ended [e] @ ended es"
  by (cases e) simp_all

text \<open>What an event leaves alone.\<close>

definition calm :: "'x session_state \<Rightarrow> 'x session_state \<Rightarrow> bool" where
  "calm s s' \<longleftrightarrow> ss_events s' = ss_events s \<and> ss_retrying s' = ss_retrying s \<and> ss_continues s' = ss_continues s
     \<and> ss_retryPromise s' = ss_retryPromise s \<and> ss_settings s' = ss_settings s \<and> ss_model s' = ss_model s"

lemma calm_refl [simp]: "calm s s"
  by (simp add: calm_def)

lemma calm_trans: "calm s s' \<Longrightarrow> calm s' s'' \<Longrightarrow> calm s s''"
  by (simp add: calm_def)

lemma store_calm: "calm s (snd (store env op s))"
  by (simp add: store_def calm_def split: prod.split)

lemma note_event_calm: "calm s (note_event env e s)"
proof -
  have 1: "calm s (user_message_started e s)"
    by (auto simp: user_message_started_def emitQueueUpdate_def emit_session_def Let_def calm_def
        split: agent_event.splits agent_message.splits)
  have 2: "calm s' (emitExtensionEvent env e s')" for s'
    by (cases e) (auto simp: outside_def tell_extensions_def calm_def Let_def split: prod.splits)
  have 3: "calm s' (emit_session x s')" for s' x
    by (simp add: emit_session_def calm_def)
  have 4: "calm s' (persist_message env m s')" for s' m
    by (cases m) (simp_all add: store_calm)
  have 5: "calm s' (track_assistant m s')" for s' m
    by (cases m) (auto simp: emit_session_def calm_def Let_def)
  have 6: "calm s' (message_ended env e s')" for s'
    by (cases e) (auto simp: message_ended_def intro: calm_trans [OF 4 5])
  show ?thesis unfolding note_event_def by (rule calm_trans [OF calm_trans [OF calm_trans [OF 1 2] 3] 6])
qed

lemma track_assistant_other: "\<not> is_assistant m \<Longrightarrow> track_assistant m s = s"
  by (cases m) simp_all

lemma note_event_lastAssistant:
  "(\<forall>m \<in> set (ended [e]). \<not> is_assistant m) \<Longrightarrow> ss_lastAssistant (note_event env e s) = ss_lastAssistant s"
proof -
  assume e: "\<forall>m \<in> set (ended [e]). \<not> is_assistant m"
  have 1: "ss_lastAssistant (user_message_started e s) = ss_lastAssistant s"
    by (auto simp: user_message_started_def emitQueueUpdate_def emit_session_def Let_def
        split: agent_event.splits agent_message.splits)
  have 2: "ss_lastAssistant (emitExtensionEvent env e s') = ss_lastAssistant s'" for s'
    by (cases e) (auto simp: outside_def tell_extensions_def Let_def split: prod.splits)
  have 4: "ss_lastAssistant (persist_message env m s') = ss_lastAssistant s'" for s' m
    by (cases m) (simp_all add: store_def split: prod.split)
  have 5: "ss_lastAssistant (message_ended env e s') = ss_lastAssistant s'" for s'
    using e 4 by (cases e) (auto simp: message_ended_def track_assistant_other)
  show ?thesis unfolding note_event_def using 1 2 5 by (simp add: emit_session_def)
qed

text \<open>Events that are no end of a run are recorded one after another.\<close>

lemma process_times_records:
  assumes "fresh_env env" "wf_session (ss_manager (ses h))" "sessionContext (ss_manager (ses h)) = Some c"
    and "ss_events (ses h) = es @ rest" "ss_retrying (ses h) = None"
    and "list_all (\<lambda>e. \<not> is_agent_end e) es" "\<forall>m \<in> set (ended es). \<exists>l. m = embed_llm l"
  shows "\<exists>h' c'. process_times env (length es) h = Some h' \<and> ag_messages h' = ag_messages h
    \<and> ag_activeRun h' = ag_activeRun h \<and> calm ((ses h)\<lparr>ss_events := rest\<rparr>) (ses h')
    \<and> ((\<forall>m \<in> set (ended es). \<not> is_assistant m) \<longrightarrow> ss_lastAssistant (ses h') = ss_lastAssistant (ses h))
    \<and> wf_session (ss_manager (ses h')) \<and> sessionContext (ss_manager (ses h')) = Some c' \<and> sc_messages c' = sc_messages c @ ended es"
  using assms
proof (induction es arbitrary: h c)
  case Nil
  then show ?case by (simp add: calm_def)
next
  case (Cons e es)
  define s1 where "s1 = (ses h)\<lparr>ss_events := es @ rest\<rparr>"
  let ?h1 = "on_ses (\<lambda>s. note_event env e (s\<lparr>ss_events := es @ rest\<rparr>)) h"
  have one: "\<forall>m \<in> set (ended [e]). \<exists>l. m = embed_llm l" and later: "\<forall>m \<in> set (ended es). \<exists>l. m = embed_llm l"
    using Cons.prems(7) by (simp_all add: ended_Cons [of e es])
  have ne: "\<not> is_agent_end e" "list_all (\<lambda>e. \<not> is_agent_end e) es" using Cons.prems(6) by simp_all
  have next1: "process_next env h = Some ?h1"
    using Cons.prems(4,5) ne(1) by (simp add: process_next_def processAgentEvent_other)
  have s1: "wf_session (ss_manager s1)" "sessionContext (ss_manager s1) = Some c"
    using Cons.prems(2,3) by (simp_all add: s1_def)
  from note_event_context [OF Cons.prems(1) s1 one] obtain c1 where
    c1: "wf_session (ss_manager (note_event env e s1))"
      "sessionContext (ss_manager (note_event env e s1)) = Some c1" "sc_messages c1 = sc_messages c @ ended [e]" by blast
  note calm1 = note_event_calm [of s1 env e]
  have h1: "ses ?h1 = note_event env e s1" by (simp add: s1_def)
  have q: "ss_events (ses ?h1) = es @ rest" "ss_retrying (ses ?h1) = None"
    unfolding h1 using calm1 Cons.prems(5) by (simp_all add: calm_def s1_def)
  from Cons.IH [OF Cons.prems(1) _ _ q ne(2) later, of c1] c1 h1
  obtain h' c' where h': "process_times env (length es) ?h1 = Some h'" "ag_messages h' = ag_messages h"
    "ag_activeRun h' = ag_activeRun h" "calm ((note_event env e s1)\<lparr>ss_events := rest\<rparr>) (ses h')"
    "(\<forall>m \<in> set (ended es). \<not> is_assistant m) \<longrightarrow> ss_lastAssistant (ses h') = ss_lastAssistant (note_event env e s1)"
    "wf_session (ss_manager (ses h'))" "sessionContext (ss_manager (ses h')) = Some c'" "sc_messages c' = sc_messages c1 @ ended es"
    by auto
  have "calm ((ses h)\<lparr>ss_events := rest\<rparr>) (ses h')"
    using h'(4) calm1 by (simp add: calm_def s1_def)
  moreover have "(\<forall>m \<in> set (ended (e # es)). \<not> is_assistant m) \<longrightarrow> ss_lastAssistant (ses h') = ss_lastAssistant (ses h)"
    using h'(5) note_event_lastAssistant [of e env s1] by (auto simp: ended_Cons [of e es] s1_def simp del: ended_simps)
  ultimately show ?case
    using h' next1 c1(3) by (auto simp: ended_Cons [of e es] simp del: ended_simps)
qed

end
