(* ===== verification/Agent_Session_Runs.thy ===== *)
theory Agent_Session_Runs
  imports Agent_Session_Host Agent_Properties
begin

text \<open>
  A run of the agent as its session sees it: with hooks and tools that keep their hands off the
  session's state, the state is what the session's listener made of the run's events
  (\<open>prompt_seen\<close>), for failed runs too (\<open>seen_failed_run\<close>).
\<close>

section \<open>A run seen by the session\<close>

text \<open>Two states that differ at most in the outside world.\<close>

definition apart_outside :: "'x session_state \<Rightarrow> 'x session_state \<Rightarrow> bool" where
  "apart_outside a b \<longleftrightarrow> b = a\<lparr>ss_outside := ss_outside b\<rparr>"

definition outside_only :: "('x session_state agent_env, 'a) eff \<Rightarrow> bool" where
  "outside_only f \<longleftrightarrow> (\<forall>env. apart_outside (ae_world env) (ae_world (snd (f env))))"

primrec tool_outside_only :: "'x session_state agent_env tool_run \<Rightarrow> bool" where
  "tool_outside_only (Finish r) = True"
| "tool_outside_only (Fail m) = True"
| "tool_outside_only (Update r k) = tool_outside_only k"
| "tool_outside_only (Step u k) =
     ((\<forall>env. apart_outside (ae_world env) (ae_world (u env))) \<and> (\<forall>env. tool_outside_only (k env)))"

text \<open>
  The agent's hooks and tools may queue messages, abort and change the outside world, but the
  state of the session is changed only by the session's own listener.
\<close>

definition options_outside :: "'x session_state agent_options \<Rightarrow> bool" where
  "options_outside opts \<longleftrightarrow>
     (\<forall>f ms. op_convertToLlm opts = Some f \<longrightarrow> outside_only (f ms))
     \<and> (\<forall>f ms. op_transformContext opts = Some f \<longrightarrow> outside_only (f ms))
     \<and> (\<forall>rq. outside_only (op_streamFn opts rq))
     \<and> (\<forall>f p. op_getApiKey opts = Some f \<longrightarrow> outside_only (f p))
     \<and> (\<forall>f x. op_beforeToolCall opts = Some f \<longrightarrow> outside_only (f x))
     \<and> (\<forall>f x r b. op_afterToolCall opts = Some f \<longrightarrow> outside_only (f x r b))
     \<and> outside_only (clock opts)"

definition tools_outside :: "'x session_state agent_env agent_tool list \<Rightarrow> bool" where
  "tools_outside tools \<longleftrightarrow> (\<forall>t \<in> set tools. \<forall>i a env. tool_outside_only (at_execute t i a env))"

text \<open>The session alone listens, the run is active, and the session has what its listener made of the events.\<close>

definition seen :: "'x host \<Rightarrow> agent_event list \<Rightarrow> 'x host \<Rightarrow> bool" where
  "seen h0 tr h \<longleftrightarrow> ag_listeners h = [(0, session_listener)] \<and> ag_activeRun h \<noteq> None
     \<and> apart_outside (fold handleAgentEvent tr (ses h0)) (ses h)"

lemma apart_outside_refl [simp]: "apart_outside a a"
  by (simp add: apart_outside_def)

lemma apart_outside_trans: "apart_outside a b \<Longrightarrow> apart_outside b c \<Longrightarrow> apart_outside a c"
  unfolding apart_outside_def by (cases a; cases b; cases c) simp

lemma createRetryPromise_outside:
  "createRetryPromiseForAgentEnd e (s\<lparr>ss_outside := x\<rparr>) = (createRetryPromiseForAgentEnd e s)\<lparr>ss_outside := x\<rparr>"
  by (simp add: createRetryPromiseForAgentEnd_def contextWindow_def split: agent_event.split option.split)

lemma handleAgentEvent_outside:
  "handleAgentEvent e (s\<lparr>ss_outside := x\<rparr>) = (handleAgentEvent e s)\<lparr>ss_outside := x\<rparr>"
  by (simp add: handleAgentEvent_def Let_def createRetryPromise_outside)

lemma apart_outside_handle:
  assumes "apart_outside a b"
  shows "apart_outside (handleAgentEvent e a) (handleAgentEvent e b)"
proof -
  have "handleAgentEvent e b = (handleAgentEvent e a)\<lparr>ss_outside := ss_outside b\<rparr>"
    using handleAgentEvent_outside [where e = e and s = a and x = "ss_outside b"] assms
    unfolding apart_outside_def by simp
  then show ?thesis unfolding apart_outside_def by simp
qed

lemma seen_env:
  assumes "outside_only f" "seen h0 tr h"
  shows "seen h0 tr (snd (on_env f h))"
proof -
  have "apart_outside (ses h) (ses (snd (on_env f h)))"
    using assms(1) by (auto simp: outside_only_def ses_def on_env_def split: prod.split) (metis snd_conv)
  with assms(2) show ?thesis
    by (auto simp: seen_def on_env_def split: prod.split intro: apart_outside_trans)
qed

lemma seen_update:
  assumes "\<forall>env. apart_outside (ae_world env) (ae_world (u env))" "seen h0 tr h"
  shows "seen h0 tr (update_env u h)"
  using assms by (auto simp: seen_def ses_def update_env_def intro: apart_outside_trans)

lemma lift_run_seen: "tool_outside_only k \<Longrightarrow> tool_keeps (seen h0) (lift_run k)"
  by (induction k) (auto intro: seen_update)

lemma seen_polls: "world_keeps (seen h0) poll_steering" "world_keeps (seen h0) poll_followUp"
  by (auto simp: world_keeps_def poll_steering_def poll_followUp_def seen_def ses_def update_env_def split: prod.split)

lemma seen_hook: "outside_only f \<Longrightarrow> world_keeps (seen h0) (on_env f)"
  by (simp add: world_keeps_def seen_env)

lemma reduce_event_env [simp]: "ag_env (reduce_event e ag) = ag_env ag" "ag_listeners (reduce_event e ag) = ag_listeners ag"
  "ag_activeRun (reduce_event e ag) = ag_activeRun ag"
  by (cases e; auto split: option.split)+

lemma processEvents_session:
  assumes "ag_listeners h = [(0, session_listener)]" "ag_activeRun h \<noteq> None"
  shows "processEvents e h = (Inr (), on_ses (handleAgentEvent e) (reduce_event e h))"
  using assms by (simp add: processEvents_def notify_def on_env_def session_listener_def bind_eff_def ret_def
      on_ses_def update_env_def)

lemma seen_event: "seen h0 tr h \<Longrightarrow> seen h0 (tr @ [e]) (snd (processEvents e h))"
  by (auto simp: seen_def processEvents_session ses_def on_ses_def update_env_def intro: apart_outside_handle)

lemma seen_hooks: "options_outside opts \<Longrightarrow> hooks_keep (seen h0) (createLoopConfig opts ag)"
  by (auto simp: hooks_keep_def createLoopConfig_def option_keeps_def options_outside_def seen_hook seen_polls
      world_keeps_basic split: option.split)

lemma seen_tools: "tools_outside (ag_tools ag) \<Longrightarrow> tools_keep (seen h0) (fst (createContextSnapshot ag))"
  by (auto simp: tools_keep_def createContextSnapshot_def lift_tool_def tools_outside_def lift_run_seen)

lemma seen_invariant:
  assumes "options_outside opts" "tools_outside (ag_tools ag)"
  shows "run_invariant (seen h0) (fst (createContextSnapshot ag)) (createLoopConfig opts ag)"
  using seen_hooks [OF assms(1)] seen_tools [OF assms(2)] seen_event
  by unfold_locales (auto simp: createLoopConfig_def)

lemma prompt_executor_seen:
  assumes "options_outside opts" "tools_outside (ag_tools h)" "seen h [] h"
    and "prompt_executor opts sch fuel skip ms h = Some (r, s)"
  shows "seen h (ls_trace s) (ls_world s)"
proof -
  have "seen h [] (h\<lparr>ag_skipPoll := skip\<rparr>)" using assms(3) by (simp add: seen_def ses_def)
  with run_invariant.runAgentLoop_keeps [OF seen_invariant [OF assms(1,2), of h]] assms(4)
  show ?thesis by (auto simp: prompt_executor_def createContextSnapshot_def split_def)
qed

section \<open>A run is recorded\<close>

lemma phases_end_last:
  "phases p tr = Some P_Ended \<Longrightarrow> p \<noteq> P_Ended \<Longrightarrow> list_all (\<lambda>e. \<not> is_agent_end e) (butlast tr)"
proof (induction tr arbitrary: p)
  case (Cons e tr)
  then obtain q where q: "phase_step p e = Some q" "phases q tr = Some P_Ended"
    by (auto split: Option.bind_splits)
  show ?case
  proof (cases "tr = []")
    case False
    then have "q \<noteq> P_Ended" using q(2) by (cases tr) auto
    moreover have "\<not> is_agent_end e"
      using q(1) \<open>q \<noteq> P_Ended\<close> by (cases p; cases e) (auto split: if_splits)
    ultimately show ?thesis using Cons.IH q(2) False by simp
  qed simp
qed simp

lemma handle_events [simp]: "ss_events (fold handleAgentEvent tr s) = ss_events s @ tr"
  by (induction tr arbitrary: s)
    (auto simp: handleAgentEvent_def Let_def createRetryPromiseForAgentEnd_def split: agent_event.split option.split)

lemma handle_manager [simp]: "ss_manager (fold handleAgentEvent tr s) = ss_manager s"
  by (induction tr arbitrary: s)
    (auto simp: handleAgentEvent_def Let_def createRetryPromiseForAgentEnd_def split: agent_event.split option.split)

lemma apart_outside_fields:
  "apart_outside a b \<Longrightarrow> ss_events b = ss_events a \<and> ss_manager b = ss_manager a"
  by (simp add: apart_outside_def) (metis session_state.select_convs(1,7) session_state.surjective session_state.update_convs(21))

lemma ses_run [simp]: "ses (begin_run mode h) = ses h" "ses (finishRun h) = ses h"
  by (simp_all add: ses_def begin_run_def createActiveRun_def finishRun_def update_env_def)

lemma ag_tools_begin [simp]: "ag_tools (begin_run mode h) = ag_tools h"
  by (simp add: begin_run_def createActiveRun_def update_env_def)

lemma handle_rest [simp]:
  "ss_retrying (fold handleAgentEvent tr s) = ss_retrying s" "ss_continues (fold handleAgentEvent tr s) = ss_continues s"
  "ss_settings (fold handleAgentEvent tr s) = ss_settings s" "ss_model (fold handleAgentEvent tr s) = ss_model s"
  "ss_lastAssistant (fold handleAgentEvent tr s) = ss_lastAssistant s"
  by (induction tr arbitrary: s)
    (auto simp: handleAgentEvent_def Let_def createRetryPromiseForAgentEnd_def split: agent_event.split option.split)

lemma apart_outside_rest:
  assumes "apart_outside a b"
  shows "ss_retrying b = ss_retrying a" "ss_continues b = ss_continues a" "ss_settings b = ss_settings a"
    "ss_model b = ss_model a" "ss_lastAssistant b = ss_lastAssistant a" "ss_retryPromise b = ss_retryPromise a"
  by (subst assms [unfolded apart_outside_def], simp)+

lemma seen_retrying: "seen h0 tr h \<Longrightarrow> ss_retrying (ses h) = ss_retrying (ses h0)"
  using apart_outside_rest(1) by (fastforce simp: seen_def)

lemma seen_fields:
  assumes "seen h0 tr h"
  shows "ss_events (ses h) = ss_events (ses h0) @ tr" "ss_manager (ses h) = ss_manager (ses h0)"
  using assms apart_outside_fields [of "fold handleAgentEvent tr (ses h0)" "ses h"] by (simp_all add: seen_def)

lemma prompt_seen:
  assumes "options_outside opts" "tools_outside (ag_tools h)" "ag_listeners h = [(0, session_listener)]"
    and "prompt_executor opts schedules fuel skip messages (begin_run LocalRun h) = Some (r, s)"
  shows "seen (begin_run LocalRun h) (ls_trace s) (ls_world s)"
proof -
  have "seen (begin_run LocalRun h) [] (begin_run LocalRun h)" using assms(3) by (simp add: seen_def)
  from prompt_executor_seen [OF assms(1) _ this assms(4)] assms(2) show ?thesis by simp
qed

section \<open>A run that fails\<close>

text \<open>
  The agent tells a failure only by \<open>agent_end\<close>. The session, which knows the last response by its
  \<open>message_end\<close>, has promised a retry by then and makes none.
\<close>

lemma failed_run_seen:
  assumes h: "ag_listeners h = [(0, session_listener)]" "ag_activeRun h \<noteq> None" "outside_only (clock opts)"
    and fail: "handleRunFailure opts err aborted h = (r, h1)"
  shows "\<exists>now h0. apart_outside (ses h) (ses h0)
    \<and> ses h1 = handleAgentEvent (AgentEnd [Assistant (failure_message h err aborted now)]) (ses h0)"
proof -
  obtain now e1 where now: "op_now opts (ag_env h) = (now, e1)" by fastforce
  let ?h0 = "h\<lparr>ag_env := e1\<rparr>" and ?m = "Assistant (failure_message h err aborted now)"
  have m: "failure_message ?h0 err aborted now = failure_message h err aborted now" by (simp add: failure_message_def)
  from h(3) now have ap: "apart_outside (ses h) (ses ?h0)"
    by (auto simp: outside_only_def clock_def ses_def) (metis (no_types, lifting) case_prod_conv snd_conv)
  have "h1 = on_ses (handleAgentEvent (AgentEnd [?m]))
      (reduce_event (AgentEnd [?m]) (?h0\<lparr>ag_messages := ag_messages h @ [?m], ag_errorMessage := Some err\<rparr>))"
    using fail now h(1,2) m
    by (simp add: handleRunFailure_def bind_eff_def on_env_def clock_def Let_def processEvents_session)
  then have "ses h1 = handleAgentEvent (AgentEnd [?m]) (ses ?h0)"
    by (simp add: ses_def on_ses_def update_env_def)
  with ap show ?thesis by blast
qed

lemma failure_promise:
  assumes "st_retryEnabled (ss_settings s)" "isRetryableError (contextWindow s) m"
  shows "ss_retryPromise (handleAgentEvent (AgentEnd [Assistant m]) s)"
  using assms by (simp add: handleAgentEvent_def createRetryPromiseForAgentEnd_def findLastAssistantInMessages_def
      find_last_def Let_def)

lemma seen_failed_run:
  assumes opts: "options_outside opts" "tools_outside (ag_tools h)"
    and h: "ag_listeners h = [(0, session_listener)]" "ag_activeRun h = None" "ss_events (ses h) = []"
    and run: "runPromptMessages opts schedules fuel skip messages h = Some (r, h1)"
    and fail: "prompt_executor opts schedules fuel skip messages (begin_run LocalRun h) = Some (Inl err, s)"
  shows "\<exists>m now. m = failure_message h err (ae_aborted (ag_env (ls_world s))) now
    \<and> ag_activeRun h1 = None \<and> ss_events (ses h1) = ls_trace s @ [AgentEnd [Assistant m]]
    \<and> (\<exists>s0. apart_outside (fold handleAgentEvent (ls_trace s) (ses h)) s0
         \<and> ses h1 = handleAgentEvent (AgentEnd [Assistant m]) s0)"
proof -
  let ?w = "ls_world s" and ?ab = "ae_aborted (ag_env (ls_world s))"
  note seen = prompt_seen [OF opts h(1) fail]
  obtain r2 h0 where hf: "handleRunFailure opts err ?ab ?w = (r2, h0)" by fastforce
  have h1: "h1 = finishRun h0"
    using run fail hf h(2) by (simp add: runPromptMessages_def runWithLifecycle_def)
  have clk: "outside_only (clock opts)" using opts(1) by (simp add: options_outside_def)
  from failed_run_seen [OF _ _ clk hf] seen obtain now hx where
    hx: "apart_outside (ses ?w) (ses hx)" "ses h0 = handleAgentEvent (AgentEnd [Assistant (failure_message ?w err ?ab now)]) (ses hx)"
    by (auto simp: seen_def)
  have m: "failure_message ?w err ?ab now = failure_message h err ?ab now"
    using reduced_fields(5) [OF prompt_executor_reduced [OF fail]] by (simp add: failure_message_def)
  have ap: "apart_outside (fold handleAgentEvent (ls_trace s) (ses h)) (ses hx)"
    using seen hx(1) by (auto simp: seen_def intro: apart_outside_trans)
  from apart_outside_fields [OF ap] h(3) have "ss_events (ses hx) = ls_trace s" by simp
  with hx(2) have "ss_events (ses h0) = ls_trace s @ [AgentEnd [Assistant (failure_message ?w err ?ab now)]]"
    by (simp add: handleAgentEvent_def createRetryPromiseForAgentEnd_def Let_def split: option.split)
  with h1 hx(2) ap m show ?thesis by auto
qed

lemma process_times_add:
  "process_times env (m + n) h = Option.bind (process_times env m h) (process_times env n)"
  by (induction m arbitrary: h) (auto split: Option.bind_splits)

lemma end_without_response:
  assumes "ss_events (ses h) = [AgentEnd ms]" "ss_retrying (ses h) = None" "ss_lastAssistant (ses h) = None"
  shows "\<exists>h'. process_next env h = Some h' \<and> calm ((ses h)\<lparr>ss_events := []\<rparr>) (ses h') \<and> ag_activeRun h' = ag_activeRun h"
proof -
  let ?s = "(ses h)\<lparr>ss_events := []\<rparr>"
  have "ss_lastAssistant (note_event env (AgentEnd ms) ?s) = None"
    using note_event_lastAssistant [of "AgentEnd ms" env ?s] assms(3) by simp
  with assms note_event_calm [of ?s env "AgentEnd ms"] show ?thesis
    by (simp add: process_next_def processAgentEvent_note agent_ended_def)
qed

end
