(* ===== verification/Agent_Session_Moves.thy ===== *)
theory Agent_Session_Moves
  imports Agent_Session_Runs
begin

text \<open>
  The abstract machine of what a session announces, what it means that an operation keeps to it,
  and that recording an event does (\<open>note_event_advances\<close>).
\<close>

section \<open>What the session announces\<close>

text \<open>
  The abstract machine: the part of the state that the announcements of retries, of overflow
  recoveries and of the thinking level are about (\<open>session_core\<close>), and its moves (\<open>session_announce\<close>),
  each with the events the listeners are given.
\<close>

record session_core =
  rc_attempt :: nat
  rc_overflow :: bool
  rc_maxRetries :: nat
  rc_baseDelay :: nat
  rc_model :: "chat_model option"
  rc_level :: jsstring

definition core :: "'x session_state \<Rightarrow> session_core" where
  "core s = \<lparr>rc_attempt = ss_retryAttempt s, rc_overflow = ss_overflowRecoveryAttempted s,
     rc_maxRetries = st_maxRetries (ss_settings s), rc_baseDelay = st_baseDelayMs (ss_settings s),
     rc_model = ss_model s, rc_level = ss_thinkingLevel s\<rparr>"

fun plain_event :: "session_event \<Rightarrow> bool" where
  "plain_event (AgentEv (MessageStart (User m))) = False"
| "plain_event (AgentEv (MessageEnd (Assistant m))) = (am_stopReason m = ErrorR)"
| "plain_event (AutoRetryStart n m d e) = False"
| "plain_event (AutoRetryEnd b n e) = False"
| "plain_event (CompactionStart r) = (r \<noteq> OverflowC)"
| "plain_event (ThinkingLevelChanged l) = False"
| "plain_event _ = True"

text \<open>A level that the model supports; a model that supports none takes any.\<close>

definition level_fits :: "chat_model option \<Rightarrow> jsstring \<Rightarrow> bool" where
  "level_fits model level \<longleftrightarrow>
     (case model of
        None \<Rightarrow> level \<in> set THINKING_LEVELS
      | Some m \<Rightarrow> getSupportedThinkingLevels m = [] \<or> level \<in> set (getSupportedThinkingLevels m))"

inductive session_announce :: "session_core \<Rightarrow> session_event list \<Rightarrow> session_core \<Rightarrow> bool" where
  plain: "plain_event e \<Longrightarrow> session_announce c [e] c"
| user: "session_announce c [AgentEv (MessageStart (User m))] (c\<lparr>rc_overflow := False\<rparr>)"
| response: "am_stopReason m \<noteq> ErrorR \<Longrightarrow> rc_attempt c = 0 \<Longrightarrow>
    session_announce c [AgentEv (MessageEnd (Assistant m))] (c\<lparr>rc_overflow := False\<rparr>)"
| recovered: "am_stopReason m \<noteq> ErrorR \<Longrightarrow> rc_attempt c > 0 \<Longrightarrow>
    session_announce c [AgentEv (MessageEnd (Assistant m)), AutoRetryEnd True (rc_attempt c) None] (c\<lparr>rc_overflow := False, rc_attempt := 0\<rparr>)"
| retry: "rc_attempt c + 1 \<le> rc_maxRetries c \<Longrightarrow>
    session_announce c [AutoRetryStart (rc_attempt c + 1) (rc_maxRetries c) (rc_baseDelay c * 2 ^ rc_attempt c) e]
      (c\<lparr>rc_attempt := rc_attempt c + 1\<rparr>)"
| exhausted: "rc_attempt c + 1 > rc_maxRetries c \<Longrightarrow>
    session_announce c [AutoRetryEnd False (rc_attempt c) e] (c\<lparr>rc_attempt := 0\<rparr>)"
| cancelled: "session_announce c [AutoRetryEnd False (rc_attempt c) (Some (js ''Retry cancelled''))] (c\<lparr>rc_attempt := 0\<rparr>)"
| overflow: "\<not> rc_overflow c \<Longrightarrow> session_announce c [CompactionStart OverflowC] (c\<lparr>rc_overflow := True\<rparr>)"
| level: "level_fits md l \<Longrightarrow>
    session_announce c (if l = rc_level c then [] else [ThinkingLevelChanged l]) (c\<lparr>rc_model := md, rc_level := l\<rparr>)"

inductive announces :: "session_core \<Rightarrow> session_event list \<Rightarrow> session_core \<Rightarrow> bool" where
  none: "announces c [] c"
| more: "announces c es c' \<Longrightarrow> session_announce c' ds c'' \<Longrightarrow> announces c (es @ ds) c''"

lemma announces_one: "session_announce c es c' \<Longrightarrow> announces c es c'"
  using more [OF none] by fastforce

lemma announces_trans: "announces c' ds c'' \<Longrightarrow> announces c es c' \<Longrightarrow> announces c (es @ ds) c''"
  by (induction arbitrary: es rule: announces.induct) (auto intro: more simp flip: append_assoc)

section \<open>What an operation does to the session\<close>

text \<open>
  An operation \<open>advances\<close> the session when it keeps the history of the tree and announces moves
  of the machine; it is \<open>silent\<close> when it announces nothing.
\<close>

definition history_kept :: "session_manager \<Rightarrow> session_manager \<Rightarrow> bool" where
  "history_kept sm sm' \<longleftrightarrow> (wf_session sm \<longrightarrow> wf_session sm' \<and> prefix (getEntries sm) (getEntries sm')
     \<and> (\<forall>i \<in> ids (getEntries sm). getBranch sm' (Some i) = getBranch sm (Some i)))"

definition advances :: "'x session_state \<Rightarrow> 'x session_state \<Rightarrow> bool" where
  "advances s s' \<longleftrightarrow> history_kept (ss_manager s) (ss_manager s')
     \<and> (\<exists>es. ss_emitted s' = ss_emitted s @ es \<and> announces (core s) es (core s'))"

lemma history_kept_refl [simp]: "history_kept sm sm"
  by (simp add: history_kept_def)

lemma history_kept_trans: "history_kept a b \<Longrightarrow> history_kept b c \<Longrightarrow> history_kept a c"
proof -
  assume ab: "history_kept a b" and bc: "history_kept b c"
  have "ids (getEntries a) \<subseteq> ids (getEntries b)" if "prefix (getEntries a) (getEntries b)"
    using set_mono_prefix [OF that] by (auto simp: ids_def)
  with ab bc show ?thesis
    by (auto simp: history_kept_def intro: prefix_order.trans) (metis subsetD)
qed

lemma advances_refl [simp]: "advances s s"
  by (auto simp: advances_def intro: exI [of _ "[]"] none)

lemma advances_trans: "advances a b \<Longrightarrow> advances b c \<Longrightarrow> advances a c"
  by (auto simp: advances_def intro: history_kept_trans announces_trans)

text \<open>Changes of the other fields.\<close>

definition silent :: "'x session_state \<Rightarrow> 'x session_state \<Rightarrow> bool" where
  "silent s s' \<longleftrightarrow> history_kept (ss_manager s) (ss_manager s') \<and> ss_emitted s' = ss_emitted s \<and> core s' = core s"

lemma silent_advances: "silent s s' \<Longrightarrow> advances s s'"
  by (auto simp: silent_def advances_def intro: exI [of _ "[]"] none)

lemma silent_emit: "plain_event e \<Longrightarrow> advances s (emit_session e s)"
  by (auto simp: advances_def emit_session_def core_def intro!: exI [of _ "[e]"] announces_one plain)

lemma advances_emit: "advances s s' \<Longrightarrow> plain_event e \<Longrightarrow> advances s (emit_session e s')"
  using advances_trans silent_emit by blast

section \<open>Operations on the state\<close>

definition is_append ::
    "((nat \<Rightarrow> jsstring) \<Rightarrow> iso_time \<Rightarrow> session_manager \<Rightarrow> session_fs \<Rightarrow> jsstring \<times> session_manager \<times> session_fs) \<Rightarrow> bool" where
  "is_append op \<longleftrightarrow> (\<exists>o1. \<forall>uuid now sm fs. run_op o1 uuid now sm fs = Inr (snd (op uuid now sm fs)))"

definition is_tree_change ::
    "((nat \<Rightarrow> jsstring) \<Rightarrow> iso_time \<Rightarrow> session_manager \<Rightarrow> session_fs \<Rightarrow> jsstring + jsstring \<times> session_manager \<times> session_fs) \<Rightarrow> bool" where
  "is_tree_change op \<longleftrightarrow> (\<exists>o1. \<forall>uuid now sm fs. run_op o1 uuid now sm fs = map_sum id snd (op uuid now sm fs))"

lemma appends [simp]:
  "is_append (appendMessage m)" "is_append (appendThinkingLevelChange l)" "is_append (appendModelChange p i)"
  "is_append (appendCompaction t k n d b)" "is_append (appendSessionInfo j)"
  "is_append (appendCustomMessageEntry c u v d)"
  unfolding is_append_def by (rule exI, intro allI, rule run_op.simps)+

lemma changes [simp]: "is_tree_change (appendLabelChange i l)" "is_tree_change (branchWithSummary j t d b)"
  unfolding is_tree_change_def by (rule exI, intro allI, rule run_op.simps)+

lemma run_op_history:
  assumes "fresh_uuid uuid sm" "run_op o1 uuid now sm fs = Inr (sm', fs')"
  shows "history_kept sm sm'"
  using run_op_keeps [OF _ assms] by (auto simp: history_kept_def)

lemma store_silent:
  assumes "fresh_env env" "is_append op"
  shows "silent s (snd (store env op s))"
proof -
  obtain i s' where st: "store env op s = (i, s')" by fastforce
  from st obtain uuid now sm fs x where o: "op uuid now (ss_manager s) (ss_files s) = (i, sm, fs)"
    "s' = s\<lparr>ss_manager := sm, ss_files := fs, ss_outside := x\<rparr>" "fresh_uuid uuid (ss_manager s)"
    using assms(1) by (blast elim: store_cases)
  from assms(2) obtain o1 where "\<forall>uuid now sm fs. run_op o1 uuid now sm fs = Inr (snd (op uuid now sm fs))"
    by (auto simp: is_append_def)
  with o(1) have "run_op o1 uuid now (ss_manager s) (ss_files s) = Inr (sm, fs)" by simp
  with run_op_history [OF o(3)] o(2) st show ?thesis by (simp add: silent_def core_def)
qed

lemma store_or_silent:
  assumes "fresh_env env" "is_tree_change op" "store_or env op s = (r, s')"
  shows "silent s s'"
proof -
  obtain uuid x1 now x2 where u: "xe_uuid env (ss_manager s) (ss_outside s) = (uuid, x1)" "xe_clock env x1 = (now, x2)"
    by fastforce
  have f: "fresh_uuid uuid (ss_manager s)" using assms(1) u(1) by (auto simp: fresh_env_def) (metis fst_conv)
  from assms(2) obtain o1 where "\<forall>uuid now sm fs. run_op o1 uuid now sm fs = map_sum id snd (op uuid now sm fs)"
    by (auto simp: is_tree_change_def)
  then have o: "run_op o1 uuid now (ss_manager s) (ss_files s) = map_sum id snd (op uuid now (ss_manager s) (ss_files s))"
    by simp
  show ?thesis
  proof (cases "op uuid now (ss_manager s) (ss_files s)")
    case (Inl e)
    then show ?thesis using assms(3) u by (auto simp: store_or_def silent_def core_def)
  next
    case (Inr r')
    then obtain i sm fs where r: "r' = (i, sm, fs)" by (cases r') auto
    with Inr run_op_history [OF f, of o1 now "ss_files s" sm fs] o show ?thesis
      using assms(3) u by (auto simp: store_or_def silent_def core_def)
  qed
qed

lemma silent_refl [simp]: "silent s s"
  by (simp add: silent_def)

lemma silent_trans: "silent a b \<Longrightarrow> silent b c \<Longrightarrow> silent a c"
  by (auto simp: silent_def intro: history_kept_trans)

lemma silent_updates [simp]:
  "silent s (s\<lparr>ss_events := es\<rparr>)" "silent s (s\<lparr>ss_outside := x\<rparr>)" "silent s (s\<lparr>ss_steeringMessages := ts\<rparr>)"
  "silent s (s\<lparr>ss_followUpMessages := ts\<rparr>)" "silent s (s\<lparr>ss_pendingNextTurn := ms\<rparr>)" "silent s (s\<lparr>ss_retryPromise := b\<rparr>)"
  "silent s (s\<lparr>ss_retrying := r\<rparr>)" "silent s (s\<lparr>ss_continues := n\<rparr>)" "silent s (s\<lparr>ss_pendingBash := bs\<rparr>)"
  "silent s (s\<lparr>ss_turnIndex := n\<rparr>)" "silent s (s\<lparr>ss_lastAssistant := a\<rparr>)" "silent s (s\<lparr>ss_scopedModels := l\<rparr>)"
  by (simp_all add: silent_def core_def)

lemma silent_tell [simp]: "silent s (tell_extensions env x s)"
  by (simp add: tell_extensions_def)

lemma outside_silent: "outside f s = (a, s') \<Longrightarrow> silent s s'"
  by (auto simp: outside_def split: prod.splits)

lemma emitExtensionEvent_silent [simp]: "silent s (emitExtensionEvent env e s)"
proof (cases e)
  case (TurnEnd m rs)
  then show ?thesis by (simp add: Let_def) (rule silent_trans [OF silent_tell silent_updates(10)])
next
  case AgentStart
  then show ?thesis by simp (rule silent_trans [OF _ silent_tell], simp)
next
  case TurnStart
  then show ?thesis by (auto split: prod.split dest: outside_silent intro: silent_trans)
qed simp_all

lemma persist_silent: "fresh_env env \<Longrightarrow> silent s (persist_message env m s)"
  by (cases m) (simp_all add: store_silent)

lemma handle_silent [simp]: "silent s (handleAgentEvent e s)"
  by (auto simp: handleAgentEvent_def createRetryPromiseForAgentEnd_def Let_def silent_def core_def
      split: agent_event.split option.split)

lemma fold_handle_silent: "silent s (fold handleAgentEvent es s)"
  by (induction es arbitrary: s) (auto intro: silent_trans [OF handle_silent])

section \<open>Processing events\<close>

lemma user_message_started_advances:
  assumes "e = MessageStart (User m)"
  shows "\<exists>es. ss_emitted (user_message_started e s) = ss_emitted s @ es \<and> list_all plain_event es
    \<and> ss_manager (user_message_started e s) = ss_manager s
    \<and> core (user_message_started e s) = (core s)\<lparr>rc_overflow := False\<rparr>"
  using assms by (auto simp: user_message_started_def emitQueueUpdate_def emit_session_def core_def Let_def)

lemma user_message_started_other: "(\<nexists>m. e = MessageStart (User m)) \<Longrightarrow> user_message_started e s = s"
  by (auto simp: user_message_started_def split: agent_event.split agent_message.split)

lemma announces_plain: "list_all plain_event es \<Longrightarrow> announces c es c"
proof (induction es rule: rev_induct)
  case (snoc e es)
  then show ?case using more [OF _ plain] by simp
qed (simp add: none)

lemma silent_fields: "silent s s' \<Longrightarrow> ss_emitted s' = ss_emitted s \<and> core s' = core s \<and> history_kept (ss_manager s) (ss_manager s')"
  by (simp add: silent_def)

lemma note_user:
  assumes e: "e = MessageStart (User m)"
  shows "advances s (note_event env e s)"
proof -
  note ext = silent_fields [OF emitExtensionEvent_silent [of "user_message_started e s" env e]]
  from user_message_started_advances [OF e, of s] obtain es where es:
    "ss_emitted (user_message_started e s) = ss_emitted s @ es" "list_all plain_event es"
    "ss_manager (user_message_started e s) = ss_manager s" "core (user_message_started e s) = (core s)\<lparr>rc_overflow := False\<rparr>"
    by blast
  have "announces (core s) (es @ [AgentEv e]) ((core s)\<lparr>rc_overflow := False\<rparr>)"
    unfolding e by (rule more [OF announces_plain [OF es(2)] session_announce.user])
  moreover have "ss_emitted (note_event env e s) = ss_emitted s @ es @ [AgentEv e]"
    using ext es(1) e by (simp add: note_event_def message_ended_def emit_session_def)
  moreover have "core (note_event env e s) = (core s)\<lparr>rc_overflow := False\<rparr>"
    using ext es(4) e by (simp add: note_event_def message_ended_def emit_session_def core_def)
  moreover have "history_kept (ss_manager s) (ss_manager (note_event env e s))"
    using ext es(3) e by (simp add: note_event_def message_ended_def)
  ultimately show ?thesis unfolding advances_def by metis
qed

lemma core_emit [simp]: "core (emit_session x s) = core s"
  by (simp add: emit_session_def core_def)

text \<open>Until the message is looked at, an event is announced, and its message stored.\<close>

definition stored_event :: "'x session_env \<Rightarrow> agent_message \<Rightarrow> 'x session_state \<Rightarrow> 'x session_state" where
  "stored_event env m s =
     persist_message env m (emit_session (AgentEv (MessageEnd m)) (emitExtensionEvent env (MessageEnd m) s))"

lemma note_end: "note_event env (MessageEnd m) s = track_assistant m (stored_event env m s)"
  by (simp add: note_event_def message_ended_def stored_event_def user_message_started_def)

lemma stored_event_fields:
  assumes "fresh_env env"
  shows "ss_emitted (stored_event env m s) = ss_emitted s @ [AgentEv (MessageEnd m)]" "core (stored_event env m s) = core s"
    "history_kept (ss_manager s) (ss_manager (stored_event env m s))"
proof -
  let ?s1 = "emitExtensionEvent env (MessageEnd m) s"
  note ext = silent_fields [OF emitExtensionEvent_silent [of s env "MessageEnd m"]]
  note per = silent_fields [OF persist_silent [OF assms, of "emit_session (AgentEv (MessageEnd m)) ?s1" m]]
  show "ss_emitted (stored_event env m s) = ss_emitted s @ [AgentEv (MessageEnd m)]"
    using ext per by (simp add: stored_event_def emit_session_def)
  show "core (stored_event env m s) = core s" using ext per by (simp add: stored_event_def)
  show "history_kept (ss_manager s) (ss_manager (stored_event env m s))"
    using ext per history_kept_trans by (fastforce simp: stored_event_def emit_session_def)
qed

lemma note_response:
  assumes "fresh_env env" "am_stopReason m \<noteq> ErrorR"
  shows "advances s (note_event env (MessageEnd (Assistant m)) s)"
proof -
  let ?e = "AgentEv (MessageEnd (Assistant m))" and ?s2 = "stored_event env (Assistant m) s"
  note f = stored_event_fields [OF assms(1), where m = "Assistant m" and s = s]
  have c: "ss_retryAttempt ?s2 = rc_attempt (core s)"
    using f(2) by (metis core_def session_core.select_convs(1))
  have h: "ss_manager (note_event env (MessageEnd (Assistant m)) s) = ss_manager ?s2" by (simp add: note_end del: track_assistant.simps)
  show ?thesis
  proof (cases "rc_attempt (core s) = 0")
    case True
    have "ss_emitted (track_assistant (Assistant m) ?s2) = ss_emitted s @ [?e]"
      "core (track_assistant (Assistant m) ?s2) = (core ?s2)\<lparr>rc_overflow := False\<rparr>"
      using f(1) c True assms(2) by (simp_all add: core_def Let_def)
    with announces_one [OF session_announce.response [OF assms(2) True]] f(2,3) h show ?thesis
      unfolding advances_def note_end by metis
  next
    case False
    have "ss_emitted (track_assistant (Assistant m) ?s2) = ss_emitted s @ [?e, AutoRetryEnd True (rc_attempt (core s)) None]"
      "core (track_assistant (Assistant m) ?s2) = (core ?s2)\<lparr>rc_overflow := False, rc_attempt := 0\<rparr>"
      using f(1) c False assms(2) by (simp_all add: core_def Let_def emit_session_def)
    with announces_one [OF session_announce.recovered [OF assms(2)]] False f(2,3) h show ?thesis
      unfolding advances_def note_end by (metis gr0I)
  qed
qed

lemma plain_start: "\<forall>u. m \<noteq> User u \<Longrightarrow> plain_event (AgentEv (MessageStart m))"
  by (cases m) auto

lemma note_plain:
  assumes "fresh_env env" "\<nexists>m. e = MessageStart (User m)" "\<nexists>m. e = MessageEnd (Assistant m) \<and> am_stopReason m \<noteq> ErrorR"
  shows "advances s (note_event env e s)"
proof (cases "\<exists>m. e = MessageEnd m")
  case True
  then obtain m where m: "e = MessageEnd m" ..
  have "plain_event (AgentEv e)" using assms(3) m by (cases m) auto
  then have "advances s (stored_event env m s)"
    using stored_event_fields [OF assms(1), where m = m and s = s] m
    by (auto simp: advances_def intro!: exI [of _ "[AgentEv e]"] announces_plain)
  moreover have "silent s' (track_assistant m s')" for s'
    using assms(3) m by (cases m) (auto simp: Let_def)
  ultimately show ?thesis unfolding m note_end by (blast intro: advances_trans silent_advances)
next
  case False
  then have "plain_event (AgentEv e)" using assms(2) by (cases e) (auto intro: plain_start)
  moreover have "message_ended env e s' = s'" for s' using False by (cases e) (auto simp: message_ended_def)
  ultimately show ?thesis
    using advances_emit [OF silent_advances [OF emitExtensionEvent_silent]] assms(2)
    by (simp add: note_event_def user_message_started_other)
qed

lemma note_event_advances: "fresh_env env \<Longrightarrow> advances s (note_event env e s)"
  using note_user note_response note_plain by metis

end
