(* ===== verification/Agent_Session_Compactions.thy ===== *)
theory Agent_Session_Compactions
  imports Agent_Session_Moves Compaction_Session
begin

text \<open>
  How an append, a label and a change of the leaf extend the tree of a session: \<open>extended_by\<close> gives
  the new entries and the new branch.

  The two compactions of a session: up to the entry they append they change only the outside world
  (\<open>apart_host\<close>), and the entry makes the transcript the summary and the kept messages.
\<close>

section \<open>Growing a branch\<close>

fun option_list :: "'a option \<Rightarrow> 'a list" where
  "option_list None = []"
| "option_list (Some x) = [x]"

definition extended_by :: "session_manager \<Rightarrow> session_manager \<Rightarrow> session_entry list \<Rightarrow> bool" where
  "extended_by sm sm' new \<longleftrightarrow> wf_session sm' \<and> getEntries sm' = getEntries sm @ new
     \<and> getBranch sm' None = map_option (\<lambda>q. q @ new) (getBranch sm None)"

lemma extended_none: "wf_session sm \<Longrightarrow> extended_by sm sm []"
  by (simp add: extended_by_def option.map_ident)

lemma extended_trans: "extended_by a b es \<Longrightarrow> extended_by b c ds \<Longrightarrow> extended_by a c (es @ ds)"
  by (cases "getBranch a None") (simp_all add: extended_by_def)

lemma extended_append:
  assumes "wf_session sm" "fresh_uuid uuid sm" "append_new p uuid now sm fs = (i, sm', fs')"
  shows "\<exists>e. extended_by sm sm' [e] \<and> e_payload e = p \<and> e_timestamp e = now \<and> getEntry sm' i = Some e \<and> i \<in> ids (getEntries sm')"
proof -
  note B = append_new_branch [OF assms] and wf = append_new_wf [OF assms]
  have i: "i = e_id (new_entry uuid now sm p)" using assms(3) by (simp add: append_new_def Let_def)
  have "getEntry sm' i = Some (new_entry uuid now sm p)"
    using wf B(3) i map_of_idx_in [of "getEntries sm'" "new_entry uuid now sm p"] by (simp add: getEntry_def wf_session_def)
  with B wf i show ?thesis
    by (intro exI [of _ "new_entry uuid now sm p"]) (simp add: extended_by_def ids_def, simp add: new_entry_def)
qed

lemma extended_label:
  assumes "wf_session sm" "fresh_uuid uuid sm" "appendLabelChange t l uuid now sm fs = Inr (i, sm', fs')"
  shows "\<exists>e. extended_by sm sm' [e] \<and> is_label e"
proof -
  let ?e = "new_entry uuid now sm (LabelEntry t l)"
  obtain sm1 fs1 where a: "appendEntry ?e sm fs = (sm1, fs1)" by fastforce
  then have n: "append_new (LabelEntry t l) uuid now sm fs = (e_id ?e, sm1, fs1)" by (simp add: append_new_def)
  have sm': "sm' = index_label ?e sm1" using assms(3) a by (simp add: appendLabelChange_def Let_def split: if_splits)
  have "getBranch sm' None = getBranch sm1 None" by (simp add: sm' getBranch_def)
  with append_new_branch [OF assms(1,2) n] append_new_wf [OF assms(1,2) n] sm' show ?thesis
    by (intro exI [of _ ?e]) (simp add: extended_by_def new_entry_def is_label.simps)
qed

lemma store_or_cases:
  assumes "fresh_env env" "store_or env op s = (r, s')"
  obtains (failed) uuid now e where "op uuid now (ss_manager s) (ss_files s) = Inl e" "r = Inl e" "ss_manager s' = ss_manager s"
  | (stored) uuid now i sm fs where "op uuid now (ss_manager s) (ss_files s) = Inr (i, sm, fs)" "r = Inr i" "ss_manager s' = sm"
      "fresh_uuid uuid (ss_manager s)"
proof -
  obtain uuid x1 now x2 where u: "xe_uuid env (ss_manager s) (ss_outside s) = (uuid, x1)" "xe_clock env x1 = (now, x2)"
    by fastforce
  have f: "fresh_uuid uuid (ss_manager s)" using assms(1) u(1) by (auto simp: fresh_env_def) (metis fst_conv)
  show thesis
  proof (cases "op uuid now (ss_manager s) (ss_files s)")
    case (Inl e)
    then show thesis using failed assms(2) u by (auto simp: store_or_def)
  next
    case (Inr x)
    then show thesis using stored [of uuid now "fst x" "fst (snd x)" "snd (snd x)"] assms(2) u f
      by (cases x) (auto simp: store_or_def)
  qed
qed

lemma label_target_grows:
  assumes f: "fresh_env env" and wf: "wf_session (ss_manager s)" and i: "i \<in> ids (getEntries (ss_manager s))"
    and run: "label_target env i l s = (r, s')"
  shows "r = Inr () \<and> (\<exists>new. extended_by (ss_manager s) (ss_manager s') new \<and> list_all is_label new)"
proof (cases "truthy l")
  case None
  then show ?thesis using run wf by (auto simp: label_target_def intro!: exI [of _ "[]"] extended_none)
next
  case (Some w)
  obtain x s1 where x: "store_or env (appendLabelChange i (Some w)) s = (x, s1)" by fastforce
  from f x show ?thesis
  proof (cases rule: store_or_cases)
    case (failed uuid now e)
    then show ?thesis using i by (auto simp: appendLabelChange_def has_id_wf [OF wf] Let_def split: prod.splits)
  next
    case (stored uuid now j sm fs)
    from extended_label [OF wf stored(4,1)] run Some x stored(2,3) show ?thesis
      by (auto simp: label_target_def intro: exI [of _ "[e]" for e])
  qed
qed

lemma switch_leaf_grows:
  assumes f: "fresh_env env" and wf: "wf_session (ss_manager s)" and t: "t \<in> ids (getEntries (ss_manager s))"
    and n: "at_leaf n (ss_manager s)" and run: "switch_leaf env t n st d fx l s = (r, s')"
  shows "\<exists>summary new. r = Inr summary \<and> extended_by ((ss_manager s)\<lparr>sm_leafId := n\<rparr>) (ss_manager s') (option_list summary @ new)
    \<and> list_all is_label new \<and> (summary = None \<longleftrightarrow> truthy st = None)"
proof -
  let ?sm = "(ss_manager s)\<lparr>sm_leafId := n\<rparr>"
  have wfn: "wf_session ?sm" by (rule wf_move_leaf [OF wf n])
  show ?thesis
  proof (cases "truthy st")
    case None
    have b: "(case n of None \<Rightarrow> Inr (resetLeaf (ss_manager s)) | Some i \<Rightarrow> branch i (ss_manager s)) = Inr ?sm"
      using n by (auto simp: resetLeaf_def branch_def at_leaf_def has_id_wf [OF wf] split: option.splits)
    obtain x s2 where x: "label_target env t l (s\<lparr>ss_manager := ?sm\<rparr>) = (x, s2)" by fastforce
    from label_target_grows [OF f _ _ x] wfn t run None b x show ?thesis
      by (auto simp: switch_leaf_def intro!: exI [of _ None])
  next
    case (Some w)
    obtain y s1 where y: "store_or env (branchWithSummary n w d fx) s = (y, s1)" by fastforce
    from f y show ?thesis
    proof (cases rule: store_or_cases)
      case (failed uuid now e)
      then show ?thesis using n by (auto simp: branchWithSummary_def at_leaf_def has_id_wf [OF wf] split: option.splits)
    next
      case (stored uuid now i sm fs)
      then obtain p where p: "append_new p uuid now ?sm (ss_files s) = (i, sm, fs)"
        by (auto simp: branchWithSummary_def split: option.splits if_splits)
      from extended_append [OF wfn _ p] stored(4) obtain e where
        e: "extended_by ?sm sm [e]" "getEntry sm i = Some e" "i \<in> ids (getEntries sm)" by auto
      obtain x s2 where x: "label_target env i l s1 = (x, s2)" by fastforce
      from label_target_grows [OF f _ _ x] e stored(3) obtain new where
        new: "x = Inr ()" "extended_by sm (ss_manager s2) new" "list_all is_label new" by (auto simp: extended_by_def)
      with run Some y stored(2,3) x e(2) have "r = Inr (Some e)" "s' = s2" by (auto simp: switch_leaf_def)
      with extended_trans [OF e(1) new(2)] new(3) Some show ?thesis by auto
    qed
  qed
qed

lemma store_append_cases:
  assumes "fresh_env env" "store env op s = (i, s')"
  obtains uuid now fs where "op uuid now (ss_manager s) (ss_files s) = (i, ss_manager s', fs)" "fresh_uuid uuid (ss_manager s)"
    "ss_continues s' = ss_continues s" "ss_emitted s' = ss_emitted s"
proof -
  from assms(2) obtain uuid now sm fs x where
    "op uuid now (ss_manager s) (ss_files s) = (i, sm, fs)" "s' = s\<lparr>ss_manager := sm, ss_files := fs, ss_outside := x\<rparr>"
    "fresh_uuid uuid (ss_manager s)" using assms(1) by (blast elim: store_cases)
  then show thesis using that [of uuid now fs] by simp
qed

section \<open>Hosts that differ in the outside world\<close>

definition apart_host :: "'x host \<Rightarrow> 'x host \<Rightarrow> bool" where
  "apart_host h h' \<longleftrightarrow> h' = on_ses (\<lambda>_. ses h') h \<and> apart_outside (ses h) (ses h')"

lemma apart_host_fields:
  assumes "apart_host h h'"
  shows "ss_manager (ses h') = ss_manager (ses h)" "ss_continues (ses h') = ss_continues (ses h)"
    "ag_messages h' = ag_messages h" "ag_activeRun h' = ag_activeRun h" "ag_listeners h' = ag_listeners h"
    "ae_steering (ag_env h') = ae_steering (ag_env h)" "ae_followUp (ag_env h') = ae_followUp (ag_env h)"
proof -
  from assms have h: "h' = on_ses (\<lambda>_. ses h') h" "apart_outside (ses h) (ses h')" by (simp_all add: apart_host_def)
  show "ss_manager (ses h') = ss_manager (ses h)" "ss_continues (ses h') = ss_continues (ses h)"
    by (subst h(2) [unfolded apart_outside_def], simp)+
  show "ag_messages h' = ag_messages h" "ag_activeRun h' = ag_activeRun h" "ag_listeners h' = ag_listeners h"
    "ae_steering (ag_env h') = ae_steering (ag_env h)" "ae_followUp (ag_env h') = ae_followUp (ag_env h)"
    by (subst h(1), simp)+
qed

lemma apart_host_refl [simp]: "apart_host h h"
  by (simp add: apart_host_def on_ses_def update_env_def ses_def)

lemma apart_host_trans:
  assumes "apart_host a b" "apart_host b c"
  shows "apart_host a c"
proof -
  have "c = on_ses (\<lambda>_. ses c) (on_ses (\<lambda>_. ses b) a)" using assms by (simp add: apart_host_def)
  then have "c = on_ses (\<lambda>_. ses c) a" by (simp only: on_ses_const)
  with assms show ?thesis by (auto simp: apart_host_def intro: apart_outside_trans)
qed

lemma run_ses_apart:
  assumes "run_ses f h = (a, h')" "apart_outside (ses h) (ses h')"
  shows "apart_host h h'"
  using assms by (auto simp: apart_host_def run_ses_eq)

lemma outside_apart: "outside f s = (a, s') \<Longrightarrow> apart_outside s s'"
  by (auto simp: outside_def apart_outside_def split: prod.splits)

lemma auth_apart:
  assumes "getRequiredRequestAuth env m s = (r, s')"
  shows "apart_outside s s'"
proof -
  obtain a s1 where "outside (xe_auth env m) s = (a, s1)" by fastforce
  with assms outside_apart [OF this] show ?thesis
    by (auto simp: getRequiredRequestAuth_def split: sum.splits option.splits)
qed

lemma compaction_content_apart:
  assumes "make_compaction env p es m c s = (r, s')"
  shows "apart_outside s s'"
proof -
  obtain b s1 where b: "before_compact_result env p es c s = (b, s1)" by fastforce
  have "apart_outside s s1"
    using b by (auto simp: before_compact_result_def split: option.splits dest: outside_apart)
  moreover have "apart_outside s1 s'"
    using assms b by (cases b) (auto simp: make_compaction_def split: prod.splits sum.splits if_splits dest: outside_apart)
  ultimately show ?thesis by (rule apart_outside_trans)
qed

lemma compaction_content_kept:
  assumes "make_compaction env p es m c s = (Compacted d, s')" "xe_beforeCompact env = None"
  shows "cc_firstKeptEntryId d = pp_firstKeptEntryId p"
  using assms
  by (auto simp: make_compaction_def before_compact_result_def outside_def split: prod.splits sum.splits if_splits
      elim!: compact_result)

section \<open>The two compactions\<close>

lemma runAutoCompaction_cases:
  assumes "runAutoCompaction env reason w h0 = Some h'"
  defines "h \<equiv> on_ses (emit_session (CompactionStart reason)) h0"
  shows "(\<exists>hx a e. apart_host h hx \<and> h' = end_compaction reason a e hx) \<or>
    (\<exists>c hx h3. apart_host h hx \<and> apply_compaction env c hx = Some h3 \<and>
       h' = (let h4 = on_ses (emit_session (CompactionEnd reason (Some (content_result c)) False w None)) h3
             in if w then schedule_continue (drop_last_error h4)
                else if hasQueuedMessages (ag_env h4) then schedule_continue h4 else h4))"
proof (cases "ss_model (ses h)")
  case None
  then have "h' = end_compaction reason False None h" using assms by (simp add: runAutoCompaction_def)
  then show ?thesis using apart_host_refl by blast
next
  case (Some model)
  obtain a h1 where a: "run_ses (outside (xe_auth env model)) h = (a, h1)" by fastforce
  have m1: "apart_host h h1" by (rule run_ses_apart [OF a outside_apart [OF run_ses_fields(3) [OF a]]])
  show ?thesis
  proof (cases "case a of Inl _ \<Rightarrow> True | Inr key \<Rightarrow> truthy key = None")
    case True
    then have "h' = end_compaction reason False None h1"
      using assms Some a by (simp add: runAutoCompaction_def Let_def)
    then show ?thesis using m1 by blast
  next
    case False
    with assms Some a obtain es prep where p: "getBranch (ss_manager (ses h1)) None = Some es"
      "prepareCompaction es (st_compaction (ss_settings (ses h1))) = Some prep"
      by (auto simp: runAutoCompaction_def Let_def split: Option.bind_splits)
    show ?thesis
    proof (cases prep)
      case None
      then have "h' = end_compaction reason False None h1"
        using assms Some a False p by (simp add: runAutoCompaction_def Let_def)
      then show ?thesis using m1 by blast
    next
      case prep: (Some preparation)
      obtain r h2 where r: "run_ses (make_compaction env preparation es model None) h1 = (r, h2)" by fastforce
      have m2: "apart_host h h2"
        using apart_host_trans [OF m1 run_ses_apart [OF r compaction_content_apart [OF run_ses_fields(3) [OF r]]]] .
      show ?thesis
      proof (cases r)
        case (Compacted c)
        with assms Some a False p prep r obtain h3 where "apply_compaction env c h2 = Some h3"
          "h' = (let h4 = on_ses (emit_session (CompactionEnd reason (Some (content_result c)) False w None)) h3
             in if w then schedule_continue (drop_last_error h4)
                else if hasQueuedMessages (ag_env h4) then schedule_continue h4 else h4)"
          by (auto simp: runAutoCompaction_def Let_def)
        then show ?thesis using m2 by blast
      next
        case CompactionCancelled
        then have "h' = end_compaction reason True None h2"
          using assms Some a False p prep r by (simp add: runAutoCompaction_def Let_def)
        then show ?thesis using m2 by blast
      next
        case CompactionAborted
        then have "h' = end_compaction reason True None h2"
          using assms Some a False p prep r by (simp add: runAutoCompaction_def Let_def)
        then show ?thesis using m2 by blast
      next
        case (CompactionFailed e)
        then have "h' = end_compaction reason False (Some (failure_text reason e)) h2"
          using assms Some a False p prep r by (simp add: runAutoCompaction_def Let_def)
        then show ?thesis using m2 by blast
      qed
    qed
  qed
qed

lemma manual_content_apart:
  assumes "manual_content env c h = Some (r, h')"
  shows "apart_host h h'"
proof (cases "ss_model (ses h)")
  case None
  then show ?thesis using assms by (auto simp: manual_content_def)
next
  case (Some model)
  obtain a h1 where a: "run_ses (getRequiredRequestAuth env model) h = (a, h1)" by fastforce
  have m1: "apart_host h h1" by (rule run_ses_apart [OF a auth_apart [OF run_ses_fields(3) [OF a]]])
  show ?thesis
  proof (cases a)
    case Inl
    then show ?thesis using assms Some a m1 by (auto simp: manual_content_def)
  next
    case (Inr k)
    with assms Some a obtain es prep where p: "getBranch (ss_manager (ses h1)) None = Some es"
      "prepareCompaction es (st_compaction (ss_settings (ses h1))) = Some prep"
      by (auto simp: manual_content_def split: Option.bind_splits)
    show ?thesis
    proof (cases prep)
      case None
      then show ?thesis using assms Some a Inr p m1 by (auto simp: manual_content_def)
    next
      case prep: (Some preparation)
      obtain x h2 where x: "run_ses (make_compaction env preparation es model c) h1 = (x, h2)" by fastforce
      have "apart_host h h2"
        using apart_host_trans [OF m1 run_ses_apart [OF x compaction_content_apart [OF run_ses_fields(3) [OF x]]]] .
      then show ?thesis using assms Some a Inr p prep x by (cases x) (auto simp: manual_content_def)
    qed
  qed
qed

lemma manual_content_returns:
  assumes wf: "wf_session (ss_manager (ses h))"
  shows "\<exists>r h'. manual_content env ci h = Some (r, h') \<and> apart_host h h' \<and>
    (case r of Inl e \<Rightarrow> True
     | Inr c \<Rightarrow> xe_beforeCompact env = None \<longrightarrow> (\<exists>path settings p. getBranch (ss_manager (ses h)) None = Some path
         \<and> prepareCompaction path settings = Some (Some p) \<and> cc_firstKeptEntryId c = pp_firstKeptEntryId p))"
proof (cases "ss_model (ses h)")
  case None
  then show ?thesis by (simp add: manual_content_def)
next
  case (Some model)
  obtain a h1 where a: "run_ses (getRequiredRequestAuth env model) h = (a, h1)" by fastforce
  have m1: "apart_host h h1" by (rule run_ses_apart [OF a auth_apart [OF run_ses_fields(3) [OF a]]])
  note sm = apart_host_fields(1) [OF m1]
  show ?thesis
  proof (cases a)
    case (Inl e)
    then show ?thesis using Some a m1 by (simp add: manual_content_def)
  next
    case (Inr k)
    obtain es where es: "getBranch (ss_manager (ses h)) None = Some es" using getBranch_total [OF wf] by blast
    obtain prep where prep: "prepareCompaction es (st_compaction (ss_settings (ses h1))) = Some prep"
      using prepareCompaction_result [OF getBranch_facts [OF wf es]] by blast
    show ?thesis
    proof (cases prep)
      case None
      then show ?thesis using Some a Inr es prep sm m1 by (simp add: manual_content_def)
    next
      case p: (Some preparation)
      obtain r h2 where r: "run_ses (make_compaction env preparation es model ci) h1 = (r, h2)" by fastforce
      note f = run_ses_fields(3) [OF r]
      have m2: "apart_host h h2"
        using apart_host_trans [OF m1 run_ses_apart [OF r compaction_content_apart [OF f]]] .
      show ?thesis
      proof (cases r)
        case (Compacted c)
        with f have "xe_beforeCompact env = None \<longrightarrow> cc_firstKeptEntryId c = pp_firstKeptEntryId preparation"
          using compaction_content_kept by blast
        with Some a Inr es prep p sm r Compacted m2 show ?thesis by (auto simp: manual_content_def)
      qed (use Some a Inr es prep p sm r m2 in \<open>simp_all add: manual_content_def\<close>)
    qed
  qed
qed

section \<open>The compaction entry\<close>

lemma apply_compaction_result:
  assumes f: "fresh_env env" and wf: "wf_session (ss_manager (ses h))"
  shows "\<exists>h' e x. apply_compaction env c h = Some h'
    \<and> extended_by (ss_manager (ses h)) (ss_manager (ses h')) [e]
    \<and> e_payload e = Compaction \<lparr>c_summary = cc_summary c, c_firstKeptEntryId = cc_firstKeptEntryId c, c_tokensBefore = cc_tokensBefore c,
         c_details = cc_details c, c_fromHook = cc_fromExtension c, c_firstKeptEntryIndex = None\<rparr>
    \<and> sessionContext (ss_manager (ses h')) = Some x \<and> ag_messages h' = sc_messages x
    \<and> ag_listeners h' = ag_listeners h \<and> ag_activeRun h' = ag_activeRun h \<and> ss_continues (ses h') = ss_continues (ses h)
    \<and> ae_steering (ag_env h') = ae_steering (ag_env h) \<and> ae_followUp (ag_env h') = ae_followUp (ag_env h)
    \<and> (\<forall>pre k post. getBranch (ss_manager (ses h)) None = Some (pre @ k # post) \<longrightarrow> e_id k = cc_firstKeptEntryId c \<longrightarrow>
         ag_messages h' = createCompactionSummaryMessage (cc_summary c) (cc_tokensBefore c) (e_timestamp e)
           # concat (map entry_messages (k # post)))"
proof -
  let ?op = "appendCompaction (cc_summary c) (cc_firstKeptEntryId c) (cc_tokensBefore c) (cc_details c) (cc_fromExtension c)"
  obtain i s1 where st: "store env ?op (ses h) = (i, s1)" by fastforce
  from store_append_cases [OF f st] obtain uuid now fs where
    o: "?op uuid now (ss_manager (ses h)) (ss_files (ses h)) = (i, ss_manager s1, fs)" "fresh_uuid uuid (ss_manager (ses h))"
    "ss_continues s1 = ss_continues (ses h)" by blast
  obtain e where
    e: "extended_by (ss_manager (ses h)) (ss_manager s1) [e]"
    "e_payload e = Compaction \<lparr>c_summary = cc_summary c, c_firstKeptEntryId = cc_firstKeptEntryId c, c_tokensBefore = cc_tokensBefore c,
         c_details = cc_details c, c_fromHook = cc_fromExtension c, c_firstKeptEntryIndex = None\<rparr>" "e_timestamp e = now"
    using extended_append [OF wf o(2) o(1) [unfolded appendCompaction_def]] by blast
  obtain x where x: "sessionContext (ss_manager s1) = Some x" using sessionContext_total e(1) by (auto simp: extended_by_def)
  define h1 where "h1 = (on_ses (\<lambda>s. snd (store env ?op s)) h)\<lparr>ag_messages := sc_messages x\<rparr>"
  have s1: "ses h1 = s1" using st by (simp add: h1_def)
  define h' where "h' = (case saved_compaction (cc_summary c) (ss_manager s1) of
      Some e \<Rightarrow> on_ses (tell_extensions env (XSessionCompact e (cc_fromExtension c))) h1 | None \<Rightarrow> h1)"
  have h'1: "apply_compaction env c h = Some h'"
    unfolding h'_def h1_def using st x by (simp add: apply_compaction_def Let_def split: option.split)
  have h'2: "h' = h1 \<or> (\<exists>y. h' = on_ses (tell_extensions env y) h1)"
    unfolding h'_def by (auto split: option.split)
  have hs: "ss_manager (ses h') = ss_manager s1" "ag_messages h' = sc_messages x" "ag_listeners h' = ag_listeners h"
    "ag_activeRun h' = ag_activeRun h" "ss_continues (ses h') = ss_continues (ses h)"
    "ae_steering (ag_env h') = ae_steering (ag_env h)" "ae_followUp (ag_env h') = ae_followUp (ag_env h)"
    using h'2 o(3) s1 by (auto simp: h1_def tell_extensions_def)
  have k: "ag_messages h' = createCompactionSummaryMessage (cc_summary c) (cc_tokensBefore c) (e_timestamp e)
           # concat (map entry_messages (k # post))"
    if "getBranch (ss_manager (ses h)) None = Some (pre @ k # post)" "e_id k = cc_firstKeptEntryId c" for pre k post
    using append_compaction_context [OF wf o(2,1) that] x hs(2) e(3) by auto
  show ?thesis using h'1 hs e(1,2) x k by (intro exI [of _ h'] exI [of _ e] exI [of _ x]) simp
qed

lemma apply_compaction_kept:
  assumes "fresh_env env" "wf_session (ss_manager (ses h))" "apply_compaction env c h = Some h'"
    and "getBranch (ss_manager (ses h)) None = Some (pre @ k # post)" "e_id k = cc_firstKeptEntryId c"
  shows "\<exists>now. ag_activeRun h' = ag_activeRun h \<and> ss_continues (ses h') = ss_continues (ses h)
    \<and> ae_steering (ag_env h') = ae_steering (ag_env h) \<and> ae_followUp (ag_env h') = ae_followUp (ag_env h)
    \<and> ag_messages h' = createCompactionSummaryMessage (cc_summary c) (cc_tokensBefore c) now # concat (map entry_messages (k # post))"
proof -
  from apply_compaction_result [OF assms(1,2), of c] obtain h2 and e :: session_entry where r: "apply_compaction env c h = Some h2"
    "ag_activeRun h2 = ag_activeRun h \<and> ss_continues (ses h2) = ss_continues (ses h)
    \<and> ae_steering (ag_env h2) = ae_steering (ag_env h) \<and> ae_followUp (ag_env h2) = ae_followUp (ag_env h)"
    "\<forall>pre k post. getBranch (ss_manager (ses h)) None = Some (pre @ k # post) \<longrightarrow> e_id k = cc_firstKeptEntryId c \<longrightarrow>
         ag_messages h2 = createCompactionSummaryMessage (cc_summary c) (cc_tokensBefore c) (e_timestamp e) # concat (map entry_messages (k # post))"
    by blast
  with assms(3-5) show ?thesis by (intro exI [of _ "e_timestamp e"]) simp
qed

end
