(* ===== verification/Agent_Session_Effects.thy ===== *)
theory Agent_Session_Effects
  imports Agent_Session_Compactions
begin

text \<open>
  Every operation of the session on retries, compactions, queues, bash results, prompts and custom
  messages advances it.
\<close>

section \<open>Operations on the host\<close>

lemma advances_on_ses: "(\<And>s. advances s (f s)) \<Longrightarrow> advances (ses h) (ses (on_ses f h))"
  by simp

lemma advances_run_ses:
  assumes "run_ses f h = (a, h')" "\<And>s s'. f s = (a, s') \<Longrightarrow> advances s s'"
  shows "advances (ses h) (ses h')"
  using run_ses_fields(3) [OF assms(1)] assms(2) by blast

lemma outside_advances: "outside f s = (a, s') \<Longrightarrow> advances s s'"
  by (rule silent_advances [OF outside_silent])

lemma advances_silent: "advances a b \<Longrightarrow> silent b c \<Longrightarrow> advances a c"
  using advances_trans silent_advances by blast

lemma silent_then: "silent a b \<Longrightarrow> advances b c \<Longrightarrow> advances a c"
  using advances_trans silent_advances by blast

lemma resolveRetry_silent [simp]: "silent s (resolveRetry s)"
  by (simp add: resolveRetry_def)

lemma retry_cancelled_advances: "advances s (retry_cancelled s)"
proof -
  have "ss_emitted (retry_cancelled s) = ss_emitted s @ [AutoRetryEnd False (rc_attempt (core s)) (Some (js ''Retry cancelled''))]"
    "core (retry_cancelled s) = (core s)\<lparr>rc_attempt := 0\<rparr>" "ss_manager (retry_cancelled s) = ss_manager s"
    by (simp_all add: retry_cancelled_def resolveRetry_def emit_session_def core_def)
  then show ?thesis using announces_one [OF session_announce.cancelled] by (simp add: advances_def)
qed

lemma drop_last_ses [simp]: "ses (drop_last_assistant h) = ses h" "ses (drop_last_error h) = ses h"
  by (simp_all add: drop_last_assistant_def drop_last_error_def)

lemma handleRetryableError_advances:
  assumes "handleRetryableError m h = (b, h')"
  shows "advances (ses h) (ses h')"
proof -
  let ?s = "ses h"
  let ?n = "ss_retryAttempt ?s" and ?max = "st_maxRetries (ss_settings ?s)"
  consider (off) "\<not> st_retryEnabled (ss_settings ?s)" | (exhausted) "st_retryEnabled (ss_settings ?s)" "?n + 1 > ?max"
    | (retry) "st_retryEnabled (ss_settings ?s)" "?n + 1 \<le> ?max" by linarith
  then show ?thesis
  proof cases
    case off
    then show ?thesis using assms silent_advances [OF resolveRetry_silent] by (auto simp: handleRetryableError_def)
  next
    case exhausted
    with assms have "ss_emitted (ses h') = ss_emitted ?s @ [AutoRetryEnd False ?n (am_errorMessage m)]"
      "core (ses h') = (core ?s)\<lparr>rc_attempt := 0\<rparr>" "ss_manager (ses h') = ss_manager ?s"
      by (auto simp: handleRetryableError_def Let_def resolveRetry_def emit_session_def core_def)
    moreover have "announces (core ?s) [AutoRetryEnd False ?n (am_errorMessage m)] ((core ?s)\<lparr>rc_attempt := 0\<rparr>)"
      using announces_one [OF session_announce.exhausted, of "core ?s" "am_errorMessage m"] exhausted(2) by (simp add: core_def)
    ultimately show ?thesis by (simp add: advances_def)
  next
    case retry
    with assms obtain e where "ss_emitted (ses h') = ss_emitted ?s @ [AutoRetryStart (?n + 1) ?max
        (st_baseDelayMs (ss_settings ?s) * 2 ^ ?n) e]" "core (ses h') = (core ?s)\<lparr>rc_attempt := ?n + 1\<rparr>"
      "ss_manager (ses h') = ss_manager ?s"
      by (auto simp: handleRetryableError_def Let_def resolveRetry_def emit_session_def core_def)
    moreover have "announces (core ?s) [AutoRetryStart (?n + 1) ?max (st_baseDelayMs (ss_settings ?s) * 2 ^ ?n) e]
        ((core ?s)\<lparr>rc_attempt := ?n + 1\<rparr>)"
      using announces_one [OF session_announce.retry, of "core ?s" e] retry(2) by (simp add: core_def)
    ultimately show ?thesis by (simp add: advances_def)
  qed
qed

lemma apply_compaction_advances:
  assumes "fresh_env env" "apply_compaction env c h = Some h'"
  shows "advances (ses h) (ses h')"
proof -
  let ?s = "snd (store env (appendCompaction (cc_summary c) (cc_firstKeptEntryId c) (cc_tokensBefore c) (cc_details c) (cc_fromExtension c)) (ses h))"
  have "silent ?s (ses h')"
    using assms(2) by (auto simp: apply_compaction_def Let_def split: option.splits)
  with silent_trans [OF store_silent [OF assms(1) appends(4)]] show ?thesis by (blast intro: silent_advances)
qed

lemma end_compaction_advances [simp]: "advances (ses h) (ses (end_compaction r b e h))"
  by (simp add: end_compaction_def silent_emit)

lemma schedule_silent [simp]: "silent (ses h) (ses (schedule_continue h))"
  by (simp add: schedule_continue_def)

lemma apart_outside_silent: "apart_outside a b \<Longrightarrow> silent a b"
  by (simp only: apart_outside_def) (metis silent_updates(2))

lemma apart_silent: "apart_host h h' \<Longrightarrow> silent (ses h) (ses h')"
  by (simp add: apart_host_def apart_outside_silent)

lemma runAutoCompaction_advances:
  assumes "fresh_env env" "runAutoCompaction env reason w h0 = Some h'"
  shows "advances (emit_session (CompactionStart reason) (ses h0)) (ses h')"
proof -
  let ?h = "on_ses (emit_session (CompactionStart reason)) h0"
  from runAutoCompaction_cases [OF assms(2)] consider
    (ended) hx a e where "apart_host ?h hx" "h' = end_compaction reason a e hx"
  | (compacted) c hx h3 where "apart_host ?h hx" "apply_compaction env c hx = Some h3"
      "h' = (let h4 = on_ses (emit_session (CompactionEnd reason (Some (content_result c)) False w None)) h3
             in if w then schedule_continue (drop_last_error h4)
                else if hasQueuedMessages (ag_env h4) then schedule_continue h4 else h4)"
    by blast
  then have "advances (ses ?h) (ses h')"
  proof cases
    case ended
    from advances_trans [OF silent_advances [OF apart_silent [OF ended(1)]] end_compaction_advances] show ?thesis
      unfolding ended(2) .
  next
    case compacted
    from advances_trans [OF silent_advances [OF apart_silent [OF compacted(1)]] apply_compaction_advances [OF assms(1) compacted(2)]]
    have "advances (ses ?h) (ses (on_ses (emit_session (CompactionEnd reason (Some (content_result c)) False w None)) h3))"
      by (simp add: advances_emit)
    then show ?thesis
      unfolding compacted(3) Let_def
      by (auto simp: schedule_continue_def intro: advances_silent [OF _ silent_updates(8)])
  qed
  then show ?thesis by simp
qed

lemma checkCompaction_cases:
  assumes "checkCompaction env m skip h = Some h'"
  shows "h' = h \<or> h' = end_compaction OverflowC False (Some OVERFLOW_TWICE) h
    \<or> (\<not> ss_overflowRecoveryAttempted (ses h) \<and> runAutoCompaction env OverflowC True
         (drop_last_assistant (on_ses (\<lambda>s. s\<lparr>ss_overflowRecoveryAttempted := True\<rparr>) h)) = Some h')
    \<or> runAutoCompaction env ThresholdC False h = Some h'"
proof (cases "getBranch (ss_manager (ses h)) None")
  case None
  then show ?thesis
    using assms unfolding checkCompaction_def Let_def by (simp split: if_split_asm)
next
  case (Some path)
  then show ?thesis
    using assms unfolding checkCompaction_def Let_def
    by (simp only: bind.bind_lunit split: if_split_asm option.split_asm) simp_all
qed

lemma overflow_advances:
  assumes "\<not> ss_overflowRecoveryAttempted s"
  shows "advances s (emit_session (CompactionStart OverflowC) (s\<lparr>ss_overflowRecoveryAttempted := True\<rparr>))"
proof -
  have "announces (core s) [CompactionStart OverflowC] ((core s)\<lparr>rc_overflow := True\<rparr>)"
    by (rule announces_one [OF session_announce.overflow]) (simp add: core_def assms)
  then show ?thesis by (simp add: advances_def emit_session_def core_def)
qed

lemma checkCompaction_advances:
  assumes "fresh_env env" "checkCompaction env m skip h = Some h'"
  shows "advances (ses h) (ses h')"
  using checkCompaction_cases [OF assms(2)]
proof (elim disjE conjE)
  assume n: "\<not> ss_overflowRecoveryAttempted (ses h)" and "runAutoCompaction env OverflowC True
         (drop_last_assistant (on_ses (\<lambda>s. s\<lparr>ss_overflowRecoveryAttempted := True\<rparr>) h)) = Some h'"
  from advances_trans [OF overflow_advances [OF n] runAutoCompaction_advances [OF assms(1) this(2), simplified]]
  show ?thesis .
next
  assume "runAutoCompaction env ThresholdC False h = Some h'"
  from advances_trans [OF silent_emit runAutoCompaction_advances [OF assms(1) this]] show ?thesis by simp
qed simp_all

lemma settle_end_advances: "fresh_env env \<Longrightarrow> settle_end env m h = Some h' \<Longrightarrow> advances (ses h) (ses h')"
  unfolding settle_end_def using silent_then [OF resolveRetry_silent] checkCompaction_advances by fastforce

lemma agent_ended_advances:
  assumes "fresh_env env" "agent_ended env e h = Some h'"
  shows "advances (ses h) (ses h')"
proof (cases "\<exists>ms m. e = AgentEnd ms \<and> ss_lastAssistant (ses h) = Some m")
  case True
  then obtain ms m where e: "e = AgentEnd ms" "ss_lastAssistant (ses h) = Some m" by blast
  let ?h1 = "on_ses (\<lambda>s. s\<lparr>ss_lastAssistant := None\<rparr>) h"
  obtain b h2 where b: "handleRetryableError m ?h1 = (b, h2)" by fastforce
  have m1: "advances (ses h) (ses ?h1)" by (simp add: silent_advances)
  have m2: "advances (ses h) (ses h2)" using advances_trans [OF m1 handleRetryableError_advances [OF b]] .
  have "h' = h2 \<or> settle_end env m h2 = Some h' \<or> settle_end env m ?h1 = Some h'"
    using assms(2) e b by (cases b) (simp_all add: agent_ended_def Let_def split: if_split_asm)
  then show ?thesis
    using m1 m2 settle_end_advances [OF assms(1)] by (elim disjE) (blast intro: advances_trans)+
next
  case False
  then show ?thesis using assms(2) by (auto simp: agent_ended_def split: agent_event.splits option.splits)
qed

lemma process_next_advances:
  assumes "fresh_env env" "process_next env h = Some h'"
  shows "advances (ses h) (ses h')"
proof (cases "ss_events (ses h) = [] \<or> ss_retrying (ses h) \<noteq> None")
  case True
  then show ?thesis using assms(2) by (auto simp: process_next_def split: list.splits)
next
  case False
  then obtain e rest where ev: "ss_events (ses h) = e # rest" by (cases "ss_events (ses h)") auto
  let ?h1 = "on_ses (note_event env e) (on_ses (\<lambda>s. s\<lparr>ss_events := rest\<rparr>) h)"
  have "advances (ses h) (ses ?h1)"
    using silent_then [OF silent_updates(1) note_event_advances [OF assms(1)]] by simp
  moreover have "agent_ended env e ?h1 = Some h'" using assms(2) False ev by (simp add: process_next_def processAgentEvent_note)
  ultimately show ?thesis using agent_ended_advances [OF assms(1)] advances_trans by blast
qed

lemma abortRetry_advances:
  assumes "fresh_env env" "abortRetry env h = Some h'"
  shows "advances (ses h) (ses h')"
proof (cases "ss_retrying (ses h)")
  case None
  then show ?thesis using assms(2) by (auto simp: abortRetry_def silent_advances)
next
  case (Some m)
  have "advances (ses h) (ses (on_ses (\<lambda>s. retry_cancelled (resolveRetry s)) h))"
    using silent_then [OF resolveRetry_silent retry_cancelled_advances] by simp
  moreover have "settle_end env m (on_ses (\<lambda>s. retry_cancelled (resolveRetry s)) h) = Some h'"
    using assms(2) Some by (simp add: abortRetry_def)
  ultimately show ?thesis using settle_end_advances [OF assms(1)] advances_trans by blast
qed

lemma retry_elapsed_silent: "silent (ses h) (ses (retry_elapsed h))"
  by (simp add: retry_elapsed_def silent_def core_def)

section \<open>Manual compaction\<close>

lemma listener_ses [simp]: "ses (reconnectToAgent h) = ses h" "ses (disconnectFromAgent h) = ses h" "ses (abort h) = ses h"
  by (simp_all add: reconnectToAgent_def disconnectFromAgent_def subscribe_def unsubscribe_def abort_def ses_def update_env_def)

lemma compact_begin_advances:
  "fresh_env env \<Longrightarrow> compact_begin env h = Some h' \<Longrightarrow> advances (ses h) (ses h')"
  using abortRetry_advances [of env "disconnectFromAgent h"] by (auto simp: compact_begin_def)

lemma abort_session_advances:
  "fresh_env env \<Longrightarrow> abort_session env h = Some h' \<Longrightarrow> advances (ses h) (ses h')"
  using abortRetry_advances by (fastforce simp: abort_session_def)

lemma run_ses_advances:
  assumes "run_ses f h = (a, h')" "\<And>s s'. f s = (a, s') \<Longrightarrow> silent s s'"
  shows "advances (ses h) (ses h')"
  using advances_run_ses [OF assms(1)] assms(2) silent_advances by blast

lemma compact_finish_advances:
  assumes "fresh_env env" "compact_finish env c h0 = Some (r, h')"
  shows "advances (ses h0) (ses h')"
proof -
  let ?h = "on_ses (emit_session (CompactionStart ManualC)) h0"
  from assms(2) obtain x h where x: "manual_content env c ?h = Some (x, h)"
    by (auto simp: compact_finish_def split: Option.bind_splits)
  have m: "advances (ses h0) (ses h)"
    using advances_trans [OF silent_emit silent_advances [OF apart_silent [OF manual_content_apart [OF x]], simplified]] by simp
  show ?thesis
  proof (cases x)
    case (Inl e)
    then show ?thesis using assms(2) x m
      by (auto simp: compact_finish_def end_compaction_def Let_def intro!: advances_emit [OF m])
  next
    case (Inr d)
    with assms(2) x obtain h1 where h1: "apply_compaction env d h = Some h1"
      "h' = reconnectToAgent (on_ses (emit_session (CompactionEnd ManualC (Some (content_result d)) False False None)) h1)"
      by (auto simp: compact_finish_def)
    from advances_emit [OF advances_trans [OF m apply_compaction_advances [OF assms(1) h1(1)]]]
    show ?thesis by (simp add: h1(2))
  qed
qed

section \<open>Input\<close>

lemma emitQueueUpdate_advances [simp]: "advances s (emitQueueUpdate s)"
  by (simp add: emitQueueUpdate_def silent_emit)

lemma queue_ses [simp]: "ae_world (steer m e) = ae_world e" "ae_world (followUp m e) = ae_world e"
  "ae_world (clearAllQueues e) = ae_world e" "ae_world (set_steeringMode q e) = ae_world e" "ae_world (set_followUpMode q e) = ae_world e"
  by (simp_all add: steer_def followUp_def clearAllQueues_def clearSteeringQueue_def clearFollowUpQueue_def set_steeringMode_def set_followUpMode_def)

lemma clock_after: "outside (xe_clock env) (emitQueueUpdate s') = (a, s'') \<Longrightarrow> silent s s' \<Longrightarrow> advances s s''"
proof -
  assume "outside (xe_clock env) (emitQueueUpdate s') = (a, s'')" "silent s s'"
  from silent_then [OF this(2) advances_silent [OF emitQueueUpdate_advances outside_silent [OF this(1)]]] show ?thesis .
qed

lemma queue_advances:
  "advances (ses h) (ses (queueSteer env t images h))" "advances (ses h) (ses (queueFollowUp env t images h))"
proof -
  let ?f = "\<lambda>s. outside (xe_clock env) (emitQueueUpdate (s\<lparr>ss_steeringMessages := ss_steeringMessages s @ [t]\<rparr>))"
  let ?g = "\<lambda>s. outside (xe_clock env) (emitQueueUpdate (s\<lparr>ss_followUpMessages := ss_followUpMessages s @ [t]\<rparr>))"
  obtain a h1 b h2 where r: "run_ses ?f h = (a, h1)" "run_ses ?g h = (b, h2)" by fastforce
  have "advances (ses h) (ses h1)" "advances (ses h) (ses h2)"
    using run_ses_fields(3) [OF r(1)] run_ses_fields(3) [OF r(2)] clock_after by (blast intro: silent_updates)+
  then show "advances (ses h) (ses (queueSteer env t images h))" "advances (ses h) (ses (queueFollowUp env t images h))"
    using r by (simp_all add: queueSteer_def queueFollowUp_def ses_fold)
qed

lemma steer_advances: "steer_session env t images h = (r, h') \<Longrightarrow> advances (ses h) (ses h')"
  "followUp_session env t images h = (r, h') \<Longrightarrow> advances (ses h) (ses h')"
  by (auto simp: steer_session_def followUp_session_def queue_text_def queue_advances split: option.splits)

lemma clearQueue_advances: "clearQueue h = (r, h') \<Longrightarrow> advances (ses h) (ses h')"
proof -
  assume "clearQueue h = (r, h')"
  then have "ses h' = emitQueueUpdate ((ses h)\<lparr>ss_steeringMessages := [], ss_followUpMessages := []\<rparr>)"
    by (auto simp: clearQueue_def ses_fold)
  then show ?thesis
    using silent_then [OF silent_trans [OF silent_updates(3) silent_updates(4)] emitQueueUpdate_advances] by simp
qed

lemma add_bash_silent: "fresh_env env \<Longrightarrow> silent (ses h) (ses (add_bash env m h))"
  by (simp add: add_bash_def store_silent)

lemma recordBashResult_advances: "fresh_env env \<Longrightarrow> advances (ses h) (ses (recordBashResult env c r x h))"
proof -
  assume f: "fresh_env env"
  obtain now h1 where r: "run_ses (outside (xe_clock env)) h = (now, h1)" by fastforce
  have "silent (ses h) (ses h1)" by (rule outside_silent [OF run_ses_fields(3) [OF r]])
  then show ?thesis
    using silent_trans [OF _ add_bash_silent [OF f]] silent_trans [OF _ silent_updates(9)] r
    by (auto simp: recordBashResult_def Let_def intro!: silent_advances)
qed

lemma fold_bash_silent: "fresh_env env \<Longrightarrow> silent (ses h) (ses (fold (add_bash env) ms h))"
  by (induction ms arbitrary: h) (auto intro: silent_trans [OF add_bash_silent])

lemma flush_advances: "fresh_env env \<Longrightarrow> advances (ses h) (ses (flushPendingBashMessages env h))"
  by (auto simp: flushPendingBashMessages_def intro: silent_advances silent_trans [OF fold_bash_silent silent_updates(9)])

lemma prompt_input_silent:
  assumes "prompt_input_text env t opt s = (r, s')"
  shows "silent s s'"
proof -
  let ?command = "if po_expandPromptTemplates opt \<and> prefix (js ''/'') t then tryExecuteExtensionCommand env t s else (False, s)"
  obtain b s1 where t: "?command = (b, s1)" by fastforce
  have 1: "silent s s1" using t by (auto simp: tryExecuteExtensionCommand_def split: if_splits prod.splits option.splits)
  obtain x s2 where x: "intercept_input env t (po_images opt) s1 = (x, s2)" by fastforce
  have 2: "silent s1 s2"
    using x by (auto simp: intercept_input_def split: option.splits prod.splits input_result.splits dest: outside_silent)
  have "s' = s1 \<or> s' = s2"
    using assms t x by (cases b; cases x) (auto simp: prompt_input_text_def)
  with 1 2 show ?thesis by (blast intro: silent_trans)
qed

lemma prompt_decide_advances:
  assumes "prompt_decide env t opt h = (d, h')"
  shows "advances (ses h) (ses h')"
proof -
  obtain x h1 where x: "run_ses (prompt_input_text env t opt) h = (x, h1)" by fastforce
  have 1: "advances (ses h) (ses h1)" by (rule run_ses_advances [OF x prompt_input_silent])
  have "h' = h1 \<or> (\<exists>e i. h' = queueFollowUp env e i h1) \<or> (\<exists>e i. h' = queueSteer env e i h1)"
    using assms x by (auto simp: prompt_decide_def split: option.splits if_splits streaming_behavior.splits prod.splits)
  with 1 queue_advances show ?thesis by (blast intro: advances_trans)
qed

lemma customs_silent: "customs_of env cs s = (ms, s') \<Longrightarrow> silent s s'"
  by (induction cs arbitrary: s ms) (auto split: prod.splits dest!: outside_silent intro: silent_trans)

lemma prompt_messages_advances:
  assumes "prompt_messages env t images h = (ms, h')"
  shows "advances (ses h) (ses h')"
proof -
  obtain now h1 where 1: "run_ses (outside (xe_clock env)) h = (now, h1)" by fastforce
  let ?h2 = "on_ses (\<lambda>s. s\<lparr>ss_pendingNextTurn := []\<rparr>) h1"
  obtain cs p h3 where 3: "run_ses (outside (xe_beforeAgentStart env t images (ss_baseSystemPrompt (ses ?h2)))) ?h2 = ((cs, p), h3)"
    by (metis prod.exhaust)
  obtain xs h4 where 4: "run_ses (customs_of env cs) h3 = (xs, h4)" by fastforce
  have "ses h' = ses h4" using assms 1 3 4 by (auto simp: prompt_messages_def Let_def)
  moreover have "silent (ses h) (ses ?h2)"
    using silent_trans [OF outside_silent [OF run_ses_fields(3) [OF 1]] silent_updates(5)] by simp
  moreover have "silent (ses ?h2) (ses h3)" by (rule outside_silent [OF run_ses_fields(3) [OF 3]])
  moreover have "silent (ses h3) (ses h4)" by (rule customs_silent [OF run_ses_fields(3) [OF 4]])
  ultimately show ?thesis by (metis silent_trans silent_advances)
qed

lemma prompt_prepare_advances:
  assumes "fresh_env env" "prompt_prepare env t images h = Some (r, h')"
  shows "advances (ses h) (ses h')"
proof -
  let ?h1 = "flushPendingBashMessages env h"
  note f = flush_advances [OF assms(1), of h]
  have "h' = ?h1 \<or> (\<exists>h2 ms. (h2 = ?h1 \<or> (\<exists>m. checkCompaction env m False ?h1 = Some h2)) \<and> prompt_messages env t images h2 = (ms, h'))"
    using assms(2) by (auto simp: prompt_prepare_def Let_def split: option.splits prod.splits) (metis surj_pair)+
  then show ?thesis
    using f prompt_messages_advances checkCompaction_advances [OF assms(1)] by (blast intro: advances_trans)
qed

text \<open>A custom message that starts no run.\<close>

lemma custom_advances:
  assumes "fresh_env env" "sendCustomMessage env opts sch fuel c False d h = Some (r, h')"
  shows "advances (ses h) (ses h')"
proof -
  obtain now h1 where n: "run_ses (outside (xe_clock env)) h = (now, h1)" by fastforce
  have 1: "silent (ses h) (ses h1)" by (rule outside_silent [OF run_ses_fields(3) [OF n]])
  let ?m = "custom_of c now"
  let ?s = "snd (store env (appendCustomMessageEntry (cmd_customType c) (cmd_content c) (cmd_display c) (cmd_details c)) (ses h1))"
  have p: "plain_event (AgentEv (MessageStart ?m))" "plain_event (AgentEv (MessageEnd ?m))" by (simp_all add: custom_of_def)
  have s: "silent (ses h1) ?s" by (rule store_silent [OF assms(1)]) simp
  have 2: "advances (ses h1) (emit_session (AgentEv (MessageEnd ?m)) (emit_session (AgentEv (MessageStart ?m)) ?s))"
    by (intro advances_emit p silent_advances [OF s])
  have 3: "silent (ses h1) ((ses h1)\<lparr>ss_pendingNextTurn := ss_pendingNextTurn (ses h1) @ [?m]\<rparr>)" by simp
  have "ses h' = ses h1 \<or> ses h' = (ses h1)\<lparr>ss_pendingNextTurn := ss_pendingNextTurn (ses h1) @ [?m]\<rparr>
    \<or> ses h' = emit_session (AgentEv (MessageEnd ?m)) (emit_session (AgentEv (MessageStart ?m)) ?s)"
    using assms(2) n by (auto simp: sendCustomMessage_def Let_def ses_fold split: if_splits)
  with 1 2 3 show ?thesis by (metis silent_advances silent_then)
qed

end
