(* ===== verification/Agent_Session_Navigation.thy ===== *)
theory Agent_Session_Navigation
  imports Agent_Session_Effects
begin

text \<open>
  Navigation in the tree announces nothing and keeps the history; where it arrives (\<open>arrived\<close>):
  at the target's place, with the summary and the label it was asked for, and the transcript of there.
\<close>

section \<open>Navigation\<close>

lemma leaf_moved_history:
  assumes "at_leaf l sm"
  shows "history_kept sm (sm\<lparr>sm_leafId := l\<rparr>)"
  using op_effect_keeps [OF op_effect.move [OF assms]] by (auto simp: history_kept_def)

lemma branch_history: "branch i sm = Inr sm' \<Longrightarrow> history_kept sm sm'"
proof -
  assume b: "branch i sm = Inr sm'"
  then have "wf_session sm \<Longrightarrow> at_leaf (Some i) sm"
    by (auto simp: branch_def at_leaf_def has_id_wf split: if_splits)
  with leaf_moved_history [of "Some i" sm] b show ?thesis
    by (auto simp: branch_def history_kept_def split: if_splits)
qed

lemma resetLeaf_history: "history_kept sm (resetLeaf sm)"
  unfolding resetLeaf_def by (rule leaf_moved_history) (simp add: at_leaf_def)

lemma label_silent: "fresh_env env \<Longrightarrow> label_target env i l s = (r, s') \<Longrightarrow> silent s s'"
  by (auto simp: label_target_def split: option.splits prod.splits sum.splits dest: store_or_silent [rotated 2])

lemma manager_silent: "history_kept (ss_manager s) sm \<Longrightarrow> silent s (s\<lparr>ss_manager := sm\<rparr>)"
  by (simp add: silent_def core_def)

lemma switch_leaf_silent:
  assumes f: "fresh_env env" and r: "switch_leaf env t n st d fx l s = (r, s')"
  shows "silent s s'"
proof (cases "truthy st")
  case (Some w)
  obtain x s1 where x: "store_or env (branchWithSummary n w d fx) s = (x, s1)" by fastforce
  have 1: "silent s s1" by (rule store_or_silent [OF f _ x]) simp
  then show ?thesis
    using r Some x label_silent [OF f]
    by (auto simp: switch_leaf_def Let_def split: sum.splits prod.splits intro: silent_trans)
next
  case None
  let ?sm = "case n of None \<Rightarrow> Inr (resetLeaf (ss_manager s)) | Some i \<Rightarrow> branch i (ss_manager s)"
  show ?thesis
  proof (cases ?sm)
    case (Inl e)
    then show ?thesis using r None by (auto simp: switch_leaf_def)
  next
    case (Inr sm)
    then have "history_kept (ss_manager s) sm"
      using branch_history resetLeaf_history by (auto split: option.splits)
    then have "silent s (s\<lparr>ss_manager := sm\<rparr>)" by (rule manager_silent)
    then show ?thesis
      using r None Inr label_silent [OF f]
      by (auto simp: switch_leaf_def split: sum.splits prod.splits intro: silent_trans)
  qed
qed

lemma navigation_summary_apart:
  assumes "navigation_summary env opt es b s = (r, s')"
  shows "apart_outside s s'"
proof (cases "(if no_summarize opt then bt_summary b else None) \<noteq> None \<or> \<not> no_summarize opt \<or> es = [] \<or> ss_model s = None")
  case True
  then show ?thesis
    using assms by (auto simp: navigation_summary_def split: option.splits if_splits prod.splits)
next
  case False
  then obtain model where m: "ss_model s = Some model" by auto
  obtain a s1 where a: "getRequiredRequestAuth env model s = (a, s1)" by fastforce
  define g where "g = outside (generateBranchSummary (xe_llm env) es (llm_of_model model)
          (case bt_customInstructions b of Some c \<Rightarrow> Some c | None \<Rightarrow> no_customInstructions opt)
          (case bt_replaceInstructions b of Some r \<Rightarrow> r | None \<Rightarrow> no_replaceInstructions opt)
          (st_branchReserveTokens (ss_settings s1))) s1"
  obtain x s2 where x: "g = (x, s2)" by fastforce
  have 2: "apart_outside s1 s2" using x unfolding g_def by (rule outside_apart)
  have "s' = s1 \<or> s' = s2"
    using assms False m a x [unfolded g_def] by (cases a; cases x) (auto simp: navigation_summary_def split: if_splits option.splits)
  with auth_apart [OF a] 2 show ?thesis by (auto intro: apart_outside_trans)
qed

lemma finish_navigation_silent: "finish_navigation env o1 e b h = Some h' \<Longrightarrow> silent (ses h) (ses h')"
  by (auto simp: finish_navigation_def)

lemma navigate_to_silent:
  assumes "fresh_env env" "navigate_to env opt o1 t es b h = Some (r, h')"
  shows "silent (ses h) (ses h')"
proof -
  obtain x h1 where x: "run_ses (navigation_summary env opt es b) h = (x, h1)" by fastforce
  have 1: "silent (ses h) (ses h1)" by (rule apart_outside_silent [OF navigation_summary_apart [OF run_ses_fields(3) [OF x]]])
  show ?thesis
  proof (cases x)
    case (SummaryText st d fx)
    obtain n et where n: "navigation_target t = (n, et)" by fastforce
    let ?l = "case bt_label b of Some l \<Rightarrow> Some l | None \<Rightarrow> no_label opt"
    obtain y h2 where y: "run_ses (switch_leaf env (e_id t) n st d fx ?l) h1 = (y, h2)" by fastforce
    have 2: "silent (ses h1) (ses h2)" by (rule switch_leaf_silent [OF assms(1) run_ses_fields(3) [OF y]])
    show ?thesis
      using assms(2) x SummaryText n y silent_trans [OF 1 2]
      by (cases y) (auto simp: navigate_to_def Let_def dest!: finish_navigation_silent intro: silent_trans)
  qed (use assms(2) x 1 in \<open>auto simp: navigate_to_def\<close>)
qed

lemma navigateTree_silent:
  assumes "fresh_env env" "navigateTree env t opt h = Some (r, h')"
  shows "silent (ses h) (ses h')"
proof -
  have "h' = h \<or> (\<exists>o1 t' es b. navigate_to env opt o1 t' es b h = Some (r, h'))
    \<or> (\<exists>(hook :: tree_preparation \<Rightarrow> 'a \<Rightarrow> before_tree \<times> 'a) p b h1. run_ses (outside (hook p)) h = (b, h1)
         \<and> (h' = h1 \<or> (\<exists>o1 t' es. navigate_to env opt o1 t' es b h1 = Some (r, h'))))"
    using assms(2) unfolding navigateTree_def Let_def
    by (simp only: split: if_split_asm option.split_asm prod.split_asm Option.bind_split_asm) (simp_all, blast+)
  then show ?thesis
    using navigate_to_silent [OF assms(1)] by (fastforce dest: run_ses_fields(3) outside_silent intro: silent_trans)
qed

section \<open>Where a navigation arrives\<close>

definition arrived :: "session_manager \<Rightarrow> session_entry \<Rightarrow> navigate_result \<Rightarrow> 'x host \<Rightarrow> bool" where
  "arrived sm target res h \<longleftrightarrow>
     (\<exists>new c. extended_by (sm\<lparr>sm_leafId := fst (navigation_target target)\<rparr>) (ss_manager (ses h)) (option_list (nr_summaryEntry res) @ new)
        \<and> list_all is_label new \<and> nr_editorText res = snd (navigation_target target)
        \<and> sessionContext (ss_manager (ses h)) = Some c \<and> ag_messages h = sc_messages c)"

lemma target_leaf:
  assumes "wf_session sm" "getEntry sm t = Some target"
  shows "e_id target = t" "t \<in> ids (getEntries sm)" "at_leaf (fst (navigation_target target)) sm"
proof -
  have es: "sm_byId sm = idx (getEntries sm)" "wf_entries (getEntries sm)" using assms(1) by (simp_all add: wf_session_def)
  with assms(2) have e: "target \<in> set (getEntries sm)" "e_id target = t"
    using map_of_idx_SomeD by (fastforce simp: getEntry_def)+
  then show "e_id target = t" "t \<in> ids (getEntries sm)" by (auto simp: ids_def)
  then show "at_leaf (fst (navigation_target target)) sm"
    using wf_parent_in [OF es(2) e(1)]
    by (auto simp: navigation_target_def at_leaf_def split: entry_payload.splits agent_message.splits option.splits)
qed

lemma navigate_to_result:
  assumes f: "fresh_env env" and wf: "wf_session (ss_manager (ses h))" and t: "getEntry (ss_manager (ses h)) t = Some target"
    and run: "navigate_to env opt o1 target es b h = Some (r, h')"
  shows "case r of
      Inl e \<Rightarrow> ss_manager (ses h') = ss_manager (ses h) \<and> ag_messages h' = ag_messages h
    | Inr res \<Rightarrow> if nr_cancelled res then ss_manager (ses h') = ss_manager (ses h) \<and> ag_messages h' = ag_messages h
        else arrived (ss_manager (ses h)) target res h'"
proof -
  obtain x h1 where x: "run_ses (navigation_summary env opt es b) h = (x, h1)" by fastforce
  have h1: "ss_manager (ses h1) = ss_manager (ses h)" "ag_messages h1 = ag_messages h"
    using apart_outside_fields [OF navigation_summary_apart [OF run_ses_fields(3) [OF x]]] run_ses_fields(1) [OF x] by simp_all
  show ?thesis
  proof (cases x)
    case (SummaryText st d fx)
    obtain n et where n: "navigation_target target = (n, et)" by fastforce
    let ?l = "case bt_label b of Some l \<Rightarrow> Some l | None \<Rightarrow> no_label opt"
    obtain y h2 where y: "run_ses (switch_leaf env (e_id target) n st d fx ?l) h1 = (y, h2)" by fastforce
    from switch_leaf_grows [OF f _ _ _ run_ses_fields(3) [OF y]] h1 wf target_leaf [OF wf t] n
    obtain summary new where g: "y = Inr summary" "extended_by ((ss_manager (ses h))\<lparr>sm_leafId := n\<rparr>) (ss_manager (ses h2)) (option_list summary @ new)"
      "list_all is_label new" by auto
    with run x SummaryText n y obtain h3 where h3: "finish_navigation env o1 summary (if truthy st \<noteq> None then Some fx else None) h2 = Some h3"
      "r = Inr \<lparr>nr_editorText = et, nr_cancelled = False, nr_aborted = False, nr_summaryEntry = summary\<rparr>" "h' = h3"
      by (auto simp: navigate_to_def Let_def)
    with g n show ?thesis by (auto simp: finish_navigation_def arrived_def tell_extensions_def)
  qed (use run x h1 in \<open>auto simp: navigate_to_def navigation_stopped_def\<close>)
qed

lemma navigate_to_returns:
  assumes f: "fresh_env env" and wf: "wf_session (ss_manager (ses h))" and t: "getEntry (ss_manager (ses h)) t = Some target"
  shows "\<exists>r h'. navigate_to env opt o1 target es b h = Some (r, h')"
proof -
  obtain x h1 where x: "run_ses (navigation_summary env opt es b) h = (x, h1)" by fastforce
  have h1: "ss_manager (ses h1) = ss_manager (ses h)" using apart_outside_fields [OF navigation_summary_apart [OF run_ses_fields(3) [OF x]]] by simp
  show ?thesis
  proof (cases x)
    case (SummaryText st d fx)
    obtain n et where n: "navigation_target target = (n, et)" by fastforce
    let ?l = "case bt_label b of Some l \<Rightarrow> Some l | None \<Rightarrow> no_label opt"
    obtain y h2 where y: "run_ses (switch_leaf env (e_id target) n st d fx ?l) h1 = (y, h2)" by fastforce
    from switch_leaf_grows [OF f _ _ _ run_ses_fields(3) [OF y]] h1 wf target_leaf [OF wf t] n
    obtain summary where "y = Inr summary" "wf_session (ss_manager (ses h2))" by (auto simp: extended_by_def)
    with sessionContext_total [OF this(2)] x SummaryText n y show ?thesis
      by (auto simp: navigate_to_def Let_def finish_navigation_def)
  qed (use x in \<open>auto simp: navigate_to_def\<close>)
qed

lemma collected_total:
  assumes "wf_session sm"
  shows "\<exists>c. collectEntriesForBranchSummary (\<lambda>i. getBranch sm (Some i)) (getEntry sm) old t = Some c"
proof (cases "old = None \<or> old = Some []")
  case False
  then obtain i where i: "old = Some i" "i \<noteq> []" by auto
  from getBranch_total [OF assms] obtain p q where "getBranch sm (Some i) = Some p" "getBranch sm (Some t) = Some q" by blast
  from session_reader.collect_splits_branch [OF assms this i(2)] i(1) show ?thesis by auto
qed (auto simp: collectEntriesForBranchSummary_def)

end
