(* ===== verification/Agent_Session_Steps.thy ===== *)
theory Agent_Session_Steps
  imports Agent_Session_Navigation
begin

text \<open>
  The steps of a session, one for every operation (\<open>session_step\<close>), and monitors of what its listeners
  are told: the locale \<open>event_monitor\<close> with its interpretations for retries, overflow recoveries and the
  thinking level.
\<close>

section \<open>Models and settings\<close>

lemma settings_silent:
  "st_maxRetries t = st_maxRetries (ss_settings s) \<Longrightarrow> st_baseDelayMs t = st_baseDelayMs (ss_settings s) \<Longrightarrow>
     silent s (s\<lparr>ss_settings := t\<rparr>)"
  by (simp add: silent_def core_def)

lemma first_level_fits: "levels \<noteq> [] \<Longrightarrow> first_level levels \<in> set levels"
  by (cases levels) (simp_all add: first_level_def)

lemma clamp_fits: "getSupportedThinkingLevels m = [] \<or> clampThinkingLevel m l \<in> set (getSupportedThinkingLevels m)"
  using first_level_fits [of "getSupportedThinkingLevels m"]
  by (auto simp: clampThinkingLevel_def Let_def find_Some_iff split: option.split)

lemma effective_fits: "level_fits (ss_model s) (effective_level l s)"
  using clamp_fits
  by (auto simp: effective_level_def getAvailableThinkingLevels_def level_fits_def THINKING_LEVELS_def split: option.splits)

lemma apply_thinking_fields:
  assumes "fresh_env env"
  shows "history_kept (ss_manager s) (ss_manager (apply_thinking_level env l s))"
    "ss_emitted (apply_thinking_level env l s) = ss_emitted s @ (if l = ss_thinkingLevel s then [] else [ThinkingLevelChanged l])"
    "core (apply_thinking_level env l s) = (core s)\<lparr>rc_level := l\<rparr>"
proof -
  have "history_kept (ss_manager s) (ss_manager (apply_thinking_level env l s))
    \<and> ss_emitted (apply_thinking_level env l s) = ss_emitted s @ (if l = ss_thinkingLevel s then [] else [ThinkingLevelChanged l])
    \<and> core (apply_thinking_level env l s) = (core s)\<lparr>rc_level := l\<rparr>"
  proof (cases "l = ss_thinkingLevel s")
    case True
    then show ?thesis by (simp add: apply_thinking_level_def core_def)
  next
    case False
    let ?s1 = "s\<lparr>ss_thinkingLevel := l\<rparr>" let ?s2 = "snd (store env (appendThinkingLevelChange l) ?s1)"
    let ?s3 = "if supportsThinking ?s2 \<or> l \<noteq> js ''off'' then ?s2\<lparr>ss_settings := (ss_settings ?s2)\<lparr>st_defaultThinkingLevel := Some l\<rparr>\<rparr> else ?s2"
    have "silent ?s1 ?s2" by (rule store_silent [OF assms]) simp
    moreover have "silent ?s2 ?s3" by (simp add: settings_silent)
    ultimately have "silent ?s1 ?s3" by (rule silent_trans)
    note f = silent_fields [OF this]
    have "apply_thinking_level env l s = tell_extensions env (XThinkingLevelSelect l (ss_thinkingLevel s)) (emit_session (ThinkingLevelChanged l) ?s3)"
      using False by (simp add: apply_thinking_level_def Let_def)
    with f False show ?thesis by (simp add: tell_extensions_def emit_session_def core_def)
  qed
  then show "history_kept (ss_manager s) (ss_manager (apply_thinking_level env l s))"
    "ss_emitted (apply_thinking_level env l s) = ss_emitted s @ (if l = ss_thinkingLevel s then [] else [ThinkingLevelChanged l])"
    "core (apply_thinking_level env l s) = (core s)\<lparr>rc_level := l\<rparr>" by blast+
qed

lemma core_level [simp]: "rc_level (core s) = ss_thinkingLevel s" "rc_model (core s) = ss_model s"
  by (simp_all add: core_def)

lemma apply_thinking_advances:
  assumes "fresh_env env" "level_fits (ss_model s) l"
  shows "advances s (apply_thinking_level env l s)"
proof -
  have "(core s)\<lparr>rc_model := ss_model s, rc_level := l\<rparr> = (core s)\<lparr>rc_level := l\<rparr>" by (simp add: core_def)
  with announces_one [OF session_announce.level [OF assms(2)], of "core s"] apply_thinking_fields [OF assms(1), where s = s and l = l]
  show ?thesis by (auto simp: advances_def)
qed

lemma setThinking_advances: "fresh_env env \<Longrightarrow> advances s (setThinkingLevel env l s)"
  by (simp add: setThinkingLevel_def apply_thinking_advances effective_fits)

lemma cycleThinking_advances:
  assumes "fresh_env env" "cycleThinkingLevel env s = (r, s')"
  shows "advances s s'"
proof -
  have "level_fits (ss_model s) (js ''off'')" if "getAvailableThinkingLevels s = []"
    using that by (simp add: getAvailableThinkingLevels_def level_fits_def THINKING_LEVELS_def split: option.splits)
  with assms show ?thesis
    by (auto simp: cycleThinkingLevel_def Let_def apply_thinking_advances setThinking_advances split: if_splits)
qed

lemma emitModelSelect_silent [simp]: "silent s (emitModelSelect env a b t s)"
  by (simp add: emitModelSelect_def)

lemma switch_model_advances:
  assumes "fresh_env env"
  shows "advances (ses h) (ses (switch_model env m l t h))"
proof -
  let ?s = "ses h" let ?sm = "?s\<lparr>ss_model := Some m\<rparr>"
  let ?s1 = "snd (store env (appendModelChange (md_provider m) (md_id m)) ?sm)"
  let ?s2 = "?s1\<lparr>ss_settings := (ss_settings ?s)\<lparr>st_defaultModel := Some (md_provider m, md_id m)\<rparr>\<rparr>"
  have 1: "silent ?sm ?s1" by (rule store_silent [OF assms]) simp
  then have "core ?s1 = core ?sm" by (simp add: silent_fields)
  then have "st_maxRetries (ss_settings ?s1) = st_maxRetries (ss_settings ?s) \<and> st_baseDelayMs (ss_settings ?s1) = st_baseDelayMs (ss_settings ?s)"
    by (simp add: core_def)
  then have 2: "silent ?s1 ?s2" by (intro settings_silent) simp_all
  note f = silent_fields [OF silent_trans [OF 1 2]]
  let ?l = "effective_level (getThinkingLevelForModelSwitch l ?s) ?s2"
  let ?s3 = "setThinkingLevel env (getThinkingLevelForModelSwitch l ?s) ?s2"
  have m2: "ss_model ?s2 = Some m" "ss_thinkingLevel ?s2 = ss_thinkingLevel ?s"
    using f core_level [of ?s2] by (simp_all add: core_def)
  note t = apply_thinking_fields [OF assms, where s = ?s2 and l = ?l]
  have fits: "level_fits (Some m) ?l" using effective_fits [of ?s2] m2(1) by simp
  have "core ?s3 = (core ?s)\<lparr>rc_model := Some m, rc_level := ?l\<rparr>"
    using t(3) f by (simp add: setThinkingLevel_def core_def)
  moreover have "ss_emitted ?s3 = ss_emitted ?s @ (if ?l = rc_level (core ?s) then [] else [ThinkingLevelChanged ?l])"
    using t(2) f m2(2) by (simp add: setThinkingLevel_def)
  moreover have "history_kept (ss_manager ?s) (ss_manager ?s3)"
    using t(1) f history_kept_trans by (fastforce simp: setThinkingLevel_def)
  ultimately have "advances ?s ?s3"
    using announces_one [OF session_announce.level [OF fits], of "core ?s"] by (auto simp: advances_def)
  from advances_silent [OF this emitModelSelect_silent] show ?thesis by (simp add: switch_model_def Let_def)
qed

lemma setModel_advances: "fresh_env env \<Longrightarrow> setModel env m h = (r, h') \<Longrightarrow> advances (ses h) (ses h')"
  by (auto simp: setModel_def switch_model_advances split: if_splits)

lemma cycleModel_advances:
  assumes "fresh_env env" "cycleModel env d h = (r, h')"
  shows "advances (ses h) (ses h')"
proof (cases "ss_scopedModels (ses h) = []")
  case True
  obtain ms h0 where o: "run_ses (outside (xe_available env)) h = (ms, h0)" by fastforce
  have "advances (ses h) (ses h0)" by (rule run_ses_advances [OF o outside_silent])
  moreover have "h' = h0 \<or> (\<exists>m l t. h' = switch_model env m l t h0)"
    using assms(2) True o by (auto simp: cycleModel_def cycleAvailableModel_def Let_def split: if_splits)
  ultimately show ?thesis using switch_model_advances [OF assms(1)] by (blast intro: advances_trans)
next
  case False
  then have "h' = h \<or> (\<exists>m l t. h' = switch_model env m l t h)"
    using assms(2) by (auto simp: cycleModel_def cycleScopedModel_def Let_def split: if_splits prod.splits)
  then show ?thesis using switch_model_advances [OF assms(1)] by auto
qed

lemma modes_silent: "silent (ses h) (ses (setSteeringMode q h))" "silent (ses h) (ses (setFollowUpMode q h))"
  "silent s (setAutoCompactionEnabled b s)" "silent s (setAutoRetryEnabled b s)" "silent s (setScopedModels ms s)"
  by (simp_all add: setSteeringMode_def setFollowUpMode_def setAutoCompactionEnabled_def setAutoRetryEnabled_def
      setScopedModels_def settings_silent ses_fold)

lemma setSessionName_advances:
  assumes "fresh_env env"
  shows "advances s (setSessionName env n s)"
  using advances_emit [OF silent_advances [OF store_silent [OF assms, of "appendSessionInfo n" s]]]
  by (simp add: setSessionName_def Let_def)

section \<open>Steps of the session\<close>

inductive session_step :: "'x session_env \<Rightarrow> 'x host \<Rightarrow> 'x host \<Rightarrow> bool" for env :: "'x session_env" where
  agent_acts: "apart_outside (fold handleAgentEvent es (ses h)) (ses h') \<Longrightarrow> session_step env h h'"
| process: "process_next env h = Some h' \<Longrightarrow> session_step env h h'"
| elapsed: "session_step env h (retry_elapsed h)"
| continued: "session_step env h (on_ses (\<lambda>s. s\<lparr>ss_continues := ss_continues s - 1\<rparr>) h)"
| retry_aborted: "abortRetry env h = Some h' \<Longrightarrow> session_step env h h'"
| aborted: "abort_session env h = Some h' \<Longrightarrow> session_step env h h'"
| compaction_begins: "compact_begin env h = Some h' \<Longrightarrow> session_step env h h'"
| compaction_ends: "compact_finish env c h = Some (r, h') \<Longrightarrow> session_step env h h'"
| steered: "steer_session env t images h = (r, h') \<Longrightarrow> session_step env h h'"
| followed_up: "followUp_session env t images h = (r, h') \<Longrightarrow> session_step env h h'"
| queue_cleared: "clearQueue h = (q, h') \<Longrightarrow> session_step env h h'"
| bash_recorded: "session_step env h (recordBashResult env command result excluded h)"
| prompt_decided: "prompt_decide env t opt h = (d, h') \<Longrightarrow> session_step env h h'"
| prompt_prepared: "prompt_prepare env t images h = Some (p, h') \<Longrightarrow> session_step env h h'"
| custom_sent: "sendCustomMessage env opts schedules fuel cm False deliverAs h = Some (r', h') \<Longrightarrow> session_step env h h'"
| model_set: "setModel env m h = (r, h') \<Longrightarrow> session_step env h h'"
| model_cycled: "cycleModel env dir h = (mc, h') \<Longrightarrow> session_step env h h'"
| level_set: "session_step env h (on_ses (setThinkingLevel env l) h)"
| level_cycled: "run_ses (cycleThinkingLevel env) h = (lo, h') \<Longrightarrow> session_step env h h'"
| steering_mode: "session_step env h (setSteeringMode q h)"
| followUp_mode: "session_step env h (setFollowUpMode q h)"
| auto_compaction: "session_step env h (on_ses (setAutoCompactionEnabled b) h)"
| auto_retry: "session_step env h (on_ses (setAutoRetryEnabled b) h)"
| scoped_models: "session_step env h (on_ses (setScopedModels ms) h)"
| named: "session_step env h (on_ses (setSessionName env n) h)"
| navigated: "navigateTree env t o1 h = Some (nr, h') \<Longrightarrow> session_step env h h'"

lemma session_step_advances:
  assumes f: "fresh_env env" and step: "session_step env h h'"
  shows "advances (ses h) (ses h')"
  using step
proof cases
  case (agent_acts es)
  have "silent (fold handleAgentEvent es (ses h)) (ses h')"
    by (subst agent_acts [unfolded apart_outside_def]) simp
  from silent_advances [OF silent_trans [OF fold_handle_silent this]] show ?thesis .
next
  case elapsed
  then show ?thesis using silent_advances [OF retry_elapsed_silent] by simp
next
  case (level_cycled lo)
  from cycleThinking_advances [OF f run_ses_fields(3) [OF this]] show ?thesis .
next
  case (navigated t o1 nr)
  from silent_advances [OF navigateTree_silent [OF f this]] show ?thesis .
qed (erule process_next_advances [OF f] abortRetry_advances [OF f] abort_session_advances [OF f] compact_begin_advances [OF f]
    compact_finish_advances [OF f] steer_advances clearQueue_advances prompt_decide_advances prompt_prepare_advances [OF f]
    custom_advances [OF f] setModel_advances [OF f] cycleModel_advances [OF f]
  | hypsubst, simp add: recordBashResult_advances [OF f] setThinking_advances [OF f] setSessionName_advances [OF f]
      silent_advances [OF modes_silent(1)] silent_advances [OF modes_silent(2)] silent_advances [OF modes_silent(3)]
      silent_advances [OF modes_silent(4)] silent_advances [OF modes_silent(5)] silent_advances [OF silent_updates(8)])+

inductive session_reaches :: "'x session_env \<Rightarrow> 'x host \<Rightarrow> 'x host \<Rightarrow> bool" for env :: "'x session_env" and h :: "'x host" where
  here: "session_reaches env h h"
| next_step: "session_reaches env h h1 \<Longrightarrow> session_step env h1 h2 \<Longrightarrow> session_reaches env h h2"

lemma session_reaches_advances:
  assumes "fresh_env env"
  shows "session_reaches env h h' \<Longrightarrow> advances (ses h) (ses h')"
  by (induction rule: session_reaches.induct) (auto intro: advances_trans session_step_advances [OF assms])

section \<open>Watching what is announced\<close>

fun watch :: "(session_event \<Rightarrow> 'm \<Rightarrow> 'm option) \<Rightarrow> session_event list \<Rightarrow> 'm \<Rightarrow> 'm option" where
  "watch f [] m = Some m"
| "watch f (e # es) m = Option.bind (f e m) (watch f es)"

lemma watch_append: "watch f (es @ ds) m = Option.bind (watch f es m) (watch f ds)"
  by (induction es arbitrary: m) (auto split: Option.bind_splits)

locale event_monitor =
  fixes observe :: "session_event \<Rightarrow> 'm \<Rightarrow> 'm option"
    and view :: "session_core \<Rightarrow> 'm"
    and sound :: "session_core \<Rightarrow> bool"
  assumes accepts: "session_announce c es c' \<Longrightarrow> sound c \<Longrightarrow> watch observe es (view c) = Some (view c') \<and> sound c'"
begin

lemma announces_accepted:
  "announces c es c' \<Longrightarrow> sound c \<Longrightarrow> watch observe es (view c) = Some (view c') \<and> sound c'"
  by (induction rule: announces.induct) (auto simp: watch_append dest: accepts)

lemma session_accepted:
  assumes "fresh_env env" "session_reaches env h h'" "ss_emitted (ses h) = []" "sound (core (ses h))"
  shows "watch observe (ss_emitted (ses h')) (view (core (ses h))) = Some (view (core (ses h'))) \<and> sound (core (ses h'))"
  using session_reaches_advances [OF assms(1,2)] announces_accepted assms(3,4) by (auto simp: advances_def)

end

section \<open>Three monitors\<close>

fun observe_retry :: "nat \<Rightarrow> nat \<Rightarrow> session_event \<Rightarrow> nat \<Rightarrow> nat option" where
  "observe_retry limit base (AutoRetryStart n m d e) k = (if n = k + 1 \<and> n \<le> limit \<and> m = limit \<and> d = base * 2 ^ k then Some n else None)"
| "observe_retry limit base (AutoRetryEnd ok n e) k = (if n = k \<and> (ok \<longrightarrow> k > 0) then Some 0 else None)"
| "observe_retry limit base _ k = Some k"

fun observe_overflow :: "session_event \<Rightarrow> bool \<Rightarrow> bool option" where
  "observe_overflow (CompactionStart r) b = (if r = OverflowC then (if b then None else Some True) else Some b)"
| "observe_overflow (AgentEv (MessageStart (User m))) b = Some False"
| "observe_overflow (AgentEv (MessageEnd (Assistant m))) b = Some (if am_stopReason m = ErrorR then b else False)"
| "observe_overflow _ b = Some b"

lemma plain_retry: "plain_event e \<Longrightarrow> observe_retry limit base e k = Some k"
  by (cases e) simp_all

lemma plain_overflow: "plain_event e \<Longrightarrow> observe_overflow e b = Some b"
proof (induction e rule: plain_event.induct)
qed (auto split: agent_message.splits)

text \<open>The level a listener knows.\<close>

fun observe_level :: "session_event \<Rightarrow> jsstring \<Rightarrow> jsstring option" where
  "observe_level (ThinkingLevelChanged l) known = Some l"
| "observe_level _ known = Some known"

lemma plain_level: "plain_event e \<Longrightarrow> observe_level e l = Some l"
  by (cases e) simp_all

interpretation level_monitor: event_monitor observe_level rc_level "\<lambda>c. level_fits (rc_model c) (rc_level c)"
proof
  fix c es c' assume "session_announce c es c'" "level_fits (rc_model c) (rc_level c)"
  then show "watch observe_level es (rc_level c) = Some (rc_level c') \<and> level_fits (rc_model c') (rc_level c')"
    by cases (auto simp: plain_level)
qed

interpretation retry_monitor: event_monitor "observe_retry limit base" rc_attempt
    "\<lambda>c. rc_attempt c \<le> limit \<and> rc_maxRetries c = limit \<and> rc_baseDelay c = base"
proof
  fix c es c' assume "session_announce c es c'" "rc_attempt c \<le> limit \<and> rc_maxRetries c = limit \<and> rc_baseDelay c = base"
  then show "watch (observe_retry limit base) es (rc_attempt c) = Some (rc_attempt c')
      \<and> (rc_attempt c' \<le> limit \<and> rc_maxRetries c' = limit \<and> rc_baseDelay c' = base)"
    by cases (simp_all add: plain_retry)
qed

interpretation overflow_monitor: event_monitor observe_overflow rc_overflow "\<lambda>c. True"
proof
  fix c es c' assume "session_announce c es c'" "True"
  then show "watch observe_overflow es (rc_overflow c) = Some (rc_overflow c') \<and> True"
    by cases (simp_all add: plain_overflow)
qed

end
