(* ===== verification/Agent_Session_Demo.thy ===== *)
theory Agent_Session_Demo
  imports Agent_Session_Steps Compaction_Properties
begin

text \<open>
  Concrete sessions for the witnesses: a model that answers, one that fails, a run that has just
  ended with an error or with too large a context, and the session of \<open>Session_Properties\<close> with its branches.
\<close>

section \<open>A concrete session\<close>

definition demo_session_env :: "nat session_env" where
  "demo_session_env =
     \<lparr>xe_llm = \<lparr>le_now = (\<lambda>x. (Inr 9, x)), le_complete = (\<lambda>rq x. (Inr demo_answer, x))\<rparr>,
      xe_uuid = (\<lambda>sm x. (\<lambda>i. replicate (Suc (sum_list (map (length \<circ> fst) (sm_byId sm)))) 65, x)),
      xe_clock = (\<lambda>x. (int x, Suc x)), xe_aborted = (\<lambda>x. False), xe_extension = (\<lambda>e x. x),
      xe_beforeCompact = None, xe_beforeTree = None, xe_beforeAgentStart = (\<lambda>t i p x. (([], None), x)),
      xe_input = None, xe_command = (\<lambda>n. None), xe_templates = [], xe_skills = [], xe_skillBody = (\<lambda>k x. None),
      xe_auth = (\<lambda>m x. (Inr (Some (js ''key'')), x)), xe_hasAuth = (\<lambda>m. True), xe_isOAuth = (\<lambda>m. False),
      xe_available = (\<lambda>x. ([], x)), xe_noModelMessage = js ''no model'', xe_noKeyMessage = (\<lambda>p. js ''no key'')\<rparr>"

lemma demo_session_fresh: "fresh_env demo_session_env"
proof -
  have "\<not> has_id sm (replicate (Suc (sum_list (map (length \<circ> fst) (sm_byId sm)))) 65)" for sm
  proof
    assume "has_id sm (replicate (Suc (sum_list (map (length \<circ> fst) (sm_byId sm)))) 65)"
    then obtain e where "(replicate (Suc (sum_list (map (length \<circ> fst) (sm_byId sm)))) 65, e) \<in> set (sm_byId sm)"
      by (auto simp: has_id_def dest: map_of_SomeD)
    from member_le_sum_list [OF image_eqI [OF refl this, of "length \<circ> fst", folded set_map]]
    show False by simp
  qed
  then show ?thesis by (simp add: fresh_env_def fresh_uuid_def demo_session_env_def)
qed

definition demo_chat_model :: chat_model where
  "demo_chat_model = \<lparr>md_id = js ''model'', md_api = js ''api'', md_provider = js ''prov'', md_reasoning = True,
     md_thinkingLevelMap = None, md_contextWindow = 16000\<rparr>"

definition demo_session_settings :: session_settings where
  "demo_session_settings = \<lparr>st_compaction = demo_settings, st_retryEnabled = True, st_maxRetries = 3,
     st_baseDelayMs = 2000, st_branchReserveTokens = 16384, st_defaultThinkingLevel = None, st_defaultModel = None,
     st_steeringMode = OneAtATime, st_followUpMode = OneAtATime\<rparr>"

definition demo_session_state :: "session_manager \<Rightarrow> nat session_state" where
  "demo_session_state sm =
     \<lparr>ss_manager = sm, ss_files = (\<lambda>p. None), ss_settings = demo_session_settings, ss_model = Some demo_chat_model,
      ss_thinkingLevel = js ''medium'', ss_scopedModels = [], ss_events = [], ss_steeringMessages = [],
      ss_followUpMessages = [], ss_pendingNextTurn = [], ss_overflowRecoveryAttempted = False, ss_retryAttempt = 0,
      ss_retryPromise = False, ss_retrying = None, ss_continues = 0, ss_pendingBash = [], ss_turnIndex = 0,
      ss_lastAssistant = None, ss_baseSystemPrompt = [], ss_emitted = [], ss_outside = 1\<rparr>"

definition demo_host_of :: "session_manager \<Rightarrow> agent_message list \<Rightarrow> nat host" where
  "demo_host_of sm messages =
     reconnectToAgent (createMutableAgentState [] (agent_model_of demo_chat_model) [] messages OneAtATime OneAtATime (demo_session_state sm))"

lemma demo_host_fields [simp]:
  "ses (demo_host_of sm ms) = demo_session_state sm" "ag_messages (demo_host_of sm ms) = ms"
  "ag_listeners (demo_host_of sm ms) = [(0, session_listener)]" "ag_activeRun (demo_host_of sm ms) = None"
  "ag_tools (demo_host_of sm ms) = []"
  by (simp_all add: demo_host_of_def reconnectToAgent_def subscribe_def createMutableAgentState_def ses_def)

lemma demo_session_state_fields [simp]:
  "ss_manager (demo_session_state sm) = sm" "ss_events (demo_session_state sm) = []" "ss_retrying (demo_session_state sm) = None"
  "ss_continues (demo_session_state sm) = 0" "ss_lastAssistant (demo_session_state sm) = None" "ss_settings (demo_session_state sm) = demo_session_settings"
  "ss_model (demo_session_state sm) = Some demo_chat_model" "ss_retryAttempt (demo_session_state sm) = 0" "ss_emitted (demo_session_state sm) = []"
  "ss_overflowRecoveryAttempted (demo_session_state sm) = False" "ss_retryPromise (demo_session_state sm) = False"
  by (simp_all add: demo_session_state_def)

lemma demo_start_wf: "wf_session demo_start"
  using session_reach_inv [OF session_reach.start [of "\<lambda>_. None" "js ''/d''" 0 "js ''s''" "js ''/w''" True]]
  by (simp add: session_inv_def demo_start_def)

definition demo_session_options :: "(nat session_state agent_env, stream_response) eff \<Rightarrow> nat session_state agent_options" where
  "demo_session_options answer =
     \<lparr>op_convertToLlm = None, op_transformContext = None, op_streamFn = (\<lambda>rq. answer),
      op_getApiKey = None, op_beforeToolCall = None, op_afterToolCall = None, op_repairToolCalls = False,
      op_toolExecution = None, op_validate = (\<lambda>t tc. Inr (tc_arguments tc)), op_parseJson = (\<lambda>t. None),
      op_now = (\<lambda>env. (5, env))\<rparr>"

lemma demo_options_outside: "options_outside (demo_session_options (\<lambda>env. (a, env)))"
  by (simp add: options_outside_def demo_session_options_def outside_only_def clock_def)

definition demo_answering :: "nat session_state agent_options" where
  "demo_answering = demo_session_options (\<lambda>env. (Inr \<lparr>sr_events = [DoneE StopR demo_answer], sr_result = demo_answer\<rparr>, env))"

definition demo_failing :: "nat session_state agent_options" where
  "demo_failing = demo_session_options (\<lambda>env. (Inl (js ''too many requests''), env))"

abbreviation demo_host :: "nat host" where
  "demo_host \<equiv> demo_host_of demo_start []"

lemma demo_answering_streams: "streams_ok (createLoopConfig demo_answering (begin_run LocalRun demo_host))"
  by (auto simp: streams_ok_def demo_answering_def demo_session_options_def createLoopConfig_def on_env_def)

lemma demo_start_context: "\<exists>c. sessionContext demo_start = Some c \<and> sc_messages c = []"
proof -
  have "map_option sc_messages (sessionContext demo_start) = Some []" by code_simp
  then show ?thesis by auto
qed

lemma demo_answering_outside: "options_outside demo_answering"
  unfolding demo_answering_def by (rule demo_options_outside)

lemma demo_answered:
  "\<exists>s. prompt_executor demo_answering demo_schedule 3 False [demo_prompt] (begin_run LocalRun demo_host)
     = Some (Inr [demo_prompt, Assistant demo_answer], s)"
proof -
  have "map_option fst (prompt_executor demo_answering demo_schedule 3 False [demo_prompt] (begin_run LocalRun demo_host))
     = Some (Inr [demo_prompt, Assistant demo_answer])"
    by (simp add: loop_eval demo_eval agent_eval demo_answering_def demo_session_options_def demo_host_of_def 
      reconnectToAgent_def subscribe_def session_listener_def cong: bind_weak_cong)
  then show ?thesis by auto
qed

lemma demo_failed:
  "\<exists>s. prompt_executor demo_failing demo_schedule 3 False [demo_prompt] (begin_run LocalRun demo_host)
     = Some (Inl (js ''too many requests''), s) \<and> \<not> ae_aborted (ag_env (ls_world s)) 
   \<and> ls_trace s = [AgentStart, TurnStart, MessageStart demo_prompt, MessageEnd demo_prompt]"
proof -
  have "map_option (\<lambda>(r, s). (r, ae_aborted (ag_env (ls_world s)), ls_trace s)) (prompt_executor demo_failing demo_schedule 3 False [demo_prompt] (begin_run LocalRun demo_host))
     = Some (Inl (js ''too many requests''), False, [AgentStart, TurnStart, MessageStart demo_prompt, MessageEnd demo_prompt])"
    by (simp add: loop_eval demo_eval agent_eval demo_failing_def demo_session_options_def demo_host_of_def 
      reconnectToAgent_def subscribe_def session_listener_def cong: bind_weak_cong)
  then show ?thesis by auto
qed

lemma demo_failure_retryable:
  "isRetryableError w (failure_message h (js ''too many requests'') False now)"
proof -
  have "pattern_test (Anywhere (rx_lit ''too many requests'')) (js ''too many requests'')"
    using retryable_text [of "js ''too many requests''" "''too many requests''" "[rx_lit ''too many requests'']" _ "[]" "[]"]
    by (simp add: js_def)
  then have 1: "list_ex (\<lambda>p. pattern_test p (js ''too many requests'')) NON_OVERFLOW_PATTERNS"
    by (simp add: NON_OVERFLOW_PATTERNS_def)
  have 2: "pattern_test RETRYABLE_PATTERN (js ''too many requests'')"
    unfolding RETRYABLE_PATTERN_def
    by (rule retryable_text [of "js ''too many requests''" "''too many requests''" _ _ "[]" "[]"]) (simp_all add: js_def)
  have 3: "truthy (Some (js ''too many requests'')) = Some (js ''too many requests'')" by (simp add: js_def truthy_def)
  show ?thesis
    by (simp add: isRetryableError_def failure_message_def isContextOverflow_def 1 2 3)
qed

text \<open>A host whose run has just ended with a given response, and no key for the model.\<close>

definition demo_keyless :: "nat session_env" where
  "demo_keyless = demo_session_env\<lparr>xe_auth := (\<lambda>m x. (Inr None, x))\<rparr>"

definition demo_ended :: "assistant_message \<Rightarrow> nat host" where
  "demo_ended m = on_ses (\<lambda>s. s\<lparr>ss_lastAssistant := Some m, ss_events := [AgentEnd []]\<rparr>) demo_host"

definition demo_large :: assistant_message where
  "demo_large = demo_answer\<lparr>am_usage := EMPTY_USAGE\<lparr>u_input := 20000\<rparr>\<rparr>"

definition demo_errored :: assistant_message where
  "demo_errored = failure_message demo_host (js ''too many requests'') False 5"

lemma demo_keyless_fresh: "fresh_env demo_keyless"
  using demo_session_fresh by (simp add: demo_keyless_def fresh_env_def)

lemma demo_responses [simp]:
  "isRetryableError w demo_errored" "am_errorMessage demo_errored = Some (js ''too many requests'')"
  "truthy (Some (js ''too many requests'')) = Some (js ''too many requests'')" "\<not> isRetryableError w demo_large"
  "am_stopReason demo_large = StopR" "isContextOverflow demo_large 16000"
  "am_provider demo_large = md_provider demo_chat_model" "am_model demo_large = md_id demo_chat_model"
proof -
  show "isRetryableError w demo_errored" unfolding demo_errored_def by (rule demo_failure_retryable)
qed (simp_all add: demo_errored_def failure_message_def truthy_def js_def demo_large_def demo_answer_def demo_assistant_def
  isRetryableError_def isContextOverflow_def EMPTY_USAGE_def demo_chat_model_def)

lemma demo_path [simp]: "getBranch demo_start None = Some []" "getLatestCompactionEntry [] = None"
  by code_simp+

lemmas end_simps = demo_ended_def process_next_def processAgentEvent_note note_event_def user_message_started_def
  message_ended_def agent_ended_def Let_def emit_session_def tell_extensions_def

lemma demo_retry_next:
  "\<exists>h'. process_next demo_keyless (demo_ended demo_errored) = Some h'
     \<and> ss_emitted (ses h') = [AgentEv (AgentEnd []), AutoRetryStart 1 3 2000 (js ''too many requests'')]"
  by (simp add: end_simps handleRetryableError_def demo_session_settings_def)

lemma demo_overflow_next:
  "\<exists>h'. process_next demo_keyless (demo_ended demo_large) = Some h'
     \<and> ss_emitted (ses h') = [AgentEv (AgentEnd []), CompactionStart OverflowC, CompactionEnd OverflowC None False False None]"
  by (simp add: end_simps settle_end_def resolveRetry_def checkCompaction_def contextWindow_def runAutoCompaction_def
      run_ses_def outside_def demo_keyless_def end_compaction_def truthy_def)
    (simp add: demo_session_settings_def demo_settings_def demo_chat_model_def)

lemma demo_ended_start [simp]: "ss_emitted (ses (demo_ended m)) = []"
  by (simp add: demo_ended_def)

definition demo_heard :: "nat host" where
  "demo_heard = on_ses (\<lambda>s. s\<lparr>ss_events := [MessageEnd demo_prompt]\<rparr>) demo_host"

definition demo_navigation :: navigate_options where
  "demo_navigation = \<lparr>no_summarize = False, no_customInstructions = None, no_replaceInstructions = False, no_label = None\<rparr>"

abbreviation demo_tree_host :: "nat host" where
  "demo_tree_host \<equiv> demo_host_of demo_sm []"

lemma demo_tree_facts:
  "sm_leafId demo_sm = Some (demo_id 5)" "demo_id 4 \<noteq> demo_id 5" "has_id demo_sm (demo_id 1)"
  "map_option navigation_target (getEntry demo_sm (demo_id 4)) = Some (Some (demo_id 1), Some (js ''AAA''))"
  "map_option sc_messages (sessionContext (demo_sm\<lparr>sm_leafId := Some (demo_id 1)\<rparr>)) = Some [demo_message 1, demo_reply 2]"
  by code_simp+

lemma demo_preparation:
  obtains p where "prepareCompaction demo_path demo_settings = Some (Some p)"
    "pp_firstKeptEntryId p = demo_id 4" "pp_turnPrefixMessages p = []"
proof -
  let ?r = "prepareCompaction demo_path demo_settings"
  have "?r = Some (Some (the (the ?r)))" by code_simp
  moreover have "pp_firstKeptEntryId (the (the ?r)) = demo_id 4" by code_simp
  moreover have "pp_turnPrefixMessages (the (the ?r)) = []" by code_simp
  ultimately show thesis by (rule that)
qed

lemma demo_id_nonempty: "demo_id 4 \<noteq> []"
  by code_simp

end
