(* ===== verification/Agent_Session_Properties.thy ===== *)
theory Agent_Session_Properties
  imports Agent_Session_Demo
begin

text \<open>
  Properties of the session: what a run leaves in it, and what every sequence of steps keeps.
\<close>

section \<open>Runs as steps\<close>

lemma prompt_run_step:
  assumes "options_outside opts" "tools_outside (ag_tools h)" "ag_listeners h = [(0, session_listener)]"
    and "prompt_executor opts schedules fuel skip messages (begin_run LocalRun h) = Some (r, s)"
  shows "session_step env h (finishRun (ls_world s))"
  using prompt_seen [OF assms] by (intro session_step.agent_acts [of "ls_trace s"]) (simp add: seen_def)

lemma process_times_reaches: "process_times env n h = Some h' \<Longrightarrow> session_reaches env h0 h \<Longrightarrow> session_reaches env h0 h'"
  by (induction n arbitrary: h) (auto split: Option.bind_splits intro: next_step session_step.process)

section \<open>What every step keeps\<close>

section \<open>The session and its agent\<close>



text \<open>A run that fails before any response leaves the prompt waiting: the session has promised a retry when it
  was told of the end of the run, but starts none, since it saw no response end. All events are processed,
  no run is active, no retry is under way or scheduled, and the promise is never resolved.\<close>

theorem failed_run_waits:
  assumes env: "fresh_env env" and opts: "options_outside opts" "tools_outside (ag_tools h)"
    and h: "ag_listeners h = [(0, session_listener)]" "ag_activeRun h = None" "ss_events (ses h) = []"
      "ss_retrying (ses h) = None" "ss_continues (ses h) = 0" "ss_lastAssistant (ses h) = None"
      "st_retryEnabled (ss_settings (ses h))" "wf_session (ss_manager (ses h))"
    and run: "runPromptMessages opts schedules fuel skip messages h = Some (r, h1)"
    and fail: "prompt_executor opts schedules fuel skip messages (begin_run LocalRun h) = Some (Inl err, s)"
      "\<not> ae_aborted (ag_env (ls_world s))" "list_all (\<lambda>e. \<not> is_agent_end e) (ls_trace s)"
      "\<forall>m \<in> set (ended (ls_trace s)). \<not> is_assistant m \<and> (\<exists>l. m = embed_llm l)"
    and retryable: "\<forall>now. isRetryableError (contextWindow (ses h)) (failure_message h err False now)"
  shows "\<exists>h2. process_times env (length (ss_events (ses h1))) h1 = Some h2 \<and> ss_events (ses h2) = []
    \<and> ag_activeRun h2 = None \<and> ss_retrying (ses h2) = None \<and> ss_continues (ses h2) = 0
    \<and> waiting_for_retry (ses h2)"
proof -
  from seen_failed_run [OF opts h(1-3) run fail(1)] obtain m now s0 where
    m: "m = failure_message h err False now" "ag_activeRun h1 = None" "ss_events (ses h1) = ls_trace s @ [AgentEnd [Assistant m]]"
    "apart_outside (fold handleAgentEvent (ls_trace s) (ses h)) s0" "ses h1 = handleAgentEvent (AgentEnd [Assistant m]) s0"
    using fail(2) by auto
  note rest = apart_outside_rest [OF m(4)] apart_outside_fields [OF m(4)]
  have promise: "ss_retryPromise (ses h1)"
    unfolding m(5) using failure_promise [of s0 m] rest retryable h(7) m(1) by (simp add: contextWindow_def)
  have hs: "ss_retrying (ses h1) = None" "ss_continues (ses h1) = 0" "ss_lastAssistant (ses h1) = None"
    "ss_manager (ses h1) = ss_manager (ses h)"
    unfolding m(5) using rest h by (simp_all add: handleAgentEvent_def createRetryPromiseForAgentEnd_def Let_def split: option.split)
  obtain c where c: "sessionContext (ss_manager (ses h1)) = Some c"
    using sessionContext_total h(8) hs(4) by auto
  from process_times_records [OF env _ c m(3) hs(1) fail(3)] fail(4) h(8) hs(3,4)
  obtain h' where h': "process_times env (length (ls_trace s)) h1 = Some h'" "ag_activeRun h' = None"
    "calm ((ses h1)\<lparr>ss_events := [AgentEnd [Assistant m]]\<rparr>) (ses h')" "ss_lastAssistant (ses h') = None"
    using m(2) by auto
  with hs have ev: "ss_events (ses h') = [AgentEnd [Assistant m]]" "ss_retrying (ses h') = None"
    by (simp_all add: calm_def)
  from end_without_response [OF ev h'(4)] obtain h2 where
    "process_next env h' = Some h2" "calm ((ses h')\<lparr>ss_events := []\<rparr>) (ses h2)" "ag_activeRun h2 = None"
    using h'(2) by auto
  with h'(1,3) m(3) hs promise show ?thesis
    by (intro exI [of _ h2]) (simp add: process_times_add [of env "length (ls_trace s)" 1, simplified] calm_def waiting_for_retry_def)
qed

theorem failed_run_waits_witness:
  "\<exists>h1 h2. runPromptMessages demo_failing demo_schedule 3 False [demo_prompt] demo_host = Some (Inr (), h1)
     \<and> process_times demo_session_env (length (ss_events (ses h1))) h1 = Some h2
     \<and> ss_events (ses h2) = [] \<and> ag_activeRun h2 = None \<and> waiting_for_retry (ses h2)"
proof -
  obtain s where f: "prompt_executor demo_failing demo_schedule 3 False [demo_prompt] (begin_run LocalRun demo_host)
      = Some (Inl (js ''too many requests''), s)" "\<not> ae_aborted (ag_env (ls_world s))"
    "ls_trace s = [AgentStart, TurnStart, MessageStart demo_prompt, MessageEnd demo_prompt]" using demo_failed by blast
  have "map_option fst (runPromptMessages demo_failing demo_schedule 3 False [demo_prompt] demo_host) = Some (Inr ())"
    by (simp add: loop_eval demo_eval agent_eval demo_failing_def demo_session_options_def demo_host_of_def
        handleRunFailure_def Let_def reconnectToAgent_def subscribe_def session_listener_def cong: bind_weak_cong)
  then obtain h1 where run: "runPromptMessages demo_failing demo_schedule 3 False [demo_prompt] demo_host = Some (Inr (), h1)"
    by auto
  have opts: "options_outside demo_failing" unfolding demo_failing_def by (rule demo_options_outside)
  have tools: "tools_outside (ag_tools demo_host)" by (simp add: tools_outside_def)
  have enabled: "st_retryEnabled (ss_settings (ses demo_host))" by (simp add: demo_session_settings_def)
  have plain: "list_all (\<lambda>e. \<not> is_agent_end e) (ls_trace s)"
    "\<forall>m \<in> set (ended (ls_trace s)). \<not> is_assistant m \<and> (\<exists>l. m = embed_llm l)"
    by (auto simp: f(3) demo_prompt_def ended_def List.map_filter_simps intro: exI [of _ "LUser u" for u])
  from failed_run_waits [OF demo_session_fresh opts tools _ _ _ _ _ _ enabled _ run f(1,2) plain]
  show ?thesis using run by (auto simp: demo_start_wf demo_failure_retryable)
qed

section \<open>What every step keeps\<close>

text \<open>C7 Whatever is done to a session, in any order and with any answers from outside, its tree stays
  well-formed, entries are only added, and every branch there was stays as it was.\<close>

theorem session_steps_keep_history:
  assumes "fresh_env env" "session_reaches env h h'" "wf_session (ss_manager (ses h))"
  shows "wf_session (ss_manager (ses h')) \<and> prefix (getEntries (ss_manager (ses h))) (getEntries (ss_manager (ses h')))
    \<and> (\<forall>i \<in> ids (getEntries (ss_manager (ses h))). getBranch (ss_manager (ses h')) (Some i) = getBranch (ss_manager (ses h)) (Some i))"
  using session_reaches_advances [OF assms(1,2)] assms(3) by (simp add: advances_def history_kept_def)

theorem session_steps_keep_history_witness:
  "\<exists>h'. session_reaches demo_session_env demo_heard h' \<and> wf_session (ss_manager (ses h'))
     \<and> map_option sc_messages (sessionContext (ss_manager (ses h'))) = Some [demo_prompt]"
proof -
  obtain c where c: "sessionContext demo_start = Some c" "sc_messages c = []" using demo_start_context by blast
  have "\<exists>l. demo_prompt = embed_llm l" by (auto simp: demo_prompt_def intro: exI [of _ "LUser u" for u])
  then obtain h' where h': "process_times demo_session_env 1 demo_heard = Some h'"
    "map_option sc_messages (sessionContext (ss_manager (ses h'))) = Some [demo_prompt]"
    using process_times_records [OF demo_session_fresh, of demo_heard c "[MessageEnd demo_prompt]" "[]"] c
    by (auto simp: demo_heard_def demo_start_wf)
  have reach: "session_reaches demo_session_env demo_heard h'"
    by (rule process_times_reaches [OF h'(1) here])
  from session_steps_keep_history [OF demo_session_fresh this] reach h'(2) show ?thesis
    by (auto simp: demo_start_wf demo_heard_def)
qed

text \<open>What is announced are the moves of the abstract machine.\<close>

lemma session_announces_protocol:
  assumes "fresh_env env" "session_reaches env h h'" "ss_emitted (ses h) = []"
  shows "announces (core (ses h)) (ss_emitted (ses h')) (core (ses h'))"
  using session_reaches_advances [OF assms(1,2)] assms(3) by (auto simp: advances_def)

text \<open>C8 Retries are bounded and back off. Along any steps the announced retries are numbered one after another
  from the last success, failure or cancellation, never beyond the limit, each with twice the delay of the one before;
  an announced end names the number of the retry that ended, and the session counts as its listeners do.\<close>

theorem retries_bounded_with_backoff:
  assumes "fresh_env env" "session_reaches env h h'" "ss_emitted (ses h) = []"
    and "limit = st_maxRetries (ss_settings (ses h))" "base = st_baseDelayMs (ss_settings (ses h))"
    and "ss_retryAttempt (ses h) \<le> limit"
  shows "watch (observe_retry limit base) (ss_emitted (ses h')) (ss_retryAttempt (ses h)) = Some (ss_retryAttempt (ses h'))
    \<and> ss_retryAttempt (ses h') \<le> limit"
  using retry_monitor.session_accepted [OF assms(1-3), of limit base] assms(4-6) by (simp add: core_def)

theorem retries_bounded_with_backoff_witness:
  "\<exists>h'. session_reaches demo_keyless (demo_ended demo_errored) h'
     \<and> ss_emitted (ses h') = [AgentEv (AgentEnd []), AutoRetryStart 1 3 2000 (js ''too many requests'')]
     \<and> watch (observe_retry 3 2000) (ss_emitted (ses h')) 0 = Some (ss_retryAttempt (ses h'))"
proof -
  obtain h' where h': "process_next demo_keyless (demo_ended demo_errored) = Some h'"
    "ss_emitted (ses h') = [AgentEv (AgentEnd []), AutoRetryStart 1 3 2000 (js ''too many requests'')]"
    using demo_retry_next by blast
  have r: "session_reaches demo_keyless (demo_ended demo_errored) h'"
    using session_reaches.intros session_step.process [OF h'(1)] by blast
  have s: "3 = st_maxRetries (ss_settings (ses (demo_ended demo_errored)))" "2000 = st_baseDelayMs (ss_settings (ses (demo_ended demo_errored)))"
    "ss_retryAttempt (ses (demo_ended demo_errored)) \<le> 3" "ss_retryAttempt (ses (demo_ended demo_errored)) = 0"
    by (simp_all add: demo_ended_def demo_session_settings_def)
  note w = retries_bounded_with_backoff [OF demo_keyless_fresh r demo_ended_start s(1-3), THEN conjunct1, unfolded s(4)]
  show ?thesis by (rule exI [of _ h'], intro conjI r h'(2) w)
qed

text \<open>C9 A context that overflows is compacted once: along any steps, between two compactions announced for an
  overflow a user message started or a response ended that is no error.\<close>

theorem overflow_recovery_once:
  assumes "fresh_env env" "session_reaches env h h'" "ss_emitted (ses h) = []"
  shows "watch observe_overflow (ss_emitted (ses h')) (ss_overflowRecoveryAttempted (ses h)) = Some (ss_overflowRecoveryAttempted (ses h'))"
  using overflow_monitor.session_accepted [OF assms] by (simp add: core_def)

theorem overflow_recovery_once_witness:
  "\<exists>h'. session_reaches demo_keyless (demo_ended demo_large) h' \<and> CompactionStart OverflowC \<in> set (ss_emitted (ses h'))
     \<and> watch observe_overflow (ss_emitted (ses h')) False = Some (ss_overflowRecoveryAttempted (ses h'))"
proof -
  obtain h' where h': "process_next demo_keyless (demo_ended demo_large) = Some h'"
    "ss_emitted (ses h') = [AgentEv (AgentEnd []), CompactionStart OverflowC, CompactionEnd OverflowC None False False None]"
    using demo_overflow_next by blast
  have r: "session_reaches demo_keyless (demo_ended demo_large) h'"
    using session_reaches.intros session_step.process [OF h'(1)] by blast
  have s: "\<not> ss_overflowRecoveryAttempted (ses (demo_ended demo_large))" by (simp add: demo_ended_def)
  have "watch observe_overflow (ss_emitted (ses h')) False = Some (ss_overflowRecoveryAttempted (ses h'))"
    using overflow_recovery_once [OF demo_keyless_fresh r demo_ended_start] s by simp
  moreover have "CompactionStart OverflowC \<in> set (ss_emitted (ses h'))" using h'(2) by simp
  ultimately show ?thesis using r by blast
qed




end
