(* ===== verification/Agent_Session_Outcomes.thy ===== *)
theory Agent_Session_Outcomes
  imports Agent_Session_Demo
begin

text \<open>
  What single operations of the session achieve: navigation in the tree, the manual compaction, the recovery
  from an overflow and the export of a branch.
\<close>

section \<open>Navigation\<close>




section \<open>Manual compaction\<close>

lemma reconnected [simp]: "0 \<in> fst ` set (ag_listeners (reconnectToAgent h))" "ag_messages (reconnectToAgent h) = ag_messages h"
  by (auto simp: reconnectToAgent_def subscribe_def)

text \<open>The messages after a compaction: its summary, and those of the branch from the first kept entry on.\<close>

definition summary_and_kept :: "session_manager \<Rightarrow> jsstring \<Rightarrow> jsstring \<Rightarrow> nat \<Rightarrow> iso_time \<Rightarrow> agent_message list \<Rightarrow> bool" where
  "summary_and_kept sm firstKept summary tokens now messages \<longleftrightarrow>
     (\<exists>pre k post. getBranch sm None = Some (pre @ k # post) \<and> e_id k = firstKept
        \<and> messages = createCompactionSummaryMessage summary tokens now # concat (map entry_messages (k # post)))"

text \<open>C11 A manual compaction always comes to an end, and the session listens to its agent again. When it fails or
  is cancelled, the session and the transcript are as before. When it succeeds, one entry was added and the transcript is the
  session's context; without an extension's say that is the summary followed by the branch's messages from the first kept entry on.\<close>

theorem manual_compaction:
  assumes f: "fresh_env env" and wf: "wf_session (ss_manager (ses h))"
  shows "\<exists>r h'. compact_finish env customInstructions h = Some (r, h') \<and> 0 \<in> fst ` set (ag_listeners h') \<and>
    (case r of
       Inl e \<Rightarrow> ss_manager (ses h') = ss_manager (ses h) \<and> ag_messages h' = ag_messages h
     | Inr res \<Rightarrow>
         (\<exists>e c. extended_by (ss_manager (ses h)) (ss_manager (ses h')) [e] \<and> is_compaction e
            \<and> sessionContext (ss_manager (ses h')) = Some c \<and> ag_messages h' = sc_messages c
            \<and> (xe_beforeCompact env = None \<longrightarrow>
                 summary_and_kept (ss_manager (ses h)) (cr_firstKeptEntryId res) (cr_summary res) (cr_tokensBefore res)
                   (e_timestamp e) (ag_messages h'))))"
proof -
  let ?h = "on_ses (emit_session (CompactionStart ManualC)) h"
  have sm: "ss_manager (ses ?h) = ss_manager (ses h)" by (simp add: emit_session_def)
  have "\<exists>r h1. manual_content env customInstructions ?h = Some (r, h1) \<and> apart_host ?h h1 \<and>
    (case r of Inl e \<Rightarrow> True
     | Inr c \<Rightarrow> xe_beforeCompact env = None \<longrightarrow> (\<exists>path settings p. getBranch (ss_manager (ses h)) None = Some path
         \<and> prepareCompaction path settings = Some (Some p) \<and> cc_firstKeptEntryId c = pp_firstKeptEntryId p))"
    using manual_content_returns [of ?h env customInstructions] wf unfolding sm by blast
  then obtain r h1 where
    r: "manual_content env customInstructions ?h = Some (r, h1)" "apart_host ?h h1"
    "case r of Inl e \<Rightarrow> True
     | Inr c \<Rightarrow> xe_beforeCompact env = None \<longrightarrow> (\<exists>path settings p. getBranch (ss_manager (ses h)) None = Some path
         \<and> prepareCompaction path settings = Some (Some p) \<and> cc_firstKeptEntryId c = pp_firstKeptEntryId p)"
    by blast
  note h1 = apart_host_fields(1,3) [OF r(2), unfolded sm on_ses_fields]
  show ?thesis
  proof (cases r)
    case (Inl e)
    with r(1) h1 show ?thesis
      by (auto simp: compact_finish_def end_compaction_def emit_session_def Let_def)
  next
    case (Inr c)
    from apply_compaction_result [OF f, of h1 c] wf h1 obtain h2 e x where
      h2: "apply_compaction env c h1 = Some h2" "extended_by (ss_manager (ses h)) (ss_manager (ses h2)) [e]" "is_compaction e"
      "sessionContext (ss_manager (ses h2)) = Some x" "ag_messages h2 = sc_messages x"
      "\<forall>pre k post. getBranch (ss_manager (ses h)) None = Some (pre @ k # post) \<longrightarrow> e_id k = cc_firstKeptEntryId c \<longrightarrow>
         ag_messages h2 = createCompactionSummaryMessage (cc_summary c) (cc_tokensBefore c) (e_timestamp e)
           # concat (map entry_messages (k # post))" by fastforce
    have kept: "\<exists>pre k post. getBranch (ss_manager (ses h)) None = Some (pre @ k # post) \<and> e_id k = cc_firstKeptEntryId c"
      if "xe_beforeCompact env = None"
    proof -
      from r(3) Inr that obtain path settings p where p: "getBranch (ss_manager (ses h)) None = Some path"
        "prepareCompaction path settings = Some (Some p)" "cc_firstKeptEntryId c = pp_firstKeptEntryId p" by auto
      from compaction_split [OF wf p(1,2)] p(3) show ?thesis by metis
    qed
    have fin: "compact_finish env customInstructions h = Some (Inr (content_result c), reconnectToAgent
        (on_ses (emit_session (CompactionEnd ManualC (Some (content_result c)) False False None)) h2))"
      using r(1) Inr h2(1) by (simp add: compact_finish_def)
    have "xe_beforeCompact env = None \<longrightarrow> summary_and_kept (ss_manager (ses h)) (cc_firstKeptEntryId c) (cc_summary c)
        (cc_tokensBefore c) (e_timestamp e) (ag_messages h2)"
      unfolding summary_and_kept_def using kept h2(6) by metis
    with h2(2-5) fin show ?thesis
      by (auto simp: emit_session_def content_result_def)
  qed
qed

lemma demo_compacts:
  "\<exists>r h'. compact_finish demo_session_env None demo_tree_host = Some (Inr r, h') \<and> cr_firstKeptEntryId r = demo_id 4"
proof -
  obtain p where p: "prepareCompaction demo_path demo_settings = Some (Some p)"
    "pp_firstKeptEntryId p = demo_id 4" "pp_turnPrefixMessages p = []" using demo_preparation by blast
  obtain res x where res: "compact_conversation (xe_llm demo_session_env) p (llm_of_model demo_chat_model) None (Some (js ''medium'')) 1 = (Inr res, x)"
    using p demo_id_nonempty
    by (cases "computeFileLists (pp_fileOps p)") (auto simp: compact_conversation_def generateSummary_def request_summary_def demo_session_env_def
        demo_answer_def demo_assistant_def bind_eff_def ret_def Let_def throw_def split: prod.splits)
  have key: "truthy (Some (js ''key'')) = Some (js ''key'')" by (simp add: truthy_def js_def)
  let ?h = "on_ses (emit_session (CompactionStart ManualC)) demo_tree_host"
  let ?c = "\<lparr>cc_summary = cr_summary res, cc_firstKeptEntryId = cr_firstKeptEntryId res, cc_tokensBefore = cr_tokensBefore res,
      cc_details = Some (cr_details res), cc_fromExtension = False\<rparr>"
  let ?s = "(emit_session (CompactionStart ManualC) (demo_session_state demo_sm))\<lparr>ss_outside := x\<rparr>"
  have st: "ss_model (ses ?h) = Some demo_chat_model" "ss_manager (ses ?h) = demo_sm" "ss_settings (ses ?h) = demo_session_settings"
    "ss_outside (ses ?h) = 1" "ss_thinkingLevel (ses ?h) = js ''medium''"
    by (simp_all add: emit_session_def demo_session_state_def)
  have env: "xe_auth demo_session_env m y = (Inr (Some (js ''key'')), y)" "xe_beforeCompact demo_session_env = None" "xe_aborted demo_session_env y = False" for m y
    by (simp_all add: demo_session_env_def)
  have auth: "run_ses (getRequiredRequestAuth demo_session_env demo_chat_model) ?h = (Inr (js ''key''), ?h)"
    by (rule run_ses_same) (simp add: getRequiredRequestAuth_def outside_def env key)
  have con: "run_ses (make_compaction demo_session_env p demo_path demo_chat_model None) ?h = (Compacted ?c, on_ses (\<lambda>_. ?s) ?h)"
    using res st env
    by (simp add: run_ses_def make_compaction_def before_compact_result_def outside_def)
  have man: "manual_content demo_session_env None ?h = Some (Inr ?c, on_ses (\<lambda>_. ?s) ?h)"
    using st auth con demo_branch p by (simp add: manual_content_def demo_session_settings_def)
  have "wf_session (ss_manager (ses (on_ses (\<lambda>_. ?s) ?h)))" by (simp add: emit_session_def demo_wf)
  from apply_compaction_result [OF demo_session_fresh this] obtain h2 where
    "apply_compaction demo_session_env ?c (on_ses (\<lambda>_. ?s) ?h) = Some h2" by blast
  with man have "compact_finish demo_session_env None demo_tree_host = Some (Inr (content_result ?c), reconnectToAgent
      (on_ses (emit_session (CompactionEnd ManualC (Some (content_result ?c)) False False None)) h2))"
    by (simp add: compact_finish_def)
  moreover have "cr_firstKeptEntryId (content_result ?c) = demo_id 4"
    using res p(2) by (auto simp: content_result_def elim!: compact_result)
  ultimately show ?thesis by blast
qed

theorem manual_compaction_witness:
  "\<exists>r h' now. compact_finish demo_session_env None demo_tree_host = Some (Inr r, h')
     \<and> summary_and_kept demo_sm (demo_id 4) (cr_summary r) (cr_tokensBefore r) now (ag_messages h')"
proof -
  have wf: "wf_session (ss_manager (ses demo_tree_host))" by (simp add: demo_wf)
  have hook: "xe_beforeCompact demo_session_env = None" by (simp add: demo_session_env_def)
  obtain r h' where r: "compact_finish demo_session_env None demo_tree_host = Some (Inr r, h')" "cr_firstKeptEntryId r = demo_id 4"
    using demo_compacts by blast
  with manual_compaction [OF demo_session_fresh wf, of None] hook show ?thesis by auto
qed

section \<open>An overflow without an error\<close>

text \<open>
  After the compaction for an overflow that the response itself does not report as an error, the
  session schedules the agent to continue, but the response is still the last message, and the
  agent refuses: the retry that was announced is not made.
\<close>

lemma silent_overflow_not_continued:
  assumes f: "fresh_env env" and wf: "wf_session (ss_manager (ses h))"
    and br: "getBranch (ss_manager (ses h)) None = Some (p @ [e])" "e_payload e = MessageEntry (Assistant m)" "am_stopReason m \<noteq> ErrorR"
    and run: "runAutoCompaction env OverflowC True h = Some h'"
    and compacted: "last (ss_emitted (ses h')) = CompactionEnd OverflowC (Some res) False True None"
      "cr_firstKeptEntryId res \<in> ids (p @ [e])"
    and idle: "ag_activeRun h = None" "\<not> hasQueuedMessages (ag_env h)"
  shows "ss_continues (ses h') = Suc (ss_continues (ses h)) \<and> last (ag_messages h') = Assistant m \<and>
    (\<exists>h''. continue_run opts schedules fuel h' = Some (Inl (js ''Cannot continue from message role: assistant''), h''))"
proof -
  let ?h = "on_ses (emit_session (CompactionStart OverflowC)) h"
  from runAutoCompaction_cases [OF run] compacted(1) obtain c hx h3 where
    c: "apart_host ?h hx" "apply_compaction env c hx = Some h3" "content_result c = res"
      "h' = schedule_continue (drop_last_error (on_ses (emit_session (CompactionEnd OverflowC (Some (content_result c)) False True None)) h3))"
    by (auto simp: end_compaction_def emit_session_def schedule_continue_def Let_def)
  note hx = apart_host_fields [OF c(1)]
  have sm: "ss_manager (ses hx) = ss_manager (ses h)" using hx(1) by (simp add: emit_session_def)
  have "cc_firstKeptEntryId c \<in> e_id ` set (p @ [e])"
    using compacted(2) c(3) [symmetric] by (simp add: ids_def content_result_def)
  then obtain k where k: "k \<in> set (p @ [e])" "e_id k = cc_firstKeptEntryId c" unfolding image_iff by metis
  then obtain pre post where split: "p @ [e] = pre @ k # post" by (metis split_list)
  then have last: "last (k # post) = e" by (metis append_is_Nil_conv last_appendR last_snoc list.distinct(1))
  have "wf_session (ss_manager (ses hx))" "getBranch (ss_manager (ses hx)) None = Some (pre @ k # post)"
    using wf br(1) split sm by simp_all
  from apply_compaction_kept [OF f this(1) c(2) this(2) k(2)] obtain y where h3: "ag_activeRun h3 = ag_activeRun hx"
    "ss_continues (ses h3) = ss_continues (ses hx)" "ae_steering (ag_env h3) = ae_steering (ag_env hx)"
    "ae_followUp (ag_env h3) = ae_followUp (ag_env hx)"
    "ag_messages h3 = createCompactionSummaryMessage (cc_summary c) (cc_tokensBefore c) y # concat (map entry_messages (k # post))"
    by blast
  have "\<exists>ms. concat (map entry_messages (k # post)) = ms @ [Assistant m]"
    using last br(2) by (cases "k # post" rule: rev_cases) (auto simp: entry_messages_def)
  then obtain ms where ms: "ag_messages h3 = ms @ [Assistant m]" using h3(5) by auto
  have m': "ag_messages h' = ms @ [Assistant m]"
    using ms br(3) c(4) by (simp add: drop_last_error_def schedule_continue_def)
  have st: "ag_activeRun h' = None" "ae_steering (ag_env h') = ae_steering (ag_env h)" "ae_followUp (ag_env h') = ae_followUp (ag_env h)"
    "ss_continues (ses h') = Suc (ss_continues (ses h))"
    using ms br(3) c(4) h3(1-4) hx idle(1) by (simp_all add: drop_last_error_def schedule_continue_def emit_session_def)
  have q: "fst (drain (ae_steering (ag_env h))) = []" "fst (drain (ae_followUp (ag_env h))) = []"
    using idle(2) by (simp_all add: hasQueuedMessages_def hasItems_def drain_def)
  have "\<exists>h''. continue_run opts schedules fuel h' = Some (Inl (js ''Cannot continue from message role: assistant''), h'')"
    using q st(1-3) m' by (auto simp: continue_run_def Let_def update_env_def split: prod.split)
  with m' st(4) show ?thesis by simp
qed


text \<open>An extension that keeps everything from the third entry on.\<close>

definition demo_hooked :: "nat session_env" where
  "demo_hooked = demo_session_env\<lparr>xe_beforeCompact := Some (\<lambda>p es c x. (CompactWith (js ''sum'') (demo_id 4) 9 None, x))\<rparr>"

lemma demo_hooked_fresh: "fresh_env demo_hooked"
  using demo_session_fresh by (simp add: demo_hooked_def fresh_env_def)

lemma demo_last_reply:
  obtains p e where "getBranch demo_sm None = Some (p @ [e])" "e_payload e = MessageEntry (demo_reply 4)" "demo_id 4 \<in> ids (p @ [e])"
proof -
  have "getBranch demo_sm None = Some (butlast demo_path @ [last demo_path])" using demo_branch by code_simp
  moreover have "e_payload (last demo_path) = MessageEntry (demo_reply 4)" by code_simp
  moreover have "demo_id 4 \<in> ids (butlast demo_path @ [last demo_path])" by code_simp
  ultimately show thesis by (rule that)
qed

lemma demo_recovered:
  "\<exists>h' res. runAutoCompaction demo_hooked OverflowC True demo_tree_host = Some h'
     \<and> last (ss_emitted (ses h')) = CompactionEnd OverflowC (Some res) False True None \<and> cr_firstKeptEntryId res = demo_id 4"
proof -
  obtain p where p: "prepareCompaction demo_path demo_settings = Some (Some p)" using demo_preparation by blast
  have key: "truthy (Some (js ''key'')) = Some (js ''key'')" by (simp add: truthy_def js_def)
  let ?h = "on_ses (emit_session (CompactionStart OverflowC)) demo_tree_host"
  let ?c = "\<lparr>cc_summary = js ''sum'', cc_firstKeptEntryId = demo_id 4, cc_tokensBefore = 9, cc_details = None, cc_fromExtension = True\<rparr>"
  have st: "ss_model (ses ?h) = Some demo_chat_model" "ss_manager (ses ?h) = demo_sm" "ss_settings (ses ?h) = demo_session_settings"
    by (simp_all add: emit_session_def)
  have env: "xe_auth demo_hooked m y = (Inr (Some (js ''key'')), y)" "xe_aborted demo_hooked y = False"
    "xe_beforeCompact demo_hooked = Some (\<lambda>p es c x. (CompactWith (js ''sum'') (demo_id 4) 9 None, x))" for m y
    by (simp_all add: demo_hooked_def demo_session_env_def)
  have auth: "run_ses (outside (xe_auth demo_hooked demo_chat_model)) ?h = (Inr (Some (js ''key'')), ?h)"
    by (rule run_ses_same) (simp add: outside_def env)
  have con: "run_ses (make_compaction demo_hooked p demo_path demo_chat_model None) ?h = (Compacted ?c, ?h)"
    by (rule run_ses_same) (simp add: make_compaction_def before_compact_result_def outside_def env)
  have "wf_session (ss_manager (ses ?h))" using st(2) demo_wf by simp
  from apply_compaction_result [OF demo_hooked_fresh this] obtain h3 where h3: "apply_compaction demo_hooked ?c ?h = Some h3" by blast
  let ?h4 = "on_ses (emit_session (CompactionEnd OverflowC (Some (content_result ?c)) False True None)) h3"
  have "runAutoCompaction demo_hooked OverflowC True demo_tree_host = Some (schedule_continue (drop_last_error ?h4))"
    using st auth con demo_branch p h3 key by (simp add: runAutoCompaction_def Let_def demo_session_settings_def)
  then show ?thesis
    by (auto simp: schedule_continue_def emit_session_def content_result_def)
qed

lemma silent_overflow_not_continued_witness:
  "\<exists>h' h''. runAutoCompaction demo_hooked OverflowC True demo_tree_host = Some h' \<and> ss_continues (ses h') = 1
     \<and> continue_run demo_answering demo_schedule 3 h' = Some (Inl (js ''Cannot continue from message role: assistant''), h'')"
proof -
  obtain h' res where run: "runAutoCompaction demo_hooked OverflowC True demo_tree_host = Some h'"
    "last (ss_emitted (ses h')) = CompactionEnd OverflowC (Some res) False True None" "cr_firstKeptEntryId res = demo_id 4"
    using demo_recovered by blast
  obtain p e where br: "getBranch demo_sm None = Some (p @ [e])" "e_payload e = MessageEntry (demo_reply 4)" "demo_id 4 \<in> ids (p @ [e])"
    by (rule demo_last_reply)
  obtain m where m: "demo_reply 4 = Assistant m" "am_stopReason m \<noteq> ErrorR" by (simp add: demo_reply_def)
  have h: "wf_session (ss_manager (ses demo_tree_host))" "getBranch (ss_manager (ses demo_tree_host)) None = Some (p @ [e])"
    "e_payload e = MessageEntry (Assistant m)" "cr_firstKeptEntryId res \<in> ids (p @ [e])"
    "ag_activeRun demo_tree_host = None" "\<not> hasQueuedMessages (ag_env demo_tree_host)" "ss_continues (ses demo_tree_host) = 0"
    using br run(3) m(1) demo_wf
    by (simp_all add: demo_host_of_def reconnectToAgent_def subscribe_def createMutableAgentState_def new_queue_def hasQueuedMessages_def hasItems_def ses_def)
  from silent_overflow_not_continued [OF demo_hooked_fresh h(1-3) m(2) run(1,2) h(4-6)] h(7) run(1) show ?thesis by auto
qed

section \<open>Export\<close>

lemma relink_linked: "linked prev es \<Longrightarrow> relink prev es = es"
  by (induction prev es rule: linked.induct) simp_all

text \<open>C13 An exported branch is a session file: opened, it has exactly the entries of the branch, the identity of the session and
  its context for the model.\<close>

theorem exported_branch_reopens:
  assumes wf: "wf_session sm"
  shows "\<exists>fs' sm2. exportToJsonl f now sm fs = Some fs'
    \<and> openManager cwd dir (Some f) True fresh uuid now2 fs' = (sm2, fs')
    \<and> Some (getEntries sm2) = getBranch sm None \<and> wf_session sm2 \<and> sm_sessionId sm2 = sm_sessionId sm
    \<and> sessionContext sm2 = sessionContext sm"
proof -
  obtain path where br: "getBranch sm None = Some path" using getBranch_total [OF wf] by blast
  note B = getBranch_linked [OF wf br] branch_ids_subset [OF wf br]
  have ne: "[] \<notin> ids path"
    using B(2) wf wf_entries_distinct by (auto simp: wf_session_def ids_def)
  from linked_walk [OF B(1) _ ne] B(2) have lw: "wf_entries path"
    "path \<noteq> [] \<longrightarrow> walk_to_root (idx path) (Some (last path)) [] = Some path" by auto
  let ?h = "\<lparr>h_version = Some CURRENT_SESSION_VERSION, h_id = sm_sessionId sm, h_timestamp = now, h_cwd = sm_cwd sm, h_parentSession = None\<rparr>"
  let ?es = "Header ?h # map Entry path"
  let ?fs = "fs(f := Some (map Parsed ?es))"
  have ex: "exportToJsonl f now sm fs = Some ?fs" using br relink_linked [OF B(1)] by (simp add: exportToJsonl_def)
  let ?sm1 = "(blank_manager cwd dir True)\<lparr>sm_sessionFile := Some f, sm_sessionId := sm_sessionId sm, sm_fileEntries := ?es\<rparr>"
  let ?sm2 = "(buildIndex ?sm1)\<lparr>sm_flushed := True\<rparr>"
  have content: "?fs f = Some (map Parsed ?es)" by simp
  have load: "loadEntriesFromFile ?fs f = ?es"
    by (simp only: loadEntriesFromFile_def content option.case parse_Parsed) simp
  have "migrateToCurrentVersion uuid ?es = (False, ?es)" "first_header ?es = Some ?h"
    by (simp_all add: migrateToCurrentVersion_def session_version_def first_header_def map_filter_Cons)
  then have op: "openManager cwd dir (Some f) True fresh uuid now2 ?fs = (?sm2, ?fs)"
    using load content by (simp add: openManager_def setSessionFile_def Let_def del: fun_upd_apply)
  have es: "getEntries ?sm1 = path" by (simp add: getEntries_Header)
  then have es2: "getEntries ?sm2 = path" by simp
  have wf2: "wf_session ?sm2" using buildIndex_wf [of ?sm1] lw(1) es by simp
  have "getBranch ?sm2 None = Some path"
  proof (cases "path = []")
    case True
    then show ?thesis using buildIndex_leaf [of ?sm1] es by (simp add: getBranch_def lookup_id_def)
  next
    case False
    then have "sm_leafId ?sm2 = Some (e_id (last path))" using buildIndex_leaf [of ?sm1] es by (simp split: list.split)
    moreover have "sm_byId ?sm2 = idx path" using buildIndex_byId [of ?sm1] lw(1) es by simp
    ultimately show ?thesis
      using lw False lookup_id_idx [OF lw(1), of "last path"] by (simp add: getBranch_def)
  qed
  then have "sessionContext ?sm2 = sessionContext sm"
    by (simp only: sessionContext_branch [OF wf2] sessionContext_branch [OF wf] br)
  then show ?thesis
    using ex op es2 br wf2 by (intro exI [of _ ?fs] exI [of _ ?sm2]) (simp del: fun_upd_apply)
qed

theorem exported_branch_reopens_witness:
  "\<exists>fs' sm2. exportToJsonl (ExplicitPath (js ''/out'')) 9 demo_sm demo_fs = Some fs'
    \<and> openManager [] [] (Some (ExplicitPath (js ''/out''))) True [] demo_uuid 0 fs' = (sm2, fs') \<and> sessionContext sm2 = sessionContext demo_sm"
  using exported_branch_reopens [OF demo_wf] by blast

end
