(* ===== verification/Template_Substitution.thy ===== *)
theory Template_Substitution
  imports Prompt_Templates
begin

text \<open>
  A command with quoted arguments expands its template: the arguments are read back, and
  the four passes replace every placeholder by its value when no argument holds a dollar.
\<close>

section \<open>Quoted arguments\<close>

definition quote_arg :: "jsstring \<Rightarrow> jsstring" where
  "quote_arg a = [34] @ a @ [34]"

lemma parse_args_quoted:
  "q \<notin> set a \<Longrightarrow>
     parse_args_loop args current (Some q) (a @ q # cs) = parse_args_loop args (current @ a) None cs"
  by (induction a arbitrary: current) auto

lemma parse_args_quote_arg:
  "34 \<notin> set a \<Longrightarrow>
     parse_args_loop args current None (quote_arg a @ cs) = parse_args_loop args (current @ a) None cs"
  by (simp add: quote_arg_def parse_args_quoted)

lemma parse_args_quoted_list:
  "\<forall>a \<in> set as. a \<noteq> [] \<and> 34 \<notin> set a \<Longrightarrow>
     parse_args_loop args [] None (join_with [32] (map quote_arg as)) = args @ as"
proof (induction as arbitrary: args rule: induct_list012)
  case (2 a)
  then show ?case using parse_args_quote_arg [of a args "[]" "[]"] by simp
next
  case (3 a b as)
  let ?rest = "join_with [32] (map quote_arg (b # as))"
  have "parse_args_loop args [] None (quote_arg a @ [32] @ ?rest)
      = parse_args_loop args a None ([32] @ ?rest)"
    using parse_args_quote_arg [of a args "[]"] "3.prems" by simp
  also have "\<dots> = parse_args_loop (args @ [a]) [] None ?rest"
    using "3.prems" by simp
  also have "\<dots> = args @ a # b # as"
    using "3.IH"(2) [of "args @ [a]"] "3.prems" by simp
  finally show ?case by simp
qed simp

section \<open>Templates as lists of pieces\<close>

text \<open>What a template is meant to be: text without a dollar, and the four placeholders.\<close>

datatype template_piece =
    Plain jsstring
  | Positional jsstring
  | Slice jsstring "jsstring option"
  | AllNamed
  | AllAt

fun piece_text :: "template_piece \<Rightarrow> jsstring" where
  "piece_text (Plain t) = t"
| "piece_text (Positional ds) = 36 # ds"
| "piece_text (Slice ds None) = js ''${@:'' @ ds @ [125]"
| "piece_text (Slice ds (Some ls)) = js ''${@:'' @ ds @ [58] @ ls @ [125]"
| "piece_text AllNamed = js ''$ARGUMENTS''"
| "piece_text AllAt = js ''$@''"

fun piece_value :: "jsstring list \<Rightarrow> template_piece \<Rightarrow> jsstring" where
  "piece_value args (Plain t) = t"
| "piece_value args (Positional ds) = nth_arg args (parse_digits ds)"
| "piece_value args (Slice ds len) = slice_args args (parse_digits ds) (map_option parse_digits len)"
| "piece_value args AllNamed = join_args args"
| "piece_value args AllAt = join_args args"

definition template_text :: "template_piece list \<Rightarrow> jsstring" where
  "template_text ps = concat (map piece_text ps)"

definition dollar_free :: "jsstring \<Rightarrow> bool" where
  "dollar_free s \<longleftrightarrow> 36 \<notin> set s"

definition digits_ok :: "jsstring \<Rightarrow> bool" where
  "digits_ok ds \<longleftrightarrow> ds \<noteq> [] \<and> list_all is_digit ds"

fun piece_ok :: "template_piece \<Rightarrow> bool" where
  "piece_ok (Plain t) = dollar_free t"
| "piece_ok (Positional ds) = digits_ok ds"
| "piece_ok (Slice ds len) = (digits_ok ds \<and> (case len of None \<Rightarrow> True | Some ls \<Rightarrow> digits_ok ls))"
| "piece_ok _ = True"

text \<open>No digit directly after a positional placeholder.\<close>

fun pieces_ok :: "template_piece list \<Rightarrow> bool" where
  "pieces_ok [] = True"
| "pieces_ok (p # ps) =
     (piece_ok p \<and> pieces_ok ps
      \<and> (case p of Positional _ \<Rightarrow> \<not> list_ex is_digit (take 1 (template_text ps)) | _ \<Rightarrow> True))"

lemma template_text_simps [simp]:
  "template_text [] = []" "template_text (p # ps) = piece_text p @ template_text ps"
  by (simp_all add: template_text_def)

lemma dollar_free_simps [simp]:
  "dollar_free []" "dollar_free (c # s) \<longleftrightarrow> c \<noteq> 36 \<and> dollar_free s"
  "dollar_free (s @ t) \<longleftrightarrow> dollar_free s \<and> dollar_free t"
  by (auto simp: dollar_free_def)

lemma dollar_free_digits: "list_all is_digit ds \<Longrightarrow> dollar_free ds"
  by (induction ds) (auto simp: is_digit_def)

lemma digits_ok_dollar_free [simp]: "digits_ok ds \<Longrightarrow> dollar_free ds"
  by (simp add: digits_ok_def dollar_free_digits)

lemma digits_at_digits:
  assumes "digits_ok ds" "\<not> list_ex is_digit (take 1 s)"
  shows "digits_at (ds @ s) = Some (ds, s)"
proof -
  have tk: "takeWhile is_digit (ds @ s) = ds"
    using assms by (cases s) (auto simp: digits_ok_def list_all_iff takeWhile_append)
  have dr: "dropWhile is_digit (ds @ s) = s"
    using assms by (cases s) (auto simp: digits_ok_def list_all_iff dropWhile_append)
  show ?thesis
    using assms(1) tk dr by (cases ds) (simp_all add: digits_at_def digits_ok_def)
qed

section \<open>One pass of replacement\<close>

definition dollar_matcher :: "(jsstring \<Rightarrow> jsstring \<Rightarrow> (jsstring \<times> nat) option) \<Rightarrow> bool" where
  "dollar_matcher f \<longleftrightarrow> (\<forall>pre c cs. c \<noteq> 36 \<longrightarrow> f pre (c # cs) = None)"

lemma replace_plain:
  "dollar_matcher f \<Longrightarrow> dollar_free t \<Longrightarrow>
     replace_global f pre (t @ s) = t @ replace_global f (pre @ t) s"
  by (induction t arbitrary: pre) (auto simp: dollar_matcher_def)

lemma replace_skip:
  assumes "dollar_matcher f" "dollar_free t" "f pre (36 # t @ s) = None"
  shows "replace_global f pre (36 # t @ s) = 36 # t @ replace_global f (pre @ 36 # t) s"
  using assms replace_plain [OF assms(1,2), of "pre @ [36]" s] by simp

lemma replace_match:
  assumes "f pre (36 # t @ s) = Some (r, length t)"
  shows "replace_global f pre (36 # t @ s) = r @ replace_global f (pre @ 36 # t) s"
  using assms by simp

text \<open>
  A pass that answers a value at the pieces \<open>P\<close> selects and nothing at the others replaces
  exactly those.
\<close>

definition pass_ok ::
    "(jsstring \<Rightarrow> jsstring \<Rightarrow> (jsstring \<times> nat) option) \<Rightarrow> (template_piece \<Rightarrow> jsstring option)
     \<Rightarrow> template_piece list \<Rightarrow> bool" where
  "pass_ok f v ps \<longleftrightarrow> dollar_matcher f \<and>
     (\<forall>p s t qs pre. piece_text p = 36 # t \<longrightarrow> dollar_free t \<longrightarrow> suffix (p # qs) ps \<longrightarrow> s = template_text qs \<longrightarrow>
        f pre (36 # t @ s) = map_option (\<lambda>r. (r, length t)) (v p))"

definition apply_pass :: "(template_piece \<Rightarrow> jsstring option) \<Rightarrow> template_piece \<Rightarrow> template_piece" where
  "apply_pass v p = (case v p of None \<Rightarrow> p | Some r \<Rightarrow> Plain r)"

lemma piece_shape:
  "piece_ok p \<Longrightarrow> (\<exists>t. p = Plain t \<and> dollar_free t) \<or> (\<exists>t. piece_text p = 36 # t \<and> dollar_free t)"
proof (cases p)
  case (Slice ds len)
  assume "piece_ok p"
  with Slice show ?thesis by (cases len) (auto simp: js_def)
qed (auto simp: js_def)

lemma replace_pass:
  assumes "list_all piece_ok ps" "pass_ok f v ps" "\<And>t. v (Plain t) = None"
  shows "replace_global f pre (template_text ps) = template_text (map (apply_pass v) ps)"
  using assms
proof (induction ps arbitrary: pre)
  case (Cons p ps)
  have f: "dollar_matcher f" using Cons.prems(2) by (simp add: pass_ok_def)
  have ps: "pass_ok f v ps"
    using Cons.prems(2) by (auto simp: pass_ok_def suffix_Cons)
  note IH = Cons.IH [OF _ ps Cons.prems(3)]
  from Cons.prems(1) have "piece_ok p" by simp
  from piece_shape [OF this] consider (plain) t where "p = Plain t" "dollar_free t"
    | (dollar) t where "piece_text p = 36 # t" "dollar_free t" by blast
  then show ?case
  proof cases
    case plain
    then show ?thesis
      using Cons.prems IH replace_plain [OF f plain(2)] by (simp add: apply_pass_def)
  next
    case dollar
    then have m: "f pre (36 # t @ template_text ps) = map_option (\<lambda>r. (r, length t)) (v p)"
      using Cons.prems(2) by (auto simp: pass_ok_def)
    show ?thesis
    proof (cases "v p")
      case None
      then show ?thesis
        using Cons.prems(1) dollar m IH replace_skip [OF f dollar(2)] by (simp add: apply_pass_def del: replace_global.simps)
    next
      case (Some r)
      then show ?thesis
        using Cons.prems(1) dollar m IH replace_match by (simp add: apply_pass_def del: replace_global.simps)
    qed
  qed
qed simp

section \<open>The four passes\<close>

lemma strip_prefix_append [simp]: "strip_prefix p (p @ s) = Some s"
  by (induction p) auto

lemma matchers [simp]:
  "dollar_matcher (positional_at args)" "dollar_matcher (slice_at args)"
  "dollar_matcher (literal_at (js ''$ARGUMENTS'') r)" "dollar_matcher (literal_at (js ''$@'') r)"
  by (simp_all add: dollar_matcher_def positional_at_def slice_at_def literal_at_def js_def)

lemma expand_replacement_plain: "dollar_free r \<Longrightarrow> expand_replacement m a b r = r"
  by (induction m a b r rule: expand_replacement.induct) auto

fun positional_value :: "jsstring list \<Rightarrow> template_piece \<Rightarrow> jsstring option" where
  "positional_value args (Positional ds) = Some (nth_arg args (parse_digits ds))"
| "positional_value args _ = None"

fun slice_value :: "jsstring list \<Rightarrow> template_piece \<Rightarrow> jsstring option" where
  "slice_value args (Slice ds len) =
     Some (slice_args args (parse_digits ds) (map_option parse_digits len))"
| "slice_value args _ = None"

fun named_value :: "jsstring list \<Rightarrow> template_piece \<Rightarrow> jsstring option" where
  "named_value args AllNamed = Some (join_args args)"
| "named_value args _ = None"

fun at_value :: "jsstring list \<Rightarrow> template_piece \<Rightarrow> jsstring option" where
  "at_value args AllAt = Some (join_args args)"
| "at_value args _ = None"

fun not_positional :: "template_piece \<Rightarrow> bool" where
  "not_positional (Positional _) = False"
| "not_positional _ = True"

lemma digit_test [simp]: "\<not> is_digit 123" "\<not> is_digit 64" "\<not> is_digit 65" "\<not> is_digit 125" "\<not> is_digit 58"
  by (simp_all add: is_digit_def)

lemma pieces_ok_suffix: "pieces_ok ps \<Longrightarrow> suffix qs ps \<Longrightarrow> pieces_ok qs"
  by (induction ps) (auto simp: suffix_Cons)

lemma positional_pass: "pieces_ok ps \<Longrightarrow> pass_ok (positional_at args) (positional_value args) ps"
  unfolding pass_ok_def
proof (intro conjI allI impI)
  fix p s t qs pre
  assume ps: "pieces_ok ps" and t: "piece_text p = 36 # t" and suf: "suffix (p # qs) ps" and s: "s = template_text qs"
  note ok = pieces_ok_suffix [OF ps suf]
  show "positional_at args pre (36 # t @ s) = map_option (\<lambda>r. (r, length t)) (positional_value args p)"
  proof (cases p)
    case (Positional ds)
    then have "digits_at (t @ s) = Some (t, s)" "t = ds"
      using ok t s by (auto intro!: digits_at_digits)
    with Positional show ?thesis by (simp add: positional_at_def js_def)
  next
    case (Slice ds len)
    with t show ?thesis by (cases len) (auto simp: positional_at_def js_def digits_at_def)
  qed (use ok t in \<open>auto simp: positional_at_def js_def digits_at_def\<close>)
qed simp

lemma slice_at_text:
  assumes "digits_ok ds"
  shows "slice_at args pre (js ''${@:'' @ ds @ 125 # s) = Some (slice_args args (parse_digits ds) None, 4 + length ds)"
    and "digits_ok ls \<Longrightarrow> slice_at args pre (js ''${@:'' @ ds @ 58 # ls @ 125 # s) =
      Some (slice_args args (parse_digits ds) (Some (parse_digits ls)), 5 + length ds + length ls)"
  using digits_at_digits [OF assms, of "125 # s"] digits_at_digits [OF assms, of "58 # ls @ 125 # s"]
    digits_at_digits [of ls "125 # s"]
  by (simp_all add: slice_at_def)

lemma slice_pass: "list_all piece_ok ps \<Longrightarrow> list_all not_positional ps \<Longrightarrow> pass_ok (slice_at args) (slice_value args) ps"
  unfolding pass_ok_def
proof (intro conjI allI impI)
  fix p s t qs pre
  assume "list_all piece_ok ps" "list_all not_positional ps" "suffix (p # qs) ps"
  then have ok: "piece_ok p" "not_positional p" by (auto simp: list_all_iff suffix_def)
  assume t: "piece_text p = 36 # t" and "dollar_free t"
  then show "slice_at args pre (36 # t @ s) = map_option (\<lambda>r. (r, length t)) (slice_value args p)"
  proof (cases p)
    case (Slice ds len)
    have eq: "36 # t @ s = piece_text p @ s" using t by simp
    have len_t: "length t = length (piece_text p) - 1" using t by simp
    show ?thesis
      unfolding eq len_t using Slice ok slice_at_text [where ds = ds and args = args and pre = pre] by (cases len) auto
  qed (use ok in \<open>auto simp: slice_at_def js_def\<close>)
qed simp

lemma literal_pass:
  assumes "list_all piece_ok ps" "list_all not_positional ps" "\<forall>p \<in> set ps. slice_value [] p = None"
    and "dollar_free (join_args args)"
  shows "pass_ok (literal_at (js ''$ARGUMENTS'') (join_args args)) (named_value args) ps"
    and "pass_ok (literal_at (js ''$@'') (join_args args)) (at_value args) ps"
proof -
  have "literal_at (js ''$ARGUMENTS'') (join_args args) pre (36 # t @ s) = map_option (\<lambda>r. (r, length t)) (named_value args p)
      \<and> literal_at (js ''$@'') (join_args args) pre (36 # t @ s) = map_option (\<lambda>r. (r, length t)) (at_value args p)"
    if "piece_text p = 36 # t" "dollar_free t" "suffix (p # qs) ps" for p s t qs pre
  proof -
    have ok: "piece_ok p" "not_positional p" "slice_value [] p = None"
      using assms(1-3) that(3) by (auto simp: list_all_iff suffix_def)
    show ?thesis
      using ok that assms(4) by (cases p) (auto simp: literal_at_def js_def expand_replacement_plain)
  qed
  then show "pass_ok (literal_at (js ''$ARGUMENTS'') (join_args args)) (named_value args) ps"
    and "pass_ok (literal_at (js ''$@'') (join_args args)) (at_value args) ps"
    unfolding pass_ok_def by auto
qed

section \<open>All four\<close>

lemma dollar_free_join: "\<forall>a \<in> set as. dollar_free a \<Longrightarrow> dollar_free (join_args as)"
  unfolding join_args_def by (induction as rule: induct_list012) (auto simp: js_def)

lemma dollar_free_values:
  assumes "\<forall>a \<in> set args. dollar_free a"
  shows "dollar_free (nth_arg args n)" "dollar_free (slice_args args n len)" "dollar_free (join_args args)"
  using assms by (auto simp: nth_arg_def slice_args_def Let_def intro!: dollar_free_join
      dest: in_set_takeD in_set_dropD split: option.splits)

lemma apply_pass_ok:
  assumes "list_all piece_ok ps" "\<And>p r. v p = Some r \<Longrightarrow> dollar_free r"
  shows "list_all piece_ok (map (apply_pass v) ps)"
  using assms by (auto simp: list_all_iff apply_pass_def split: option.splits)

lemma all_passes:
  "apply_pass (at_value args) (apply_pass (named_value args)
     (apply_pass (slice_value args) (apply_pass (positional_value args) p))) = Plain (piece_value args p)"
  by (cases p) (simp_all add: apply_pass_def)

lemma pieces_ok_all: "pieces_ok ps \<Longrightarrow> list_all piece_ok ps"
  by (induction ps) auto

lemma substituteArgs_pieces:
  assumes ps: "pieces_ok ps" and args: "\<forall>a \<in> set args. dollar_free a"
  shows "substituteArgs (template_text ps) args = concat (map (piece_value args) ps)"
proof -
  note free = dollar_free_values [OF args]
  define ps1 where "ps1 = map (apply_pass (positional_value args)) ps"
  define ps2 where "ps2 = map (apply_pass (slice_value args)) ps1"
  define ps3 where "ps3 = map (apply_pass (named_value args)) ps2"
  have ok: "list_all piece_ok ps" using ps by (rule pieces_ok_all)
  have ok1: "list_all piece_ok ps1"
    unfolding ps1_def using ok free by (intro apply_pass_ok) (auto elim!: positional_value.elims)
  have ok2: "list_all piece_ok ps2"
    unfolding ps2_def using ok1 free by (intro apply_pass_ok) (auto elim!: slice_value.elims)
  have ok3: "list_all piece_ok ps3"
    unfolding ps3_def using ok2 free by (intro apply_pass_ok) (auto elim!: named_value.elims)
  have np1: "not_positional (apply_pass (positional_value args) p)" for p
    by (cases p) (simp_all add: apply_pass_def)
  have np2: "not_positional p \<Longrightarrow> not_positional (apply_pass (slice_value args) p)
      \<and> slice_value [] (apply_pass (slice_value args) p) = None" for p
    by (cases p) (simp_all add: apply_pass_def)
  have np3: "not_positional p \<and> slice_value [] p = None \<Longrightarrow> not_positional (apply_pass (named_value args) p)
      \<and> slice_value [] (apply_pass (named_value args) p) = None" for p
    by (cases p) (simp_all add: apply_pass_def)
  have n1: "list_all not_positional ps1" by (simp add: ps1_def list_all_iff np1)
  have n2: "list_all not_positional ps2 \<and> (\<forall>p \<in> set ps2. slice_value [] p = None)"
    using n1 np2 by (auto simp: ps2_def list_all_iff)
  have n3: "list_all not_positional ps3 \<and> (\<forall>p \<in> set ps3. slice_value [] p = None)"
    using n2 np3 by (auto simp: ps3_def list_all_iff)
  have "substituteArgs (template_text ps) args = template_text (map (apply_pass (at_value args)) ps3)"
    using replace_pass [OF ok positional_pass [OF ps]] replace_pass [OF ok1 slice_pass [OF ok1 n1]]
      replace_pass [OF ok2 literal_pass(1) [OF ok2 _ _ free(3)]] n2
      replace_pass [OF ok3 literal_pass(2) [OF ok3 _ _ free(3)]] n3
    by (simp add: substituteArgs_def Let_def flip: ps1_def ps2_def ps3_def)
  also have "\<dots> = concat (map (piece_value args) ps)"
    by (simp add: ps3_def ps2_def ps1_def template_text_def comp_def all_passes)
  finally show ?thesis .
qed

section \<open>Properties\<close>

lemma parseCommandArgs_quoted:
  "\<forall>a \<in> set as. a \<noteq> [] \<and> 34 \<notin> set a \<Longrightarrow> parseCommandArgs (join_args (map quote_arg as)) = as"
  using parse_args_quoted_list [of as "[]"] by (simp add: parseCommandArgs_def join_args_def js_def)

lemma command_split_name:
  assumes "32 \<notin> set name"
  shows "command_split (47 # name @ 32 # rest) = (name, rest)"
proof -
  have "index_of (\<lambda>c. c = 32) name = None" using assms by (auto simp: index_of_None)
  then have "index_of (\<lambda>c. c = 32) (name @ 32 # rest) = Some (length name)"
    by (simp add: index_of_append)
  then show ?thesis by (simp add: command_split_def sub_list_def)
qed

text \<open>C14 A template command expands as a template of parts: quoted arguments reach their positions, slices and wildcards as
  they were written, for a template made of plain text and placeholders and arguments without dollars.\<close>

theorem template_command_expands:
  assumes "find (\<lambda>t. pt_name t = name) templates = Some t" "pt_content t = template_text ps" "pieces_ok ps"
    and "32 \<notin> set name" "\<forall>a \<in> set args. a \<noteq> [] \<and> 34 \<notin> set a \<and> dollar_free a"
  shows "expandPromptTemplate (js ''/'' @ name @ js '' '' @ join_args (map quote_arg args)) templates
    = concat (map (piece_value args) ps)"
proof -
  have "command_split (js ''/'' @ name @ js '' '' @ join_args (map quote_arg args))
      = (name, join_args (map quote_arg args))"
    using command_split_name [OF assms(4)] by (simp add: js_def)
  moreover have "parseCommandArgs (join_args (map quote_arg args)) = args"
    using assms(5) by (intro parseCommandArgs_quoted) auto
  ultimately show ?thesis
    using assms by (simp add: expandPromptTemplate_def substituteArgs_pieces)
qed

definition demo_template :: prompt_template where
  "demo_template = \<lparr>pt_name = js ''fix'', pt_description = [], pt_argumentHint = None,
     pt_content = js ''Fix $1 in ${@:2}''\<rparr>"

lemma template_command_expands_witness:
  "expandPromptTemplate (js ''/fix \"a b\" \"c\" \"d\"'') [demo_template] = js ''Fix a b in c d''"
proof -
  have "expandPromptTemplate (js ''/'' @ js ''fix'' @ js '' '' @ join_args (map quote_arg [js ''a b'', js ''c'', js ''d'']))
      [demo_template] = concat (map (piece_value [js ''a b'', js ''c'', js ''d''])
        [Plain (js ''Fix ''), Positional (js ''1''), Plain (js '' in ''), Slice (js ''2'') None])"
    by (rule template_command_expands [where t = demo_template])
      (simp_all add: demo_template_def js_def digits_ok_def is_digit_def dollar_free_def)
  then show ?thesis
    by (simp add: js_def join_args_def quote_arg_def nth_arg_def slice_args_def parse_digits_def)
qed

text \<open>An argument is not inserted literally: later passes read it again.\<close>

theorem arguments_substituted_again:
  "substituteArgs (js ''$1'') [js ''$@'', js ''x''] = js ''$@ x''
   \<and> substituteArgs (js ''$ARGUMENTS'') [js ''$$5''] = js ''$5''"
  by code_simp

end
