(* ===== verification/Message_Transform.thy ===== *)
theory Message_Transform
  imports Summarization
begin

text \<open>
  What happens to a conversation before it is sent to a provider,
  \<open>packages/ai/src/providers/transform-messages.ts\<close>: images a model cannot see, thinking and
  signatures of other models, the ids of tool calls, and results that are missing.
\<close>

section \<open>The target\<close>

text \<open>The fields of the model that are read.\<close>

record target_model =
  tm_provider :: jsstring
  tm_api :: jsstring
  tm_id :: jsstring
  tm_input :: "jsstring list"

type_synonym normalizer = "jsstring \<Rightarrow> target_model \<Rightarrow> assistant_message \<Rightarrow> jsstring"

section \<open>Images\<close>

definition NON_VISION_USER_IMAGE_PLACEHOLDER :: jsstring where
  "NON_VISION_USER_IMAGE_PLACEHOLDER = js ''(image omitted: model does not support images)''"

definition NON_VISION_TOOL_IMAGE_PLACEHOLDER :: jsstring where
  "NON_VISION_TOOL_IMAGE_PLACEHOLDER = js ''(tool image omitted: model does not support images)''"

text \<open>The loop, with \<open>previousWasPlaceholder\<close>.\<close>

fun replace_images :: "jsstring \<Rightarrow> bool \<Rightarrow> user_block list \<Rightarrow> user_block list" where
  "replace_images placeholder prev [] = []"
| "replace_images placeholder prev (ImageBlock d m # bs) =
     (if prev then [] else [TextBlock placeholder None]) @ replace_images placeholder True bs"
| "replace_images placeholder prev (TextBlock t sig # bs) =
     TextBlock t sig # replace_images placeholder (t = placeholder) bs"

definition replaceImagesWithPlaceholder :: "user_block list \<Rightarrow> jsstring \<Rightarrow> user_block list" where
  "replaceImagesWithPlaceholder content placeholder = replace_images placeholder False content"

fun downgrade_message :: "llm_message \<Rightarrow> llm_message" where
  "downgrade_message (LUser m) =
     (case um_content m of
        UBlocks bs \<Rightarrow> LUser (m\<lparr>um_content := UBlocks (replaceImagesWithPlaceholder bs NON_VISION_USER_IMAGE_PLACEHOLDER)\<rparr>)
      | UString s \<Rightarrow> LUser m)"
| "downgrade_message (LToolResult m) =
     LToolResult (m\<lparr>tr_content := replaceImagesWithPlaceholder (tr_content m) NON_VISION_TOOL_IMAGE_PLACEHOLDER\<rparr>)"
| "downgrade_message (LAssistant m) = LAssistant m"

definition downgradeUnsupportedImages :: "llm_message list \<Rightarrow> target_model \<Rightarrow> llm_message list" where
  "downgradeUnsupportedImages messages model =
     (if js ''image'' \<in> set (tm_input model) then messages else map downgrade_message messages)"

section \<open>The first pass\<close>

definition isSameModel :: "target_model \<Rightarrow> assistant_message \<Rightarrow> bool" where
  "isSameModel model m \<longleftrightarrow>
     am_provider m = tm_provider model \<and> am_api m = tm_api model \<and> am_model m = tm_id model"

type_synonym id_map = "jsstring \<rightharpoonup> jsstring"

definition transform_call ::
    "target_model \<Rightarrow> normalizer option \<Rightarrow> assistant_message \<Rightarrow> tool_call \<Rightarrow> id_map \<Rightarrow> tool_call \<times> id_map" where
  "transform_call model normalizeToolCallId m tc idMap =
     (let same = isSameModel model m;
          tc1 = (if \<not> same \<and> truthy (tc_thoughtSignature tc) \<noteq> None then tc\<lparr>tc_thoughtSignature := None\<rparr> else tc)
      in case (if same then None else normalizeToolCallId) of
           None \<Rightarrow> (tc1, idMap)
         | Some f \<Rightarrow>
             (let normalizedId = f (tc_id tc) model m
              in if normalizedId \<noteq> tc_id tc
                 then (tc1\<lparr>tc_id := normalizedId\<rparr>, idMap(tc_id tc \<mapsto> normalizedId)) else (tc1, idMap)))"

text \<open>A block becomes a list of none or one.\<close>

definition transform_thinking ::
    "bool \<Rightarrow> jsstring \<Rightarrow> jsstring option \<Rightarrow> bool option \<Rightarrow> assistant_block list" where
  "transform_thinking same t sig redacted =
     (if redacted = Some True then (if same then [AThinking t sig redacted] else [])
      else if same \<and> truthy sig \<noteq> None then [AThinking t sig redacted]
      else if trim_js t = [] then []
      else if same then [AThinking t sig redacted]
      else [AText t None])"

fun transform_block ::
    "target_model \<Rightarrow> normalizer option \<Rightarrow> assistant_message \<Rightarrow> assistant_block \<Rightarrow> id_map
     \<Rightarrow> assistant_block list \<times> id_map" where
  "transform_block model normalizeToolCallId m (AThinking t sig redacted) idMap =
     (transform_thinking (isSameModel model m) t sig redacted, idMap)"
| "transform_block model normalizeToolCallId m (AText t sig) idMap =
     ([if isSameModel model m then AText t sig else AText t None], idMap)"
| "transform_block model normalizeToolCallId m (AToolCall tc) idMap =
     (case transform_call model normalizeToolCallId m tc idMap of (tc', idMap') \<Rightarrow> ([AToolCall tc'], idMap'))"

fun transform_blocks ::
    "target_model \<Rightarrow> normalizer option \<Rightarrow> assistant_message \<Rightarrow> assistant_block list \<Rightarrow> id_map
     \<Rightarrow> assistant_block list \<times> id_map" where
  "transform_blocks model normalizeToolCallId m [] idMap = ([], idMap)"
| "transform_blocks model normalizeToolCallId m (b # bs) idMap =
     (case transform_block model normalizeToolCallId m b idMap of
        (b', idMap1) \<Rightarrow> (case transform_blocks model normalizeToolCallId m bs idMap1 of (bs', idMap2) \<Rightarrow> (b' @ bs', idMap2)))"

fun transform_message ::
    "target_model \<Rightarrow> normalizer option \<Rightarrow> llm_message \<Rightarrow> id_map \<Rightarrow> llm_message \<times> id_map" where
  "transform_message model normalizeToolCallId (LUser m) idMap = (LUser m, idMap)"
| "transform_message model normalizeToolCallId (LToolResult m) idMap =
     (case truthy (idMap (tr_toolCallId m)) of
        Some i \<Rightarrow> (LToolResult (if i \<noteq> tr_toolCallId m then m\<lparr>tr_toolCallId := i\<rparr> else m), idMap)
      | None \<Rightarrow> (LToolResult m, idMap))"
| "transform_message model normalizeToolCallId (LAssistant m) idMap =
     (case transform_blocks model normalizeToolCallId m (am_content m) idMap of
        (content, idMap') \<Rightarrow> (LAssistant (m\<lparr>am_content := content\<rparr>), idMap'))"

fun first_pass :: "target_model \<Rightarrow> normalizer option \<Rightarrow> llm_message list \<Rightarrow> id_map \<Rightarrow> llm_message list" where
  "first_pass model normalizeToolCallId [] idMap = []"
| "first_pass model normalizeToolCallId (m # ms) idMap =
     (case transform_message model normalizeToolCallId m idMap of (m', idMap') \<Rightarrow> m' # first_pass model normalizeToolCallId ms idMap')"

definition transformed :: "target_model \<Rightarrow> normalizer option \<Rightarrow> llm_message list \<Rightarrow> llm_message list" where
  "transformed model normalizeToolCallId messages =
     first_pass model normalizeToolCallId (downgradeUnsupportedImages messages model) Map.empty"

section \<open>The second pass\<close>

record pairing =
  pa_result :: "llm_message list"
  pa_pendingToolCalls :: "tool_call list"
  pa_existingToolResultIds :: "jsstring set"

text \<open>\<open>now i\<close> is the clock when the message at place \<open>i\<close> of the result is made.\<close>

definition synthetic_result :: "tool_call \<Rightarrow> int \<Rightarrow> llm_message" where
  "synthetic_result tc now =
     LToolResult \<lparr>tr_toolCallId = tc_id tc, tr_toolName = tc_name tc,
                  tr_content = [TextBlock (js ''No result provided'') None], tr_details = None,
                  tr_isError = True, tr_timestamp = now\<rparr>"

definition push_missing :: "(nat \<Rightarrow> int) \<Rightarrow> jsstring set \<Rightarrow> tool_call \<Rightarrow> llm_message list \<Rightarrow> llm_message list" where
  "push_missing now existing tc result =
     (if tc_id tc \<in> existing then result else result @ [synthetic_result tc (now (length result))])"

definition insertSyntheticToolResults :: "(nat \<Rightarrow> int) \<Rightarrow> pairing \<Rightarrow> pairing" where
  "insertSyntheticToolResults now p =
     (if pa_pendingToolCalls p \<noteq> []
      then \<lparr>pa_result = fold (push_missing now (pa_existingToolResultIds p)) (pa_pendingToolCalls p) (pa_result p),
            pa_pendingToolCalls = [], pa_existingToolResultIds = {}\<rparr>
      else p)"

definition is_failed :: "assistant_message \<Rightarrow> bool" where
  "is_failed m \<longleftrightarrow> am_stopReason m = ErrorR \<or> am_stopReason m = AbortedR"

definition push_result :: "llm_message \<Rightarrow> pairing \<Rightarrow> pairing" where
  "push_result m p = p\<lparr>pa_result := pa_result p @ [m]\<rparr>"

fun pair_message :: "(nat \<Rightarrow> int) \<Rightarrow> llm_message \<Rightarrow> pairing \<Rightarrow> pairing" where
  "pair_message now (LAssistant m) p =
     (let p1 = insertSyntheticToolResults now p
      in if is_failed m then p1
         else
           (let toolCalls = tool_calls_of (am_content m);
                p2 = (if toolCalls \<noteq> [] then p1\<lparr>pa_pendingToolCalls := toolCalls, pa_existingToolResultIds := {}\<rparr> else p1)
            in push_result (LAssistant m) p2))"
| "pair_message now (LToolResult m) p =
     push_result (LToolResult m) (p\<lparr>pa_existingToolResultIds := insert (tr_toolCallId m) (pa_existingToolResultIds p)\<rparr>)"
| "pair_message now (LUser m) p = push_result (LUser m) (insertSyntheticToolResults now p)"

definition pair_results :: "(nat \<Rightarrow> int) \<Rightarrow> llm_message list \<Rightarrow> llm_message list" where
  "pair_results now messages =
     pa_result (insertSyntheticToolResults now
       (fold (pair_message now) messages \<lparr>pa_result = [], pa_pendingToolCalls = [], pa_existingToolResultIds = {}\<rparr>))"

definition transformMessages ::
    "(nat \<Rightarrow> int) \<Rightarrow> llm_message list \<Rightarrow> target_model \<Rightarrow> normalizer option \<Rightarrow> llm_message list" where
  "transformMessages now messages model normalizeToolCallId =
     pair_results now (transformed model normalizeToolCallId messages)"

end
