(* ===== verification/Message_Pairing.thy ===== *)
theory Message_Pairing
  imports Message_Transform
begin

text \<open>
  What the transformation of \<open>Message_Transform\<close> guarantees: every call that is sent is followed by a
  result for it, and a conversation that is complete already is sent as it is.
\<close>

section \<open>Complete conversations\<close>

text \<open>The results right after a message, and: no response failed, every call has a result right after its response.\<close>

fun results_after :: "llm_message list \<Rightarrow> tool_result_message list" where
  "results_after (LToolResult r # ms) = r # results_after ms"
| "results_after _ = []"

definition has_results :: "assistant_message \<Rightarrow> tool_result_message list \<Rightarrow> bool" where
  "has_results m rs \<longleftrightarrow> tc_id ` set (tool_calls_of (am_content m)) \<subseteq> tr_toolCallId ` set rs"

fun complete :: "llm_message list \<Rightarrow> bool" where
  "complete [] \<longleftrightarrow> True"
| "complete (LAssistant m # ms) \<longleftrightarrow> \<not> is_failed m \<and> has_results m (results_after ms) \<and> complete ms"
| "complete (_ # ms) \<longleftrightarrow> complete ms"

lemma results_after_append: "set (results_after xs) \<subseteq> set (results_after (xs @ ys))"
  by (induction xs rule: results_after.induct) auto

lemma results_after_results [simp]: "results_after (map LToolResult rs @ ms) = rs @ results_after ms"
  by (induction rs) simp_all

lemma has_results_mono: "has_results m rs \<Longrightarrow> set rs \<subseteq> set rs' \<Longrightarrow> has_results m rs'"
  by (auto simp: has_results_def)

lemma complete_append: "complete xs \<Longrightarrow> complete ys \<Longrightarrow> complete (xs @ ys)"
proof (induction xs rule: complete.induct)
  case (2 m ms)
  from 2(2) have "has_results m (results_after (ms @ ys))"
    using has_results_mono results_after_append [of ms ys] unfolding complete.simps by blast
  with 2 show ?case by simp
qed simp_all

lemma complete_results [simp]: "complete (map LToolResult rs)"
  by (induction rs) simp_all

section \<open>Results are added for the calls that have none\<close>

lemma push_missing_all:
  "\<exists>ss. fold (push_missing now ex) tcs result = result @ map LToolResult ss
     \<and> tc_id ` set tcs \<subseteq> ex \<union> tr_toolCallId ` set ss
     \<and> (\<forall>s \<in> set ss. \<exists>tc \<in> set tcs. tc_id tc \<notin> ex \<and> (\<exists>t. LToolResult s = synthetic_result tc t))"
proof (induction tcs arbitrary: result)
  case (Cons tc tcs)
  show ?case
  proof (cases "tc_id tc \<in> ex")
    case True
    then have "fold (push_missing now ex) (tc # tcs) result = fold (push_missing now ex) tcs result"
      by (simp add: push_missing_def)
    moreover obtain ss where "fold (push_missing now ex) tcs result = result @ map LToolResult ss"
      "tc_id ` set tcs \<subseteq> ex \<union> tr_toolCallId ` set ss"
      "\<forall>s \<in> set ss. \<exists>tc \<in> set tcs. tc_id tc \<notin> ex \<and> (\<exists>t. LToolResult s = synthetic_result tc t)"
      using Cons.IH by blast
    ultimately show ?thesis using True by (intro exI [of _ ss]) simp
  next
    case False
    obtain r where r: "synthetic_result tc (now (length result)) = LToolResult r" "tr_toolCallId r = tc_id tc"
      by (simp add: synthetic_result_def)
    obtain ss where ss: "fold (push_missing now ex) tcs (result @ [LToolResult r]) = (result @ [LToolResult r]) @ map LToolResult ss"
      "tc_id ` set tcs \<subseteq> ex \<union> tr_toolCallId ` set ss"
      "\<forall>s \<in> set ss. \<exists>tc \<in> set tcs. tc_id tc \<notin> ex \<and> (\<exists>t. LToolResult s = synthetic_result tc t)"
      using Cons.IH by blast
    have "fold (push_missing now ex) (tc # tcs) result = result @ map LToolResult (r # ss)"
      using ss(1) False by (simp add: push_missing_def r(1))
    moreover have "tc_id ` set (tc # tcs) \<subseteq> ex \<union> tr_toolCallId ` set (r # ss)" using ss(2) r(2) by auto
    moreover have "\<forall>s \<in> set (r # ss). \<exists>c \<in> set (tc # tcs). tc_id c \<notin> ex \<and> (\<exists>t. LToolResult s = synthetic_result c t)"
      using ss(3) False r(1) [symmetric] by (simp, blast)
    ultimately show ?thesis by blast
  qed
qed simp

text \<open>
  What holds between two messages: all is complete, or the last response waits for results and the
  set has the ids of those that came.
\<close>

definition open_pairing :: "pairing \<Rightarrow> bool" where
  "open_pairing p \<longleftrightarrow>
     (pa_pendingToolCalls p = [] \<and> complete (pa_result p))
     \<or> (\<exists>pre m rs. pa_result p = pre @ LAssistant m # map LToolResult rs \<and> complete pre \<and> \<not> is_failed m
          \<and> pa_pendingToolCalls p = tool_calls_of (am_content m) \<and> pa_existingToolResultIds p = tr_toolCallId ` set rs)"

lemma insert_completes:
  assumes "open_pairing p"
  shows "complete (pa_result (insertSyntheticToolResults now p)) \<and> pa_pendingToolCalls (insertSyntheticToolResults now p) = []"
proof (cases "pa_pendingToolCalls p = []")
  case True
  then have "complete (pa_result p)"
    using assms by (auto simp: open_pairing_def has_results_def intro!: complete_append)
  with True show ?thesis by (simp add: insertSyntheticToolResults_def)
next
  case False
  then obtain pre m rs where m: "pa_result p = pre @ LAssistant m # map LToolResult rs" "complete pre" "\<not> is_failed m"
    "pa_pendingToolCalls p = tool_calls_of (am_content m)" "pa_existingToolResultIds p = tr_toolCallId ` set rs"
    using assms by (auto simp: open_pairing_def)
  obtain ss where ss: "fold (push_missing now (pa_existingToolResultIds p)) (pa_pendingToolCalls p) (pa_result p)
      = pa_result p @ map LToolResult ss"
    "tc_id ` set (pa_pendingToolCalls p) \<subseteq> pa_existingToolResultIds p \<union> tr_toolCallId ` set ss"
    using push_missing_all by metis
  from ss(2) m(4,5) have "has_results m (rs @ ss)" by (auto simp: has_results_def)
  then have "complete (LAssistant m # map LToolResult (rs @ ss))"
    using m(3) results_after_results [of "rs @ ss" "[]"] by (simp del: map_append results_after_results)
  with m(2) have "complete (pre @ LAssistant m # map LToolResult (rs @ ss))" by (intro complete_append)
  with False show ?thesis by (simp add: insertSyntheticToolResults_def ss(1)) (simp add: m(1))
qed

lemma pair_message_open:
  assumes "open_pairing p"
  shows "open_pairing (pair_message now m p)"
proof (cases m)
  case (LUser u)
  with insert_completes [OF assms] show ?thesis
    by (auto simp: open_pairing_def push_result_def intro!: complete_append)
next
  case (LAssistant a)
  let ?p1 = "insertSyntheticToolResults now p"
  note c = insert_completes [OF assms, of now]
  show ?thesis
  proof (cases "is_failed a")
    case True
    with LAssistant c show ?thesis by (simp add: open_pairing_def)
  next
    case False
    show ?thesis
    proof (cases "tool_calls_of (am_content a) = []")
      case True
      with False LAssistant c show ?thesis
        by (auto simp: open_pairing_def push_result_def Let_def has_results_def intro!: complete_append)
    next
      case calls: False
      have "pa_result (pair_message now m p) = pa_result ?p1 @ LAssistant a # map LToolResult []"
        using False calls by (simp add: LAssistant push_result_def Let_def)
      moreover have "pa_pendingToolCalls (pair_message now m p) = tool_calls_of (am_content a)"
        "pa_existingToolResultIds (pair_message now m p) = tr_toolCallId ` set []"
        using False calls by (simp_all add: LAssistant push_result_def Let_def)
      ultimately show ?thesis
        unfolding open_pairing_def using c False by blast
    qed
  qed
next
  case (LToolResult r)
  from assms consider (ready) "pa_pendingToolCalls p = []" "complete (pa_result p)"
    | (waits) pre a rs where "pa_result p = pre @ LAssistant a # map LToolResult rs" "complete pre" "\<not> is_failed a"
      "pa_pendingToolCalls p = tool_calls_of (am_content a)" "pa_existingToolResultIds p = tr_toolCallId ` set rs"
    by (auto simp: open_pairing_def)
  then show ?thesis
  proof cases
    case ready
    with LToolResult show ?thesis by (auto simp: open_pairing_def push_result_def intro!: complete_append)
  next
    case waits
    with LToolResult have "pa_result (pair_message now m p) = pre @ LAssistant a # map LToolResult (rs @ [r])"
      "pa_pendingToolCalls (pair_message now m p) = tool_calls_of (am_content a)"
      "pa_existingToolResultIds (pair_message now m p) = tr_toolCallId ` set (rs @ [r])"
      by (simp_all add: push_result_def)
    with waits show ?thesis unfolding open_pairing_def by blast
  qed
qed

lemma pair_messages_open: "open_pairing p \<Longrightarrow> open_pairing (fold (pair_message now) ms p)"
  by (induction ms arbitrary: p) (simp_all add: pair_message_open)

lemma pair_results_complete: "complete (pair_results now ms)"
proof -
  have "open_pairing (fold (pair_message now) ms \<lparr>pa_result = [], pa_pendingToolCalls = [], pa_existingToolResultIds = {}\<rparr>)"
    by (rule pair_messages_open) (simp add: open_pairing_def)
  from insert_completes [OF this] show ?thesis by (simp add: pair_results_def)
qed

section \<open>Nothing else is added, and only failed responses are dropped\<close>

fun sent :: "llm_message \<Rightarrow> bool" where
  "sent (LAssistant m) \<longleftrightarrow> \<not> is_failed m"
| "sent _ \<longleftrightarrow> True"

definition calls_in :: "llm_message list \<Rightarrow> tool_call set" where
  "calls_in ms = {tc. \<exists>m. LAssistant m \<in> set ms \<and> tc \<in> set (tool_calls_of (am_content m))}"

definition pairing_of :: "llm_message list \<Rightarrow> pairing \<Rightarrow> bool" where
  "pairing_of ms p \<longleftrightarrow>
     subseq (filter sent ms) (pa_result p) \<and> set (pa_pendingToolCalls p) \<subseteq> calls_in ms
     \<and> (\<forall>m \<in> set (pa_result p). m \<in> set ms \<or> (\<exists>tc \<in> calls_in ms. \<exists>t. m = synthetic_result tc t))"

lemma calls_in_mono: "set ms \<subseteq> set ms' \<Longrightarrow> calls_in ms \<subseteq> calls_in ms'"
  by (auto simp: calls_in_def)

lemma calls_in_snoc: "tc \<in> calls_in ms \<Longrightarrow> tc \<in> calls_in (ms @ [m])"
  by (auto simp: calls_in_def)

lemma pairing_of_mono:
  assumes "pairing_of ms p" "sent m \<Longrightarrow> False"
  shows "pairing_of (ms @ [m]) p"
  using assms calls_in_snoc unfolding pairing_of_def by fastforce

lemma insert_pairing_of:
  assumes "pairing_of ms p"
  shows "pairing_of ms (insertSyntheticToolResults now p)"
proof (cases "pa_pendingToolCalls p = []")
  case False
  obtain ss where ss: "fold (push_missing now (pa_existingToolResultIds p)) (pa_pendingToolCalls p) (pa_result p)
      = pa_result p @ map LToolResult ss"
    "\<forall>s \<in> set ss. \<exists>tc \<in> set (pa_pendingToolCalls p). \<exists>t. LToolResult s = synthetic_result tc t"
    using push_missing_all by metis
  have "m \<in> set ms \<or> (\<exists>tc \<in> calls_in ms. \<exists>t. m = synthetic_result tc t)"
    if "m \<in> set (pa_result p @ map LToolResult ss)" for m
    using that assms ss(2) unfolding pairing_of_def by auto blast
  moreover have "subseq (filter sent ms) (pa_result p @ map LToolResult ss)"
    using assms by (auto simp: pairing_of_def intro: subseq_order.trans)
  ultimately show ?thesis
    using False by (simp add: insertSyntheticToolResults_def ss(1) pairing_of_def)
qed (use assms in \<open>simp add: insertSyntheticToolResults_def\<close>)

lemma push_pairing_of:
  assumes "pairing_of ms p" "sent m" "set cs \<subseteq> calls_in (ms @ [m])"
  shows "pairing_of (ms @ [m]) (push_result m (p\<lparr>pa_pendingToolCalls := cs, pa_existingToolResultIds := ex\<rparr>))"
proof -
  have "\<forall>x \<in> set (pa_result p @ [m]). x \<in> set (ms @ [m]) \<or> (\<exists>tc \<in> calls_in (ms @ [m]). \<exists>t. x = synthetic_result tc t)"
    using assms(1) calls_in_snoc unfolding pairing_of_def by fastforce
  moreover have "subseq (filter sent (ms @ [m])) (pa_result p @ [m])"
    using assms(1,2) by (simp add: pairing_of_def list_emb_append_mono)
  ultimately show ?thesis using assms(3) by (simp add: pairing_of_def push_result_def)
qed

lemma pair_message_of:
  assumes "pairing_of ms p"
  shows "pairing_of (ms @ [m]) (pair_message now m p)"
proof (cases m)
  case (LUser u)
  note q = insert_pairing_of [OF assms, of now]
  let ?q = "insertSyntheticToolResults now p"
  have "set (pa_pendingToolCalls ?q) \<subseteq> calls_in (ms @ [m])"
    using q calls_in_mono [of ms "ms @ [m]"] by (auto simp: pairing_of_def)
  from push_pairing_of [OF q _ this, of "pa_existingToolResultIds ?q"] LUser show ?thesis by simp
next
  case (LAssistant a)
  note q = insert_pairing_of [OF assms, of now]
  let ?q = "insertSyntheticToolResults now p"
  show ?thesis
  proof (cases "is_failed a")
    case True
    with pairing_of_mono [OF q, of m] LAssistant show ?thesis by simp
  next
    case False
    then have s: "sent m" by (simp add: LAssistant)
    have old: "set (pa_pendingToolCalls ?q) \<subseteq> calls_in (ms @ [m])"
      using q calls_in_mono [of ms "ms @ [m]"] by (auto simp: pairing_of_def)
    have "set (tool_calls_of (am_content a)) \<subseteq> calls_in (ms @ [m])" by (auto simp: calls_in_def LAssistant)
    from push_pairing_of [OF q s this, of "{}"] push_pairing_of [OF q s old, of "pa_existingToolResultIds ?q"] False LAssistant
    show ?thesis by (simp add: Let_def)
  qed
next
  case (LToolResult r)
  have "set (pa_pendingToolCalls p) \<subseteq> calls_in (ms @ [m])"
    using assms calls_in_mono [of ms "ms @ [m]"] by (auto simp: pairing_of_def)
  from push_pairing_of [OF assms _ this, of "insert (tr_toolCallId r) (pa_existingToolResultIds p)"] LToolResult
  show ?thesis by simp
qed

lemma pair_messages_of: "pairing_of before p \<Longrightarrow> pairing_of (before @ ms) (fold (pair_message now) ms p)"
proof (induction ms arbitrary: before p)
  case (Cons m ms)
  from Cons.IH [OF pair_message_of [OF Cons.prems]] show ?case by simp
qed simp

lemma pair_results_of:
  "subseq (filter sent ms) (pair_results now ms)"
  "m \<in> set (pair_results now ms) \<Longrightarrow> m \<in> set ms \<or> (\<exists>tc \<in> calls_in ms. \<exists>t. m = synthetic_result tc t)"
proof -
  have "pairing_of ([] @ ms) (fold (pair_message now) ms \<lparr>pa_result = [], pa_pendingToolCalls = [], pa_existingToolResultIds = {}\<rparr>)"
    by (rule pair_messages_of) (simp add: pairing_of_def)
  from insert_pairing_of [OF this, of now]
  have "pairing_of ms \<lparr>pa_result = pair_results now ms, pa_pendingToolCalls = [], pa_existingToolResultIds = {}\<rparr>"
    by (simp add: pair_results_def pairing_of_def)
  then show "subseq (filter sent ms) (pair_results now ms)"
    "m \<in> set (pair_results now ms) \<Longrightarrow> m \<in> set ms \<or> (\<exists>tc \<in> calls_in ms. \<exists>t. m = synthetic_result tc t)"
    by (auto simp: pairing_of_def)
qed

section \<open>A complete conversation is left alone\<close>

definition settled :: "pairing \<Rightarrow> llm_message list \<Rightarrow> bool" where
  "settled p ms \<longleftrightarrow>
     tc_id ` set (pa_pendingToolCalls p) \<subseteq> pa_existingToolResultIds p \<union> tr_toolCallId ` set (results_after ms)"

lemma push_none_missing: "tc_id ` set tcs \<subseteq> ex \<Longrightarrow> fold (push_missing now ex) tcs result = result"
  by (induction tcs) (auto simp: push_missing_def)

lemma insert_settled:
  assumes "settled p ms" "results_after ms = []"
  shows "pa_result (insertSyntheticToolResults now p) = pa_result p"
    "pa_pendingToolCalls (insertSyntheticToolResults now p) = []"
  using assms push_none_missing by (auto simp: insertSyntheticToolResults_def settled_def)

lemma pair_messages_complete:
  "complete ms \<Longrightarrow> settled p ms \<Longrightarrow>
     pa_result (insertSyntheticToolResults now (fold (pair_message now) ms p)) = pa_result p @ ms"
proof (induction ms arbitrary: p)
  case Nil
  then show ?case by (simp add: insert_settled)
next
  case (Cons m ms)
  show ?case
  proof (cases m)
    case (LUser u)
    note i = insert_settled [OF Cons.prems(2), of now]
    have "settled (pair_message now m p) ms" "pa_result (pair_message now m p) = pa_result p @ [m]"
      using i by (simp_all add: LUser settled_def push_result_def)
    with Cons.IH [of "pair_message now m p"] Cons.prems(1) LUser show ?thesis by simp
  next
    case (LAssistant a)
    note i = insert_settled [OF Cons.prems(2), of now]
    from Cons.prems(1) have a: "\<not> is_failed a" "has_results a (results_after ms)" "complete ms" by (simp_all add: LAssistant)
    have "settled (pair_message now m p) ms" "pa_result (pair_message now m p) = pa_result p @ [m]"
      using i a(1,2) by (auto simp: LAssistant settled_def push_result_def Let_def has_results_def)
    with Cons.IH [of "pair_message now m p"] a(3) show ?thesis by simp
  next
    case (LToolResult r)
    have "settled (pair_message now m p) ms" "pa_result (pair_message now m p) = pa_result p @ [m]"
      using Cons.prems(2) by (auto simp: LToolResult settled_def push_result_def)
    with Cons.IH [of "pair_message now m p"] Cons.prems(1) LToolResult show ?thesis by simp
  qed
qed

lemma pair_results_same: "complete ms \<Longrightarrow> pair_results now ms = ms"
  unfolding pair_results_def by (subst pair_messages_complete) (simp_all add: settled_def)

end
