(* ===== verification/Message_Sending.thy ===== *)
theory Message_Sending
  imports Message_Pairing
begin

text \<open>
  The two passes of \<open>transformMessages\<close> together: ids of calls and of their results change alike, images are
  left out for models without sight.
\<close>

section \<open>Ids change alike\<close>

definition final_id :: "target_model \<Rightarrow> normalizer option \<Rightarrow> assistant_message \<Rightarrow> jsstring \<Rightarrow> jsstring" where
  "final_id model norm_id m i =
     (case (if isSameModel model m then None else norm_id) of None \<Rightarrow> i | Some f \<Rightarrow> f i model m)"

text \<open>One function gives the ids of all responses, and none of them is empty.\<close>

definition ids_agree ::
    "target_model \<Rightarrow> normalizer option \<Rightarrow> (jsstring \<Rightarrow> jsstring) \<Rightarrow> llm_message list \<Rightarrow> bool" where
  "ids_agree model norm_id g ms \<longleftrightarrow>
     (\<forall>m. LAssistant m \<in> set ms \<longrightarrow>
        (\<forall>tc \<in> set (tool_calls_of (am_content m)). final_id model norm_id m (tc_id tc) = g (tc_id tc) \<and> g (tc_id tc) \<noteq> []))"

text \<open>The map has what was changed among the ids seen.\<close>

definition map_agrees :: "(jsstring \<Rightarrow> jsstring) \<Rightarrow> jsstring set \<Rightarrow> id_map \<Rightarrow> bool" where
  "map_agrees g S idMap \<longleftrightarrow>
     (\<forall>i. idMap i = None \<or> idMap i = Some (g i) \<and> g i \<noteq> []) \<and> (\<forall>i \<in> S. idMap i = None \<longrightarrow> g i = i)"

lemma transform_call_agrees:
  assumes "transform_call model norm_id m tc idMap = (tc', idMap')" "map_agrees g S idMap"
    and "final_id model norm_id m (tc_id tc) = g (tc_id tc)" "g (tc_id tc) \<noteq> []"
  shows "tc_id tc' = g (tc_id tc) \<and> map_agrees g (insert (tc_id tc) S) idMap'"
proof -
  have add: "map_agrees g (insert i S) (idMap(i \<mapsto> g i))" if "g i \<noteq> []" for i
    using assms(2) that by (simp add: map_agrees_def)
  have old: "map_agrees g (insert i S) idMap" if "g i = i" for i
    using assms(2) that by (simp add: map_agrees_def)
  show ?thesis
    using assms(1,3,4) add old by (auto simp: transform_call_def final_id_def Let_def split: option.splits if_splits)
qed

lemma tool_calls_append [simp]: "tool_calls_of (xs @ ys) = tool_calls_of xs @ tool_calls_of ys"
  by (simp add: tool_calls_of_def map_filter_append)

lemma thinking_no_calls [simp]: "tool_calls_of (transform_thinking same t sig redacted) = []"
  by (simp add: transform_thinking_def tool_calls_of_def)

lemma transform_blocks_agrees:
  "transform_blocks model norm_id m bs idMap = (bs', idMap') \<Longrightarrow> map_agrees g S idMap \<Longrightarrow>
     \<forall>tc \<in> set (tool_calls_of bs). final_id model norm_id m (tc_id tc) = g (tc_id tc) \<and> g (tc_id tc) \<noteq> [] \<Longrightarrow>
     map tc_id (tool_calls_of bs') = map (g \<circ> tc_id) (tool_calls_of bs)
     \<and> map_agrees g (tc_id ` set (tool_calls_of bs) \<union> S) idMap'"
proof (induction bs arbitrary: bs' idMap S)
  case Nil
  then show ?case by (simp add: tool_calls_of_def)
next
  case (Cons b bs)
  show ?case
  proof (cases b)
    case (AToolCall tc)
    obtain tc' m1 where t: "transform_call model norm_id m tc idMap = (tc', m1)" by fastforce
    obtain cs where cs: "transform_blocks model norm_id m bs m1 = (cs, idMap')" "bs' = AToolCall tc' # cs"
      using Cons.prems(1) by (auto simp: AToolCall t split: prod.splits)
    have "tc_id tc' = g (tc_id tc) \<and> map_agrees g (insert (tc_id tc) S) m1"
      using transform_call_agrees [OF t Cons.prems(2)] Cons.prems(3) by (simp add: AToolCall)
    with Cons.IH [OF cs(1), of "insert (tc_id tc) S"] Cons.prems(3) show ?thesis
      by (simp add: AToolCall cs(2))
  next
    case (AText t sig)
    with Cons show ?thesis by (auto split: prod.splits)
  next
    case (AThinking t sig r)
    with Cons show ?thesis by (auto split: prod.splits)
  qed
qed

definition renamed :: "id_map \<Rightarrow> tool_result_message \<Rightarrow> tool_result_message" where
  "renamed idMap r =
     (case truthy (idMap (tr_toolCallId r)) of Some i \<Rightarrow> r\<lparr>tr_toolCallId := i\<rparr> | None \<Rightarrow> r)"

lemma transform_result [simp]:
  "transform_message model norm_id (LToolResult r) idMap = (LToolResult (renamed idMap r), idMap)"
  by (auto simp: renamed_def split: option.splits)

declare transform_message.simps(2) [simp del]

lemma results_after_first_pass: "results_after (first_pass model norm_id ms idMap) = map (renamed idMap) (results_after ms)"
  by (induction ms rule: results_after.induct) (auto split: prod.splits)

lemma renamed_agrees: "map_agrees g S idMap \<Longrightarrow> tr_toolCallId r \<in> S \<Longrightarrow> tr_toolCallId (renamed idMap r) = g (tr_toolCallId r)"
  by (cases "idMap (tr_toolCallId r)") (auto simp: map_agrees_def renamed_def truthy_def dest: spec [of _ "tr_toolCallId r"])

lemma first_pass_complete:
  "complete ms \<Longrightarrow> ids_agree model norm_id g ms \<Longrightarrow> map_agrees g S idMap \<Longrightarrow> complete (first_pass model norm_id ms idMap)"
proof (induction ms arbitrary: S idMap)
  case (Cons x ms)
  have rest: "ids_agree model norm_id g ms" using Cons.prems(2) by (auto simp: ids_agree_def)
  show ?case
  proof (cases x)
    case (LUser u)
    with Cons rest show ?thesis by simp
  next
    case (LToolResult r)
    with Cons rest show ?thesis by simp
  next
    case (LAssistant m)
    obtain content m1 where t: "transform_blocks model norm_id m (am_content m) idMap = (content, m1)" by fastforce
    from LAssistant Cons.prems(1) have m: "\<not> is_failed m" "has_results m (results_after ms)" "complete ms" by simp_all
    have calls: "map tc_id (tool_calls_of content) = map (g \<circ> tc_id) (tool_calls_of (am_content m))"
      "map_agrees g (tc_id ` set (tool_calls_of (am_content m)) \<union> S) m1"
      using transform_blocks_agrees [OF t Cons.prems(3)] Cons.prems(2) LAssistant by (simp_all add: ids_agree_def)
    let ?ids = "tc_id ` set (tool_calls_of (am_content m))"
    have "g i \<in> tr_toolCallId ` set (map (renamed m1) (results_after ms))" if i: "i \<in> ?ids" for i
    proof -
      obtain r where r: "r \<in> set (results_after ms)" "tr_toolCallId r = i"
        using m(2) i by (auto simp: has_results_def)
      then have "tr_toolCallId (renamed m1 r) = g i" using renamed_agrees [OF calls(2)] i by simp
      with r(1) show ?thesis by (metis image_eqI image_set)
    qed
    moreover have "tc_id ` set (tool_calls_of content) = g ` ?ids"
      using arg_cong [OF calls(1), of set] by (simp add: image_comp)
    ultimately have "has_results (m\<lparr>am_content := content\<rparr>) (map (renamed m1) (results_after ms))"
      unfolding has_results_def by (auto simp del: set_map)
    moreover have "complete (first_pass model norm_id ms m1)" by (rule Cons.IH [OF m(3) rest calls(2)])
    ultimately show ?thesis
      using m(1) by (simp add: LAssistant t results_after_first_pass is_failed_def)
  qed
qed simp

section \<open>Images\<close>

fun is_image :: "user_block \<Rightarrow> bool" where
  "is_image (ImageBlock _ _) \<longleftrightarrow> True"
| "is_image _ \<longleftrightarrow> False"

fun shows_image :: "llm_message \<Rightarrow> bool" where
  "shows_image (LUser m) \<longleftrightarrow> (case um_content m of UBlocks bs \<Rightarrow> list_ex is_image bs | UString _ \<Rightarrow> False)"
| "shows_image (LToolResult m) \<longleftrightarrow> list_ex is_image (tr_content m)"
| "shows_image (LAssistant m) \<longleftrightarrow> False"

lemma replace_no_images [simp]: "\<not> list_ex is_image (replace_images p prev bs)"
  by (induction p prev bs rule: replace_images.induct) simp_all

lemma downgraded_no_image: "\<not> shows_image (downgrade_message m)"
  by (cases m) (simp_all add: replaceImagesWithPlaceholder_def split: user_content.splits)



section \<open>Roles\<close>

fun role_of :: "llm_message \<Rightarrow> jsstring" where
  "role_of (LUser _) = js ''user''"
| "role_of (LAssistant _) = js ''assistant''"
| "role_of (LToolResult _) = js ''toolResult''"

lemma first_pass_roles: "map role_of (first_pass model norm_id ms idMap) = map role_of ms"
proof (induction ms arbitrary: idMap)
  case (Cons m ms)
  show ?case by (cases m) (auto simp: Cons split: prod.splits)
qed simp

lemma downgrade_message_simps [simp]:
  "role_of (downgrade_message m) = role_of m" "downgrade_message m = LAssistant a \<longleftrightarrow> m = LAssistant a"
  "LAssistant a = downgrade_message m \<longleftrightarrow> m = LAssistant a"
  by (cases m; auto split: user_content.splits)+

lemma complete_downgrade: "complete (map downgrade_message ms) = complete ms"
proof -
  have r: "map tr_toolCallId (results_after (map downgrade_message ms)) = map tr_toolCallId (results_after ms)" for ms
    by (induction ms rule: results_after.induct) (auto split: user_content.splits)
  have "tr_toolCallId ` set (results_after (map downgrade_message ms)) = tr_toolCallId ` set (results_after ms)" for ms
    using arg_cong [OF r, of set] by simp
  then have h: "has_results m (results_after (map downgrade_message ms)) = has_results m (results_after ms)" for m ms
    by (simp add: has_results_def)
  show ?thesis by (induction ms rule: complete.induct) (auto simp: h split: user_content.splits)
qed

lemma downgraded:
  "complete (downgradeUnsupportedImages ms model) = complete ms"
  "map role_of (downgradeUnsupportedImages ms model) = map role_of ms"
  "ids_agree model norm_id g (downgradeUnsupportedImages ms model) = ids_agree model norm_id g ms"
  "js ''image'' \<notin> set (tm_input model) \<Longrightarrow> m \<in> set (downgradeUnsupportedImages ms model) \<Longrightarrow> \<not> shows_image m"
  by (auto simp: downgradeUnsupportedImages_def complete_downgrade ids_agree_def downgraded_no_image image_iff)

section \<open>What is sent\<close>


text \<open>C33 A complete conversation is sent whole: when every call has its result right after it, no response failed and the
  ids are normalised by one function, message by message the same roles are sent, no result is made up, and every result still
  answers its call.\<close>

theorem complete_conversation_sent_whole:
  assumes "complete messages" "ids_agree model norm_id g messages"
  shows "transformMessages now messages model norm_id
      = transformed model norm_id messages
    \<and> map role_of (transformMessages now messages model norm_id) = map role_of messages
    \<and> complete (transformMessages now messages model norm_id)"
proof -
  have "complete (transformed model norm_id messages)"
    unfolding transformed_def by (rule first_pass_complete [where g = g and S = "{}"]) (simp_all add: downgraded assms map_agrees_def)
  from pair_results_same [OF this] this show ?thesis
    by (simp add: transformMessages_def transformed_def first_pass_roles downgraded)
qed

definition demo_target :: target_model where
  "demo_target = \<lparr>tm_provider = js ''anthropic'', tm_api = js ''anthropic-messages'', tm_id = js ''model'', tm_input = [js ''text'']\<rparr>"

definition demo_foreign :: "stop_reason \<Rightarrow> assistant_message" where
  "demo_foreign stop = \<lparr>am_content = [AThinking (js ''look'') None None, AToolCall \<lparr>tc_id = js ''call|1'', tc_name = js ''read'',
       tc_arguments = JNull, tc_thoughtSignature = None\<rparr>],
     am_api = js ''openai-responses'', am_provider = js ''openai'', am_model = js ''other'', am_responseModel = None,
     am_responseId = None, am_diagnostics = None, am_usage = EMPTY_USAGE, am_stopReason = stop,
     am_errorMessage = None, am_timestamp = 1\<rparr>"

definition demo_conversation :: "llm_message list" where
  "demo_conversation =
     [LUser \<lparr>um_content = UBlocks [ImageBlock (js ''data'') (js ''image/png'')], um_timestamp = 0\<rparr>,
      LAssistant (demo_foreign ToolUseR),
      LToolResult \<lparr>tr_toolCallId = js ''call|1'', tr_toolName = js ''read'', tr_content = [], tr_details = None,
        tr_isError = False, tr_timestamp = 2\<rparr>]"

definition demo_normalizer :: normalizer where
  "demo_normalizer i model m = map (\<lambda>c. if c = 124 then 95 else c) i"

theorem complete_conversation_sent_whole_witness:
  "map role_of (transformMessages (\<lambda>_. 9) demo_conversation demo_target (Some demo_normalizer)) = map role_of demo_conversation
   \<and> map tr_toolCallId (results_after (drop 2 (transformMessages (\<lambda>_. 9) demo_conversation demo_target (Some demo_normalizer))))
     = [js ''call_1'']"
proof -
  have "complete demo_conversation"
    by (simp add: demo_conversation_def demo_foreign_def is_failed_def has_results_def tool_calls_of_def)
  moreover have "ids_agree demo_target (Some demo_normalizer) (\<lambda>i. map (\<lambda>c. if c = 124 then 95 else c) i) demo_conversation"
    by (auto simp: ids_agree_def demo_conversation_def demo_foreign_def tool_calls_of_def final_id_def isSameModel_def
        demo_target_def demo_normalizer_def)
  ultimately have s: "transformMessages (\<lambda>_. 9) demo_conversation demo_target (Some demo_normalizer)
      = transformed demo_target (Some demo_normalizer) demo_conversation"
    "map role_of (transformMessages (\<lambda>_. 9) demo_conversation demo_target (Some demo_normalizer)) = map role_of demo_conversation"
    using complete_conversation_sent_whole by blast+
  have "map tr_toolCallId (results_after (drop 2 (transformed demo_target (Some demo_normalizer) demo_conversation)))
      = [js ''call_1'']"
    by code_simp
  with s show ?thesis by simp
qed

text \<open>Interrupted: a user message between a call and its result makes the result come twice.\<close>

lemma late_result_comes_twice:
  "map role_of (transformMessages (\<lambda>_. 9) (take 2 demo_conversation @ take 1 demo_conversation @ drop 2 demo_conversation)
     demo_target None) = map js [''user'', ''assistant'', ''toolResult'', ''user'', ''toolResult'']"
  by code_simp



end
