(* ===== verification/Json_Text.thy ===== *)
theory Json_Text
  imports Js_Prelude "HOL-Library.AList"
begin

text \<open>
  JSON text: \<open>JSON.parse\<close> of the language, and the repair of what models write for JSON,
  \<open>packages/ai/src/utils/json-parse.ts\<close>. Numbers are kept as they are written. The parser of
  incomplete JSON is a third-party package and a parameter.
\<close>

section \<open>JSON.parse\<close>

definition is_json_space :: "16 word \<Rightarrow> bool" where
  "is_json_space c \<longleftrightarrow> c = 9 \<or> c = 10 \<or> c = 13 \<or> c = 32"

definition skip_space :: "jsstring \<Rightarrow> jsstring" where
  "skip_space = dropWhile is_json_space"

definition hex_value :: "16 word \<Rightarrow> nat option" where
  "hex_value c =
     (if 48 \<le> c \<and> c \<le> 57 then Some (unat c - 48)
      else if 97 \<le> c \<and> c \<le> 102 then Some (unat c - 87)
      else if 65 \<le> c \<and> c \<le> 70 then Some (unat c - 55) else None)"

fun hex_unit :: "jsstring \<Rightarrow> 16 word option" where
  "hex_unit [a, b, c, d] =
     (case (hex_value a, hex_value b, hex_value c, hex_value d) of
        (Some x, Some y, Some z, Some w) \<Rightarrow> Some (of_nat (4096 * x + 256 * y + 16 * z + w))
      | _ \<Rightarrow> None)"
| "hex_unit _ = None"

text \<open>The escapes of one letter.\<close>

definition simple_escape :: "16 word \<Rightarrow> 16 word option" where
  "simple_escape = map_of [(34, 34), (92, 92), (47, 47), (98, 8), (102, 12), (110, 10), (114, 13), (116, 9)]"

text \<open>A string after its opening quote: its value and what follows the closing quote.\<close>

function string_rest :: "jsstring \<Rightarrow> (jsstring \<times> jsstring) option" where
  "string_rest [] = None"
| "string_rest (c # cs) =
     (if c = 34 then Some ([], cs)
      else if c = 92
      then (case cs of
              [] \<Rightarrow> None
            | e # r \<Rightarrow>
                (if e = 117
                 then (case hex_unit (take 4 r) of
                         None \<Rightarrow> None
                       | Some u \<Rightarrow> map_option (apfst ((#) u)) (string_rest (drop 4 r)))
                 else
                   (case simple_escape e of
                      None \<Rightarrow> None
                    | Some u \<Rightarrow> map_option (apfst ((#) u)) (string_rest r))))
      else if c < 32 then None
      else map_option (apfst ((#) c)) (string_rest cs))"
  by pat_completeness auto
termination
  by (relation "measure length") auto

definition is_dec_digit :: "16 word \<Rightarrow> bool" where
  "is_dec_digit c \<longleftrightarrow> 48 \<le> c \<and> c \<le> 57"

text \<open>The parts of a number: sign, integer, fraction, exponent. A part that is not there is empty.\<close>

definition sign_part :: "jsstring \<Rightarrow> jsstring \<times> jsstring" where
  "sign_part s = (case s of c # r \<Rightarrow> if c = 45 then ([45], r) else ([], s) | [] \<Rightarrow> ([], s))"

definition int_part :: "jsstring \<Rightarrow> jsstring \<times> jsstring" where
  "int_part s =
     (case s of c # r \<Rightarrow> if c = 48 then ([48], r) else (takeWhile is_dec_digit s, dropWhile is_dec_digit s) | [] \<Rightarrow> ([], []))"

definition frac_part :: "jsstring \<Rightarrow> jsstring \<times> jsstring" where
  "frac_part s =
     (case s of
        c # r \<Rightarrow> if c = 46 \<and> takeWhile is_dec_digit r \<noteq> []
                 then (46 # takeWhile is_dec_digit r, dropWhile is_dec_digit r) else ([], s)
      | [] \<Rightarrow> ([], s))"

definition exp_part :: "jsstring \<Rightarrow> jsstring \<times> jsstring" where
  "exp_part s =
     (case s of
        c # r \<Rightarrow>
          (let (sg, r1) = (case r of d # q \<Rightarrow> if d = 43 \<or> d = 45 then ([d], q) else ([], r) | [] \<Rightarrow> ([], r))
           in if (c = 101 \<or> c = 69) \<and> takeWhile is_dec_digit r1 \<noteq> []
              then (c # sg @ takeWhile is_dec_digit r1, dropWhile is_dec_digit r1) else ([], s))
      | [] \<Rightarrow> ([], s))"

definition number_at :: "jsstring \<Rightarrow> (jsstring \<times> jsstring) option" where
  "number_at s =
     (let (a, s1) = sign_part s; (b, s2) = int_part s1; (c, s3) = frac_part s2; (d, s4) = exp_part s3
      in if b = [] then None else Some (a @ b @ c @ d, s4))"

fun literal_after :: "jsstring \<Rightarrow> jsstring \<Rightarrow> jsstring option" where
  "literal_after [] s = Some s"
| "literal_after (p # ps) [] = None"
| "literal_after (p # ps) (c # cs) = (if p = c then literal_after ps cs else None)"

text \<open>Values that do not nest.\<close>

definition parse_atom :: "jsstring \<Rightarrow> (json \<times> jsstring) option" where
  "parse_atom s =
     (case literal_after (js ''null'') s of
        Some r \<Rightarrow> Some (JNull, r)
      | None \<Rightarrow>
          (case literal_after (js ''true'') s of
             Some r \<Rightarrow> Some (JBool True, r)
           | None \<Rightarrow>
               (case literal_after (js ''false'') s of
                  Some r \<Rightarrow> Some (JBool False, r)
                | None \<Rightarrow> map_option (apfst JNum) (number_at s))))"

text \<open>
  A property that is given twice keeps its place and has the last value. Fuel bounds the depth of
  the calls; \<open>parse_fuel\<close> is always enough (\<open>Json_Roundtrip\<close>).
\<close>

definition object_of :: "(jsstring \<times> json) list \<Rightarrow> json" where
  "object_of kvs = JObj (foldl (\<lambda>m (k, v). AList.update k v m) [] kvs)"

fun parse_value :: "nat \<Rightarrow> jsstring \<Rightarrow> (json \<times> jsstring) option"
  and parse_items :: "nat \<Rightarrow> jsstring \<Rightarrow> (json list \<times> jsstring) option"
  and parse_members :: "nat \<Rightarrow> jsstring \<Rightarrow> ((jsstring \<times> json) list \<times> jsstring) option" where
  "parse_value 0 s = None"
| "parse_value (Suc n) s =
     (case skip_space s of
        [] \<Rightarrow> None
      | c # cs \<Rightarrow>
          (if c = 34 then map_option (apfst JStr) (string_rest cs)
           else if c = 91
           then (case skip_space cs of
                   d # r \<Rightarrow> if d = 93 then Some (JArr [], r) else map_option (apfst JArr) (parse_items n cs)
                 | [] \<Rightarrow> None)
           else if c = 123
           then (case skip_space cs of
                   d # r \<Rightarrow> if d = 125 then Some (JObj [], r) else map_option (apfst object_of) (parse_members n cs)
                 | [] \<Rightarrow> None)
           else parse_atom (c # cs)))"
| "parse_items 0 s = None"
| "parse_items (Suc n) s =
     (case parse_value n s of
        None \<Rightarrow> None
      | Some (v, r) \<Rightarrow>
          (case skip_space r of
             [] \<Rightarrow> None
           | c # cs \<Rightarrow>
               (if c = 44 then map_option (apfst ((#) v)) (parse_items n cs)
                else if c = 93 then Some ([v], cs) else None)))"
| "parse_members 0 s = None"
| "parse_members (Suc n) s =
     (case skip_space s of
        [] \<Rightarrow> None
      | q # cs \<Rightarrow>
          (if q \<noteq> 34 then None
           else
             (case string_rest cs of
                None \<Rightarrow> None
              | Some (k, r) \<Rightarrow>
                  (case skip_space r of
                     [] \<Rightarrow> None
                   | d # r1 \<Rightarrow>
                       (if d \<noteq> 58 then None
                        else
                          (case parse_value n r1 of
                             None \<Rightarrow> None
                           | Some (v, r2) \<Rightarrow>
                               (case skip_space r2 of
                                  [] \<Rightarrow> None
                                | e # r3 \<Rightarrow>
                                    (if e = 44 then map_option (apfst ((#) (k, v))) (parse_members n r3)
                                     else if e = 125 then Some ([(k, v)], r3) else None))))))))"

definition parse_fuel :: "jsstring \<Rightarrow> nat" where
  "parse_fuel s = 2 * length s + 1"

definition json_parse :: "jsstring \<Rightarrow> json option" where
  "json_parse s =
     (case parse_value (parse_fuel s) s of
        Some (v, r) \<Rightarrow> if skip_space r = [] then Some v else None
      | None \<Rightarrow> None)"

section \<open>Repair\<close>

definition VALID_JSON_ESCAPES :: "16 word list" where
  "VALID_JSON_ESCAPES = [34, 92, 47, 98, 102, 110, 114, 116, 117]"

definition isControlCharacter :: "16 word \<Rightarrow> bool" where
  "isControlCharacter c \<longleftrightarrow> c \<le> 0x1f"

definition escapeControlCharacter :: "16 word \<Rightarrow> jsstring" where
  "escapeControlCharacter c =
     (if c = 8 then [92, 98] else if c = 12 then [92, 102] else if c = 10 then [92, 110]
      else if c = 13 then [92, 114] else if c = 9 then [92, 116] else [92, 117] @ hex4 (unat c))"

text \<open>The loop, with \<open>inString\<close> and what is left of the text.\<close>

function repair_loop :: "bool \<Rightarrow> jsstring \<Rightarrow> jsstring" where
  "repair_loop inString [] = []"
| "repair_loop False (c # cs) = c # repair_loop (c = 34) cs"
| "repair_loop True (c # cs) =
     (if c = 34 then c # repair_loop False cs
      else if c = 92
      then (case cs of
              [] \<Rightarrow> [92, 92]
            | nextChar # r \<Rightarrow>
                (if nextChar = 117 \<and> hex_unit (take 4 r) \<noteq> None
                 then [92, 117] @ take 4 r @ repair_loop True (drop 4 r)
                 else if nextChar \<in> set VALID_JSON_ESCAPES then [92, nextChar] @ repair_loop True r
                 else [92, 92] @ repair_loop True cs))
      else (if isControlCharacter c then escapeControlCharacter c else [c]) @ repair_loop True cs)"
  by pat_completeness auto
termination
  by (relation "measure (\<lambda>(b, s). length s)") auto

definition repairJson :: "jsstring \<Rightarrow> jsstring" where
  "repairJson json = repair_loop False json"

definition parseJsonWithRepair :: "jsstring \<Rightarrow> json option" where
  "parseJsonWithRepair json =
     (case json_parse json of
        Some v \<Rightarrow> Some v
      | None \<Rightarrow>
          (let repairedJson = repairJson json
           in if repairedJson \<noteq> json then json_parse repairedJson else None))"

text \<open>\<open>partial\<close> is the parser of incomplete JSON: \<open>None\<close> when it throws, \<open>Some None\<close> for undefined.\<close>

definition or_empty :: "json option \<Rightarrow> json" where
  "or_empty v = (case v of None \<Rightarrow> JObj [] | Some JNull \<Rightarrow> JObj [] | Some j \<Rightarrow> j)"

definition parseStreamingJson :: "(jsstring \<Rightarrow> json option option) \<Rightarrow> jsstring option \<Rightarrow> json" where
  "parseStreamingJson partialParse partialJson =
     (case partialJson of
        None \<Rightarrow> JObj []
      | Some s \<Rightarrow>
          (if trim_js s = [] then JObj []
           else
             (case parseJsonWithRepair s of
                Some v \<Rightarrow> v
              | None \<Rightarrow>
                  (case partialParse s of
                     Some r \<Rightarrow> or_empty r
                   | None \<Rightarrow>
                       (case partialParse (repairJson s) of Some r \<Rightarrow> or_empty r | None \<Rightarrow> JObj [])))))"

end
