(* ===== verification/Json_Parsing.thy ===== *)
theory Json_Parsing
  imports Json_Text
begin

text \<open>
  The parser of \<open>Json_Text\<close>: its fuel is always enough, and it reads back what \<open>stringify\<close> writes.
\<close>

section \<open>A value takes up text\<close>

lemma skip_space_length [simp]: "length (skip_space s) \<le> length s"
  by (simp add: skip_space_def length_dropWhile_le)

lemma skip_space_Cons: "skip_space s = c # cs \<Longrightarrow> length cs < length s"
  using skip_space_length [of s] by (metis Suc_le_eq length_Cons)

lemma string_rest_length: "string_rest s = Some (k, r) \<Longrightarrow> length r < length s"
proof (induction s arbitrary: k r rule: length_induct)
  case (1 s)
  then have IH: "length t < length s \<Longrightarrow> string_rest t = Some (k', r') \<Longrightarrow> length r' < length s" for t k' r'
    using less_trans by blast
  obtain c cs where s: "s = c # cs" using 1(2) by (cases s) simp_all
  consider (close) "c = 34" | (escape) "c = 92" | (plain) "c \<noteq> 34" "c \<noteq> 92" by blast
  then show ?case
  proof cases
    case close
    with 1(2) show ?thesis by (simp add: s)
  next
    case escape
    with 1(2) obtain e q where cs: "cs = e # q" by (cases cs) (simp_all add: s)
    from 1(2) escape obtain k' where "string_rest q = Some (k', r) \<or> string_rest (drop 4 q) = Some (k', r)"
      by (auto simp: s cs split: if_splits option.splits)
    with IH [of q] IH [of "drop 4 q"] show ?thesis by (auto simp: s cs)
  next
    case plain
    with 1(2) obtain k' where "string_rest cs = Some (k', r)" by (auto simp: s split: if_splits)
    with IH [of cs] show ?thesis by (simp add: s)
  qed
qed

lemma number_parts:
  "sign_part s = (a, r) \<Longrightarrow> s = a @ r"
  "int_part s = (a, r) \<Longrightarrow> s = a @ r"
  "frac_part s = (a, r) \<Longrightarrow> s = a @ r"
  "exp_part s = (a, r) \<Longrightarrow> s = a @ r"
  by (auto simp: sign_part_def int_part_def frac_part_def exp_part_def Let_def split: list.splits if_splits)

lemma number_at_append:
  assumes "number_at s = Some (t, r)"
  shows "s = t @ r \<and> t \<noteq> []"
proof -
  obtain a s1 where a: "sign_part s = (a, s1)" by fastforce
  obtain b s2 where b: "int_part s1 = (b, s2)" by fastforce
  obtain c s3 where c: "frac_part s2 = (c, s3)" by fastforce
  obtain d s4 where d: "exp_part s3 = (d, s4)" by fastforce
  from number_parts(1) [OF a] number_parts(2) [OF b] number_parts(3) [OF c] number_parts(4) [OF d] assms a b c d
  show ?thesis by (auto simp: number_at_def split: if_splits)
qed

lemma literal_after_append: "literal_after p s = Some r \<Longrightarrow> s = p @ r"
  by (induction p s rule: literal_after.induct) (auto split: if_splits)

lemma parse_atom_length: "parse_atom s = Some (v, r) \<Longrightarrow> length r < length s"
  by (auto simp: parse_atom_def split: option.splits dest!: literal_after_append number_at_append)

lemma parse_length:
  "parse_value n s = Some (v, r) \<Longrightarrow> length r < length s"
  "parse_items n s = Some (vs, r) \<Longrightarrow> length r < length s"
  "parse_members n s = Some (kvs, r) \<Longrightarrow> length r < length s"
proof (induction n s and n s and n s arbitrary: v r and vs r and kvs r rule: parse_value_parse_items_parse_members.induct)
  case (2 n s)
  obtain c cs where c: "skip_space s = c # cs" using 2(3) by (cases "skip_space s") simp_all
  have l: "length cs < length s" by (rule skip_space_Cons [OF c])
  consider (str) "c = 34" | (arr) "c = 91" | (obj) "c = 123" | (atom) "c \<noteq> 34" "c \<noteq> 91" "c \<noteq> 123" by blast
  then show ?case
  proof cases
    case str
    with 2(3) c l string_rest_length show ?thesis by (fastforce dest: less_trans)
  next
    case arr
    with 2(3) c obtain d q where d: "skip_space cs = d # q" by (cases "skip_space cs") simp_all
    show ?thesis
    proof (cases "d = 93")
      case True
      with 2(3) arr c d l skip_space_Cons [OF d] show ?thesis by simp
    next
      case False
      with 2(3) arr c d obtain vs where "parse_items n cs = Some (vs, r)" by auto
      with 2(1) [OF c] arr d False l show ?thesis by fastforce
    qed
  next
    case obj
    with 2(3) c obtain d q where d: "skip_space cs = d # q" by (cases "skip_space cs") simp_all
    show ?thesis
    proof (cases "d = 125")
      case True
      with 2(3) obj c d l skip_space_Cons [OF d] show ?thesis by simp
    next
      case False
      with 2(3) obj c d obtain kvs where "parse_members n cs = Some (kvs, r)" by auto
      with 2(2) [OF c] obj d False l show ?thesis by fastforce
    qed
  next
    case atom
    with 2(3) c have "parse_atom (c # cs) = Some (v, r)" by simp
    from parse_atom_length [OF this] c skip_space_length [of s] show ?thesis by simp
  qed
next
  case (4 n s)
  then obtain x q where x: "parse_value n s = Some (x, q)" by (auto split: option.splits)
  have l: "length q < length s" by (rule 4(1) [OF x])
  obtain c cs where c: "skip_space q = c # cs" using 4(3) x by (cases "skip_space q") auto
  note l2 = skip_space_Cons [OF c]
  show ?case
  proof (cases "c = 44")
    case True
    with 4(3) x c obtain ws where "parse_items n cs = Some (ws, r)" by auto
    with 4(2) [OF x refl c True] l l2 show ?thesis by fastforce
  next
    case False
    with 4(3) x c l l2 show ?thesis by (auto split: if_splits)
  qed
next
  case (6 n s)
  then obtain cs where q: "skip_space s = 34 # cs" by (auto split: list.splits if_splits)
  then obtain k r0 where k: "string_rest cs = Some (k, r0)" using 6(3) by (auto split: option.splits)
  then obtain r1 where r1: "skip_space r0 = 58 # r1" using 6(3) q by (auto split: list.splits if_splits)
  then obtain x r2 where x: "parse_value n r1 = Some (x, r2)" using 6(3) q k by (auto split: option.splits)
  obtain e r3 where e: "skip_space r2 = e # r3" using 6(3) q k r1 x by (cases "skip_space r2") auto
  have l: "length r3 < length s"
    using skip_space_Cons [OF q] string_rest_length [OF k] skip_space_Cons [OF r1] skip_space_Cons [OF e]
      6(1) [OF q _ k refl r1 _ x] by simp
  show ?case
  proof (cases "e = 44")
    case True
    with 6(3) q k r1 x e obtain ws where "parse_members n r3 = Some (ws, r)" by auto
    with 6(2) [OF q _ k refl r1 _ x refl e True] l show ?thesis by fastforce
  next
    case False
    with 6(3) q k r1 x e l show ?thesis by (auto split: if_splits)
  qed
qed simp_all

section \<open>Fuel\<close>

lemma parse_same:
  "length s \<le> k \<Longrightarrow> 2 * length s + 1 \<le> m \<Longrightarrow> 2 * length s + 1 \<le> n \<Longrightarrow> parse_value m s = parse_value n s"
  "length s \<le> k \<Longrightarrow> 2 * length s + 2 \<le> m \<Longrightarrow> 2 * length s + 2 \<le> n \<Longrightarrow> parse_items m s = parse_items n s"
  "length s \<le> k \<Longrightarrow> 2 * length s + 2 \<le> m \<Longrightarrow> 2 * length s + 2 \<le> n \<Longrightarrow> parse_members m s = parse_members n s"
proof (induction k arbitrary: s m n rule: less_induct)
  case (less k)
  have value_same: "parse_value m s = parse_value n s"
    if "length s \<le> k" "2 * length s + 1 \<le> m" "2 * length s + 1 \<le> n" for s m n
  proof -
    from that obtain m' n' where mn: "m = Suc m'" "n = Suc n'" by (metis Suc_le_D add.commute plus_1_eq_Suc)
    show ?thesis
    proof (cases "skip_space s")
      case (Cons c cs)
      with that skip_space_Cons [OF Cons] have "length cs < k" "2 * length cs + 2 \<le> m'" "2 * length cs + 2 \<le> n'"
        by (simp_all add: mn)
      with less.IH(2,3) [of "length cs" cs m' n'] Cons show ?thesis by (simp add: mn split: list.splits)
    qed (simp add: mn)
  qed
  { case 1 then show ?case by (rule value_same) }
  { case 2
    then obtain m' n' where mn: "m = Suc m'" "n = Suc n'" by (metis Suc_le_D add_2_eq_Suc')
    have v: "parse_value m' s = parse_value n' s" using 2 by (intro value_same) (simp_all add: mn)
    show ?case
    proof (cases "parse_value n' s")
      case (Some p)
      then obtain x q where x: "parse_value n' s = Some (x, q)" by (cases p) simp
      have "parse_items m' cs = parse_items n' cs" if "skip_space q = c # cs" for c cs
        using less.IH(2) [of "length cs" cs m' n'] parse_length(1) [OF x] skip_space_Cons [OF that] 2 by (simp add: mn)
      with x v show ?thesis by (simp add: mn split: list.splits)
    qed (simp add: mn v) }
  { case 3
    then obtain m' n' where mn: "m = Suc m'" "n = Suc n'" by (metis Suc_le_D add_2_eq_Suc')
    have members: "parse_members m' r3 = parse_members n' r3"
      if "skip_space s = 34 # cs" "string_rest cs = Some (key, r)" "skip_space r = 58 # r1" "parse_value n' r1 = Some (x, r2)"
        "skip_space r2 = e # r3" for cs key r r1 x r2 e r3
      using less.IH(3) [of "length r3" r3 m' n'] skip_space_Cons [OF that(1)] string_rest_length [OF that(2)]
        skip_space_Cons [OF that(3)] parse_length(1) [OF that(4)] skip_space_Cons [OF that(5)] 3 by (simp add: mn)
    have vals: "parse_value m' r1 = parse_value n' r1"
      if "skip_space s = 34 # cs" "string_rest cs = Some (key, r)" "skip_space r = 58 # r1" for cs key r r1
      using skip_space_Cons [OF that(1)] string_rest_length [OF that(2)] skip_space_Cons [OF that(3)] 3
      by (intro value_same) (simp_all add: mn)
    show ?case
      unfolding mn parse_members.simps
      by (intro list.case_cong option.case_cong prod.case_cong if_cong refl arg_cong [of _ _ "map_option _"])
        (auto simp: vals dest: members) }
qed

lemma parse_enough:
  assumes "\<And>n. N \<le> n \<Longrightarrow> parse_value n s = Some (v, [])"
  shows "json_parse s = Some v"
proof -
  have "parse_value (parse_fuel s) s = parse_value (max N (parse_fuel s)) s"
    by (rule parse_same(1) [of s "length s"]) (simp_all add: parse_fuel_def)
  also have "\<dots> = Some (v, [])" by (rule assms) simp
  finally show ?thesis by (simp add: json_parse_def skip_space_def)
qed

section \<open>Strings\<close>

lemma hex_value_digit:
  assumes "d < 16"
  shows "hex_value (of_char (''0123456789abcdef'' ! d)) = Some d"
proof -
  have "list_all (\<lambda>d. hex_value (of_char (''0123456789abcdef'' ! d)) = Some d) [0..<16]" by code_simp
  with assms show ?thesis by (simp add: list_all_iff)
qed

lemma hex4_length [simp]: "length (hex4 n) = 4"
  by (simp add: hex4_def)

lemma hex_digits:
  assumes "n < 65536"
  shows "4096 * (n div 4096 mod 16) + 256 * (n div 256 mod 16) + 16 * (n div 16 mod 16) + n mod 16 = (n :: nat)"
proof -
  have e: "4096 * c + 256 * x + 16 * y + z = 16 * (16 * (16 * c + x) + y) + z" for c x y z :: nat
    by simp
  have "n div 256 = n div 16 div 16" "n div 4096 = n div 16 div 16 div 16" by (simp_all add: div_mult2_eq [symmetric])
  moreover have "n div 4096 mod 16 = n div 4096" using assms by (simp add: less_mult_imp_div_less)
  ultimately show ?thesis by (simp only: e mult_div_mod_eq)
qed

lemma hex4_digits:
  "hex4 n = [of_char (''0123456789abcdef'' ! (n div 4096 mod 16)), of_char (''0123456789abcdef'' ! (n div 256 mod 16)),
     of_char (''0123456789abcdef'' ! (n div 16 mod 16)), of_char (''0123456789abcdef'' ! (n mod 16))]"
  by (simp add: hex4_def Let_def del: nth_Cons')

lemma hex_unit_hex4:
  assumes "n < 65536"
  shows "hex_unit (hex4 n) = Some (of_nat n)"
proof -
  have "hex_value (of_char (''0123456789abcdef'' ! (m mod 16))) = Some (m mod 16)" for m
    by (rule hex_value_digit) simp
  then show ?thesis
    unfolding hex4_digits hex_unit.simps using hex_digits [OF assms] by (simp only: option.case prod.case)
qed

lemma unat16 [simp]: "unat (u :: 16 word) < 65536"
  using unsigned_less [of u] by simp

lemma string_rest_escape [simp]:
  "string_rest (92 # 117 # hex4 (unat u) @ r) = map_option (apfst ((#) u)) (string_rest r)"
  by (simp add: hex_unit_hex4)

lemma string_rest_quote_unit: "string_rest (quote_unit u @ r) = map_option (apfst ((#) u)) (string_rest r)"
  by (simp add: quote_unit_def js_def simple_escape_def del: string_rest.simps(2)) (simp add: simple_escape_def)

lemma string_rest_quoted: "string_rest (quote_units s @ 34 # r) = Some (s, r)"
proof (induction s rule: quote_units.induct)
  case (2 u us)
  have surrogate: "\<not> u < 32 \<and> u \<noteq> 34 \<and> u \<noteq> 92" if "is_high_surrogate u \<or> is_low_surrogate u" for u
    using that by (auto simp: is_high_surrogate_def is_low_surrogate_def word_less_nat_alt word_le_nat_alt)
  consider (pair) l rest where "is_high_surrogate u" "us = l # rest" "is_low_surrogate l"
    | (alone) "\<not> (is_high_surrogate u \<and> us \<noteq> [] \<and> is_low_surrogate (hd us))" "is_high_surrogate u \<or> is_low_surrogate u"
    | (other) "\<not> (is_high_surrogate u \<or> is_low_surrogate u)"
    by (cases us) auto
  then show ?case
  proof cases
    case pair
    with 2(1) surrogate [of u] surrogate [of l] show ?thesis by simp
  next
    case alone
    then have "quote_units (u # us) = 92 # 117 # hex4 (unat u) @ quote_units us" by (simp only: quote_units.simps if_False) (simp add: js_def)
    with 2(2) [OF alone] show ?thesis by (simp del: string_rest.simps(2) quote_units.simps)
  next
    case other
    with 2(3) string_rest_quote_unit show ?thesis by simp
  qed
qed simp

end
