(* ===== verification/Json_Roundtrip.thy ===== *)
theory Json_Roundtrip
  imports Json_Parsing
begin

text \<open>What \<open>stringify\<close> writes, \<open>json_parse\<close> reads back.\<close>

section \<open>Numbers before what may follow them\<close>

definition stops :: "jsstring \<Rightarrow> bool" where
  "stops r \<longleftrightarrow> (case r of [] \<Rightarrow> True | c # _ \<Rightarrow> c = 44 \<or> c = 93 \<or> c = 125)"

lemma stops_simps [simp]: "stops []" "stops (44 # r)" "stops (93 # r)" "stops (125 # r)"
  by (simp_all add: stops_def)

lemma stops_cases: "stops r \<Longrightarrow> r = [] \<or> (\<exists>c q. r = c # q \<and> (c = 44 \<or> c = 93 \<or> c = 125))"
  by (auto simp: stops_def split: list.splits)

lemma stops_digit: "stops r \<Longrightarrow> takeWhile is_dec_digit (xs @ r) = takeWhile is_dec_digit xs
    \<and> dropWhile is_dec_digit (xs @ r) = dropWhile is_dec_digit xs @ r"
proof (induction xs)
  case Nil
  then show ?case by (auto dest!: stops_cases simp: is_dec_digit_def)
qed simp

lemma parts_before:
  assumes "stops r"
  shows "sign_part s = (a, q) \<Longrightarrow> sign_part (s @ r) = (a, q @ r)"
    "int_part s = (a, q) \<Longrightarrow> int_part (s @ r) = (a, q @ r)"
    "frac_part s = (a, q) \<Longrightarrow> frac_part (s @ r) = (a, q @ r)"
    "exp_part s = (a, q) \<Longrightarrow> exp_part (s @ r) = (a, q @ r)"
proof -
  note d = stops_digit [OF assms, THEN conjunct1] stops_digit [OF assms, THEN conjunct2]
  have empty: "takeWhile is_dec_digit r = []" "dropWhile is_dec_digit r = r" using d [of "[]"] by simp_all
  show "sign_part s = (a, q) \<Longrightarrow> sign_part (s @ r) = (a, q @ r)"
    using stops_cases [OF assms] by (cases s) (auto simp: sign_part_def split: if_splits)
  show "int_part s = (a, q) \<Longrightarrow> int_part (s @ r) = (a, q @ r)"
  proof (cases s)
    case Nil
    then show "int_part s = (a, q) \<Longrightarrow> int_part (s @ r) = (a, q @ r)"
      using stops_cases [OF assms] empty by (auto simp: int_part_def split: list.splits)
  next
    case (Cons c cs)
    with d [of s] show "int_part s = (a, q) \<Longrightarrow> int_part (s @ r) = (a, q @ r)"
      by (auto simp: int_part_def split: if_splits)
  qed
  show "frac_part s = (a, q) \<Longrightarrow> frac_part (s @ r) = (a, q @ r)"
  proof (cases s)
    case Nil
    then show "frac_part s = (a, q) \<Longrightarrow> frac_part (s @ r) = (a, q @ r)"
      using stops_cases [OF assms] by (auto simp: frac_part_def)
  next
    case (Cons c cs)
    with d [of cs] show "frac_part s = (a, q) \<Longrightarrow> frac_part (s @ r) = (a, q @ r)"
      by (auto simp: frac_part_def split: if_splits)
  qed
  show "exp_part s = (a, q) \<Longrightarrow> exp_part (s @ r) = (a, q @ r)"
  proof (cases s)
    case Nil
    then show "exp_part s = (a, q) \<Longrightarrow> exp_part (s @ r) = (a, q @ r)"
      using stops_cases [OF assms] by (auto simp: exp_part_def Let_def split: list.splits prod.splits if_splits)
  next
    case (Cons c cs)
    show "exp_part s = (a, q) \<Longrightarrow> exp_part (s @ r) = (a, q @ r)"
    proof (cases cs)
      case Nil
      then show "exp_part s = (a, q) \<Longrightarrow> exp_part (s @ r) = (a, q @ r)"
        using stops_cases [OF assms] empty by (auto simp: Cons exp_part_def split: if_splits)
    next
      case (Cons e es)
      with \<open>s = c # cs\<close> d [of cs] d [of es] show "exp_part s = (a, q) \<Longrightarrow> exp_part (s @ r) = (a, q @ r)"
        by (auto simp: exp_part_def split: if_splits)
    qed
  qed
qed

lemma number_before:
  assumes "number_at s = Some (t, q)" "stops r"
  shows "number_at (s @ r) = Some (t, q @ r)"
proof -
  obtain a s1 where a: "sign_part s = (a, s1)" by fastforce
  obtain b s2 where b: "int_part s1 = (b, s2)" by fastforce
  obtain c s3 where c: "frac_part s2 = (c, s3)" by fastforce
  obtain d s4 where d: "exp_part s3 = (d, s4)" by fastforce
  note p = parts_before(1) [OF assms(2) a] parts_before(2) [OF assms(2) b] parts_before(3) [OF assms(2) c]
    parts_before(4) [OF assms(2) d]
  show ?thesis using assms(1) by (simp add: number_at_def a b c d p split: if_splits)
qed

section \<open>Values\<close>

text \<open>Numbers are written as JSON has them, and an object has a property once.\<close>

fun json_ok :: "json \<Rightarrow> bool" where
  "json_ok (JNum t) \<longleftrightarrow> number_at t = Some (t, [])"
| "json_ok (JArr xs) \<longleftrightarrow> list_all json_ok xs"
| "json_ok (JObj kvs) \<longleftrightarrow> distinct (map fst kvs) \<and> list_all (\<lambda>kv. json_ok (snd kv)) kvs"
| "json_ok _ \<longleftrightarrow> True"

lemma number_head:
  assumes "number_at t = Some (t, [])"
  obtains c cs where "t = c # cs" "c = 45 \<or> is_dec_digit c"
proof -
  from assms number_at_append obtain c cs where t: "t = c # cs" by (cases t) fastforce+
  moreover have "c = 45 \<or> is_dec_digit c"
  proof (rule ccontr)
    assume c: "\<not> ?thesis"
    then have "c \<noteq> 48" by (auto simp: is_dec_digit_def)
    with c have "sign_part t = ([], t)" "int_part t = ([], t)" by (simp_all add: t sign_part_def int_part_def)
    with assms show False by (simp add: number_at_def split: prod.splits)
  qed
  ultimately show ?thesis using that by blast
qed

lemma skip_no_space: "\<not> is_json_space c \<Longrightarrow> skip_space (c # cs) = c # cs"
  by (simp add: skip_space_def)

lemma stringify_head: "json_ok j \<Longrightarrow> \<exists>c cs. stringify j = c # cs \<and> \<not> is_json_space c \<and> c \<noteq> 93 \<and> c \<noteq> 125"
proof (cases j)
  case (JNum t)
  moreover assume "json_ok j"
  ultimately show ?thesis by (auto elim!: number_head simp: is_json_space_def is_dec_digit_def)
qed (auto simp: js_def quote_js_def is_json_space_def)

lemma object_of_distinct: "distinct (map fst kvs) \<Longrightarrow> object_of kvs = JObj kvs"
proof -
  have new: "k \<notin> fst ` set m \<Longrightarrow> AList.update k v m = m @ [(k, v)]" for k v and m :: "(jsstring \<times> json) list"
    by (induction m) auto
  have "distinct (map fst (m @ kvs)) \<Longrightarrow> foldl (\<lambda>m (k, v). AList.update k v m) m kvs = m @ kvs" for m :: "(jsstring \<times> json) list"
  proof (induction kvs arbitrary: m)
    case (Cons p kvs)
    obtain k v where p: "p = (k, v)" by (cases p) simp
    with Cons.prems have "k \<notin> fst ` set m" by auto
    with Cons.IH [of "m @ [(k, v)]"] Cons.prems show ?case by (simp add: p new)
  qed simp
  from this [of "[]"] show "distinct (map fst kvs) \<Longrightarrow> ?thesis" by (simp add: object_of_def)
qed

definition reads :: "json \<Rightarrow> bool" where
  "reads j \<longleftrightarrow> (\<exists>N. \<forall>n \<ge> N. \<forall>r. stops r \<longrightarrow> parse_value n (stringify j @ r) = Some (j, r))"

lemma readsI: "(\<And>n r. stops r \<Longrightarrow> parse_value (Suc n) (stringify j @ r) = Some (j, r)) \<Longrightarrow> reads j"
  unfolding reads_def by (intro exI [of _ 1]) (metis Suc_le_D One_nat_def)

lemma readsI': "(\<And>n r. N \<le> n \<Longrightarrow> stops r \<Longrightarrow> parse_value (Suc n) (stringify j @ r) = Some (j, r)) \<Longrightarrow> reads j"
  unfolding reads_def by (intro exI [of _ "Suc N"]) (metis Suc_le_D Suc_le_mono)

lemma readsE:
  assumes "reads j"
  obtains N where "\<And>n r. N \<le> n \<Longrightarrow> stops r \<Longrightarrow> parse_value n (stringify j @ r) = Some (j, r)"
  using assms unfolding reads_def by blast

lemma from_Suc: "(\<And>n. N \<le> n \<Longrightarrow> P (Suc n)) \<Longrightarrow> \<exists>N. \<forall>n \<ge> N. P n"
  by (intro exI [of _ "Suc N"]) (metis Suc_le_D Suc_le_mono)

lemma items_read:
  "xs \<noteq> [] \<Longrightarrow> \<forall>x \<in> set xs. reads x \<Longrightarrow>
     \<exists>N. \<forall>n \<ge> N. \<forall>r. parse_items n (join_with [44] (map stringify xs) @ 93 # r) = Some (xs, r)"
proof (induction xs)
  case (Cons x xs)
  obtain N where N: "\<And>n r. N \<le> n \<Longrightarrow> stops r \<Longrightarrow> parse_value n (stringify x @ r) = Some (x, r)"
    using Cons.prems(2) readsE [of x] by auto
  show ?case
  proof (cases xs)
    case Nil
    have "parse_items (Suc n) (stringify x @ 93 # r) = Some ([x], r)" if "N \<le> n" for n r
      using N [OF that, of "93 # r"] by (simp add: skip_no_space is_json_space_def)
    with Nil show ?thesis by (intro from_Suc [of N]) (simp del: parse_items.simps parse_members.simps)
  next
    case (Cons y ys)
    then obtain M where M: "\<And>n r. M \<le> n \<Longrightarrow> parse_items n (join_with [44] (map stringify xs) @ 93 # r) = Some (xs, r)"
      using Cons.IH Cons.prems by (metis list.distinct(1) list.set_intros(2))
    have "parse_items (Suc n) (join_with [44] (map stringify (x # xs)) @ 93 # r) = Some (x # xs, r)" if "max N M \<le> n" for n r
      using N [of n "44 # join_with [44] (map stringify xs) @ 93 # r"] M [of n r] that Cons
      by (simp add: skip_no_space is_json_space_def)
    then show ?thesis by (intro from_Suc [of "max N M"]) blast
  qed
qed simp

definition member_text :: "jsstring \<times> json \<Rightarrow> jsstring" where
  "member_text kv = quote_js (fst kv) @ 58 # stringify (snd kv)"

lemma members_read:
  "kvs \<noteq> [] \<Longrightarrow> \<forall>kv \<in> set kvs. reads (snd kv) \<Longrightarrow>
     \<exists>N. \<forall>n \<ge> N. \<forall>r. parse_members n (join_with [44] (map member_text kvs) @ 125 # r) = Some (kvs, r)"
proof (induction kvs)
  case (Cons p kvs)
  obtain k x where p: "p = (k, x)" by (cases p) simp
  obtain N where N: "\<And>n r. N \<le> n \<Longrightarrow> stops r \<Longrightarrow> parse_value n (stringify x @ r) = Some (x, r)"
    using Cons.prems(2) readsE [of x] by (auto simp: p)
  have m: "member_text (k, x) @ r = 34 # quote_units k @ 34 # 58 # stringify x @ r" for r
    by (simp add: member_text_def quote_js_def js_def)
  note s = skip_no_space is_json_space_def string_rest_quoted
  show ?case
  proof (cases kvs)
    case Nil
    have "parse_members (Suc n) (member_text p @ 125 # r) = Some ([p], r)" if "N \<le> n" for n r
      using N [OF that, of "125 # r"] by (simp add: m s p)
    with Nil show ?thesis by (intro from_Suc [of N]) (simp del: parse_items.simps parse_members.simps)
  next
    case (Cons y ys)
    then obtain M where M: "\<And>n r. M \<le> n \<Longrightarrow> parse_members n (join_with [44] (map member_text kvs) @ 125 # r) = Some (kvs, r)"
      using Cons.IH Cons.prems by (metis list.distinct(1) list.set_intros(2))
    have "parse_members (Suc n) (member_text p @ 44 # join_with [44] (map member_text kvs) @ 125 # r) = Some (p # kvs, r)"
      if "max N M \<le> n" for n r
      using N [of n "44 # join_with [44] (map member_text kvs) @ 125 # r"] M [of n r] that
      by (simp add: m s p)
    with Cons show ?thesis by (intro from_Suc [of "max N M"]) (simp del: parse_members.simps)
  qed
qed simp

lemma json_reads: "json_ok j \<Longrightarrow> reads j"
proof (induction j)
  case JNull
  show ?case by (rule readsI) (simp add: js_def skip_no_space is_json_space_def parse_atom_def)
next
  case (JBool b)
  show ?case by (rule readsI) (cases b; simp add: js_def skip_no_space is_json_space_def parse_atom_def)
next
  case (JNum t)
  then have t: "number_at t = Some (t, [])" by simp
  then obtain c cs where c: "t = c # cs" "c = 45 \<or> is_dec_digit c" by (rule number_head)
  then have h: "\<not> is_json_space c" "c \<noteq> 34" "c \<noteq> 91" "c \<noteq> 123" "c \<noteq> 110" "c \<noteq> 116" "c \<noteq> 102"
    by (auto simp: is_json_space_def is_dec_digit_def)
  show ?case
  proof (rule readsI)
    fix n and r :: jsstring
    assume "stops r"
    with number_before [OF t] have "number_at (c # cs @ r) = Some (t, r)" by (simp add: c(1))
    with h show "parse_value (Suc n) (stringify (JNum t) @ r) = Some (JNum t, r)"
      by (simp add: c(1) skip_no_space parse_atom_def js_def)
  qed
next
  case (JStr s)
  show ?case by (rule readsI) (simp add: quote_js_def js_def skip_no_space is_json_space_def string_rest_quoted)
next
  case (JArr xs)
  show ?case
  proof (cases "xs = []")
    case True
    then show ?thesis by (intro readsI) (simp add: js_def skip_no_space is_json_space_def)
  next
    case False
    have "\<forall>x \<in> set xs. reads x" using JArr by (auto simp: list_all_iff)
    with items_read False obtain N where
      N: "\<And>n r. N \<le> n \<Longrightarrow> parse_items n (join_with [44] (map stringify xs) @ 93 # r) = Some (xs, r)" by blast
    obtain y ys where xs: "xs = y # ys" using False by (cases xs) simp_all
    obtain c cs where c: "stringify y = c # cs" "\<not> is_json_space c" "c \<noteq> 93"
      using stringify_head [of y] JArr.prems by (auto simp: xs)
    have "\<exists>cs'. join_with [44] (map stringify xs) = c # cs'" using c(1) by (cases ys) (simp_all add: xs)
    then obtain cs' where cs': "join_with [44] (map stringify xs) = c # cs'" by blast
    have "parse_value (Suc n) (stringify (JArr xs) @ r) = Some (JArr xs, r)" if "N \<le> n" for n r
      using N [OF that, of r] c(2,3) by (simp add: js_def skip_no_space is_json_space_def cs')
    then show ?thesis by (rule readsI')
  qed
next
  case (JObj kvs)
  have form: "stringify (JObj kvs) = 123 # join_with [44] (map member_text kvs) @ [125]"
    by (simp add: js_def member_text_def [abs_def] case_prod_unfold)
  show ?case
  proof (cases "kvs = []")
    case True
    then show ?thesis by (intro readsI) (simp add: js_def skip_no_space is_json_space_def)
  next
    case False
    have "\<forall>kv \<in> set kvs. reads (snd kv)"
      using JObj by (fastforce simp: list_all_iff)
    with members_read False obtain N where
      N: "\<And>n r. N \<le> n \<Longrightarrow> parse_members n (join_with [44] (map member_text kvs) @ 125 # r) = Some (kvs, r)" by blast
    obtain y ys where kvs: "kvs = y # ys" using False by (cases kvs) simp_all
    have "\<exists>cs. join_with [44] (map member_text kvs) = 34 # cs"
      by (cases ys) (simp_all add: kvs member_text_def quote_js_def js_def)
    then obtain cs where cs: "join_with [44] (map member_text kvs) = 34 # cs" by blast
    have "parse_value (Suc n) (stringify (JObj kvs) @ r) = Some (JObj kvs, r)" if "N \<le> n" for n r
      using N [OF that, of r] object_of_distinct JObj.prems
      by (simp add: form skip_no_space is_json_space_def cs del: stringify.simps)
    then show ?thesis by (rule readsI')
  qed
qed

lemma json_roundtrip:
  assumes "json_ok j"
  shows "json_parse (stringify j) = Some j"
proof -
  obtain N where "\<forall>n \<ge> N. \<forall>r. stops r \<longrightarrow> parse_value n (stringify j @ r) = Some (j, r)"
    using json_reads [OF assms] by (auto simp: reads_def)
  then have "parse_value n (stringify j) = Some (j, [])" if "N \<le> n" for n
    using that by (metis append_Nil2 stops_simps(1))
  then show ?thesis by (rule parse_enough)
qed

end
