(* ===== verification/Json_Properties.thy ===== *)
theory Json_Properties
  imports Json_Roundtrip
begin

text \<open>
  What the repair of \<open>Json_Text\<close> does: JSON is left as it is, repairing twice is repairing once, and a
  string with raw control characters and stray backslashes is read as it was meant.

  The properties of the reading of JSON that models write; \<open>json-parse.ts\<close>.
\<close>

section \<open>JSON is kept\<close>

text \<open>The text up to \<open>r\<close> is passed through, ending outside a string.\<close>

definition passes :: "bool \<Rightarrow> jsstring \<Rightarrow> jsstring \<Rightarrow> bool" where
  "passes inString s r \<longleftrightarrow> (\<exists>p. s = p @ r \<and> repair_loop inString s = p @ repair_loop False r)"

lemma passes_refl: "passes False s s"
  by (simp add: passes_def)

lemma passes_trans: "passes b s t \<Longrightarrow> passes False t r \<Longrightarrow> passes b s r"
  unfolding passes_def by auto

lemma passes_one: "c \<noteq> 34 \<Longrightarrow> passes False (c # s) s"
  unfolding passes_def by (intro exI [of _ "[c]"]) simp

lemma passes_many: "34 \<notin> set p \<Longrightarrow> passes False (p @ r) r"
proof (induction p)
  case (Cons c p)
  then show ?case using passes_trans [OF passes_one] by simp
qed (simp add: passes_refl)

lemma passes_space: "passes False s (skip_space s)"
proof -
  have "34 \<notin> set (takeWhile is_json_space s)"
    by (auto dest: set_takeWhileD simp: is_json_space_def)
  from passes_many [OF this, of "skip_space s"] show ?thesis by (simp add: skip_space_def)
qed

lemma passes_quote: "passes True s r \<Longrightarrow> passes False (34 # s) r"
  unfolding passes_def by (auto intro: exI [of _ "34 # p" for p])

lemma hex_unit_length: "hex_unit h = Some u \<Longrightarrow> length h = 4"
  by (cases h rule: hex_unit.cases) auto

lemma passes_string: "string_rest s = Some (k, r) \<Longrightarrow> passes True s r"
proof (induction s arbitrary: k r rule: length_induct)
  case (1 s)
  then have IH: "length t < length s \<Longrightarrow> string_rest t = Some (k', r) \<Longrightarrow>
      \<exists>p. t = p @ r \<and> repair_loop True t = p @ repair_loop False r" for t k'
    by (auto simp: passes_def)
  obtain c cs where s: "s = c # cs" using 1(2) by (cases s) simp_all
  consider (close) "c = 34" | (escape) "c = 92" | (plain) "c \<noteq> 34" "c \<noteq> 92" by blast
  then show ?case
  proof cases
    case close
    with 1(2) show ?thesis by (auto simp: s passes_def intro: exI [of _ "[34]"])
  next
    case escape
    with 1(2) obtain e q where cs: "cs = e # q" by (cases cs) (simp_all add: s)
    show ?thesis
    proof (cases "e = 117")
      case True
      then obtain u k' where u: "hex_unit (take 4 q) = Some u" "string_rest (drop 4 q) = Some (k', r)"
        using 1(2) escape by (auto simp: s cs split: option.splits)
      obtain p where p: "drop 4 q = p @ r" "repair_loop True (drop 4 q) = p @ repair_loop False r"
        using IH [of "drop 4 q" k'] u(2) by (fastforce simp: s cs)
      have "q = take 4 q @ p @ r" using p(1) by (metis append_take_drop_id)
      with p(2) u(1) escape True show ?thesis
        unfolding passes_def s cs by (intro exI [of _ "92 # 117 # take 4 q @ p"]) simp
    next
      case False
      then obtain u k' where u: "simple_escape e = Some u" "string_rest q = Some (k', r)"
        using 1(2) escape by (auto simp: s cs split: option.splits)
      obtain p where p: "q = p @ r" "repair_loop True q = p @ repair_loop False r"
        using IH [of q k'] u(2) by (fastforce simp: s cs)
      have "e \<in> set VALID_JSON_ESCAPES" using u(1) by (auto simp: simple_escape_def VALID_JSON_ESCAPES_def split: if_splits)
      with p escape False show ?thesis
        unfolding passes_def s cs by (intro exI [of _ "92 # e # p"]) simp
    qed
  next
    case plain
    with 1(2) obtain k' where k': "\<not> c < 32" "string_rest cs = Some (k', r)" by (auto simp: s split: if_splits)
    obtain p where p: "cs = p @ r" "repair_loop True cs = p @ repair_loop False r" using IH [of cs k'] k'(2) by (fastforce simp: s)
    have "\<not> isControlCharacter c" using k'(1) by (simp add: isControlCharacter_def word_le_nat_alt word_less_nat_alt)
    with p plain show ?thesis unfolding passes_def s by (intro exI [of _ "c # p"]) simp
  qed
qed

lemma quote_no_digit [simp]: "\<not> is_dec_digit 34"
  by (simp add: is_dec_digit_def)

lemma number_no_quote: "number_at s = Some (t, r) \<Longrightarrow> 34 \<notin> set t"
proof -
  assume n: "number_at s = Some (t, r)"
  obtain a s1 where a: "sign_part s = (a, s1)" by fastforce
  obtain b s2 where b: "int_part s1 = (b, s2)" by fastforce
  obtain c s3 where c: "frac_part s2 = (c, s3)" by fastforce
  obtain d s4 where d: "exp_part s3 = (d, s4)" by fastforce
  have q: "34 \<notin> set (takeWhile is_dec_digit x)" for x by (auto dest: set_takeWhileD simp: is_dec_digit_def)
  have "34 \<notin> set a" using a by (auto simp: sign_part_def split: list.splits if_splits)
  moreover have "34 \<notin> set b" using b q by (auto simp: int_part_def split: list.splits if_splits)
  moreover have "34 \<notin> set c" using c q by (auto simp: frac_part_def split: list.splits if_splits)
  moreover have "34 \<notin> set d" using d q by (auto simp: exp_part_def Let_def split: list.splits if_splits prod.splits)
  ultimately show ?thesis using n by (auto simp: number_at_def a b c d split: if_splits)
qed

lemma passes_atom: "parse_atom s = Some (v, r) \<Longrightarrow> passes False s r"
proof -
  assume a: "parse_atom s = Some (v, r)"
  then consider (word) w where "s = w @ r" "w \<in> {js ''null'', js ''true'', js ''false''}" | (number) t where "number_at s = Some (t, r)"
    by (auto simp: parse_atom_def split: option.splits dest: literal_after_append)
  then show ?thesis
  proof cases
    case word
    then have "34 \<notin> set w" by (auto simp: js_def)
    with word(1) passes_many show ?thesis by simp
  next
    case number
    with number_no_quote number_at_append passes_many show ?thesis by metis
  qed
qed

lemma passes_skip:
  assumes "skip_space s = c # q"
  shows "passes False s (c # q)" "c \<noteq> 34 \<Longrightarrow> passes False s q"
  using passes_space [of s] passes_trans [OF _ passes_one] unfolding assms by blast+

lemma passes_parsed:
  "parse_value n s = Some (v, r) \<Longrightarrow> passes False s r"
  "parse_items n s = Some (vs, r) \<Longrightarrow> passes False s r"
  "parse_members n s = Some (kvs, r) \<Longrightarrow> passes False s r"
proof (induction n s and n s and n s arbitrary: v r and vs r and kvs r rule: parse_value_parse_items_parse_members.induct)
  case (2 n s)
  obtain c cs where c: "skip_space s = c # cs" using 2(3) by (cases "skip_space s") simp_all
  have "passes False (c # cs) r"
  proof -
    consider (str) "c = 34" | (arr) "c = 91" | (obj) "c = 123" | (atom) "c \<noteq> 34" "c \<noteq> 91" "c \<noteq> 123" by blast
    then show ?thesis
    proof cases
      case str
      with 2(3) c passes_string passes_quote show ?thesis by fastforce
    next
      case arr
      with 2(3) c obtain d q where d: "skip_space cs = d # q" by (cases "skip_space cs") simp_all
      have "passes False cs r"
      proof (cases "d = 93")
        case True
        with 2(3) arr c d have "r = q" by simp
        with passes_skip(2) [OF d] True show ?thesis by simp
      next
        case False
        with 2(3) arr c d obtain vs where "parse_items n cs = Some (vs, r)" by auto
        with 2(1) [OF c _ arr d False] arr show ?thesis by simp
      qed
      with arr passes_trans [OF passes_one] show ?thesis by simp
    next
      case obj
      with 2(3) c obtain d q where d: "skip_space cs = d # q" by (cases "skip_space cs") simp_all
      have "passes False cs r"
      proof (cases "d = 125")
        case True
        with 2(3) obj c d have "r = q" by simp
        with passes_skip(2) [OF d] True show ?thesis by simp
      next
        case False
        with 2(3) obj c d obtain kvs where "parse_members n cs = Some (kvs, r)" by auto
        with 2(2) [OF c _ _ obj d False] obj show ?thesis by simp
      qed
      with obj passes_trans [OF passes_one] show ?thesis by simp
    next
      case atom
      with 2(3) c have "parse_atom (c # cs) = Some (v, r)" by simp
      then show ?thesis by (rule passes_atom)
    qed
  qed
  with passes_space [of s] show ?case unfolding c by (rule passes_trans)
next
  case (4 n s)
  then obtain x q where x: "parse_value n s = Some (x, q)" by (auto split: option.splits)
  obtain c cs where c: "skip_space q = c # cs" using 4(3) x by (cases "skip_space q") auto
  have q: "c \<noteq> 34 \<Longrightarrow> passes False s cs" using passes_trans [OF 4(1) [OF x] passes_skip(2) [OF c]] .
  show ?case
  proof (cases "c = 44")
    case True
    with 4(3) x c obtain ws where "parse_items n cs = Some (ws, r)" by auto
    from 4(2) [OF x refl c True this] have "passes False cs r" .
    with q True show ?thesis using passes_trans by simp
  next
    case False
    with 4(3) x c have "c = 93" "cs = r" by (auto split: if_splits)
    with q show ?thesis by simp
  qed
next
  case (6 n s)
  then obtain cs where q: "skip_space s = 34 # cs" by (auto split: list.splits if_splits)
  then obtain k r0 where k: "string_rest cs = Some (k, r0)" using 6(3) by (auto split: option.splits)
  then obtain r1 where r1: "skip_space r0 = 58 # r1" using 6(3) q by (auto split: list.splits if_splits)
  then obtain x r2 where x: "parse_value n r1 = Some (x, r2)" using 6(3) q k by (auto split: option.splits)
  obtain e r3 where e: "skip_space r2 = e # r3" using 6(3) q k r1 x by (cases "skip_space r2") auto
  have "passes False s r0" using passes_trans [OF passes_skip(1) [OF q] passes_quote [OF passes_string [OF k]]] .
  from passes_trans [OF this passes_skip(2) [OF r1]] have "passes False s r1" by simp
  from passes_trans [OF this] 6(1) [OF q _ k refl r1 _ x] have "passes False s r2" by simp
  from passes_trans [OF this passes_skip(2) [OF e]] have p: "e \<noteq> 34 \<Longrightarrow> passes False s r3" .
  show ?case
  proof (cases "e = 44")
    case True
    with 6(3) q k r1 x e obtain ws where "parse_members n r3 = Some (ws, r)" by auto
    with 6(2) [OF q _ k refl r1 _ x refl e True] have "passes False r3 r" by simp
    with passes_trans [OF p] True show ?thesis by simp
  next
    case False
    with 6(3) q k r1 x e have "e = 125" "r3 = r" by (auto split: if_splits)
    with p show ?thesis by simp
  qed
qed simp_all

lemma repair_keeps_json: "json_parse s = Some v \<Longrightarrow> repairJson s = s"
proof -
  assume "json_parse s = Some v"
  then obtain r where r: "parse_value (parse_fuel s) s = Some (v, r)" "skip_space r = []"
    by (auto simp: json_parse_def split: option.splits if_splits)
  have "passes False s []" using passes_trans [OF passes_parsed(1) [OF r(1)] passes_space] unfolding r(2) .
  then show ?thesis by (simp add: passes_def repairJson_def)
qed

section \<open>Repairing twice\<close>

lemma hex_unit_digits: "(hex_unit h \<noteq> None) = (length h = 4 \<and> list_all (\<lambda>c. hex_value c \<noteq> None) h)"
  by (cases h rule: hex_unit.cases) (auto split: option.splits)

lemma hex_digit_plain: "hex_value c \<noteq> None \<Longrightarrow> c \<noteq> 34 \<and> c \<noteq> 92 \<and> \<not> isControlCharacter c"
  by (auto simp: hex_value_def isControlCharacter_def word_le_nat_alt split: if_splits)

lemma repair_head:
  "repair_loop True (c # cs) = d # ds \<Longrightarrow> hex_value d \<noteq> None \<Longrightarrow> d = c \<and> ds = repair_loop True cs"
  using hex_digit_plain [of d] hex_digit_plain [of c]
  by (auto simp: escapeControlCharacter_def split: if_splits list.splits)

lemma repair_no_new_digits:
  "n \<le> length (repair_loop True r) \<Longrightarrow> list_all (\<lambda>c. hex_value c \<noteq> None) (take n (repair_loop True r)) \<Longrightarrow>
     n \<le> length r \<and> take n (repair_loop True r) = take n r"
proof (induction n arbitrary: r)
  case (Suc n)
  then obtain d ds where d: "repair_loop True r = d # ds" by (cases "repair_loop True r") simp_all
  then obtain c cs where r: "r = c # cs" by (cases r) simp_all
  have "d = c \<and> ds = repair_loop True cs" using repair_head [of c cs d ds] d Suc.prems(2) by (simp add: r)
  with Suc.IH [of cs] Suc.prems d show ?case by (simp add: r)
qed simp

lemma repair_no_new_hex:
  assumes "hex_unit (take 4 r) = None"
  shows "hex_unit (take 4 (repair_loop True r)) = None"
proof (rule ccontr)
  assume "\<not> ?thesis"
  then have "4 \<le> length (repair_loop True r)" "list_all (\<lambda>c. hex_value c \<noteq> None) (take 4 (repair_loop True r))"
    using hex_unit_digits [of "take 4 (repair_loop True r)"] by auto
  from repair_no_new_digits [OF this] \<open>\<not> ?thesis\<close> assms show False by simp
qed

lemma repair_escaped_control:
  "isControlCharacter c \<Longrightarrow> repair_loop True (escapeControlCharacter c @ r) = escapeControlCharacter c @ repair_loop True r"
  by (simp add: escapeControlCharacter_def VALID_JSON_ESCAPES_def hex_unit_hex4)

lemma repair_twice: "repair_loop b (repair_loop b s) = repair_loop b s"
proof (induction b s rule: repair_loop.induct)
  case (3 c cs)
  consider (close) "c = 34" | (last) "c = 92" "cs = []" | (escape) e r where "c = 92" "cs = e # r"
    | (control) "c \<noteq> 34" "c \<noteq> 92" "isControlCharacter c" | (plain) "c \<noteq> 34" "c \<noteq> 92" "\<not> isControlCharacter c"
    by (cases cs) auto
  then show ?case
  proof cases
    case close
    with 3(1) show ?thesis by simp
  next
    case last
    then show ?thesis by (simp add: VALID_JSON_ESCAPES_def)
  next
    case (escape e r)
    consider (hex) "e = 117" "hex_unit (take 4 r) \<noteq> None"
      | (valid) "\<not> (e = 117 \<and> hex_unit (take 4 r) \<noteq> None)" "e \<in> set VALID_JSON_ESCAPES"
      | (stray) "e \<notin> set VALID_JSON_ESCAPES" by blast
    then show ?thesis
    proof cases
      case hex
      then have "length (take 4 r) = 4" using hex_unit_digits by blast
      with hex escape 3(2) [OF _ escape conjI [OF hex]] show ?thesis by (auto simp: VALID_JSON_ESCAPES_def)
    next
      case valid
      with escape 3(3) [OF _ escape valid] repair_no_new_hex [of r] show ?thesis by auto
    next
      case stray
      then have "e \<noteq> 117" by (auto simp: VALID_JSON_ESCAPES_def)
      with stray escape 3(4) [OF _ escape _ stray] show ?thesis by (simp add: VALID_JSON_ESCAPES_def)
    qed
  next
    case control
    with 3(5) show ?thesis by (simp add: repair_escaped_control)
  next
    case plain
    with 3(5) show ?thesis by simp
  qed
qed simp_all

section \<open>Written JSON\<close>

lemma trim_nonempty:
  assumes "\<not> is_js_space c"
  shows "trim_js (c # cs) \<noteq> []"
proof -
  have "c \<in> set (rev (c # cs)) \<and> \<not> is_js_space c" using assms by simp
  then have "dropWhile is_js_space (rev (c # cs)) \<noteq> []" by (metis dropWhile_eq_Nil_conv)
  with assms show ?thesis by (simp add: trim_js_def trim_end_def)
qed

lemma stringify_no_blank:
  assumes "json_ok j"
  shows "trim_js (stringify j) \<noteq> []"
proof -
  have "\<exists>c cs. stringify j = c # cs \<and> \<not> is_js_space c"
  proof (cases j)
    case (JNum t)
    with assms have "number_at t = Some (t, [])" by simp
    then obtain c cs where "t = c # cs" "c = 45 \<or> is_dec_digit c" by (rule number_head)
    moreover have "\<not> is_js_space c" if "is_dec_digit c"
      using that by (auto simp: is_js_space_def is_dec_digit_def word_le_nat_alt)
    ultimately show ?thesis by (auto simp: JNum is_js_space_def)
  qed (auto simp: js_def quote_js_def is_js_space_def)
  with trim_nonempty show ?thesis by auto
qed

text \<open>C34 JSON that was written is read back: the repair leaves it as it is, and both the strict and the streaming reader give
  the value that was written, whatever the parser of incomplete JSON does.\<close>

theorem written_json_read_back:
  assumes "json_ok j"
  shows "repairJson (stringify j) = stringify j \<and> parseJsonWithRepair (stringify j) = Some j
    \<and> parseStreamingJson partial (Some (stringify j)) = j"
proof -
  note p = json_roundtrip [OF assms]
  from repair_keeps_json [OF p] p stringify_no_blank [OF assms] show ?thesis
    by (simp add: parseJsonWithRepair_def parseStreamingJson_def)
qed

definition demo_json :: json where
  "demo_json = JObj [(js ''path'', JStr (js ''a'' @ [10, 34, 92, 0xD800])), (js ''n'', JArr [JNum (js ''-1.5e3''), JNull])]"

theorem written_json_read_back_witness:
  "parseStreamingJson (\<lambda>_. None) (Some (stringify demo_json)) = demo_json"
proof -
  have "json_ok demo_json" by code_simp
  from written_json_read_back [OF this] show ?thesis by blast
qed

section \<open>Repair\<close>

lemma repair_always: "parseJsonWithRepair s = json_parse (repairJson s)"
  by (auto simp: parseJsonWithRepair_def Let_def repair_keeps_json split: option.splits)

text \<open>Trying first and repairing on failure is the same as always repairing, and repairing twice is repairing once: the
  repair changes no text that is JSON already.\<close>

theorem repair_is_conservative:
  "parseJsonWithRepair s = json_parse (repairJson s) \<and> repairJson (repairJson s) = repairJson s"
  by (simp add: repair_always repairJson_def repair_twice)

section \<open>Damaged strings\<close>

text \<open>
  The text of a string as a model writes it: units as they are, control characters included, escapes,
  and stray backslashes. What it means.
\<close>

datatype raw_piece = Raw "16 word" | Escaped "16 word" | Unicode jsstring | StrayBackslash

fun raw_text :: "raw_piece \<Rightarrow> jsstring" where
  "raw_text (Raw c) = [c]"
| "raw_text (Escaped c) = [92, c]"
| "raw_text (Unicode h) = 92 # 117 # h"
| "raw_text StrayBackslash = [92]"

fun raw_value :: "raw_piece \<Rightarrow> jsstring" where
  "raw_value (Raw c) = [c]"
| "raw_value (Escaped c) = [the (simple_escape c)]"
| "raw_value (Unicode h) = [the (hex_unit h)]"
| "raw_value StrayBackslash = [92]"

text \<open>A backslash is stray before a unit that no escape begins with.\<close>

fun raw_ok :: "raw_piece list \<Rightarrow> bool" where
  "raw_ok [] \<longleftrightarrow> True"
| "raw_ok (Raw c # ps) \<longleftrightarrow> c \<noteq> 34 \<and> c \<noteq> 92 \<and> raw_ok ps"
| "raw_ok (Escaped c # ps) \<longleftrightarrow> simple_escape c \<noteq> None \<and> raw_ok ps"
| "raw_ok (Unicode h # ps) \<longleftrightarrow> hex_unit h \<noteq> None \<and> raw_ok ps"
| "raw_ok (StrayBackslash # ps) \<longleftrightarrow>
     (case ps of Raw c # _ \<Rightarrow> c \<notin> set VALID_JSON_ESCAPES | _ \<Rightarrow> False) \<and> raw_ok ps"

lemma control_read: "isControlCharacter c \<Longrightarrow> string_rest (escapeControlCharacter c @ r) = map_option (apfst ((#) c)) (string_rest r)"
  by (simp add: escapeControlCharacter_def simple_escape_def hex_unit_hex4)

lemma plain_read: "c \<noteq> 34 \<Longrightarrow> c \<noteq> 92 \<Longrightarrow> \<not> isControlCharacter c \<Longrightarrow>
    string_rest (c # r) = map_option (apfst ((#) c)) (string_rest r)"
  by (simp add: isControlCharacter_def word_le_nat_alt word_less_nat_alt)

lemma simple_escape_valid: "simple_escape c \<noteq> None \<Longrightarrow> c \<in> set VALID_JSON_ESCAPES \<and> c \<noteq> 117"
  by (auto simp: simple_escape_def VALID_JSON_ESCAPES_def split: if_splits)

lemma damaged_string_rest:
  "raw_ok ps \<Longrightarrow> string_rest (repair_loop True (concat (map raw_text ps) @ 34 # r))
     = Some (concat (map raw_value ps), repair_loop False r)"
proof (induction ps)
  case Nil
  show ?case by simp
next
  case (Cons p ps)
  let ?t = "concat (map raw_text ps) @ 34 # r"
  have ok: "raw_ok ps" using Cons.prems by (cases p) simp_all
  note IH = Cons.IH [OF ok]
  show ?case
  proof (cases p)
    case (Raw c)
    with Cons.prems have c: "c \<noteq> 34" "c \<noteq> 92" by simp_all
    show ?thesis
    proof (cases "isControlCharacter c")
      case True
      with c IH show ?thesis by (simp add: Raw control_read del: string_rest.simps(2))
    next
      case False
      with c IH show ?thesis by (simp add: Raw plain_read del: string_rest.simps(2))
    qed
  next
    case (Escaped c)
    with Cons.prems obtain u where u: "simple_escape c = Some u" by auto
    with simple_escape_valid [of c] IH show ?thesis by (simp add: Escaped)
  next
    case (Unicode h)
    with Cons.prems obtain u where u: "hex_unit h = Some u" by auto
    with hex_unit_length [OF u] IH show ?thesis by (simp add: Unicode)
  next
    case StrayBackslash
    with Cons.prems obtain c qs where q: "ps = Raw c # qs" "c \<notin> set VALID_JSON_ESCAPES"
      by (auto split: list.splits raw_piece.splits)
    have n: "c \<noteq> 117" using q(2) by (auto simp: VALID_JSON_ESCAPES_def)
    have "repair_loop True (92 # ?t) = [92, 92] @ repair_loop True ?t" using q n by simp
    then show ?thesis using IH by (simp add: StrayBackslash simple_escape_def)
  qed
qed

text \<open>C35 A string that a model wrote carelessly is read as it was meant: raw control characters stand for themselves, a backslash
  that begins no escape for a backslash, and proper escapes for what they denote.\<close>

theorem damaged_string_read:
  assumes "raw_ok ps"
  shows "parseJsonWithRepair (34 # concat (map raw_text ps) @ [34]) = Some (JStr (concat (map raw_value ps)))"
proof -
  have "repairJson (34 # concat (map raw_text ps) @ [34]) = 34 # repair_loop True (concat (map raw_text ps) @ [34])"
    by (simp add: repairJson_def)
  moreover have "json_parse (34 # repair_loop True (concat (map raw_text ps) @ [34])) = Some (JStr (concat (map raw_value ps)))"
    using damaged_string_rest [OF assms, of "[]"]
    by (simp add: json_parse_def parse_fuel_def skip_no_space is_json_space_def skip_space_def)
  ultimately show ?thesis by (simp add: repair_always)
qed

theorem damaged_string_read_witness:
  "parseJsonWithRepair (34 # js ''C:'' @ [92] @ js ''dir'' @ [10, 92, 116, 34]) = Some (JStr (js ''C:'' @ [92] @ js ''dir'' @ [10, 9]))"
proof -
  let ?ps = "[Raw 67, Raw 58, StrayBackslash, Raw 100, Raw 105, Raw 114, Raw 10, Escaped 116]"
  have "raw_ok ?ps" by (simp add: VALID_JSON_ESCAPES_def simple_escape_def)
  from damaged_string_read [OF this] show ?thesis by (simp add: js_def simple_escape_def)
qed

text \<open>A backslash before a \<open>u\<close> that begins no unicode escape is not doubled, so the text stays broken.\<close>

lemma stray_unicode_not_repaired:
  "repairJson (34 # js ''C:'' @ [92] @ js ''users'' @ [34]) = 34 # js ''C:'' @ [92] @ js ''users'' @ [34]
   \<and> parseJsonWithRepair (34 # js ''C:'' @ [92] @ js ''users'' @ [34]) = None"
  by code_simp

text \<open>A value that is no object comes through, \<open>null\<close> too.\<close>

lemma streaming_null: "parseStreamingJson partial (Some (js ''null'')) = JNull"
proof -
  have "parseJsonWithRepair (js ''null'') = Some JNull" "trim_js (js ''null'') \<noteq> []" by code_simp+
  then show ?thesis by (simp add: parseStreamingJson_def)
qed

end
