(* ===== verification/Stdin_Buffer.thy ===== *)
theory Stdin_Buffer
  imports Edit_Matching Output_Accumulator
begin

text \<open>
  The buffer between the terminal's input and the key handling, \<open>packages/tui/src/stdin-buffer.ts\<close>: it cuts
  the input, which comes in arbitrary chunks, into key presses, escape sequences and pastes. The timer that
  flushes an unfinished sequence is a flag and a step of its own.
\<close>

section \<open>Sequences\<close>

definition BRACKETED_PASTE_START :: jsstring where
  "BRACKETED_PASTE_START = 27 # js ''[200~''"

definition BRACKETED_PASTE_END :: jsstring where
  "BRACKETED_PASTE_END = 27 # js ''[201~''"

datatype completeness = CompleteSeq | IncompleteSeq | NotEscape

definition all_digits :: "jsstring \<Rightarrow> bool" where
  "all_digits s \<longleftrightarrow> list_all (\<lambda>c. 48 \<le> c \<and> c \<le> 57) s"

text \<open>
  \<open><digits;digits;digits\<close> and \<open>M\<close> or \<open>m\<close>: the regular expression and the check of the parts after it
  accept the same.
\<close>

definition mouse_payload :: "jsstring \<Rightarrow> bool" where
  "mouse_payload payload \<longleftrightarrow>
     (last payload = 77 \<or> last payload = 109)
     \<and> (let parts = split_on 59 (sub_list 1 (length payload - 1) payload)
        in length parts = 3 \<and> list_all (\<lambda>p. p \<noteq> [] \<and> all_digits p) parts)"

definition isCompleteCsiSequence :: "jsstring \<Rightarrow> completeness" where
  "isCompleteCsiSequence s =
     (if \<not> prefix [27, 91] s then CompleteSeq
      else if length s < 3 then IncompleteSeq
      else
        (let payload = drop 2 s; lastChar = last payload
         in if 0x40 \<le> lastChar \<and> lastChar \<le> 0x7e
            then (if prefix [60] payload then (if mouse_payload payload then CompleteSeq else IncompleteSeq)
                  else CompleteSeq)
            else IncompleteSeq))"

definition isCompleteOscSequence :: "jsstring \<Rightarrow> completeness" where
  "isCompleteOscSequence s =
     (if \<not> prefix [27, 93] s then CompleteSeq
      else if suffix [27, 92] s \<or> suffix [7] s then CompleteSeq else IncompleteSeq)"

definition isCompleteDcsSequence :: "jsstring \<Rightarrow> completeness" where
  "isCompleteDcsSequence s =
     (if \<not> prefix [27, 80] s then CompleteSeq else if suffix [27, 92] s then CompleteSeq else IncompleteSeq)"

definition isCompleteApcSequence :: "jsstring \<Rightarrow> completeness" where
  "isCompleteApcSequence s =
     (if \<not> prefix [27, 95] s then CompleteSeq else if suffix [27, 92] s then CompleteSeq else IncompleteSeq)"

definition isCompleteSequence :: "jsstring \<Rightarrow> completeness" where
  "isCompleteSequence s =
     (if \<not> prefix [27] s then NotEscape
      else if length s = 1 then IncompleteSeq
      else
        (let afterEsc = drop 1 s
         in if prefix [91] afterEsc
            then (if prefix [91, 77] afterEsc then (if length s \<ge> 6 then CompleteSeq else IncompleteSeq)
                  else isCompleteCsiSequence s)
            else if prefix [93] afterEsc then isCompleteOscSequence s
            else if prefix [80] afterEsc then isCompleteDcsSequence s
            else if prefix [95] afterEsc then isCompleteApcSequence s
            else if prefix [79] afterEsc then (if length afterEsc \<ge> 2 then CompleteSeq else IncompleteSeq)
            else CompleteSeq))"

text \<open>The loop over \<open>seqEnd\<close>: the shortest beginning that is not incomplete.\<close>

definition sequence_end :: "jsstring \<Rightarrow> nat option" where
  "sequence_end remaining =
     find (\<lambda>k. isCompleteSequence (take k remaining) \<noteq> IncompleteSeq) [1..<Suc (length remaining)]"

function extractCompleteSequences :: "jsstring \<Rightarrow> jsstring list \<times> jsstring" where
  "extractCompleteSequences [] = ([], [])"
| "extractCompleteSequences (c # cs) =
     (if c = 27
      then (case sequence_end (c # cs) of
              None \<Rightarrow> ([], c # cs)
            | Some k \<Rightarrow> apfst ((#) (take k (c # cs))) (extractCompleteSequences (drop k (c # cs))))
      else apfst ((#) [c]) (extractCompleteSequences cs))"
  by pat_completeness auto
termination
  by (relation "measure length") (auto simp: sequence_end_def find_Some_iff simp del: upt_Suc)

text \<open>The text after \<open>ESC [\<close> and before \<open>u\<close> is digits and at most two more fields, of which the last is not empty.\<close>

definition parseUnmodifiedKittyPrintableCodepoint :: "jsstring \<Rightarrow> nat option" where
  "parseUnmodifiedKittyPrintableCodepoint s =
     (if \<not> (prefix [27, 91] s \<and> length s \<ge> 3 \<and> last s = 117) then None
      else
        (let parts = split_on 58 (butlast (drop 2 s));
             codepoint = foldl (\<lambda>n d. 10 * n + (unat d - 48)) 0 (hd parts)
         in if hd parts \<noteq> [] \<and> list_all all_digits parts \<and> length parts \<le> 3 \<and> (length parts = 3 \<longrightarrow> last parts \<noteq> [])
               \<and> codepoint \<ge> 32
            then Some codepoint else None))"

section \<open>The buffer\<close>

datatype stdin_event = StdinData jsstring | StdinPaste jsstring

record stdin_buffer =
  sb_buffer :: jsstring
  sb_timeout :: bool
  sb_pasteMode :: bool
  sb_pasteBuffer :: jsstring
  sb_pendingKittyPrintableCodepoint :: "nat option"
  sb_events :: "stdin_event list"

definition new_stdin_buffer :: stdin_buffer where
  "new_stdin_buffer =
     \<lparr>sb_buffer = [], sb_timeout = False, sb_pasteMode = False, sb_pasteBuffer = [],
      sb_pendingKittyPrintableCodepoint = None, sb_events = []\<rparr>"

text \<open>A key that a terminal sends twice, as a sequence and as a character, is reported once.\<close>

definition emitDataSequence :: "jsstring \<Rightarrow> stdin_buffer \<Rightarrow> stdin_buffer" where
  "emitDataSequence sequence b =
     (let rawCodepoint = (case sequence of [c] \<Rightarrow> Some (unat c) | _ \<Rightarrow> None)
      in if rawCodepoint \<noteq> None \<and> rawCodepoint = sb_pendingKittyPrintableCodepoint b
         then b\<lparr>sb_pendingKittyPrintableCodepoint := None\<rparr>
         else b\<lparr>sb_pendingKittyPrintableCodepoint := parseUnmodifiedKittyPrintableCodepoint sequence,
                sb_events := sb_events b @ [StdinData sequence]\<rparr>)"

definition emit_sequences :: "jsstring list \<Rightarrow> stdin_buffer \<Rightarrow> stdin_buffer" where
  "emit_sequences = fold emitDataSequence"

definition end_paste :: "jsstring \<Rightarrow> stdin_buffer \<Rightarrow> stdin_buffer" where
  "end_paste pastedContent b =
     b\<lparr>sb_pasteMode := False, sb_pasteBuffer := [], sb_pendingKittyPrintableCodepoint := None,
       sb_events := sb_events b @ [StdinPaste pastedContent]\<rparr>"

text \<open>No paste: the sequences are reported, an unfinished one waits for more or for the timer.\<close>

definition process_keys :: "stdin_buffer \<Rightarrow> stdin_buffer" where
  "process_keys b =
     (case extractCompleteSequences (sb_buffer b) of
        (sequences, remainder) \<Rightarrow>
          (let b1 = emit_sequences sequences (b\<lparr>sb_buffer := remainder\<rparr>)
           in if sb_buffer b1 \<noteq> [] then b1\<lparr>sb_timeout := True\<rparr> else b1))"

text \<open>What comes before a paste is reported, but for an unfinished sequence.\<close>

definition start_paste :: "nat \<Rightarrow> stdin_buffer \<Rightarrow> stdin_buffer" where
  "start_paste startIndex b =
     (let b1 = emit_sequences (fst (extractCompleteSequences (take startIndex (sb_buffer b)))) b
      in b1\<lparr>sb_pendingKittyPrintableCodepoint := None, sb_pasteMode := True,
            sb_pasteBuffer := drop (startIndex + length BRACKETED_PASTE_START) (sb_buffer b1), sb_buffer := []\<rparr>)"

lemma emit_fields [simp]:
  "sb_buffer (emitDataSequence q b) = sb_buffer b" "sb_pasteBuffer (emitDataSequence q b) = sb_pasteBuffer b"
  "sb_buffer (emit_sequences qs b) = sb_buffer b" "sb_pasteBuffer (emit_sequences qs b) = sb_pasteBuffer b"
  "sb_pasteMode (emitDataSequence q b) = sb_pasteMode b" "sb_pasteMode (emit_sequences qs b) = sb_pasteMode b"
  "sb_timeout (emitDataSequence q b) = sb_timeout b" "sb_timeout (emit_sequences qs b) = sb_timeout b"
proof -
  show q: "sb_buffer (emitDataSequence q b) = sb_buffer b" "sb_pasteBuffer (emitDataSequence q b) = sb_pasteBuffer b"
    "sb_pasteMode (emitDataSequence q b) = sb_pasteMode b" "sb_timeout (emitDataSequence q b) = sb_timeout b" for q b
    by (simp_all add: emitDataSequence_def Let_def)
  show "sb_buffer (emit_sequences qs b) = sb_buffer b" "sb_pasteBuffer (emit_sequences qs b) = sb_pasteBuffer b"
    "sb_pasteMode (emit_sequences qs b) = sb_pasteMode b" "sb_timeout (emit_sequences qs b) = sb_timeout b"
    by (induction qs arbitrary: b) (simp_all add: emit_sequences_def q)
qed

text \<open>\<open>process\<close> of a string; what follows the end of a paste is processed in turn.\<close>

function process_string :: "jsstring \<Rightarrow> stdin_buffer \<Rightarrow> stdin_buffer" where
  "process_string str b0 =
     (let b = b0\<lparr>sb_timeout := False\<rparr>
      in if str = [] \<and> sb_buffer b = [] then emitDataSequence [] b
         else
           (let b1 = b\<lparr>sb_buffer := sb_buffer b @ str\<rparr>
            in if \<not> sb_pasteMode b1 \<and> indexOf (sb_buffer b1) BRACKETED_PASTE_START = None then process_keys b1
               else
                 (let b2 = (if sb_pasteMode b1
                            then b1\<lparr>sb_pasteBuffer := sb_pasteBuffer b1 @ sb_buffer b1, sb_buffer := []\<rparr>
                            else start_paste (the (indexOf (sb_buffer b1) BRACKETED_PASTE_START)) b1)
                  in case indexOf (sb_pasteBuffer b2) BRACKETED_PASTE_END of
                       None \<Rightarrow> b2
                     | Some endIndex \<Rightarrow>
                         (let remaining = drop (endIndex + length BRACKETED_PASTE_END) (sb_pasteBuffer b2);
                              b3 = end_paste (take endIndex (sb_pasteBuffer b2)) b2
                          in if remaining = [] then b3 else process_string remaining b3))))"
  by pat_completeness auto
termination
proof (relation "measure (\<lambda>(s, b). length s + length (sb_buffer b) + length (sb_pasteBuffer b))", goal_cases)
  case 1
  then show ?case by simp
next
  case (2 str b0 b b1 b2 endIndex remaining b3)
  have "length (sb_pasteBuffer b2) \<le> length str + length (sb_buffer b0) + length (sb_pasteBuffer b0)"
    using 2 by (auto simp: start_paste_def Let_def split: if_splits)
  moreover have "sb_buffer b3 = []" "sb_pasteBuffer b3 = []"
    using 2 by (auto simp: end_paste_def start_paste_def Let_def split: if_splits)
  moreover have "length remaining < length (sb_pasteBuffer b2)"
    using indexOf_Some [OF 2(6)] 2(7,9) by (simp add: BRACKETED_PASTE_END_def)
  ultimately show ?case by simp
qed

declare process_string.simps [simp del]

datatype stdin_chunk = Text jsstring | Bytes "8 word list"

text \<open>A lone high byte is the old way to send a key with Meta; other bytes are UTF-8.\<close>

definition chunk_text :: "stdin_chunk \<Rightarrow> jsstring" where
  "chunk_text c =
     (case c of
        Text s \<Rightarrow> s
      | Bytes bs \<Rightarrow>
          (if length bs = 1 \<and> unat (hd bs) > 127 then [27, of_nat (unat (hd bs) - 128)]
           else (case decode_bytes new_decoder bs of (out, d) \<Rightarrow> concat (map dec (out @ fst (decode_end d))))))"

definition process_chunk :: "stdin_chunk \<Rightarrow> stdin_buffer \<Rightarrow> stdin_buffer" where
  "process_chunk c = process_string (chunk_text c)"

definition flush_stdin :: "stdin_buffer \<Rightarrow> jsstring list \<times> stdin_buffer" where
  "flush_stdin b =
     (let b1 = b\<lparr>sb_timeout := False\<rparr>
      in if sb_buffer b1 = [] then ([], b1)
         else ([sb_buffer b1], b1\<lparr>sb_buffer := [], sb_pendingKittyPrintableCodepoint := None\<rparr>))"

text \<open>The timer fires.\<close>

definition stdin_timeout :: "stdin_buffer \<Rightarrow> stdin_buffer" where
  "stdin_timeout b =
     (if \<not> sb_timeout b then b
      else (case flush_stdin b of (flushed, b1) \<Rightarrow> emit_sequences flushed b1))"

definition clear_stdin :: "stdin_buffer \<Rightarrow> stdin_buffer" where
  "clear_stdin b =
     b\<lparr>sb_timeout := False, sb_buffer := [], sb_pasteMode := False, sb_pasteBuffer := [],
       sb_pendingKittyPrintableCodepoint := None\<rparr>"

end
