(* ===== verification/Stdin_Properties.thy ===== *)
theory Stdin_Properties
  imports Stdin_Buffer
begin

text \<open>What the input buffer of \<open>Stdin_Buffer\<close> reports does not depend on how the input is cut into chunks.\<close>

section \<open>Searching\<close>

lemma take_before: "n \<le> length xs \<Longrightarrow> take n (xs @ ys) = take n xs"
  by simp

lemma drop_before: "n \<le> length xs \<Longrightarrow> drop n (xs @ ys) = drop n xs @ ys"
  by simp

lemma sublist_within:
  assumes "sublist x u"
  shows "sublist x (u @ v)" "sublist x (v @ u)"
proof -
  from assms obtain a b where u: "u = a @ x @ b" by (auto simp: sublist_def)
  then have "u @ v = a @ x @ (b @ v)" "v @ u = (v @ a) @ x @ b" by simp_all
  then show "sublist x (u @ v)" "sublist x (v @ u)" unfolding sublist_def by blast+
qed

lemma indexOf_append: "indexOf s p = Some i \<Longrightarrow> indexOf (s @ t) p = Some i"
proof (induction s arbitrary: i)
  case Nil
  then have "p = []" "i = 0" by (simp_all split: if_splits)
  then show ?case by (cases t) simp_all
next
  case (Cons x s)
  show ?case
  proof (cases "take (length p) (x # s) = p")
    case True
    then have "length p \<le> length (x # s)" by (metis length_take min.cobounded1)
    from take_before [OF this, of t] have "take (length p) (x # s @ t) = take (length p) (x # s)" by simp
    with True Cons.prems show ?thesis by simp
  next
    case False
    with Cons.prems obtain j where j: "indexOf s p = Some j" "i = Suc j" by auto
    have l: "length p \<le> length s" using indexOf_Some [OF j(1)] by simp
    then have "take (length p) (x # s @ t) = take (length p) (x # s)" using take_before [of "length p" "x # s" t] by simp
    with False Cons.IH [OF j(1)] j(2) show ?thesis by simp
  qed
qed

lemma indexOf_sublist: "indexOf s p = None \<longleftrightarrow> \<not> sublist p s"
proof
  assume n: "indexOf s p = None"
  show "\<not> sublist p s"
  proof
    assume "sublist p s"
    then obtain a b where s: "s = a @ p @ b" by (auto simp: sublist_def)
    have "indexOf (p @ b) p \<noteq> None"
    proof (cases "p @ b")
      case (Cons x y)
      then have "take (length p) (x # y) = p" by (metis append_eq_conv_conj)
      with Cons show ?thesis by simp
    qed simp
    then have "indexOf (a @ p @ b) p \<noteq> None" by (induction a) auto
    with n s show False by simp
  qed
next
  assume "\<not> sublist p s"
  moreover have "sublist p s" if i: "indexOf s p = Some i" for i
  proof -
    have "s = take i s @ p @ drop (length p) (drop i s)"
      using indexOf_Some [OF i] by (metis append_take_drop_id)
    then show ?thesis unfolding sublist_def by blast
  qed
  ultimately show "indexOf s p = None" by (cases "indexOf s p") auto
qed

section \<open>Sequences\<close>

lemma sequence_end_bounds: "sequence_end s = Some k \<Longrightarrow> 0 < k \<and> k \<le> length s"
  by (auto simp: sequence_end_def find_Some_iff simp del: upt_Suc)

lemma find_append: "find P (xs @ ys) = (case find P xs of Some x \<Rightarrow> Some x | None \<Rightarrow> find P ys)"
  by (induction xs) simp_all

lemma sequence_end_append: "sequence_end s = Some k \<Longrightarrow> sequence_end (s @ t) = Some k"
proof -
  assume k: "sequence_end s = Some k"
  have "find (\<lambda>k. isCompleteSequence (take k (s @ t)) \<noteq> IncompleteSeq) [1..<Suc (length s)]
      = find (\<lambda>k. isCompleteSequence (take k s) \<noteq> IncompleteSeq) [1..<Suc (length s)]"
    by (rule find_cong) (auto simp del: upt_Suc)
  moreover have "[1..<Suc (length (s @ t))] = [1..<Suc (length s)] @ [Suc (length s)..<Suc (length (s @ t))]"
    using upt_add_eq_append [of 1 "Suc (length s)" "length t"] by simp
  ultimately show ?thesis using k by (simp add: sequence_end_def find_append del: upt_Suc)
qed

lemma extract_rest: "extractCompleteSequences s = (q, r) \<Longrightarrow> concat q @ r = s"
proof (induction s arbitrary: q rule: extractCompleteSequences.induct)
  case (2 c cs)
  show ?case
  proof (cases "c = 27")
    case True
    show ?thesis
    proof (cases "sequence_end (c # cs)")
      case None
      with True 2(3) show ?thesis by simp
    next
      case (Some k)
      obtain q' where e: "extractCompleteSequences (drop k (c # cs)) = (q', r)" "q = take k (c # cs) # q'"
        using 2(3) True Some by (cases "extractCompleteSequences (drop k (c # cs))") simp
      from 2(1) [OF True Some e(1)] show ?thesis by (simp add: e(2))
    qed
  next
    case False
    obtain q' where e: "extractCompleteSequences cs = (q', r)" "q = [c] # q'"
      using 2(3) False by (cases "extractCompleteSequences cs") simp
    from 2(2) [OF False e(1)] show ?thesis by (simp add: e(2))
  qed
qed simp

lemma extract_append:
  "extractCompleteSequences s = (q, r) \<Longrightarrow>
     extractCompleteSequences (s @ t) = apfst ((@) q) (extractCompleteSequences (r @ t))"
proof (induction s arbitrary: q rule: extractCompleteSequences.induct)
  case 1
  then show ?case by (cases "extractCompleteSequences t") simp
next
  case (2 c cs)
  show ?case
  proof (cases "c = 27")
    case True
    show ?thesis
    proof (cases "sequence_end (c # cs)")
      case None
      with True 2(3) have "q = []" "r = c # cs" by simp_all
      then show ?thesis by (cases "extractCompleteSequences ((c # cs) @ t)") (simp del: extractCompleteSequences.simps)
    next
      case (Some k)
      obtain q' where e: "extractCompleteSequences (drop k (c # cs)) = (q', r)" "q = take k (c # cs) # q'"
        using 2(3) True Some by (cases "extractCompleteSequences (drop k (c # cs))") simp
      have k: "k \<le> length (c # cs)" using sequence_end_bounds [OF Some] by simp
      have "extractCompleteSequences ((c # cs) @ t)
          = apfst ((#) (take k (c # cs))) (extractCompleteSequences (drop k (c # cs) @ t))"
        using True sequence_end_append [OF Some, of t] take_before [OF k, of t] drop_before [OF k, of t] by simp
      with 2(1) [OF True Some e(1)] show ?thesis
        by (cases "extractCompleteSequences (r @ t)") (simp add: e(2) del: extractCompleteSequences.simps)
    qed
  next
    case False
    obtain q' where e: "extractCompleteSequences cs = (q', r)" "q = [c] # q'"
      using 2(3) False by (cases "extractCompleteSequences cs") simp
    from 2(2) [OF False e(1)] False show ?thesis by (cases "extractCompleteSequences (r @ t)") (simp add: e(2))
  qed
qed

section \<open>Keys\<close>

lemma process_keys_string:
  assumes "str \<noteq> []" "\<not> sb_pasteMode b" "\<not> sublist BRACKETED_PASTE_START (sb_buffer b @ str)"
  shows "process_string str b = process_keys (b\<lparr>sb_timeout := False, sb_buffer := sb_buffer b @ str\<rparr>)"
  using assms by (subst process_string.simps) (simp add: Let_def indexOf_sublist)

lemma emit_commutes [simp]:
  "emitDataSequence q (b\<lparr>sb_buffer := x\<rparr>) = (emitDataSequence q b)\<lparr>sb_buffer := x\<rparr>"
  "emitDataSequence q (b\<lparr>sb_timeout := y\<rparr>) = (emitDataSequence q b)\<lparr>sb_timeout := y\<rparr>"
  by (cases "sb_pendingKittyPrintableCodepoint b"; simp add: emitDataSequence_def Let_def split: list.splits)+

lemma emit_sequences_commutes [simp]:
  "emit_sequences qs (b\<lparr>sb_buffer := x\<rparr>) = (emit_sequences qs b)\<lparr>sb_buffer := x\<rparr>"
  "emit_sequences qs (b\<lparr>sb_timeout := y\<rparr>) = (emit_sequences qs b)\<lparr>sb_timeout := y\<rparr>"
  by (induction qs arbitrary: b) (simp_all add: emit_sequences_def)

lemma emit_sequences_append [simp]: "emit_sequences (ps @ qs) b = emit_sequences qs (emit_sequences ps b)"
  by (simp add: emit_sequences_def)

lemma process_two_chunks:
  assumes "s \<noteq> []" "t \<noteq> []" "\<not> sb_pasteMode b" "\<not> sublist BRACKETED_PASTE_START (sb_buffer b @ s @ t)"
  shows "process_string t (process_string s b) = process_string (s @ t) b"
    "\<not> sb_pasteMode (process_string s b) \<and> \<not> sublist BRACKETED_PASTE_START (sb_buffer (process_string s b) @ t)"
proof -
  obtain q r where e: "extractCompleteSequences (sb_buffer b @ s) = (q, r)" by fastforce
  obtain q2 r2 where e2: "extractCompleteSequences (r @ t) = (q2, r2)" by fastforce
  have e3: "extractCompleteSequences (sb_buffer b @ s @ t) = (q @ q2, r2)"
    using extract_append [OF e, of t] e2 by simp
  have n: "\<not> sublist BRACKETED_PASTE_START (sb_buffer b @ s)"
    using assms(4) sublist_within(1) [of _ "sb_buffer b @ s" t] by auto
  have "sb_buffer b @ s @ t = concat q @ r @ t" using arg_cong [OF extract_rest [OF e], of "\<lambda>x. x @ t"] by simp
  with assms(4) have n2: "\<not> sublist BRACKETED_PASTE_START (r @ t)" using sublist_within(2) by auto
  note k1 = process_keys_string [OF assms(1,3) n]
  have p: "\<not> sb_pasteMode (process_string s b)" "sb_buffer (process_string s b) = r"
    using assms(3) by (simp_all add: k1 process_keys_def e Let_def)
  with n2 show "\<not> sb_pasteMode (process_string s b) \<and> \<not> sublist BRACKETED_PASTE_START (sb_buffer (process_string s b) @ t)"
    by simp
  have st: "s @ t \<noteq> []" using assms(1) by simp
  let ?b = "emit_sequences q (b\<lparr>sb_timeout := False\<rparr>)"
  have b1: "process_string s b = ?b\<lparr>sb_buffer := r, sb_timeout := (r \<noteq> [])\<rparr>"
    by (simp add: k1 process_keys_def e Let_def)
  have "process_string t (process_string s b) = process_keys ((process_string s b)\<lparr>sb_timeout := False, sb_buffer := r @ t\<rparr>)"
    using process_keys_string [OF assms(2) p(1)] n2 by (simp add: p(2))
  also have "\<dots> = process_keys (?b\<lparr>sb_timeout := False, sb_buffer := r @ t\<rparr>)" by (simp add: b1)
  also have "\<dots> = process_keys (b\<lparr>sb_timeout := False, sb_buffer := sb_buffer b @ s @ t\<rparr>)"
    by (simp add: process_keys_def e2 e3 Let_def)
  also have "\<dots> = process_string (s @ t) b" using process_keys_string [OF st assms(3,4)] by simp
  finally show "process_string t (process_string s b) = process_string (s @ t) b" .
qed

text \<open>C36 Keys and escape sequences are reported the same however the input is cut: fed in any chunks that are not empty,
  an input without the start of a paste leaves the buffer, its events included, as when it comes in one piece.\<close>

theorem keys_independent_of_chunks:
  assumes "chunks \<noteq> []" "[] \<notin> set chunks" "\<not> sb_pasteMode b"
    and "\<not> sublist BRACKETED_PASTE_START (sb_buffer b @ concat chunks)"
  shows "fold process_string chunks b = process_string (concat chunks) b"
  using assms
proof (induction chunks arbitrary: b)
  case (Cons c cs)
  show ?case
  proof (cases cs)
    case (Cons d ds)
    then have ne: "concat cs \<noteq> []" "cs \<noteq> []" using Cons.prems(2) by auto
    have c: "c \<noteq> []" using Cons.prems(2) by auto
    have n: "\<not> sublist BRACKETED_PASTE_START (sb_buffer b @ c @ concat cs)" using Cons.prems(4) by simp
    note t = process_two_chunks [OF c ne(1) Cons.prems(3) n]
    have "fold process_string cs (process_string c b) = process_string (concat cs) (process_string c b)"
      using Cons.IH [OF ne(2), of "process_string c b"] Cons.prems(2) t(2) by simp
    with t(1) show ?thesis by simp
  qed simp
qed simp

lemma keys_independent_of_chunks_witness:
  "fold process_string [[27], [91], js ''<35;20;5'', js ''ma''] new_stdin_buffer
     = process_string (27 # js ''[<35;20;5ma'') new_stdin_buffer"
proof -
  have "\<not> sb_pasteMode new_stdin_buffer" "\<not> sublist BRACKETED_PASTE_START (sb_buffer new_stdin_buffer
      @ concat [[27], [91], js ''<35;20;5'', js ''ma''])"
    by (simp_all add: new_stdin_buffer_def BRACKETED_PASTE_START_def js_def indexOf_sublist [symmetric])
  from keys_independent_of_chunks [OF _ _ this] show ?thesis by (simp add: js_def)
qed

section \<open>Pastes\<close>

text \<open>The end of a paste holds one escape, its first character, so that no two occurrences overlap.\<close>

lemma paste_end_first:
  assumes "\<not> sublist BRACKETED_PASTE_END t"
  shows "indexOf (t @ BRACKETED_PASTE_END) BRACKETED_PASTE_END = Some (length t)"
proof -
  let ?e = "BRACKETED_PASTE_END"
  have "indexOf (t @ ?e) ?e \<noteq> None" using sublist_within(2) [of ?e ?e t] by (simp add: indexOf_sublist)
  then obtain i where i: "indexOf (t @ ?e) ?e = Some i" by blast
  note b = indexOf_Some [OF i]
  have l: "length ?e = 6" by (simp add: BRACKETED_PASTE_END_def js_def)
  have hit: "take 6 (drop i (t @ ?e)) = ?e" using b unfolding l by blast
  consider "i = length t" | "i + 6 \<le> length t" | "i < length t" "length t < i + 6"
    using b by (fastforce simp: l)
  then show ?thesis
  proof cases
    case 2
    then have "take 6 (drop i t) = ?e" using hit by simp
    then have "t = take i t @ ?e @ drop 6 (drop i t)" by (metis append_take_drop_id)
    with assms show ?thesis unfolding sublist_def by blast
  next
    case 3
    let ?j = "length t - i"
    have "?e ! ?j = take 6 (drop i (t @ ?e)) ! ?j" by (simp only: hit)
    also have "\<dots> = (t @ ?e) ! (i + ?j)" using 3 by (simp del: take_append drop_append)
    also have "\<dots> = 27" using 3 by (simp add: nth_append BRACKETED_PASTE_END_def)
    finally have j: "?e ! ?j = 27" .
    have "\<forall>j \<in> {1..<6}. ?e ! j \<noteq> 27" by code_simp
    moreover have "?j \<in> {1..<6}" using 3 by auto
    ultimately show ?thesis using j by blast
  qed (simp add: i)
qed

lemma paste_open:
  assumes "\<not> sublist BRACKETED_PASTE_END t" "strict_prefix y (t @ BRACKETED_PASTE_END)"
  shows "indexOf y BRACKETED_PASTE_END = None"
proof (cases "indexOf y BRACKETED_PASTE_END")
  case (Some i)
  obtain z where z: "t @ BRACKETED_PASTE_END = y @ z" "z \<noteq> []" using assms(2) by (auto simp: strict_prefix_def prefix_def)
  have "i = length t" using indexOf_append [OF Some, of z] paste_end_first [OF assms(1)] z(1) by simp
  moreover have "length y < length t + length BRACKETED_PASTE_END" using arg_cong [OF z(1), of length] z(2) by simp
  ultimately show ?thesis using indexOf_Some [OF Some] by simp
qed

text \<open>The buffer when the beginning \<open>x\<close> of a paste was read.\<close>

definition paste_read :: "jsstring \<Rightarrow> stdin_event list \<Rightarrow> stdin_buffer \<Rightarrow> bool" where
  "paste_read x ev b \<longleftrightarrow> sb_events b = ev \<and>
     (if length x < 6 then sb_buffer b = x \<and> \<not> sb_pasteMode b \<and> sb_pasteBuffer b = []
      else sb_buffer b = [] \<and> sb_pasteMode b \<and> sb_pasteBuffer b = drop 6 x)"

lemma start_incomplete:
  assumes "strict_prefix x BRACKETED_PASTE_START"
  shows "extractCompleteSequences x = ([], x)" "indexOf x BRACKETED_PASTE_START = None"
proof -
  have "x \<in> set (map (\<lambda>n. take n BRACKETED_PASTE_START) [0..<6])"
  proof -
    obtain z where z: "BRACKETED_PASTE_START = x @ z" "z \<noteq> []" using assms by (metis append_Nil2 prefix_def strict_prefix_def)
    then have "x = take (length x) BRACKETED_PASTE_START" by (metis append_eq_conv_conj)
    moreover have "length x < length BRACKETED_PASTE_START" using arg_cong [OF z(1), of length] z(2) by simp
    ultimately have "x = take (length x) BRACKETED_PASTE_START \<and> length x < length BRACKETED_PASTE_START" by blast
    then show ?thesis by (auto simp: BRACKETED_PASTE_START_def js_def)
  qed
  moreover have "list_all (\<lambda>x. extractCompleteSequences x = ([], x) \<and> indexOf x BRACKETED_PASTE_START = None)
      (map (\<lambda>n. take n BRACKETED_PASTE_START) [0..<6])"
    by code_simp
  ultimately show "extractCompleteSequences x = ([], x)" "indexOf x BRACKETED_PASTE_START = None"
    unfolding list_all_iff by blast+
qed

lemma indexOf_at_start: "indexOf (p @ s) p = Some 0"
proof (cases "p @ s")
  case (Cons a list)
  then have "take (length p) (a # list) = p" by (metis append_eq_conv_conj)
  with Cons show ?thesis by simp
qed simp

text \<open>The end of the paste is looked for in what was pasted so far.\<close>

definition after_paste :: "stdin_buffer \<Rightarrow> stdin_buffer" where
  "after_paste b =
     (case indexOf (sb_pasteBuffer b) BRACKETED_PASTE_END of
        None \<Rightarrow> b
      | Some endIndex \<Rightarrow>
          (let remaining = drop (endIndex + length BRACKETED_PASTE_END) (sb_pasteBuffer b);
               b1 = end_paste (take endIndex (sb_pasteBuffer b)) b
           in if remaining = [] then b1 else process_string remaining b1))"

lemma process_pasting:
  "c \<noteq> [] \<Longrightarrow> sb_pasteMode b \<Longrightarrow>
     process_string c b
       = after_paste (b\<lparr>sb_timeout := False, sb_pasteBuffer := sb_pasteBuffer b @ sb_buffer b @ c, sb_buffer := []\<rparr>)"
  by (subst process_string.simps) (simp add: after_paste_def Let_def)

lemma process_paste_start:
  "c \<noteq> [] \<Longrightarrow> \<not> sb_pasteMode b \<Longrightarrow> indexOf (sb_buffer b @ c) BRACKETED_PASTE_START = Some i \<Longrightarrow>
     process_string c b = after_paste (start_paste i (b\<lparr>sb_timeout := False, sb_buffer := sb_buffer b @ c\<rparr>))"
  by (subst process_string.simps) (simp add: after_paste_def Let_def)

lemma paste_grows:
  assumes b: "paste_read x ev b" and c: "c \<noteq> []" and y: "x @ c = BRACKETED_PASTE_START @ y"
  shows "\<exists>b2. sb_events b2 = ev \<and> sb_buffer b2 = [] \<and> sb_pasteMode b2 \<and> sb_pasteBuffer b2 = y
     \<and> process_string c b = after_paste b2"
proof (cases "length x < 6")
  case True
  then have x: "\<not> sb_pasteMode b" "sb_buffer b = x" "sb_events b = ev" using b by (simp_all add: paste_read_def)
  then have i: "indexOf (sb_buffer b @ c) BRACKETED_PASTE_START = Some 0" using y indexOf_at_start by simp
  show ?thesis
    by (intro exI [of _ "start_paste 0 (b\<lparr>sb_timeout := False, sb_buffer := sb_buffer b @ c\<rparr>)"])
      (simp add: process_paste_start [OF c x(1) i] start_paste_def emit_sequences_def x(2,3) y)
next
  case False
  then have x: "sb_pasteMode b" "sb_buffer b = []" "sb_events b = ev" "sb_pasteBuffer b = drop 6 x"
    using b by (simp_all add: paste_read_def)
  have "drop 6 x @ c = y" using arg_cong [OF y, of "drop 6"] False by (simp add: BRACKETED_PASTE_START_def js_def)
  with x show ?thesis
    by (intro exI [of _ "b\<lparr>sb_timeout := False, sb_pasteBuffer := sb_pasteBuffer b @ sb_buffer b @ c, sb_buffer := []\<rparr>"])
      (simp add: process_pasting [OF c x(1)])
qed

text \<open>One chunk more: its end is that of the paste, or the paste goes on.\<close>

lemma paste_chunk:
  assumes b: "paste_read x ev b" and c: "c \<noteq> []" and t: "\<not> sublist BRACKETED_PASTE_END t"
    and p: "prefix (x @ c) (BRACKETED_PASTE_START @ t @ BRACKETED_PASTE_END)"
  shows "if x @ c = BRACKETED_PASTE_START @ t @ BRACKETED_PASTE_END
     then sb_events (process_string c b) = ev @ [StdinPaste t] \<and> sb_buffer (process_string c b) = []
       \<and> \<not> sb_pasteMode (process_string c b) \<and> sb_pasteBuffer (process_string c b) = []
     else paste_read (x @ c) ev (process_string c b)"
proof (cases "length (x @ c) < 6")
  case True
  have l: "length BRACKETED_PASTE_START = 6" by (simp add: BRACKETED_PASTE_START_def js_def)
  have ne: "x @ c \<noteq> BRACKETED_PASTE_START" using True l by (metis less_irrefl)
  have "strict_prefix (x @ c) BRACKETED_PASTE_START"
    using prefix_length_prefix [OF p, of BRACKETED_PASTE_START] True l ne by (simp add: strict_prefix_def)
  note i = start_incomplete [OF this]
  have "paste_read (x @ c) ev (process_string c b)"
    using b c True i by (subst process_string.simps) (simp add: paste_read_def Let_def process_keys_def emit_sequences_def)
  moreover have "x @ c \<noteq> BRACKETED_PASTE_START @ t @ BRACKETED_PASTE_END"
  proof
    assume "x @ c = BRACKETED_PASTE_START @ t @ BRACKETED_PASTE_END"
    from arg_cong [OF this, of length] True l show False by simp
  qed
  ultimately show ?thesis by simp
next
  case False
  have l: "length BRACKETED_PASTE_START = 6" by (simp add: BRACKETED_PASTE_START_def js_def)
  have "prefix BRACKETED_PASTE_START (x @ c)" using p False l by (metis not_less prefixI prefix_length_prefix)
  then obtain y where y: "x @ c = BRACKETED_PASTE_START @ y" by (auto simp: prefix_def)
  have d: "drop 6 (x @ c) = y" by (simp add: y l)
  have p2: "prefix y (t @ BRACKETED_PASTE_END)" using p y by simp
  obtain b2 where b2: "sb_events b2 = ev" "sb_buffer b2 = []" "sb_pasteMode b2" "sb_pasteBuffer b2 = y"
    and r: "process_string c b = after_paste b2"
    using paste_grows [OF b c y] by blast
  show ?thesis
  proof (cases "y = t @ BRACKETED_PASTE_END")
    case True
    then show ?thesis using y r b2 paste_end_first [OF t] by (simp add: after_paste_def Let_def end_paste_def)
  next
    case False
    then have "indexOf y BRACKETED_PASTE_END = None" using paste_open [OF t] p2 by (simp add: strict_prefix_def)
    then have "paste_read (x @ c) ev (process_string c b)"
      using r b2 \<open>\<not> length (x @ c) < 6\<close> d by (simp add: paste_read_def after_paste_def)
    with False y show ?thesis by simp
  qed
qed

lemma paste_chunks:
  assumes "paste_read x ev b" "[] \<notin> set chunks" "chunks \<noteq> []" "\<not> sublist BRACKETED_PASTE_END t"
    and "x @ concat chunks = BRACKETED_PASTE_START @ t @ BRACKETED_PASTE_END"
  shows "sb_events (fold process_string chunks b) = ev @ [StdinPaste t] \<and> sb_buffer (fold process_string chunks b) = []
     \<and> \<not> sb_pasteMode (fold process_string chunks b) \<and> sb_pasteBuffer (fold process_string chunks b) = []"
  using assms
proof (induction chunks arbitrary: x b)
  case (Cons c cs)
  have c: "c \<noteq> []" using Cons.prems(2) by auto
  have p: "prefix (x @ c) (BRACKETED_PASTE_START @ t @ BRACKETED_PASTE_END)"
    using Cons.prems(5) by (metis append.assoc concat.simps(2) prefixI)
  note s = paste_chunk [OF Cons.prems(1) c Cons.prems(4) p]
  show ?case
  proof (cases "cs = []")
    case True
    with s Cons.prems(5) show ?thesis by simp
  next
    case False
    then have "concat cs \<noteq> []" using Cons.prems(2) by (cases cs) auto
    then have "x @ c \<noteq> BRACKETED_PASTE_START @ t @ BRACKETED_PASTE_END" using Cons.prems(5)
      by (metis append.assoc append_self_conv concat.simps(2))
    with s have "paste_read (x @ c) ev (process_string c b)" by simp
    from Cons.IH [OF this _ False Cons.prems(4)] Cons.prems(2,5) show ?thesis by simp
  qed
qed simp

text \<open>C37 A paste is one event, whatever it holds and however it is cut: the marks of its beginning and its end, and
  between them a text without the mark of the end, fed in any chunks to a buffer that waits for nothing, report the
  text once, unchanged, and no key; the buffer is empty again and out of the paste mode.\<close>

theorem paste_delivered:
  assumes "sb_buffer b = []" "\<not> sb_pasteMode b" "sb_pasteBuffer b = []"
    and "\<not> sublist BRACKETED_PASTE_END t"
    and "[] \<notin> set chunks" "concat chunks = BRACKETED_PASTE_START @ t @ BRACKETED_PASTE_END"
  shows "sb_events (fold process_string chunks b) = sb_events b @ [StdinPaste t]
     \<and> sb_buffer (fold process_string chunks b) = [] \<and> \<not> sb_pasteMode (fold process_string chunks b)
     \<and> sb_pasteBuffer (fold process_string chunks b) = []"
proof (rule paste_chunks [OF _ assms(5) _ assms(4)])
  show "paste_read [] (sb_events b) b" using assms(1-3) by (simp add: paste_read_def)
  show "chunks \<noteq> []" using assms(6) by (auto simp: BRACKETED_PASTE_START_def)
qed (simp add: assms(6))

lemma paste_delivered_witness:
  "sb_events (fold process_string [27 # js ''[20'', js ''0~a'', 27 # js ''[A'' @ [27], js ''[201'', js ''~''] new_stdin_buffer)
     = [StdinPaste (js ''a'' @ 27 # js ''[A'')]"
proof -
  have n: "sb_buffer new_stdin_buffer = []" "\<not> sb_pasteMode new_stdin_buffer" "sb_pasteBuffer new_stdin_buffer = []"
    by (simp_all add: new_stdin_buffer_def)
  have t: "\<not> sublist BRACKETED_PASTE_END (js ''a'' @ 27 # js ''[A'')"
    by (simp add: BRACKETED_PASTE_END_def js_def indexOf_sublist [symmetric])
  have c: "[] \<notin> set [27 # js ''[20'', js ''0~a'', 27 # js ''[A'' @ [27], js ''[201'', js ''~'']"
    "concat [27 # js ''[20'', js ''0~a'', 27 # js ''[A'' @ [27], js ''[201'', js ''~'']
       = BRACKETED_PASTE_START @ (js ''a'' @ 27 # js ''[A'') @ BRACKETED_PASTE_END"
    by (simp_all add: js_def BRACKETED_PASTE_START_def BRACKETED_PASTE_END_def)
  from paste_delivered [OF n t c] show ?thesis by (simp add: new_stdin_buffer_def)
qed

section \<open>What the buffer loses\<close>

text \<open>A sequence that is unfinished, here the escape key, is dropped when a paste comes before the timer.\<close>

lemma sequence_before_paste_lost:
  "sb_events (fold process_string [[27], BRACKETED_PASTE_START @ js ''a'' @ BRACKETED_PASTE_END] new_stdin_buffer)
     = [StdinPaste (js ''a'')]"
  by code_simp

text \<open>Where a paste starts is not independent of the chunks: after two escapes the second is taken for the end of a key.\<close>

lemma paste_start_split:
  "sb_events (process_string (27 # BRACKETED_PASTE_START) new_stdin_buffer) = []"
  "sb_pasteMode (process_string (27 # BRACKETED_PASTE_START) new_stdin_buffer)"
  "sb_events (fold process_string [[27, 27], js ''[200~''] new_stdin_buffer)
     = StdinData [27, 27] # map (\<lambda>c. StdinData [c]) (js ''[200~'')"
  by code_simp+

end
