(* ===== verification/Run_Database.thy ===== *)
theory Run_Database
  imports Js_Prelude Json_Text
begin

text \<open>
  The store of the web workspace, \<open>packages/web-workspace/src/runtime-db.ts\<close>: clients, sessions, messages, runs
  and the events of runs in an SQL database. A table is the list of its rows in the order of insertion; the statements
  are functions on the tables, with the primary keys and foreign keys of the schema, and a statement that breaks
  one throws. A transaction that throws leaves the database as it was. The clock is an argument.
\<close>

section \<open>Statuses\<close>

datatype run_status =
  QueuedRun | RunningRun | CancellingRun | CancelledRun | CompletedRun | FailedRun | InterruptedRun

definition TERMINAL_RUN_STATUSES :: "run_status list" where
  "TERMINAL_RUN_STATUSES = [CancelledRun, CompletedRun, FailedRun, InterruptedRun]"

section \<open>Rows and records\<close>

record session_row =
  sw_session_id :: jsstring
  sw_client_id :: jsstring
  sw_title :: jsstring
  sw_model_json :: jsstring
  sw_thinking_level :: jsstring
  sw_created_at :: jsstring
  sw_updated_at :: jsstring
  sw_last_run_status :: "run_status option"
  sw_last_run_id :: "jsstring option"

record message_row =
  mw_id :: nat
  mw_session_id :: jsstring
  mw_client_id :: jsstring
  mw_role :: jsstring
  mw_payload_json :: jsstring
  mw_created_at :: jsstring

record run_row =
  rw_run_id :: jsstring
  rw_session_id :: jsstring
  rw_client_id :: jsstring
  rw_status :: run_status
  rw_worker_id :: "jsstring option"
  rw_model_json :: jsstring
  rw_thinking_level :: jsstring
  rw_started_at :: "jsstring option"
  rw_updated_at :: jsstring
  rw_ended_at :: "jsstring option"
  rw_error :: "jsstring option"

record run_event_row =
  ew_id :: nat
  ew_run_id :: jsstring
  ew_session_id :: jsstring
  ew_client_id :: jsstring
  ew_seq :: nat
  ew_event_type :: jsstring
  ew_payload_json :: jsstring
  ew_created_at :: jsstring

record client_row =
  cw_client_id :: jsstring
  cw_created_at :: jsstring
  cw_updated_at :: jsstring

text \<open>The tables, and the next ids of the two with an automatic one.\<close>

record runtime_db =
  db_clients :: "client_row list"
  db_sessions :: "session_row list"
  db_messages :: "message_row list"
  db_next_message :: nat
  db_runs :: "run_row list"
  db_run_events :: "run_event_row list"
  db_next_event :: nat

definition new_runtime_db :: runtime_db where
  "new_runtime_db =
     \<lparr>db_clients = [], db_sessions = [], db_messages = [], db_next_message = 1, db_runs = [],
      db_run_events = [], db_next_event = 1\<rparr>"

record runtime_session =
  rs_sessionId :: jsstring
  rs_clientId :: jsstring
  rs_title :: jsstring
  rs_model :: json
  rs_thinkingLevel :: jsstring
  rs_createdAt :: jsstring
  rs_updatedAt :: jsstring
  rs_lastRunStatus :: "run_status option"
  rs_lastRunId :: "jsstring option"

record runtime_message =
  rm_messageId :: nat
  rm_sessionId :: jsstring
  rm_clientId :: jsstring
  rm_role :: jsstring
  rm_payload :: json
  rm_createdAt :: jsstring

record runtime_run =
  rr_runId :: jsstring
  rr_sessionId :: jsstring
  rr_clientId :: jsstring
  rr_status :: run_status
  rr_workerId :: "jsstring option"
  rr_model :: json
  rr_thinkingLevel :: jsstring
  rr_startedAt :: "jsstring option"
  rr_updatedAt :: jsstring
  rr_endedAt :: "jsstring option"
  rr_error :: "jsstring option"

record runtime_event =
  re_eventId :: nat
  re_runId :: jsstring
  re_sessionId :: jsstring
  re_clientId :: jsstring
  re_seq :: nat
  re_type :: jsstring
  re_payload :: json
  re_createdAt :: jsstring

text \<open>An empty text counts as absent, as in \<open>row.error ? { error: row.error } : {}\<close>.\<close>

definition nonempty_text :: "jsstring option \<Rightarrow> jsstring option" where
  "nonempty_text t = (case t of Some [] \<Rightarrow> None | _ \<Rightarrow> t)"

fun isObject :: "json \<Rightarrow> bool" where
  "isObject (JObj kvs) \<longleftrightarrow> True"
| "isObject _ \<longleftrightarrow> False"

definition parseJsonObject :: "jsstring \<Rightarrow> jsstring + json" where
  "parseJsonObject s =
     (case json_parse s of
        None \<Rightarrow> Inl (js ''SyntaxError'')
      | Some parsed \<Rightarrow> Inr (if isObject parsed then parsed else JObj []))"

definition toSessionRecord :: "session_row \<Rightarrow> jsstring + runtime_session" where
  "toSessionRecord row =
     (case parseJsonObject (sw_model_json row) of
        Inl e \<Rightarrow> Inl e
      | Inr model \<Rightarrow>
          Inr \<lparr>rs_sessionId = sw_session_id row, rs_clientId = sw_client_id row, rs_title = sw_title row, rs_model = model,
               rs_thinkingLevel = sw_thinking_level row, rs_createdAt = sw_created_at row, rs_updatedAt = sw_updated_at row,
               rs_lastRunStatus = sw_last_run_status row, rs_lastRunId = nonempty_text (sw_last_run_id row)\<rparr>)"

definition toMessageRecord :: "message_row \<Rightarrow> jsstring + runtime_message" where
  "toMessageRecord row =
     (case parseJsonObject (mw_payload_json row) of
        Inl e \<Rightarrow> Inl e
      | Inr payload \<Rightarrow>
          Inr \<lparr>rm_messageId = mw_id row, rm_sessionId = mw_session_id row, rm_clientId = mw_client_id row,
               rm_role = mw_role row, rm_payload = payload, rm_createdAt = mw_created_at row\<rparr>)"

definition toRunRecord :: "run_row \<Rightarrow> jsstring + runtime_run" where
  "toRunRecord row =
     (case parseJsonObject (rw_model_json row) of
        Inl e \<Rightarrow> Inl e
      | Inr model \<Rightarrow>
          Inr \<lparr>rr_runId = rw_run_id row, rr_sessionId = rw_session_id row, rr_clientId = rw_client_id row,
               rr_status = rw_status row, rr_workerId = nonempty_text (rw_worker_id row), rr_model = model,
               rr_thinkingLevel = rw_thinking_level row, rr_startedAt = nonempty_text (rw_started_at row),
               rr_updatedAt = rw_updated_at row, rr_endedAt = nonempty_text (rw_ended_at row),
               rr_error = nonempty_text (rw_error row)\<rparr>)"

definition toRunEventRecord :: "run_event_row \<Rightarrow> jsstring + runtime_event" where
  "toRunEventRecord row =
     (case parseJsonObject (ew_payload_json row) of
        Inl e \<Rightarrow> Inl e
      | Inr payload \<Rightarrow>
          Inr \<lparr>re_eventId = ew_id row, re_runId = ew_run_id row, re_sessionId = ew_session_id row,
               re_clientId = ew_client_id row, re_seq = ew_seq row, re_type = ew_event_type row,
               re_payload = payload, re_createdAt = ew_created_at row\<rparr>)"

text \<open>\<open>rows.map(toRecord)\<close>.\<close>

fun map_rows :: "('r \<Rightarrow> jsstring + 'a) \<Rightarrow> 'r list \<Rightarrow> jsstring + 'a list" where
  "map_rows f [] = Inr []"
| "map_rows f (r # rs) =
     (case f r of
        Inl e \<Rightarrow> Inl e
      | Inr x \<Rightarrow> (case map_rows f rs of Inl e \<Rightarrow> Inl e | Inr xs \<Rightarrow> Inr (x # xs)))"

definition map_row :: "('r \<Rightarrow> jsstring + 'a) \<Rightarrow> 'r option \<Rightarrow> jsstring + 'a option" where
  "map_row f row = (case row of None \<Rightarrow> Inr None | Some r \<Rightarrow> map_sum id Some (f r))"

section \<open>Statements\<close>

text \<open>Texts are compared by their code points, which is the order of their bytes.\<close>

fun code_points :: "jsstring \<Rightarrow> nat list" where
  "code_points [] = []"
| "code_points (u # us) =
     (if is_high_surrogate u \<and> us \<noteq> [] \<and> is_low_surrogate (hd us)
      then (0x10000 + (unat u - 0xD800) * 0x400 + (unat (hd us) - 0xDC00)) # code_points (tl us)
      else unat u # code_points us)"

fun points_less :: "nat list \<Rightarrow> nat list \<Rightarrow> bool" where
  "points_less xs [] = False"
| "points_less [] (y # ys) = True"
| "points_less (x # xs) (y # ys) = (x < y \<or> x = y \<and> points_less xs ys)"

definition text_less :: "jsstring \<Rightarrow> jsstring \<Rightarrow> bool" where
  "text_less s t = points_less (code_points s) (code_points t)"

text \<open>\<open>ORDER BY\<close>.\<close>

fun insert_by :: "('a \<Rightarrow> 'a \<Rightarrow> bool) \<Rightarrow> 'a \<Rightarrow> 'a list \<Rightarrow> 'a list" where
  "insert_by lt x [] = [x]"
| "insert_by lt x (y # ys) = (if lt y x then y # insert_by lt x ys else x # y # ys)"

definition order_by :: "('a \<Rightarrow> 'a \<Rightarrow> bool) \<Rightarrow> 'a list \<Rightarrow> 'a list" where
  "order_by lt xs = foldr (insert_by lt) xs []"

definition newest_first :: "('a \<Rightarrow> jsstring) \<Rightarrow> ('a \<Rightarrow> jsstring) \<Rightarrow> 'a \<Rightarrow> 'a \<Rightarrow> bool" where
  "newest_first updated key x y \<longleftrightarrow>
     text_less (updated y) (updated x) \<or> updated x = updated y \<and> text_less (key x) (key y)"

definition oldest_first :: "('a \<Rightarrow> jsstring) \<Rightarrow> ('a \<Rightarrow> jsstring) \<Rightarrow> 'a \<Rightarrow> 'a \<Rightarrow> bool" where
  "oldest_first updated key x y \<longleftrightarrow>
     text_less (updated x) (updated y) \<or> updated x = updated y \<and> text_less (key x) (key y)"

text \<open>The keys.\<close>

definition is_session :: "jsstring \<Rightarrow> jsstring \<Rightarrow> session_row \<Rightarrow> bool" where
  "is_session clientId sessionId row \<longleftrightarrow> sw_client_id row = clientId \<and> sw_session_id row = sessionId"

definition is_run :: "jsstring \<Rightarrow> jsstring \<Rightarrow> run_row \<Rightarrow> bool" where
  "is_run clientId runId row \<longleftrightarrow> rw_client_id row = clientId \<and> rw_run_id row = runId"

definition unique_failed :: "jsstring" where
  "unique_failed = js ''UNIQUE constraint failed''"

definition foreign_key_failed :: "jsstring" where
  "foreign_key_failed = js ''FOREIGN KEY constraint failed''"

definition insert_session :: "session_row \<Rightarrow> (runtime_db, unit) eff" where
  "insert_session row db =
     (if list_ex (is_session (sw_client_id row) (sw_session_id row)) (db_sessions db) then throw unique_failed db
      else if \<not> list_ex (\<lambda>c. cw_client_id c = sw_client_id row) (db_clients db) then throw foreign_key_failed db
      else (Inr (), db\<lparr>db_sessions := db_sessions db @ [row]\<rparr>))"

definition insert_message :: "(nat \<Rightarrow> message_row) \<Rightarrow> (runtime_db, nat) eff" where
  "insert_message row_of db =
     (let row = row_of (db_next_message db)
      in if \<not> list_ex (is_session (mw_client_id row) (mw_session_id row)) (db_sessions db) then throw foreign_key_failed db
         else (Inr (mw_id row), db\<lparr>db_messages := db_messages db @ [row], db_next_message := Suc (db_next_message db)\<rparr>))"

definition insert_run :: "run_row \<Rightarrow> (runtime_db, unit) eff" where
  "insert_run row db =
     (if list_ex (is_run (rw_client_id row) (rw_run_id row)) (db_runs db) then throw unique_failed db
      else if \<not> list_ex (is_session (rw_client_id row) (rw_session_id row)) (db_sessions db) then throw foreign_key_failed db
      else (Inr (), db\<lparr>db_runs := db_runs db @ [row]\<rparr>))"

definition insert_event :: "(nat \<Rightarrow> run_event_row) \<Rightarrow> (runtime_db, nat) eff" where
  "insert_event row_of db =
     (let row = row_of (db_next_event db)
      in if list_ex (\<lambda>e. ew_client_id e = ew_client_id row \<and> ew_run_id e = ew_run_id row \<and> ew_seq e = ew_seq row)
           (db_run_events db) then throw unique_failed db
         else if \<not> list_ex (is_session (ew_client_id row) (ew_session_id row)) (db_sessions db)
           \<or> \<not> list_ex (is_run (ew_client_id row) (ew_run_id row)) (db_runs db) then throw foreign_key_failed db
         else (Inr (ew_id row), db\<lparr>db_run_events := db_run_events db @ [row], db_next_event := Suc (db_next_event db)\<rparr>))"

definition map_where :: "('a \<Rightarrow> bool) \<Rightarrow> ('a \<Rightarrow> 'a) \<Rightarrow> 'a list \<Rightarrow> 'a list" where
  "map_where P f xs = map (\<lambda>x. if P x then f x else x) xs"

definition update_session :: "jsstring \<Rightarrow> jsstring \<Rightarrow> (session_row \<Rightarrow> session_row) \<Rightarrow> (runtime_db, unit) eff" where
  "update_session clientId sessionId f db =
     (Inr (), db\<lparr>db_sessions := map_where (is_session clientId sessionId) f (db_sessions db)\<rparr>)"

definition update_run :: "jsstring \<Rightarrow> jsstring \<Rightarrow> (run_row \<Rightarrow> run_row) \<Rightarrow> (runtime_db, unit) eff" where
  "update_run clientId runId f db =
     (Inr (), db\<lparr>db_runs := map_where (is_run clientId runId) f (db_runs db)\<rparr>)"

text \<open>A row that is still referred to cannot be deleted.\<close>

definition delete_events :: "jsstring \<Rightarrow> jsstring \<Rightarrow> (runtime_db, unit) eff" where
  "delete_events clientId sessionId db =
     (Inr (), db\<lparr>db_run_events :=
        filter (\<lambda>e. \<not> (ew_client_id e = clientId \<and> ew_session_id e = sessionId)) (db_run_events db)\<rparr>)"

definition delete_runs :: "jsstring \<Rightarrow> jsstring \<Rightarrow> (runtime_db, unit) eff" where
  "delete_runs clientId sessionId db =
     (let gone = (\<lambda>r. rw_client_id r = clientId \<and> rw_session_id r = sessionId)
      in if list_ex (\<lambda>e. list_ex (\<lambda>r. gone r \<and> is_run (ew_client_id e) (ew_run_id e) r) (db_runs db)) (db_run_events db)
         then throw foreign_key_failed db
         else (Inr (), db\<lparr>db_runs := filter (\<lambda>r. \<not> gone r) (db_runs db)\<rparr>))"

definition delete_messages :: "jsstring \<Rightarrow> jsstring \<Rightarrow> (runtime_db, unit) eff" where
  "delete_messages clientId sessionId db =
     (Inr (), db\<lparr>db_messages :=
        filter (\<lambda>m. \<not> (mw_client_id m = clientId \<and> mw_session_id m = sessionId)) (db_messages db)\<rparr>)"

definition delete_sessions :: "jsstring \<Rightarrow> jsstring \<Rightarrow> (runtime_db, nat) eff" where
  "delete_sessions clientId sessionId db =
     (let gone = is_session clientId sessionId
      in if list_ex gone (db_sessions db)
           \<and> (list_ex (\<lambda>m. mw_client_id m = clientId \<and> mw_session_id m = sessionId) (db_messages db)
              \<or> list_ex (\<lambda>r. rw_client_id r = clientId \<and> rw_session_id r = sessionId) (db_runs db)
              \<or> list_ex (\<lambda>e. ew_client_id e = clientId \<and> ew_session_id e = sessionId) (db_run_events db))
         then throw foreign_key_failed db
         else (Inr (length (filter gone (db_sessions db))), db\<lparr>db_sessions := filter (\<lambda>s. \<not> gone s) (db_sessions db)\<rparr>))"

definition writeTransaction :: "(runtime_db, 'a) eff \<Rightarrow> (runtime_db, 'a) eff" where
  "writeTransaction callback db = (case callback db of (Inl e, db') \<Rightarrow> (Inl e, db) | (Inr x, db') \<Rightarrow> (Inr x, db'))"

section \<open>Reading\<close>

definition query :: "(runtime_db \<Rightarrow> jsstring + 'a) \<Rightarrow> (runtime_db, 'a) eff" where
  "query f db = (f db, db)"

definition requiredRecord :: "string \<Rightarrow> 'a option \<Rightarrow> ('w, 'a) eff" where
  "requiredRecord label r = (case r of None \<Rightarrow> throw (js ''Runtime '' @ js label @ js '' not found'') | Some x \<Rightarrow> ret x)"

definition getSession :: "jsstring \<Rightarrow> jsstring \<Rightarrow> (runtime_db, runtime_session option) eff" where
  "getSession clientId sessionId =
     query (\<lambda>db. map_row toSessionRecord (find (is_session clientId sessionId) (db_sessions db)))"

definition listSessions :: "jsstring \<Rightarrow> (runtime_db, runtime_session list) eff" where
  "listSessions clientId =
     query (\<lambda>db. map_rows toSessionRecord (order_by (newest_first sw_updated_at sw_session_id)
       (filter (\<lambda>s. sw_client_id s = clientId) (db_sessions db))))"

definition getMessage :: "jsstring \<Rightarrow> nat \<Rightarrow> (runtime_db, runtime_message option) eff" where
  "getMessage clientId messageId =
     query (\<lambda>db. map_row toMessageRecord (find (\<lambda>m. mw_client_id m = clientId \<and> mw_id m = messageId) (db_messages db)))"

definition listMessages :: "jsstring \<Rightarrow> jsstring \<Rightarrow> (runtime_db, runtime_message list) eff" where
  "listMessages clientId sessionId =
     query (\<lambda>db. map_rows toMessageRecord (order_by (\<lambda>m m'. mw_id m < mw_id m')
       (filter (\<lambda>m. mw_client_id m = clientId \<and> mw_session_id m = sessionId) (db_messages db))))"

definition getRun :: "jsstring \<Rightarrow> jsstring \<Rightarrow> (runtime_db, runtime_run option) eff" where
  "getRun clientId runId = query (\<lambda>db. map_row toRunRecord (find (is_run clientId runId) (db_runs db)))"

definition first_row :: "'a list \<Rightarrow> 'a option" where
  "first_row xs = (case xs of [] \<Rightarrow> None | x # _ \<Rightarrow> Some x)"

definition getRunById :: "jsstring \<Rightarrow> (runtime_db, runtime_run option) eff" where
  "getRunById runId =
     query (\<lambda>db. map_row toRunRecord (first_row (order_by (newest_first rw_updated_at rw_client_id)
       (filter (\<lambda>r. rw_run_id r = runId) (db_runs db)))))"

definition listRuns :: "jsstring \<Rightarrow> (runtime_db, runtime_run list) eff" where
  "listRuns clientId =
     query (\<lambda>db. map_rows toRunRecord (order_by (newest_first rw_updated_at rw_run_id)
       (filter (\<lambda>r. rw_client_id r = clientId) (db_runs db))))"

definition listRunsForSession :: "jsstring \<Rightarrow> jsstring \<Rightarrow> (runtime_db, runtime_run list) eff" where
  "listRunsForSession clientId sessionId =
     query (\<lambda>db. map_rows toRunRecord (order_by (newest_first rw_updated_at rw_run_id)
       (filter (\<lambda>r. rw_client_id r = clientId \<and> rw_session_id r = sessionId) (db_runs db))))"

definition listRunsByStatus :: "run_status \<Rightarrow> jsstring option \<Rightarrow> (runtime_db, runtime_run list) eff" where
  "listRunsByStatus status workerId =
     query (\<lambda>db. map_rows toRunRecord (order_by (oldest_first rw_updated_at rw_run_id)
       (filter (\<lambda>r. rw_status r = status \<and> (case workerId of None \<Rightarrow> True | Some w \<Rightarrow> rw_worker_id r = Some w)) (db_runs db))))"

definition listRunningRunsByWorker :: "jsstring \<Rightarrow> (runtime_db, runtime_run list) eff" where
  "listRunningRunsByWorker workerId =
     query (\<lambda>db. map_rows toRunRecord (order_by (oldest_first rw_updated_at rw_run_id)
       (filter (\<lambda>r. rw_worker_id r = Some workerId \<and> (rw_status r = RunningRun \<or> rw_status r = CancellingRun)) (db_runs db))))"

definition getRunEvent :: "jsstring \<Rightarrow> nat \<Rightarrow> (runtime_db, runtime_event option) eff" where
  "getRunEvent clientId eventId =
     query (\<lambda>db. map_row toRunEventRecord (find (\<lambda>e. ew_client_id e = clientId \<and> ew_id e = eventId) (db_run_events db)))"

definition listRunEvents :: "jsstring \<Rightarrow> jsstring \<Rightarrow> int \<Rightarrow> (runtime_db, runtime_event list) eff" where
  "listRunEvents clientId runId afterSeq =
     query (\<lambda>db. map_rows toRunEventRecord (order_by (\<lambda>e e'. ew_seq e < ew_seq e')
       (filter (\<lambda>e. ew_client_id e = clientId \<and> ew_run_id e = runId \<and> afterSeq < int (ew_seq e)) (db_run_events db))))"

section \<open>Writing\<close>

text \<open>\<open>now\<close> is what \<open>new Date().toISOString()\<close> gives.\<close>

definition upsertClient :: "jsstring \<Rightarrow> jsstring \<Rightarrow> (runtime_db, unit) eff" where
  "upsertClient now clientId db =
     (Inr (),
      if list_ex (\<lambda>c. cw_client_id c = clientId) (db_clients db)
      then db\<lparr>db_clients := map_where (\<lambda>c. cw_client_id c = clientId) (\<lambda>c. c\<lparr>cw_updated_at := now\<rparr>) (db_clients db)\<rparr>
      else db\<lparr>db_clients := db_clients db @ [\<lparr>cw_client_id = clientId, cw_created_at = now, cw_updated_at = now\<rparr>]\<rparr>)"

record create_session_input =
  cs_sessionId :: jsstring
  cs_clientId :: jsstring
  cs_title :: jsstring
  cs_model :: json
  cs_thinkingLevel :: jsstring
  cs_createdAt :: "jsstring option"
  cs_updatedAt :: "jsstring option"

definition or_else :: "'a option \<Rightarrow> 'a \<Rightarrow> 'a" where
  "or_else x y = (case x of None \<Rightarrow> y | Some z \<Rightarrow> z)"

definition createSession :: "jsstring \<Rightarrow> jsstring \<Rightarrow> create_session_input \<Rightarrow> (runtime_db, runtime_session) eff" where
  "createSession now now' input =
     (let createdAt = or_else (cs_createdAt input) now;
          updatedAt = or_else (cs_updatedAt input) createdAt
      in bind_eff (upsertClient now' (cs_clientId input)) (\<lambda>_.
         bind_eff (insert_session
           \<lparr>sw_session_id = cs_sessionId input, sw_client_id = cs_clientId input, sw_title = cs_title input,
            sw_model_json = stringify (cs_model input), sw_thinking_level = cs_thinkingLevel input,
            sw_created_at = createdAt, sw_updated_at = updatedAt, sw_last_run_status = None, sw_last_run_id = None\<rparr>) (\<lambda>_.
         bind_eff (getSession (cs_clientId input) (cs_sessionId input)) (\<lambda>r. requiredRecord ''session'' r))))"

record append_message_input =
  ami_sessionId :: jsstring
  ami_clientId :: jsstring
  ami_role :: jsstring
  ami_payload :: json
  ami_createdAt :: "jsstring option"

definition appendMessage_db :: "jsstring \<Rightarrow> append_message_input \<Rightarrow> (runtime_db, runtime_message) eff" where
  "appendMessage_db now input =
     (let createdAt = or_else (ami_createdAt input) now
      in bind_eff (writeTransaction (
           bind_eff (insert_message (\<lambda>i.
             \<lparr>mw_id = i, mw_session_id = ami_sessionId input, mw_client_id = ami_clientId input, mw_role = ami_role input,
              mw_payload_json = stringify (ami_payload input), mw_created_at = createdAt\<rparr>)) (\<lambda>i.
           bind_eff (update_session (ami_clientId input) (ami_sessionId input) (\<lambda>s. s\<lparr>sw_updated_at := createdAt\<rparr>)) (\<lambda>_.
           ret i)))) (\<lambda>i.
         bind_eff (getMessage (ami_clientId input) i) (\<lambda>r. requiredRecord ''message'' r)))"

definition updateSessionRun ::
    "jsstring \<Rightarrow> jsstring \<Rightarrow> jsstring \<Rightarrow> run_status \<Rightarrow> jsstring \<Rightarrow> (runtime_db, unit) eff" where
  "updateSessionRun clientId sessionId runId status updatedAt =
     update_session clientId sessionId
       (\<lambda>s. s\<lparr>sw_updated_at := updatedAt, sw_last_run_status := Some status, sw_last_run_id := Some runId\<rparr>)"

record create_run_input =
  cr_runId :: jsstring
  cr_sessionId :: jsstring
  cr_clientId :: jsstring
  cr_model :: json
  cr_thinkingLevel :: jsstring
  cr_createdAt :: "jsstring option"

definition createRun :: "jsstring \<Rightarrow> create_run_input \<Rightarrow> (runtime_db, runtime_run) eff" where
  "createRun now input =
     (let updatedAt = or_else (cr_createdAt input) now
      in bind_eff (writeTransaction (
           bind_eff (insert_run
             \<lparr>rw_run_id = cr_runId input, rw_session_id = cr_sessionId input, rw_client_id = cr_clientId input,
              rw_status = QueuedRun, rw_worker_id = None, rw_model_json = stringify (cr_model input),
              rw_thinking_level = cr_thinkingLevel input, rw_started_at = None, rw_updated_at = updatedAt,
              rw_ended_at = None, rw_error = None\<rparr>) (\<lambda>_.
           updateSessionRun (cr_clientId input) (cr_sessionId input) (cr_runId input) QueuedRun updatedAt))) (\<lambda>_.
         bind_eff (getRun (cr_clientId input) (cr_runId input)) (\<lambda>r. requiredRecord ''run'' r)))"

record run_status_patch =
  sp_workerId :: "jsstring option"
  sp_startedAt :: "jsstring option"
  sp_endedAt :: "jsstring option"
  sp_error :: "jsstring option"
  sp_updatedAt :: "jsstring option"

definition no_patch :: run_status_patch where
  "no_patch = \<lparr>sp_workerId = None, sp_startedAt = None, sp_endedAt = None, sp_error = None, sp_updatedAt = None\<rparr>"

text \<open>\<open>a ?? b\<close> of two values that may be absent.\<close>

definition orelse_opt :: "'a option \<Rightarrow> 'a option \<Rightarrow> 'a option" where
  "orelse_opt x y = (case x of None \<Rightarrow> y | Some _ \<Rightarrow> x)"

text \<open>The columns that an update writes, from the run as it is.\<close>

definition set_status :: "run_status \<Rightarrow> run_status_patch \<Rightarrow> jsstring \<Rightarrow> runtime_run \<Rightarrow> run_row \<Rightarrow> run_row" where
  "set_status status patch updatedAt current row =
     (let terminal = status \<in> set TERMINAL_RUN_STATUSES
      in row\<lparr>rw_status := status,
             rw_worker_id := (if status = RunningRun then orelse_opt (sp_workerId patch) (rr_workerId current) else rr_workerId current),
             rw_started_at := (if status = RunningRun
               then Some (or_else (orelse_opt (sp_startedAt patch) (rr_startedAt current)) updatedAt) else rr_startedAt current),
             rw_updated_at := updatedAt,
             rw_ended_at := (if terminal then Some (or_else (sp_endedAt patch) updatedAt) else rr_endedAt current),
             rw_error := (if terminal then orelse_opt (sp_error patch) (rr_error current) else rr_error current)\<rparr>)"

definition updateRunStatus ::
    "jsstring \<Rightarrow> jsstring \<Rightarrow> jsstring \<Rightarrow> run_status \<Rightarrow> run_status_patch \<Rightarrow> (runtime_db, runtime_run) eff" where
  "updateRunStatus now runId clientId status patch =
     bind_eff (getRun clientId runId) (\<lambda>r.
     bind_eff (requiredRecord ''run'' r) (\<lambda>current.
       (let updatedAt = or_else (sp_updatedAt patch) now
        in bind_eff (writeTransaction (
             bind_eff (update_run clientId runId (set_status status patch updatedAt current)) (\<lambda>_.
             updateSessionRun clientId (rr_sessionId current) runId status updatedAt))) (\<lambda>_.
           bind_eff (getRun clientId runId) (\<lambda>r. requiredRecord ''run'' r)))))"

record append_event_input =
  ae_runId :: jsstring
  ae_sessionId :: jsstring
  ae_clientId :: jsstring
  ae_type :: jsstring
  ae_payload :: json
  ae_createdAt :: "jsstring option"

text \<open>\<open>COALESCE(MAX(seq), 0) + 1\<close>.\<close>

definition next_seq :: "jsstring \<Rightarrow> jsstring \<Rightarrow> runtime_db \<Rightarrow> nat" where
  "next_seq clientId runId db =
     Suc (foldr max (map ew_seq (filter (\<lambda>e. ew_client_id e = clientId \<and> ew_run_id e = runId) (db_run_events db))) 0)"

definition appendRunEvent :: "jsstring \<Rightarrow> append_event_input \<Rightarrow> (runtime_db, runtime_event) eff" where
  "appendRunEvent now input =
     (let createdAt = or_else (ae_createdAt input) now
      in bind_eff (writeTransaction (
           bind_eff (getRun (ae_clientId input) (ae_runId input)) (\<lambda>r.
           bind_eff (requiredRecord ''run'' r) (\<lambda>run.
             if rr_sessionId run \<noteq> ae_sessionId input
             then throw (js ''Run event session does not match run session'')
             else
               bind_eff (query (\<lambda>db. Inr (next_seq (ae_clientId input) (ae_runId input) db))) (\<lambda>seq.
               insert_event (\<lambda>i.
                 \<lparr>ew_id = i, ew_run_id = ae_runId input, ew_session_id = rr_sessionId run, ew_client_id = ae_clientId input,
                  ew_seq = seq, ew_event_type = ae_type input, ew_payload_json = stringify (ae_payload input),
                  ew_created_at = createdAt\<rparr>)))))) (\<lambda>i.
         bind_eff (getRunEvent (ae_clientId input) i) (\<lambda>r. requiredRecord ''run event'' r)))"

definition deleteSession :: "jsstring \<Rightarrow> jsstring \<Rightarrow> (runtime_db, bool) eff" where
  "deleteSession clientId sessionId =
     writeTransaction (
       bind_eff (delete_events clientId sessionId) (\<lambda>_.
       bind_eff (delete_runs clientId sessionId) (\<lambda>_.
       bind_eff (delete_messages clientId sessionId) (\<lambda>_.
       bind_eff (delete_sessions clientId sessionId) (\<lambda>changes. ret (changes > 0))))))"

end
