(* ===== verification/Run_Api.thy ===== *)
theory Run_Api
  imports Run_Database
begin

text \<open>
  The queue of runs, \<open>packages/web-workspace/src/run-queue.ts\<close>: the interface, which the services take as an argument,
  the queue in memory, and how a run is written into a queue of texts.

  Requests, \<open>packages/web-workspace/src/run-api-service.ts\<close>. A request runs up to where it awaits the queue, and what
  is left of it is an \<open>api_call\<close>; between the two anything else may happen.
\<close>

section \<open>The interface\<close>

text \<open>A raw run id, or an object with a run and perhaps a client.\<close>

datatype run_item = RawRun jsstring | RunOf "jsstring option" jsstring

record claimed_run =
  cl_clientId :: "jsstring option"
  cl_runId :: jsstring

text \<open>\<open>clientId\<close> counts when it is there and not empty.\<close>

definition given_client :: "jsstring option \<Rightarrow> jsstring option" where
  "given_client c = nonempty_text c"

definition claimed_item :: "claimed_run \<Rightarrow> run_item" where
  "claimed_item c = RunOf (cl_clientId c) (cl_runId c)"

text \<open>The operations are asynchronous: a call has its effect at once, its result is seen later.\<close>

record 'q run_queue =
  rq_enqueue :: "run_item \<Rightarrow> ('q, unit) eff"
  rq_claim :: "jsstring \<Rightarrow> int \<Rightarrow> ('q, claimed_run option) eff"
  rq_complete :: "run_item \<Rightarrow> jsstring \<Rightarrow> ('q, unit) eff"
  rq_requestCancel :: "run_item \<Rightarrow> ('q, unit) eff"
  rq_isCancelRequested :: "run_item \<Rightarrow> ('q, bool) eff"
  rq_close :: "('q, unit) eff"

definition queue_closed_message :: jsstring where
  "queue_closed_message = js ''Run queue is closed''"

fun toClaimedRun :: "run_item \<Rightarrow> claimed_run" where
  "toClaimedRun (RawRun s) = \<lparr>cl_clientId = None, cl_runId = s\<rparr>"
| "toClaimedRun (RunOf c r) = \<lparr>cl_clientId = c, cl_runId = r\<rparr>"

fun runKey :: "run_item \<Rightarrow> jsstring" where
  "runKey (RawRun s) = s"
| "runKey (RunOf c r) = (case given_client c of Some c' \<Rightarrow> stringify (JArr [JStr c', JStr r]) | None \<Rightarrow> r)"

section \<open>Runs as texts\<close>

definition identity_json :: "jsstring \<Rightarrow> jsstring \<Rightarrow> json" where
  "identity_json c r = JObj [(js ''clientId'', JStr c), (js ''runId'', JStr r)]"

text \<open>\<open>JSON.stringify\<close> leaves out a client that is undefined.\<close>

fun serializeQueueItem :: "run_item \<Rightarrow> jsstring" where
  "serializeQueueItem (RawRun s) = s"
| "serializeQueueItem (RunOf c r) =
     stringify (case c of Some c' \<Rightarrow> identity_json c' r | None \<Rightarrow> JObj [(js ''runId'', JStr r)])"

definition serializeClaimedRun :: "claimed_run \<Rightarrow> jsstring" where
  "serializeClaimedRun run =
     (case given_client (cl_clientId run) of
        None \<Rightarrow> cl_runId run
      | Some c \<Rightarrow> stringify (identity_json c (cl_runId run)))"

text \<open>A text that is no object with both fields is a raw run id.\<close>

definition parseQueueItem :: "jsstring \<Rightarrow> claimed_run" where
  "parseQueueItem value =
     (case json_parse value of
        Some parsed \<Rightarrow>
          (case (json_field (js ''clientId'') parsed, json_field (js ''runId'') parsed) of
             (Some (JStr c), Some (JStr r)) \<Rightarrow> \<lparr>cl_clientId = Some c, cl_runId = r\<rparr>
           | _ \<Rightarrow> \<lparr>cl_clientId = None, cl_runId = value\<rparr>)
      | None \<Rightarrow> \<lparr>cl_clientId = None, cl_runId = value\<rparr>)"

section \<open>The queue in memory\<close>

record mem_queue =
  mq_active :: "jsstring \<rightharpoonup> jsstring"
  mq_cancelRequests :: "jsstring set"
  mq_closed :: bool
  mq_queued :: "claimed_run list"

definition new_mem_queue :: mem_queue where
  "new_mem_queue = \<lparr>mq_active = Map.empty, mq_cancelRequests = {}, mq_closed = False, mq_queued = []\<rparr>"

text \<open>\<open>assertOpen\<close>, and then the operation.\<close>

definition if_open :: "(mem_queue, 'a) eff \<Rightarrow> (mem_queue, 'a) eff" where
  "if_open f q = (if mq_closed q then throw queue_closed_message q else f q)"

definition mem_enqueue :: "run_item \<Rightarrow> (mem_queue, unit) eff" where
  "mem_enqueue run = if_open (\<lambda>q. (Inr (), q\<lparr>mq_queued := mq_queued q @ [toClaimedRun run]\<rparr>))"

definition mem_claim :: "jsstring \<Rightarrow> int \<Rightarrow> (mem_queue, claimed_run option) eff" where
  "mem_claim workerId timeoutMs = if_open (\<lambda>q.
     case mq_queued q of
       [] \<Rightarrow> (Inr None, q)
     | run # rest \<Rightarrow>
         (Inr (Some run), q\<lparr>mq_queued := rest, mq_active := (mq_active q)(runKey (claimed_item run) \<mapsto> workerId)\<rparr>))"

definition mem_complete :: "run_item \<Rightarrow> jsstring \<Rightarrow> (mem_queue, unit) eff" where
  "mem_complete run workerId = if_open (\<lambda>q.
     (Inr (), if mq_active q (runKey run) = Some workerId
              then q\<lparr>mq_active := (mq_active q)(runKey run := None)\<rparr> else q))"

definition mem_requestCancel :: "run_item \<Rightarrow> (mem_queue, unit) eff" where
  "mem_requestCancel run = if_open (\<lambda>q. (Inr (), q\<lparr>mq_cancelRequests := insert (runKey run) (mq_cancelRequests q)\<rparr>))"

definition mem_isCancelRequested :: "run_item \<Rightarrow> (mem_queue, bool) eff" where
  "mem_isCancelRequested run = if_open (\<lambda>q. (Inr (runKey run \<in> mq_cancelRequests q), q))"

definition mem_close :: "(mem_queue, unit) eff" where
  "mem_close q = (Inr (), q\<lparr>mq_closed := True, mq_queued := [], mq_active := Map.empty, mq_cancelRequests := {}\<rparr>)"

definition InMemoryRunQueue :: "mem_queue run_queue" where
  "InMemoryRunQueue =
     \<lparr>rq_enqueue = mem_enqueue, rq_claim = mem_claim, rq_complete = mem_complete, rq_requestCancel = mem_requestCancel,
      rq_isCancelRequested = mem_isCancelRequested, rq_close = mem_close\<rparr>"

definition ACTIVE_RUN_STATUSES :: "run_status list" where
  "ACTIVE_RUN_STATUSES = [QueuedRun, RunningRun, CancellingRun]"

text \<open>\<open>RunApiError\<close>, with its status code, and any other error.\<close>

datatype api_error = RunApiError jsstring nat | OtherError jsstring

type_synonym 'a api = "runtime_db \<Rightarrow> (api_error + 'a) \<times> runtime_db"

definition db_call :: "(runtime_db, 'a) eff \<Rightarrow> 'a api" where
  "db_call f db = (case f db of (Inl e, db') \<Rightarrow> (Inl (OtherError e), db') | (Inr x, db') \<Rightarrow> (Inr x, db'))"

definition refuse :: "jsstring \<Rightarrow> nat \<Rightarrow> 'a api" where
  "refuse m code db = (Inl (RunApiError m code), db)"

definition answer :: "'a \<Rightarrow> 'a api" where
  "answer x db = (Inr x, db)"

definition and_then :: "'a api \<Rightarrow> ('a \<Rightarrow> 'b api) \<Rightarrow> 'b api" where
  "and_then f k db = (case f db of (Inl e, db') \<Rightarrow> (Inl e, db') | (Inr x, db') \<Rightarrow> k x db')"

definition normalizeMessage :: "json option \<Rightarrow> json api" where
  "normalizeMessage value =
     (case value of
        Some v \<Rightarrow> (if isObject v then answer v else refuse (js ''Start run message must be a JSON object'') 400)
      | None \<Rightarrow> refuse (js ''Start run message must be a JSON object'') 400)"

definition normalizeOptionalString :: "json option \<Rightarrow> jsstring option" where
  "normalizeOptionalString value = (case value of Some (JStr s) \<Rightarrow> nonempty_text (Some (trim_js s)) | _ \<Rightarrow> None)"

definition activeRuns :: "jsstring \<Rightarrow> jsstring \<Rightarrow> (runtime_db, runtime_run list) eff" where
  "activeRuns clientId sessionId =
     bind_eff (listRunsForSession clientId sessionId) (\<lambda>runs. ret (filter (\<lambda>r. rr_status r \<in> set ACTIVE_RUN_STATUSES) runs))"

definition hasActiveRun :: "jsstring \<Rightarrow> jsstring \<Rightarrow> (runtime_db, bool) eff" where
  "hasActiveRun clientId sessionId = bind_eff (activeRuns clientId sessionId) (\<lambda>runs. ret (runs \<noteq> []))"

definition already_active :: "jsstring \<Rightarrow> jsstring" where
  "already_active sessionId = js ''Session '' @ sessionId @ js '' already has an active run''"

record start_run_result =
  srr_session :: runtime_session
  srr_message :: runtime_message
  srr_run :: runtime_run

text \<open>
  \<open>startRun\<close> up to the queue: \<open>clock\<close> gives the times, \<open>newSession\<close> and \<open>newRun\<close> are the random ids.
\<close>

definition existing_or_new_session ::
    "(nat \<Rightarrow> jsstring) \<Rightarrow> jsstring \<Rightarrow> jsstring \<Rightarrow> json \<Rightarrow> json \<Rightarrow> jsstring \<Rightarrow> runtime_session option \<Rightarrow> runtime_session api" where
  "existing_or_new_session clock clientId sessionId request model thinkingLevel existing =
     (case existing of
        Some s \<Rightarrow> answer s
      | None \<Rightarrow>
          db_call (createSession (clock 0) (clock 1)
            \<lparr>cs_sessionId = sessionId, cs_clientId = clientId,
             cs_title = or_else (normalizeOptionalString (json_field (js ''title'') request)) (js ''Untitled session''),
             cs_model = model, cs_thinkingLevel = thinkingLevel, cs_createdAt = None, cs_updatedAt = None\<rparr>))"

definition request_model :: "json \<Rightarrow> runtime_session option \<Rightarrow> json" where
  "request_model request existing =
     (case json_field (js ''model'') request of
        Some m \<Rightarrow> (if isObject m then m else (case existing of Some s \<Rightarrow> rs_model s | None \<Rightarrow> JObj []))
      | None \<Rightarrow> (case existing of Some s \<Rightarrow> rs_model s | None \<Rightarrow> JObj []))"

definition request_level :: "json \<Rightarrow> runtime_session option \<Rightarrow> jsstring" where
  "request_level request existing =
     or_else (orelse_opt (normalizeOptionalString (json_field (js ''thinkingLevel'') request)) (map_option rs_thinkingLevel existing))
       (js ''high'')"

definition startRun_begin ::
    "(nat \<Rightarrow> jsstring) \<Rightarrow> jsstring \<Rightarrow> jsstring \<Rightarrow> jsstring \<Rightarrow> json \<Rightarrow> start_run_result api" where
  "startRun_begin clock newSession newRun clientId request =
     (let sessionId = or_else (normalizeOptionalString (json_field (js ''sessionId'') request)) newSession
      in and_then (db_call (getSession clientId sessionId)) (\<lambda>existing.
         and_then (if existing \<noteq> None then db_call (hasActiveRun clientId sessionId) else answer False) (\<lambda>active.
           if active then refuse (already_active sessionId) 409
           else
             (let model = request_model request existing;
                  thinkingLevel = request_level request existing
              in and_then (existing_or_new_session clock clientId sessionId request model thinkingLevel existing) (\<lambda>session.
                 and_then (normalizeMessage (json_field (js ''message'') request)) (\<lambda>payload.
                 and_then (db_call (appendMessage_db (clock 2)
                   \<lparr>ami_sessionId = sessionId, ami_clientId = clientId, ami_role = js ''user'', ami_payload = payload,
                    ami_createdAt = None\<rparr>)) (\<lambda>message.
                 and_then (db_call (createRun (clock 3)
                   \<lparr>cr_runId = newRun, cr_sessionId = sessionId, cr_clientId = clientId, cr_model = model,
                    cr_thinkingLevel = thinkingLevel, cr_createdAt = None\<rparr>)) (\<lambda>run.
                 answer \<lparr>srr_session = session, srr_message = message, srr_run = run\<rparr>))))))))"

text \<open>The queue refused the run.\<close>

definition enqueue_failed :: "jsstring \<Rightarrow> jsstring \<Rightarrow> jsstring \<Rightarrow> jsstring \<Rightarrow> unit api" where
  "enqueue_failed now clientId runId e =
     and_then (db_call (updateRunStatus now runId clientId FailedRun
       (no_patch\<lparr>sp_error := Some (js ''queue enqueue failed: '' @ e)\<rparr>))) (\<lambda>_.
     refuse (js ''Run queue unavailable'') 503)"

text \<open>\<open>cancelRun\<close> up to the queue: the run to cancel, or the answer.\<close>

definition cancelRun_begin :: "jsstring \<Rightarrow> jsstring \<Rightarrow> (runtime_run + runtime_run) api" where
  "cancelRun_begin clientId runId =
     and_then (db_call (getRun clientId runId)) (\<lambda>r.
       case r of
         None \<Rightarrow> refuse (js ''Run not found'') 404
       | Some run \<Rightarrow> answer (if rr_status run \<notin> set ACTIVE_RUN_STATUSES then Inl run else Inr run))"

text \<open>\<open>cancelActiveRun\<close> after \<open>requestCancel\<close>: \<open>run\<close> is as it was read before.\<close>

definition cancel_update :: "jsstring \<Rightarrow> runtime_run \<Rightarrow> (runtime_db, runtime_run) eff" where
  "cancel_update now run =
     (if rr_status run = QueuedRun then updateRunStatus now (rr_runId run) (rr_clientId run) CancelledRun no_patch
      else if rr_status run = CancellingRun then ret run
      else updateRunStatus now (rr_runId run) (rr_clientId run) CancellingRun no_patch)"

text \<open>\<open>deleteSession\<close> up to the queue: the runs to cancel, or the answer.\<close>

definition deleteSession_begin :: "jsstring \<Rightarrow> jsstring \<Rightarrow> bool \<Rightarrow> (bool + runtime_run list) api" where
  "deleteSession_begin clientId sessionId force =
     and_then (db_call (activeRuns clientId sessionId)) (\<lambda>runs.
       if runs \<noteq> [] \<and> \<not> force then refuse (already_active sessionId) 409
       else if runs \<noteq> [] \<and> force then answer (Inr runs)
       else and_then (db_call (deleteSession clientId sessionId)) (\<lambda>deleted. answer (Inl deleted)))"

record runtime_session_detail =
  rd_session :: runtime_session
  rd_messages :: "runtime_message list"
  rd_runs :: "runtime_run list"

definition getSession_detail :: "jsstring \<Rightarrow> jsstring \<Rightarrow> (runtime_db, runtime_session_detail option) eff" where
  "getSession_detail clientId sessionId =
     bind_eff (getSession clientId sessionId) (\<lambda>s.
       case s of
         None \<Rightarrow> ret None
       | Some session \<Rightarrow>
           bind_eff (listMessages clientId sessionId) (\<lambda>messages.
           bind_eff (listRunsForSession clientId sessionId) (\<lambda>runs.
           ret (Some \<lparr>rd_session = session, rd_messages = messages, rd_runs = runs\<rparr>))))"

text \<open>What is left of a request that awaits the queue.\<close>

datatype api_call =
    Enqueueing jsstring jsstring
  | RequestingCancel runtime_run
  | CancelRequested runtime_run

end
