(* ===== verification/Run_Worker.thy ===== *)
theory Run_Worker
  imports Run_Api
begin

text \<open>
  The worker, \<open>packages/web-workspace/src/run-worker-service.ts\<close>, and the requests beside it. What runs between two
  awaits is one step on the shared state; the places where something awaits are the constructors of \<open>worker_loop\<close> and
  \<open>api_call\<close>. The agent is not modelled here: it may report any events and end or fail at any time. The queue is an argument.
\<close>

section \<open>Events of the agent\<close>

definition isTerminalStatus :: "run_status \<Rightarrow> bool" where
  "isTerminalStatus status \<longleftrightarrow>
     status = CancelledRun \<or> status = CompletedRun \<or> status = FailedRun \<or> status = InterruptedRun"

definition isQueueClosedError :: "jsstring \<Rightarrow> bool" where
  "isQueueClosedError e \<longleftrightarrow> e = queue_closed_message"

text \<open>Role and payload of the message, which are all that is used of it.\<close>

definition runtimeMessageFromEvent :: "json option \<Rightarrow> (jsstring \<times> json) option" where
  "runtimeMessageFromEvent message =
     (case message of
        None \<Rightarrow> None
      | Some m \<Rightarrow>
          (case json_field (js ''role'') m of
             Some (JStr role) \<Rightarrow>
               (if role = [] then None
                else Some (role, case json_field (js ''payload'') m of Some p \<Rightarrow> (if isObject p then p else m) | None \<Rightarrow> m))
           | _ \<Rightarrow> None))"

definition messageKey :: "jsstring \<times> json \<Rightarrow> jsstring" where
  "messageKey message = stringify (JArr [JStr (fst message), snd message])"

text \<open>The answer, and the keys seen so far.\<close>

definition shouldAppendMessage :: "jsstring \<times> json \<Rightarrow> jsstring list \<Rightarrow> bool \<times> jsstring list" where
  "shouldAppendMessage message keys =
     (if fst message = js ''user'' then (False, keys)
      else if messageKey message \<in> set keys then (False, keys)
      else (True, messageKey message # keys))"

text \<open>An event is an object with a \<open>type\<close>, which is a text, and perhaps a \<open>message\<close>.\<close>

type_synonym worker_event = json

definition event_type :: "worker_event \<Rightarrow> jsstring" where
  "event_type event = (case json_field (js ''type'') event of Some (JStr t) \<Rightarrow> t | _ \<Rightarrow> [])"

definition event_message :: "worker_event \<Rightarrow> json option" where
  "event_message event = json_field (js ''message'') event"

definition persistAgentEvent ::
    "(nat \<Rightarrow> jsstring) \<Rightarrow> runtime_run \<Rightarrow> worker_event \<Rightarrow> jsstring list \<Rightarrow> runtime_db \<Rightarrow> jsstring list \<times> runtime_db" where
  "persistAgentEvent clock run event keys db =
     (case appendRunEvent (clock 0)
         \<lparr>ae_runId = rr_runId run, ae_sessionId = rr_sessionId run, ae_clientId = rr_clientId run, ae_type = event_type event,
          ae_payload = event, ae_createdAt = None\<rparr> db of
        (Inl e, db1) \<Rightarrow> (keys, db1)
      | (Inr _, db1) \<Rightarrow>
          (case (if event_type event = js ''message_end'' then runtimeMessageFromEvent (event_message event) else None) of
             None \<Rightarrow> (keys, db1)
           | Some message \<Rightarrow>
               (case shouldAppendMessage message keys of
                  (False, keys1) \<Rightarrow> (keys1, db1)
                | (True, keys1) \<Rightarrow>
                    (keys1, snd (appendMessage_db (clock 1)
                       \<lparr>ami_sessionId = rr_sessionId run, ami_clientId = rr_clientId run, ami_role = fst message,
                        ami_payload = snd message, ami_createdAt = None\<rparr> db1)))))"

section \<open>The state\<close>

text \<open>How the agent is started: with the last message, when it is the user's, or to continue.\<close>

datatype agent_task = PromptWith runtime_message | ContinueAgent

record running_run =
  ar_run :: runtime_run
  ar_session :: runtime_session
  ar_messages :: "runtime_message list"
  ar_task :: agent_task
  ar_messageEndKeys :: "jsstring list"
  ar_cancelRequested :: bool
  ar_aborted :: bool

text \<open>Where a loop awaits; the answer to a question to the queue may be there already.\<close>

datatype worker_loop =
    LoopIdle
  | LoopClaiming
  | LoopClaimed claimed_run
  | LoopRunning running_run
  | LoopAskEnd running_run "bool option"
  | LoopAskFail runtime_run jsstring "bool option"
  | LoopCompleting claimed_run "jsstring option"
  | LoopEnded "jsstring option"

text \<open>\<open>sy_created\<close> and \<open>sy_started\<close> record the runs that were created and the runs an agent was made for.\<close>

record 'q run_system =
  sy_db :: runtime_db
  sy_queue :: 'q
  sy_calls :: "api_call list"
  sy_loops :: "worker_loop list"
  sy_polls :: "(nat \<times> runtime_run) list"
  sy_running :: bool
  sy_stopping :: bool
  sy_created :: "(jsstring \<times> jsstring) list"
  sy_started :: "(jsstring \<times> jsstring) list"

definition run_key :: "runtime_run \<Rightarrow> jsstring \<times> jsstring" where
  "run_key run = (rr_clientId run, rr_runId run)"

definition run_item_of :: "runtime_run \<Rightarrow> run_item" where
  "run_item_of run = RunOf (Some (rr_clientId run)) (rr_runId run)"

definition run_claim :: "runtime_run \<Rightarrow> claimed_run" where
  "run_claim run = \<lparr>cl_clientId = Some (rr_clientId run), cl_runId = rr_runId run\<rparr>"

definition with_loop :: "nat \<Rightarrow> worker_loop \<Rightarrow> 'q run_system \<Rightarrow> 'q run_system" where
  "with_loop i l s = s\<lparr>sy_loops := (sy_loops s)[i := l]\<rparr>"

definition with_db :: "runtime_db \<Rightarrow> 'q run_system \<Rightarrow> 'q run_system" where
  "with_db db s = s\<lparr>sy_db := db\<rparr>"

section \<open>A run that ends\<close>

text \<open>A status is written; when that throws, \<open>failed\<close> says where the loop goes on.\<close>

definition end_with ::
    "jsstring \<Rightarrow> runtime_run \<Rightarrow> run_status \<Rightarrow> run_status_patch \<Rightarrow> (jsstring \<Rightarrow> runtime_db \<Rightarrow> worker_loop \<times> runtime_db)
     \<Rightarrow> runtime_db \<Rightarrow> worker_loop \<times> runtime_db" where
  "end_with now run status patch failed db =
     (case updateRunStatus now (rr_runId run) (rr_clientId run) status patch db of
        (Inl e, db') \<Rightarrow> failed e db'
      | (Inr _, db') \<Rightarrow> (LoopCompleting (run_claim run) None, db'))"

definition give_up :: "runtime_run \<Rightarrow> jsstring \<Rightarrow> runtime_db \<Rightarrow> worker_loop \<times> runtime_db" where
  "give_up run e db = (LoopCompleting (run_claim run) (Some e), db)"

text \<open>The \<open>catch\<close> of \<open>processOne\<close> up to the question to the queue, and after it.\<close>

definition worker_catch ::
    "jsstring \<Rightarrow> runtime_run \<Rightarrow> bool \<Rightarrow> jsstring \<Rightarrow> runtime_db \<Rightarrow> worker_loop \<times> runtime_db" where
  "worker_catch now run cancelRequested e db =
     (case getRun (rr_clientId run) (rr_runId run) db of
        (Inl e', db') \<Rightarrow> give_up run e' db'
      | (Inr current, db') \<Rightarrow>
          (if (case current of Some r \<Rightarrow> isTerminalStatus (rr_status r) | None \<Rightarrow> False)
           then (LoopCompleting (run_claim run) None, db')
           else if cancelRequested then end_with now run CancelledRun no_patch (give_up run) db'
           else (LoopAskFail run e None, db')))"

definition fail_update ::
    "jsstring \<Rightarrow> bool \<Rightarrow> runtime_run \<Rightarrow> jsstring \<Rightarrow> bool \<Rightarrow> runtime_db \<Rightarrow> worker_loop \<times> runtime_db" where
  "fail_update now stopping run e cancelRequested db =
     (if cancelRequested then end_with now run CancelledRun no_patch (give_up run) db
      else if stopping \<or> isQueueClosedError e then end_with now run InterruptedRun no_patch (give_up run) db
      else end_with now run FailedRun (no_patch\<lparr>sp_error := Some e\<rparr>) (give_up run) db)"

text \<open>The agent returned.\<close>

definition agent_returned :: "(nat \<Rightarrow> jsstring) \<Rightarrow> bool \<Rightarrow> running_run \<Rightarrow> runtime_db \<Rightarrow> worker_loop \<times> runtime_db" where
  "agent_returned clock stopping a db =
     (let run = ar_run a; catch = worker_catch (clock 1) run (ar_cancelRequested a)
      in case getRun (rr_clientId run) (rr_runId run) db of
           (Inl e, db') \<Rightarrow> catch e db'
         | (Inr current, db') \<Rightarrow>
             (if (case current of Some r \<Rightarrow> isTerminalStatus (rr_status r) | None \<Rightarrow> False)
              then (LoopCompleting (run_claim run) None, db')
              else if stopping then end_with (clock 0) run InterruptedRun no_patch catch db'
              else if ar_cancelRequested a then end_with (clock 0) run CancelledRun no_patch catch db'
              else (LoopAskEnd a None, db')))"

definition end_update :: "(nat \<Rightarrow> jsstring) \<Rightarrow> running_run \<Rightarrow> bool \<Rightarrow> runtime_db \<Rightarrow> worker_loop \<times> runtime_db" where
  "end_update clock a cancelRequested db =
     end_with (clock 0) (ar_run a) (if cancelRequested then CancelledRun else CompletedRun) no_patch
       (worker_catch (clock 1) (ar_run a) (ar_cancelRequested a)) db"

section \<open>A run that starts\<close>

definition agent_task_of :: "runtime_message list \<Rightarrow> agent_task" where
  "agent_task_of messages =
     (if messages \<noteq> [] \<and> rm_role (last messages) = js ''user'' then PromptWith (last messages) else ContinueAgent)"

text \<open>
  \<open>processOne\<close> from the claim to the start of the agent. \<open>made\<close> is what making the agent gave: nothing, or an error. The
  third part says whether an agent was asked for.
\<close>

definition begin_claimed ::
    "(nat \<Rightarrow> jsstring) \<Rightarrow> jsstring \<Rightarrow> jsstring option \<Rightarrow> claimed_run \<Rightarrow> runtime_run \<Rightarrow> runtime_db
     \<Rightarrow> worker_loop \<times> runtime_db \<times> bool" where
  "begin_claimed clock workerId made claimed run db =
     (case bind_eff (getSession (rr_clientId run) (rr_sessionId run)) (\<lambda>s.
           bind_eff (case s of None \<Rightarrow> throw (js ''Runtime session not found'') | Some x \<Rightarrow> ret x) (\<lambda>session.
           bind_eff (listMessages (rr_clientId run) (rr_sessionId run)) (\<lambda>messages.
           bind_eff (updateRunStatus (clock 0) (rr_runId run) (rr_clientId run) RunningRun
             (no_patch\<lparr>sp_workerId := Some workerId\<rparr>)) (\<lambda>activeRun. ret (session, messages, activeRun))))) db of
        (Inl e, db1) \<Rightarrow> (case worker_catch (clock 1) run False e db1 of (l, db2) \<Rightarrow> (l, db2, False))
      | (Inr (session, messages, activeRun), db1) \<Rightarrow>
          (case made of
             Some e \<Rightarrow> (case worker_catch (clock 1) activeRun False e db1 of (l, db2) \<Rightarrow> (l, db2, True))
           | None \<Rightarrow>
               (LoopRunning \<lparr>ar_run = activeRun, ar_session = session, ar_messages = messages, ar_task = agent_task_of messages,
                  ar_messageEndKeys = [], ar_cancelRequested = False, ar_aborted = False\<rparr>, db1, True)))"

definition process_claimed ::
    "(nat \<Rightarrow> jsstring) \<Rightarrow> jsstring \<Rightarrow> jsstring option \<Rightarrow> claimed_run \<Rightarrow> runtime_db \<Rightarrow> worker_loop \<times> runtime_db \<times> bool" where
  "process_claimed clock workerId made claimed db =
     (case given_client (cl_clientId claimed) of
        None \<Rightarrow> (LoopCompleting claimed None, db, False)
      | Some clientId \<Rightarrow>
          (case getRun clientId (cl_runId claimed) db of
             (Inl e, db1) \<Rightarrow> (LoopEnded (Some e), db1, False)
           | (Inr None, db1) \<Rightarrow> (LoopCompleting claimed None, db1, False)
           | (Inr (Some run), db1) \<Rightarrow>
               (if rr_status run \<noteq> QueuedRun then (LoopCompleting claimed None, db1, False)
                else begin_claimed clock workerId made claimed run db1)))"

section \<open>Stopping\<close>

text \<open>The runs that a loop has in \<open>activeRuns\<close>.\<close>

fun loop_active :: "worker_loop \<Rightarrow> running_run option" where
  "loop_active (LoopRunning a) = Some a"
| "loop_active (LoopAskEnd a _) = Some a"
| "loop_active _ = None"

definition interrupt_active :: "jsstring \<Rightarrow> runtime_run \<Rightarrow> (runtime_db, unit) eff" where
  "interrupt_active now run =
     bind_eff (getRun (rr_clientId run) (rr_runId run)) (\<lambda>current.
       case current of
         Some r \<Rightarrow>
           (if rr_status r = RunningRun \<or> rr_status r = CancellingRun
            then bind_eff (updateRunStatus now (rr_runId run) (rr_clientId run) InterruptedRun no_patch) (\<lambda>_. ret ())
            else ret ())
       | None \<Rightarrow> ret ())"

definition interrupt_run :: "jsstring \<Rightarrow> runtime_run \<Rightarrow> (runtime_db, unit) eff" where
  "interrupt_run now run =
     bind_eff (updateRunStatus now (rr_runId run) (rr_clientId run) InterruptedRun no_patch) (\<lambda>_. ret ())"

definition markOwnedRunningRunsInterrupted :: "jsstring \<Rightarrow> jsstring \<Rightarrow> (runtime_db, unit) eff" where
  "markOwnedRunningRunsInterrupted now workerId =
     bind_eff (listRunningRunsByWorker workerId) (\<lambda>runs. each_eff (interrupt_run now) runs)"

fun abort_loop :: "worker_loop \<Rightarrow> worker_loop" where
  "abort_loop (LoopRunning a) = LoopRunning (a\<lparr>ar_aborted := True\<rparr>)"
| "abort_loop (LoopAskEnd a b) = LoopAskEnd (a\<lparr>ar_aborted := True\<rparr>) b"
| "abort_loop l = l"

text \<open>\<open>stop\<close> up to the loops it awaits. When marking the runs throws, nothing is aborted and the queue stays open.\<close>

definition stop_worker :: "'q run_queue \<Rightarrow> jsstring \<Rightarrow> jsstring \<Rightarrow> 'q run_system \<Rightarrow> 'q run_system" where
  "stop_worker Q workerId now s =
     (let s1 = s\<lparr>sy_stopping := True, sy_running := False\<rparr>
      in case bind_eff (each_eff (interrupt_active now) (map ar_run (List.map_filter loop_active (sy_loops s1)))) (\<lambda>_.
              markOwnedRunningRunsInterrupted now workerId) (sy_db s1) of
           (Inl e, db) \<Rightarrow> with_db db s1
         | (Inr _, db) \<Rightarrow>
             (with_db db s1)\<lparr>sy_loops := map abort_loop (sy_loops s1), sy_queue := snd (rq_close Q (sy_queue s1))\<rparr>)"

section \<open>The steps\<close>

text \<open>The loop.\<close>

definition claim_timeout :: int where
  "claim_timeout = 0"

definition loop_claim :: "nat \<Rightarrow> 'q run_system \<Rightarrow> 'q run_system" where
  "loop_claim i s =
     (if i < length (sy_loops s) \<and> sy_loops s ! i = LoopIdle
      then with_loop i (if sy_running s then LoopClaiming else LoopEnded None) s else s)"

definition claim_answered :: "'q run_queue \<Rightarrow> jsstring \<Rightarrow> nat \<Rightarrow> 'q run_system \<Rightarrow> 'q run_system" where
  "claim_answered Q workerId i s =
     (if i < length (sy_loops s) \<and> sy_loops s ! i = LoopClaiming
      then (case rq_claim Q workerId claim_timeout (sy_queue s) of
              (Inr None, q) \<Rightarrow> with_loop i LoopIdle (s\<lparr>sy_queue := q\<rparr>)
            | (Inr (Some c), q) \<Rightarrow> with_loop i (LoopClaimed c) (s\<lparr>sy_queue := q\<rparr>)
            | (Inl e, q) \<Rightarrow>
                with_loop i (if sy_stopping s \<and> isQueueClosedError e then LoopIdle else LoopEnded (Some e)) (s\<lparr>sy_queue := q\<rparr>))
      else s)"

definition start_claimed ::
    "(nat \<Rightarrow> jsstring) \<Rightarrow> jsstring \<Rightarrow> jsstring option \<Rightarrow> nat \<Rightarrow> 'q run_system \<Rightarrow> 'q run_system" where
  "start_claimed clock workerId made i s =
     (if i < length (sy_loops s)
      then (case sy_loops s ! i of
              LoopClaimed c \<Rightarrow>
                (case process_claimed clock workerId made c (sy_db s) of
                   (l, db, asked) \<Rightarrow>
                     (with_loop i l (with_db db s))
                       \<lparr>sy_started := sy_started s @ (if asked then [(the (given_client (cl_clientId c)), cl_runId c)] else [])\<rparr>)
            | _ \<Rightarrow> s)
      else s)"

definition set_keys :: "jsstring list \<Rightarrow> worker_loop \<Rightarrow> worker_loop" where
  "set_keys keys l =
     (case l of
        LoopRunning a \<Rightarrow> LoopRunning (a\<lparr>ar_messageEndKeys := keys\<rparr>)
      | LoopAskEnd a b \<Rightarrow> LoopAskEnd (a\<lparr>ar_messageEndKeys := keys\<rparr>) b
      | _ \<Rightarrow> l)"

definition agent_reports :: "(nat \<Rightarrow> jsstring) \<Rightarrow> nat \<Rightarrow> worker_event \<Rightarrow> 'q run_system \<Rightarrow> 'q run_system" where
  "agent_reports clock i event s =
     (if i < length (sy_loops s)
      then (case loop_active (sy_loops s ! i) of
              Some a \<Rightarrow>
                (case persistAgentEvent clock (ar_run a) event (ar_messageEndKeys a) (sy_db s) of
                   (keys, db) \<Rightarrow> with_loop i (set_keys keys (sy_loops s ! i)) (with_db db s))
            | None \<Rightarrow> s)
      else s)"

text \<open>The agent's run ended, or failed with an error.\<close>

definition agent_ends :: "(nat \<Rightarrow> jsstring) \<Rightarrow> nat \<Rightarrow> jsstring option \<Rightarrow> 'q run_system \<Rightarrow> 'q run_system" where
  "agent_ends clock i failure s =
     (if i < length (sy_loops s)
      then (case sy_loops s ! i of
              LoopRunning a \<Rightarrow>
                (case (case failure of
                         None \<Rightarrow> agent_returned clock (sy_stopping s) a (sy_db s)
                       | Some e \<Rightarrow> worker_catch (clock 0) (ar_run a) (ar_cancelRequested a) e (sy_db s)) of
                   (l, db) \<Rightarrow> with_loop i l (with_db db s))
            | _ \<Rightarrow> s)
      else s)"

text \<open>\<open>safeIsCancelRequested\<close>: asking, and going on with the answer.\<close>

definition cancel_answered :: "'q run_queue \<Rightarrow> jsstring \<Rightarrow> nat \<Rightarrow> 'q run_system \<Rightarrow> 'q run_system" where
  "cancel_answered Q now i s =
     (if i < length (sy_loops s)
      then (case sy_loops s ! i of
              LoopAskEnd a None \<Rightarrow>
                (case rq_isCancelRequested Q (run_item_of (ar_run a)) (sy_queue s) of
                   (Inr b, q) \<Rightarrow> with_loop i (LoopAskEnd a (Some b)) (s\<lparr>sy_queue := q\<rparr>)
                 | (Inl e, q) \<Rightarrow>
                     (if sy_stopping s \<and> isQueueClosedError e then with_loop i (LoopAskEnd a (Some False)) (s\<lparr>sy_queue := q\<rparr>)
                      else (case worker_catch now (ar_run a) (ar_cancelRequested a) e (sy_db s) of
                              (l, db) \<Rightarrow> with_loop i l (with_db db (s\<lparr>sy_queue := q\<rparr>)))))
            | LoopAskFail run e0 None \<Rightarrow>
                (case rq_isCancelRequested Q (run_item_of run) (sy_queue s) of
                   (Inr b, q) \<Rightarrow> with_loop i (LoopAskFail run e0 (Some b)) (s\<lparr>sy_queue := q\<rparr>)
                 | (Inl e, q) \<Rightarrow>
                     with_loop i (if sy_stopping s \<and> isQueueClosedError e then LoopAskFail run e0 (Some False)
                                  else LoopCompleting (run_claim run) (Some e)) (s\<lparr>sy_queue := q\<rparr>))
            | _ \<Rightarrow> s)
      else s)"

definition write_end :: "(nat \<Rightarrow> jsstring) \<Rightarrow> nat \<Rightarrow> 'q run_system \<Rightarrow> 'q run_system" where
  "write_end clock i s =
     (if i < length (sy_loops s)
      then (case sy_loops s ! i of
              LoopAskEnd a (Some b) \<Rightarrow>
                (case end_update clock a b (sy_db s) of (l, db) \<Rightarrow> with_loop i l (with_db db s))
            | LoopAskFail run e (Some b) \<Rightarrow>
                (case fail_update (clock 0) (sy_stopping s) run e b (sy_db s) of (l, db) \<Rightarrow> with_loop i l (with_db db s))
            | _ \<Rightarrow> s)
      else s)"

text \<open>\<open>completeClaim\<close>, in the \<open>finally\<close> of \<open>processOne\<close>: an error of the queue replaces one that is on its way.\<close>

definition complete_claim :: "'q run_queue \<Rightarrow> jsstring \<Rightarrow> nat \<Rightarrow> 'q run_system \<Rightarrow> 'q run_system" where
  "complete_claim Q workerId i s =
     (if i < length (sy_loops s)
      then (case sy_loops s ! i of
              LoopCompleting c failure \<Rightarrow>
                (let after = (case failure of None \<Rightarrow> LoopIdle | Some e \<Rightarrow> LoopEnded (Some e))
                 in case rq_complete Q (claimed_item c) workerId (sy_queue s) of
                      (Inr _, q) \<Rightarrow> with_loop i after (s\<lparr>sy_queue := q\<rparr>)
                    | (Inl e, q) \<Rightarrow>
                        with_loop i (if sy_stopping s \<and> isQueueClosedError e then after else LoopEnded (Some e)) (s\<lparr>sy_queue := q\<rparr>))
            | _ \<Rightarrow> s)
      else s)"

text \<open>\<open>pollCancellation\<close>: asking, and acting on the answer; the run may have ended in between.\<close>

definition poll_asked :: "'q run_queue \<Rightarrow> nat \<Rightarrow> 'q run_system \<Rightarrow> 'q run_system" where
  "poll_asked Q i s =
     (if i < length (sy_loops s)
      then (case loop_active (sy_loops s ! i) of
              Some a \<Rightarrow>
                (case rq_isCancelRequested Q (run_item_of (ar_run a)) (sy_queue s) of
                   (Inr True, q) \<Rightarrow> s\<lparr>sy_queue := q, sy_polls := sy_polls s @ [(i, ar_run a)]\<rparr>
                 | (_, q) \<Rightarrow> s\<lparr>sy_queue := q\<rparr>)
            | None \<Rightarrow> s)
      else s)"

definition cancel_loop :: "runtime_run \<Rightarrow> worker_loop \<Rightarrow> worker_loop" where
  "cancel_loop run l =
     (case l of
        LoopRunning a \<Rightarrow>
          (if run_key (ar_run a) = run_key run then LoopRunning (a\<lparr>ar_cancelRequested := True, ar_aborted := True\<rparr>) else l)
      | LoopAskEnd a b \<Rightarrow>
          (if run_key (ar_run a) = run_key run then LoopAskEnd (a\<lparr>ar_cancelRequested := True, ar_aborted := True\<rparr>) b else l)
      | _ \<Rightarrow> l)"

definition poll_update :: "jsstring \<Rightarrow> runtime_run \<Rightarrow> (runtime_db, unit) eff" where
  "poll_update now run =
     bind_eff (getRun (rr_clientId run) (rr_runId run)) (\<lambda>current.
       if (case current of Some r \<Rightarrow> rr_status r = RunningRun | None \<Rightarrow> False)
       then bind_eff (updateRunStatus now (rr_runId run) (rr_clientId run) CancellingRun no_patch) (\<lambda>_. ret ())
       else ret ())"

definition remove_at :: "nat \<Rightarrow> 'a list \<Rightarrow> 'a list" where
  "remove_at k xs = take k xs @ drop (Suc k) xs"

definition poll_acts :: "jsstring \<Rightarrow> nat \<Rightarrow> 'q run_system \<Rightarrow> 'q run_system" where
  "poll_acts now k s =
     (if k < length (sy_polls s)
      then (case sy_polls s ! k of
              (i, run) \<Rightarrow>
                (let s1 = s\<lparr>sy_polls := remove_at k (sy_polls s), sy_db := snd (poll_update now run (sy_db s))\<rparr>
                 in if i < length (sy_loops s) then with_loop i (cancel_loop run (sy_loops s ! i)) s1 else s1))
      else s)"

text \<open>\<open>start\<close>; a worker that dies takes its loops and polls with it, and what it claimed.\<close>

definition start_worker :: "nat \<Rightarrow> 'q run_system \<Rightarrow> 'q run_system" where
  "start_worker concurrency s =
     (if sy_running s then s
      else s\<lparr>sy_stopping := False, sy_running := True, sy_loops := sy_loops s @ replicate concurrency LoopIdle\<rparr>)"

definition worker_dies :: "'q run_system \<Rightarrow> 'q run_system" where
  "worker_dies s = s\<lparr>sy_loops := [], sy_polls := [], sy_running := False, sy_stopping := False\<rparr>"

text \<open>The requests.\<close>

definition request_start ::
    "(nat \<Rightarrow> jsstring) \<Rightarrow> jsstring \<Rightarrow> jsstring \<Rightarrow> jsstring \<Rightarrow> json \<Rightarrow> 'q run_system \<Rightarrow> 'q run_system" where
  "request_start clock newSession newRun clientId request s =
     (case startRun_begin clock newSession newRun clientId request (sy_db s) of
        (Inl _, db) \<Rightarrow> with_db db s
      | (Inr _, db) \<Rightarrow>
          (with_db db s)\<lparr>sy_calls := sy_calls s @ [Enqueueing clientId newRun], sy_created := sy_created s @ [(clientId, newRun)]\<rparr>)"

definition request_cancel :: "jsstring \<Rightarrow> jsstring \<Rightarrow> 'q run_system \<Rightarrow> 'q run_system" where
  "request_cancel clientId runId s =
     (case cancelRun_begin clientId runId (sy_db s) of
        (Inr (Inr run), db) \<Rightarrow> (with_db db s)\<lparr>sy_calls := sy_calls s @ [RequestingCancel run]\<rparr>
      | (_, db) \<Rightarrow> with_db db s)"

definition request_delete :: "jsstring \<Rightarrow> jsstring \<Rightarrow> bool \<Rightarrow> 'q run_system \<Rightarrow> 'q run_system" where
  "request_delete clientId sessionId force s =
     (case deleteSession_begin clientId sessionId force (sy_db s) of
        (Inr (Inr runs), db) \<Rightarrow> (with_db db s)\<lparr>sy_calls := sy_calls s @ map RequestingCancel runs\<rparr>
      | (_, db) \<Rightarrow> with_db db s)"

text \<open>A request goes on: the queue is called, or its answer is there.\<close>

definition request_goes_on :: "'q run_queue \<Rightarrow> jsstring \<Rightarrow> nat \<Rightarrow> 'q run_system \<Rightarrow> 'q run_system" where
  "request_goes_on Q now k s =
     (if k < length (sy_calls s)
      then
        (let rest = s\<lparr>sy_calls := remove_at k (sy_calls s)\<rparr>
         in case sy_calls s ! k of
              Enqueueing clientId runId \<Rightarrow>
                (case rq_enqueue Q (RunOf (Some clientId) runId) (sy_queue s) of
                   (Inr _, q) \<Rightarrow> rest\<lparr>sy_queue := q\<rparr>
                 | (Inl e, q) \<Rightarrow> with_db (snd (enqueue_failed now clientId runId e (sy_db s))) (rest\<lparr>sy_queue := q\<rparr>))
            | RequestingCancel run \<Rightarrow>
                (case rq_requestCancel Q (run_item_of run) (sy_queue s) of
                   (Inr _, q) \<Rightarrow> s\<lparr>sy_queue := q, sy_calls := (sy_calls s)[k := CancelRequested run]\<rparr>
                 | (Inl e, q) \<Rightarrow> rest\<lparr>sy_queue := q\<rparr>)
            | CancelRequested run \<Rightarrow> with_db (snd (cancel_update now run (sy_db s))) rest)
      else s)"

section \<open>All steps\<close>

datatype run_action =
    RequestStart "nat \<Rightarrow> jsstring" jsstring jsstring jsstring json
  | RequestCancel jsstring jsstring
  | RequestDelete jsstring jsstring bool
  | RequestGoesOn jsstring nat
  | StartWorker nat
  | StopWorker jsstring
  | WorkerDies
  | MarkInterrupted jsstring
  | LoopClaims nat
  | ClaimAnswered nat
  | StartClaimed "nat \<Rightarrow> jsstring" "jsstring option" nat
  | AgentReports "nat \<Rightarrow> jsstring" nat worker_event
  | AgentEnds "nat \<Rightarrow> jsstring" nat "jsstring option"
  | CancelAnswered jsstring nat
  | WriteEnd "nat \<Rightarrow> jsstring" nat
  | CompleteClaim nat
  | PollAsks nat
  | PollActs jsstring nat

fun perform :: "'q run_queue \<Rightarrow> jsstring \<Rightarrow> run_action \<Rightarrow> 'q run_system \<Rightarrow> 'q run_system" where
  "perform Q w (RequestStart clock newSession newRun clientId request) s = request_start clock newSession newRun clientId request s"
| "perform Q w (RequestCancel clientId runId) s = request_cancel clientId runId s"
| "perform Q w (RequestDelete clientId sessionId force) s = request_delete clientId sessionId force s"
| "perform Q w (RequestGoesOn now k) s = request_goes_on Q now k s"
| "perform Q w (StartWorker n) s = start_worker n s"
| "perform Q w (StopWorker now) s = stop_worker Q w now s"
| "perform Q w WorkerDies s = worker_dies s"
| "perform Q w (MarkInterrupted now) s = with_db (snd (markOwnedRunningRunsInterrupted now w (sy_db s))) s"
| "perform Q w (LoopClaims i) s = loop_claim i s"
| "perform Q w (ClaimAnswered i) s = claim_answered Q w i s"
| "perform Q w (StartClaimed clock made i) s = start_claimed clock w made i s"
| "perform Q w (AgentReports clock i event) s = agent_reports clock i event s"
| "perform Q w (AgentEnds clock i failure) s = agent_ends clock i failure s"
| "perform Q w (CancelAnswered now i) s = cancel_answered Q now i s"
| "perform Q w (WriteEnd clock i) s = write_end clock i s"
| "perform Q w (CompleteClaim i) s = complete_claim Q w i s"
| "perform Q w (PollAsks i) s = poll_asked Q i s"
| "perform Q w (PollActs now k) s = poll_acts now k s"

definition perform_all :: "'q run_queue \<Rightarrow> jsstring \<Rightarrow> run_action list \<Rightarrow> 'q run_system \<Rightarrow> 'q run_system" where
  "perform_all Q w = fold (perform Q w)"

definition new_run_system :: "'q \<Rightarrow> 'q run_system" where
  "new_run_system q =
     \<lparr>sy_db = new_runtime_db, sy_queue = q, sy_calls = [], sy_loops = [], sy_polls = [], sy_running = False,
      sy_stopping = False, sy_created = [], sy_started = []\<rparr>"

end
