(* ===== verification/Run_Database_Facts.thy ===== *)
theory Run_Database_Facts
  imports Run_Database Json_Roundtrip
begin

text \<open>
  What the operations of \<open>Run_Database\<close> do to the tables, and that they keep the database consistent: keys are
  unique, references lead to rows, ids and sequence numbers count up, and stored texts are JSON.
\<close>

section \<open>Effects\<close>

definition keeps :: "('w \<Rightarrow> bool) \<Rightarrow> ('w, 'a) eff \<Rightarrow> bool" where
  "keeps P f \<longleftrightarrow> (\<forall>w. P w \<longrightarrow> P (snd (f w)))"

lemma keepsI: "(\<And>w. P w \<Longrightarrow> P (snd (f w))) \<Longrightarrow> keeps P f"
  by (simp add: keeps_def)

lemma keepsD: "keeps P f \<Longrightarrow> P w \<Longrightarrow> P (snd (f w))"
  by (simp add: keeps_def)

named_theorems keeps_intro \<open>what an effect keeps\<close>

lemma keeps_bind [keeps_intro]: "keeps P f \<Longrightarrow> (\<And>a. keeps P (k a)) \<Longrightarrow> keeps P (bind_eff f k)"
  unfolding keeps_def bind_eff_def by (force split: prod.splits sum.splits)

lemma keeps_ret [keeps_intro]: "keeps P (ret a)" "keeps P (throw m)" "keeps Q (query f)" "keeps P (requiredRecord l r)"
  by (auto simp: keeps_def ret_def throw_def query_def requiredRecord_def split: option.splits)

lemma keeps_transaction [keeps_intro]: "keeps P f \<Longrightarrow> keeps P (writeTransaction f)"
  unfolding keeps_def writeTransaction_def by (force split: prod.splits sum.splits)

lemma keeps_each [keeps_intro]: "(\<And>x. keeps P (f x)) \<Longrightarrow> keeps P (each_eff f xs)"
  by (induction xs) (auto intro: keeps_intro)

lemma keeps_if [keeps_intro]: "keeps P f \<Longrightarrow> keeps P g \<Longrightarrow> keeps P (if b then f else g)"
  by simp

lemma snd_query [simp]: "snd (query f db) = db"
  by (simp add: query_def)

lemma reads_pure [simp]:
  "getSession c s db = (map_row toSessionRecord (find (is_session c s) (db_sessions db)), db)"
  "getRun c r db = (map_row toRunRecord (find (is_run c r) (db_runs db)), db)"
  "getMessage c i db = (map_row toMessageRecord (find (\<lambda>m. mw_client_id m = c \<and> mw_id m = i) (db_messages db)), db)"
  "getRunEvent c i db = (map_row toRunEventRecord (find (\<lambda>e. ew_client_id e = c \<and> ew_id e = i) (db_run_events db)), db)"
  by (simp_all add: getSession_def getRun_def getMessage_def getRunEvent_def query_def)

lemma keeps_reads [keeps_intro]:
  "keeps P (getSession c s)" "keeps P (getRun c r)" "keeps P (getMessage c i)" "keeps P (getRunEvent c i)"
  "keeps P (listMessages c s)" "keeps P (listRunsForSession c s)" "keeps P (listRunningRunsByWorker w)"
  by (simp_all add: keeps_def listMessages_def listRunsForSession_def listRunningRunsByWorker_def)

section \<open>Rows\<close>

lemma find_map_where: "(\<And>x. P x \<Longrightarrow> P (f x)) \<Longrightarrow> find P (map_where P f xs) = map_option f (find P xs)"
  by (induction xs) (auto simp: map_where_def)

lemma find_map_where_other: "(\<And>x. P x \<Longrightarrow> Q x = Q (f x)) \<Longrightarrow> (\<And>x. P x \<Longrightarrow> \<not> Q x) \<Longrightarrow> find Q (map_where P f xs) = find Q xs"
  by (induction xs) (auto simp: map_where_def)

lemma find_in: "find P xs = Some x \<Longrightarrow> x \<in> set xs \<and> P x"
  by (auto simp: find_Some_iff)

lemma find_some: "x \<in> set xs \<Longrightarrow> P x \<Longrightarrow> \<exists>y. find P xs = Some y"
  by (metis find_None_iff option.exhaust)

lemma map_map_where: "(\<And>x. g (f x) = g x) \<Longrightarrow> map g (map_where P f xs) = map g xs"
  by (simp add: map_where_def)

lemma set_map_where: "set (map_where P f xs) = f ` {x \<in> set xs. P x} \<union> {x \<in> set xs. \<not> P x}"
  by (auto simp: map_where_def)

lemma set_status_fields [simp]:
  "rw_run_id (set_status st p t cur row) = rw_run_id row" "rw_client_id (set_status st p t cur row) = rw_client_id row"
  "rw_session_id (set_status st p t cur row) = rw_session_id row" "rw_model_json (set_status st p t cur row) = rw_model_json row"
  "rw_status (set_status st p t cur row) = st" "is_run c r (set_status st p t cur row) = is_run c r row"
  by (simp_all add: set_status_def Let_def is_run_def)

lemma toRunRecord_fields:
  "toRunRecord row = Inr run \<Longrightarrow>
     rr_runId run = rw_run_id row \<and> rr_clientId run = rw_client_id row \<and> rr_sessionId run = rw_session_id row
     \<and> rr_status run = rw_status row"
  by (auto simp: toRunRecord_def split: sum.splits)

lemma toRunRecord_fails: "rw_model_json row = rw_model_json row' \<Longrightarrow> isl (toRunRecord row) = isl (toRunRecord row')"
  by (simp add: toRunRecord_def split: sum.splits)

text \<open>\<open>updateRunStatus\<close> writes, or the run is not there, or it cannot be read.\<close>

definition touch_session :: "jsstring \<Rightarrow> jsstring \<Rightarrow> jsstring \<Rightarrow> run_status \<Rightarrow> jsstring \<Rightarrow> runtime_db \<Rightarrow> runtime_db" where
  "touch_session c s r st t db = db\<lparr>db_sessions := map_where (is_session c s)
     (\<lambda>x. x\<lparr>sw_updated_at := t, sw_last_run_status := Some st, sw_last_run_id := Some r\<rparr>) (db_sessions db)\<rparr>"

lemma updateRunStatus_eq:
  "updateRunStatus now r c st p db =
     (case find (is_run c r) (db_runs db) of
        None \<Rightarrow> (Inl (js ''Runtime run not found''), db)
      | Some row \<Rightarrow>
          (case toRunRecord row of
             Inl e \<Rightarrow> (Inl e, db)
           | Inr current \<Rightarrow>
               (let t = or_else (sp_updatedAt p) now
                in (toRunRecord (set_status st p t current row),
                    touch_session c (rw_session_id row) r st t
                      (db\<lparr>db_runs := map_where (is_run c r) (set_status st p t current) (db_runs db)\<rparr>)))))"
proof (cases "find (is_run c r) (db_runs db)")
  case None
  then show ?thesis
    by (simp add: updateRunStatus_def bind_eff_def requiredRecord_def map_row_def throw_def js_append [symmetric])
next
  case (Some row)
  show ?thesis
  proof (cases "toRunRecord row")
    case (Inr current)
    let ?f = "set_status st p (or_else (sp_updatedAt p) now) current"
    have f: "find (is_run c r) (map_where (is_run c r) ?f (db_runs db)) = Some (?f row)"
      by (subst find_map_where) (simp_all add: Some)
    obtain x where x: "toRunRecord (?f row) = Inr x"
      using toRunRecord_fails [of "?f row" row] Inr by (cases "toRunRecord (?f row)") simp_all
    show ?thesis using toRunRecord_fields [OF Inr]
      by (simp add: updateRunStatus_def bind_eff_def requiredRecord_def map_row_def ret_def Some Inr Let_def x f
        writeTransaction_def update_run_def updateSessionRun_def update_session_def touch_session_def)
  qed (simp add: updateRunStatus_def bind_eff_def map_row_def Some)
qed

section \<open>Consistency\<close>

definition stored_json :: "jsstring \<Rightarrow> bool" where
  "stored_json t \<longleftrightarrow> (\<exists>j. json_ok j \<and> t = stringify j)"

definition session_keys :: "runtime_db \<Rightarrow> (jsstring \<times> jsstring) list" where
  "session_keys db = map (\<lambda>s. (sw_client_id s, sw_session_id s)) (db_sessions db)"

definition run_keys :: "runtime_db \<Rightarrow> (jsstring \<times> jsstring) list" where
  "run_keys db = map (\<lambda>r. (rw_client_id r, rw_run_id r)) (db_runs db)"

definition events_of :: "jsstring \<Rightarrow> jsstring \<Rightarrow> runtime_db \<Rightarrow> run_event_row list" where
  "events_of c r db = filter (\<lambda>e. ew_client_id e = c \<and> ew_run_id e = r) (db_run_events db)"

definition keys_unique :: "runtime_db \<Rightarrow> bool" where
  "keys_unique db \<longleftrightarrow> distinct (map cw_client_id (db_clients db)) \<and> distinct (session_keys db) \<and> distinct (run_keys db)"

definition references_hold :: "runtime_db \<Rightarrow> bool" where
  "references_hold db \<longleftrightarrow>
     (\<forall>s \<in> set (db_sessions db). \<exists>c \<in> set (db_clients db). cw_client_id c = sw_client_id s)
     \<and> (\<forall>m \<in> set (db_messages db). (mw_client_id m, mw_session_id m) \<in> set (session_keys db))
     \<and> (\<forall>r \<in> set (db_runs db). (rw_client_id r, rw_session_id r) \<in> set (session_keys db))
     \<and> (\<forall>e \<in> set (db_run_events db). \<exists>r \<in> set (db_runs db).
          rw_client_id r = ew_client_id e \<and> rw_run_id r = ew_run_id e \<and> rw_session_id r = ew_session_id e)"

definition rows_numbered :: "runtime_db \<Rightarrow> bool" where
  "rows_numbered db \<longleftrightarrow>
     sorted_wrt (<) (map mw_id (db_messages db) @ [db_next_message db])
     \<and> sorted_wrt (<) (map ew_id (db_run_events db) @ [db_next_event db])
     \<and> (\<forall>c r. map ew_seq (events_of c r db) = [1..<Suc (length (events_of c r db))])"

definition texts_stored :: "runtime_db \<Rightarrow> bool" where
  "texts_stored db \<longleftrightarrow>
     (\<forall>s \<in> set (db_sessions db). stored_json (sw_model_json s))
     \<and> (\<forall>m \<in> set (db_messages db). stored_json (mw_payload_json m))
     \<and> (\<forall>r \<in> set (db_runs db). stored_json (rw_model_json r))
     \<and> (\<forall>e \<in> set (db_run_events db). stored_json (ew_payload_json e))"

definition db_consistent :: "runtime_db \<Rightarrow> bool" where
  "db_consistent db \<longleftrightarrow> keys_unique db \<and> references_hold db \<and> rows_numbered db \<and> texts_stored db"

lemmas consistent_defs = db_consistent_def keys_unique_def references_hold_def rows_numbered_def texts_stored_def

lemma new_consistent: "db_consistent new_runtime_db"
  by (simp add: consistent_defs new_runtime_db_def session_keys_def run_keys_def events_of_def)

lemma stored_reads: "stored_json t \<Longrightarrow> \<exists>j. json_ok j \<and> parseJsonObject t = Inr j"
proof -
  assume "stored_json t"
  then obtain j where j: "json_ok j" "t = stringify j" unfolding stored_json_def by blast
  from json_roundtrip [OF j(1)] have "parseJsonObject t = Inr (if isObject j then j else JObj [])"
    by (simp add: parseJsonObject_def j(2))
  moreover have "json_ok (if isObject j then j else JObj [])" using j(1) by simp
  ultimately show ?thesis by blast
qed

lemma stored_stringify [simp]: "json_ok j \<Longrightarrow> stored_json (stringify j)"
  by (auto simp: stored_json_def)

lemma stored_run_reads: "stored_json (rw_model_json row) \<Longrightarrow> \<exists>run. toRunRecord row = Inr run"
  using stored_reads by (fastforce simp: toRunRecord_def)

lemma run_row_reads:
  assumes "db_consistent db" "find (is_run c r) (db_runs db) = Some row"
  shows "\<exists>run. toRunRecord row = Inr run \<and> rr_clientId run = c \<and> rr_runId run = r \<and> rr_sessionId run = rw_session_id row
     \<and> rr_status run = rw_status row"
proof -
  have "row \<in> set (db_runs db)" "is_run c r row" using find_in [OF assms(2)] by auto
  then show ?thesis using assms(1) stored_run_reads toRunRecord_fields
    by (metis consistent_defs(1,5) is_run_def)
qed

text \<open>Consistency looks at the keys, references and texts of sessions and runs only.\<close>

definition session_view :: "session_row \<Rightarrow> jsstring \<times> jsstring \<times> jsstring" where
  "session_view s = (sw_client_id s, sw_session_id s, sw_model_json s)"

definition run_view :: "run_row \<Rightarrow> jsstring \<times> jsstring \<times> jsstring \<times> jsstring" where
  "run_view r = (rw_client_id r, rw_run_id r, rw_session_id r, rw_model_json r)"

lemma same_views: "map f xs = map f ys \<Longrightarrow> x \<in> set xs \<Longrightarrow> \<exists>y \<in> set ys. f y = f x"
  by (metis (no_types, lifting) image_iff list.set_map)

lemma keys_of_views:
  "session_keys db = map (\<lambda>(c, s, m). (c, s)) (map session_view (db_sessions db))"
  "run_keys db = map (\<lambda>(c, r, s, m). (c, r)) (map run_view (db_runs db))"
  by (simp_all add: session_keys_def run_keys_def session_view_def run_view_def)

lemma consistent_views:
  assumes v: "map session_view (db_sessions db') = map session_view (db_sessions db)"
      "map run_view (db_runs db') = map run_view (db_runs db)"
    and e: "db_clients db' = db_clients db" "db_messages db' = db_messages db" "db_run_events db' = db_run_events db"
      "db_next_message db' = db_next_message db" "db_next_event db' = db_next_event db"
    and c: "db_consistent db"
  shows "db_consistent db'"
proof -
  have k: "session_keys db' = session_keys db" "run_keys db' = run_keys db" by (simp_all add: keys_of_views v)
  have s: "\<exists>y \<in> set (db_sessions db). session_view y = session_view x" if "x \<in> set (db_sessions db')" for x
    using same_views [OF v(1) that] .
  have r: "\<exists>y \<in> set (db_runs db). run_view y = run_view x" if "x \<in> set (db_runs db')" for x
    using same_views [OF v(2) that] .
  have r': "\<exists>y \<in> set (db_runs db'). run_view y = run_view x" if "x \<in> set (db_runs db)" for x
    using same_views [OF v(2) [symmetric] that] .
  have "keys_unique db'" "rows_numbered db'" using c by (simp_all add: consistent_defs k e events_of_def)
  moreover have "references_hold db'"
  proof -
    have h: "references_hold db" using c by (simp add: db_consistent_def)
    have "\<exists>c \<in> set (db_clients db). cw_client_id c = sw_client_id x" if "x \<in> set (db_sessions db')" for x
      using s [OF that] h by (fastforce simp: references_hold_def session_view_def)
    moreover have "(rw_client_id x, rw_session_id x) \<in> set (session_keys db)" if "x \<in> set (db_runs db')" for x
      using r [OF that] h by (fastforce simp: references_hold_def run_view_def)
    moreover have "\<exists>y \<in> set (db_runs db'). rw_client_id y = ew_client_id x \<and> rw_run_id y = ew_run_id x \<and> rw_session_id y = ew_session_id x"
      if "x \<in> set (db_run_events db)" for x
    proof -
      have "\<forall>e \<in> set (db_run_events db). \<exists>r \<in> set (db_runs db).
          rw_client_id r = ew_client_id e \<and> rw_run_id r = ew_run_id e \<and> rw_session_id r = ew_session_id e"
        using h by (simp add: references_hold_def)
      with that obtain y where y: "y \<in> set (db_runs db)" "rw_client_id y = ew_client_id x" "rw_run_id y = ew_run_id x"
          "rw_session_id y = ew_session_id x" by blast
      with r' [OF y(1)] show ?thesis by (auto simp: run_view_def)
    qed
    ultimately show ?thesis using h by (simp add: references_hold_def e k)
  qed
  moreover have "texts_stored db'"
  proof -
    have h: "texts_stored db" using c by (simp add: db_consistent_def)
    have "stored_json (sw_model_json x)" if "x \<in> set (db_sessions db')" for x
      using s [OF that] h by (auto simp: texts_stored_def session_view_def)
    moreover have "stored_json (rw_model_json x)" if "x \<in> set (db_runs db')" for x
      using r [OF that] h by (auto simp: texts_stored_def run_view_def)
    ultimately show ?thesis using h by (simp add: texts_stored_def e)
  qed
  ultimately show ?thesis by (simp add: db_consistent_def)
qed

lemma views_map_where [simp]:
  "map session_view (map_where P (\<lambda>x. x\<lparr>sw_updated_at := a\<rparr>) xs) = map session_view xs"
  "map session_view (map_where P (\<lambda>x. x\<lparr>sw_updated_at := a, sw_last_run_status := b, sw_last_run_id := e\<rparr>) xs) = map session_view xs"
  "map run_view (map_where R (set_status st p t cur) ys) = map run_view ys"
  by (simp_all add: map_where_def session_view_def run_view_def)

lemma update_consistent:
  assumes "db_consistent db"
  shows "db_consistent (db\<lparr>db_runs := map_where P (set_status st p t cur) (db_runs db)\<rparr>)"
    "db_consistent (touch_session c s r st t db)"
    "db_consistent (db\<lparr>db_sessions := map_where Q (\<lambda>x. x\<lparr>sw_updated_at := a\<rparr>) (db_sessions db)\<rparr>)"
  by (rule consistent_views [OF _ _ _ _ _ _ _ assms]; simp add: touch_session_def)+

lemma keeps_updateRunStatus [keeps_intro]: "keeps db_consistent (updateRunStatus now r c st p)"
  by (rule keepsI) (simp add: updateRunStatus_eq update_consistent Let_def split: option.splits sum.splits)

section \<open>What is added\<close>

lemma session_known: "list_ex (is_session c s) (db_sessions db) \<longleftrightarrow> (c, s) \<in> set (session_keys db)"
  by (force simp: list_ex_iff is_session_def session_keys_def)

lemma run_known: "list_ex (is_run c r) (db_runs db) \<longleftrightarrow> (c, r) \<in> set (run_keys db)"
  by (force simp: list_ex_iff is_run_def run_keys_def)

lemma client_known: "list_ex (\<lambda>x. cw_client_id x = c) cs \<longleftrightarrow> (\<exists>x \<in> set cs. cw_client_id x = c)"
  by (simp add: list_ex_iff)

lemma keys_added [simp]:
  "session_keys (db\<lparr>db_clients := cs\<rparr>) = session_keys db" "run_keys (db\<lparr>db_clients := cs\<rparr>) = run_keys db"
  "session_keys (db\<lparr>db_messages := a\<rparr>) = session_keys db" "run_keys (db\<lparr>db_messages := a\<rparr>) = run_keys db"
  "session_keys (db\<lparr>db_next_message := n\<rparr>) = session_keys db" "run_keys (db\<lparr>db_next_message := n\<rparr>) = run_keys db"
  "session_keys (db\<lparr>db_run_events := b\<rparr>) = session_keys db" "run_keys (db\<lparr>db_run_events := b\<rparr>) = run_keys db"
  "session_keys (db\<lparr>db_next_event := n\<rparr>) = session_keys db" "run_keys (db\<lparr>db_next_event := n\<rparr>) = run_keys db"
  "session_keys (db\<lparr>db_runs := rs\<rparr>) = session_keys db" "run_keys (db\<lparr>db_sessions := ss\<rparr>) = run_keys db"
  "session_keys (db\<lparr>db_sessions := db_sessions db @ [x]\<rparr>) = session_keys db @ [(sw_client_id x, sw_session_id x)]"
  "run_keys (db\<lparr>db_runs := db_runs db @ [y]\<rparr>) = run_keys db @ [(rw_client_id y, rw_run_id y)]"
  by (simp_all add: session_keys_def run_keys_def)

lemma events_added [simp]:
  "events_of c r (db\<lparr>db_clients := cs\<rparr>) = events_of c r db"
  "events_of c r (db\<lparr>db_messages := a\<rparr>) = events_of c r db" "events_of c r (db\<lparr>db_next_message := n\<rparr>) = events_of c r db"
  "events_of c r (db\<lparr>db_sessions := ss\<rparr>) = events_of c r db" "events_of c r (db\<lparr>db_runs := rs\<rparr>) = events_of c r db"
  by (simp_all add: events_of_def)

lemma upsert_consistent [keeps_intro]: "keeps db_consistent (upsertClient now c)"
proof (rule keepsI)
  fix db
  assume h: "db_consistent db"
  have h': "distinct (map cw_client_id (db_clients db))" "\<forall>s \<in> set (db_sessions db). \<exists>c \<in> set (db_clients db). cw_client_id c = sw_client_id s"
    using h by (simp_all add: consistent_defs)
  have ids: "map cw_client_id (map_where P (\<lambda>c. c\<lparr>cw_updated_at := now\<rparr>) xs) = map cw_client_id xs" for P and xs :: "client_row list"
    by (simp add: map_where_def)
  have known: "\<exists>y \<in> set (map_where P (\<lambda>c. c\<lparr>cw_updated_at := now\<rparr>) xs). cw_client_id y = cw_client_id x"
    if "x \<in> set xs" for P x and xs :: "client_row list"
    using same_views [of cw_client_id xs "map_where P (\<lambda>c. c\<lparr>cw_updated_at := now\<rparr>) xs" x] that by (simp add: ids)
  have rest: "db_consistent (db\<lparr>db_clients := cs\<rparr>)"
    if "distinct (map cw_client_id cs)" "\<forall>x \<in> set (db_clients db). \<exists>y \<in> set cs. cw_client_id y = cw_client_id x" for cs
  proof -
    have "\<exists>c \<in> set cs. cw_client_id c = sw_client_id x" if "x \<in> set (db_sessions db)" for x
      using h'(2) that \<open>\<forall>x \<in> set (db_clients db). _ x\<close> by fastforce
    with h that(1) show ?thesis by (simp add: consistent_defs del: upt_Suc)
  qed
  show "db_consistent (snd (upsertClient now c db))"
  proof (cases "list_ex (\<lambda>x. cw_client_id x = c) (db_clients db)")
    case True
    then show ?thesis using rest h'(1) known by (simp add: upsertClient_def ids)
  next
    case False
    then have "distinct (map cw_client_id (db_clients db @ [\<lparr>cw_client_id = c, cw_created_at = now, cw_updated_at = now\<rparr>]))"
      using h'(1) by (auto simp: list_ex_iff)
    moreover have "\<forall>x \<in> set (db_clients db).
        \<exists>y \<in> set (db_clients db @ [\<lparr>cw_client_id = c, cw_created_at = now, cw_updated_at = now\<rparr>]). cw_client_id y = cw_client_id x"
      by auto
    ultimately show ?thesis using rest False by (simp only: upsertClient_def if_False snd_conv)
  qed
qed

lemma keeps_insert_session [keeps_intro]:
  "stored_json (sw_model_json row) \<Longrightarrow> keeps db_consistent (insert_session row)"
proof (rule keepsI)
  fix db
  assume "stored_json (sw_model_json row)" "db_consistent db"
  then show "db_consistent (snd (insert_session row db))"
    by (auto simp: insert_session_def throw_def consistent_defs session_known client_known simp del: upt_Suc)
qed

lemma sorted_end: "sorted_wrt (<) (xs @ [n :: nat]) \<Longrightarrow> sorted_wrt (<) (xs @ [n, Suc n])"
  by (auto simp: sorted_wrt_append)

lemma keeps_insert_message [keeps_intro]:
  assumes "\<And>i. mw_id (row_of i) = i" "\<And>i. stored_json (mw_payload_json (row_of i))"
  shows "keeps db_consistent (insert_message row_of)"
proof (rule keepsI)
  fix db
  assume "db_consistent db"
  then show "db_consistent (snd (insert_message row_of db))"
    using sorted_end [of "map mw_id (db_messages db)"] assms
    by (auto simp: insert_message_def throw_def Let_def consistent_defs session_known simp del: upt_Suc)
qed

lemma keeps_insert_run [keeps_intro]:
  "stored_json (rw_model_json row) \<Longrightarrow> keeps db_consistent (insert_run row)"
proof (rule keepsI)
  fix db
  assume "stored_json (rw_model_json row)" "db_consistent db"
  then show "db_consistent (snd (insert_run row db))"
    by (auto simp: insert_run_def throw_def consistent_defs session_known run_known simp del: upt_Suc)
qed

lemma keeps_update_session [keeps_intro]:
  "keeps db_consistent (update_session c s (\<lambda>x. x\<lparr>sw_updated_at := a\<rparr>))"
  "keeps db_consistent (updateSessionRun c s r st t)"
  using update_consistent by (auto simp: keeps_def update_session_def updateSessionRun_def touch_session_def)

lemma keeps_createSession [keeps_intro]: "json_ok (cs_model input) \<Longrightarrow> keeps db_consistent (createSession now now' input)"
  unfolding createSession_def Let_def by (intro keeps_intro) simp_all

lemma keeps_appendMessage_db [keeps_intro]: "json_ok (ami_payload input) \<Longrightarrow> keeps db_consistent (appendMessage_db now input)"
  unfolding appendMessage_db_def Let_def by (intro keeps_intro) simp_all

lemma keeps_createRun [keeps_intro]: "json_ok (cr_model input) \<Longrightarrow> keeps db_consistent (createRun now input)"
  unfolding createRun_def Let_def by (intro keeps_intro) simp_all

section \<open>Events\<close>

lemma max_upt: "foldr max [1..<Suc n] a = max n a"
  by (induction n arbitrary: a) simp_all

lemma next_seq_numbered: "rows_numbered db \<Longrightarrow> next_seq c r db = Suc (length (events_of c r db))"
  using max_upt [of "length (events_of c r db)" 0] by (simp add: next_seq_def events_of_def rows_numbered_def del: upt_Suc)

definition event_row :: "jsstring \<Rightarrow> append_event_input \<Rightarrow> runtime_db \<Rightarrow> run_event_row" where
  "event_row now input db =
     \<lparr>ew_id = db_next_event db, ew_run_id = ae_runId input, ew_session_id = ae_sessionId input, ew_client_id = ae_clientId input,
      ew_seq = next_seq (ae_clientId input) (ae_runId input) db, ew_event_type = ae_type input,
      ew_payload_json = stringify (ae_payload input), ew_created_at = or_else (ae_createdAt input) now\<rparr>"

lemma appendRunEvent_effect:
  "snd (appendRunEvent now input db) = db \<or>
   (\<exists>row. find (is_run (ae_clientId input) (ae_runId input)) (db_runs db) = Some row \<and> rw_session_id row = ae_sessionId input
     \<and> snd (appendRunEvent now input db)
       = db\<lparr>db_run_events := db_run_events db @ [event_row now input db], db_next_event := Suc (db_next_event db)\<rparr>)"
proof (cases "find (is_run (ae_clientId input) (ae_runId input)) (db_runs db)")
  case None
  then show ?thesis
    by (simp add: appendRunEvent_def bind_eff_def writeTransaction_def map_row_def requiredRecord_def throw_def Let_def)
next
  case (Some row)
  show ?thesis
  proof (cases "toRunRecord row")
    case (Inr run)
    from Some Inr toRunRecord_fields [OF Inr] show ?thesis
      by (auto simp: appendRunEvent_def bind_eff_def writeTransaction_def map_row_def requiredRecord_def throw_def ret_def Let_def
          query_def insert_event_def event_row_def split: option.splits sum.splits prod.splits)
  qed (simp add: Some appendRunEvent_def bind_eff_def writeTransaction_def map_row_def Let_def)
qed

lemma keeps_appendRunEvent [keeps_intro]:
  assumes "json_ok (ae_payload input)"
  shows "keeps db_consistent (appendRunEvent now input)"
proof (rule keepsI)
  fix db
  assume h: "db_consistent db"
  let ?row = "event_row now input db"
  let ?db = "db\<lparr>db_run_events := db_run_events db @ [?row], db_next_event := Suc (db_next_event db)\<rparr>"
  have "db_consistent ?db"
    if r: "find (is_run (ae_clientId input) (ae_runId input)) (db_runs db) = Some row" "rw_session_id row = ae_sessionId input" for row
  proof -
    have "row \<in> set (db_runs db)" "is_run (ae_clientId input) (ae_runId input) row" using find_in [OF r(1)] by auto
    with r(2) have "\<exists>x \<in> set (db_runs db). rw_client_id x = ew_client_id ?row \<and> rw_run_id x = ew_run_id ?row \<and> rw_session_id x = ew_session_id ?row"
      by (auto simp: event_row_def is_run_def)
    moreover have "sorted_wrt (<) (map ew_id (db_run_events ?db) @ [db_next_event ?db])"
      using sorted_end [of "map ew_id (db_run_events db)"] h by (simp add: consistent_defs event_row_def)
    moreover have "map ew_seq (events_of c r ?db) = [1..<Suc (length (events_of c r ?db))]" for c r
    proof -
      have n: "map ew_seq (events_of c r db) = [1..<Suc (length (events_of c r db))]" using h by (simp add: consistent_defs)
      have "events_of c r ?db = events_of c r db @ (if c = ae_clientId input \<and> r = ae_runId input then [?row] else [])"
        by (auto simp: events_of_def event_row_def)
      then show ?thesis using n next_seq_numbered [of db c r] h by (auto simp: event_row_def db_consistent_def)
    qed
    ultimately show ?thesis using h assms
      by (auto simp: consistent_defs session_keys_def run_keys_def event_row_def)
  qed
  with appendRunEvent_effect [of now input db] h show "db_consistent (snd (appendRunEvent now input db))" by auto
qed

section \<open>What is removed\<close>

definition without_session :: "jsstring \<Rightarrow> jsstring \<Rightarrow> runtime_db \<Rightarrow> runtime_db" where
  "without_session c s db = db\<lparr>
     db_run_events := filter (\<lambda>e. \<not> (ew_client_id e = c \<and> ew_session_id e = s)) (db_run_events db),
     db_runs := filter (\<lambda>r. \<not> (rw_client_id r = c \<and> rw_session_id r = s)) (db_runs db),
     db_messages := filter (\<lambda>m. \<not> (mw_client_id m = c \<and> mw_session_id m = s)) (db_messages db),
     db_sessions := filter (\<lambda>x. \<not> is_session c s x) (db_sessions db)\<rparr>"

lemma deleteSession_effect: "snd (deleteSession c s db) = db \<or> snd (deleteSession c s db) = without_session c s db"
  by (auto simp: deleteSession_def writeTransaction_def bind_eff_def ret_def throw_def delete_events_def delete_runs_def
      delete_messages_def delete_sessions_def without_session_def Let_def split: prod.splits sum.splits if_splits)

lemma event_session:
  assumes "db_consistent db" "e \<in> set (db_run_events db)" "r \<in> set (db_runs db)" "is_run (ew_client_id e) (ew_run_id e) r"
  shows "rw_session_id r = ew_session_id e"
proof -
  obtain r' where r': "r' \<in> set (db_runs db)" "rw_client_id r' = ew_client_id e" "rw_run_id r' = ew_run_id e"
      "rw_session_id r' = ew_session_id e"
    using assms(1,2) by (auto simp: consistent_defs)
  have "inj_on (\<lambda>r. (rw_client_id r, rw_run_id r)) (set (db_runs db))"
    using assms(1) by (simp add: consistent_defs run_keys_def distinct_map)
  with r' assms(3,4) have "r' = r" by (auto simp: is_run_def inj_on_def)
  with r' show ?thesis by simp
qed

lemma without_session_events:
  assumes "db_consistent db"
  shows "events_of c' r' (without_session c s db) = events_of c' r' db \<or> events_of c' r' (without_session c s db) = []"
proof -
  have w: "events_of c' r' (without_session c s db) = filter (\<lambda>e. \<not> (ew_client_id e = c \<and> ew_session_id e = s)) (events_of c' r' db)"
    by (simp add: events_of_def without_session_def conj_commute)
  have one: "ew_session_id e = ew_session_id e'" if "e \<in> set (events_of c' r' db)" "e' \<in> set (events_of c' r' db)" for e e'
  proof -
    have e: "e \<in> set (db_run_events db)" "ew_client_id e = c'" "ew_run_id e = r'" "e' \<in> set (db_run_events db)"
        "ew_client_id e' = c'" "ew_run_id e' = r'" using that by (auto simp: events_of_def)
    obtain r where r: "r \<in> set (db_runs db)" "is_run c' r' r" using assms e(1-3) by (fastforce simp: consistent_defs is_run_def)
    show ?thesis using event_session [OF assms e(1) r(1)] event_session [OF assms e(4) r(1)] r(2) e by simp
  qed
  show ?thesis
  proof (cases "\<exists>e \<in> set (events_of c' r' db). ew_client_id e = c \<and> ew_session_id e = s")
    case True
    then obtain e where e: "e \<in> set (events_of c' r' db)" "ew_client_id e = c" "ew_session_id e = s" by blast
    have "ew_client_id x = c \<and> ew_session_id x = s" if x: "x \<in> set (events_of c' r' db)" for x
      using one [OF x e(1)] e x by (auto simp: events_of_def)
    then show ?thesis by (auto simp: w filter_empty_conv)
  next
    case False
    then have "events_of c' r' (without_session c s db) = events_of c' r' db" unfolding w by (intro filter_True) blast
    then show ?thesis by blast
  qed
qed

lemma sorted_filter_end: "sorted_wrt (<) (map f xs @ [n :: nat]) \<Longrightarrow> sorted_wrt (<) (map f (filter P xs) @ [n])"
  by (auto simp: sorted_wrt_append sorted_wrt_map sorted_wrt_filter)

lemma keeps_deleteSession [keeps_intro]: "keeps db_consistent (deleteSession c s)"
proof (rule keepsI)
  fix db
  assume h: "db_consistent db"
  let ?db = "without_session c s db"
  have k: "set (session_keys ?db) = set (session_keys db) - {(c, s)}"
    by (auto simp: session_keys_def without_session_def is_session_def)
  have "keys_unique ?db" using h
    by (auto simp: consistent_defs session_keys_def run_keys_def without_session_def distinct_map inj_on_def)
  moreover have "references_hold ?db"
  proof -
    have "\<exists>r \<in> set (db_runs ?db). rw_client_id r = ew_client_id e \<and> rw_run_id r = ew_run_id e \<and> rw_session_id r = ew_session_id e"
      if e: "e \<in> set (db_run_events ?db)" for e
    proof -
      have "e \<in> set (db_run_events db)" "\<not> (ew_client_id e = c \<and> ew_session_id e = s)" using e by (auto simp: without_session_def)
      moreover from this(1) obtain r where "r \<in> set (db_runs db)" "rw_client_id r = ew_client_id e" "rw_run_id r = ew_run_id e"
          "rw_session_id r = ew_session_id e" using h unfolding consistent_defs by blast
      ultimately show ?thesis by (auto simp: without_session_def)
    qed
    moreover have "(mw_client_id m, mw_session_id m) \<in> set (session_keys ?db)" if "m \<in> set (db_messages ?db)" for m
      using that h unfolding k by (auto simp: consistent_defs without_session_def)
    moreover have "(rw_client_id r, rw_session_id r) \<in> set (session_keys ?db)" if "r \<in> set (db_runs ?db)" for r
      using that h unfolding k by (auto simp: consistent_defs without_session_def)
    moreover have "\<exists>y \<in> set (db_clients ?db). cw_client_id y = sw_client_id x" if "x \<in> set (db_sessions ?db)" for x
      using that h by (auto simp: consistent_defs without_session_def)
    ultimately show ?thesis by (simp add: references_hold_def)
  qed
  moreover have "rows_numbered ?db"
  proof -
    have "map ew_seq (events_of c' r' ?db) = [1..<Suc (length (events_of c' r' ?db))]" for c' r'
      using without_session_events [OF h, of c' r' c s] h by (auto simp: consistent_defs simp del: upt_Suc)
    then show ?thesis using h by (simp add: consistent_defs without_session_def sorted_filter_end)
  qed
  moreover have "texts_stored ?db" using h by (auto simp: consistent_defs without_session_def)
  ultimately have "db_consistent ?db" by (simp add: db_consistent_def)
  with deleteSession_effect [of c s db] h show "db_consistent (snd (deleteSession c s db))" by auto
qed

end
