(* ===== verification/Run_Worker_Invariants.thy ===== *)
theory Run_Worker_Invariants
  imports Run_Worker Run_Database_Facts
begin

text \<open>
  Properties of the database that the worker and the requests keep. The locale \<open>status_invariant\<close> asks for a property
  that ending a run keeps, \<open>record_invariant\<close> and
  \<open>step_invariant\<close> for one that the other writes and the start of a run keep too; then every step keeps it.
\<close>

lemma keeps_api:
  "keeps P f \<Longrightarrow> P db \<Longrightarrow> P (snd (db_call f db))"
  unfolding keeps_def db_call_def by (force split: prod.splits sum.splits)

lemma and_then_keeps:
  "P (snd (f db)) \<Longrightarrow> (\<And>x db'. P db' \<Longrightarrow> P (snd (k x db'))) \<Longrightarrow> P (snd (and_then f k db))"
  unfolding and_then_def by (force split: prod.splits sum.splits)

lemma snd_answer [simp]: "snd (answer x db) = db" "snd (refuse m code db) = db"
  by (simp_all add: answer_def refuse_def)

lemma prod_case_snd: "P (snd x) \<Longrightarrow> (\<And>a b. x = (a, b) \<Longrightarrow> P b \<Longrightarrow> P (snd (f a b))) \<Longrightarrow> P (snd (case x of (a, b) \<Rightarrow> f a b))"
  by (cases x) simp

lemma map_row_found: "map_row f x = Inr (Some y) \<longleftrightarrow> (\<exists>r. x = Some r \<and> f r = Inr y)"
proof (cases x)
  case (Some r)
  then show ?thesis by (cases "f r") (auto simp: map_row_def)
qed (simp add: map_row_def)

locale status_invariant =
  fixes P :: "runtime_db \<Rightarrow> bool"
  assumes ends: "isTerminalStatus st \<Longrightarrow> keeps P (updateRunStatus now r c st p)"
begin

lemma end_with_keeps:
  "isTerminalStatus st \<Longrightarrow> (\<And>e db. P db \<Longrightarrow> P (snd (failed e db))) \<Longrightarrow> P db \<Longrightarrow> P (snd (end_with now run st patch failed db))"
  using ends [of st now "rr_runId run" "rr_clientId run" patch]
  by (auto simp: end_with_def keeps_def split: prod.splits sum.splits)

lemma catch_keeps: "P db \<Longrightarrow> P (snd (worker_catch now run b e db))"
  by (auto simp: worker_catch_def give_up_def isTerminalStatus_def intro!: end_with_keeps split: sum.splits)

lemma fail_keeps: "P db \<Longrightarrow> P (snd (fail_update now stopping run e b db))"
  by (auto simp: fail_update_def give_up_def isTerminalStatus_def intro!: end_with_keeps)

lemma returned_keeps: "P db \<Longrightarrow> P (snd (agent_returned clock stopping a db))"
  by (auto simp: agent_returned_def Let_def isTerminalStatus_def intro!: end_with_keeps catch_keeps split: sum.splits)

lemma end_keeps: "P db \<Longrightarrow> P (snd (end_update clock a b db))"
  by (auto simp: end_update_def isTerminalStatus_def intro!: end_with_keeps catch_keeps)

lemma interrupt_keeps: "keeps P (interrupt_active now run)" "keeps P (interrupt_run now run)"
  "keeps P (markOwnedRunningRunsInterrupted now w)"
  unfolding interrupt_active_def interrupt_run_def markOwnedRunningRunsInterrupted_def
  by (auto intro!: keeps_intro ends simp: isTerminalStatus_def split: option.splits)

lemma enqueue_failed_keeps: "P db \<Longrightarrow> P (snd (enqueue_failed now c r e db))"
  unfolding enqueue_failed_def
proof (rule and_then_keeps)
  assume "P db"
  then show "P (snd (db_call (updateRunStatus now r c FailedRun (no_patch\<lparr>sp_error := Some (js ''queue enqueue failed: '' @ e)\<rparr>)) db))"
    by (rule keeps_api [where f = "updateRunStatus _ _ _ _ _", rotated]) (rule ends, simp add: isTerminalStatus_def)
qed simp

lemma stop_keeps: "P (sy_db s) \<Longrightarrow> P (sy_db (stop_worker Q w now s))"
proof -
  assume "P (sy_db s)"
  let ?f = "bind_eff (each_eff (interrupt_active now) (map ar_run (List.map_filter loop_active (sy_loops s))))
      (\<lambda>_. markOwnedRunningRunsInterrupted now w)"
  have "keeps P ?f" by (intro keeps_intro interrupt_keeps)
  from keepsD [OF this \<open>P (sy_db s)\<close>] have "P (snd (?f (sy_db s)))" .
  then show ?thesis by (auto simp: stop_worker_def with_db_def Let_def split: prod.splits sum.splits)
qed

end

text \<open>Where a run is looked up.\<close>

definition run_at :: "jsstring \<Rightarrow> jsstring \<Rightarrow> runtime_db \<Rightarrow> run_row option" where
  "run_at c r db = find (is_run c r) (db_runs db)"

definition action_ok :: "run_action \<Rightarrow> bool" where
  "action_ok a \<longleftrightarrow> (case a of RequestStart _ _ _ _ request \<Rightarrow> json_ok request | AgentReports _ _ event \<Rightarrow> json_ok event | _ \<Rightarrow> True)"

text \<open>A request to start a run, and a cancellation about to write what it decided before.\<close>

fun is_start_request :: "run_action \<Rightarrow> bool" where
  "is_start_request (RequestStart _ _ _ _ _) = True"
| "is_start_request _ = False"

definition cancels :: "run_action \<Rightarrow> 'q run_system \<Rightarrow> runtime_run option" where
  "cancels a s =
     (case a of
        RequestGoesOn now k \<Rightarrow>
          (if k < length (sy_calls s) then (case sy_calls s ! k of CancelRequested run \<Rightarrow> Some run | _ \<Rightarrow> None) else None)
      | _ \<Rightarrow> None)"

lemma json_field_ok: "json_ok j \<Longrightarrow> json_field k j = Some v \<Longrightarrow> json_ok v"
  by (cases j) (auto simp: list_all_iff dest: map_of_SomeD)

lemma message_of_event_ok: "json_ok event \<Longrightarrow> runtimeMessageFromEvent (event_message event) = Some m \<Longrightarrow> json_ok (snd m)"
proof -
  assume e: "json_ok event" and m: "runtimeMessageFromEvent (event_message event) = Some m"
  then obtain j where j: "json_field (js ''message'') event = Some j"
    by (auto simp: runtimeMessageFromEvent_def event_message_def split: option.splits)
  with m have "snd m = j \<or> json_field (js ''payload'') j = Some (snd m)"
    by (auto simp: runtimeMessageFromEvent_def event_message_def split: option.splits json.splits if_splits)
  moreover have "json_ok j" by (rule json_field_ok [OF e j])
  ultimately show ?thesis using json_field_ok by metis
qed

locale record_invariant = status_invariant +
  assumes polls: "P db \<Longrightarrow> run_at c r db = Some row \<Longrightarrow> rw_status row = RunningRun \<Longrightarrow>
      P (snd (updateRunStatus now r c CancellingRun p db))"
    and reports: "json_ok (ae_payload input) \<Longrightarrow> keeps P (appendRunEvent now input)"
    and messages: "json_ok (ami_payload input') \<Longrightarrow> keeps P (appendMessage_db now input')"
    and deletes: "keeps P (deleteSession c s)"
begin

lemma persist_keeps: "json_ok event \<Longrightarrow> P db \<Longrightarrow> P (snd (persistAgentEvent clock run event keys db))"
proof -
  assume e: "json_ok event" and db: "P db"
  let ?i = "\<lparr>ae_runId = rr_runId run, ae_sessionId = rr_sessionId run, ae_clientId = rr_clientId run, ae_type = event_type event,
      ae_payload = event, ae_createdAt = None\<rparr>"
  have "P (snd (appendRunEvent (clock 0) ?i db))" by (rule keepsD [OF reports db]) (simp add: e)
  moreover have "P (snd (appendMessage_db (clock 1) \<lparr>ami_sessionId = rr_sessionId run, ami_clientId = rr_clientId run,
      ami_role = fst m, ami_payload = snd m, ami_createdAt = None\<rparr> db'))"
    if "runtimeMessageFromEvent (event_message event) = Some m" "P db'" for m db'
    by (rule keepsD [OF messages that(2)]) (use message_of_event_ok [OF e that(1)] in simp)
  ultimately show ?thesis
    by (auto simp: persistAgentEvent_def split: prod.splits sum.splits option.splits bool.splits if_splits)
qed

lemma poll_update_keeps: "P db \<Longrightarrow> P (snd (poll_update now run db))"
proof -
  assume db: "P db"
  have "P (snd (updateRunStatus now (rr_runId run) (rr_clientId run) CancellingRun no_patch db))"
    if "map_row toRunRecord (find (is_run (rr_clientId run) (rr_runId run)) (db_runs db)) = Inr (Some r)" "rr_status r = RunningRun" for r
  proof -
    note t = that
    obtain row where row: "find (is_run (rr_clientId run) (rr_runId run)) (db_runs db) = Some row" "toRunRecord row = Inr r"
      using t(1) by (auto simp: map_row_found)
    show ?thesis by (rule polls [OF db, of _ _ row]) (use toRunRecord_fields [OF row(2)] row(1) t(2) in \<open>auto simp: run_at_def\<close>)
  qed
  with db show ?thesis
    by (auto simp: poll_update_def bind_eff_def ret_def split: prod.splits sum.splits option.splits)
qed

lemma steps_keep:
  assumes "P (sy_db s)" "action_ok a" "\<not> is_start_request a" "cancels a s = None"
    and starts: "\<And>clock made i. a = StartClaimed clock made i \<Longrightarrow> P (sy_db (start_claimed clock w made i s))"
  shows "P (sy_db (perform Q w a s))"
proof (cases a)
  case (RequestGoesOn now k)
  then show ?thesis using assms(1,4) enqueue_failed_keeps
    by (auto simp: request_goes_on_def cancels_def with_db_def Let_def split: api_call.splits prod.splits sum.splits if_splits)
next
  case (RequestDelete c sid force)
  have "P (snd (deleteSession_begin c sid force (sy_db s)))"
    unfolding deleteSession_begin_def
  proof (rule and_then_keeps)
    have "keeps P (activeRuns c sid)" unfolding activeRuns_def by (intro keeps_intro)
    from keeps_api [OF this assms(1)] show "P (snd (db_call (activeRuns c sid) (sy_db s)))" .
    fix runs :: "runtime_run list" and db'
    assume "P db'"
    from keeps_api [OF deletes this] have "P (snd (and_then (db_call (deleteSession c sid)) (\<lambda>deleted. answer (Inl deleted :: bool + runtime_run list)) db'))"
      by (rule and_then_keeps) simp
    with \<open>P db'\<close> show "P (snd ((if runs \<noteq> [] \<and> \<not> force then refuse (already_active sid) 409
        else if runs \<noteq> [] \<and> force then answer (Inr runs)
        else and_then (db_call (deleteSession c sid)) (\<lambda>deleted. answer (Inl deleted))) db'))"
      by simp
  qed
  with RequestDelete show ?thesis
    by (auto simp: request_delete_def with_db_def split: prod.splits sum.splits)
next
  case (RequestCancel c r)
  have "P (snd (cancelRun_begin c r (sy_db s)))"
    unfolding cancelRun_begin_def
  proof (rule and_then_keeps)
    show "P (snd (db_call (getRun c r) (sy_db s)))" by (rule keeps_api [where P = P, OF keeps_reads(2) assms(1)])
  qed (simp split: option.splits)
  with RequestCancel show ?thesis
    by (auto simp: request_cancel_def with_db_def split: prod.splits sum.splits)
next
  case (StartClaimed clock made i)
  from starts [OF this] show ?thesis by (simp add: StartClaimed)
next
  case (AgentReports clock i event)
  then have "json_ok event" using assms(2) by (simp add: action_ok_def)
  with AgentReports show ?thesis using assms(1) persist_keeps
    by (auto simp: agent_reports_def with_db_def with_loop_def split: option.splits prod.splits) (metis snd_conv)
next
  case (AgentEnds clock i failure)
  then show ?thesis using assms(1) returned_keeps [OF assms(1)] catch_keeps [OF assms(1)]
    by (auto simp: agent_ends_def with_db_def with_loop_def split: worker_loop.splits prod.splits option.splits) (metis snd_conv)+
next
  case (CancelAnswered now i)
  then show ?thesis using assms(1) catch_keeps [OF assms(1)]
    by (auto simp: cancel_answered_def with_db_def with_loop_def split: worker_loop.splits prod.splits option.splits sum.splits) (metis snd_conv)+
next
  case (WriteEnd clock i)
  then show ?thesis using assms(1) end_keeps [OF assms(1)] fail_keeps [OF assms(1)]
    by (auto simp: write_end_def with_db_def with_loop_def split: worker_loop.splits prod.splits option.splits) (metis snd_conv)+
next
  case (PollActs now k)
  then show ?thesis using assms(1) poll_update_keeps [OF assms(1)]
    by (auto simp: poll_acts_def with_loop_def Let_def split: prod.splits)
next
  case (StopWorker now)
  then show ?thesis using stop_keeps [OF assms(1)] by simp
next
  case (MarkInterrupted now)
  then show ?thesis using keepsD [OF interrupt_keeps(3) assms(1)] by (simp add: with_db_def)
qed (use assms in \<open>auto simp: loop_claim_def claim_answered_def complete_claim_def poll_asked_def start_worker_def
       worker_dies_def with_loop_def Let_def split: worker_loop.splits option.splits prod.splits sum.splits bool.splits\<close>)

end

locale step_invariant = record_invariant +
  assumes starts: "P db \<Longrightarrow> run_at c r db = Some row \<Longrightarrow> rw_status row = QueuedRun \<Longrightarrow>
      P (snd (updateRunStatus now r c RunningRun p db))"
begin

lemma begin_keeps:
  assumes "P db" "run_at (rr_clientId run) (rr_runId run) db = Some row" "rw_status row = QueuedRun"
  shows "P (fst (snd (begin_claimed clock w made claimed run db)))"
proof -
  let ?u = "updateRunStatus (clock 0) (rr_runId run) (rr_clientId run) RunningRun (no_patch\<lparr>sp_workerId := Some w\<rparr>)"
  let ?f = "bind_eff (getSession (rr_clientId run) (rr_sessionId run)) (\<lambda>s.
      bind_eff (case s of None \<Rightarrow> throw (js ''Runtime session not found'') | Some x \<Rightarrow> ret x) (\<lambda>session.
      bind_eff (listMessages (rr_clientId run) (rr_sessionId run)) (\<lambda>messages.
      bind_eff ?u (\<lambda>activeRun. ret (session, messages, activeRun)))))"
  have u: "P (snd (?u db))" by (rule starts [OF assms])
  have "snd (?f db) = db \<or> snd (?f db) = snd (?u db)"
    by (auto simp: bind_eff_def listMessages_def query_def throw_def ret_def split: prod.splits sum.splits option.splits)
  with u assms(1) have f: "P (snd (?f db))" by auto
  show ?thesis
    using f catch_keeps by (auto simp: begin_claimed_def split: prod.splits sum.splits option.splits) (metis snd_conv)+
qed

lemma claimed_keeps: "P db \<Longrightarrow> P (fst (snd (process_claimed clock w made claimed db)))"
proof -
  assume db: "P db"
  have b: "P (fst (snd (begin_claimed clock w made claimed run db)))"
    if "map_row toRunRecord (find (is_run c r) (db_runs db)) = Inr (Some run)" "rr_status run = QueuedRun" for c r run
  proof -
    note t = that
    obtain row where row: "find (is_run c r) (db_runs db) = Some row" "toRunRecord row = Inr run"
      using t(1) by (auto simp: map_row_found)
    have k: "is_run c r row" using find_in [OF row(1)] by simp
    note f = toRunRecord_fields [OF row(2)]
    show ?thesis by (rule begin_keeps [OF db, of run row]) (use f k row(1) t(2) in \<open>auto simp: run_at_def is_run_def\<close>)
  qed
  with db show ?thesis by (auto simp: process_claimed_def split: option.splits sum.splits)
qed

lemma start_keeps: "P (sy_db s) \<Longrightarrow> P (sy_db (start_claimed clock w made i s))"
proof -
  assume "P (sy_db s)"
  from claimed_keeps [OF this] \<open>P (sy_db s)\<close> show ?thesis
    by (auto simp: start_claimed_def with_db_def with_loop_def split: worker_loop.splits prod.splits) (metis fst_conv snd_conv)
qed

lemma all_steps_keep:
  "P (sy_db s) \<Longrightarrow> action_ok a \<Longrightarrow> \<not> is_start_request a \<Longrightarrow> cancels a s = None \<Longrightarrow> P (sy_db (perform Q w a s))"
  using steps_keep start_keeps by blast

end

end
