(* ===== verification/Run_Lifecycle.thy ===== *)
theory Run_Lifecycle
  imports Run_Worker_Invariants
begin

text \<open>
  How the statuses of runs move along the steps: the relation \<open>follows\<close>, for which the locales of
  \<open>Run_Worker_Invariants\<close> are interpreted, and what a request to start a run does.

  What a request to start a run, and one to cancel, do to the runs.
\<close>

section \<open>Statuses follow\<close>

text \<open>Every run was there, and one with a status in \<open>A\<close> had one in \<open>A\<close>.\<close>

definition same_run :: "run_row \<Rightarrow> run_row \<Rightarrow> bool" where
  "same_run r r' \<longleftrightarrow> rw_client_id r = rw_client_id r' \<and> rw_run_id r = rw_run_id r' \<and> rw_session_id r = rw_session_id r'"

definition follows :: "run_status set \<Rightarrow> runtime_db \<Rightarrow> runtime_db \<Rightarrow> bool" where
  "follows A db0 db \<longleftrightarrow> (\<forall>row \<in> set (db_runs db). \<exists>row0 \<in> set (db_runs db0). same_run row0 row \<and> (rw_status row \<in> A \<longrightarrow> rw_status row0 \<in> A))"

definition busy_statuses :: "run_status set" where
  "busy_statuses = {RunningRun, CancellingRun}"

lemma active_statuses: "set ACTIVE_RUN_STATUSES = {QueuedRun, RunningRun, CancellingRun}"
  by (auto simp: ACTIVE_RUN_STATUSES_def)

lemma follows_refl [simp]: "follows A db db"
  unfolding follows_def same_run_def by blast

lemma follows_trans: "follows A db0 db1 \<Longrightarrow> follows A db1 db2 \<Longrightarrow> follows A db0 db2"
  unfolding follows_def same_run_def by fastforce

lemma follows_runs: "follows A db0 db \<Longrightarrow> set (db_runs db') \<subseteq> set (db_runs db) \<Longrightarrow> follows A db0 db'"
  unfolding follows_def by blast

lemma row_unique:
  assumes "db_consistent db" "x \<in> set (db_runs db)" "y \<in> set (db_runs db)" "rw_client_id x = rw_client_id y" "rw_run_id x = rw_run_id y"
  shows "x = y"
proof -
  have "inj_on (\<lambda>r. (rw_client_id r, rw_run_id r)) (set (db_runs db))"
    using assms(1) by (simp add: consistent_defs run_keys_def distinct_map)
  then show ?thesis using assms(2-) by (simp add: inj_on_def)
qed

lemma run_at_row:
  "run_at c r db = Some row \<Longrightarrow> row \<in> set (db_runs db) \<and> rw_client_id row = c \<and> rw_run_id row = r"
  using find_in unfolding run_at_def is_run_def by fastforce

lemma run_at_iff:
  "db_consistent db \<Longrightarrow> run_at c r db = Some row \<longleftrightarrow> row \<in> set (db_runs db) \<and> rw_client_id row = c \<and> rw_run_id row = r"
proof
  assume c: "db_consistent db" "row \<in> set (db_runs db) \<and> rw_client_id row = c \<and> rw_run_id row = r"
  then obtain row' where "run_at c r db = Some row'" using find_some [of row "db_runs db" "is_run c r"] by (auto simp: run_at_def is_run_def)
  with run_at_row [OF this] row_unique [OF c(1)] c(2) show "run_at c r db = Some row" by auto
qed (rule run_at_row)

lemma update_runs:
  "db_runs (snd (updateRunStatus now r c st p db)) = db_runs db
   \<or> (\<exists>t cur. db_runs (snd (updateRunStatus now r c st p db)) = map_where (is_run c r) (set_status st p t cur) (db_runs db))"
  by (auto simp: updateRunStatus_eq touch_session_def Let_def split: option.splits sum.splits)

lemma follows_update:
  assumes "follows A db0 db" "db_consistent db"
    and "st \<in> A \<Longrightarrow> run_at c r db = None \<or> (\<exists>row. run_at c r db = Some row \<and> rw_status row \<in> A)"
  shows "follows A db0 (snd (updateRunStatus now r c st p db))"
proof -
  let ?f = "\<lambda>t cur. set_status st p t cur"
  have "\<exists>row0 \<in> set (db_runs db0). same_run row0 row' \<and> (rw_status row' \<in> A \<longrightarrow> rw_status row0 \<in> A)"
    if "row' \<in> set (map_where (is_run c r) (?f t cur) (db_runs db))" for row' t cur
  proof -
    from that obtain row where row: "row \<in> set (db_runs db)" "row' = (if is_run c r row then ?f t cur row else row)"
      by (auto simp: map_where_def)
    obtain row0 where row0: "row0 \<in> set (db_runs db0)" "same_run row0 row" "rw_status row \<in> A \<longrightarrow> rw_status row0 \<in> A"
      using assms(1) row(1) unfolding follows_def by blast
    have "same_run row0 row'" using row0(2) row(2) by (simp add: same_run_def)
    moreover have "rw_status row \<in> A" if "rw_status row' \<in> A"
    proof (cases "is_run c r row")
      case True
      then have "run_at c r db = Some row" using run_at_iff [OF assms(2)] row(1) by (simp add: is_run_def)
      with assms(3) that row(2) True show ?thesis by auto
    qed (use that row(2) in simp)
    ultimately show ?thesis using row0 by blast
  qed
  then show ?thesis using update_runs [of now r c st p db] assms(1) unfolding follows_def by auto
qed

lemma follows_records:
  "follows A db0 db \<Longrightarrow> follows A db0 (snd (appendRunEvent now input db))"
  "follows A db0 db \<Longrightarrow> follows A db0 (snd (deleteSession c s db))"
  using appendRunEvent_effect [of now input db] deleteSession_effect [of c s db]
  by (auto elim!: follows_runs simp: without_session_def)

text \<open>A message or a session that is added changes no run and no event.\<close>

lemma appendMessage_runs:
  "db_runs (snd (appendMessage_db now input db)) = db_runs db \<and> db_run_events (snd (appendMessage_db now input db)) = db_run_events db"
proof -
  have "keeps (\<lambda>d. db_runs d = db_runs db \<and> db_run_events d = db_run_events db) (appendMessage_db now input)"
    unfolding appendMessage_db_def Let_def
    by (intro keeps_intro) (auto simp: keeps_def insert_message_def update_session_def throw_def Let_def)
  then show ?thesis by (simp add: keeps_def)
qed

lemma createSession_runs:
  "db_runs (snd (createSession now now' input db)) = db_runs db \<and> db_run_events (snd (createSession now now' input db)) = db_run_events db"
proof -
  have "keeps (\<lambda>d. db_runs d = db_runs db \<and> db_run_events d = db_run_events db) (createSession now now' input)"
    unfolding createSession_def Let_def
    by (intro keeps_intro) (auto simp: keeps_def insert_session_def upsertClient_def throw_def Let_def)
  then show ?thesis by (simp add: keeps_def)
qed

lemma follows_messages: "follows A db0 db \<Longrightarrow> follows A db0 (snd (appendMessage_db now input db))"
  using follows_runs appendMessage_runs by (metis subset_refl)

section \<open>What the steps keep\<close>

abbreviation consistent_follows :: "run_status set \<Rightarrow> runtime_db \<Rightarrow> runtime_db \<Rightarrow> bool" where
  "consistent_follows A db0 db \<equiv> db_consistent db \<and> follows A db0 db"

lemma keeps_follows:
  "(\<And>db. db_consistent db \<Longrightarrow> follows A db0 db \<Longrightarrow> follows A db0 (snd (f db))) \<Longrightarrow> keeps db_consistent f \<Longrightarrow> keeps (consistent_follows A db0) f"
  by (simp add: keeps_def)

lemma ending_follows:
  "A \<subseteq> set ACTIVE_RUN_STATUSES \<Longrightarrow> isTerminalStatus st \<Longrightarrow> keeps (consistent_follows A db0) (updateRunStatus now r c st p)"
  by (rule keeps_follows [OF follows_update keeps_updateRunStatus]) (auto simp: active_statuses isTerminalStatus_def)

lemma record_follows:
  "json_ok (ae_payload input) \<Longrightarrow> keeps (consistent_follows A db0) (appendRunEvent now input)"
  "json_ok (ami_payload input') \<Longrightarrow> keeps (consistent_follows A db0) (appendMessage_db now input')"
  "keeps (consistent_follows A db0) (deleteSession c s)"
  by (auto intro!: keeps_follows keeps_intro follows_records follows_messages)

lemma updating_follows:
  "consistent_follows A db0 db \<Longrightarrow> run_at c r db = Some row \<Longrightarrow> (st \<in> A \<Longrightarrow> rw_status row \<in> A) \<Longrightarrow>
     consistent_follows A db0 (snd (updateRunStatus now r c st p db))"
  using follows_update keepsD [OF keeps_updateRunStatus] by blast

interpretation consistent: step_invariant db_consistent
  by unfold_locales (auto intro!: keeps_intro keepsD [OF keeps_updateRunStatus])

interpretation queued: step_invariant "consistent_follows {QueuedRun} db0" for db0
  by unfold_locales (((rule ending_follows record_follows; (assumption | simp add: active_statuses)) |
      (rule updating_follows, assumption, assumption, simp add: active_statuses))+)

interpretation active: step_invariant "consistent_follows (set ACTIVE_RUN_STATUSES) db0" for db0
  by unfold_locales (((rule ending_follows record_follows; (assumption | simp add: active_statuses)) |
      (rule updating_follows, assumption, assumption, simp add: active_statuses))+)

interpretation busy: record_invariant "consistent_follows busy_statuses db0" for db0
  by unfold_locales (((rule ending_follows record_follows; (assumption | simp add: active_statuses busy_statuses_def)) |
      (rule updating_follows, assumption, assumption, simp add: busy_statuses_def))+)

section \<open>Reading lists\<close>

lemma set_order_by [simp]: "set (order_by lt xs) = set xs"
proof -
  have "set (insert_by lt x ys) = insert x (set ys)" for x ys by (induction ys) auto
  then show ?thesis by (induction xs) (simp_all add: order_by_def)
qed

lemma find_append_row: "find P xs = None \<Longrightarrow> find P (xs @ ys) = find P ys"
  by (induction xs) (auto split: if_splits)

lemma map_rows_read: "map_rows f xs = Inr ys \<Longrightarrow> x \<in> set xs \<Longrightarrow> \<exists>y \<in> set ys. f x = Inr y"
  by (induction xs arbitrary: ys) (auto split: sum.splits)

definition is_active :: "run_row \<Rightarrow> bool" where
  "is_active row \<longleftrightarrow> rw_status row \<in> set ACTIVE_RUN_STATUSES"

lemma no_active_run:
  assumes "hasActiveRun c s db = (Inr False, db')" "row \<in> set (db_runs db)" "rw_client_id row = c" "rw_session_id row = s"
  shows "\<not> is_active row"
proof
  assume a: "is_active row"
  from assms(1) obtain runs where runs: "map_rows toRunRecord (order_by (newest_first rw_updated_at rw_run_id)
      (filter (\<lambda>r. rw_client_id r = c \<and> rw_session_id r = s) (db_runs db))) = Inr runs"
      "filter (\<lambda>r. rr_status r \<in> set ACTIVE_RUN_STATUSES) runs = []"
    by (auto simp: hasActiveRun_def activeRuns_def listRunsForSession_def query_def eff_simps)
  obtain run where run: "run \<in> set runs" "toRunRecord row = Inr run"
    using map_rows_read [OF runs(1), of row] assms(2-4) by auto
  from toRunRecord_fields [OF run(2)] a have "rr_status run \<in> set ACTIVE_RUN_STATUSES" by (simp add: is_active_def)
  with runs(2) run(1) show False by (auto simp: filter_empty_conv)
qed

section \<open>Creating a run\<close>

definition adds_run :: "jsstring \<Rightarrow> jsstring \<Rightarrow> runtime_db \<Rightarrow> runtime_db \<Rightarrow> bool" where
  "adds_run c r db db' \<longleftrightarrow>
     (\<exists>row. db_runs db' = db_runs db @ [row] \<and> rw_client_id row = c \<and> rw_run_id row = r \<and> rw_status row = QueuedRun
        \<and> (c, r) \<notin> set (run_keys db)
        \<and> (\<forall>x \<in> set (db_runs db). rw_client_id x = c \<longrightarrow> rw_session_id x = rw_session_id row \<longrightarrow> \<not> is_active x))"

lemma createRun_effect:
  assumes "json_ok (cr_model input)"
  shows "(\<exists>e. createRun now input db = (Inl e, db)) \<or>
    (\<exists>run row db'. createRun now input db = (Inr run, db') \<and> db_runs db' = db_runs db @ [row]
       \<and> db_run_events db' = db_run_events db \<and> (cr_clientId input, cr_runId input) \<notin> set (run_keys db)
       \<and> rw_client_id row = cr_clientId input \<and> rw_run_id row = cr_runId input \<and> rw_session_id row = cr_sessionId input
       \<and> rw_status row = QueuedRun)"
proof -
  let ?row = "\<lparr>rw_run_id = cr_runId input, rw_session_id = cr_sessionId input, rw_client_id = cr_clientId input,
      rw_status = QueuedRun, rw_worker_id = None, rw_model_json = stringify (cr_model input),
      rw_thinking_level = cr_thinkingLevel input, rw_started_at = None, rw_updated_at = or_else (cr_createdAt input) now,
      rw_ended_at = None, rw_error = None\<rparr>"
  obtain run where run: "toRunRecord ?row = Inr run" using stored_run_reads [of ?row] assms by auto
  show ?thesis
  proof (cases "(cr_clientId input, cr_runId input) \<in> set (run_keys db) \<or> (cr_clientId input, cr_sessionId input) \<notin> set (session_keys db)")
    case True
    then show ?thesis
      by (auto simp: createRun_def Let_def bind_eff_def writeTransaction_def insert_run_def throw_def run_known session_known)
  next
    case False
    then have "find (is_run (cr_clientId input) (cr_runId input)) (db_runs db) = None"
      by (auto simp: run_known [symmetric] list_ex_iff find_None_iff)
    then have "find (is_run (cr_clientId input) (cr_runId input)) (db_runs db @ [?row]) = Some ?row"
      by (subst find_append_row) (simp_all add: is_run_def)
    with False run show ?thesis
      by (simp add: createRun_def Let_def bind_eff_def writeTransaction_def insert_run_def run_known session_known
          updateSessionRun_def update_session_def map_row_def requiredRecord_def ret_def)
  qed
qed

section \<open>Starting\<close>

definition start_effect :: "jsstring \<Rightarrow> jsstring \<Rightarrow> runtime_db \<Rightarrow> (api_error + 'a) \<times> runtime_db \<Rightarrow> bool" where
  "start_effect c r db res \<longleftrightarrow> db_consistent (snd res) \<and> db_run_events (snd res) = db_run_events db
     \<and> (case fst res of Inl _ \<Rightarrow> db_runs (snd res) = db_runs db | Inr _ \<Rightarrow> adds_run c r db (snd res))"

lemma and_then_cases:
  "(\<And>e db'. f db = (Inl e, db') \<Longrightarrow> S (Inl e, db')) \<Longrightarrow> (\<And>x db'. f db = (Inr x, db') \<Longrightarrow> S (k x db')) \<Longrightarrow> S (and_then f k db)"
  by (simp add: and_then_def split: prod.splits sum.splits)

lemma db_call_result:
  "db_call f db = (Inl (OtherError e), db') \<longleftrightarrow> f db = (Inl e, db')" "db_call f db = (Inr x, db') \<longleftrightarrow> f db = (Inr x, db')"
  "db_call f db \<noteq> (Inl (RunApiError m n), db')"
  by (auto simp: db_call_def split: prod.splits sum.splits)

lemma session_of_row: "toSessionRecord row = Inr s \<Longrightarrow> stored_json (sw_model_json row) \<Longrightarrow> json_ok (rs_model s)"
  using stored_reads by (fastforce simp: toSessionRecord_def)

lemma existing_model_ok:
  assumes "db_consistent db" "getSession c s db = (Inr existing, db')" "json_ok request"
  shows "json_ok (request_model request existing)"
proof -
  have "json_ok (rs_model x)" if x: "existing = Some x" for x
  proof -
    from assms(2) x obtain row where row: "find (is_session c s) (db_sessions db) = Some row" "toSessionRecord row = Inr x"
      by (auto simp: map_row_found)
    with find_in [OF row(1)] assms(1) session_of_row show ?thesis by (auto simp: consistent_defs)
  qed
  moreover have "json_ok m" if "json_field (js ''model'') request = Some m" for m using json_field_ok [OF assms(3) that] .
  ultimately show ?thesis by (auto simp: request_model_def split: option.splits)
qed

lemma missing_session:
  assumes "db_consistent db" "getSession c s db = (Inr None, db')" "row \<in> set (db_runs db)" "rw_client_id row = c"
  shows "rw_session_id row \<noteq> s"
proof -
  have "find (is_session c s) (db_sessions db) = None"
    using assms(2) by (auto simp: map_row_def map_sum_def split: option.splits sum.splits)
  then have "(c, s) \<notin> set (session_keys db)" by (auto simp: session_known [symmetric] list_ex_iff find_None_iff)
  with assms(1,3,4) show ?thesis by (auto simp: consistent_defs)
qed

text \<open>The session is there or made, and no run of it is active.\<close>

lemma start_with_session:
  assumes "db_consistent db1" "db_runs db1 = db_runs db" "db_run_events db1 = db_run_events db" "json_ok model" "json_ok request"
    and "\<And>row. row \<in> set (db_runs db) \<Longrightarrow> rw_client_id row = c \<Longrightarrow> rw_session_id row = sessionId \<Longrightarrow> \<not> is_active row"
  shows "start_effect c newRun db
    (and_then (normalizeMessage (json_field (js ''message'') request)) (\<lambda>payload.
     and_then (db_call (appendMessage_db (clock 2)
       \<lparr>ami_sessionId = sessionId, ami_clientId = c, ami_role = js ''user'', ami_payload = payload, ami_createdAt = None\<rparr>)) (\<lambda>message.
     and_then (db_call (createRun (clock 3)
       \<lparr>cr_runId = newRun, cr_sessionId = sessionId, cr_clientId = c, cr_model = model, cr_thinkingLevel = level, cr_createdAt = None\<rparr>)) (\<lambda>run.
     answer (result message run)))) db1)"
proof (rule and_then_cases)
  fix e db2
  assume "normalizeMessage (json_field (js ''message'') request) db1 = (Inl e, db2)"
  then have "db2 = db1" by (auto simp: normalizeMessage_def answer_def refuse_def split: option.splits if_splits)
  with assms show "start_effect c newRun db (Inl e, db2)" by (simp add: start_effect_def)
next
  fix payload db2
  assume n: "normalizeMessage (json_field (js ''message'') request) db1 = (Inr payload, db2)"
  then have "db2 = db1" "json_field (js ''message'') request = Some payload"
    by (auto simp: normalizeMessage_def answer_def refuse_def split: option.splits if_splits)
  then have db2: "db2 = db1" "json_ok payload" using json_field_ok [OF assms(5)] by auto
  let ?i = "\<lparr>ami_sessionId = sessionId, ami_clientId = c, ami_role = js ''user'', ami_payload = payload, ami_createdAt = None\<rparr>"
  have m: "db_consistent (snd (appendMessage_db (clock 2) ?i db1))" "db_runs (snd (appendMessage_db (clock 2) ?i db1)) = db_runs db"
      "db_run_events (snd (appendMessage_db (clock 2) ?i db1)) = db_run_events db"
    using keepsD [OF keeps_appendMessage_db [of ?i "clock 2"] assms(1)] db2(2) appendMessage_runs assms(2,3) by auto
  let ?r = "\<lparr>cr_runId = newRun, cr_sessionId = sessionId, cr_clientId = c, cr_model = model, cr_thinkingLevel = level, cr_createdAt = None\<rparr>"
  show "start_effect c newRun db (and_then (db_call (appendMessage_db (clock 2) ?i)) (\<lambda>message.
      and_then (db_call (createRun (clock 3) ?r)) (\<lambda>run. answer (result message run))) db2)"
  proof (rule and_then_cases)
    fix e db3
    assume "db_call (appendMessage_db (clock 2) ?i) db2 = (Inl e, db3)"
    with m show "start_effect c newRun db (Inl e, db3)"
      by (cases e) (auto simp: start_effect_def db_call_result db2)
  next
    fix message db3
    assume "db_call (appendMessage_db (clock 2) ?i) db2 = (Inr message, db3)"
    with m have d: "db_consistent db3" "db_runs db3 = db_runs db" "db_run_events db3 = db_run_events db" by (auto simp: db_call_result db2)
    have c4: "db_consistent (snd (createRun (clock 3) ?r db3))" using keepsD [OF keeps_createRun d(1)] assms(4) by simp
    show "start_effect c newRun db (and_then (db_call (createRun (clock 3) ?r)) (\<lambda>run. answer (result message run)) db3)"
      using createRun_effect [of ?r "clock 3" db3] assms(4,6) d c4
      by (auto simp: and_then_def db_call_def answer_def start_effect_def adds_run_def run_keys_def)
  qed
qed

lemma startRun_effect:
  assumes c: "db_consistent db" and r: "json_ok request"
  shows "start_effect clientId newRun db (startRun_begin clock newSession newRun clientId request db)"
  unfolding startRun_begin_def Let_def
proof (rule and_then_cases)
  fix e db1
  assume "db_call (getSession clientId (or_else (normalizeOptionalString (json_field (js ''sessionId'') request)) newSession)) db = (Inl e, db1)"
  then show "start_effect clientId newRun db (Inl e, db1)" using c
    by (cases e) (auto simp: db_call_result start_effect_def)
next
  fix existing db1
  let ?sid = "or_else (normalizeOptionalString (json_field (js ''sessionId'') request)) newSession"
  let ?model = "request_model request existing"
  let ?level = "request_level request existing"
  assume "db_call (getSession clientId ?sid) db = (Inr existing, db1)"
  then have e: "getSession clientId ?sid db = (Inr existing, db1)" "db1 = db" by (auto simp: db_call_result)
  have model: "json_ok ?model" by (rule existing_model_ok [OF c e(1) r])
  let ?rest = "\<lambda>session. and_then (normalizeMessage (json_field (js ''message'') request)) (\<lambda>payload.
     and_then (db_call (appendMessage_db (clock 2)
       \<lparr>ami_sessionId = ?sid, ami_clientId = clientId, ami_role = js ''user'', ami_payload = payload, ami_createdAt = None\<rparr>)) (\<lambda>message.
     and_then (db_call (createRun (clock 3)
       \<lparr>cr_runId = newRun, cr_sessionId = ?sid, cr_clientId = clientId, cr_model = ?model, cr_thinkingLevel = ?level, cr_createdAt = None\<rparr>)) (\<lambda>run.
     answer \<lparr>srr_session = session, srr_message = message, srr_run = run\<rparr>)))"
  show "start_effect clientId newRun db
     (and_then (if existing \<noteq> None then db_call (hasActiveRun clientId ?sid) else answer False) (\<lambda>active.
        if active then refuse (already_active ?sid) 409
        else and_then (existing_or_new_session clock clientId ?sid request ?model ?level existing) ?rest) db1)"
  proof (rule and_then_cases)
    fix err db2
    assume "(if existing \<noteq> None then db_call (hasActiveRun clientId ?sid) else answer False) db1 = (Inl err, db2)"
    then have "db2 = db"
      by (cases err) (auto simp: e(2) answer_def db_call_result hasActiveRun_def activeRuns_def listRunsForSession_def query_def eff_simps split: if_splits)
    with c show "start_effect clientId newRun db (Inl err, db2)" by (simp add: start_effect_def)
  next
    fix active db2
    assume a: "(if existing \<noteq> None then db_call (hasActiveRun clientId ?sid) else answer False) db1 = (Inr active, db2)"
    then have db2: "db2 = db"
      by (auto simp: e(2) answer_def db_call_result hasActiveRun_def activeRuns_def listRunsForSession_def query_def eff_simps split: if_splits)
    show "start_effect clientId newRun db ((if active then refuse (already_active ?sid) 409
        else and_then (existing_or_new_session clock clientId ?sid request ?model ?level existing) ?rest) db2)"
    proof (cases active)
      case True
      with c show ?thesis by (simp add: db2 refuse_def start_effect_def)
    next
      case False
      have none: "\<not> is_active row" if "row \<in> set (db_runs db)" "rw_client_id row = clientId" "rw_session_id row = ?sid" for row
      proof (cases existing)
        case None
        with missing_session [OF c _ that(1,2)] e(1) that(3) show ?thesis by auto
      next
        case (Some x)
        with a False have "hasActiveRun clientId ?sid db = (Inr False, db2)" by (simp add: e(2) db_call_result)
        from no_active_run [OF this that] show ?thesis .
      qed
      have "start_effect clientId newRun db (and_then (existing_or_new_session clock clientId ?sid request ?model ?level existing) ?rest db)"
      proof (cases existing)
        case (Some x)
        then have "and_then (existing_or_new_session clock clientId ?sid request ?model ?level existing) ?rest db = ?rest x db"
          by (simp add: existing_or_new_session_def and_then_def [of "answer x"] answer_def [of x])
        then show ?thesis by (simp only:) (rule start_with_session [OF c refl refl model r none])
      next
        case None
        let ?s = "\<lparr>cs_sessionId = ?sid, cs_clientId = clientId,
             cs_title = or_else (normalizeOptionalString (json_field (js ''title'') request)) (js ''Untitled session''),
             cs_model = ?model, cs_thinkingLevel = ?level, cs_createdAt = None, cs_updatedAt = None\<rparr>"
        have s: "db_consistent (snd (createSession (clock 0) (clock 1) ?s db))"
          using keepsD [OF keeps_createSession c, of ?s] model by simp
        show ?thesis
        proof (rule and_then_cases)
          fix err db3
          assume "existing_or_new_session clock clientId ?sid request ?model ?level existing db = (Inl err, db3)"
          with s createSession_runs show "start_effect clientId newRun db (Inl err, db3)"
            by (cases err) (auto simp: None existing_or_new_session_def db_call_result start_effect_def, (metis snd_conv)+)
        next
          fix session db3
          assume "existing_or_new_session clock clientId ?sid request ?model ?level existing db = (Inr session, db3)"
          then have "createSession (clock 0) (clock 1) ?s db = (Inr session, db3)"
            by (auto simp: None existing_or_new_session_def db_call_result)
          then have d3: "db_consistent db3" "db_runs db3 = db_runs db" "db_run_events db3 = db_run_events db"
            using s createSession_runs [of "clock 0" "clock 1" ?s db] by auto
          show "start_effect clientId newRun db (?rest session db3)" by (rule start_with_session [OF d3 model r none])
        qed
      qed
      with False show ?thesis by (simp add: db2)
    qed
  qed
qed

end
