(* ===== verification/Run_Properties.thy ===== *)
theory Run_Properties
  imports Run_Lifecycle
begin

text \<open>
  Whatever the requests, the worker, its agents and the queue do: the database stays consistent, a run is started at
  most once, and who polls for the events of a run gets each of them once.
\<close>

section \<open>Steps\<close>

lemma cancel_step:
  assumes "cancels a s = Some run"
  obtains now k where "a = RequestGoesOn now k" "perform Q w a s = with_db (snd (cancel_update now run (sy_db s))) (s\<lparr>sy_calls := remove_at k (sy_calls s)\<rparr>)"
  using assms
  by (auto simp: cancels_def request_goes_on_def Let_def split: run_action.splits api_call.splits if_splits)

lemma start_step:
  assumes "is_start_request a"
  obtains clock ns nr c request where "a = RequestStart clock ns nr c request"
  using assms by (cases a) auto

lemma cancel_keeps:
  assumes "P db" "\<And>st. st = CancelledRun \<or> st = CancellingRun \<and> rr_status run \<noteq> QueuedRun \<and> rr_status run \<noteq> CancellingRun \<Longrightarrow>
      P (snd (updateRunStatus now (rr_runId run) (rr_clientId run) st no_patch db))"
  shows "P (snd (cancel_update now run db))"
  using assms by (simp add: cancel_update_def ret_def)

lemma start_request:
  "sy_db (request_start clock ns nr c request s) = snd (startRun_begin clock ns nr c request (sy_db s))"
  "sy_loops (request_start clock ns nr c request s) = sy_loops s"
  "sy_started (request_start clock ns nr c request s) = sy_started s"
  "sy_created (request_start clock ns nr c request s) = sy_created s @
     (case fst (startRun_begin clock ns nr c request (sy_db s)) of Inl _ \<Rightarrow> [] | Inr _ \<Rightarrow> [(c, nr)])"
  by (auto simp: request_start_def with_db_def split: prod.splits sum.splits)

lemma step_consistent:
  assumes "db_consistent (sy_db s)" "action_ok a"
  shows "db_consistent (sy_db (perform Q w a s))"
proof (cases "is_start_request a")
  case True
  then obtain clock ns nr c request where a: "a = RequestStart clock ns nr c request" by (rule start_step)
  with startRun_effect [OF assms(1), of request] assms(2) show ?thesis by (auto simp: action_ok_def start_request start_effect_def)
next
  case False
  show ?thesis
  proof (cases "cancels a s")
    case None
    from consistent.all_steps_keep [OF assms False None] show ?thesis .
  next
    case (Some run)
    then obtain now k where "perform Q w a s = with_db (snd (cancel_update now run (sy_db s))) (s\<lparr>sy_calls := remove_at k (sy_calls s)\<rparr>)"
      by (rule cancel_step)
    moreover have "db_consistent (snd (cancel_update now run (sy_db s)))"
      by (rule cancel_keeps [of db_consistent, OF assms(1)]) (rule keepsD [OF keeps_updateRunStatus assms(1)])
    ultimately show ?thesis by (simp add: with_db_def)
  qed
qed

lemma perform_all_Cons [simp]: "perform_all Q w (a # acts) s = perform_all Q w acts (perform Q w a s)"
  and perform_all_Nil [simp]: "perform_all Q w [] s = s"
  and perform_all_append: "perform_all Q w (acts @ acts') s = perform_all Q w acts' (perform_all Q w acts s)"
  by (simp_all add: perform_all_def)

lemma perform_all_keeps:
  assumes "P s" "list_all ok acts" "\<And>s a. P s \<Longrightarrow> ok a \<Longrightarrow> P (perform Q w a s)"
  shows "P (perform_all Q w acts s)"
  using assms by (induction acts arbitrary: s) auto

lemma all_consistent: "db_consistent (sy_db s) \<Longrightarrow> list_all action_ok acts \<Longrightarrow> db_consistent (sy_db (perform_all Q w acts s))"
  using perform_all_keeps [of "\<lambda>s. db_consistent (sy_db s)" s action_ok acts Q w] step_consistent by blast

text \<open>C27 The database stays consistent: after any requests, steps of the worker, events of its agents, cancellations, stops and
  crashes, whatever the queue answers, client, session and run ids are unique, every row refers to rows that are there, message
  and event ids only grow, the events of each run are rows_numbered 1, 2, 3 and so on, and every stored text reads back as JSON.\<close>

theorem run_database_consistent:
  assumes "list_all action_ok acts"
  shows "db_consistent (sy_db (perform_all Q w acts (new_run_system q)))"
  by (rule all_consistent [OF _ assms]) (simp add: new_run_system_def new_consistent)

section \<open>A run starts once\<close>

lemma created_grows: "\<exists>new. sy_created (perform Q w a s) = sy_created s @ new"
  by (cases a)
    (auto simp: request_start_def request_cancel_def request_delete_def request_goes_on_def start_worker_def stop_worker_def
      worker_dies_def loop_claim_def claim_answered_def start_claimed_def agent_reports_def agent_ends_def cancel_answered_def
      write_end_def complete_claim_def poll_asked_def poll_acts_def with_db_def with_loop_def Let_def
      split: prod.splits sum.splits worker_loop.splits option.splits bool.splits api_call.splits)

lemma created_all_grows: "\<exists>new. sy_created (perform_all Q w acts s) = sy_created s @ new"
proof (induction acts arbitrary: s)
  case (Cons a acts)
  from created_grows [of Q w a s] Cons.IH [of "perform Q w a s"] show ?case by auto
qed simp

definition is_start_claimed :: "run_action \<Rightarrow> bool" where
  "is_start_claimed a \<longleftrightarrow> (case a of StartClaimed _ _ _ \<Rightarrow> True | _ \<Rightarrow> False)"

lemma created_same: "\<not> is_start_request a \<Longrightarrow> sy_created (perform Q w a s) = sy_created s"
  by (cases a)
    (auto simp: request_start_def request_cancel_def request_delete_def request_goes_on_def start_worker_def stop_worker_def
      worker_dies_def loop_claim_def claim_answered_def start_claimed_def agent_reports_def agent_ends_def cancel_answered_def
      write_end_def complete_claim_def poll_asked_def poll_acts_def with_db_def with_loop_def Let_def
      split: prod.splits sum.splits worker_loop.splits option.splits bool.splits api_call.splits)

lemma started_same: "\<not> is_start_claimed a \<Longrightarrow> sy_started (perform Q w a s) = sy_started s"
  by (cases a)
    (auto simp: is_start_claimed_def request_start_def request_cancel_def request_delete_def request_goes_on_def start_worker_def stop_worker_def
      worker_dies_def loop_claim_def claim_answered_def agent_reports_def agent_ends_def cancel_answered_def
      write_end_def complete_claim_def poll_asked_def poll_acts_def with_db_def with_loop_def Let_def
      split: prod.splits sum.splits worker_loop.splits option.splits bool.splits api_call.splits)

definition row_key :: "run_row \<Rightarrow> jsstring \<times> jsstring" where
  "row_key row = (rw_client_id row, rw_run_id row)"

lemma run_keys_rows: "set (run_keys db) = row_key ` set (db_runs db)"
  by (auto simp: run_keys_def row_key_def)

lemma update_writes:
  assumes "updateRunStatus now r c st p db = (Inr run, db')"
  shows "\<forall>row \<in> set (db_runs db'). row_key row = (c, r) \<longrightarrow> rw_status row = st" "rr_clientId run = c" "rr_runId run = r"
proof -
  obtain row where row: "find (is_run c r) (db_runs db) = Some row"
    using assms by (auto simp: updateRunStatus_eq split: option.splits)
  obtain cur where cur: "toRunRecord row = Inr cur"
    using assms by (cases "toRunRecord row") (simp_all add: updateRunStatus_eq row)
  let ?f = "set_status st p (or_else (sp_updatedAt p) now) cur"
  have u: "toRunRecord (?f row) = Inr run" "db_runs db' = map_where (is_run c r) ?f (db_runs db)"
    using assms by (auto simp: updateRunStatus_eq row cur Let_def touch_session_def)
  show "\<forall>row \<in> set (db_runs db'). row_key row = (c, r) \<longrightarrow> rw_status row = st"
  proof (intro ballI impI)
    fix row'
    assume "row' \<in> set (db_runs db')" and k: "row_key row' = (c, r)"
    then obtain y where y: "row' = (if is_run c r y then ?f y else y)" unfolding u(2) map_where_def set_map by blast
    have "is_run c r y"
    proof (rule ccontr)
      assume n: "\<not> is_run c r y"
      with y have "row' = y" by simp
      with k n show False by (simp add: row_key_def is_run_def)
    qed
    with y show "rw_status row' = st" by simp
  qed
  show "rr_clientId run = c" "rr_runId run = r"
    using toRunRecord_fields [OF u(1)] find_in [OF row] by (auto simp: is_run_def)
qed

text \<open>When an agent is asked for, the run was queued, and no longer is.\<close>

lemma begin_asked:
  assumes "db_consistent db" "begin_claimed clock w made claimed run db = (l, db', True)"
  shows "\<forall>row \<in> set (db_runs db'). row_key row = run_key run \<longrightarrow> rw_status row \<noteq> QueuedRun"
proof -
  let ?u = "updateRunStatus (clock 0) (rr_runId run) (rr_clientId run) RunningRun (no_patch\<lparr>sp_workerId := Some w\<rparr>)"
  from assms(2) obtain r1 db1 where u: "?u db = (Inr r1, db1)"
    and l: "db' = db1 \<or> (\<exists>e. db' = snd (worker_catch (clock 1) r1 False e db1))"
    by (auto simp: begin_claimed_def bind_eff_def listMessages_def query_def throw_def ret_def
        split: prod.splits sum.splits option.splits) (metis snd_conv)+
  have run1: "\<forall>row \<in> set (db_runs db1). row_key row = run_key run \<longrightarrow> rw_status row \<noteq> QueuedRun"
    using update_writes(1) [OF u] by (auto simp: run_key_def)
  have "db_consistent db1" using keepsD [OF keeps_updateRunStatus assms(1)] u by (metis snd_conv)
  then have "consistent_follows {QueuedRun} db1 db'" using l queued.catch_keeps [of db1 db1] by auto
  with run1 show ?thesis unfolding follows_def same_run_def row_key_def by fastforce
qed

lemma claimed_asked:
  assumes "db_consistent db" "process_claimed clock w made claimed db = (l, db', True)"
  shows "\<exists>row \<in> set (db_runs db). row_key row = (the (given_client (cl_clientId claimed)), cl_runId claimed) \<and> rw_status row = QueuedRun"
    "\<forall>row \<in> set (db_runs db'). row_key row = (the (given_client (cl_clientId claimed)), cl_runId claimed) \<longrightarrow> rw_status row \<noteq> QueuedRun"
proof -
  from assms(2) obtain c run where c: "given_client (cl_clientId claimed) = Some c"
    and run: "map_row toRunRecord (find (is_run c (cl_runId claimed)) (db_runs db)) = Inr (Some run)" "rr_status run = QueuedRun"
      "begin_claimed clock w made claimed run db = (l, db', True)"
    by (auto simp: process_claimed_def split: option.splits sum.splits if_splits)
  from run(1) obtain row where row: "find (is_run c (cl_runId claimed)) (db_runs db) = Some row" "toRunRecord row = Inr run"
    by (auto simp: map_row_found)
  have k: "row \<in> set (db_runs db)" "row_key row = (c, cl_runId claimed)" using find_in [OF row(1)] by (auto simp: is_run_def row_key_def)
  note f = toRunRecord_fields [OF row(2)]
  show "\<exists>row \<in> set (db_runs db). row_key row = (the (given_client (cl_clientId claimed)), cl_runId claimed) \<and> rw_status row = QueuedRun"
    using k f run(2) c by auto
  have "run_key run = (c, cl_runId claimed)" using k(2) f by (simp add: run_key_def row_key_def)
  with begin_asked [OF assms(1) run(3)] c
  show "\<forall>row \<in> set (db_runs db'). row_key row = (the (given_client (cl_clientId claimed)), cl_runId claimed) \<longrightarrow> rw_status row \<noteq> QueuedRun"
    by auto
qed

definition starts_once :: "'q run_system \<Rightarrow> bool" where
  "starts_once s \<longleftrightarrow> db_consistent (sy_db s) \<and> set (run_keys (sy_db s)) \<subseteq> set (sy_created s)
     \<and> distinct (sy_started s) \<and> set (sy_started s) \<subseteq> set (sy_created s)
     \<and> (\<forall>row \<in> set (db_runs (sy_db s)). rw_status row = QueuedRun \<longrightarrow> row_key row \<notin> set (sy_started s))"

lemma follows_keys: "follows A db0 db \<Longrightarrow> set (run_keys db) \<subseteq> set (run_keys db0)"
proof
  fix k
  assume f: "follows A db0 db" and "k \<in> set (run_keys db)"
  then obtain row where "row \<in> set (db_runs db)" "k = row_key row" by (auto simp: run_keys_rows)
  with f obtain row0 where "row0 \<in> set (db_runs db0)" "row_key row0 = k" unfolding follows_def same_run_def row_key_def by metis
  then show "k \<in> set (run_keys db0)" by (auto simp: run_keys_rows)
qed

lemma starts_once_follows:
  assumes "starts_once s" "consistent_follows {QueuedRun} (sy_db s) (sy_db s')" "sy_created s' = sy_created s" "sy_started s' = sy_started s"
  shows "starts_once s'"
proof -
  have "row_key row \<notin> set (sy_started s)" if r: "row \<in> set (db_runs (sy_db s'))" "rw_status row = QueuedRun" for row
  proof -
    obtain row0 where "row0 \<in> set (db_runs (sy_db s))" "same_run row0 row" "rw_status row0 = QueuedRun"
      using assms(2) r unfolding follows_def by blast
    with assms(1) show ?thesis by (auto simp: starts_once_def row_key_def same_run_def)
  qed
  with assms follows_keys [of "{QueuedRun}" "sy_db s" "sy_db s'"] show ?thesis by (auto simp: starts_once_def)
qed

lemma step_follows_queued:
  assumes "db_consistent (sy_db s)" "action_ok a" "\<not> is_start_request a"
  shows "consistent_follows {QueuedRun} (sy_db s) (sy_db (perform Q w a s))"
proof (cases "cancels a s")
  case None
  have "consistent_follows {QueuedRun} (sy_db s) (sy_db s)" using assms(1) by simp
  from queued.all_steps_keep [OF this assms(2,3) None] show ?thesis .
next
  case (Some run)
  then obtain now k where p: "perform Q w a s = with_db (snd (cancel_update now run (sy_db s))) (s\<lparr>sy_calls := remove_at k (sy_calls s)\<rparr>)"
    by (rule cancel_step)
  have "follows {QueuedRun} (sy_db s) (snd (cancel_update now run (sy_db s)))"
    by (rule cancel_keeps) (auto intro!: follows_update simp: assms(1))
  moreover have "db_consistent (sy_db (perform Q w a s))" by (rule step_consistent [OF assms(1,2)])
  ultimately show ?thesis by (simp add: p with_db_def)
qed

lemma starts_once_step:
  assumes "starts_once s" "action_ok a" "distinct (sy_created (perform Q w a s))"
  shows "starts_once (perform Q w a s)"
proof -
  have c: "db_consistent (sy_db s)" using assms(1) by (simp add: starts_once_def)
  have c': "db_consistent (sy_db (perform Q w a s))" by (rule step_consistent [OF c assms(2)])
  consider "is_start_request a" | "is_start_claimed a" | "\<not> is_start_request a" "\<not> is_start_claimed a" by blast
  then show ?thesis
  proof cases
    case 1
    then obtain clock ns nr cl request where a: "a = RequestStart clock ns nr cl request" by (rule start_step)
    let ?r = "startRun_begin clock ns nr cl request (sy_db s)"
    have e: "start_effect cl nr (sy_db s) ?r" using startRun_effect [OF c] assms(2) a by (simp add: action_ok_def)
    show ?thesis
    proof (cases "fst ?r")
      case (Inl err)
      with e assms(1) c' show ?thesis
        by (simp add: a starts_once_def start_request start_effect_def run_keys_rows)
    next
      case (Inr res)
      with e obtain row where row: "db_runs (snd ?r) = db_runs (sy_db s) @ [row]" "row_key row = (cl, nr)" "rw_status row = QueuedRun"
        by (auto simp: start_effect_def adds_run_def row_key_def)
      have "(cl, nr) \<notin> set (sy_created s)" using assms(3) Inr by (simp add: a start_request)
      with assms(1) c' row Inr show ?thesis
        by (auto simp: a starts_once_def start_request run_keys_rows)
    qed
  next
    case 2
    then obtain clock made i where a: "a = StartClaimed clock made i" by (auto simp: is_start_claimed_def split: run_action.splits)
    have f: "consistent_follows {QueuedRun} (sy_db s) (sy_db (perform Q w a s))"
      using step_follows_queued [OF c assms(2)] a by simp
    have cr: "sy_created (perform Q w a s) = sy_created s" using created_same [of a Q w s] a by simp
    show ?thesis
    proof (cases "sy_started (perform Q w a s) = sy_started s")
      case True
      from starts_once_follows [OF assms(1) f cr True] show ?thesis .
    next
      case False
      then obtain claimed l db where cl: "i < length (sy_loops s)" "sy_loops s ! i = LoopClaimed claimed"
          "process_claimed clock w made claimed (sy_db s) = (l, db, True)"
          "perform Q w a s = (with_loop i l (with_db db s))\<lparr>sy_started := sy_started s @ [(the (given_client (cl_clientId claimed)), cl_runId claimed)]\<rparr>"
        by (auto simp: a start_claimed_def with_db_def with_loop_def split: worker_loop.splits prod.splits if_splits)
      have db: "sy_db (perform Q w a s) = db" by (simp add: cl(4) with_db_def with_loop_def)
      note q = claimed_asked [OF c cl(3)]
      from q(1) assms(1) have new: "(the (given_client (cl_clientId claimed)), cl_runId claimed) \<notin> set (sy_started s)"
          "(the (given_client (cl_clientId claimed)), cl_runId claimed) \<in> set (sy_created s)"
        by (auto simp: starts_once_def run_keys_rows)
      have old: "row_key row \<notin> set (sy_started s)" if r: "row \<in> set (db_runs db)" "rw_status row = QueuedRun" for row
      proof -
        obtain row0 where "row0 \<in> set (db_runs (sy_db s))" "same_run row0 row" "rw_status row0 = QueuedRun"
          using f r db unfolding follows_def by blast
        with assms(1) show ?thesis by (auto simp: starts_once_def row_key_def same_run_def)
      qed
      have k: "set (run_keys db) \<subseteq> set (sy_created s)" using follows_keys f assms(1) db by (fastforce simp: starts_once_def)
      from new old q(2) k c' assms(1) cr show ?thesis
        by (simp add: starts_once_def db) (auto simp: cl(4))
    qed
  next
    case 3
    from starts_once_follows [OF assms(1) step_follows_queued [OF c assms(2) 3(1)] created_same [OF 3(1)] started_same [OF 3(2)]]
    show ?thesis .
  qed
qed

lemma starts_once_all:
  assumes "starts_once s" "list_all action_ok acts" "distinct (sy_created (perform_all Q w acts s))"
  shows "starts_once (perform_all Q w acts s)"
  using assms
proof (induction acts arbitrary: s)
  case (Cons a acts)
  obtain new where "sy_created (perform_all Q w acts (perform Q w a s)) = sy_created (perform Q w a s) @ new"
    using created_all_grows by blast
  with Cons.prems(3) have "distinct (sy_created (perform Q w a s))" by simp
  from starts_once_step [OF Cons.prems(1) _ this] Cons.prems(2) have "starts_once (perform Q w a s)" by simp
  from Cons.IH [OF this] Cons.prems show ?case by simp
qed simp

text \<open>C28 A run is started at most once: whatever the queue hands out, and however often, an agent is made for a run at most
  one time, and only for runs that were requested; random run ids are not drawn twice.\<close>

theorem run_started_once:
  assumes "list_all action_ok acts" "distinct (sy_created (perform_all Q w acts (new_run_system q)))"
  shows "distinct (sy_started (perform_all Q w acts (new_run_system q)))
     \<and> set (sy_started (perform_all Q w acts (new_run_system q))) \<subseteq> set (sy_created (perform_all Q w acts (new_run_system q)))"
proof -
  have "starts_once (new_run_system q)"
    by (simp add: starts_once_def new_run_system_def new_consistent) (simp add: new_runtime_db_def run_keys_def)
  from starts_once_all [OF this assms] show ?thesis by (simp add: starts_once_def)
qed

section \<open>An example\<close>

definition demo_request :: json where
  "demo_request = JObj [(js ''sessionId'', JStr (js ''s'')), (js ''message'', JObj [(js ''role'', JStr (js ''user''))])]"

definition demo_clock :: "nat \<Rightarrow> jsstring" where
  "demo_clock i = js ''t''"

definition demo_event :: json where
  "demo_event = JObj [(js ''type'', JStr (js ''message_end'')), (js ''message'', JObj [(js ''role'', JStr (js ''assistant''))])]"

text \<open>Two requests for a session, of which the second is refused, and a run that is cancelled while it works.\<close>

definition demo_actions :: "run_action list" where
  "demo_actions =
     [RequestStart demo_clock (js ''x'') (js ''r'') (js ''c'') demo_request,
      RequestStart demo_clock (js ''x'') (js ''q'') (js ''c'') demo_request,
      RequestGoesOn (js ''t'') 0, StartWorker 1, LoopClaims 0, ClaimAnswered 0, StartClaimed demo_clock None 0,
      AgentReports demo_clock 0 demo_event, RequestCancel (js ''c'') (js ''r''), RequestGoesOn (js ''t'') 0, RequestGoesOn (js ''t'') 0]"

definition demo_system :: "mem_queue run_system" where
  "demo_system = perform_all InMemoryRunQueue (js ''w'') demo_actions (new_run_system new_mem_queue)"

lemma demo_actions_ok: "list_all action_ok demo_actions"
  by code_simp

lemma demo_created: "sy_created demo_system = [(js ''c'', js ''r'')]"
  by code_simp

theorem run_database_consistent_witness:
  "db_consistent (sy_db demo_system)"
proof -
  from run_database_consistent [OF demo_actions_ok] show ?thesis by (simp only: demo_system_def)
qed

theorem run_started_once_witness:
  "sy_started demo_system = [(js ''c'', js ''r'')] \<and> distinct (sy_started demo_system)"
proof -
  have "distinct (sy_created (perform_all InMemoryRunQueue (js ''w'') demo_actions (new_run_system new_mem_queue)))"
    using demo_created by (simp add: demo_system_def)
  from run_started_once [OF demo_actions_ok this] have "distinct (sy_started demo_system)" unfolding demo_system_def by (rule conjunct1)
  moreover have "sy_started demo_system = [(js ''c'', js ''r'')]" by code_simp
  ultimately show ?thesis by simp
qed

section \<open>Reading the events\<close>

lemma order_by_sorted: "sorted_wrt lt xs \<Longrightarrow> (\<And>x y. lt x y \<Longrightarrow> \<not> lt y x) \<Longrightarrow> order_by lt xs = xs"
proof (induction xs)
  case (Cons x xs)
  then show ?case by (cases xs) (simp_all add: order_by_def)
qed (simp add: order_by_def)

lemma map_rows_drop: "map_rows f xs = Inr ys \<Longrightarrow> map_rows f (drop n xs) = Inr (drop n ys)"
proof (induction xs arbitrary: ys n)
  case (Cons x xs)
  then show ?case by (cases n) (auto split: sum.splits)
qed simp

lemma filter_after:
  "map g xs = [Suc m..<Suc m + length xs] \<Longrightarrow> filter (\<lambda>x. m + n < g x) xs = drop n xs"
proof (induction xs arbitrary: m n)
  case (Cons x xs)
  then have x: "g x = Suc m" "map g xs = [Suc (Suc m)..<Suc (Suc m) + length xs]" by (simp_all add: upt_rec)
  show ?case
  proof (cases n)
    case 0
    with Cons.IH [OF x(2), of 0] x show ?thesis
      by (auto simp: filter_id_conv)
  next
    case (Suc n')
    with Cons.IH [OF x(2), of n'] x(1) show ?thesis by simp
  qed
qed simp

lemma map_rows_fields: "map_rows f xs = Inr ys \<Longrightarrow> (\<And>x y. f x = Inr y \<Longrightarrow> h y = g x) \<Longrightarrow> map h ys = map g xs"
  by (induction xs arbitrary: ys) (auto split: sum.splits)

lemma map_rows_total: "(\<And>x. x \<in> set xs \<Longrightarrow> \<exists>y. f x = Inr y) \<Longrightarrow> \<exists>ys. map_rows f xs = Inr ys"
  by (induction xs) fastforce+

lemma toRunEventRecord_fields: "toRunEventRecord row = Inr e \<Longrightarrow> re_seq e = ew_seq row \<and> re_eventId e = ew_id row"
  by (auto simp: toRunEventRecord_def split: sum.splits)

lemma events_read:
  assumes "db_consistent db"
  shows "\<exists>evs. map_rows toRunEventRecord (events_of c r db) = Inr evs
     \<and> (\<forall>n. listRunEvents c r (int n) db = (Inr (drop n evs), db))"
proof -
  let ?rows = "events_of c r db"
  have seqs: "map ew_seq ?rows = [1..<Suc (length ?rows)]" using assms by (simp add: consistent_defs)
  have "\<exists>e. toRunEventRecord row = Inr e" if "row \<in> set ?rows" for row
  proof -
    have "stored_json (ew_payload_json row)" using that assms by (auto simp: consistent_defs events_of_def)
    from stored_reads [OF this] show ?thesis by (auto simp: toRunEventRecord_def)
  qed
  then obtain evs where evs: "map_rows toRunEventRecord ?rows = Inr evs" using map_rows_total by metis
  have after: "filter (\<lambda>e. ew_client_id e = c \<and> ew_run_id e = r \<and> int n < int (ew_seq e)) (db_run_events db) = drop n ?rows" for n
  proof -
    have "filter (\<lambda>e. 0 + n < ew_seq e) ?rows = drop n ?rows" by (rule filter_after) (use seqs in simp)
    then show ?thesis by (simp add: events_of_def conj_assoc)
  qed
  have "sorted_wrt (<) (map ew_seq ?rows)" unfolding seqs by (rule sorted_wrt_upt)
  then have "sorted_wrt (\<lambda>e e'. ew_seq e < ew_seq e') (drop n ?rows)" for n by (simp add: sorted_wrt_map sorted_wrt_drop)
  then have "order_by (\<lambda>e e'. ew_seq e < ew_seq e') (drop n ?rows) = drop n ?rows" for n by (rule order_by_sorted) simp
  with map_rows_drop [OF evs] have "listRunEvents c r (int n) db = (Inr (drop n evs), db)" for n
    by (simp add: listRunEvents_def query_def after del: of_nat_less_iff)
  with evs show ?thesis by blast
qed

text \<open>C31 The events of a run are read as they were stored, rows_numbered from 1, and who has read the first n and asks for those after
  n gets exactly the rest: polling neither loses nor repeats one.\<close>

theorem run_events_polled:
  assumes "list_all action_ok acts" "db = sy_db (perform_all Q w acts (new_run_system q))"
  shows "\<exists>evs. listRunEvents c r 0 db = (Inr evs, db) \<and> map re_seq evs = [1..<Suc (length evs)]
     \<and> map re_eventId evs = map ew_id (events_of c r db) \<and> (\<forall>n. listRunEvents c r (int n) db = (Inr (drop n evs), db))"
proof -
  have d: "db_consistent db" unfolding assms(2) by (rule all_consistent [OF _ assms(1)]) (simp add: new_run_system_def new_consistent)
  obtain evs where e: "map_rows toRunEventRecord (events_of c r db) = Inr evs"
      "\<forall>n. listRunEvents c r (int n) db = (Inr (drop n evs), db)" using events_read [OF d] by blast
  have "map re_seq evs = map ew_seq (events_of c r db)" "map re_eventId evs = map ew_id (events_of c r db)"
    using map_rows_fields [OF e(1)] toRunEventRecord_fields by metis+
  moreover from this(2) have "length evs = length (events_of c r db)" by (rule map_eq_imp_length_eq)
  moreover have "map ew_seq (events_of c r db) = [1..<Suc (length (events_of c r db))]" using d by (simp add: consistent_defs)
  ultimately show ?thesis using e(2) spec [OF e(2), of 0] by (intro exI [of _ evs]) simp
qed

theorem run_events_polled_witness:
  "\<exists>e. listRunEvents (js ''c'') (js ''r'') 0 (sy_db demo_system) = (Inr [e], sy_db demo_system)
     \<and> listRunEvents (js ''c'') (js ''r'') 1 (sy_db demo_system) = (Inr [], sy_db demo_system)"
proof -
  from run_events_polled [OF demo_actions_ok demo_system_def [THEN arg_cong [of _ _ sy_db]], of "js ''c''" "js ''r''"]
  obtain evs where e: "listRunEvents (js ''c'') (js ''r'') 0 (sy_db demo_system) = (Inr evs, sy_db demo_system)"
      "map re_eventId evs = map ew_id (events_of (js ''c'') (js ''r'') (sy_db demo_system))"
      "\<forall>n. listRunEvents (js ''c'') (js ''r'') (int n) (sy_db demo_system) = (Inr (drop n evs), sy_db demo_system)" by blast
  have "length (events_of (js ''c'') (js ''r'') (sy_db demo_system)) = 1" by code_simp
  with e(2) have "length evs = 1" by (metis length_map)
  then obtain x where "evs = [x]" by (cases evs) auto
  with e(1) e(3) [rule_format, of 1] show ?thesis by auto
qed

end
