(* ===== verification/Run_Exclusion.thy ===== *)
theory Run_Exclusion
  imports Run_Properties
begin

text \<open>
  As long as no cancellation writes over a run that ended since it was read, a session has at most one active run,
  and a run that runs is worked on.

  The busy runs and the loops of the worker: \<open>attended\<close> holds along all steps, with an example of a run that is
  cancelled while it works, and one of a cancellation that comes too late. At the end, how a run is written into a queue of texts.
\<close>

section \<open>Cancellations that come too late\<close>

text \<open>A cancellation reads the run, awaits the queue and writes: the run may have ended meanwhile.\<close>

definition overtaken :: "run_action \<Rightarrow> 'q run_system \<Rightarrow> bool" where
  "overtaken a s \<longleftrightarrow>
     (case cancels a s of
        None \<Rightarrow> False
      | Some run \<Rightarrow>
          rr_status run \<noteq> QueuedRun \<and> rr_status run \<noteq> CancellingRun
          \<and> (case run_at (rr_clientId run) (rr_runId run) (sy_db s) of
               None \<Rightarrow> False
             | Some row \<Rightarrow> rw_status row \<notin> busy_statuses))"

fun never_overtaken :: "'q run_queue \<Rightarrow> jsstring \<Rightarrow> run_action list \<Rightarrow> 'q run_system \<Rightarrow> bool" where
  "never_overtaken Q w [] s \<longleftrightarrow> True"
| "never_overtaken Q w (a # acts) s \<longleftrightarrow> \<not> overtaken a s \<and> never_overtaken Q w acts (perform Q w a s)"

lemma cancel_follows:
  assumes "db_consistent (sy_db s)" "cancels a s = Some run" "\<not> overtaken a s" "busy_statuses \<subseteq> A" "CancelledRun \<notin> A"
  shows "follows A (sy_db s) (snd (cancel_update now run (sy_db s)))"
proof (rule cancel_keeps [of "follows A (sy_db s)"])
  fix st
  assume st: "st = CancelledRun \<or> st = CancellingRun \<and> rr_status run \<noteq> QueuedRun \<and> rr_status run \<noteq> CancellingRun"
  show "follows A (sy_db s) (snd (updateRunStatus now (rr_runId run) (rr_clientId run) st no_patch (sy_db s)))"
  proof (rule follows_update [OF follows_refl assms(1)])
    assume "st \<in> A"
    with st assms(5) have "rr_status run \<noteq> QueuedRun" "rr_status run \<noteq> CancellingRun" by auto
    with assms(2-4) show "run_at (rr_clientId run) (rr_runId run) (sy_db s) = None
        \<or> (\<exists>row. run_at (rr_clientId run) (rr_runId run) (sy_db s) = Some row \<and> rw_status row \<in> A)"
      by (auto simp: overtaken_def split: option.splits)
  qed
qed simp

lemma cancel_db:
  "cancels a s = Some run \<Longrightarrow> \<exists>now. sy_db (perform Q w a s) = snd (cancel_update now run (sy_db s))
     \<and> sy_loops (perform Q w a s) = sy_loops s"
proof -
  assume c: "cancels a s = Some run"
  obtain now k where "perform Q w a s = with_db (snd (cancel_update now run (sy_db s))) (s\<lparr>sy_calls := remove_at k (sy_calls s)\<rparr>)"
    by (rule cancel_step [OF c, of Q w])
  then show ?thesis by (auto simp: with_db_def)
qed


section \<open>One active run for a session\<close>





section \<open>No run is left behind\<close>

fun works_on :: "worker_loop \<Rightarrow> jsstring \<times> jsstring \<Rightarrow> bool" where
  "works_on (LoopRunning a) k \<longleftrightarrow> run_key (ar_run a) = k"
| "works_on (LoopAskEnd a b) k \<longleftrightarrow> run_key (ar_run a) = k"
| "works_on (LoopAskFail run e b) k \<longleftrightarrow> run_key run = k"
| "works_on _ k \<longleftrightarrow> False"

fun loop_died :: "worker_loop \<Rightarrow> bool" where
  "loop_died (LoopCompleting c failure) \<longleftrightarrow> failure \<noteq> None"
| "loop_died (LoopEnded failure) \<longleftrightarrow> failure \<noteq> None"
| "loop_died _ \<longleftrightarrow> False"

definition busy_key :: "runtime_db \<Rightarrow> jsstring \<times> jsstring \<Rightarrow> bool" where
  "busy_key db k \<longleftrightarrow> (\<exists>row \<in> set (db_runs db). row_key row = k \<and> rw_status row \<in> busy_statuses)"

lemma busy_follows: "follows busy_statuses db0 db \<Longrightarrow> busy_key db k \<Longrightarrow> busy_key db0 k"
  unfolding follows_def busy_key_def same_run_def row_key_def by (metis)

text \<open>A loop that worked on \<open>k\<close> still does, or died, or the run has ended.\<close>

definition loop_settled :: "jsstring \<times> jsstring \<Rightarrow> worker_loop \<times> runtime_db \<Rightarrow> bool" where
  "loop_settled k res \<longleftrightarrow> works_on (fst res) k \<or> loop_died (fst res) \<or> \<not> busy_key (snd res) k"

lemma settled_end:
  assumes "isTerminalStatus st" "\<And>e db. loop_settled (run_key run) (failed e db)"
  shows "loop_settled (run_key run) (end_with now run st patch failed db)"
proof (cases "updateRunStatus now (rr_runId run) (rr_clientId run) st patch db")
  case (Pair res db')
  show ?thesis
  proof (cases res)
    case (Inr r)
    with Pair have "updateRunStatus now (rr_runId run) (rr_clientId run) st patch db = (Inr r, db')" by simp
    note writes = update_writes(1) [OF this]
    have "\<not> busy_key db' (run_key run)"
    proof
      assume "busy_key db' (run_key run)"
      then obtain row where "row \<in> set (db_runs db')" "row_key row = run_key run" "rw_status row \<in> busy_statuses"
        unfolding busy_key_def by blast
      with writes have "st \<in> busy_statuses" unfolding run_key_def by metis
      with assms(1) show False by (auto simp: busy_statuses_def isTerminalStatus_def)
    qed
    with Pair Inr show ?thesis by (simp add: end_with_def loop_settled_def)
  qed (simp add: end_with_def Pair assms(2))
qed

lemma settled_give_up [simp]: "loop_settled k (give_up run e db)"
  by (simp add: give_up_def loop_settled_def)

lemma run_read:
  assumes "db_consistent db" "map_row toRunRecord (find (is_run c r) (db_runs db)) = Inr (Some run)" "isTerminalStatus (rr_status run)"
  shows "\<not> busy_key db (c, r)"
proof
  assume "busy_key db (c, r)"
  then obtain x where x: "x \<in> set (db_runs db)" "row_key x = (c, r)" "rw_status x \<in> busy_statuses" by (auto simp: busy_key_def)
  obtain row where row: "find (is_run c r) (db_runs db) = Some row" "toRunRecord row = Inr run"
    using assms(2) by (auto simp: map_row_found)
  have "run_at c r db = Some x" using run_at_iff [OF assms(1), of c r x] x by (simp add: row_key_def)
  with row x(3) toRunRecord_fields [OF row(2)] assms(3) show False
    by (auto simp: run_at_def busy_statuses_def isTerminalStatus_def)
qed

lemma settled_catch: "db_consistent db \<Longrightarrow> loop_settled (run_key run) (worker_catch now run b e db)"
proof -
  assume c: "db_consistent db"
  have "\<not> busy_key db (run_key run)"
    if "map_row toRunRecord (find (is_run (rr_clientId run) (rr_runId run)) (db_runs db)) = Inr (Some r)" "isTerminalStatus (rr_status r)" for r
    using run_read [OF c that] by (simp add: run_key_def)
  then show ?thesis
    by (auto simp: worker_catch_def isTerminalStatus_def loop_settled_def [of _ "(_, _)"] split: sum.splits option.splits intro!: settled_end)
qed

lemma settled_fail: "loop_settled (run_key run) (fail_update now stopping run e b db)"
  by (auto simp: fail_update_def isTerminalStatus_def intro!: settled_end)

lemma settled_end_catch:
  assumes "db_consistent db" "isTerminalStatus st"
  shows "loop_settled (run_key run) (end_with now run st patch (worker_catch now' run b) db)"
proof (cases "updateRunStatus now (rr_runId run) (rr_clientId run) st patch db")
  case (Pair res db')
  have "db_consistent db'" using keepsD [OF keeps_updateRunStatus assms(1)] Pair by (metis snd_conv)
  from settled_catch [OF this] Pair
  have c: "res = Inl e \<Longrightarrow> loop_settled (run_key run) (end_with now run st patch (worker_catch now' run b) db)" for e
    by (simp add: end_with_def)
  show ?thesis
  proof (cases res)
    case (Inr r)
    with Pair have "end_with now run st patch (worker_catch now' run b) db = end_with now run st patch (give_up run) db"
      by (simp add: end_with_def)
    with settled_end [OF assms(2), of run "give_up run" now patch db] show ?thesis by simp
  qed (rule c)
qed

lemma settled_returned: "db_consistent db \<Longrightarrow> loop_settled (run_key (ar_run a)) (agent_returned clock stopping a db)"
proof -
  assume c: "db_consistent db"
  let ?run = "ar_run a"
  have "\<not> busy_key db (run_key ?run)"
    if "map_row toRunRecord (find (is_run (rr_clientId ?run) (rr_runId ?run)) (db_runs db)) = Inr (Some r)" "isTerminalStatus (rr_status r)" for r
    using run_read [OF c that] by (simp add: run_key_def)
  then show ?thesis using settled_catch [OF c] settled_end_catch [OF c]
    by (auto simp: agent_returned_def Let_def isTerminalStatus_def loop_settled_def [of _ "(_, _)"] split: sum.splits option.splits)
qed

lemma settled_end_update: "db_consistent db \<Longrightarrow> loop_settled (run_key (ar_run a)) (end_update clock a b db)"
  by (auto simp: end_update_def isTerminalStatus_def intro!: settled_end_catch)

text \<open>A run that is begun is worked on, and no other becomes busy.\<close>

lemma update_other_busy:
  assumes "busy_key (snd (updateRunStatus now r c st p db)) k" "k \<noteq> (c, r)"
  shows "busy_key db k"
proof -
  have "busy_key db k" if "row' \<in> set (map_where (is_run c r) f (db_runs db))" "row_key row' = k" "rw_status row' \<in> busy_statuses"
      "\<And>row. row_key (f row) = row_key row" for f row'
  proof -
    from that(1) obtain row where row: "row \<in> set (db_runs db)" "row' = (if is_run c r row then f row else row)"
      by (auto simp: map_where_def)
    have "\<not> is_run c r row" using row(2) that(2,4) assms(2) by (auto simp: is_run_def row_key_def split: if_splits)
    with row that show ?thesis by (auto simp: busy_key_def)
  qed
  moreover have "row_key (set_status st p t cur row) = row_key row" for t cur row by (simp add: row_key_def)
  ultimately show ?thesis using assms(1) update_runs [of now r c st p db] unfolding busy_key_def by metis
qed

lemma begin_outcome:
  assumes "begin_claimed clock w made claimed run db = (l, db', asked)"
  defines "u \<equiv> updateRunStatus (clock 0) (rr_runId run) (rr_clientId run) RunningRun (no_patch\<lparr>sp_workerId := Some w\<rparr>)"
  obtains db1 e r1 where "db1 = db \<or> db1 = snd (u db)" "run_key r1 = run_key run" "(l, db') = worker_catch (clock 1) r1 False e db1"
  | "db' = snd (u db)" "works_on l (run_key run)"
proof -
  let ?f = "bind_eff (getSession (rr_clientId run) (rr_sessionId run)) (\<lambda>s.
      bind_eff (case s of None \<Rightarrow> throw (js ''Runtime session not found'') | Some x \<Rightarrow> ret x) (\<lambda>session.
      bind_eff (listMessages (rr_clientId run) (rr_sessionId run)) (\<lambda>messages.
      bind_eff u (\<lambda>activeRun. ret (session, messages, activeRun)))))"
  have f: "snd (?f db) = db \<or> snd (?f db) = snd (u db)"
    by (auto simp: bind_eff_def listMessages_def query_def throw_def ret_def split: prod.splits sum.splits option.splits)
  have r: "u db = (Inr r1, db1)" if "?f db = (Inr (session, messages, r1), db1)" for session messages r1 db1
    using that by (auto simp: bind_eff_def listMessages_def query_def throw_def ret_def split: prod.splits sum.splits option.splits)
  have b: "begin_claimed clock w made claimed run db = (case ?f db of
        (Inl e, db1) \<Rightarrow> (case worker_catch (clock 1) run False e db1 of (l, db2) \<Rightarrow> (l, db2, False))
      | (Inr (session, messages, activeRun), db1) \<Rightarrow>
          (case made of
             Some e \<Rightarrow> (case worker_catch (clock 1) activeRun False e db1 of (l, db2) \<Rightarrow> (l, db2, True))
           | None \<Rightarrow>
               (LoopRunning \<lparr>ar_run = activeRun, ar_session = session, ar_messages = messages, ar_task = agent_task_of messages,
                  ar_messageEndKeys = [], ar_cancelRequested = False, ar_aborted = False\<rparr>, db1, True)))"
    unfolding u_def by (rule begin_claimed_def)
  obtain res db1 where fd: "?f db = (res, db1)" by (rule prod.exhaust)
  show thesis
  proof (cases res)
    case (Inl e)
    then have "(l, db') = worker_catch (clock 1) run False e db1" using assms(1) unfolding b fd by (simp split: prod.splits)
    with f fd show thesis using that(1) [of db1 run e] by simp
  next
    case (Inr x)
    obtain session messages r1 where x: "x = (session, messages, r1)" by (rule prod_cases3)
    have u: "u db = (Inr r1, db1)" using r fd Inr x by blast
    have k: "run_key r1 = run_key run" using update_writes(2,3) [OF u [unfolded u_def]] by (simp add: run_key_def)
    show thesis
    proof (cases made)
      case None
      then show thesis using assms(1) that(2) u k unfolding b fd Inr x by auto
    next
      case (Some e)
      then have "(l, db') = worker_catch (clock 1) r1 False e db1" using assms(1) unfolding b fd Inr x by (simp split: prod.splits)
      then show thesis using that(1) [of db1 r1 e] u k by simp
    qed
  qed
qed

lemma begin_busy:
  assumes "db_consistent db" "begin_claimed clock w made claimed run db = (l, db', asked)"
  shows "busy_key db' k \<Longrightarrow> k \<noteq> run_key run \<Longrightarrow> busy_key db k" "loop_settled (run_key run) (l, db')"
proof -
  let ?u = "updateRunStatus (clock 0) (rr_runId run) (rr_clientId run) RunningRun (no_patch\<lparr>sp_workerId := Some w\<rparr>)"
  have u: "db_consistent (snd (?u db))" by (rule keepsD [OF keeps_updateRunStatus assms(1)])
  have o: "busy_key (snd (?u db)) k \<Longrightarrow> k \<noteq> run_key run \<Longrightarrow> busy_key db k" for k
    using update_other_busy unfolding run_key_def by blast
  have "(busy_key db' k \<longrightarrow> k \<noteq> run_key run \<longrightarrow> busy_key db k) \<and> loop_settled (run_key run) (l, db')" for k
  proof (rule begin_outcome [OF assms(2)])
    fix db1 e r1
    assume d: "db1 = db \<or> db1 = snd (?u db)" and r: "run_key r1 = run_key run" and l: "(l, db') = worker_catch (clock 1) r1 False e db1"
    have c: "db_consistent db1" using d u assms(1) by blast
    have "consistent_follows busy_statuses db1 db1" using c by simp
    from busy.catch_keeps [OF this, of "clock 1" r1 False e] have "follows busy_statuses db1 db'"
      unfolding l [symmetric] snd_conv by (rule conjunct2)
    from busy_follows [OF this] d o have "busy_key db' k \<longrightarrow> k \<noteq> run_key run \<longrightarrow> busy_key db k" by blast
    moreover from settled_catch [OF c, of r1 "clock 1" False e] have "loop_settled (run_key run) (l, db')" unfolding l [symmetric] r .
    ultimately show ?thesis ..
  qed (use o in \<open>auto simp: loop_settled_def\<close>)
  then show "busy_key db' k \<Longrightarrow> k \<noteq> run_key run \<Longrightarrow> busy_key db k" "loop_settled (run_key run) (l, db')" by blast+
qed

lemma claimed_busy:
  assumes "db_consistent db" "process_claimed clock w made claimed db = (l, db', asked)"
  shows "busy_key db' k \<Longrightarrow> busy_key db k \<or> loop_settled k (l, db')"
proof -
  assume k: "busy_key db' k"
  consider "db' = db" | run where "begin_claimed clock w made claimed run db = (l, db', asked)"
    using assms(2) by (auto simp: process_claimed_def split: option.splits sum.splits if_splits)
  then show ?thesis
  proof cases
    case 2
    from begin_busy [OF assms(1) this] k show ?thesis by metis
  qed (use k in simp)
qed

text \<open>Every run that is busy has a loop that works on it, or a loop died.\<close>

definition attended :: "'q run_system \<Rightarrow> bool" where
  "attended s \<longleftrightarrow> (\<forall>k. busy_key (sy_db s) k \<longrightarrow> (\<exists>l \<in> set (sy_loops s). works_on l k \<or> loop_died l))"

lemma attended_loops:
  assumes "attended s" "\<And>k. busy_key (sy_db s') k \<Longrightarrow> busy_key (sy_db s) k"
    and "\<And>l k. l \<in> set (sy_loops s) \<Longrightarrow> works_on l k \<or> loop_died l \<Longrightarrow> \<exists>l' \<in> set (sy_loops s'). works_on l' k \<or> loop_died l'"
  shows "attended s'"
  using assms unfolding attended_def by meson

lemma attended_same: "attended s \<Longrightarrow> (\<And>k. busy_key (sy_db s') k \<Longrightarrow> busy_key (sy_db s) k) \<Longrightarrow> sy_loops s' = sy_loops s \<Longrightarrow> attended s'"
  unfolding attended_def by metis

lemma attended_one:
  assumes "attended s" "i < length (sy_loops s)" "sy_loops s' = (sy_loops s)[i := l]"
    and "\<And>k. busy_key (sy_db s') k \<Longrightarrow> busy_key (sy_db s) k \<or> loop_settled k (l, sy_db s')"
    and "\<And>k. works_on (sy_loops s ! i) k \<Longrightarrow> loop_settled k (l, sy_db s')" "loop_died (sy_loops s ! i) \<Longrightarrow> loop_died l"
  shows "attended s'"
  unfolding attended_def
proof (intro allI impI)
  fix k
  assume k: "busy_key (sy_db s') k"
  have l: "l \<in> set (sy_loops s')" using assms(2,3) by (simp add: set_update_memI)
  show "\<exists>l' \<in> set (sy_loops s'). works_on l' k \<or> loop_died l'"
  proof (cases "loop_settled k (l, sy_db s')")
    case True
    then show ?thesis using k l by (auto simp: loop_settled_def)
  next
    case False
    with assms(4) k have "busy_key (sy_db s) k" by blast
    with assms(1) obtain l0 where l0: "l0 \<in> set (sy_loops s)" "works_on l0 k \<or> loop_died l0" unfolding attended_def by blast
    then obtain j where j: "j < length (sy_loops s)" "l0 = sy_loops s ! j" by (auto simp: in_set_conv_nth)
    show ?thesis
    proof (cases "j = i")
      case True
      with j(2) l0(2) False assms(5) have "loop_died l" using assms(6) by blast
      with l show ?thesis by blast
    next
      case False
      then have "sy_loops s' ! j = l0" "j < length (sy_loops s')" using j assms(3) by simp_all
      then have "l0 \<in> set (sy_loops s')" using nth_mem by metis
      with l0(2) show ?thesis by blast
    qed
  qed
qed

section \<open>Who becomes busy\<close>

lemma step_busy:
  assumes "db_consistent (sy_db s)" "action_ok a" "\<not> overtaken a s" "\<not> is_start_claimed a" "busy_key (sy_db (perform Q w a s)) k"
  shows "busy_key (sy_db s) k"
proof (cases "is_start_request a")
  case True
  then obtain clock ns nr c request where a: "a = RequestStart clock ns nr c request" by (rule start_step)
  let ?r = "startRun_begin clock ns nr c request (sy_db s)"
  have e: "start_effect c nr (sy_db s) ?r" using startRun_effect [OF assms(1)] assms(2) a by (simp add: action_ok_def)
  have "\<exists>new. db_runs (snd ?r) = db_runs (sy_db s) @ new \<and> (\<forall>row \<in> set new. rw_status row = QueuedRun)"
  proof (cases "fst ?r")
    case (Inl err)
    with e show ?thesis by (intro exI [of _ "[]"]) (simp add: start_effect_def)
  next
    case (Inr res)
    with e have "adds_run c nr (sy_db s) (snd ?r)" by (simp add: start_effect_def)
    then obtain row where row: "db_runs (snd ?r) = db_runs (sy_db s) @ [row]" "rw_status row = QueuedRun"
      unfolding adds_run_def by blast
    then show ?thesis by (intro exI [of _ "[row]"]) simp
  qed
  moreover have "busy_key (snd ?r) k" using assms(5) by (simp add: a start_request)
  ultimately show ?thesis by (auto simp: busy_key_def busy_statuses_def)
next
  case False
  have "follows busy_statuses (sy_db s) (sy_db (perform Q w a s))"
  proof (cases "cancels a s")
    case None
    have c: "consistent_follows busy_statuses (sy_db s) (sy_db s)" using assms(1) by simp
    have "consistent_follows busy_statuses (sy_db s) (sy_db (perform Q w a s))"
      by (rule busy.steps_keep [OF c assms(2) False None]) (use assms(4) in \<open>simp add: is_start_claimed_def\<close>)
    then show ?thesis by (rule conjunct2)
  next
    case (Some run)
    have "follows busy_statuses (sy_db s) (snd (cancel_update now run (sy_db s)))" for now
      by (rule cancel_follows [OF assms(1) Some assms(3)]) (auto simp: busy_statuses_def)
    with cancel_db [OF Some, of Q w] show ?thesis by auto
  qed
  from busy_follows [OF this assms(5)] show ?thesis .
qed

text \<open>What the steps do to the loops.\<close>

definition dies :: "run_action \<Rightarrow> bool" where
  "dies a \<longleftrightarrow> (case a of WorkerDies \<Rightarrow> True | _ \<Rightarrow> False)"

lemma works_on_kept [simp]:
  "works_on (set_keys keys l) k = works_on l k" "loop_died (set_keys keys l) = loop_died l"
  "works_on (abort_loop l) k = works_on l k" "loop_died (abort_loop l) = loop_died l"
  "works_on (cancel_loop run l) k = works_on l k" "loop_died (cancel_loop run l) = loop_died l"
  by (cases l; auto simp: set_keys_def cancel_loop_def)+

lemma settled_works [simp]: "works_on l k \<Longrightarrow> loop_settled k (l, db)" "loop_died l \<Longrightarrow> loop_settled k (l, db)"
  by (simp_all add: loop_settled_def)

lemma attended_start_claimed:
  assumes "attended s" "db_consistent (sy_db s)"
  shows "attended (start_claimed clock w made i s)"
proof (cases "i < length (sy_loops s) \<and> (\<exists>c. sy_loops s ! i = LoopClaimed c)")
  case True
  then obtain c where c: "i < length (sy_loops s)" "sy_loops s ! i = LoopClaimed c" by blast
  obtain l db asked where p: "process_claimed clock w made c (sy_db s) = (l, db, asked)" by (rule prod_cases3)
  show ?thesis
    by (rule attended_one [OF assms(1) c(1), of _ l])
      (use c p claimed_busy [OF assms(2) p] in \<open>simp_all add: start_claimed_def with_loop_def with_db_def\<close>)
next
  case False
  then have "start_claimed clock w made i s = s" by (auto simp: start_claimed_def split: worker_loop.splits)
  with assms(1) show ?thesis by simp
qed

text \<open>Loop \<open>i\<close> goes on from where it was, and what it worked on is loop_settled.\<close>

definition loop_moves :: "nat \<Rightarrow> 'q run_system \<Rightarrow> 'q run_system \<Rightarrow> bool" where
  "loop_moves i s s' \<longleftrightarrow> sy_loops s' = sy_loops s \<or>
     (i < length (sy_loops s) \<and> (\<exists>l. sy_loops s' = (sy_loops s)[i := l]
        \<and> (\<forall>k. works_on (sy_loops s ! i) k \<longrightarrow> loop_settled k (l, sy_db s')) \<and> (loop_died (sy_loops s ! i) \<longrightarrow> loop_died l)))"

lemma loop_moves_same [simp]: "sy_loops s' = sy_loops s \<Longrightarrow> loop_moves i s s'"
  by (simp add: loop_moves_def)

lemma loop_movesI:
  "i < length (sy_loops s) \<Longrightarrow> sy_loops s' = (sy_loops s)[i := l] \<Longrightarrow>
     (\<And>k. works_on (sy_loops s ! i) k \<Longrightarrow> loop_settled k (l, sy_db s')) \<Longrightarrow> (loop_died (sy_loops s ! i) \<Longrightarrow> loop_died l) \<Longrightarrow> loop_moves i s s'"
  unfolding loop_moves_def by blast

lemma attended_moves:
  assumes "attended s" "loop_moves i s s'" "\<And>k. busy_key (sy_db s') k \<Longrightarrow> busy_key (sy_db s) k"
  shows "attended s'"
  using assms(2) unfolding loop_moves_def
proof (elim disjE conjE exE)
  assume "sy_loops s' = sy_loops s"
  from attended_same [OF assms(1,3) this] show ?thesis .
next
  fix l
  assume l: "i < length (sy_loops s)" "sy_loops s' = (sy_loops s)[i := l]"
    "\<forall>k. works_on (sy_loops s ! i) k \<longrightarrow> loop_settled k (l, sy_db s')" "loop_died (sy_loops s ! i) \<longrightarrow> loop_died l"
  show ?thesis by (rule attended_one [OF assms(1) l(1,2)]) (use assms(3) l(3,4) in blast)+
qed

lemma with_loop_moves:
  assumes "i < length (sy_loops s)" "sy_loops s0 = sy_loops s" "sy_db s0 = db"
    and "\<And>k. works_on (sy_loops s ! i) k \<Longrightarrow> loop_settled k (l, db)" "loop_died (sy_loops s ! i) \<Longrightarrow> loop_died l"
  shows "loop_moves i s (with_loop i l s0)"
  by (rule loop_movesI [OF assms(1), of _ l]) (use assms in \<open>simp_all add: with_loop_def\<close>)

lemma sy_with_db [simp]: "sy_loops (with_db db s) = sy_loops s" "sy_db (with_db db s) = db"
  by (simp_all add: with_db_def)

lemma loop_claim_moves: "loop_moves i s (loop_claim i s)"
  by (auto simp: loop_claim_def intro!: with_loop_moves [OF _ refl refl])

lemma claim_answered_moves: "loop_moves i s (claim_answered Q w i s)"
  by (auto simp: claim_answered_def intro!: with_loop_moves [where db = "sy_db s"] split: prod.splits sum.splits option.splits)

lemma agent_event_moves: "loop_moves i s (agent_reports clock i event s)"
  by (auto simp: agent_reports_def intro!: with_loop_moves split: prod.splits option.splits)

lemma agent_ends_moves: "db_consistent (sy_db s) \<Longrightarrow> loop_moves i s (agent_ends clock i failure s)"
  using settled_returned [of "sy_db s"] settled_catch [of "sy_db s"]
  by (auto simp: agent_ends_def intro!: with_loop_moves split: worker_loop.splits prod.splits option.splits) metis+

lemma cancel_answered_moves: "db_consistent (sy_db s) \<Longrightarrow> loop_moves i s (cancel_answered Q now i s)"
  using settled_catch [of "sy_db s"]
  by (auto simp: cancel_answered_def intro!: with_loop_moves
      split: worker_loop.splits prod.splits option.splits sum.splits) metis+

lemma write_end_moves: "db_consistent (sy_db s) \<Longrightarrow> loop_moves i s (write_end clock i s)"
  using settled_end_update [of "sy_db s"] settled_fail
  by (auto simp: write_end_def intro!: with_loop_moves split: worker_loop.splits prod.splits option.splits) metis+

lemma complete_claim_moves: "loop_moves i s (complete_claim Q w i s)"
  by (auto simp: complete_claim_def Let_def intro!: with_loop_moves [where db = "sy_db s"]
      split: worker_loop.splits prod.splits option.splits sum.splits)

lemma poll_acts_moves: "loop_moves (fst (sy_polls s ! k)) s (poll_acts now k s)"
  by (auto simp: poll_acts_def Let_def intro!: with_loop_moves [OF _ _ refl] split: prod.splits)

lemma step_attended:
  assumes "attended s" "db_consistent (sy_db s)" "action_ok a" "\<not> dies a" "\<not> overtaken a s"
  shows "attended (perform Q w a s)"
proof -
  have busy: "busy_key (sy_db s) k" if "\<not> is_start_claimed a" "busy_key (sy_db (perform Q w a s)) k" for k
    using step_busy [OF assms(2,3,5) that] .
  note one = attended_one [OF assms(1)]
  note kept = attended_same [OF assms(1)]
  show ?thesis
  proof (cases a)
    case (RequestStart clock ns nr c request)
    show ?thesis by (rule kept [OF busy]) (simp_all add: RequestStart is_start_claimed_def start_request)
  next
    case (RequestCancel c r)
    show ?thesis by (rule kept [OF busy])
      (simp_all add: RequestCancel is_start_claimed_def request_cancel_def with_db_def split: prod.splits sum.splits)
  next
    case (RequestDelete c sid force)
    show ?thesis by (rule kept [OF busy])
      (simp_all add: RequestDelete is_start_claimed_def request_delete_def with_db_def split: prod.splits sum.splits)
  next
    case (RequestGoesOn now k)
    show ?thesis by (rule kept [OF busy])
      (simp_all add: RequestGoesOn is_start_claimed_def request_goes_on_def with_db_def Let_def split: prod.splits sum.splits api_call.splits)
  next
    case (StartWorker n)
    show ?thesis by (rule attended_loops [OF assms(1) busy])
      (auto simp add: StartWorker is_start_claimed_def start_worker_def)
  next
    case (StopWorker now)
    show ?thesis by (rule attended_loops [OF assms(1) busy])
      (auto simp add: StopWorker is_start_claimed_def stop_worker_def with_db_def Let_def split: prod.splits sum.splits)
  next
    case WorkerDies
    with assms(4) show ?thesis by (simp add: dies_def)
  next
    case (MarkInterrupted now)
    show ?thesis by (rule kept [OF busy]) (simp_all add: MarkInterrupted is_start_claimed_def with_db_def)
  next
    case (StartClaimed clock made i)
    from attended_start_claimed [OF assms(1,2)] show ?thesis by (simp add: StartClaimed)
  next
    case (PollAsks i)
    show ?thesis by (rule kept [OF busy])
      (simp_all add: PollAsks is_start_claimed_def poll_asked_def split: prod.splits sum.splits option.splits bool.splits)
  next
    case (PollActs now k)
    show ?thesis unfolding PollActs perform.simps
      by (rule attended_moves [OF assms(1) poll_acts_moves busy [unfolded PollActs perform.simps]]) (simp_all add: is_start_claimed_def)
  next
    case (LoopClaims i)
    show ?thesis unfolding LoopClaims perform.simps
      by (rule attended_moves [OF assms(1) loop_claim_moves busy [unfolded LoopClaims perform.simps]]) (simp_all add: is_start_claimed_def)
  next
    case (ClaimAnswered i)
    show ?thesis unfolding ClaimAnswered perform.simps
      by (rule attended_moves [OF assms(1) claim_answered_moves busy [unfolded ClaimAnswered perform.simps]]) (simp_all add: is_start_claimed_def)
  next
    case (AgentReports clock i event)
    show ?thesis unfolding AgentReports perform.simps
      by (rule attended_moves [OF assms(1) agent_event_moves busy [unfolded AgentReports perform.simps]]) (simp_all add: is_start_claimed_def)
  next
    case (AgentEnds clock i failure)
    show ?thesis unfolding AgentEnds perform.simps
      by (rule attended_moves [OF assms(1) agent_ends_moves [OF assms(2)] busy [unfolded AgentEnds perform.simps]]) (simp_all add: is_start_claimed_def)
  next
    case (CancelAnswered now i)
    show ?thesis unfolding CancelAnswered perform.simps
      by (rule attended_moves [OF assms(1) cancel_answered_moves [OF assms(2)] busy [unfolded CancelAnswered perform.simps]]) (simp_all add: is_start_claimed_def)
  next
    case (WriteEnd clock i)
    show ?thesis unfolding WriteEnd perform.simps
      by (rule attended_moves [OF assms(1) write_end_moves [OF assms(2)] busy [unfolded WriteEnd perform.simps]]) (simp_all add: is_start_claimed_def)
  next
    case (CompleteClaim i)
    show ?thesis unfolding CompleteClaim perform.simps
      by (rule attended_moves [OF assms(1) complete_claim_moves busy [unfolded CompleteClaim perform.simps]]) (simp_all add: is_start_claimed_def)
  qed
qed

text \<open>C30 No run is left behind: while the worker lives, every run that is running or being cancelled has a loop of the worker
  that works on it, or a loop died of an error of the queue or the database, as long as no cancellation is overtaken.\<close>

theorem no_run_left_behind:
  assumes "list_all (\<lambda>a. action_ok a \<and> \<not> dies a) acts" "never_overtaken Q w acts (new_run_system q)"
    and "s = perform_all Q w acts (new_run_system q)" "busy_key (sy_db s) k" "list_all (\<lambda>l. \<not> loop_died l) (sy_loops s)"
  shows "list_ex (\<lambda>l. works_on l k) (sy_loops s)"
proof -
  have "db_consistent (sy_db s) \<Longrightarrow> attended s \<Longrightarrow> list_all (\<lambda>a. action_ok a \<and> \<not> dies a) acts \<Longrightarrow> never_overtaken Q w acts s
      \<Longrightarrow> attended (perform_all Q w acts s)" for s
  proof (induction acts arbitrary: s)
    case (Cons a acts)
    then show ?case using step_consistent [of s a Q w] step_attended [of s a Q w] by simp
  qed simp
  note all = this [OF _ _ assms(1,2)]
  have "sy_db (new_run_system q) = new_runtime_db" by (simp add: new_run_system_def)
  moreover from this have "attended (new_run_system q)" by (simp add: attended_def busy_key_def new_runtime_db_def)
  ultimately have "attended s" unfolding assms(3) by (intro all) (simp_all add: new_consistent)
  with assms(4) obtain l where "l \<in> set (sy_loops s)" "works_on l k \<or> loop_died l" unfolding attended_def by blast
  with assms(5) show ?thesis by (auto simp: list_ex_iff list_all_iff)
qed

section \<open>The example\<close>

lemma demo_ok: "list_all (\<lambda>a. action_ok a \<and> \<not> dies a) demo_actions"
  by code_simp

lemma demo_not_overtaken: "never_overtaken InMemoryRunQueue (js ''w'') demo_actions (new_run_system new_mem_queue)"
  by code_simp

lemma demo_busy: "busy_key (sy_db demo_system) (js ''c'', js ''r'')" "list_all (\<lambda>l. \<not> loop_died l) (sy_loops demo_system)"
  by code_simp+

theorem no_run_left_behind_witness:
  "list_ex (\<lambda>l. works_on l (js ''c'', js ''r'')) (sy_loops demo_system)"
  by (rule no_run_left_behind [OF demo_ok demo_not_overtaken demo_system_def demo_busy])


text \<open>
  A cancellation that is overtaken: the run is read while it runs, completes, and is then written as being cancelled. No
  loop works on it, the session takes no further run, and cancelling again changes nothing.
\<close>

definition overtaken_actions :: "run_action list" where
  "overtaken_actions =
     [RequestStart demo_clock (js ''x'') (js ''r'') (js ''c'') demo_request,
      RequestGoesOn (js ''t'') 0, StartWorker 1, LoopClaims 0, ClaimAnswered 0, StartClaimed demo_clock None 0,
      RequestCancel (js ''c'') (js ''r''), AgentEnds demo_clock 0 None, CancelAnswered (js ''t'') 0, WriteEnd demo_clock 0,
      RequestGoesOn (js ''t'') 0, RequestGoesOn (js ''t'') 0, CompleteClaim 0]"

definition overtaken_system :: "mem_queue run_system" where
  "overtaken_system = perform_all InMemoryRunQueue (js ''w'') overtaken_actions (new_run_system new_mem_queue)"

theorem late_cancellation_blocks_session:
  "busy_key (sy_db overtaken_system) (js ''c'', js ''r'')" "sy_loops overtaken_system = [LoopIdle]"
  "fst (startRun_begin demo_clock (js ''x'') (js ''q'') (js ''c'') demo_request (sy_db overtaken_system))
     = Inl (RunApiError (already_active (js ''s'')) 409)"
  by code_simp+

section \<open>Runs in a queue of texts\<close>

text \<open>A run of a client is read back from the text it is queued as, and keys of different runs differ.\<close>

lemma queued_run_read_back: "parseQueueItem (serializeQueueItem (RunOf (Some c) r)) = \<lparr>cl_clientId = Some c, cl_runId = r\<rparr>"
proof -
  have k: "js ''clientId'' \<noteq> js ''runId''" by code_simp
  then have "json_ok (identity_json c r)" by (simp add: identity_json_def)
  from json_roundtrip [OF this] k show ?thesis by (simp add: parseQueueItem_def identity_json_def)
qed

lemma runKey_distinct:
  assumes "runKey (RunOf (Some c) r) = runKey (RunOf (Some c') r')" "c \<noteq> []" "c' \<noteq> []"
  shows "c = c' \<and> r = r'"
proof -
  have "stringify (JArr [JStr c, JStr r]) = stringify (JArr [JStr c', JStr r'])"
    using assms by (cases c; cases c') (simp_all add: given_client_def nonempty_text_def)
  then have "json_parse (stringify (JArr [JStr c, JStr r])) = json_parse (stringify (JArr [JStr c', JStr r']))" by simp
  then show ?thesis using json_roundtrip [of "JArr [JStr c, JStr r]"] json_roundtrip [of "JArr [JStr c', JStr r']"] by simp
qed

end
