(* ===== verification/Spec2Isabelle.thy ===== *)
theory Spec2Isabelle
  imports Compaction_Properties Agent_Properties Output_Properties Edit_Properties
    Agent_Session_Properties Agent_Session_Outcomes Template_Substitution Message_Sending
    Json_Properties Stdin_Properties Run_Exclusion
begin

text \<open>
  A verification library for the pi coding agent (\<open>src/pi-mono-0.73.0/packages\<close>): the session that stores a
  conversation, the agent that runs it against a model, the compaction that keeps it within the model's
  context window, and the tools' treatment of text.

  The program. \<open>coding-agent/src/core/session-manager.ts\<close> keeps a conversation as an append-only tree of
  entries in a file; a leaf selects the branch that is the current context. \<open>agent/src/agent-loop.ts\<close> sends a
  context to a model, runs the tools the model asks for and repeats; it reports events to a sink.
  \<open>agent/src/agent.ts\<close> owns the transcript: it reduces the events to its state, notifies listeners and feeds
  queued messages into the loop. \<open>ai/src/utils/event-stream.ts\<close> carries events to consumers.
  \<open>coding-agent/src/core/compaction\<close> replaces an old part of a branch by a summary, and summarises a branch
  that is left. \<open>coding-agent/src/core/tools\<close> has the tools; \<open>truncate.ts\<close>, \<open>output-accumulator.ts\<close> and
  \<open>edit-diff.ts\<close> are their core. \<open>coding-agent/src/core/agent-session.ts\<close> ties them together: it records the
  agent's events in the session, retries and compacts, takes prompts, and navigates in the tree.

  Strings are lists of UTF-16 code units; a call that may throw returns \<open>Inl message\<close> or \<open>Inr value\<close> with the
  state it leaves; code that is not in the repository, and the model behind the provider, are parameters.

  Shared.
  \<^item> \<open>Js_Prelude\<close>: strings, JSON, effects that may throw, searches in lists.
  \<^item> \<open>Pi_Messages\<close> (\<open>messages.ts\<close>, \<open>ai/src/types.ts\<close>): messages and \<open>convertToLlm\<close>.

  Sessions (\<open>session-manager.ts\<close>).
  \<^item> \<open>Session_Manager\<close>: entries, state and operations. \<open>Session_Tree\<close>: the entries form a tree, so the walk to
    the root ends within as much fuel as there are entries. \<open>Session_Context\<close>: the context of a branch.
    \<open>Session_Steps\<close>: operations as a step relation; they fail exactly on unknown ids. \<open>Session_Storage\<close>: the file
    follows the entries. \<open>Session_Branching\<close>: extracting a branch, old file versions.
  \<^item> \<open>Session_Properties\<close>: the invariant of every reachable session, history that is only appended to, contexts
    after an append, a compaction, a reopening or an extraction.

  Compaction (\<open>compaction.ts\<close>, \<open>utils.ts\<close>, \<open>branch-summarization.ts\<close>).
  \<^item> \<open>Compaction_Utils\<close>, \<open>Compaction\<close>, \<open>Summarization\<close>, \<open>Branch_Summary\<close>: the definitions. \<open>Compaction_Cut\<close>,
    \<open>Compaction_Session\<close>: cut points, what a compaction does to the context, compaction inside a session.
  \<^item> \<open>Compaction_Properties\<close>: the budget of a branch summary, conservation of messages, validity and budget of the cut, file lists.

  The agent loop (\<open>agent-loop.ts\<close>, \<open>agent/src/types.ts\<close>).
  \<^item> \<open>Agent_Types\<close>, \<open>Agent_Tools\<close>, \<open>Agent_Run\<close>: the definitions. \<open>Agent_Tools\<close> runs a batch of calls in order or
    in parallel under any schedule of its slots; \<open>Agent_Run\<close> has the turns. A run may go on for ever, so it
    takes fuel, one unit per turn, and is \<open>None\<close> when it runs out; \<open>more_fuel_same_run\<close> and
    \<open>run_without_tools_returns\<close> say what fuel does and when it is enough.
  \<^item> \<open>Agent_Protocol\<close>: the order of events as an automaton. \<open>Agent_Batches\<close>, \<open>Agent_Turns\<close>,
    \<open>Agent_Equivalence\<close>: batches, a streamed response and turns follow it; the two modes agree on one call.
  \<^item> \<open>Loop_Invariant\<close>: locales for a property of the world that every call keeps (\<open>loop_invariant\<close>,
    \<open>run_invariant\<close>) and for sinks that do not fail (\<open>safe_sink\<close>), interpreted in \<open>Agent_Lifecycle\<close> and
    \<open>Agent_Stream_Properties\<close>.
  \<^item> \<open>Agent_Loop_Properties\<close>: the properties, with a concrete run.

  The event stream and the agent.
  \<^item> \<open>Event_Stream\<close> (\<open>event-stream.ts\<close>): push, end and consumers; the locale \<open>event_channel\<close> is the contract,
    interpreted on the stream. \<open>Agent_Stream_Properties\<close>: the loop's stream delivers the run.
  \<^item> \<open>Agent_State\<close> (\<open>agent.ts\<close>): state, queues, reducer, local and remote runs.
    \<open>Agent_Lifecycle\<close>: the state is the reduction of the events; every operation keeps the invariant.
  \<^item> \<open>Agent_Properties\<close>: what a prompt does to the transcript, failure included.

  Tools.
  \<^item> \<open>Truncation\<close> (\<open>truncate.ts\<close>) with \<open>Utf8_Scalars\<close> and \<open>Truncation_Properties\<close>: what is kept, within the limits
    and at character boundaries.
  \<^item> \<open>Output_Accumulator\<close> (\<open>output-accumulator.ts\<close>, \<open>bash.ts\<close>): the streaming decoder, the bounded tail, the temp
    file, the result of a command. \<open>Output_Decoder\<close>, \<open>Output_Text\<close>, \<open>Output_Snapshot\<close>: chunks decode as their
    data, the tail is an end of the text, and truncating it is truncating the text.
    \<open>Output_Properties\<close>: the properties, those of the bash tool included.
  \<^item> \<open>Edit_Matching\<close> (\<open>edit-diff.ts\<close>, \<open>edit.ts\<close>): fuzzy matching, edits, the diff.
    \<open>Edit_Application\<close>: applied edits replace disjoint places. \<open>Diff_Properties\<close>: rows show the
    lines they name. \<open>Edit_Properties\<close>: line endings, failures, white space.

  The agent session (\<open>agent-session.ts\<close>).
  \<^item> \<open>Agent_Session\<close>: its state is the world of the agent it drives, so that its listener is a listener of
    \<open>Agent_State\<close>; events wait in a queue (\<open>handleAgentEvent\<close>) and are processed one by one
    (\<open>processAgentEvent\<close>). \<open>Agent_Session_Recovery\<close>: retries, automatic and manual compaction.
    \<open>Agent_Session_Input\<close>: prompts, queues, bash results, messages of extensions. \<open>Agent_Session_Models\<close>: models
    and thinking levels. \<open>Agent_Session_Tree\<close>: navigation, statistics, export.
  \<^item> \<open>Agent_Session_Host\<close>, \<open>Agent_Session_Runs\<close>: a run leaves the session alone but for its queue of events.
    \<open>Agent_Session_Moves\<close>, \<open>Agent_Session_Effects\<close>: what each operation does to the tree, to the few fields that
    retries, recovery and levels depend on, and which events it announces.
    \<open>Agent_Session_Compactions\<close>, \<open>Agent_Session_Navigation\<close>: sessions that grow by given entries.
    \<open>Agent_Session_Steps\<close>: all operations as one step relation, and the locale \<open>event_monitor\<close> for what a
    listener can observe, interpreted for retries, overflows and levels.
  \<^item> \<open>Agent_Session_Properties\<close>, \<open>Agent_Session_Outcomes\<close>: the properties; \<open>Agent_Session_Demo\<close>: a concrete session.
  \<^item> \<open>Context_Overflow\<close> (\<open>ai/src/utils/overflow.ts\<close>) runs its regular expressions by derivatives; \<open>Thinking_Levels\<close> (\<open>ai/src/models.ts\<close>); \<open>Prompt_Templates\<close> and \<open>Template_Substitution\<close>
    (\<open>prompt-templates.ts\<close>): commands expand as a template of parts.

  What goes to a provider and comes from it.
  \<^item> \<open>Message_Transform\<close> (\<open>ai/src/providers/transform-messages.ts\<close>): the two passes over a conversation.
    \<open>Message_Pairing\<close>, \<open>Message_Sending\<close>: whatever the conversation, what is sent is complete, and a complete
    one is sent whole.
  \<^item> \<open>Json_Text\<close> (\<open>ai/src/utils/json-parse.ts\<close>): a model of \<open>JSON.parse\<close> on texts, with fuel for the nesting that
    its length bounds, and the repair. \<open>Json_Parsing\<close>, \<open>Json_Roundtrip\<close>, \<open>Json_Properties\<close>: texts that are
    JSON are left alone and read back; damaged strings are read.

  The terminal's input.
  \<^item> \<open>Stdin_Buffer\<close> (\<open>tui/src/stdin-buffer.ts\<close>): keys, escape sequences, pastes. \<open>Stdin_Properties\<close>: how the input
    is cut into chunks does not matter.
  \<^item> \<open>Run_Database\<close>, \<open>Run_Api\<close>, \<open>Run_Worker\<close> (\<open>web-workspace/src\<close>: \<open>runtime-db.ts\<close>, \<open>run-queue.ts\<close>,
    \<open>run-api-service.ts\<close>, \<open>run-worker-service.ts\<close>): the runs of the web workspace. Tables are lists of rows with
    the keys of the schema; what runs between two awaits is one step (\<open>perform\<close>) on the database, the queue, the waiting
    requests and the loops of the worker; the agent of a run reports and ends as it likes. Texts are taken to be
    well-formed Unicode in the database. \<open>Run_Database_Facts\<close>, \<open>Run_Worker_Invariants\<close> (locales \<open>status_invariant\<close>,
    \<open>record_invariant\<close>, \<open>step_invariant\<close>, for what all steps keep) and \<open>Run_Lifecycle\<close> carry \<open>Run_Properties\<close>: a
    consistent database, every run started once, events that can be polled; and \<open>Run_Exclusion\<close>: one active run for a
    session and none left behind, unless a cancellation is overtaken by the end of its run.

  Not modelled: the model providers and their protocols (\<open>ai/src/providers\<close>), authentication, settings and model
  registry, the loading of extensions and skills, the package manager, the rest of the terminal interface (\<open>tui\<close>),
  the web interface (\<open>web-ui\<close>, \<open>interactive\<close> and \<open>rpc\<close> modes), the rest of the web workspace (\<open>web-workspace\<close>, \<open>apps\<close>) with its Redis
  queue, the project management application (\<open>pm\<close>), listing and searching session files, and processes, timers and rendering in the tools.
  Of the agent session: its tools and system prompt, binding and reloading extensions, running bash commands, HTML
  export. Extensions, skills, keys and the model's answers are parameters of it.
  Numbers are natural numbers or integers where the code only counts; times and random ids are arguments.
\<close>

end
